(* ===== verification/Go_Prelude.thy ===== *)
theory Go_Prelude
  imports "HOL-Library.Word" "HOL-Library.Multiset"
begin

text \<open>
  Shared vocabulary of the development: the machine integers of the Go sources, the result
  type of a Go function with an \<open>error\<close> return (\<open>Inl\<close> is the error, \<open>Inr\<close> the value), the
  sequencing combinator that stands for \<open>if err != nil { return err }\<close>, and generic lemmas
  on lists and multisets that several components use.
\<close>

section \<open>Machine integers\<close>

type_synonym u8 = "8 word"
type_synonym u16 = "16 word"
type_synonym u32 = "32 word"
type_synonym u64 = "64 word"

lemma unat_of_nat_u8: "n < 256 \<Longrightarrow> unat (word_of_nat n :: u8) = n"
  by (simp add: unat_of_nat take_bit_eq_mod)

lemma u8_less_nat: "(x :: u8) < y \<longleftrightarrow> unat x < unat y"
  by (simp add: word_less_nat_alt)

lemma u8_le_nat: "(x :: u8) \<le> y \<longleftrightarrow> unat x \<le> unat y"
  by (simp add: word_le_nat_alt)

lemma u8_eq_nat: "(x :: u8) = y \<longleftrightarrow> unat x = unat y"
  by (simp add: word_unat_eq_iff)

lemmas u8_nat = u8_less_nat u8_le_nat u8_eq_nat

lemma u8_one_le [simp]: "(1 :: u8) \<le> x \<longleftrightarrow> x \<noteq> 0"
proof -
  have "x \<noteq> 0 \<longleftrightarrow> unat x \<noteq> 0" by (simp add: unat_eq_0)
  then show ?thesis by (simp add: u8_le_nat Suc_le_eq)
qed

lemma unat_lt_256: "unat (x :: u8) < 256"
  using unsigned_less [of x] by simp

section \<open>Results\<close>

text \<open>
  \<open>reject c e\<close> is the guard \<open>if c { return e }\<close>; \<open>rbind m f\<close> runs \<open>m\<close> and returns its
  error at once, as the Go code does after every call.
\<close>

named_theorems result_simps

definition rbind :: "'e + 'a \<Rightarrow> ('a \<Rightarrow> 'e + 'b) \<Rightarrow> 'e + 'b" where
  "rbind m f = (case m of Inl e \<Rightarrow> Inl e | Inr x \<Rightarrow> f x)"

definition reject :: "bool \<Rightarrow> 'e \<Rightarrow> 'e + unit" where
  "reject c e = (if c then Inl e else Inr ())"

lemma rbind_Inl [simp, result_simps]: "rbind (Inl e) f = Inl e"
  by (simp add: rbind_def)

lemma rbind_Inr [simp, result_simps]: "rbind (Inr x) f = f x"
  by (simp add: rbind_def)

lemma rbind_eq_Inr [result_simps]: "rbind m f = Inr y \<longleftrightarrow> (\<exists>x. m = Inr x \<and> f x = Inr y)"
  by (cases m) simp_all

lemma rbind_eq_Inl [result_simps]:
  "rbind m f = Inl e \<longleftrightarrow> m = Inl e \<or> (\<exists>x. m = Inr x \<and> f x = Inl e)"
  by (cases m) simp_all

lemma reject_True [simp, result_simps]: "reject True e = Inl e"
  by (simp add: reject_def)

lemma reject_False [simp, result_simps]: "reject False e = Inr ()"
  by (simp add: reject_def)

lemma reject_eq_Inr [simp, result_simps]: "reject c e = Inr u \<longleftrightarrow> \<not> c"
  by (simp add: reject_def)

lemma reject_eq_Inl [simp, result_simps]: "reject c e = Inl e' \<longleftrightarrow> c \<and> e' = e"
  by (auto simp: reject_def)

lemma rbind_reject [result_simps]: "rbind (reject c e) f = (if c then Inl e else f ())"
  by simp

lemma rbind_cong [fundef_cong]:
  "m = m' \<Longrightarrow> (\<And>x. m' = Inr x \<Longrightarrow> f x = f' x) \<Longrightarrow> rbind m f = rbind m' f'"
  by (cases m') simp_all

section \<open>Lists\<close>

lemma length3_exhaust: "length xs = 3 \<Longrightarrow> \<exists>a b c. xs = [a, b, c]"
  by (auto simp: numeral_3_eq_3 length_Suc_conv)

lemma length2_exhaust: "length xs = 2 \<Longrightarrow> \<exists>a b. xs = [a, b]"
  by (auto simp: numeral_2_eq_2 length_Suc_conv)

lemma less3_cases: "(i :: nat) < 3 \<Longrightarrow> (i = 0 \<Longrightarrow> P) \<Longrightarrow> (i = 1 \<Longrightarrow> P) \<Longrightarrow> (i = 2 \<Longrightarrow> P) \<Longrightarrow> P"
  by linarith

lemma take_Suc_update: "n < length xs \<Longrightarrow> take (Suc n) (xs[n := v]) = take n xs @ [v]"
  by (simp add: take_Suc_conv_app_nth)

lemma mset_swap_update:
  assumes "i < length xs" and "j < length xs"
  shows "mset (xs[i := xs ! j, j := xs ! i]) = mset xs"
  using assms by (simp add: mset_swap)

lemma length_filter_all: "length (filter P xs) = length xs \<Longrightarrow> \<forall>x \<in> set xs. P x"
  by (metis length_filter_less less_irrefl)

lemma length_filter_update:
  "k < length xs \<Longrightarrow> length (filter P (xs[k := x])) + (if P (xs ! k) then 1 else 0) =
    length (filter P xs) + (if P x then 1 else 0)"
proof (induction xs arbitrary: k)
  case (Cons y ys)
  then show ?case by (cases k) (auto dest: Cons.IH)
qed simp

lemma sum_list_update_nat:
  "i < length (xs :: nat list) \<Longrightarrow> sum_list (xs[i := v]) + xs ! i = sum_list xs + v"
  by (induction xs arbitrary: i) (auto split: nat.splits)

lemma mset_remove1_append: "x \<in> set xs \<Longrightarrow> add_mset x (mset (remove1 x xs)) = mset xs"
  by simp

end
