(* ===== verification/Go_Strings.thy ===== *)
theory Go_Strings
  imports Go_Prelude
begin

text \<open>
  What the sources use of Go's strings and byte slices. A Go string is a sequence of bytes, so
  it is a HOL \<open>string\<close> (a list of 8-bit characters); a \<open>[]byte\<close> is a list of \<open>u8\<close>. The theory
  gives \<open>strings.TrimSpace\<close>, big-endian encoders and decoders of \<open>encoding/binary\<close>, and their
  laws: trimming is idempotent and encoding and decoding are inverse.
\<close>

unbundle bit_operations_syntax

type_synonym bytes = "u8 list"

definition str_bytes :: "string \<Rightarrow> bytes" where
  "str_bytes s = map of_char s"

definition bytes_str :: "bytes \<Rightarrow> string" where
  "bytes_str bs = map (\<lambda>b. char_of (unat b)) bs"

lemma length_str_bytes [simp]: "length (str_bytes s) = length s"
  by (simp add: str_bytes_def)

lemma length_bytes_str [simp]: "length (bytes_str bs) = length bs"
  by (simp add: bytes_str_def)

lemma unat_of_char: "unat (of_char c :: u8) = of_char c"
proof -
  have "(of_char c :: nat) mod 256 < 256" by (rule mod_less_divisor) simp
  then have "(of_char c :: nat) < 256" by (simp only: of_char_mod_256)
  moreover have "(of_char c :: u8) = word_of_nat (of_char c)" by (simp only: of_nat_of_char)
  ultimately show ?thesis by (simp only: unat_of_nat_u8)
qed

lemma char_of_of_char_u8 [simp]: "char_of (unat (of_char c :: u8)) = c"
  by (simp add: unat_of_char)

lemma bytes_str_str_bytes [simp]: "bytes_str (str_bytes s) = s"
  by (induction s) (simp_all add: str_bytes_def bytes_str_def)

lemma str_bytes_inject [simp]: "str_bytes s = str_bytes t \<longleftrightarrow> s = t"
  by (metis bytes_str_str_bytes)

section \<open>strings.TrimSpace\<close>

text \<open>
  The UTF-8 encodings of the code points for which \<open>unicode.IsSpace\<close> holds. \<open>TrimSpace\<close>
  drops the longest run of them at each end of the string.
\<close>

definition space_codes :: "string list" where
  "space_codes =
     [[CHR 0x09], [CHR 0x0A], [CHR 0x0B], [CHR 0x0C], [CHR 0x0D], [CHR 0x20],
      [CHR 0xC2, CHR 0x85], [CHR 0xC2, CHR 0xA0],
      [CHR 0xE1, CHR 0x9A, CHR 0x80],
      [CHR 0xE2, CHR 0x80, CHR 0x80], [CHR 0xE2, CHR 0x80, CHR 0x81],
      [CHR 0xE2, CHR 0x80, CHR 0x82], [CHR 0xE2, CHR 0x80, CHR 0x83],
      [CHR 0xE2, CHR 0x80, CHR 0x84], [CHR 0xE2, CHR 0x80, CHR 0x85],
      [CHR 0xE2, CHR 0x80, CHR 0x86], [CHR 0xE2, CHR 0x80, CHR 0x87],
      [CHR 0xE2, CHR 0x80, CHR 0x88], [CHR 0xE2, CHR 0x80, CHR 0x89],
      [CHR 0xE2, CHR 0x80, CHR 0x8A],
      [CHR 0xE2, CHR 0x80, CHR 0xA8], [CHR 0xE2, CHR 0x80, CHR 0xA9],
      [CHR 0xE2, CHR 0x80, CHR 0xAF], [CHR 0xE2, CHR 0x81, CHR 0x9F],
      [CHR 0xE3, CHR 0x80, CHR 0x80]]"

fun strip_one :: "string list \<Rightarrow> string \<Rightarrow> string option" where
  "strip_one [] s = None"
| "strip_one (p # ps) s =
     (if p \<noteq> [] \<and> take (length p) s = p then Some (drop (length p) s) else strip_one ps s)"

lemma strip_one_shorter: "strip_one ps s = Some r \<Longrightarrow> length r < length s"
proof (induction ps)
  case (Cons p ps)
  show ?case
  proof (cases "p \<noteq> [] \<and> take (length p) s = p")
    case True
    then have "length p \<le> length s" by (metis length_take min.cobounded1)
    with True Cons.prems show ?thesis by (cases p) auto
  qed (use Cons in auto)
qed simp

function trim_run :: "string list \<Rightarrow> string \<Rightarrow> string" where
  "trim_run ps s = (case strip_one ps s of None \<Rightarrow> s | Some r \<Rightarrow> trim_run ps r)"
  by pat_completeness auto
termination
  by (relation "measure (\<lambda>(ps, s). length s)") (auto dest: strip_one_shorter)

declare trim_run.simps [simp del]

definition trim_left :: "string \<Rightarrow> string" where
  "trim_left s = trim_run space_codes s"

definition trim_right :: "string \<Rightarrow> string" where
  "trim_right s = rev (trim_run (map rev space_codes) (rev s))"

definition trim_space :: "string \<Rightarrow> string" where
  "trim_space s = trim_right (trim_left s)"

lemma strip_one_suffix: "strip_one ps s = Some r \<Longrightarrow> \<exists>p. s = p @ r"
  by (induction ps) (auto split: if_splits intro: append_take_drop_id [symmetric])

lemma trim_run_suffix: "\<exists>p. s = p @ trim_run ps s"
proof (induction ps s rule: trim_run.induct)
  case (1 ps s)
  show ?case
  proof (cases "strip_one ps s")
    case None
    then show ?thesis by (simp add: trim_run.simps [of ps s])
  next
    case (Some r)
    with 1 obtain p where "r = p @ trim_run ps r" by blast
    moreover from Some obtain q where "s = q @ r" by (blast dest: strip_one_suffix)
    ultimately have "s = (q @ p) @ trim_run ps r" by simp
    moreover from Some have "trim_run ps s = trim_run ps r" by (simp add: trim_run.simps [of ps s])
    ultimately show ?thesis by metis
  qed
qed

lemma trim_run_stripped: "strip_one ps (trim_run ps s) = None"
proof (induction ps s rule: trim_run.induct)
  case (1 ps s)
  then show ?case by (cases "strip_one ps s") (simp_all add: trim_run.simps [of ps s])
qed

lemma trim_run_id: "strip_one ps s = None \<Longrightarrow> trim_run ps s = s"
  by (simp add: trim_run.simps)

lemma strip_one_None_iff: "strip_one ps s = None \<longleftrightarrow> (\<forall>p \<in> set ps. p \<noteq> [] \<longrightarrow> take (length p) s \<noteq> p)"
  by (induction ps) auto

lemma strip_one_prefix:
  assumes "strip_one ps (a @ b) = None"
  shows "strip_one ps a = None"
  unfolding strip_one_None_iff
proof (intro ballI impI notI)
  fix p
  assume p: "p \<in> set ps" "p \<noteq> []" "take (length p) a = p"
  then have "length p \<le> length a" by (metis length_take min.cobounded1)
  with p(3) have "take (length p) (a @ b) = p" by simp
  with assms p(1,2) show False unfolding strip_one_None_iff by blast
qed

lemma trim_right_prefix: "\<exists>q. s = trim_right s @ q"
proof -
  obtain p where "rev s = p @ trim_run (map rev space_codes) (rev s)"
    using trim_run_suffix by blast
  then have "rev (rev s) = rev (p @ trim_run (map rev space_codes) (rev s))"
    by (rule arg_cong)
  then show ?thesis by (auto simp: trim_right_def)
qed

lemma trim_space_left: "trim_left (trim_space s) = trim_space s"
proof -
  obtain q where "trim_left s = trim_space s @ q"
    using trim_right_prefix unfolding trim_space_def by blast
  moreover have "strip_one space_codes (trim_left s) = None"
    unfolding trim_left_def by (rule trim_run_stripped)
  ultimately have "strip_one space_codes (trim_space s) = None"
    by (metis strip_one_prefix)
  then show ?thesis by (simp add: trim_left_def trim_run_id)
qed

lemma trim_right_idem: "trim_right (trim_right s) = trim_right s"
  by (simp add: trim_right_def trim_run_id trim_run_stripped)

lemma trim_space_idem [simp]: "trim_space (trim_space s) = trim_space s"
  by (metis trim_right_idem trim_space_def trim_space_left)

lemma strip_one_Nil: "strip_one ps [] = None"
  by (simp add: strip_one_None_iff)

lemma trim_space_Nil [simp]: "trim_space [] = []"
  by (simp add: trim_space_def trim_left_def trim_right_def trim_run_id strip_one_Nil)

lemma length_trim_run: "length (trim_run ps s) \<le> length s"
  using trim_run_suffix [of s ps] by (metis length_append le_add2)

lemma length_trim_space: "length (trim_space s) \<le> length s"
  unfolding trim_space_def trim_left_def trim_right_def
  using length_trim_run order_trans by (metis length_rev)

section \<open>encoding/binary, big endian\<close>

definition be_word :: "nat \<Rightarrow> 'a::len word \<Rightarrow> bytes" where
  "be_word k w = map (\<lambda>i. ucast (drop_bit (8 * i) w)) (rev [0..<k])"

definition be_join :: "bytes \<Rightarrow> 'a::len word" where
  "be_join bs = foldl (\<lambda>a b. push_bit 8 a OR ucast b) 0 bs"

definition put_u16 :: "u16 \<Rightarrow> bytes" where "put_u16 w = be_word 2 w"
definition put_u32 :: "u32 \<Rightarrow> bytes" where "put_u32 w = be_word 4 w"
definition put_u64 :: "u64 \<Rightarrow> bytes" where "put_u64 w = be_word 8 w"

lemma length_be_word [simp]: "length (be_word k w) = k"
  by (simp add: be_word_def)

lemma length_put [simp]:
  "length (put_u16 a) = 2" "length (put_u32 b) = 4" "length (put_u64 c) = 8"
  by (simp_all add: put_u16_def put_u32_def put_u64_def)

lemma be_word_Suc: "be_word (Suc k) w = be_word k (drop_bit 8 w) @ [ucast w]"
proof -
  have "rev [0..<Suc k] = map Suc (rev [0..<k]) @ [0]"
    by (simp only: rev_map [symmetric] map_Suc_upt upt_conv_Cons) (simp add: upt_conv_Cons)
  then show ?thesis by (simp add: be_word_def comp_def drop_bit_drop_bit add.commute)
qed

lemma be_join_snoc: "be_join (bs @ [b]) = push_bit 8 (be_join bs) OR ucast b"
  by (simp add: be_join_def)

lemma be_join_be_word: "be_join (be_word k (w :: 'a::len word)) = (take_bit (8 * k) w :: 'a word)"
proof (induction k arbitrary: w)
  case 0
  show ?case by (simp add: be_word_def be_join_def)
next
  case (Suc k)
  have "be_join (be_word (Suc k) w) = push_bit 8 (take_bit (8 * k) (drop_bit 8 w)) OR ucast (ucast w :: u8)"
    by (simp add: be_word_Suc be_join_snoc Suc.IH)
  also have "\<dots> = take_bit (8 * Suc k) w"
  proof (rule bit_word_eqI)
    fix n assume n: "n < LENGTH('a)"
    show "bit (push_bit 8 (take_bit (8 * k) (drop_bit 8 w)) OR ucast (ucast w :: u8)) n
      = bit (take_bit (8 * Suc k) w) n"
    proof (cases "n < 8")
      case True
      with n show ?thesis by (simp add: bit_simps add.commute)
    next
      case False
      then obtain m where "n = m + 8" by (metis add.commute le_Suc_ex not_less)
      with n show ?thesis by (simp add: bit_simps add.commute)
    qed
  qed
  finally show ?case .
qed

lemma be_join_put [simp]:
  "be_join (put_u16 a) = a" "be_join (put_u32 b) = b" "be_join (put_u64 c) = c"
  by (simp_all add: put_u16_def put_u32_def put_u64_def be_join_be_word take_bit_word_eq_self)

lemma put_inject [simp]:
  "put_u16 a = put_u16 a' \<longleftrightarrow> a = a'" "put_u32 b = put_u32 b' \<longleftrightarrow> b = b'"
  "put_u64 c = put_u64 c' \<longleftrightarrow> c = c'"
  by (metis be_join_put)+

end
