(* ===== verification/Sha256.thy ===== *)
theory Sha256
  imports Go_Strings
begin

text \<open>
  \<open>crypto/sha256\<close> and \<open>crypto/hmac\<close> of Go's standard library, which the fairness code uses for
  every commitment, digest and random block: FIPS 180-4 SHA-256 and RFC 2104 HMAC over byte
  lists. The definitions are executable; \<open>length_sha256\<close> is what the components rely on.
\<close>

text \<open>
  The constants are the first 32 bits of the fractional parts of the cube roots of the first 64
  primes and of the square roots of the first eight: \<open>root_bits k n b r\<close> sets the bits of the
  integer \<open>k\<close>-th root of \<open>n\<close> from bit \<open>b - 1\<close> down.
\<close>

primrec root_bits :: "nat \<Rightarrow> nat \<Rightarrow> nat \<Rightarrow> nat \<Rightarrow> nat" where
  "root_bits k n 0 r = r"
| "root_bits k n (Suc b) r = root_bits k n b (if (r + 2 ^ b) ^ k \<le> n then r + 2 ^ b else r)"

definition sha_primes :: "nat list" where
  "sha_primes =
     [2, 3, 5, 7, 11, 13, 17, 19, 23, 29, 31, 37, 41, 43, 47, 53, 59, 61, 67, 71, 73, 79, 83,
      89, 97, 101, 103, 107, 109, 113, 127, 131, 137, 139, 149, 151, 157, 163, 167, 173, 179,
      181, 191, 193, 197, 199, 211, 223, 227, 229, 233, 239, 241, 251, 257, 263, 269, 271, 277,
      281, 283, 293, 307, 311]"

definition sha_k :: "32 word list" where
  "sha_k = map (\<lambda>p. word_of_nat (root_bits 3 (p * 2 ^ 96) 36 0)) sha_primes"

definition sha_init :: "32 word list" where
  "sha_init = map (\<lambda>p. word_of_nat (root_bits 2 (p * 2 ^ 64) 36 0)) (take 8 sha_primes)"

definition rotr32 :: "nat \<Rightarrow> 32 word \<Rightarrow> 32 word" where
  "rotr32 n x = (drop_bit n x) OR (push_bit (32 - n) x)"

definition sig0 :: "32 word \<Rightarrow> 32 word" where "sig0 x = rotr32 7 x XOR rotr32 18 x XOR drop_bit 3 x"
definition sig1 :: "32 word \<Rightarrow> 32 word" where "sig1 x = rotr32 17 x XOR rotr32 19 x XOR drop_bit 10 x"
definition Sig0 :: "32 word \<Rightarrow> 32 word" where "Sig0 x = rotr32 2 x XOR rotr32 13 x XOR rotr32 22 x"
definition Sig1 :: "32 word \<Rightarrow> 32 word" where "Sig1 x = rotr32 6 x XOR rotr32 11 x XOR rotr32 25 x"

fun sha_expand :: "nat \<Rightarrow> 32 word list \<Rightarrow> 32 word list" where
  "sha_expand 0 ws = ws"
| "sha_expand (Suc n) ws =
     (let t = length ws in
      sha_expand n (ws @ [sig1 (ws ! (t - 2)) + ws ! (t - 7) + sig0 (ws ! (t - 15)) + ws ! (t - 16)]))"

fun sha_round :: "32 word list \<Rightarrow> 32 word \<times> 32 word \<Rightarrow> 32 word list" where
  "sha_round [a, b, c, d, e, f, g, h] (k, w) =
     (let t1 = h + Sig1 e + ((e AND f) XOR (NOT e AND g)) + k + w;
          t2 = Sig0 a + ((a AND b) XOR (a AND c) XOR (b AND c))
      in [t1 + t2, a, b, c, d + t1, e, f, g])"
| "sha_round s kw = s"

fun words_of :: "bytes \<Rightarrow> 32 word list" where
  "words_of (a # b # c # d # bs) = be_join [a, b, c, d] # words_of bs"
| "words_of _ = []"

definition sha_block :: "32 word list \<Rightarrow> bytes \<Rightarrow> 32 word list" where
  "sha_block s blk = map2 (+) s (foldl sha_round s (zip sha_k (sha_expand 48 (words_of blk))))"

fun sha_blocks :: "32 word list \<Rightarrow> bytes \<Rightarrow> 32 word list" where
  "sha_blocks s bs = (if length bs < 64 then s else sha_blocks (sha_block s (take 64 bs)) (drop 64 bs))"
declare sha_blocks.simps [simp del]

definition sha_pad :: "bytes \<Rightarrow> bytes" where
  "sha_pad m = m @ [0x80] @ replicate ((119 - length m mod 64) mod 64) 0 @ be_word 8 (word_of_nat (8 * length m) :: 64 word)"

definition sha256 :: "bytes \<Rightarrow> bytes" where
  "sha256 m = concat (map (be_word 4) (sha_blocks sha_init (sha_pad m)))"

definition hmac_key :: "bytes \<Rightarrow> bytes" where
  "hmac_key k = (let k' = (if length k > 64 then sha256 k else k) in k' @ replicate (64 - length k') 0)"

definition hmac_sha256 :: "bytes \<Rightarrow> bytes \<Rightarrow> bytes" where
  "hmac_sha256 k m =
     sha256 (map (\<lambda>b. b XOR 0x5c) (hmac_key k) @ sha256 (map (\<lambda>b. b XOR 0x36) (hmac_key k) @ m))"

section \<open>Output length\<close>

lemma length_sha_round: "length s = 8 \<Longrightarrow> length (sha_round s kw) = 8"
  by (cases "(s, kw)" rule: sha_round.cases) (auto simp: Let_def)

lemma length_sha_rounds: "length s = 8 \<Longrightarrow> length (foldl sha_round s kws) = 8"
  by (induction kws arbitrary: s) (simp_all add: length_sha_round)

lemma length_sha_block: "length s = 8 \<Longrightarrow> length (sha_block s blk) = 8"
  by (simp add: sha_block_def length_sha_rounds)

lemma length_sha_blocks: "length s = 8 \<Longrightarrow> length (sha_blocks s bs) = 8"
proof (induction s bs rule: sha_blocks.induct)
  case (1 s bs)
  then show ?case by (simp add: sha_blocks.simps [of s bs] length_sha_block)
qed

lemma length_concat_be_word: "length (concat (map (be_word k) ws)) = k * length ws"
  by (induction ws) simp_all

lemma length_sha256 [simp]: "length (sha256 m) = 32"
  by (simp add: sha256_def length_concat_be_word length_sha_blocks sha_init_def sha_primes_def)

lemma length_hmac_sha256 [simp]: "length (hmac_sha256 k m) = 32"
  by (simp add: hmac_sha256_def)

end
