(* ===== verification/Go_Errors.thy ===== *)
theory Go_Errors
  imports Go_Prelude
begin

text \<open>
  The sentinel errors of the packages, one datatype per \<open>errors.go\<close> (or per \<open>var\<close> block of the
  package), and their sum \<open>go_error\<close>, because a Go function returns the errors of the packages
  it calls. A model error is the sentinel that \<open>errors.Is\<close> finds; the formatted text around it
  is not modelled.
\<close>

datatype carddeck_error = InvalidArgument | UnsupportedVersion | VerificationFailed

datatype gamecore_error =
    GcInvalidArgument
  | GcUnsupportedVersion
  | GcVerificationFailed
  | GcDuplicateRegistration
  | GcModuleNotFound
  | GcInstanceNotFound
  | GcInstanceExists
  | GcFinalizationPending
  | GcNotFinalizing
  | GcArchiveFailed

datatype domain_error =
    DmInvalidArgument
  | DmVersionConflict u64 u64
  | DmNoStateChange
  | DmForbidden
  | DmRoomClosed
  | DmRoomFull
  | DmAlreadySeated
  | DmNotSeated
  | DmOwnerMustRemain
  | DmHandActive
  | DmHandNotActive
  | DmRoomNotReady
  | DmWrongPhase
  | DmDuplicateContribution
  | DmCommitmentMismatch
  | DmBeaconMismatch
  | DmHandTerminal

datatype pattern_error = InvalidPattern | InvalidPatternValue

datatype playing_error = InvalidSeat | WrongTurn | CannotPass | DoesNotBeat | PlayingComplete

datatype bidding_error =
    BdInvalidDealDigest
  | BdInvalidPosition
  | BdInvalidScore
  | BdWrongTurn
  | BdBidNotHigher
  | BdBiddingComplete

datatype settlement_error = StInvalidInput

datatype livehand_error =
    UnsupportedCommand
  | ViewerNotSeated
  | LhVersionConflict
  | MalformedCommand
  | CardNotHeld
  | InvalidFinalEvidence

datatype journal_error = WriterFenced | WatermarkConflict | ReplayIntegrity | PruneNotEligible

datatype vault_error = SeedExists | SeedNotFound

datatype beacon_error = UnverifiedBeacon | BeaconNotPublished

datatype go_error =
    Carddeck carddeck_error
  | Gamecore gamecore_error
  | Domain domain_error
  | Pattern_Err pattern_error
  | Playing_Err playing_error
  | Bidding_Err bidding_error
  | Settlement_Err settlement_error
  | Livehand livehand_error
  | Journal journal_error
  | Vault vault_error
  | Beacon beacon_error

end
