(* ===== verification/Encoding.thy ===== *)
theory Encoding
  imports Sha256 Go_Errors
begin

text \<open>
  \<open>carddeck/encoding.go\<close> and the commitments of \<open>carddeck/random.go\<close>: the text check and the
  length-prefixed encoding every digest of the fairness protocol is computed over, and the
  server and client commitments.
\<close>

section \<open>carddeck/encoding.go\<close>

definition max_text_bytes :: nat where "max_text_bytes = 128"

definition validate_text :: "string \<Rightarrow> bool \<Rightarrow> go_error + unit" where
  "validate_text value allow_empty =
     (if \<not> allow_empty \<and> trim_space value = [] then Inl (Carddeck InvalidArgument)
      else if value \<noteq> trim_space value then Inl (Carddeck InvalidArgument)
      else if length value > max_text_bytes then Inl (Carddeck InvalidArgument)
      else Inr ())"

definition write_domain :: "string \<Rightarrow> bytes" where
  "write_domain domain = str_bytes domain @ [0]"

definition write_bytes :: "bytes \<Rightarrow> bytes" where
  "write_bytes value = put_u32 (word_of_nat (length value)) @ value"

definition write_string :: "string \<Rightarrow> bytes" where
  "write_string value = write_bytes (str_bytes value)"

definition write_u16 :: "nat \<Rightarrow> bytes" where
  "write_u16 value = put_u16 (word_of_nat value)"

definition write_u64 :: "u64 \<Rightarrow> bytes" where
  "write_u64 value = put_u64 value"

definition all_zero :: "bytes \<Rightarrow> bool" where
  "all_zero value = (foldl (OR) 0 value = 0)"

lemma foldl_or_zero: "foldl (OR) (a :: u8) xs = 0 \<longleftrightarrow> a = 0 \<and> (\<forall>x \<in> set xs. x = 0)"
proof (induction xs arbitrary: a)
  case (Cons x xs)
  have "(a OR x = 0) = (a = 0 \<and> x = 0)" by (rule or_eq_0_iff)
  with Cons show ?case by simp
qed simp

lemma all_zero_iff: "all_zero xs \<longleftrightarrow> (\<forall>x \<in> set xs. x = 0)"
  by (simp add: all_zero_def foldl_or_zero)

lemma validate_text_ok:
  "validate_text v False = Inr u \<longleftrightarrow> v \<noteq> [] \<and> trim_space v = v \<and> length v \<le> 128"
  by (auto simp: validate_text_def max_text_bytes_def)

section \<open>Commitments\<close>

definition server_commit_domain :: string where
  "server_commit_domain = ''fair-doudizhu/server-commit/v1''"

definition client_commit_domain :: string where
  "client_commit_domain = ''fair-doudizhu/client-commit/v1''"

definition compute_server_commitment :: "string \<Rightarrow> bytes \<Rightarrow> go_error + bytes" where
  "compute_server_commitment hand_id seed =
     rbind (validate_text hand_id False) (\<lambda>_.
     if all_zero seed then Inl (Carddeck InvalidArgument)
     else Inr (sha256 (write_domain server_commit_domain @ write_string hand_id @ seed)))"

definition compute_client_commitment :: "string \<Rightarrow> u8 \<Rightarrow> bytes \<Rightarrow> go_error + bytes" where
  "compute_client_commitment hand_id seat contribution =
     rbind (validate_text hand_id False) (\<lambda>_.
     if seat < 1 \<or> seat > 3 then Inl (Carddeck InvalidArgument)
     else if all_zero contribution then Inl (Carddeck InvalidArgument)
     else Inr (sha256 (write_domain client_commit_domain @ write_string hand_id @ [seat] @ contribution)))"

section \<open>The encodings are injective\<close>

text \<open>
  A length-prefixed string followed by anything determines the string and the rest, as long as
  the length fits the 32-bit prefix. The hash inputs of two commitments are equal only when the
  committed data are.
\<close>

lemma write_bytes_prefix:
  assumes "length a < 2 ^ 32" and "length b < 2 ^ 32"
    and eq: "write_bytes a @ x = write_bytes b @ y"
  shows "a = b \<and> x = y"
proof -
  from eq have "put_u32 (word_of_nat (length a)) = put_u32 (word_of_nat (length b))"
    and rest: "a @ x = b @ y"
    by (simp_all add: write_bytes_def)
  then have "(word_of_nat (length a) :: u32) = word_of_nat (length b)" by simp
  then have "length a = length b"
    using assms(1,2) by (simp add: word_of_nat_eq_iff take_bit_nat_eq_self)
  with rest show ?thesis by simp
qed

lemma write_string_prefix:
  assumes "length a \<le> 128" and "length b \<le> 128"
    and "write_string a @ x = write_string b @ y"
  shows "a = b \<and> x = y"
  using write_bytes_prefix [of "str_bytes a" "str_bytes b" x y] assms
  by (simp add: write_string_def)

end
