(* ===== verification/Byte_Reader.thy ===== *)
theory Byte_Reader
  imports Encoding
begin

text \<open>
  Reading from a \<open>bytes.Reader\<close>: a reader is the list of the bytes still unread, a read returns the
  value and the rest. \<open>read_full\<close> is \<open>io.ReadFull\<close>, \<open>read_some\<close> the method \<open>Read\<close>, which is
  satisfied with fewer bytes and leaves the rest of the zeroed array as it was. A codec is a pair of
  a writer and a reader that are inverse to each other on the admissible values.
\<close>

definition read_byte :: "go_error \<Rightarrow> bytes \<Rightarrow> go_error + u8 \<times> bytes" where
  "read_byte e bs = (case bs of [] \<Rightarrow> Inl e | b # r \<Rightarrow> Inr (b, r))"

definition read_full :: "go_error \<Rightarrow> nat \<Rightarrow> bytes \<Rightarrow> go_error + bytes \<times> bytes" where
  "read_full e n bs = (if length bs < n then Inl e else Inr (take n bs, drop n bs))"

definition read_some :: "go_error \<Rightarrow> nat \<Rightarrow> bytes \<Rightarrow> go_error + bytes \<times> bytes" where
  "read_some e n bs =
     (if bs = [] then Inl e else Inr (take n bs @ replicate (n - length bs) 0, drop n bs))"

primrec read_times :: "nat \<Rightarrow> (bytes \<Rightarrow> go_error + 'a \<times> bytes) \<Rightarrow> bytes \<Rightarrow> go_error + 'a list \<times> bytes" where
  "read_times 0 p bs = Inr ([], bs)"
| "read_times (Suc n) p bs =
     rbind (p bs) (\<lambda>(x, r). rbind (read_times n p r) (\<lambda>(xs, r'). Inr (x # xs, r')))"

locale codec =
  fixes enc :: "'a \<Rightarrow> bytes"
    and dec :: "bytes \<Rightarrow> go_error + 'a \<times> bytes"
    and ok :: "'a \<Rightarrow> bool"
  assumes dec_enc: "ok x \<Longrightarrow> dec (enc x @ r) = Inr (x, r)"
    and dec_sound: "dec bs = Inr (x, r) \<Longrightarrow> ok x \<and> bs = enc x @ r"
begin

lemma dec_iff: "dec bs = Inr (x, r) \<longleftrightarrow> ok x \<and> bs = enc x @ r"
  by (metis dec_enc dec_sound)

lemma enc_prefix: "ok x \<Longrightarrow> ok y \<Longrightarrow> enc x @ r = enc y @ s \<Longrightarrow> x = y \<and> r = s"
  by (metis dec_enc prod.inject sum.inject(2))

lemma dec_times_enc: "list_all ok xs \<Longrightarrow> read_times (length xs) dec (concat (map enc xs) @ r) = Inr (xs, r)"
  by (induction xs) (simp_all add: dec_enc)

lemma dec_times_sound:
  "read_times n dec bs = Inr (xs, r) \<Longrightarrow> length xs = n \<and> list_all ok xs \<and> bs = concat (map enc xs) @ r"
proof (induction n arbitrary: bs xs)
  case (Suc n)
  from Suc.prems obtain x r1 ys where d: "dec bs = Inr (x, r1)" "read_times n dec r1 = Inr (ys, r)" "xs = x # ys"
    by (auto simp: rbind_eq_Inr)
  with Suc.IH [OF d(2)] dec_sound [OF d(1)] show ?case by simp
qed simp

lemma dec_times: "read_times n dec bs = Inr (xs, r) \<longleftrightarrow> length xs = n \<and> list_all ok xs \<and> bs = concat (map enc xs) @ r"
  by (metis dec_times_enc dec_times_sound)

lemma codec_times: "codec (\<lambda>xs. concat (map enc xs)) (read_times n dec) (\<lambda>xs. length xs = n \<and> list_all ok xs)"
  by unfold_locales (auto simp: dec_times)

end

interpretation byte: codec "\<lambda>b. [b]" "read_byte e" "\<lambda>b. True" for e
  by unfold_locales (auto simp: read_byte_def split: list.splits)

interpretation fixed: codec "\<lambda>v. v" "read_full e n" "\<lambda>v. length v = n" for e n
  by unfold_locales (auto simp: read_full_def split: if_splits)

lemma concat_singletons [simp]: "concat (map (\<lambda>b. [b]) xs) = xs"
  by (induction xs) simp_all

lemma read_bytes_iff: "read_times n (read_byte e) bs = Inr (xs, r) \<longleftrightarrow> length xs = n \<and> bs = xs @ r"
  by (auto simp: byte.dec_times list_all_iff)

section \<open>Big-endian integers\<close>

lemma bit_be_join: "bit (be_join bs :: 'a::len word) n \<Longrightarrow> n < 8 * length bs"
proof (induction bs arbitrary: n rule: rev_induct)
  case (snoc b bs)
  then have "bit (push_bit 8 (be_join bs :: 'a word)) n \<or> bit (ucast b :: 'a word) n"
    by (simp add: be_join_snoc bit_or_iff)
  then show ?case
  proof
    assume "bit (push_bit 8 (be_join bs :: 'a word)) n"
    then have "8 \<le> n" "bit (be_join bs :: 'a word) (n - 8)" by (simp_all add: bit_push_bit_iff)
    with snoc.IH show ?thesis by fastforce
  next
    assume "bit (ucast b :: 'a word) n"
    then have "bit b n" by (simp add: bit_ucast_iff)
    then have "n < 8" using bit_imp_le_length by fastforce
    then show ?thesis by simp
  qed
qed (simp add: be_join_def)

lemma be_word_be_join: "8 * length bs \<le> LENGTH('a) \<Longrightarrow> be_word (length bs) (be_join bs :: 'a::len word) = bs"
proof (induction bs rule: rev_induct)
  case (snoc b bs)
  let ?j = "be_join bs :: 'a word"
  have d: "drop_bit 8 (push_bit 8 ?j OR ucast b) = ?j"
  proof (rule bit_word_eqI)
    fix n assume "n < LENGTH('a)"
    show "bit (drop_bit 8 (push_bit 8 ?j OR ucast b)) n = bit ?j n"
    proof (cases "8 + n < LENGTH('a)")
      case True
      have "\<not> bit b (8 + n)" using bit_imp_le_length [of b "8 + n"] by fastforce
      with True show ?thesis by (simp add: bit_simps add.commute)
    next
      case False
      with snoc.prems bit_be_join [of bs n, where 'a='a] show ?thesis
        by (auto simp: bit_simps)
    qed
  qed
  have "ucast (push_bit 8 ?j OR ucast b) = b"
  proof (rule bit_word_eqI)
    fix n assume "n < LENGTH(8)"
    moreover have "8 \<le> LENGTH('a)" using snoc.prems by simp
    ultimately show "bit (ucast (push_bit 8 ?j OR ucast b) :: u8) n = bit b n" by (simp add: bit_simps)
  qed
  with d snoc show ?case by (simp add: be_word_Suc be_join_snoc)
qed (simp add: be_word_def)

lemma put_be_join:
  "length bs = 2 \<Longrightarrow> put_u16 (be_join bs) = bs" "length bs = 4 \<Longrightarrow> put_u32 (be_join bs) = bs"
  "length bs = 8 \<Longrightarrow> put_u64 (be_join bs) = bs"
  using be_word_be_join [of bs, where 'a=16] be_word_be_join [of bs, where 'a=32]
    be_word_be_join [of bs, where 'a=64]
  by (simp_all add: put_u16_def put_u32_def put_u64_def)

lemma str_bytes_bytes_str [simp]: "str_bytes (bytes_str bs) = bs"
proof (induction bs)
  case (Cons b bs)
  have "unat b < 256" by (rule unat_lt_256)
  then have "(of_char (char_of (unat b) :: char) :: nat) = unat b" by (simp add: of_char_of)
  then have "unat (of_char (char_of (unat b) :: char) :: u8) = unat b" by (simp only: unat_of_char)
  then have "(of_char (char_of (unat b) :: char) :: u8) = b" by (simp only: word_unat_eq_iff)
  with Cons show ?case by (simp add: str_bytes_def bytes_str_def)
qed (simp add: str_bytes_def bytes_str_def)

end
