(* ===== verification/Gamecore_Identity.thy ===== *)
theory Gamecore_Identity
  imports Byte_Reader
begin

text \<open>
  Identities and fairness material of the game core (\<open>gamecore/encoding.go\<close>,
  \<open>gamecore/identity.go\<close>, \<open>gamecore/fairness.go\<close>): validation, and the canonical digest from which
  a game derives its seed.
\<close>

section \<open>Encoding helpers\<close>

definition max_identifier_bytes :: nat where "max_identifier_bytes = 128"
definition max_payload_bytes :: nat where "max_payload_bytes = 16 * 2 ^ 20"

text \<open>\<open>utf8.ValidString\<close> of Go's library: the well-formed sequences of RFC 3629.\<close>

definition utf8_cont :: "u8 \<Rightarrow> u8 \<Rightarrow> u8 \<Rightarrow> bool" where
  "utf8_cont lo hi b \<longleftrightarrow> lo \<le> b \<and> b \<le> hi"

fun valid_utf8 :: "bytes \<Rightarrow> bool" where
  "valid_utf8 [] = True"
| "valid_utf8 (a # r) =
     (if a < 0x80 then valid_utf8 r
      else if utf8_cont 0xC2 0xDF a then
        (case r of b # s \<Rightarrow> utf8_cont 0x80 0xBF b \<and> valid_utf8 s | _ \<Rightarrow> False)
      else if utf8_cont 0xE0 0xEF a then
        (case r of b # c # s \<Rightarrow>
           utf8_cont (if a = 0xE0 then 0xA0 else 0x80) (if a = 0xED then 0x9F else 0xBF) b
           \<and> utf8_cont 0x80 0xBF c \<and> valid_utf8 s | _ \<Rightarrow> False)
      else if utf8_cont 0xF0 0xF4 a then
        (case r of b # c # d # s \<Rightarrow>
           utf8_cont (if a = 0xF0 then 0x90 else 0x80) (if a = 0xF4 then 0x8F else 0xBF) b
           \<and> utf8_cont 0x80 0xBF c \<and> utf8_cont 0x80 0xBF d \<and> valid_utf8 s | _ \<Rightarrow> False)
      else False)"

definition gc_validate_identifier :: "string \<Rightarrow> go_error + unit" where
  "gc_validate_identifier value =
     (if trim_space value = [] then Inl (Gamecore GcInvalidArgument)
      else if value \<noteq> trim_space value then Inl (Gamecore GcInvalidArgument)
      else if \<not> valid_utf8 (str_bytes value) then Inl (Gamecore GcInvalidArgument)
      else if length value > max_identifier_bytes then Inl (Gamecore GcInvalidArgument)
      else Inr ())"

definition gc_validate_payload :: "bytes \<Rightarrow> bool \<Rightarrow> go_error + unit" where
  "gc_validate_payload payload allow_empty =
     (if \<not> allow_empty \<and> length payload = 0 then Inl (Gamecore GcInvalidArgument)
      else if length payload > max_payload_bytes then Inl (Gamecore GcInvalidArgument)
      else Inr ())"

definition gc_write_domain :: "string \<Rightarrow> bytes" where
  "gc_write_domain domain = str_bytes domain @ [0]"

definition gc_write_bytes :: "bytes \<Rightarrow> bytes" where
  "gc_write_bytes value = put_u32 (word_of_nat (length value)) @ value"

definition gc_write_string :: "string \<Rightarrow> bytes" where
  "gc_write_string value = gc_write_bytes (str_bytes value)"

definition gc_write_u64 :: "u64 \<Rightarrow> bytes" where
  "gc_write_u64 value = put_u64 value"

definition gc_all_zero :: "bytes \<Rightarrow> bool" where
  "gc_all_zero value = (foldl (OR) 0 value = 0)"

lemma gc_validate_identifier_Inr [result_simps]:
  "gc_validate_identifier v = Inr u \<longleftrightarrow> v \<noteq> [] \<and> trim_space v = v \<and> valid_utf8 (str_bytes v) \<and> length v \<le> 128"
  by (auto simp: gc_validate_identifier_def max_identifier_bytes_def)

lemma gc_validate_payload_Inr [result_simps]:
  "gc_validate_payload p False = Inr u \<longleftrightarrow> p \<noteq> [] \<and> length p \<le> max_payload_bytes"
  by (auto simp: gc_validate_payload_def)

lemma gc_write_string_prefix:
  "length a \<le> 128 \<Longrightarrow> length b \<le> 128 \<Longrightarrow> gc_write_string a @ x = gc_write_string b @ y \<Longrightarrow> a = b \<and> x = y"
  using write_string_prefix [of a b x y]
  by (simp add: gc_write_string_def gc_write_bytes_def write_string_def write_bytes_def)

section \<open>Identities\<close>

definition max_participant_count :: u8 where "max_participant_count = 64"

record descriptor =
  ds_game :: string
  ds_ruleset :: string
  ds_module :: string
  ds_suite :: string
  ds_participants :: u8

record descriptor_key =
  dk_game :: string
  dk_ruleset :: string
  dk_module :: string

definition descriptor_validate :: "descriptor \<Rightarrow> go_error + unit" where
  "descriptor_validate d =
     rbind (gc_validate_identifier (ds_game d)) (\<lambda>_.
     rbind (gc_validate_identifier (ds_ruleset d)) (\<lambda>_.
     rbind (gc_validate_identifier (ds_module d)) (\<lambda>_.
     rbind (gc_validate_identifier (ds_suite d)) (\<lambda>_.
       reject (ds_participants d < 1 \<or> ds_participants d > max_participant_count)
         (Gamecore GcInvalidArgument)))))"

definition new_descriptor :: "string \<Rightarrow> string \<Rightarrow> string \<Rightarrow> string \<Rightarrow> u8 \<Rightarrow> go_error + descriptor" where
  "new_descriptor game ruleset module fairness participants =
     (let d = \<lparr>ds_game = game, ds_ruleset = ruleset, ds_module = module, ds_suite = fairness,
              ds_participants = participants\<rparr>
      in rbind (descriptor_validate d) (\<lambda>_. Inr d))"

definition descriptor_key_of :: "descriptor \<Rightarrow> descriptor_key" where
  "descriptor_key_of d = \<lparr>dk_game = ds_game d, dk_ruleset = ds_ruleset d, dk_module = ds_module d\<rparr>"

definition validate_instance_id :: "string \<Rightarrow> go_error + unit" where
  "validate_instance_id iid = gc_validate_identifier iid"

section \<open>Fairness material\<close>

definition fairness_material_version :: string where
  "fairness_material_version = ''gamecore-fairness-material-v1''"
definition fairness_material_domain :: string where
  "fairness_material_domain = ''gamecore/fairness-material/v1''"

record participant_fairness =
  pf_position :: u8
  pf_contribution :: bytes
  pf_commitment :: bytes

record material_beacon =
  mb_provider :: string
  mb_round :: string
  mb_digest :: bytes
  mb_proof_ref :: string

record material_key =
  mk_key :: string
  mk_hash :: bytes

record fairness_material =
  fm_descriptor :: descriptor
  fm_instance :: string
  fm_seed :: bytes
  fm_server_commitment :: bytes
  fm_participants :: "participant_fairness list"
  fm_beacon :: material_beacon
  fm_key :: material_key

fun check_participants :: "nat \<Rightarrow> participant_fairness list \<Rightarrow> go_error + unit" where
  "check_participants index [] = Inr ()"
| "check_participants index (p # ps) =
     (let want = word_of_nat (index + 1) in
      if pf_position p \<noteq> want then Inl (Gamecore GcInvalidArgument)
      else if gc_all_zero (pf_contribution p) then Inl (Gamecore GcInvalidArgument)
      else if gc_all_zero (pf_commitment p) then Inl (Gamecore GcInvalidArgument)
      else check_participants (index + 1) ps)"

definition material_validate :: "fairness_material \<Rightarrow> go_error + unit" where
  "material_validate m =
     (let bad = Gamecore GcInvalidArgument in
      rbind (descriptor_validate (fm_descriptor m)) (\<lambda>_.
      rbind (validate_instance_id (fm_instance m)) (\<lambda>_.
      rbind (reject (gc_all_zero (fm_seed m)) bad) (\<lambda>_.
      rbind (reject (gc_all_zero (fm_server_commitment m)) bad) (\<lambda>_.
      rbind (reject (length (fm_participants m) \<noteq> unat (ds_participants (fm_descriptor m))) bad) (\<lambda>_.
      rbind (check_participants 0 (fm_participants m)) (\<lambda>_.
      rbind (gc_validate_identifier (mb_provider (fm_beacon m))) (\<lambda>_.
      rbind (gc_validate_identifier (mb_round (fm_beacon m))) (\<lambda>_.
      rbind (reject (gc_all_zero (mb_digest (fm_beacon m))) bad) (\<lambda>_.
      rbind (gc_validate_identifier (mb_proof_ref (fm_beacon m))) (\<lambda>_.
      rbind (gc_validate_identifier (mk_key (fm_key m))) (\<lambda>_.
        reject (gc_all_zero (mk_hash (fm_key m))) bad))))))))))))"

definition descriptor_bytes :: "descriptor \<Rightarrow> bytes" where
  "descriptor_bytes d =
     gc_write_string (ds_game d) @ gc_write_string (ds_ruleset d) @ gc_write_string (ds_module d)
     @ gc_write_string (ds_suite d) @ [ds_participants d]"

definition participant_bytes :: "participant_fairness \<Rightarrow> bytes" where
  "participant_bytes p = [pf_position p] @ pf_contribution p @ pf_commitment p"

definition material_bytes :: "fairness_material \<Rightarrow> bytes" where
  "material_bytes m =
     gc_write_domain fairness_material_domain @ gc_write_string fairness_material_version
     @ descriptor_bytes (fm_descriptor m) @ gc_write_string (fm_instance m)
     @ fm_seed m @ fm_server_commitment m
     @ [word_of_nat (length (fm_participants m))] @ concat (map participant_bytes (fm_participants m))
     @ gc_write_string (mb_provider (fm_beacon m)) @ gc_write_string (mb_round (fm_beacon m))
     @ mb_digest (fm_beacon m) @ gc_write_string (mb_proof_ref (fm_beacon m))
     @ gc_write_string (mk_key (fm_key m)) @ mk_hash (fm_key m)"

definition canonical_digest :: "fairness_material \<Rightarrow> go_error + bytes" where
  "canonical_digest m = rbind (material_validate m) (\<lambda>_. Inr (sha256 (material_bytes m)))"

definition material_derive_seed :: "fairness_material \<Rightarrow> go_error + bytes" where
  "material_derive_seed m = canonical_digest m"

section \<open>The digested bytes determine the material\<close>

text \<open>Digests, seeds and commitments are arrays of 32 bytes in Go.\<close>

definition material_typed :: "fairness_material \<Rightarrow> bool" where
  "material_typed m \<longleftrightarrow> length (fm_seed m) = 32 \<and> length (fm_server_commitment m) = 32 \<and>
     list_all (\<lambda>p. length (pf_contribution p) = 32 \<and> length (pf_commitment p) = 32) (fm_participants m) \<and>
     length (mb_digest (fm_beacon m)) = 32 \<and> length (mk_hash (fm_key m)) = 32"

lemma descriptor_bytes_prefix:
  assumes "descriptor_validate d = Inr ()" "descriptor_validate e = Inr ()"
    and "descriptor_bytes d @ x = descriptor_bytes e @ y"
  shows "d = e \<and> x = y"
proof -
  have l: "length (ds_game z) \<le> 128" "length (ds_ruleset z) \<le> 128" "length (ds_module z) \<le> 128" "length (ds_suite z) \<le> 128"
    if "descriptor_validate z = Inr ()" for z
    using that by (auto simp: descriptor_validate_def rbind_eq_Inr gc_validate_identifier_Inr)
  note p = gc_write_string_prefix [OF l(1) [OF assms(1)] l(1) [OF assms(2)]]
    gc_write_string_prefix [OF l(2) [OF assms(1)] l(2) [OF assms(2)]]
    gc_write_string_prefix [OF l(3) [OF assms(1)] l(3) [OF assms(2)]]
    gc_write_string_prefix [OF l(4) [OF assms(1)] l(4) [OF assms(2)]]
  have "gc_write_string (ds_game d) @ gc_write_string (ds_ruleset d) @ gc_write_string (ds_module d) @ gc_write_string (ds_suite d) @ ds_participants d # x
     = gc_write_string (ds_game e) @ gc_write_string (ds_ruleset e) @ gc_write_string (ds_module e) @ gc_write_string (ds_suite e) @ ds_participants e # y"
    using assms(3) by (simp add: descriptor_bytes_def)
  from p(1) [OF this] p(2) p(3) p(4) show ?thesis by (metis descriptor.equality list.inject unit.exhaust)
qed

lemma participants_prefix:
  assumes "length ps = length qs"
    and "list_all (\<lambda>p. length (pf_contribution p) = 32 \<and> length (pf_commitment p) = 32) ps"
    and "list_all (\<lambda>p. length (pf_contribution p) = 32 \<and> length (pf_commitment p) = 32) qs"
    and "concat (map participant_bytes ps) @ x = concat (map participant_bytes qs) @ y"
  shows "ps = qs \<and> x = y"
  using assms
proof (induction ps qs rule: list_induct2)
  case (Cons p ps q qs)
  then have "pf_position p = pf_position q" "pf_contribution p = pf_contribution q" "pf_commitment p = pf_commitment q"
      "concat (map participant_bytes ps) @ x = concat (map participant_bytes qs) @ y"
    by (auto simp: participant_bytes_def)
  with Cons show ?case by auto
qed simp

lemma material_valid_facts:
  assumes "material_validate m = Inr ()"
  shows "descriptor_validate (fm_descriptor m) = Inr ()" "length (fm_instance m) \<le> 128"
    "length (fm_participants m) = unat (ds_participants (fm_descriptor m))"
    "length (mb_provider (fm_beacon m)) \<le> 128" "length (mb_round (fm_beacon m)) \<le> 128"
    "length (mb_proof_ref (fm_beacon m)) \<le> 128" "length (mk_key (fm_key m)) \<le> 128"
  using assms
  by (auto simp: material_validate_def validate_instance_id_def rbind_eq_Inr gc_validate_identifier_Inr Let_def)

text \<open>C35: the seed commits to everything. Two valid fairness materials with the same digested bytes are equal in
  every field (game identity, instance, server seed and commitment, each participant, beacon and
  reveal key): a derived seed cannot be explained by different material without a hash collision.\<close>

theorem material_bytes_injective:
  assumes "material_validate m = Inr ()" "material_validate n = Inr ()" "material_typed m" "material_typed n"
    and eq: "material_bytes m = material_bytes n"
  shows "m = n"
proof -
  note vm = material_valid_facts [OF assms(1)] and vn = material_valid_facts [OF assms(2)]
  let ?tail = "\<lambda>k. gc_write_string (mb_provider (fm_beacon k)) @ gc_write_string (mb_round (fm_beacon k))
     @ mb_digest (fm_beacon k) @ gc_write_string (mb_proof_ref (fm_beacon k))
     @ gc_write_string (mk_key (fm_key k)) @ mk_hash (fm_key k)"
  let ?mid = "\<lambda>k. fm_seed k @ fm_server_commitment k
     @ [word_of_nat (length (fm_participants k))] @ concat (map participant_bytes (fm_participants k)) @ ?tail k"
  have "descriptor_bytes (fm_descriptor m) @ gc_write_string (fm_instance m) @ ?mid m =
      descriptor_bytes (fm_descriptor n) @ gc_write_string (fm_instance n) @ ?mid n"
    using eq by (simp add: material_bytes_def)
  from descriptor_bytes_prefix [OF vm(1) vn(1) this]
  have d: "fm_descriptor m = fm_descriptor n" and "gc_write_string (fm_instance m) @ ?mid m = gc_write_string (fm_instance n) @ ?mid n"
    by blast+
  from gc_write_string_prefix [OF vm(2) vn(2) this(2)]
  have i: "fm_instance m = fm_instance n" and mid: "?mid m = ?mid n" by blast+
  have len: "length (fm_participants m) = length (fm_participants n)" using vm(3) vn(3) d by simp
  have "fm_seed m = fm_seed n" "fm_server_commitment m = fm_server_commitment n"
    and ps: "concat (map participant_bytes (fm_participants m)) @ ?tail m = concat (map participant_bytes (fm_participants n)) @ ?tail n"
    using mid assms(3,4) len by (simp_all add: material_typed_def)
  from participants_prefix [OF len _ _ ps] assms(3,4)
  have p: "fm_participants m = fm_participants n" and t: "?tail m = ?tail n" by (simp_all add: material_typed_def)
  from gc_write_string_prefix [OF vm(4) vn(4) t]
  have b1: "mb_provider (fm_beacon m) = mb_provider (fm_beacon n)" and t1: "gc_write_string (mb_round (fm_beacon m))
     @ mb_digest (fm_beacon m) @ gc_write_string (mb_proof_ref (fm_beacon m)) @ gc_write_string (mk_key (fm_key m)) @ mk_hash (fm_key m) =
     gc_write_string (mb_round (fm_beacon n))
     @ mb_digest (fm_beacon n) @ gc_write_string (mb_proof_ref (fm_beacon n)) @ gc_write_string (mk_key (fm_key n)) @ mk_hash (fm_key n)"
    by blast+
  from gc_write_string_prefix [OF vm(5) vn(5) t1] assms(3,4)
  have b2: "mb_round (fm_beacon m) = mb_round (fm_beacon n)" "mb_digest (fm_beacon m) = mb_digest (fm_beacon n)"
    and t2: "gc_write_string (mb_proof_ref (fm_beacon m)) @ gc_write_string (mk_key (fm_key m)) @ mk_hash (fm_key m) =
     gc_write_string (mb_proof_ref (fm_beacon n)) @ gc_write_string (mk_key (fm_key n)) @ mk_hash (fm_key n)"
    by (simp_all add: material_typed_def)
  from gc_write_string_prefix [OF vm(6) vn(6) t2]
  have b3: "mb_proof_ref (fm_beacon m) = mb_proof_ref (fm_beacon n)"
    and t3: "gc_write_string (mk_key (fm_key m)) @ mk_hash (fm_key m) = gc_write_string (mk_key (fm_key n)) @ mk_hash (fm_key n)"
    by blast+
  from gc_write_string_prefix [OF vm(7) vn(7) t3]
  have "fm_key m = fm_key n" by (intro material_key.equality) simp_all
  moreover have "fm_beacon m = fm_beacon n" using b1 b2 b3 by (intro material_beacon.equality) simp_all
  ultimately show ?thesis
    using d i p \<open>fm_seed m = fm_seed n\<close> \<open>fm_server_commitment m = fm_server_commitment n\<close>
    by (intro fairness_material.equality) simp_all
qed

definition sample_material :: "u8 \<Rightarrow> fairness_material" where
  "sample_material b =
     \<lparr>fm_descriptor = \<lparr>ds_game = ''g'', ds_ruleset = ''r'', ds_module = ''m'', ds_suite = ''s'', ds_participants = 1\<rparr>,
      fm_instance = ''i'', fm_seed = replicate 32 b, fm_server_commitment = replicate 32 2,
      fm_participants = [\<lparr>pf_position = 1, pf_contribution = replicate 32 3, pf_commitment = replicate 32 4\<rparr>],
      fm_beacon = \<lparr>mb_provider = ''p'', mb_round = ''1'', mb_digest = replicate 32 5, mb_proof_ref = ''q''\<rparr>,
      fm_key = \<lparr>mk_key = ''k'', mk_hash = replicate 32 6\<rparr>\<rparr>"

theorem material_bytes_injective_witness: "material_bytes (sample_material 1) \<noteq> material_bytes (sample_material 7)"
proof
  assume "material_bytes (sample_material 1) = material_bytes (sample_material 7)"
  moreover have "material_validate (sample_material 1) = Inr ()" "material_validate (sample_material 7) = Inr ()"
    by code_simp+
  moreover have "material_typed (sample_material b)" for b by (simp add: material_typed_def sample_material_def)
  ultimately have "sample_material 1 = sample_material 7" by (intro material_bytes_injective)
  then have "fm_seed (sample_material 1) = fm_seed (sample_material 7)" by simp
  then show False by (simp add: sample_material_def)
qed

end
