(* ===== verification/Gamecore_Module.thy ===== *)
theory Gamecore_Module
  imports Gamecore_Identity
begin

text \<open>
  Setup artifacts and the module registry of the game core (\<open>gamecore/module.go\<close>). A module is a
  value with functions; the registry maps a descriptor key to the module registered for it. The
  locale \<open>setup_module\<close> is the contract of the interface \<open>RandomizedSetupModule\<close>; the Doudizhu
  module is an instance.
\<close>

section \<open>Setup artifacts\<close>

definition setup_artifact_domain :: string where
  "setup_artifact_domain = ''gamecore/setup-artifact/v1''"

record setup_artifact =
  sa_descriptor :: descriptor
  sa_version :: string
  sa_payload :: bytes
  sa_digest :: bytes

definition artifact_bytes :: "setup_artifact \<Rightarrow> bytes" where
  "artifact_bytes a =
     gc_write_domain setup_artifact_domain @ descriptor_bytes (sa_descriptor a)
     @ gc_write_string (sa_version a) @ gc_write_bytes (sa_payload a)"

definition artifact_compute_digest :: "setup_artifact \<Rightarrow> bytes" where
  "artifact_compute_digest a = sha256 (artifact_bytes a)"

definition artifact_checks :: "descriptor \<Rightarrow> string \<Rightarrow> bytes \<Rightarrow> go_error + unit" where
  "artifact_checks d version payload =
     rbind (descriptor_validate d) (\<lambda>_.
     rbind (gc_validate_identifier version) (\<lambda>_. gc_validate_payload payload False))"

definition new_setup_artifact :: "descriptor \<Rightarrow> string \<Rightarrow> bytes \<Rightarrow> go_error + setup_artifact" where
  "new_setup_artifact d version payload =
     rbind (artifact_checks d version payload) (\<lambda>_.
       let a = \<lparr>sa_descriptor = d, sa_version = version, sa_payload = payload, sa_digest = replicate 32 0\<rparr>
       in Inr (a\<lparr>sa_digest := artifact_compute_digest a\<rparr>))"

definition restore_setup_artifact :: "descriptor \<Rightarrow> string \<Rightarrow> bytes \<Rightarrow> bytes \<Rightarrow> go_error + setup_artifact" where
  "restore_setup_artifact d version payload digest =
     rbind (new_setup_artifact d version payload) (\<lambda>a.
       if gc_all_zero digest \<or> sa_digest a \<noteq> digest then Inl (Gamecore GcVerificationFailed) else Inr a)"

definition artifact_validate :: "setup_artifact \<Rightarrow> go_error + unit" where
  "artifact_validate a =
     rbind (artifact_checks (sa_descriptor a) (sa_version a) (sa_payload a)) (\<lambda>_.
       reject (gc_all_zero (sa_digest a) \<or> artifact_compute_digest a \<noteq> sa_digest a)
         (Gamecore GcVerificationFailed))"

lemma artifact_digest_field [simp]: "artifact_compute_digest (a\<lparr>sa_digest := g\<rparr>) = artifact_compute_digest a"
  by (simp add: artifact_compute_digest_def artifact_bytes_def)

lemma new_setup_artifact_Inr:
  "new_setup_artifact d v p = Inr a \<longleftrightarrow> artifact_checks d v p = Inr () \<and> sa_descriptor a = d \<and> sa_version a = v \<and>
    sa_payload a = p \<and> sa_digest a = artifact_compute_digest a"
  by (cases a) (auto simp: new_setup_artifact_def rbind_eq_Inr Let_def artifact_compute_digest_def artifact_bytes_def)

lemma artifact_validate_Inr:
  "artifact_validate a = Inr u \<longleftrightarrow> new_setup_artifact (sa_descriptor a) (sa_version a) (sa_payload a) = Inr a \<and>
    \<not> gc_all_zero (sa_digest a)"
  by (auto simp: artifact_validate_def rbind_eq_Inr new_setup_artifact_Inr)

lemma artifact_validate_restore:
  "artifact_validate a = Inr u \<longleftrightarrow>
    restore_setup_artifact (sa_descriptor a) (sa_version a) (sa_payload a) (sa_digest a) = Inr a"
  by (auto simp: artifact_validate_Inr restore_setup_artifact_def rbind_eq_Inr)

section \<open>Modules and the registry\<close>

text \<open>\<open>GenerateSetup\<close> and \<open>VerifySetup\<close> may run for ever (\<open>None\<close>), as the shuffle may.\<close>

record module =
  mo_descriptor :: descriptor
  mo_generate :: "fairness_material \<Rightarrow> (go_error + setup_artifact) option"
  mo_verify :: "fairness_material \<Rightarrow> setup_artifact \<Rightarrow> (go_error + unit) option"

record registered_module =
  rg_descriptor :: descriptor
  rg_delegate :: module

definition registered_generate :: "registered_module \<Rightarrow> fairness_material \<Rightarrow> (go_error + setup_artifact) option" where
  "registered_generate g m =
     (if fm_descriptor m \<noteq> rg_descriptor g then Some (Inl (Gamecore GcInvalidArgument))
      else map_option (\<lambda>r. rbind r (\<lambda>a.
             rbind (artifact_validate a) (\<lambda>_.
               if sa_descriptor a \<noteq> rg_descriptor g then Inl (Gamecore GcVerificationFailed) else Inr a)))
           (mo_generate (rg_delegate g) m))"

definition registered_verify :: "registered_module \<Rightarrow> fairness_material \<Rightarrow> setup_artifact \<Rightarrow> (go_error + unit) option" where
  "registered_verify g m a =
     (if fm_descriptor m \<noteq> rg_descriptor g \<or> sa_descriptor a \<noteq> rg_descriptor g
      then Some (Inl (Gamecore GcInvalidArgument))
      else case artifact_validate a of
        Inl e \<Rightarrow> Some (Inl e)
      | Inr _ \<Rightarrow> mo_verify (rg_delegate g) m a)"

type_synonym registry = "descriptor_key \<rightharpoonup> registered_module"

text \<open>A nil receiver or module is \<open>None\<close>.\<close>

definition register :: "registry option \<Rightarrow> module option \<Rightarrow> go_error + registry" where
  "register r m =
     (case r of
        None \<Rightarrow> Inl (Gamecore GcInvalidArgument)
      | Some reg \<Rightarrow>
          (case m of
             None \<Rightarrow> Inl (Gamecore GcInvalidArgument)
           | Some md \<Rightarrow>
               rbind (descriptor_validate (mo_descriptor md)) (\<lambda>_.
                 let key = descriptor_key_of (mo_descriptor md) in
                 if reg key \<noteq> None then Inl (Gamecore GcDuplicateRegistration)
                 else Inr (reg(key \<mapsto> \<lparr>rg_descriptor = mo_descriptor md, rg_delegate = md\<rparr>)))))"

fun register_all :: "registry \<Rightarrow> module option list \<Rightarrow> go_error + registry" where
  "register_all reg [] = Inr reg"
| "register_all reg (m # ms) = rbind (register (Some reg) m) (\<lambda>reg'. register_all reg' ms)"

definition new_registry :: "module option list \<Rightarrow> go_error + registry" where
  "new_registry ms = register_all Map.empty ms"

definition registry_lookup :: "registry option \<Rightarrow> descriptor_key \<Rightarrow> go_error + registered_module" where
  "registry_lookup r key =
     (case r of
        None \<Rightarrow> Inl (Gamecore GcInvalidArgument)
      | Some reg \<Rightarrow>
          rbind (gc_validate_identifier (dk_game key)) (\<lambda>_.
          rbind (gc_validate_identifier (dk_ruleset key)) (\<lambda>_.
          rbind (gc_validate_identifier (dk_module key)) (\<lambda>_.
            case reg key of
              None \<Rightarrow> Inl (Gamecore GcModuleNotFound)
            | Some g \<Rightarrow> Inr g))))"

definition registry_count :: "registry option \<Rightarrow> nat" where
  "registry_count r = (case r of None \<Rightarrow> 0 | Some reg \<Rightarrow> card (dom reg))"

section \<open>The contract of a module\<close>

locale setup_module =
  fixes md :: module
  assumes valid_descriptor: "descriptor_validate (mo_descriptor md) = Inr ()"
    and generates: "mo_generate md m = Some (Inr a) \<Longrightarrow>
      fm_descriptor m = mo_descriptor md \<and> sa_descriptor a = mo_descriptor md \<and>
      new_setup_artifact (sa_descriptor a) (sa_version a) (sa_payload a) = Inr a"
    and verifies: "mo_verify md m a = Some (Inr ()) \<longleftrightarrow> artifact_validate a = Inr () \<and> mo_generate md m = Some (Inr a)"
begin

abbreviation registered :: registered_module where
  "registered \<equiv> \<lparr>rg_descriptor = mo_descriptor md, rg_delegate = md\<rparr>"

text \<open>The registry's wrapper adds no restriction to a module that keeps the contract.\<close>

lemma registered_generates:
  "registered_generate registered m = Some (Inr a) \<longleftrightarrow> mo_generate md m = Some (Inr a) \<and> \<not> gc_all_zero (sa_digest a)"
  using generates [of m a]
  by (auto simp: registered_generate_def rbind_eq_Inr artifact_validate_Inr; intro exI [of _ a]; simp)

lemma registered_verifies:
  "registered_verify registered m a = Some (Inr ()) \<longleftrightarrow> registered_generate registered m = Some (Inr a)"
  using generates [of m a]
  by (auto simp: registered_generates registered_verify_def verifies artifact_validate_Inr split: sum.splits)
    (metis Inl_Inr_False artifact_validate_Inr)+

lemma registered_found:
  assumes "register (Some reg) (Some md) = Inr reg'"
  shows "registry_lookup (Some reg') (descriptor_key_of (mo_descriptor md)) = Inr registered"
  using assms valid_descriptor
  by (auto simp: register_def registry_lookup_def rbind_eq_Inr Let_def descriptor_validate_def descriptor_key_of_def
      split: if_splits)

end

lemma register_keeps:
  "register (Some reg) m = Inr reg' \<Longrightarrow> reg key = Some g \<Longrightarrow> reg' key = Some g"
  by (auto simp: register_def rbind_eq_Inr Let_def split: option.splits if_splits)

end
