(* ===== verification/Cards.thy ===== *)
theory Cards
  imports Encoding
begin

text \<open>
  \<open>carddeck/card.go\<close>: the 54 physical cards, their ranks, suits and text codes, and the deck as
  a list of 54 cards with its validity check and digest.
\<close>

section \<open>Cards, ranks and suits\<close>

type_synonym card = u8
type_synonym rank = u8
type_synonym suit = u8
type_synonym deck = "card list"

definition deck_size :: nat where "deck_size = 54"
definition cards_per_seat :: nat where "cards_per_seat = 17"
definition landlord_card_count :: nat where "landlord_card_count = 3"

abbreviation small_joker :: card where "small_joker \<equiv> 52"
abbreviation big_joker :: card where "big_joker \<equiv> 53"
abbreviation rank_three :: rank where "rank_three \<equiv> 0"
abbreviation rank_ace :: rank where "rank_ace \<equiv> 11"
abbreviation rank_two :: rank where "rank_two \<equiv> 12"
abbreviation rank_small_joker :: rank where "rank_small_joker \<equiv> 13"
abbreviation rank_big_joker :: rank where "rank_big_joker \<equiv> 14"

definition rank_codes :: "string list" where
  "rank_codes = [''3'', ''4'', ''5'', ''6'', ''7'', ''8'', ''9'', ''10'', ''J'', ''Q'', ''K'', ''A'', ''2'']"

definition suit_codes :: "string" where
  "suit_codes = ''CDHS''"

definition card_valid :: "card \<Rightarrow> bool" where
  "card_valid c \<longleftrightarrow> unat c < deck_size"

definition is_joker :: "card \<Rightarrow> bool" where
  "is_joker c \<longleftrightarrow> c = small_joker \<or> c = big_joker"

definition card_rank :: "card \<Rightarrow> go_error + rank" where
  "card_rank c =
     (if \<not> card_valid c then Inl (Carddeck InvalidArgument)
      else if c = small_joker then Inr rank_small_joker
      else if c = big_joker then Inr rank_big_joker
      else Inr (c div 4))"

definition card_suit :: "card \<Rightarrow> go_error + suit" where
  "card_suit c =
     (if \<not> card_valid c \<or> is_joker c then Inl (Carddeck InvalidArgument)
      else Inr (c mod 4))"

text \<open>In \<open>Code\<close> the errors of \<open>Rank\<close> and \<open>Suit\<close> are dropped, which leaves their zero value.\<close>

definition value_or_zero :: "go_error + u8 \<Rightarrow> u8" where
  "value_or_zero r = (case r of Inl _ \<Rightarrow> 0 | Inr x \<Rightarrow> x)"

definition card_code :: "card \<Rightarrow> go_error + string" where
  "card_code c =
     (if \<not> card_valid c then Inl (Carddeck InvalidArgument)
      else if c = small_joker then Inr ''XJ''
      else if c = big_joker then Inr ''YJ''
      else (let rank = value_or_zero (card_rank c); suit = value_or_zero (card_suit c)
            in Inr ((suit_codes ! unat suit) # (rank_codes ! unat rank))))"

fun find_rank :: "string list \<Rightarrow> nat \<Rightarrow> string \<Rightarrow> nat option" where
  "find_rank [] rank code = None"
| "find_rank (r # rs) rank code = (if code = r then Some rank else find_rank rs (Suc rank) code)"

fun suit_of_letter :: "char \<Rightarrow> nat option" where
  "suit_of_letter ch =
     (if ch = CHR ''C'' then Some 0
      else if ch = CHR ''D'' then Some 1
      else if ch = CHR ''H'' then Some 2
      else if ch = CHR ''S'' then Some 3
      else None)"

definition parse_card :: "string \<Rightarrow> go_error + card" where
  "parse_card code =
     (if code = ''XJ'' then Inr small_joker
      else if code = ''YJ'' then Inr big_joker
      else if length code < 2 \<or> length code > 3 then Inl (Carddeck InvalidArgument)
      else case suit_of_letter (hd code) of
        None \<Rightarrow> Inl (Carddeck InvalidArgument)
      | Some suit \<Rightarrow>
          (case find_rank rank_codes 0 (tl code) of
             None \<Rightarrow> Inl (Carddeck InvalidArgument)
           | Some rank \<Rightarrow> Inr (word_of_nat (rank * 4 + suit))))"

section \<open>Decks\<close>

definition canonical_deck :: deck where
  "canonical_deck = map word_of_nat [0..<deck_size]"

text \<open>The loop of \<open>Validate\<close>, with its \<open>seen\<close> array of 54 flags.\<close>

fun validate_loop :: "card list \<Rightarrow> bool list \<Rightarrow> go_error + unit" where
  "validate_loop [] seen = Inr ()"
| "validate_loop (c # cs) seen =
     (if \<not> card_valid c then Inl (Carddeck InvalidArgument)
      else if seen ! unat c then Inl (Carddeck InvalidArgument)
      else validate_loop cs (seen[unat c := True]))"

definition deck_validate :: "deck \<Rightarrow> go_error + unit" where
  "deck_validate d = validate_loop d (replicate deck_size False)"

fun card_codes :: "card list \<Rightarrow> go_error + string list" where
  "card_codes [] = Inr []"
| "card_codes (c # cs) = rbind (card_code c) (\<lambda>s. rbind (card_codes cs) (\<lambda>ss. Inr (s # ss)))"

definition deck_codes :: "deck \<Rightarrow> go_error + string list" where
  "deck_codes d = card_codes d"

definition deck_version :: string where "deck_version = ''fair-doudizhu-deck-v1''"
definition deck_digest_domain :: string where "deck_digest_domain = ''fair-doudizhu/deck-digest/v1''"

definition deck_digest :: "deck \<Rightarrow> go_error + bytes" where
  "deck_digest d =
     rbind (deck_validate d) (\<lambda>_.
       Inr (sha256 (write_domain deck_digest_domain @ write_string deck_version
                    @ write_u16 deck_size @ d)))"

section \<open>The rank table\<close>

text \<open>\<open>rank_of\<close> is the rank of a valid card as a number, without the error branch.\<close>

definition rank_of :: "card \<Rightarrow> nat" where
  "rank_of c = (if c = small_joker then 13 else if c = big_joker then 14 else unat c div 4)"

lemma unat_div4: "unat ((c :: u8) div 4) = unat c div 4"
  by (simp add: unat_div)

lemma word_of_nat_div4: "(word_of_nat (unat (c :: u8) div 4) :: u8) = c div 4"
proof -
  have "unat c div 4 < 256" using unat_lt_256 [of c] by simp
  then show ?thesis by (simp add: word_unat_eq_iff unat_div4 unat_of_nat_u8)
qed

lemma card_rank_valid: "card_valid c \<Longrightarrow> card_rank c = Inr (word_of_nat (rank_of c))"
  by (auto simp: card_rank_def rank_of_def word_of_nat_div4)

lemma rank_of_less: "card_valid c \<Longrightarrow> rank_of c < 15"
  by (auto simp: rank_of_def card_valid_def deck_size_def)

lemma valid_cards_list:
  "card_valid c \<longleftrightarrow> c \<in> set canonical_deck"
proof
  assume "card_valid c"
  then have "unat c \<in> {0..<deck_size}" by (simp add: card_valid_def)
  then show "c \<in> set canonical_deck"
    by (auto simp: canonical_deck_def intro!: image_eqI [of c word_of_nat "unat c"])
next
  assume "c \<in> set canonical_deck"
  then show "card_valid c"
    by (auto simp: canonical_deck_def card_valid_def deck_size_def unat_of_nat_u8)
qed

lemma length_canonical_deck [simp]: "length canonical_deck = 54"
  by (simp add: canonical_deck_def deck_size_def)

lemma distinct_canonical_deck [simp]: "distinct canonical_deck"
  by (auto simp: canonical_deck_def distinct_map inj_on_def deck_size_def
      word_of_nat_eq_iff take_bit_nat_eq_self)

section \<open>Deck validity\<close>

lemma validate_loop_iff:
  assumes "length seen = deck_size"
  shows "validate_loop cs seen = Inr u \<longleftrightarrow>
    (\<forall>c \<in> set cs. card_valid c \<and> \<not> seen ! unat c) \<and> distinct cs"
  using assms
proof (induction cs seen rule: validate_loop.induct)
  case (2 c cs seen)
  show ?case
  proof (cases "card_valid c \<and> \<not> seen ! unat c")
    case True
    then have c: "unat c < length seen" using 2(2) by (simp add: card_valid_def)
    have upd: "(seen[unat c := True] ! unat x) = (x = c \<or> seen ! unat x)" if "card_valid x" for x
      using that c 2(2) by (auto simp: nth_list_update card_valid_def word_unat_eq_iff)
    show ?thesis using True 2(1) 2(2) upd by auto
  next
    case False
    then show ?thesis by auto
  qed
qed simp

lemma validate_loop_error: "validate_loop cs seen = Inl e \<Longrightarrow> e = Carddeck InvalidArgument"
  by (induction cs seen rule: validate_loop.induct) (auto split: if_splits)

lemma deck_validate_iff:
  "deck_validate d = Inr u \<longleftrightarrow> (\<forall>c \<in> set d. card_valid c) \<and> distinct d"
  by (auto simp: deck_validate_def validate_loop_iff deck_size_def card_valid_def)

text \<open>On arrays of 54 cards, valid means: a permutation of the canonical deck.\<close>

lemma deck_validate_mset:
  assumes "length d = 54"
  shows "deck_validate d = Inr u \<longleftrightarrow> mset d = mset canonical_deck"
proof
  assume "deck_validate d = Inr u"
  then have v: "set d \<subseteq> set canonical_deck" "distinct d"
    by (auto simp: deck_validate_iff valid_cards_list)
  have "card (set d) = card (set canonical_deck)"
    using v(2) assms by (simp add: distinct_card)
  then have "set d = set canonical_deck"
    using v(1) by (simp add: card_subset_eq)
  then show "mset d = mset canonical_deck"
    using v(2) by (simp add: set_eq_iff_mset_eq_distinct)
next
  assume eq: "mset d = mset canonical_deck"
  then have "set d = set canonical_deck" by (metis set_mset_mset)
  moreover from eq have "distinct d" by (metis distinct_canonical_deck mset_eq_imp_distinct_iff)
  ultimately show "deck_validate d = Inr u"
    by (auto simp: deck_validate_iff valid_cards_list)
qed

section \<open>Card codes\<close>

text \<open>The two finite tables behind the round trip, evaluated by the kernel.\<close>

lemma all_codes_parse:
  "list_all (\<lambda>c. case card_code c of Inr s \<Rightarrow> parse_card s = Inr c | Inl _ \<Rightarrow> False) canonical_deck"
  by code_simp

lemma all_parses_code:
  "list_all (\<lambda>r. list_all (\<lambda>s. card_code (word_of_nat (r * 4 + s)) = Inr ((suit_codes ! s) # (rank_codes ! r)))
     [0..<4]) [0..<13]"
  by code_simp

lemma joker_codes: "card_code small_joker = Inr ''XJ''" "card_code big_joker = Inr ''YJ''"
  by code_simp+

lemma find_rank_Some:
  "find_rank rs k code = Some r \<Longrightarrow> k \<le> r \<and> r < k + length rs \<and> rs ! (r - k) = code"
proof (induction rs arbitrary: k)
  case (Cons x rs)
  show ?case
  proof (cases "code = x")
    case False
    with Cons.prems have "find_rank rs (Suc k) code = Some r" by simp
    from Cons.IH [OF this] have "Suc k \<le> r" "r < Suc k + length rs" "rs ! (r - Suc k) = code"
      by simp_all
    then show ?thesis by (simp add: nth_Cons' Suc_diff_le)
  qed (use Cons.prems in auto)
qed simp

lemma find_rank_codes:
  "find_rank rank_codes 0 code = Some r \<Longrightarrow> r < 13 \<and> rank_codes ! r = code"
  using find_rank_Some [of rank_codes 0 code r] by (simp add: rank_codes_def)

lemma suit_of_letter_Some: "suit_of_letter ch = Some s \<Longrightarrow> s < 4 \<and> suit_codes ! s = ch"
  by (auto simp: suit_codes_def split: if_splits)

declare suit_of_letter.simps [simp del]

lemma card_code_parse: "card_valid c \<Longrightarrow> card_code c = Inr s \<Longrightarrow> parse_card s = Inr c"
  using all_codes_parse by (auto simp: list_all_iff valid_cards_list)

lemma card_code_total: "card_valid c \<Longrightarrow> \<exists>s. card_code c = Inr s"
  by (auto simp: card_code_def Let_def)

lemma parse_card_code:
  assumes "parse_card s = Inr c"
  shows "card_code c = Inr s"
proof (cases "s = ''XJ'' \<or> s = ''YJ''")
  case True
  with assms show ?thesis by (auto simp: parse_card_def joker_codes)
next
  case False
  with assms have len: "2 \<le> length s" by (auto simp: parse_card_def split: if_splits)
  with False assms obtain suit rank where
    "suit_of_letter (hd s) = Some suit" "find_rank rank_codes 0 (tl s) = Some rank"
    and c: "c = word_of_nat (rank * 4 + suit)"
    by (auto simp: parse_card_def split: if_splits option.splits)
  then have "suit < 4" "suit_codes ! suit = hd s" "rank < 13" "rank_codes ! rank = tl s"
    by (auto dest!: suit_of_letter_Some find_rank_codes)
  moreover from len have "hd s # tl s = s" by (cases s) auto
  ultimately show ?thesis
    using all_parses_code c by (simp add: list_all_iff)
qed

lemma card_code_valid: "card_code c = Inr s \<Longrightarrow> card_valid c"
  by (auto simp: card_code_def split: if_splits)

lemma parse_card_valid: "parse_card s = Inr c \<Longrightarrow> card_valid c"
  using parse_card_code card_code_valid by blast

text \<open>The text codes are a bijection between the valid cards and the strings the parser
  accepts: a card has code \<open>s\<close> exactly when \<open>s\<close> parses to that card, and every valid card has
  a code.\<close>

theorem card_code_bijection:
  "(card_code c = Inr s \<longleftrightarrow> parse_card s = Inr c) \<and> (card_valid c \<longleftrightarrow> (\<exists>s'. card_code c = Inr s'))"
  using card_code_parse parse_card_code card_code_valid card_code_total by metis

lemma card_codes_total: "\<forall>c \<in> set cs. card_valid c \<Longrightarrow> \<exists>ss. card_codes cs = Inr ss"
  by (induction cs) (auto dest: card_code_total)

end
