(* ===== verification/Random_Stream.thy ===== *)
theory Random_Stream
  imports Cards
begin

text \<open>
  \<open>carddeck/random.go\<close>: the shuffle seed, the HMAC counter stream and rejection sampling.

  A \<open>Uint64Source\<close> is a step function \<open>next\<close> on a state type; the nil source is \<open>None\<close>. The
  rejection loop of \<open>Uniform\<close> stops only when the source yields a large enough value, so it is
  a \<open>partial_function\<close> and \<open>None\<close> is the call that never returns; \<open>uniform_loop_returns\<close> says
  exactly when it returns and with what.
\<close>

section \<open>Shuffle input and seed\<close>

definition seed_version :: string where "seed_version = ''fair-doudizhu-shuffle-seed-v1''"
definition random_stream_version :: string where
  "random_stream_version = ''fair-doudizhu-hmac-counter-v1''"
definition seed_domain :: string where "seed_domain = ''fair-doudizhu/shuffle-seed/v1''"
definition random_block_domain :: string where
  "random_block_domain = ''fair-doudizhu/random-block/v1''"

record shuffle_input =
  si_hand_id :: string
  si_server_seed :: bytes
  si_contributions :: "bytes list"
  si_beacon_provider :: string
  si_beacon_round :: string
  si_beacon_digest :: bytes

fun check_contributions :: "bytes list \<Rightarrow> go_error + unit" where
  "check_contributions [] = Inr ()"
| "check_contributions (c # cs) =
     (if all_zero c then Inl (Carddeck InvalidArgument) else check_contributions cs)"

definition shuffle_input_validate :: "shuffle_input \<Rightarrow> go_error + unit" where
  "shuffle_input_validate i =
     rbind (validate_text (si_hand_id i) False) (\<lambda>_.
     rbind (reject (all_zero (si_server_seed i)) (Carddeck InvalidArgument)) (\<lambda>_.
     rbind (check_contributions (si_contributions i)) (\<lambda>_.
     rbind (validate_text (si_beacon_provider i) False) (\<lambda>_.
     rbind (validate_text (si_beacon_round i) False) (\<lambda>_.
     reject (all_zero (si_beacon_digest i)) (Carddeck InvalidArgument))))))"

fun seat_tagged :: "nat \<Rightarrow> bytes list \<Rightarrow> bytes" where
  "seat_tagged index [] = []"
| "seat_tagged index (c # cs) = word_of_nat (index + 1) # c @ seat_tagged (Suc index) cs"

definition shuffle_input_bytes :: "shuffle_input \<Rightarrow> go_error + bytes" where
  "shuffle_input_bytes i =
     rbind (shuffle_input_validate i) (\<lambda>_.
       Inr (write_domain seed_domain @ write_string seed_version @ write_string (si_hand_id i)
            @ si_server_seed i @ seat_tagged 0 (si_contributions i)
            @ write_string (si_beacon_provider i) @ write_string (si_beacon_round i)
            @ si_beacon_digest i))"

definition derive_seed :: "shuffle_input \<Rightarrow> go_error + bytes" where
  "derive_seed i = rbind (shuffle_input_bytes i) (\<lambda>encoded. Inr (sha256 encoded))"

section \<open>The HMAC counter stream\<close>

record stream =
  st_key :: bytes
  st_counter :: u64
  st_block :: bytes
  st_offset :: nat

definition new_stream :: "bytes \<Rightarrow> go_error + stream" where
  "new_stream seed =
     (if all_zero seed then Inl (Carddeck InvalidArgument)
      else Inr \<lparr>st_key = seed, st_counter = 0, st_block = replicate 32 0, st_offset = 32\<rparr>)"

definition random_block :: "bytes \<Rightarrow> u64 \<Rightarrow> bytes" where
  "random_block key counter =
     hmac_sha256 key (write_domain random_block_domain @ write_string random_stream_version
                      @ write_u64 counter)"

text \<open>
  \<open>gamecore/random.go\<close> has the same stream over blocks with another domain, so filling and
  reading take the block function \<open>blk\<close>, which is \<open>random_block\<close> here.
\<close>

definition stream_fill :: "(bytes \<Rightarrow> u64 \<Rightarrow> bytes) \<Rightarrow> stream \<Rightarrow> stream" where
  "stream_fill blk s =
     s\<lparr>st_block := blk (st_key s) (st_counter s), st_counter := st_counter s + 1, st_offset := 0\<rparr>"

text \<open>\<open>Read\<close> into a target of \<open>n\<close> bytes; the block array has 32 bytes.\<close>

function stream_read :: "(bytes \<Rightarrow> u64 \<Rightarrow> bytes) \<Rightarrow> nat \<Rightarrow> stream \<Rightarrow> bytes \<times> stream" where
  "stream_read blk n s =
     (if n = 0 then ([], s)
      else (let s1 = (if st_offset s \<ge> 32 then stream_fill blk s else s);
                count = min n (32 - st_offset s1);
                part = take count (drop (st_offset s1) (st_block s1));
                (rest, s2) = stream_read blk (n - count) (s1\<lparr>st_offset := st_offset s1 + count\<rparr>)
            in (part @ rest, s2)))"
  by pat_completeness auto
termination
  by (relation "measure (\<lambda>(blk, n, s). n)") (auto simp: stream_fill_def)

declare stream_read.simps [simp del]

definition stream_uint64 :: "(bytes \<Rightarrow> u64 \<Rightarrow> bytes) \<Rightarrow> stream \<Rightarrow> u64 \<times> stream" where
  "stream_uint64 blk s = (let (encoded, s') = stream_read blk 8 s in (be_join encoded, s'))"

definition carddeck_uint64 :: "stream \<Rightarrow> u64 \<times> stream" where
  "carddeck_uint64 = stream_uint64 random_block"

section \<open>Rejection sampling\<close>

partial_function (option) uniform_loop ::
  "('s \<Rightarrow> u64 \<times> 's) \<Rightarrow> u64 \<Rightarrow> u64 \<Rightarrow> 's \<Rightarrow> (u64 \<times> 's) option" where
  "uniform_loop next bound threshold s =
     (case next s of (candidate, s') \<Rightarrow>
        if candidate \<ge> threshold then Some (candidate mod bound, s')
        else uniform_loop next bound threshold s')"

declare uniform_loop.simps [code]

definition uniform ::
  "('s \<Rightarrow> u64 \<times> 's) \<Rightarrow> 's option \<Rightarrow> u64 \<Rightarrow> (go_error + u64 \<times> 's) option" where
  "uniform next source bound =
     (case source of
        None \<Rightarrow> Some (Inl (Carddeck InvalidArgument))
      | Some s \<Rightarrow>
          if bound = 0 then Some (Inl (Carddeck InvalidArgument))
          else map_option Inr (uniform_loop next bound ((0 - bound) mod bound) s))"

section \<open>What the rejection loop returns\<close>

text \<open>\<open>src_value next n s\<close> is the \<open>n\<close>-th number the source yields from \<open>s\<close>, \<open>src_state\<close> the
  state it is in before that.\<close>

primrec src_state :: "('s \<Rightarrow> u64 \<times> 's) \<Rightarrow> nat \<Rightarrow> 's \<Rightarrow> 's" where
  "src_state next 0 s = s"
| "src_state next (Suc n) s = src_state next n (snd (next s))"

definition src_value :: "('s \<Rightarrow> u64 \<times> 's) \<Rightarrow> nat \<Rightarrow> 's \<Rightarrow> u64" where
  "src_value next n s = fst (next (src_state next n s))"

lemma uniform_loop_finds:
  "(\<forall>i<n. src_value next i s < t) \<Longrightarrow> t \<le> src_value next n s \<Longrightarrow>
   uniform_loop next b t s = Some (src_value next n s mod b, src_state next (Suc n) s)"
proof (induction n arbitrary: s)
  case 0
  obtain c s' where "next s = (c, s')" by (cases "next s")
  with 0 show ?case
    by (subst uniform_loop.simps) (simp add: src_value_def)
next
  case (Suc n)
  obtain c s' where nx: "next s = (c, s')" by (cases "next s")
  have "src_value next 0 s < t" using Suc.prems(1) by blast
  then have c: "c < t" by (simp add: src_value_def nx)
  have shift: "src_value next i s' = src_value next (Suc i) s" for i
    by (simp add: src_value_def nx)
  have "\<forall>i<n. src_value next i s' < t" using Suc.prems(1) by (auto simp: shift)
  moreover have "t \<le> src_value next n s'" using Suc.prems(2) by (simp add: shift)
  ultimately have "uniform_loop next b t s' = Some (src_value next n s' mod b, src_state next (Suc n) s')"
    by (rule Suc.IH)
  moreover have "\<not> t \<le> c" using c by simp
  ultimately show ?case
    by (subst uniform_loop.simps) (auto simp: nx shift)
qed

lemma uniform_loop_found:
  assumes "uniform_loop next b t s = Some (v, s')"
  shows "\<exists>n. (\<forall>i<n. src_value next i s < t) \<and> t \<le> src_value next n s
    \<and> v = src_value next n s mod b \<and> s' = src_state next (Suc n) s"
proof -
  let ?P = "\<lambda>next b t s r. \<exists>n. (\<forall>i<n. src_value next i s < t) \<and> t \<le> src_value next n s
    \<and> r = (src_value next n s mod b, src_state next (Suc n) s)"
  have "?P next b t s (v, s')"
  proof (rule uniform_loop.raw_induct [where P = ?P, OF _ assms])
    fix f :: "('s \<Rightarrow> u64 \<times> 's) \<Rightarrow> u64 \<Rightarrow> u64 \<Rightarrow> 's \<Rightarrow> (u64 \<times> 's) option" and nx b t s r
    assume IH: "\<And>nx b t s r. f nx b t s = Some r \<Longrightarrow> ?P nx b t s r"
      and eq: "(case nx s of (c, s1) \<Rightarrow> if c \<ge> t then Some (c mod b, s1) else f nx b t s1) = Some r"
    obtain c s1 where nx: "nx s = (c, s1)" by (cases "nx s")
    show "?P nx b t s r"
    proof (cases "t \<le> c")
      case True
      with eq nx show ?thesis by (intro exI [of _ 0]) (simp add: src_value_def)
    next
      case False
      with eq nx have "f nx b t s1 = Some r" by simp
      from IH [OF this] obtain n where n: "\<forall>i<n. src_value nx i s1 < t" "t \<le> src_value nx n s1"
        "r = (src_value nx n s1 mod b, src_state nx (Suc n) s1)" by blast
      have shift: "src_value nx i s1 = src_value nx (Suc i) s" for i
        by (simp add: src_value_def nx)
      have "src_value nx i s < t" if "i < Suc n" for i
        using that n(1) False nx by (cases i) (auto simp: shift src_value_def not_le)
      with n shift show ?thesis by (intro exI [of _ "Suc n"]) (simp add: nx)
    qed
  qed
  then show ?thesis by simp
qed

definition threshold :: "u64 \<Rightarrow> u64" where
  "threshold bound = (0 - bound) mod bound"

lemma unat_threshold: "bound \<noteq> 0 \<Longrightarrow> unat (threshold bound) = 2 ^ 64 mod unat bound"
proof -
  assume "bound \<noteq> 0"
  then have pos: "0 < unat bound" by (simp add: unat_gt_0)
  have less: "unat bound < 2 ^ 64" "unat (- bound) < 2 ^ 64"
    using unsigned_less [of bound] unsigned_less [of "- bound"] by simp_all
  have "(unat (- bound) + unat bound) mod 2 ^ 64 = 0"
    using unat_word_ariths(1) [of "- bound" bound] by simp
  then have "unat (- bound) + unat bound = 2 ^ 64"
    using pos less by (auto simp: mod_eq_0_iff_dvd elim!: dvdE)
  then have "(unat (- bound)) mod unat bound = 2 ^ 64 mod unat bound"
    by (metis mod_add_self2)
  then show ?thesis by (simp add: threshold_def unat_mod)
qed

lemma uniform_Inr_iff:
  "uniform next (Some s) b = Some (Inr (v, s')) \<longleftrightarrow>
   b \<noteq> 0 \<and> (\<exists>n. (\<forall>i<n. src_value next i s < threshold b) \<and> threshold b \<le> src_value next n s
     \<and> v = src_value next n s mod b \<and> s' = src_state next (Suc n) s)"
  unfolding uniform_def threshold_def
  by (auto dest!: uniform_loop_found simp: uniform_loop_finds)

lemma uniform_less: "uniform next src b = Some (Inr (v, s')) \<Longrightarrow> unat v < unat b"
proof (cases src)
  case (Some s)
  assume "uniform next src b = Some (Inr (v, s'))"
  with Some obtain c where "b \<noteq> 0" "v = c mod b" by (auto simp: uniform_Inr_iff)
  then show ?thesis by (simp add: unat_mod unat_gt_0)
qed (simp add: uniform_def)

section \<open>Rejection sampling is unbiased\<close>

lemma residue_count:
  fixes b r N :: nat
  assumes "r < b"
  shows "card {c. N mod b \<le> c \<and> c < N \<and> c mod b = r} = N div b"
proof -
  define t q d where "t = N mod b" and "q = N div b" and "d = (r + b - N mod b) mod b"
  have tb: "t < b" using assms by (simp add: t_def)
  have N: "N = t + q * b" by (simp add: t_def q_def)
  have d: "d < b" using assms by (simp add: d_def)
  have dt: "(t + d) mod b = r"
    using assms tb by (simp add: d_def t_def [symmetric] mod_add_right_eq)
  let ?f = "\<lambda>j. t + j * b + d"
  have "bij_betw ?f {0..<q} {c. t \<le> c \<and> c < N \<and> c mod b = r}"
  proof (rule bij_betwI')
    fix i j assume "i \<in> {0..<q}" "j \<in> {0..<q}"
    show "(?f i = ?f j) = (i = j)" using tb by simp
  next
    fix j assume j: "j \<in> {0..<q}"
    then have "j * b + b \<le> q * b" by (metis Suc_leI add.commute atLeastLessThan_iff mult_Suc mult_le_mono1)
    moreover have "?f j mod b = (t + d) mod b"
      by (metis add.assoc add.commute mod_mult_self1)
    ultimately show "?f j \<in> {c. t \<le> c \<and> c < N \<and> c mod b = r}"
      using d dt N by auto
  next
    fix c assume "c \<in> {c. t \<le> c \<and> c < N \<and> c mod b = r}"
    then have c: "t \<le> c" "c < N" "c mod b = r" by auto
    define j e where "j = (c - t) div b" and "e = (c - t) mod b"
    have ce: "c = t + j * b + e" using c(1) by (simp add: j_def e_def)
    have "c - t < q * b" using c(1,2) N by linarith
    then have "j < q" unfolding j_def by (simp add: less_mult_imp_div_less)
    moreover have "e = d"
    proof -
      have eb: "e < b" using assms by (simp add: e_def)
      have "(t + e) mod b = r" using c(3) ce by (metis add.assoc add.commute mod_mult_self1)
      with dt have eq: "(t + e) mod b = (t + d) mod b" by simp
      have red: "(t + x) mod b = (if t + x < b then t + x else t + x - b)" if "x < b" for x
        using that tb by (simp add: mod_if)
      from eq show ?thesis
        unfolding red [OF eb] red [OF d] using eb d tb by (simp split: if_splits)
    qed
    ultimately show "\<exists>x\<in>{0..<q}. c = ?f x" using ce by auto
  qed
  then have "card {0..<q} = card {c. t \<le> c \<and> c < N \<and> c mod b = r}"
    by (rule bij_betw_same_card)
  then show ?thesis by (simp add: t_def q_def)
qed

lemma uniform_unbiased_card:
  assumes "unat r < unat bound"
  shows "card {c. threshold bound \<le> c \<and> c mod bound = r} = 2 ^ 64 div unat bound"
proof -
  have b: "bound \<noteq> 0" using assms by auto
  let ?W = "{c. threshold bound \<le> c \<and> c mod bound = r}"
  let ?N = "{c. 2 ^ 64 mod unat bound \<le> c \<and> c < 2 ^ 64 \<and> c mod unat bound = unat r}"
  have "bij_betw unat ?W ?N"
  proof (rule bij_betwI')
    fix x y :: u64 show "(unat x = unat y) = (x = y)" by (simp add: word_unat_eq_iff)
  next
    fix x assume "x \<in> ?W"
    then have "unat (threshold bound) \<le> unat x" "unat (x mod bound) = unat r"
      by (auto simp: word_le_nat_alt)
    then show "unat x \<in> ?N"
      using unsigned_less [of x] by (simp add: unat_threshold [OF b] unat_mod)
  next
    fix n assume n: "n \<in> ?N"
    then have u: "unat (word_of_nat n :: u64) = n" by (simp add: unat_of_nat take_bit_nat_eq_self)
    have "threshold bound \<le> word_of_nat n"
      unfolding word_le_nat_alt u unat_threshold [OF b] using n by blast
    moreover have "(word_of_nat n :: u64) mod bound = r"
      unfolding word_unat_eq_iff unat_mod u using n by blast
    ultimately have "(word_of_nat n :: u64) \<in> ?W" by blast
    then show "\<exists>x\<in>?W. n = unat x" by (rule bexI [rotated]) (rule u [symmetric])
  qed
  then have "card ?W = card ?N" by (rule bij_betw_same_card)
  then show ?thesis using residue_count [OF assms, of "2 ^ 64"] by simp
qed

text \<open>A source that yields the numbers of a list, then zeros.\<close>

definition list_source :: "u64 list \<Rightarrow> u64 \<times> u64 list" where
  "list_source cs = (case cs of [] \<Rightarrow> (0, []) | c # rest \<Rightarrow> (c, rest))"

lemma list_source_state: "src_state list_source n cs = drop n cs"
  by (induction n arbitrary: cs) (auto simp: list_source_def split: list.splits)

lemma list_source_value: "src_value list_source n cs = (if n < length cs then cs ! n else 0)"
proof (cases "n < length cs")
  case True
  then show ?thesis
    by (simp add: src_value_def list_source_state list_source_def Cons_nth_drop_Suc [symmetric])
qed (simp add: src_value_def list_source_state list_source_def)

text \<open>The draws that end in a result: the rejected ones, then the accepted one.\<close>

lemma uniform_takes_all:
  assumes "length cs = Suc n"
  shows "uniform list_source (Some cs) b = Some (Inr (r, [])) \<longleftrightarrow>
    b \<noteq> 0 \<and> (\<forall>i<n. cs ! i < threshold b) \<and> threshold b \<le> cs ! n \<and> cs ! n mod b = r"
    (is "?l \<longleftrightarrow> ?r")
proof
  assume ?l
  then obtain k where b: "b \<noteq> 0" and k: "\<forall>i<k. src_value list_source i cs < threshold b"
      "threshold b \<le> src_value list_source k cs" "r = src_value list_source k cs mod b" "[] = src_state list_source (Suc k) cs"
    unfolding uniform_Inr_iff by blast
  have "length cs \<le> Suc k" using k(4) by (simp only: list_source_state drop_eq_Nil2)
  then have "n \<le> k" using assms by simp
  moreover have "\<not> n < k"
  proof
    assume "n < k"
    then have "threshold b = 0" using k(2) assms by (simp add: list_source_value)
    moreover have "src_value list_source 0 cs < threshold b" using k(1) \<open>n < k\<close> by blast
    ultimately show False by simp
  qed
  ultimately have "k = n" by simp
  with b k show ?r using assms by (simp add: list_source_value)
next
  assume r: ?r
  have "src_state list_source (Suc n) cs = []"
    by (simp only: list_source_state drop_eq_Nil assms order_refl)
  moreover have "\<forall>i<n. src_value list_source i cs < threshold b"
    using r assms by (simp add: list_source_value)
  moreover have "src_value list_source n cs = cs ! n" using assms by (simp add: list_source_value)
  ultimately show ?l using r unfolding uniform_Inr_iff by metis
qed

lemma card_appended:
  fixes A B :: "'a set"
  assumes "finite A" "finite B"
  shows "card {xs. length xs = Suc n \<and> (\<forall>i<n. xs ! i \<in> A) \<and> xs ! n \<in> B} = card A ^ n * card B"
proof -
  let ?L = "{xs. set xs \<subseteq> A \<and> length xs = n}" and ?X = "{xs. length xs = Suc n \<and> (\<forall>i<n. xs ! i \<in> A) \<and> xs ! n \<in> B}"
  have "bij_betw (\<lambda>(xs, x). xs @ [x]) (?L \<times> B) ?X"
  proof (rule bij_betwI')
    fix p assume "p \<in> ?L \<times> B"
    then show "(\<lambda>(xs, x). xs @ [x]) p \<in> ?X" by (auto simp: nth_append)
  next
    fix ys assume ys: "ys \<in> ?X"
    then have "ys \<noteq> []" by auto
    then have split: "ys = butlast ys @ [last ys]" by simp
    have "last ys = ys ! n" using ys \<open>ys \<noteq> []\<close> by (simp add: last_conv_nth)
    moreover have "set (butlast ys) \<subseteq> A" using ys by (auto simp: in_set_conv_nth nth_butlast)
    ultimately have "(butlast ys, last ys) \<in> ?L \<times> B" using ys by simp
    with split show "\<exists>p\<in>?L \<times> B. ys = (\<lambda>(xs, x). xs @ [x]) p" by (intro bexI [of _ "(butlast ys, last ys)"]) simp_all
  qed auto
  then have "card ?X = card (?L \<times> B)" by (simp add: bij_betw_same_card)
  then show ?thesis using card_lists_length_eq [OF assms(1), of n] by (simp add: card_cartesian_product)
qed

lemma card_below: "card {c :: u64. c < t} = unat t"
proof -
  have "bij_betw unat {c :: u64. c < t} {0..<unat t}"
  proof (rule bij_betwI')
    fix y assume y: "y \<in> {0..<unat t}"
    moreover have "unat t < 2 ^ LENGTH(64)" by (rule unsigned_less)
    ultimately have "y < 2 ^ 64" by simp
    then have "unat (word_of_nat y :: u64) = y" by (simp add: unat_of_nat take_bit_nat_eq_self)
    then show "\<exists>x\<in>{c. c < t}. y = unat x" using y by (intro bexI [of _ "word_of_nat y"]) (simp_all add: word_less_nat_alt)
  qed (auto simp: word_less_nat_alt word_unat_eq_iff)
  then show ?thesis by (simp add: bij_betw_same_card)
qed

text \<open>C15: the sampler is unbiased. Of the sequences of \<open>n + 1\<close> numbers a source can yield, those that make
  \<open>Uniform\<close> draw all of them and return \<open>r\<close> are equally many for every \<open>r\<close> below the bound, for every \<open>n\<close>:
  the first \<open>n\<close> numbers are any of the \<open>2^64 mod bound\<close> rejected ones, the last is one of \<open>2^64 div bound\<close>.\<close>

theorem uniform_unbiased:
  assumes "unat r < unat bound"
  shows "card {cs. length cs = Suc n \<and> uniform list_source (Some cs) bound = Some (Inr (r, []))} =
    (2 ^ 64 mod unat bound) ^ n * (2 ^ 64 div unat bound)"
proof -
  have b: "bound \<noteq> 0" using assms by auto
  have "{cs. length cs = Suc n \<and> uniform list_source (Some cs) bound = Some (Inr (r, []))} =
      {cs. length cs = Suc n \<and> (\<forall>i<n. cs ! i \<in> {c. c < threshold bound}) \<and>
           cs ! n \<in> {c. threshold bound \<le> c \<and> c mod bound = r}}"
    using uniform_takes_all b by auto
  also have "card \<dots> = card {c. c < threshold bound} ^ n * card {c. threshold bound \<le> c \<and> c mod bound = r}"
    by (rule card_appended) simp_all
  finally show ?thesis
    using uniform_unbiased_card [OF assms] unat_threshold [OF b] by (simp add: card_below)
qed

theorem uniform_unbiased_witness:
  "card {cs. length cs = 2 \<and> uniform list_source (Some cs) 54 = Some (Inr (53, []))} = 2 ^ 64 mod 54 * (2 ^ 64 div 54)"
proof -
  have u: "unat (53 :: u64) < unat (54 :: u64)" "unat (54 :: u64) = 54" by simp_all
  have two: "Suc 1 = 2" by simp
  from uniform_unbiased [OF u(1), of 1] show ?thesis unfolding two u(2) power_one_right .
qed

section \<open>The stream is a keystream\<close>

text \<open>
  The abstract view of a stream is its position \<open>p\<close> in the infinite byte sequence
  \<open>keystream blk key\<close>, the concatenation of the HMAC blocks for the counters 0, 1, 2, \<dots> .
\<close>

definition keystream :: "(bytes \<Rightarrow> u64 \<Rightarrow> bytes) \<Rightarrow> bytes \<Rightarrow> nat \<Rightarrow> u8" where
  "keystream blk key i = blk key (word_of_nat (i div 32)) ! (i mod 32)"

definition stream_at :: "(bytes \<Rightarrow> u64 \<Rightarrow> bytes) \<Rightarrow> bytes \<Rightarrow> nat \<Rightarrow> stream \<Rightarrow> bool" where
  "stream_at blk key p s \<longleftrightarrow>
     st_key s = key \<and> length (st_block s) = 32 \<and> st_offset s \<le> 32 \<and>
     (if st_offset s = 32 then p mod 32 = 0 \<and> st_counter s = word_of_nat (p div 32)
      else st_offset s = p mod 32 \<and> st_counter s = word_of_nat (p div 32) + 1
           \<and> st_block s = blk key (word_of_nat (p div 32)))"

lemma length_random_block [simp]: "length (random_block key c) = 32"
  by (simp add: random_block_def)

lemma new_stream_at: "new_stream seed = Inr s \<Longrightarrow> stream_at blk seed 0 s"
  by (auto simp: new_stream_def stream_at_def split: if_splits)

lemma stream_fill_at:
  assumes "\<And>c. length (blk key c) = 32"
  shows "stream_at blk key p s \<Longrightarrow> st_offset s \<ge> 32 \<Longrightarrow> stream_at blk key p (stream_fill blk s) \<and> st_offset (stream_fill blk s) = 0"
  using assms by (auto simp: stream_at_def stream_fill_def split: if_splits)

lemma keystream_run:
  assumes len: "\<And>c. length (blk key c) = 32" and "j + k \<le> 32"
  shows "map (keystream blk key) [32 * b + j..<32 * b + j + k]
    = take k (drop j (blk key (word_of_nat b)))"
proof (rule nth_equalityI)
  show "length (map (keystream blk key) [32 * b + j..<32 * b + j + k])
    = length (take k (drop j (blk key (word_of_nat b))))"
    using assms by (simp add: len)
next
  fix i assume "i < length (map (keystream blk key) [32 * b + j..<32 * b + j + k])"
  then have i: "i < k" by simp
  with assms have ji: "j + i < 32" by simp
  then have "(32 * b + (j + i)) div 32 = b" "(32 * b + (j + i)) mod 32 = j + i" by simp_all
  with i assms show "map (keystream blk key) [32 * b + j..<32 * b + j + k] ! i
    = take k (drop j (blk key (word_of_nat b))) ! i"
    by (simp add: keystream_def add.assoc len)
qed

lemma stream_advance_at:
  assumes len: "\<And>c. length (blk key c) = 32"
    and "stream_at blk key p s" and "st_offset s < 32" and "k \<le> 32 - st_offset s"
  shows "stream_at blk key (p + k) (s\<lparr>st_offset := st_offset s + k\<rparr>)"
    and "take k (drop (st_offset s) (st_block s)) = map (keystream blk key) [p..<p + k]"
proof -
  let ?b = "p div 32"
  have off: "st_offset s = p mod 32" and c: "st_counter s = word_of_nat ?b + 1"
    and blk: "st_block s = blk key (word_of_nat ?b)" and key: "st_key s = key"
    using assms(2,3) by (auto simp: stream_at_def)
  have p: "p = 32 * ?b + st_offset s" using off by simp
  show "take k (drop (st_offset s) (st_block s)) = map (keystream blk key) [p..<p + k]"
    using keystream_run [of blk key "st_offset s" k ?b, OF len] assms(3,4) blk p len by simp
  show "stream_at blk key (p + k) (s\<lparr>st_offset := st_offset s + k\<rparr>)"
  proof (cases "st_offset s + k = 32")
    case True
    with p have "p + k = 32 * (?b + 1)" by simp
    then have "(p + k) mod 32 = 0" "(p + k) div 32 = ?b + 1" by (simp_all only: mod_mult_self1_is_0 nonzero_mult_div_cancel_left)
    with True c key blk show ?thesis by (simp add: stream_at_def len)
  next
    case False
    with assms have lt: "st_offset s + k < 32" by simp
    have "p + k = 32 * ?b + (st_offset s + k)" using p by simp
    moreover have "(32 * ?b + (st_offset s + k)) mod 32 = st_offset s + k"
      "(32 * ?b + (st_offset s + k)) div 32 = ?b"
      using lt by simp_all
    ultimately have "(p + k) mod 32 = st_offset s + k" "(p + k) div 32 = ?b" by metis+
    with lt c key blk show ?thesis by (simp add: stream_at_def len)
  qed
qed

lemma stream_read_at:
  assumes len: "\<And>c. length (blk key c) = 32" and "stream_at blk key p s"
  shows "fst (stream_read blk n s) = map (keystream blk key) [p..<p + n] \<and>
    stream_at blk key (p + n) (snd (stream_read blk n s))"
  using assms
proof (induction blk n s arbitrary: p rule: stream_read.induct)
  case (1 blk n s)
  show ?case
  proof (cases "n = 0")
    case True
    with 1(3) show ?thesis by (simp add: stream_read.simps)
  next
    case False
    define s1 where "s1 = (if st_offset s \<ge> 32 then stream_fill blk s else s)"
    define k where "k = min n (32 - st_offset s1)"
    define part where "part = take k (drop (st_offset s1) (st_block s1))"
    define s2 where "s2 = s1\<lparr>st_offset := st_offset s1 + k\<rparr>"
    have s1: "stream_at blk key p s1" "st_offset s1 < 32"
      using 1(3) stream_fill_at [of blk key p s, OF 1(2)] by (auto simp: s1_def)
    have k: "k \<le> 32 - st_offset s1" "k \<le> n" by (simp_all add: k_def)
    have at2: "stream_at blk key (p + k) s2" and part: "part = map (keystream blk key) [p..<p + k]"
      unfolding s2_def part_def by (rule stream_advance_at [OF 1(2) s1 k(1)])+
    have IH: "fst (stream_read blk (n - k) s2) = map (keystream blk key) [p + k..<p + k + (n - k)] \<and>
      stream_at blk key (p + k + (n - k)) (snd (stream_read blk (n - k) s2))"
      using 1(1) [OF False s1_def k_def part_def 1(2) at2 [unfolded s2_def], folded s2_def] by simp
    have read: "stream_read blk n s = (part @ fst (stream_read blk (n - k) s2), snd (stream_read blk (n - k) s2))"
      using False
      by (subst stream_read.simps) (simp add: Let_def s1_def [symmetric] k_def [symmetric]
          part_def [symmetric] s2_def [symmetric] split: prod.splits)
    have split: "[p..<p + n] = [p..<p + k] @ [p + k..<p + n]"
      using upt_add_eq_append [of p "p + k" "n - k"] k(2) by simp
    show ?thesis using IH k(2) unfolding read split by (simp add: part)
  qed
qed

lemma stream_uint64_at:
  assumes "\<And>c. length (blk key c) = 32" and "stream_at blk key p s"
  shows "fst (stream_uint64 blk s) = be_join (map (keystream blk key) [p..<p + 8])"
    and "stream_at blk key (p + 8) (snd (stream_uint64 blk s))"
  using stream_read_at [OF assms, of 8] by (simp_all add: stream_uint64_def split_beta)

section \<open>The interface of a random source\<close>

text \<open>
  \<open>Uint64Source\<close>: a source follows a fixed sequence \<open>val\<close> of numbers; \<open>at i s\<close> says that \<open>i\<close>
  numbers have been drawn when it is in state \<open>s\<close>. What \<open>Uniform\<close> returns then depends only
  on the sequence.
\<close>

locale uint64_source =
  fixes draw :: "'s \<Rightarrow> u64 \<times> 's" and val :: "nat \<Rightarrow> u64" and at :: "nat \<Rightarrow> 's \<Rightarrow> bool"
  assumes draw_val: "at i s \<Longrightarrow> fst (draw s) = val i"
    and draw_at: "at i s \<Longrightarrow> at (Suc i) (snd (draw s))"
begin

lemma src_state_at: "at i s \<Longrightarrow> at (i + n) (src_state draw n s)"
proof (induction n arbitrary: i s)
  case (Suc n)
  from Suc.IH [OF draw_at [OF Suc.prems]] show ?case by simp
qed simp

lemma src_value_val: "at i s \<Longrightarrow> src_value draw n s = val (i + n)"
  by (simp add: src_value_def draw_val [OF src_state_at])

lemma uniform_draws:
  assumes "at i s" and "uniform draw (Some s) b = Some (Inr (v, s'))"
  shows "\<exists>n. (\<forall>k<n. val (i + k) < threshold b) \<and> threshold b \<le> val (i + n)
    \<and> v = val (i + n) mod b \<and> at (i + Suc n) s'"
proof -
  from assms(2) obtain n where n: "\<forall>k<n. src_value draw k s < threshold b"
    "threshold b \<le> src_value draw n s" "v = src_value draw n s mod b" "s' = src_state draw (Suc n) s"
    unfolding uniform_Inr_iff by blast
  moreover have "at (i + Suc n) s'" unfolding n(4) by (rule src_state_at [OF assms(1)])
  ultimately show ?thesis by (auto simp: src_value_val [OF assms(1)] intro!: exI [of _ n])
qed

lemma uniform_returns:
  assumes "at i s" and "b \<noteq> 0" and "\<exists>n. threshold b \<le> val (i + n)"
  shows "\<exists>v s'. uniform draw (Some s) b = Some (Inr (v, s'))"
proof -
  define n where "n = (LEAST n. threshold b \<le> val (i + n))"
  have "threshold b \<le> val (i + n)" unfolding n_def by (rule LeastI_ex [OF assms(3)])
  moreover have "\<forall>k<n. val (i + k) < threshold b"
    unfolding n_def using not_less_Least by (auto simp: not_le [symmetric])
  ultimately show ?thesis
    using assms(2) by (auto simp: uniform_Inr_iff src_value_val [OF assms(1)])
qed

end

definition stream_word :: "(bytes \<Rightarrow> u64 \<Rightarrow> bytes) \<Rightarrow> bytes \<Rightarrow> nat \<Rightarrow> u64" where
  "stream_word blk key i = be_join (map (keystream blk key) [8 * i..<8 * i + 8])"

interpretation cd: uint64_source carddeck_uint64 "stream_word random_block key"
    "\<lambda>i. stream_at random_block key (8 * i)" for key :: bytes
  using stream_uint64_at [of random_block key]
  by unfold_locales (simp_all add: carddeck_uint64_def stream_word_def add.commute [of 8])

text \<open>Any number of reads of any sizes, one after the other.\<close>

fun stream_reads :: "(bytes \<Rightarrow> u64 \<Rightarrow> bytes) \<Rightarrow> nat list \<Rightarrow> stream \<Rightarrow> bytes list \<times> stream" where
  "stream_reads blk [] s = ([], s)"
| "stream_reads blk (n # ns) s =
     (case stream_read blk n s of (part, s1) \<Rightarrow>
        (case stream_reads blk ns s1 of (parts, s2) \<Rightarrow> (part # parts, s2)))"

lemma stream_reads_at:
  assumes "\<And>c. length (blk key c) = 32" and "stream_at blk key p s"
  shows "map length (fst (stream_reads blk ns s)) = ns \<and>
    concat (fst (stream_reads blk ns s)) = map (keystream blk key) [p..<p + sum_list ns] \<and>
    stream_at blk key (p + sum_list ns) (snd (stream_reads blk ns s))"
  using assms(2)
proof (induction ns arbitrary: p s)
  case (Cons n ns)
  obtain part s1 where r: "stream_read blk n s = (part, s1)" by (cases "stream_read blk n s")
  note at1 = stream_read_at [OF assms(1) Cons.prems, of n, unfolded r fst_conv snd_conv]
  have split: "[p..<p + (n + k)] = [p..<p + n] @ [p + n..<p + n + k]" for k
    using upt_add_eq_append [of p "p + n" k] by (simp add: add.assoc)
  show ?case using Cons.IH [OF conjunct2 [OF at1]] conjunct1 [OF at1] by (simp add: r split add.assoc split_beta)
qed simp

text \<open>C37: the HMAC counter stream. However a fresh stream is read, in any number of reads of any sizes, each
  read has the size that was asked for, and the bytes of all of them in their order are those of the
  concatenated blocks \<open>HMAC-SHA256(seed, domain, version, counter)\<close> for the counters 0, 1, 2, and so on: no
  byte is dropped, repeated or read across the wrong block boundary. A number that is drawn after them is the
  big-endian value of the next eight.\<close>

theorem stream_is_keystream:
  assumes "new_stream seed = Inr s" and "stream_reads random_block ns s = (parts, s')"
  shows "map length parts = ns \<and>
    concat parts = map (\<lambda>i. random_block seed (word_of_nat (i div 32)) ! (i mod 32)) [0..<sum_list ns] \<and>
    fst (carddeck_uint64 s') =
      be_join (map (\<lambda>i. random_block seed (word_of_nat (i div 32)) ! (i mod 32)) [sum_list ns..<sum_list ns + 8])"
  using stream_reads_at [of random_block seed 0 s ns] new_stream_at [OF assms(1), of random_block]
    stream_uint64_at(1) [of random_block seed "sum_list ns" s'] assms(2)
  by (simp add: carddeck_uint64_def keystream_def [abs_def])

theorem stream_is_keystream_witness:
  "\<exists>parts s'. stream_reads random_block [5, 40, 0, 70] \<lparr>st_key = replicate 32 1, st_counter = 0,
      st_block = replicate 32 0, st_offset = 32\<rparr> = (parts, s') \<and> map length parts = [5, 40, 0, 70]"
proof -
  have ok: "new_stream (replicate 32 1) = Inr \<lparr>st_key = replicate 32 1, st_counter = 0,
      st_block = replicate 32 0, st_offset = 32\<rparr>"
    by (simp add: new_stream_def all_zero_iff)
  obtain parts s' where r: "stream_reads random_block [5, 40, 0, 70] \<lparr>st_key = replicate 32 1, st_counter = 0,
      st_block = replicate 32 0, st_offset = 32\<rparr> = (parts, s')" by (rule prod.exhaust)
  show ?thesis by (intro exI conjI) (rule r, rule conjunct1 [OF stream_is_keystream [OF ok r]])
qed

end
