(* ===== verification/Shuffle_Deal.thy ===== *)
theory Shuffle_Deal
  imports Random_Stream
begin

text \<open>
  \<open>carddeck/shuffle.go\<close> and \<open>carddeck/deal.go\<close>: the Fisher-Yates shuffle over a 64-bit source,
  the deal of 17 cards to each of three seats with 3 cards left for the landlord, the way back
  from a deal to its deck, and the deal digest.
\<close>

section \<open>Shuffle\<close>

definition swap_cards :: "'a list \<Rightarrow> nat \<Rightarrow> nat \<Rightarrow> 'a list" where
  "swap_cards d i j = d[i := d ! j, j := d ! i]"

text \<open>The loop runs \<open>index\<close> from the last position down to 1.\<close>

fun shuffle_loop ::
  "('s \<Rightarrow> u64 \<times> 's) \<Rightarrow> nat \<Rightarrow> deck \<Rightarrow> 's \<Rightarrow> (go_error + deck \<times> 's) option" where
  "shuffle_loop next 0 d s = Some (Inr (d, s))"
| "shuffle_loop next (Suc i) d s =
     (case uniform next (Some s) (word_of_nat (Suc i + 1)) of
        None \<Rightarrow> None
      | Some (Inl e) \<Rightarrow> Some (Inl e)
      | Some (Inr (selected, s')) \<Rightarrow> shuffle_loop next i (swap_cards d (Suc i) (unat selected)) s')"

definition shuffle_deck ::
  "('s \<Rightarrow> u64 \<times> 's) \<Rightarrow> deck \<Rightarrow> 's option \<Rightarrow> (go_error + deck \<times> 's) option" where
  "shuffle_deck next input source =
     (case deck_validate input of
        Inl e \<Rightarrow> Some (Inl e)
      | Inr _ \<Rightarrow>
          (case source of
             None \<Rightarrow> Some (Inl (Carddeck InvalidArgument))
           | Some s \<Rightarrow> shuffle_loop next (length input - 1) input s))"

record shuffle_result =
  sr_seed :: bytes
  sr_deck :: deck
  sr_deck_digest :: bytes

definition shuffle :: "shuffle_input \<Rightarrow> (go_error + shuffle_result) option" where
  "shuffle input =
     (case derive_seed input of
        Inl e \<Rightarrow> Some (Inl e)
      | Inr seed \<Rightarrow>
          (case new_stream seed of
             Inl e \<Rightarrow> Some (Inl e)
           | Inr st \<Rightarrow>
               (case shuffle_deck carddeck_uint64 canonical_deck (Some st) of
                  None \<Rightarrow> None
                | Some (Inl e) \<Rightarrow> Some (Inl e)
                | Some (Inr (d, _)) \<Rightarrow>
                    Some (rbind (deck_digest d) (\<lambda>digest.
                      Inr \<lparr>sr_seed = seed, sr_deck = d, sr_deck_digest = digest\<rparr>)))))"

section \<open>Deal\<close>

definition deal_version :: string where "deal_version = ''fair-doudizhu-deal-v1''"
definition deal_digest_domain :: string where "deal_digest_domain = ''fair-doudizhu/deal-digest/v1''"

record deal_result =
  dr_hands :: "card list list"
  dr_landlord :: "card list"
  dr_digest :: bytes

definition reconstruct_deck :: "deal_result \<Rightarrow> deck" where
  "reconstruct_deck r =
     concat (map (\<lambda>round. map (\<lambda>seat. (dr_hands r ! seat) ! round) [0..<3]) [0..<cards_per_seat])
     @ dr_landlord r"

fun hands_bytes :: "nat \<Rightarrow> card list list \<Rightarrow> bytes" where
  "hands_bytes seat [] = []"
| "hands_bytes seat (h # hs) =
     word_of_nat (seat + 1) # write_u16 (length h) @ h @ hands_bytes (Suc seat) hs"

definition deal_compute_digest :: "deal_result \<Rightarrow> go_error + bytes" where
  "deal_compute_digest r =
     rbind (deck_validate (reconstruct_deck r)) (\<lambda>_.
       Inr (sha256 (write_domain deal_digest_domain @ write_string deal_version
                    @ hands_bytes 0 (dr_hands r)
                    @ write_u16 (length (dr_landlord r)) @ dr_landlord r)))"

definition zero_digest :: bytes where "zero_digest = replicate 32 0"

definition deal_hands :: "deck \<Rightarrow> card list list" where
  "deal_hands d = map (\<lambda>seat. map (\<lambda>round. d ! (round * 3 + seat)) [0..<cards_per_seat]) [0..<3]"

definition deal :: "deck \<Rightarrow> go_error + deal_result" where
  "deal d =
     rbind (deck_validate d) (\<lambda>_.
       let r = \<lparr>dr_hands = deal_hands d, dr_landlord = drop (deck_size - landlord_card_count) d,
                dr_digest = zero_digest\<rparr>
       in rbind (deal_compute_digest r) (\<lambda>digest. Inr (r\<lparr>dr_digest := digest\<rparr>)))"

definition deal_hand :: "deal_result \<Rightarrow> u8 \<Rightarrow> go_error + card list" where
  "deal_hand r seat =
     (if seat < 1 \<or> seat > 3 then Inl (Carddeck InvalidArgument)
      else Inr (dr_hands r ! unat (seat - 1)))"

definition deal_validate :: "deal_result \<Rightarrow> go_error + unit" where
  "deal_validate r =
     rbind (deck_validate (reconstruct_deck r)) (\<lambda>_.
     rbind (deal_compute_digest r) (\<lambda>digest.
       reject (dr_digest r \<noteq> zero_digest \<and> dr_digest r \<noteq> digest) (Carddeck VerificationFailed)))"

section \<open>Fisher-Yates reaches every permutation exactly once\<close>

text \<open>
  The pure core of the loop: \<open>apply_choices i js d\<close> performs the swaps of the loop from index
  \<open>i\<close> down to 1 with the selected positions \<open>js\<close>; \<open>choices i\<close> are the vectors the sampler can
  produce, one of \<open>k + 1\<close> values at index \<open>k\<close>.
\<close>

fun apply_choices :: "nat \<Rightarrow> nat list \<Rightarrow> 'a list \<Rightarrow> 'a list" where
  "apply_choices (Suc i) (j # js) d = apply_choices i js (swap_cards d (Suc i) j)"
| "apply_choices _ _ d = d"

fun choices :: "nat \<Rightarrow> nat list \<Rightarrow> bool" where
  "choices 0 js = (js = [])"
| "choices (Suc i) [] = False"
| "choices (Suc i) (j # js) = (j \<le> Suc i \<and> choices i js)"

lemma length_swap_cards [simp]: "length (swap_cards d i j) = length d"
  by (simp add: swap_cards_def)

lemma mset_swap_cards: "i < length d \<Longrightarrow> j < length d \<Longrightarrow> mset (swap_cards d i j) = mset d"
  by (simp add: swap_cards_def mset_swap)

lemma swap_cards_nth:
  "i < length d \<Longrightarrow> j < length d \<Longrightarrow>
   swap_cards d i j ! k = (if k = j then d ! i else if k = i then d ! j else d ! k)"
  by (simp add: swap_cards_def nth_list_update)

lemma apply_choices_above:
  "choices i js \<Longrightarrow> i < length d \<Longrightarrow> i < k \<Longrightarrow> apply_choices i js d ! k = d ! k"
  by (induction i js d rule: apply_choices.induct) (auto simp: swap_cards_nth)

lemma apply_choices_mset:
  "choices i js \<Longrightarrow> i < length d \<Longrightarrow> mset (apply_choices i js d) = mset d"
  by (induction i js d rule: apply_choices.induct) (auto simp: mset_swap_cards)

lemma choices_Suc: "choices (Suc i) ks \<longleftrightarrow> (\<exists>k ks'. ks = k # ks' \<and> k \<le> Suc i \<and> choices i ks')"
  by (cases ks) auto

lemma apply_choices_inject:
  "choices i js \<Longrightarrow> choices i ks \<Longrightarrow> i < length d \<Longrightarrow> distinct d \<Longrightarrow>
   apply_choices i js d = apply_choices i ks d \<Longrightarrow> js = ks"
proof (induction i arbitrary: js ks d)
  case (Suc i)
  obtain j js' where js: "js = j # js'" "j \<le> Suc i" "choices i js'"
    using Suc.prems(1) by (auto simp: choices_Suc)
  obtain k ks' where ks: "ks = k # ks'" "k \<le> Suc i" "choices i ks'"
    using Suc.prems(2) by (auto simp: choices_Suc)
  have last: "apply_choices (Suc i) (l # ls) d ! Suc i = d ! l" if "choices i ls" "l \<le> Suc i" for l ls
    using that Suc.prems(3) by (simp add: apply_choices_above swap_cards_nth)
  have "d ! j = d ! k"
    using last [OF js(3,2)] last [OF ks(3,2)] Suc.prems(5) js(1) ks(1) by simp
  then have jk: "j = k"
    using Suc.prems(3,4) js(2) ks(2) by (simp add: nth_eq_iff_index_eq)
  have "distinct (swap_cards d (Suc i) j)"
    using Suc.prems(3,4) js(2) by (simp add: swap_cards_def)
  then have "js' = ks'"
    using Suc.IH [OF js(3) ks(3), of "swap_cards d (Suc i) j"] Suc.prems(3,5) js(1) ks(1) jk by simp
  with jk js(1) ks(1) show ?case by simp
qed simp

lemma apply_choices_surj:
  "mset p = mset d \<Longrightarrow> i < length d \<Longrightarrow> \<forall>k>i. k < length d \<longrightarrow> p ! k = d ! k \<Longrightarrow>
   \<exists>js. choices i js \<and> apply_choices i js d = p"
proof (induction i arbitrary: d)
  case 0
  have len: "length p = length d" using 0(1) by (metis mset_eq_length)
  obtain a as where d: "d = a # as" using 0(2) by (cases d) auto
  obtain b bs where p: "p = b # bs" using len d by (cases p) auto
  have "bs = as"
  proof (rule nth_equalityI)
    show "length bs = length as" using len d p by simp
  next
    fix k assume "k < length bs"
    then show "bs ! k = as ! k" using 0(3) [rule_format, of "Suc k"] len d p by simp
  qed
  with 0(1) d p have "p = d" by simp
  then show ?case by (intro exI [of _ "[]"]) simp
next
  case (Suc i)
  have len: "length p = length d" using Suc.prems(1) by (metis mset_eq_length)
  have "\<exists>j \<le> Suc i. d ! j = p ! Suc i"
  proof (rule ccontr)
    assume no: "\<not> (\<exists>j \<le> Suc i. d ! j = p ! Suc i)"
    let ?x = "p ! Suc i"
    have "drop (Suc (Suc i)) p = drop (Suc (Suc i)) d"
      using Suc.prems(2,3) len by (intro nth_equalityI) auto
    then have "mset (take (Suc (Suc i)) p) = mset (take (Suc (Suc i)) d)"
      using Suc.prems(1) by (metis add_right_cancel append_take_drop_id mset_append)
    then have "set (take (Suc (Suc i)) p) = set (take (Suc (Suc i)) d)" by (metis set_mset_mset)
    moreover have "?x \<in> set (take (Suc (Suc i)) p)"
      using Suc.prems(2) len by (auto simp: in_set_conv_nth intro!: exI [of _ "Suc i"])
    ultimately obtain j where "j < Suc (Suc i)" "d ! j = ?x" by (auto simp: in_set_conv_nth)
    with no show False by auto
  qed
  then obtain j where j: "j \<le> Suc i" "d ! j = p ! Suc i" by blast
  let ?d = "swap_cards d (Suc i) j"
  have "mset p = mset ?d" using Suc.prems(1,2) j(1) by (simp add: mset_swap_cards)
  moreover have "\<forall>k>i. k < length ?d \<longrightarrow> p ! k = ?d ! k"
    using Suc.prems(2,3) j by (auto simp: swap_cards_nth Suc_lessI)
  ultimately obtain js where "choices i js" "apply_choices i js ?d = p"
    using Suc.IH [of ?d] Suc.prems(2) by auto
  with j(1) show ?case by (intro exI [of _ "j # js"]) simp
qed

lemma apply_choices_bij:
  assumes "distinct d" and "length d = Suc n"
  shows "bij_betw (\<lambda>js. apply_choices n js d) {js. choices n js} {p. mset p = mset d}"
  unfolding bij_betw_def
proof
  show "inj_on (\<lambda>js. apply_choices n js d) {js. choices n js}"
    using assms by (auto intro!: inj_onI apply_choices_inject [of n _ _ d])
  show "(\<lambda>js. apply_choices n js d) ` {js. choices n js} = {p. mset p = mset d}"
  proof
    show "(\<lambda>js. apply_choices n js d) ` {js. choices n js} \<subseteq> {p. mset p = mset d}"
      using assms by (auto simp: apply_choices_mset)
    show "{p. mset p = mset d} \<subseteq> (\<lambda>js. apply_choices n js d) ` {js. choices n js}"
    proof
      fix p assume "p \<in> {p. mset p = mset d}"
      then have "\<exists>js. choices n js \<and> apply_choices n js d = p"
        using assms by (intro apply_choices_surj) auto
      then show "p \<in> (\<lambda>js. apply_choices n js d) ` {js. choices n js}" by auto
    qed
  qed
qed

section \<open>The loop applies the drawn choices\<close>

inductive drawn :: "('s \<Rightarrow> u64 \<times> 's) \<Rightarrow> nat \<Rightarrow> 's \<Rightarrow> nat list \<Rightarrow> 's \<Rightarrow> bool" for draw where
  drawn_0: "drawn draw 0 s [] s"
| drawn_Suc: "uniform draw (Some s) (word_of_nat (Suc i + 1)) = Some (Inr (v, s1)) \<Longrightarrow>
    drawn draw i s1 js s2 \<Longrightarrow> drawn draw (Suc i) s (unat v # js) s2"

inductive_simps drawn_simps: "drawn draw 0 s js s'" "drawn draw (Suc i) s js s'"

lemma drawn_choices: "drawn draw i s js s' \<Longrightarrow> i < 2 ^ 32 \<Longrightarrow> choices i js"
proof (induction rule: drawn.induct)
  case (drawn_Suc s i v s1 js s2)
  have "unat v < unat (word_of_nat (Suc i + 1) :: u64)"
    by (rule uniform_less [OF drawn_Suc.hyps(1)])
  also have "\<dots> = Suc i + 1"
    using drawn_Suc.prems by (simp add: unat_of_nat take_bit_nat_eq_self del: of_nat_Suc of_nat_add)
  finally show ?case using drawn_Suc by simp
qed simp

lemma shuffle_loop_drawn:
  "shuffle_loop draw i d s = Some (Inr (d', s')) \<longleftrightarrow>
   (\<exists>js. drawn draw i s js s' \<and> d' = apply_choices i js d)"
proof (induction draw i d s rule: shuffle_loop.induct)
  case (2 draw i d s)
  show ?case
  proof (cases "uniform draw (Some s) (word_of_nat (Suc i + 1))")
    case None
    then show ?thesis by (simp add: drawn_simps)
  next
    case (Some r)
    show ?thesis
    proof (cases r)
      case (Inl e)
      with Some show ?thesis by (simp add: drawn_simps)
    next
      case (Inr p)
      obtain v s1 where p: "p = (v, s1)" by (cases p)
      have "shuffle_loop draw (Suc i) d s = shuffle_loop draw i (swap_cards d (Suc i) (unat v)) s1"
        using Some Inr p by simp
      moreover have "drawn draw (Suc i) s js s' \<longleftrightarrow>
          (\<exists>js'. js = unat v # js' \<and> drawn draw i s1 js' s')" for js
        using Some Inr p by (auto simp: drawn_simps)
      ultimately show ?thesis using 2 [OF Some Inr p [symmetric]] by (auto simp del: shuffle_loop.simps)
    qed
  qed
qed (auto simp: drawn_simps)

lemma deck_validate_canonical [simp]: "deck_validate canonical_deck = Inr ()"
  using deck_validate_mset [of canonical_deck] by simp

text \<open>C16: the shuffle of the canonical deck is exactly the Fisher-Yates permutation of the numbers
  drawn from the source, and that map is a bijection between the \<open>54!\<close> possible draw vectors and
  the permutations of the deck: every deck order has exactly one draw vector.\<close>

theorem shuffle_deck_bijection:
  "(shuffle_deck draw canonical_deck (Some s) = Some (Inr (d, s')) \<longleftrightarrow>
      (\<exists>js. drawn draw 53 s js s' \<and> choices 53 js \<and> d = apply_choices 53 js canonical_deck))
   \<and> bij_betw (\<lambda>js. apply_choices 53 js canonical_deck) {js. choices 53 js}
       {p. mset p = mset canonical_deck}"
proof
  show "shuffle_deck draw canonical_deck (Some s) = Some (Inr (d, s')) \<longleftrightarrow>
      (\<exists>js. drawn draw 53 s js s' \<and> choices 53 js \<and> d = apply_choices 53 js canonical_deck)"
    using drawn_choices [of draw 53 s _ s'] by (auto simp: shuffle_deck_def shuffle_loop_drawn)
  show "bij_betw (\<lambda>js. apply_choices 53 js canonical_deck) {js. choices 53 js}
       {p. mset p = mset canonical_deck}"
    by (rule apply_choices_bij) simp_all
qed

lemma shuffle_deck_mset:
  assumes "shuffle_deck draw d (Some s) = Some (Inr (d', s'))" and "length d = 54"
  shows "mset d' = mset d" and "deck_validate d' = Inr ()"
proof -
  from assms obtain js where "drawn draw 53 s js s'" "d' = apply_choices 53 js d"
    and v: "deck_validate d = Inr ()"
    by (auto simp: shuffle_deck_def shuffle_loop_drawn split: sum.splits)
  then show m: "mset d' = mset d"
    using assms(2) drawn_choices [of draw 53 s js s'] by (simp add: apply_choices_mset)
  then show "deck_validate d' = Inr ()"
    using v assms(2) deck_validate_mset by (metis size_mset)
qed


section \<open>The deal partitions the deck\<close>

lemma concat_rounds:
  assumes "3 * n \<le> length d"
  shows "concat (map (\<lambda>round. map (\<lambda>seat. d ! (round * 3 + seat)) [0..<3]) [0..<n]) = take (3 * n) d"
  using assms
proof (induction n)
  case (Suc n)
  then have "n * 3 + 2 < length d" by simp
  then have "take (3 * Suc n) d = take (3 * n) d @ [d ! (n * 3), d ! (n * 3 + 1), d ! (n * 3 + 2)]"
    by (simp add: take_Suc_conv_app_nth numeral_3_eq_3 mult.commute)
  with Suc show ?case by (simp add: upt_conv_Cons numeral_3_eq_3)
qed simp

lemma hands_nth:
  "seat < 3 \<Longrightarrow> round < cards_per_seat \<Longrightarrow> deal_hands d ! seat ! round = d ! (round * 3 + seat)"
  by (simp add: deal_hands_def)

lemma reconstruct_deal_hands:
  assumes "length d = 54"
  shows "reconstruct_deck \<lparr>dr_hands = deal_hands d,
      dr_landlord = drop (deck_size - landlord_card_count) d, dr_digest = g\<rparr> = d"
proof -
  have "map (\<lambda>round. map (\<lambda>seat. deal_hands d ! seat ! round) [0..<3]) [0..<cards_per_seat]
      = map (\<lambda>round. map (\<lambda>seat. d ! (round * 3 + seat)) [0..<3]) [0..<cards_per_seat]"
    by (simp add: hands_nth)
  moreover have "concat \<dots> = take 51 d"
    using concat_rounds [of cards_per_seat d] assms by (simp add: cards_per_seat_def)
  ultimately show ?thesis
    by (simp add: reconstruct_deck_def deck_size_def landlord_card_count_def del: map_eq_conv)
qed

lemma deal_Inr_iff:
  assumes "length d = 54"
  shows "deal d = Inr r \<longleftrightarrow> deck_validate d = Inr () \<and>
    (\<exists>g. deal_compute_digest \<lparr>dr_hands = deal_hands d,
        dr_landlord = drop (deck_size - landlord_card_count) d, dr_digest = zero_digest\<rparr> = Inr g \<and>
      r = \<lparr>dr_hands = deal_hands d, dr_landlord = drop (deck_size - landlord_card_count) d, dr_digest = g\<rparr>)"
  by (auto simp: deal_def rbind_eq_Inr Let_def)

lemma deal_total:
  assumes "length d = 54" and "deck_validate d = Inr ()"
  shows "\<exists>r. deal d = Inr r"
  using assms by (simp add: deal_def deal_compute_digest_def Let_def reconstruct_deal_hands)

lemma deal_reconstruct: "length d = 54 \<Longrightarrow> deal d = Inr r \<Longrightarrow> reconstruct_deck r = d"
  by (auto simp: deal_Inr_iff reconstruct_deal_hands)

lemma mset_rounds:
  "mset (concat (map (\<lambda>round. map (\<lambda>seat. f seat round) [0..<3]) [0..<n]))
   = mset (map (f 0) [0..<n]) + mset (map (f 1) [0..<n]) + mset (map (f 2) [0..<n])"
  by (induction n) (simp_all add: upt_conv_Cons numeral_3_eq_3 numeral_2_eq_2)

lemma deal_hands_shape:
  "length (deal_hands d) = 3" "\<forall>h \<in> set (deal_hands d). length h = 17"
  by (auto simp: deal_hands_def cards_per_seat_def)

lemma deal_hands_mset:
  assumes "length d = 54"
  shows "mset (deal_hands d ! 0) + mset (deal_hands d ! 1) + mset (deal_hands d ! 2)
    + mset (drop (deck_size - landlord_card_count) d) = mset d"
proof -
  have "mset (take 51 d) = mset (map (\<lambda>r. d ! (r * 3 + 0)) [0..<17])
      + mset (map (\<lambda>r. d ! (r * 3 + 1)) [0..<17]) + mset (map (\<lambda>r. d ! (r * 3 + 2)) [0..<17])"
    using concat_rounds [of 17 d] mset_rounds [of "\<lambda>seat round. d ! (round * 3 + seat)" 17] assms
    by simp
  moreover have "deal_hands d ! i = map (\<lambda>r. d ! (r * 3 + i)) [0..<17]" if "i < 3" for i
    using that by (simp add: deal_hands_def cards_per_seat_def)
  ultimately have "mset (deal_hands d ! 0) + mset (deal_hands d ! 1) + mset (deal_hands d ! 2)
      = mset (take 51 d)" by simp
  moreover have "deck_size - landlord_card_count = 51"
    by (simp add: deck_size_def landlord_card_count_def)
  moreover have "mset (take 51 d) + mset (drop 51 d) = mset d"
    by (simp flip: mset_append)
  ultimately show ?thesis by simp
qed

lemma deal_validate_deal:
  assumes "length d = 54" and "deal d = Inr r"
  shows "deal_validate r = Inr ()"
proof -
  from assms obtain g where g: "deal_compute_digest \<lparr>dr_hands = deal_hands d,
        dr_landlord = drop (deck_size - landlord_card_count) d, dr_digest = zero_digest\<rparr> = Inr g"
    and r: "r = \<lparr>dr_hands = deal_hands d, dr_landlord = drop (deck_size - landlord_card_count) d, dr_digest = g\<rparr>"
    and v: "deck_validate d = Inr ()"
    by (auto simp: deal_Inr_iff)
  have "deal_compute_digest r = Inr g"
    using g unfolding r by (simp add: deal_compute_digest_def reconstruct_deal_hands assms(1) v)
  then show ?thesis
    using v by (simp add: deal_validate_def r reconstruct_deal_hands assms(1))
qed

text \<open>C32: dealing loses nothing. Every valid 54-card deck can be dealt; the deal has three hands of
  17 cards and 3 landlord cards that together are exactly the deck, it passes its own
  validation, and the deck is recovered from it card by card in order.\<close>

theorem deal_roundtrip:
  assumes "length d = 54" and "deck_validate d = Inr ()"
  shows "\<exists>r. deal d = Inr r \<and> reconstruct_deck r = d \<and> deal_validate r = Inr ()
    \<and> map length (dr_hands r) = [17, 17, 17] \<and> length (dr_landlord r) = 3
    \<and> mset (concat (dr_hands r)) + mset (dr_landlord r) = mset d"
proof -
  obtain r where r: "deal d = Inr r" using deal_total [OF assms] by blast
  then have eq: "dr_hands r = deal_hands d" "dr_landlord r = drop (deck_size - landlord_card_count) d"
    by (auto simp: deal_Inr_iff [OF assms(1)])
  obtain a b c where abc: "deal_hands d = [a, b, c]"
    using length3_exhaust [OF deal_hands_shape(1)] by blast
  have "map length (dr_hands r) = [17, 17, 17]"
    using deal_hands_shape(2) [of d] by (simp add: eq abc)
  moreover have "length (dr_landlord r) = 3"
    using assms(1) by (simp add: eq deck_size_def landlord_card_count_def)
  moreover have "mset (concat (dr_hands r)) + mset (dr_landlord r) = mset d"
    unfolding eq abc using deal_hands_mset [OF assms(1), unfolded abc] by (simp add: add.assoc)
  ultimately show ?thesis
    using r deal_reconstruct [OF assms(1) r] deal_validate_deal [OF assms(1) r]
    by - (rule exI [of _ r], intro conjI, assumption+)
qed

theorem deal_roundtrip_witness:
  "\<exists>r. deal canonical_deck = Inr r \<and> reconstruct_deck r = canonical_deck \<and> deal_validate r = Inr ()
    \<and> map length (dr_hands r) = [17, 17, 17] \<and> length (dr_landlord r) = 3
    \<and> mset (concat (dr_hands r)) + mset (dr_landlord r) = mset canonical_deck"
  by (rule deal_roundtrip [OF length_canonical_deck deck_validate_canonical])

end
