(* ===== verification/Transcript.thy ===== *)
theory Transcript
  imports Byte_Reader Shuffle_Deal
begin

text \<open>
  The fairness transcript of the card deck package (\<open>carddeck/transcript.go\<close>,
  \<open>carddeck/transcript_decode.go\<close>): building it from the revealed inputs, verifying it by building
  it again, its canonical encoding and the strict parser.
\<close>

definition card_version :: string where "card_version = ''fair-doudizhu-card-v1''"
definition shuffle_version :: string where "shuffle_version = ''fair-doudizhu-fisher-yates-v1''"
definition transcript_version :: string where
  "transcript_version = ''fair-doudizhu-fairness-transcript-v1''"
definition transcript_domain :: string where
  "transcript_domain = ''fair-doudizhu/transcript-canonical/v1''"
definition transcript_digest_domain :: string where
  "transcript_digest_domain = ''fair-doudizhu/transcript-digest/v1''"

record algorithm_versions =
  av_card :: string
  av_deck :: string
  av_seed :: string
  av_random :: string
  av_shuffle :: string
  av_deal :: string
  av_transcript :: string

definition current_algorithm_versions :: algorithm_versions where
  "current_algorithm_versions =
     \<lparr>av_card = card_version, av_deck = deck_version, av_seed = seed_version,
      av_random = random_stream_version, av_shuffle = shuffle_version, av_deal = deal_version,
      av_transcript = transcript_version\<rparr>"

record contribution_evidence =
  ce_seat :: u8
  ce_digest :: bytes
  ce_commitment :: bytes

record beacon_evidence =
  be_provider :: string
  be_round :: string
  be_digest :: bytes
  be_proof_ref :: string

record reveal_key_audit =
  ra_key :: string
  ra_hash :: bytes

record transcript_input =
  ti_hand :: string
  ti_seed :: bytes
  ti_server_commitment :: bytes
  ti_contributions :: "contribution_evidence list"
  ti_beacon :: beacon_evidence
  ti_reveal_key :: reveal_key_audit

record transcript =
  tr_versions :: algorithm_versions
  tr_hand :: string
  tr_seed :: bytes
  tr_server_commitment :: bytes
  tr_contributions :: "contribution_evidence list"
  tr_beacon :: beacon_evidence
  tr_reveal_key :: reveal_key_audit
  tr_shuffle_seed :: bytes
  tr_deck :: deck
  tr_deck_digest :: bytes
  tr_deal :: deal_result
  tr_deal_digest :: bytes
  tr_digest :: bytes

section \<open>Checking the inputs\<close>

definition equal32 :: "bytes \<Rightarrow> bytes \<Rightarrow> bool" where
  "equal32 l r \<longleftrightarrow> length l = 32 \<and> length r = 32 \<and> l = r"

fun check_evidence :: "string \<Rightarrow> nat \<Rightarrow> contribution_evidence list \<Rightarrow> go_error + unit" where
  "check_evidence hand index [] = Inr ()"
| "check_evidence hand index (c # cs) =
     (let expected = word_of_nat (index + 1) in
      if ce_seat c \<noteq> expected then Inl (Carddeck InvalidArgument)
      else rbind (compute_client_commitment hand expected (ce_digest c)) (\<lambda>commitment.
        if \<not> equal32 commitment (ce_commitment c) then Inl (Carddeck VerificationFailed)
        else check_evidence hand (index + 1) cs))"

definition validate_transcript_input :: "transcript_input \<Rightarrow> go_error + unit" where
  "validate_transcript_input i =
     rbind (validate_text (ti_hand i) False) (\<lambda>_.
     rbind (compute_server_commitment (ti_hand i) (ti_seed i)) (\<lambda>commitment.
     rbind (reject (\<not> equal32 commitment (ti_server_commitment i)) (Carddeck VerificationFailed)) (\<lambda>_.
     rbind (check_evidence (ti_hand i) 0 (ti_contributions i)) (\<lambda>_.
     rbind (validate_text (be_provider (ti_beacon i)) False) (\<lambda>_.
     rbind (validate_text (be_round (ti_beacon i)) False) (\<lambda>_.
     rbind (reject (all_zero (be_digest (ti_beacon i))) (Carddeck InvalidArgument)) (\<lambda>_.
     rbind (validate_text (be_proof_ref (ti_beacon i)) False) (\<lambda>_.
     rbind (validate_text (ra_key (ti_reveal_key i)) False) (\<lambda>_.
       reject (all_zero (ra_hash (ti_reveal_key i))) (Carddeck InvalidArgument))))))))))"

definition input_of :: "transcript \<Rightarrow> transcript_input" where
  "input_of t =
     \<lparr>ti_hand = tr_hand t, ti_seed = tr_seed t, ti_server_commitment = tr_server_commitment t,
      ti_contributions = tr_contributions t, ti_beacon = tr_beacon t, ti_reveal_key = tr_reveal_key t\<rparr>"

section \<open>Canonical bytes\<close>

definition version_list :: "algorithm_versions \<Rightarrow> string list" where
  "version_list v = [av_card v, av_deck v, av_seed v, av_random v, av_shuffle v, av_deal v, av_transcript v]"

definition evidence_bytes :: "contribution_evidence \<Rightarrow> bytes" where
  "evidence_bytes c = [ce_seat c] @ ce_digest c @ ce_commitment c"

definition transcript_bytes :: "transcript \<Rightarrow> bytes" where
  "transcript_bytes t =
     write_domain transcript_domain
     @ concat (map write_string (version_list (tr_versions t)))
     @ write_string (tr_hand t) @ tr_seed t @ tr_server_commitment t
     @ concat (map evidence_bytes (tr_contributions t))
     @ write_string (be_provider (tr_beacon t)) @ write_string (be_round (tr_beacon t))
     @ be_digest (tr_beacon t) @ write_string (be_proof_ref (tr_beacon t))
     @ write_string (ra_key (tr_reveal_key t)) @ ra_hash (tr_reveal_key t)
     @ tr_shuffle_seed t
     @ write_u16 (length (tr_deck t)) @ tr_deck t
     @ hands_bytes 0 (dr_hands (tr_deal t))
     @ write_u16 (length (dr_landlord (tr_deal t))) @ dr_landlord (tr_deal t)
     @ tr_deck_digest t @ tr_deal_digest t"

definition canonical_bytes :: "transcript \<Rightarrow> go_error + bytes" where
  "canonical_bytes t =
     rbind (reject (tr_versions t \<noteq> current_algorithm_versions) (Carddeck UnsupportedVersion)) (\<lambda>_.
     rbind (validate_transcript_input (input_of t)) (\<lambda>_.
     rbind (deck_validate (tr_deck t)) (\<lambda>_.
     rbind (deal_validate (tr_deal t)) (\<lambda>_. Inr (transcript_bytes t)))))"

definition digest_transcript :: "bytes \<Rightarrow> bytes" where
  "digest_transcript canonical = sha256 (write_domain transcript_digest_domain @ write_bytes canonical)"

section \<open>Building and verifying\<close>

definition transcript_shuffle_input :: "transcript_input \<Rightarrow> shuffle_input" where
  "transcript_shuffle_input i =
     \<lparr>si_hand_id = ti_hand i, si_server_seed = ti_seed i, si_contributions = map ce_digest (ti_contributions i),
      si_beacon_provider = be_provider (ti_beacon i), si_beacon_round = be_round (ti_beacon i),
      si_beacon_digest = be_digest (ti_beacon i)\<rparr>"

definition seal_transcript :: "transcript_input \<Rightarrow> shuffle_result \<Rightarrow> deal_result \<Rightarrow> go_error + transcript" where
  "seal_transcript i s d =
     (let t = \<lparr>tr_versions = current_algorithm_versions, tr_hand = ti_hand i, tr_seed = ti_seed i,
               tr_server_commitment = ti_server_commitment i, tr_contributions = ti_contributions i,
               tr_beacon = ti_beacon i, tr_reveal_key = ti_reveal_key i, tr_shuffle_seed = sr_seed s,
               tr_deck = sr_deck s, tr_deck_digest = sr_deck_digest s, tr_deal = d,
               tr_deal_digest = dr_digest d, tr_digest = zero_digest\<rparr>
      in rbind (canonical_bytes t) (\<lambda>canonical. Inr (t\<lparr>tr_digest := digest_transcript canonical\<rparr>)))"

text \<open>\<open>None\<close> is the run in which the rejection sampling of the shuffle never ends.\<close>

definition build_transcript :: "transcript_input \<Rightarrow> (go_error + transcript) option" where
  "build_transcript i =
     (case validate_transcript_input i of
        Inl e \<Rightarrow> Some (Inl e)
      | Inr _ \<Rightarrow>
          map_option (\<lambda>r. rbind r (\<lambda>s. rbind (deal (sr_deck s)) (seal_transcript i s)))
            (shuffle (transcript_shuffle_input i)))"

definition compare_transcripts :: "transcript \<Rightarrow> transcript \<Rightarrow> go_error + unit" where
  "compare_transcripts expected t =
     (let failed = Carddeck VerificationFailed in
      if \<not> equal32 (tr_shuffle_seed expected) (tr_shuffle_seed t) then Inl failed
      else if tr_deck expected \<noteq> tr_deck t then Inl failed
      else if \<not> equal32 (tr_deck_digest expected) (tr_deck_digest t) then Inl failed
      else if dr_hands (tr_deal expected) \<noteq> dr_hands (tr_deal t)
              \<or> dr_landlord (tr_deal expected) \<noteq> dr_landlord (tr_deal t) then Inl failed
      else if \<not> equal32 (tr_deal_digest expected) (tr_deal_digest t) then Inl failed
      else if \<not> equal32 (tr_digest expected) (tr_digest t) then Inl failed
      else Inr ())"

definition verify_transcript :: "transcript \<Rightarrow> (go_error + unit) option" where
  "verify_transcript t =
     (if tr_versions t \<noteq> current_algorithm_versions then Some (Inl (Carddeck UnsupportedVersion))
      else map_option (\<lambda>r. rbind r (\<lambda>expected. compare_transcripts expected t)) (build_transcript (input_of t)))"

section \<open>Parsing\<close>

abbreviation vf :: go_error where "vf \<equiv> Carddeck VerificationFailed"

fun read_canonical_domain :: "bytes \<Rightarrow> bytes \<Rightarrow> go_error + string \<times> bytes" where
  "read_canonical_domain acc [] = Inl vf"
| "read_canonical_domain acc (b # r) =
     (if length acc > max_text_bytes then Inl vf
      else if b = 0 then (if acc = [] then Inl vf else Inr (bytes_str acc, r))
      else read_canonical_domain (acc @ [b]) r)"

definition read_canonical_string :: "bytes \<Rightarrow> go_error + string \<times> bytes" where
  "read_canonical_string bs =
     rbind (read_full vf 4 bs) (\<lambda>(size, r).
       let n = unat (be_join size :: u32) in
       if n < 1 \<or> n > max_text_bytes \<or> n > length r then Inl vf
       else rbind (read_full vf n r) (\<lambda>(value, r'). Inr (bytes_str value, r')))"

definition read_canonical_u16 :: "bytes \<Rightarrow> go_error + nat \<times> bytes" where
  "read_canonical_u16 bs =
     rbind (read_full vf 2 bs) (\<lambda>(encoded, r). Inr (unat (be_join encoded :: u16), r))"

definition read_fixed :: "nat \<Rightarrow> bytes \<Rightarrow> go_error + bytes \<times> bytes" where
  "read_fixed n bs = read_full vf n bs"

definition read_evidence :: "bytes \<Rightarrow> go_error + contribution_evidence \<times> bytes" where
  "read_evidence bs =
     rbind (read_byte vf bs) (\<lambda>(seat, r1).
     rbind (read_fixed 32 r1) (\<lambda>(digest, r2).
     rbind (read_fixed 32 r2) (\<lambda>(commitment, r3).
       Inr (\<lparr>ce_seat = seat, ce_digest = digest, ce_commitment = commitment\<rparr>, r3))))"

definition read_counted_cards :: "nat \<Rightarrow> bytes \<Rightarrow> go_error + card list \<times> bytes" where
  "read_counted_cards n bs =
     rbind (read_canonical_u16 bs) (\<lambda>(count, r).
       if count \<noteq> n then Inl vf else read_times n (read_byte vf) r)"

fun read_hands :: "nat list \<Rightarrow> bytes \<Rightarrow> go_error + card list list \<times> bytes" where
  "read_hands [] bs = Inr ([], bs)"
| "read_hands (index # rest) bs =
     rbind (read_byte vf bs) (\<lambda>(seat, r1).
       if seat \<noteq> word_of_nat (index + 1) then Inl vf
       else rbind (read_counted_cards cards_per_seat r1) (\<lambda>(hand, r2).
         rbind (read_hands rest r2) (\<lambda>(hands, r3). Inr (hand # hands, r3))))"

definition decode_transcript :: "bytes \<Rightarrow> go_error + transcript" where
  "decode_transcript canonical =
     (if canonical = [] then Inl (Carddeck InvalidArgument) else
     rbind (read_canonical_domain [] canonical) (\<lambda>(name, r0).
     if name \<noteq> transcript_domain then Inl (Carddeck UnsupportedVersion) else
     rbind (read_times 7 read_canonical_string r0) (\<lambda>(versions, r1).
     rbind (read_canonical_string r1) (\<lambda>(hand, r2).
     rbind (read_fixed 32 r2) (\<lambda>(seed, r3).
     rbind (read_fixed 32 r3) (\<lambda>(server_commitment, r4).
     rbind (read_times 3 read_evidence r4) (\<lambda>(contributions, r5).
     rbind (read_canonical_string r5) (\<lambda>(provider, r6).
     rbind (read_canonical_string r6) (\<lambda>(round, r7).
     rbind (read_fixed 32 r7) (\<lambda>(beacon_digest, r8).
     rbind (read_canonical_string r8) (\<lambda>(proof_ref, r9).
     rbind (read_canonical_string r9) (\<lambda>(key, r10).
     rbind (read_fixed 32 r10) (\<lambda>(key_hash, r11).
     rbind (read_fixed 32 r11) (\<lambda>(shuffle_seed, r12).
     rbind (read_counted_cards deck_size r12) (\<lambda>(d, r13).
     rbind (read_hands [0, 1, 2] r13) (\<lambda>(hands, r14).
     rbind (read_counted_cards landlord_card_count r14) (\<lambda>(landlord, r15).
     rbind (read_fixed 32 r15) (\<lambda>(d_digest, r16).
     rbind (read_fixed 32 r16) (\<lambda>(deal_dig, r17).
       if r17 \<noteq> [] then Inl vf
       else Inr
         \<lparr>tr_versions = \<lparr>av_card = versions ! 0, av_deck = versions ! 1, av_seed = versions ! 2,
            av_random = versions ! 3, av_shuffle = versions ! 4, av_deal = versions ! 5,
            av_transcript = versions ! 6\<rparr>,
          tr_hand = hand, tr_seed = seed, tr_server_commitment = server_commitment,
          tr_contributions = contributions,
          tr_beacon = \<lparr>be_provider = provider, be_round = round, be_digest = beacon_digest, be_proof_ref = proof_ref\<rparr>,
          tr_reveal_key = \<lparr>ra_key = key, ra_hash = key_hash\<rparr>,
          tr_shuffle_seed = shuffle_seed, tr_deck = d, tr_deck_digest = d_digest,
          tr_deal = \<lparr>dr_hands = hands, dr_landlord = landlord, dr_digest = deal_dig\<rparr>,
          tr_deal_digest = deal_dig, tr_digest = digest_transcript canonical\<rparr>)))))))))))))))))))"

definition parse_transcript :: "bytes \<Rightarrow> (go_error + transcript) option" where
  "parse_transcript canonical =
     (case decode_transcript canonical of
        Inl e \<Rightarrow> Some (Inl e)
      | Inr t \<Rightarrow>
          map_option (\<lambda>r. rbind r (\<lambda>_. rbind (canonical_bytes t) (\<lambda>round_trip.
            if round_trip \<noteq> canonical then Inl vf else Inr t))) (verify_transcript t))"

section \<open>Every field is a codec\<close>

lemma domain_read: "0 \<notin> set v \<Longrightarrow> length acc + length v \<le> 128 \<Longrightarrow> acc @ v \<noteq> [] \<Longrightarrow>
    read_canonical_domain acc (v @ 0 # r) = Inr (bytes_str (acc @ v), r)"
  by (induction v arbitrary: acc) (simp_all add: max_text_bytes_def)

lemma domain_read_sound: "read_canonical_domain acc bs = Inr (x, r) \<Longrightarrow> \<exists>v. bs = v @ 0 # r \<and> x = bytes_str (acc @ v)"
proof (induction acc bs rule: read_canonical_domain.induct)
  case (2 acc b s)
  show ?case
  proof (cases "b = 0")
    case True
    with 2(2) have "s = r \<and> x = bytes_str acc" by (simp split: if_splits)
    with True show ?thesis by (intro exI [of _ "[]"]) simp
  next
    case False
    with 2 obtain v where "s = v @ 0 # r \<and> x = bytes_str ((acc @ [b]) @ v)" by (auto split: if_splits)
    then show ?thesis by (intro exI [of _ "b # v"]) simp
  qed
qed simp

lemma transcript_domain_read:
  "read_canonical_domain [] bs = Inr (transcript_domain, r) \<longleftrightarrow> bs = write_domain transcript_domain @ r"
proof
  assume "read_canonical_domain [] bs = Inr (transcript_domain, r)"
  then obtain v where v: "bs = v @ 0 # r" "transcript_domain = bytes_str v"
    using domain_read_sound by fastforce
  from v(2) have "str_bytes transcript_domain = v" by (metis str_bytes_bytes_str)
  with v(1) show "bs = write_domain transcript_domain @ r" by (simp add: write_domain_def)
next
  assume b: "bs = write_domain transcript_domain @ r"
  have "0 \<notin> set (str_bytes transcript_domain) \<and> length (str_bytes transcript_domain) \<le> 128 \<and> str_bytes transcript_domain \<noteq> []"
    by code_simp
  then show "read_canonical_domain [] bs = Inr (transcript_domain, r)"
    using domain_read [of "str_bytes transcript_domain" "[]" r] b by (simp add: write_domain_def)
qed

definition text_ok :: "string \<Rightarrow> bool" where
  "text_ok s \<longleftrightarrow> 1 \<le> length s \<and> length s \<le> 128"

interpretation canonical_str: codec write_string read_canonical_string text_ok
proof
  fix s r assume "text_ok s"
  then have l: "1 \<le> length s" "length s \<le> 128" by (simp_all add: text_ok_def)
  then have "unat (word_of_nat (length s) :: u32) = length s" by (simp add: unat_of_nat take_bit_nat_eq_self)
  moreover have "s \<noteq> []" using l by auto
  ultimately show "read_canonical_string (write_string s @ r) = Inr (s, r)"
    using l by (simp add: read_canonical_string_def read_full_def write_string_def write_bytes_def Let_def max_text_bytes_def)
next
  fix bs s r assume d: "read_canonical_string bs = Inr (s, r)"
  define size r1 where "size = take 4 bs" and "r1 = drop 4 bs"
  define n where "n = unat (be_join size :: u32)"
  have l: "4 \<le> length bs" "1 \<le> n" "n \<le> 128" "n \<le> length r1" "s = bytes_str (take n r1)" "r = drop n r1"
    using d
    by (auto simp: read_canonical_string_def read_full_def rbind_eq_Inr Let_def size_def r1_def n_def max_text_bytes_def
        split: if_splits)
  have "put_u32 (word_of_nat n) = size"
    using put_be_join(2) [of size] l(1) by (simp add: n_def size_def)
  moreover have "bs = size @ r1" by (simp add: size_def r1_def)
  ultimately show "text_ok s \<and> bs = write_string s @ r"
    using l by (simp add: text_ok_def write_string_def write_bytes_def)
qed

interpretation u16: codec write_u16 read_canonical_u16 "\<lambda>n. n < 65536"
proof
  fix n :: nat and r assume "n < 65536"
  then have "unat (word_of_nat n :: u16) = n" by (simp add: unat_of_nat take_bit_nat_eq_self)
  then show "read_canonical_u16 (write_u16 n @ r) = Inr (n, r)"
    by (simp add: read_canonical_u16_def read_full_def write_u16_def)
next
  fix bs n r assume d: "read_canonical_u16 bs = Inr (n, r)"
  then have "2 \<le> length bs" "n = unat (be_join (take 2 bs) :: u16)" "r = drop 2 bs"
    by (auto simp: read_canonical_u16_def read_full_def rbind_eq_Inr split: if_splits)
  moreover from this have "write_u16 n = take 2 bs"
    using put_be_join(1) [of "take 2 bs"] by (simp add: write_u16_def)
  moreover have "n < 65536" using calculation(2) unsigned_less [of "be_join (take 2 bs) :: u16"] by simp
  ultimately show "n < 65536 \<and> bs = write_u16 n @ r" by simp
qed

interpretation fix32: codec "\<lambda>v. v" "read_fixed 32" "\<lambda>v. length v = 32"
  using fixed.codec_axioms [of vf 32] by (simp add: codec_def read_fixed_def)

definition evidence_ok :: "contribution_evidence \<Rightarrow> bool" where
  "evidence_ok c \<longleftrightarrow> length (ce_digest c) = 32 \<and> length (ce_commitment c) = 32"

interpretation evidence: codec evidence_bytes read_evidence evidence_ok
proof
  fix c r assume "evidence_ok c"
  then show "read_evidence (evidence_bytes c @ r) = Inr (c, r)"
    by (simp add: read_evidence_def evidence_bytes_def evidence_ok_def fix32.dec_enc read_byte_def)
next
  fix bs c r assume "read_evidence bs = Inr (c, r)"
  then obtain s r1 d r2 k where "read_byte vf bs = Inr (s, r1)" "read_fixed 32 r1 = Inr (d, r2)"
      "read_fixed 32 r2 = Inr (k, r)" "c = \<lparr>ce_seat = s, ce_digest = d, ce_commitment = k\<rparr>"
    by (auto simp: read_evidence_def rbind_eq_Inr)
  then show "evidence_ok c \<and> bs = evidence_bytes c @ r"
    by (auto simp: evidence_ok_def evidence_bytes_def dest!: byte.dec_sound fix32.dec_sound)
qed

lemma counted_cards:
  "n < 65536 \<Longrightarrow> read_counted_cards n bs = Inr (cs, r) \<longleftrightarrow> length cs = n \<and> bs = write_u16 (length cs) @ cs @ r"
  by (auto simp: read_counted_cards_def rbind_eq_Inr read_bytes_iff u16.dec_iff split: if_splits)

lemma hands_read: "read_hands [k..<k + m] bs = Inr (hs, r) \<longleftrightarrow>
    length hs = m \<and> list_all (\<lambda>h. length h = 17) hs \<and> bs = hands_bytes k hs @ r"
proof (induction m arbitrary: k bs hs)
  case (Suc m)
  have u: "[k..<k + Suc m] = k # [Suc k..<Suc k + m]" by (simp add: upt_conv_Cons)
  have c17: "cards_per_seat = 17" "17 < (65536 :: nat)" by (simp_all add: cards_per_seat_def)
  show ?case
  proof
    assume "read_hands [k..<k + Suc m] bs = Inr (hs, r)"
    then obtain s r1 h r2 t where d: "read_byte vf bs = Inr (s, r1)" "s = word_of_nat (k + 1)"
        "read_counted_cards cards_per_seat r1 = Inr (h, r2)" "read_hands [Suc k..<Suc k + m] r2 = Inr (t, r)" "hs = h # t"
      unfolding u by (auto simp: rbind_eq_Inr split: if_splits)
    from byte.dec_sound [OF d(1)] d(2) Suc.IH [THEN iffD1, OF d(4)] d(3,5) counted_cards [OF c17(2)]
    show "length hs = Suc m \<and> list_all (\<lambda>h. length h = 17) hs \<and> bs = hands_bytes k hs @ r"
      by (simp add: c17(1))
  next
    assume a: "length hs = Suc m \<and> list_all (\<lambda>h. length h = 17) hs \<and> bs = hands_bytes k hs @ r"
    then obtain h t where hs: "hs = h # t" by (cases hs) auto
    have "read_hands [Suc k..<Suc k + m] (hands_bytes (Suc k) t @ r) = Inr (t, r)"
      using a hs by (intro Suc.IH [THEN iffD2]) simp
    moreover have "read_counted_cards 17 (write_u16 17 @ h @ s) = Inr (h, s)" for s
      using a hs counted_cards [OF c17(2)] by simp
    moreover have "bs = word_of_nat (k + 1) # write_u16 17 @ h @ hands_bytes (Suc k) t @ r"
      using a hs by simp
    ultimately show "read_hands [k..<k + Suc m] bs = Inr (hs, r)"
      unfolding u by (simp add: hs read_byte_def c17(1))
  qed
qed auto

lemma three_hands: "read_hands [0, 1, 2] bs = Inr (hs, r) \<longleftrightarrow>
    length hs = 3 \<and> list_all (\<lambda>h. length h = 17) hs \<and> bs = hands_bytes 0 hs @ r"
  using hands_read [of 0 3 bs hs r] by (simp add: upt_rec numeral_3_eq_3 numeral_2_eq_2)

section \<open>Encoding and decoding are inverse\<close>

definition versions_ok :: "algorithm_versions \<Rightarrow> bool" where
  "versions_ok v \<longleftrightarrow> list_all text_ok (version_list v)"

text \<open>The lengths that Go's types and the parser's checks guarantee.\<close>

definition transcript_typed :: "transcript \<Rightarrow> bool" where
  "transcript_typed t \<longleftrightarrow> versions_ok (tr_versions t) \<and> text_ok (tr_hand t) \<and> length (tr_seed t) = 32 \<and>
     length (tr_server_commitment t) = 32 \<and> length (tr_contributions t) = 3 \<and>
     list_all evidence_ok (tr_contributions t) \<and>
     text_ok (be_provider (tr_beacon t)) \<and> text_ok (be_round (tr_beacon t)) \<and>
     length (be_digest (tr_beacon t)) = 32 \<and> text_ok (be_proof_ref (tr_beacon t)) \<and>
     text_ok (ra_key (tr_reveal_key t)) \<and> length (ra_hash (tr_reveal_key t)) = 32 \<and>
     length (tr_shuffle_seed t) = 32 \<and> length (tr_deck t) = 54 \<and>
     length (dr_hands (tr_deal t)) = 3 \<and> list_all (\<lambda>h. length h = 17) (dr_hands (tr_deal t)) \<and>
     length (dr_landlord (tr_deal t)) = 3 \<and> length (tr_deck_digest t) = 32 \<and>
     length (tr_deal_digest t) = 32 \<and> dr_digest (tr_deal t) = tr_deal_digest t"

lemmas field_reads = canonical_str.dec_enc fix32.dec_enc

lemma decode_enc:
  assumes "transcript_typed t" and "tr_digest t = digest_transcript (transcript_bytes t)"
  shows "decode_transcript (transcript_bytes t) = Inr t"
proof -
  have "list_all text_ok (version_list (tr_versions t))" using assms(1) by (simp add: transcript_typed_def versions_ok_def)
  note versions = canonical_str.dec_times_enc [OF this]
  have n7: "length (version_list (tr_versions t)) = 7" by (simp add: version_list_def)
  have v: "read_times 7 read_canonical_string (concat (map write_string (version_list (tr_versions t))) @ r) =
      Inr (version_list (tr_versions t), r)" for r
    using versions unfolding n7 .
  have c: "read_times 3 read_evidence (concat (map evidence_bytes (tr_contributions t)) @ r) =
      Inr (tr_contributions t, r)" for r
    using evidence.dec_times [THEN iffD2, of "tr_contributions t" 3] assms(1) by (simp add: transcript_typed_def)
  have d: "read_counted_cards deck_size (write_u16 54 @ tr_deck t @ r) = Inr (tr_deck t, r)" for r
    using counted_cards [of 54] assms(1) by (simp add: transcript_typed_def deck_size_def)
  have l: "read_counted_cards landlord_card_count (write_u16 3 @ dr_landlord (tr_deal t) @ r) =
      Inr (dr_landlord (tr_deal t), r)" for r
    using counted_cards [of 3] assms(1) by (simp add: transcript_typed_def landlord_card_count_def)
  have h: "read_hands [0, 1, 2] (hands_bytes 0 (dr_hands (tr_deal t)) @ r) = Inr (dr_hands (tr_deal t), r)" for r
    using three_hands assms(1) by (simp add: transcript_typed_def)
  have m: "read_canonical_domain [] (write_domain transcript_domain @ r) = Inr (transcript_domain, r)" for r
    using transcript_domain_read by simp
  have x: "transcript_bytes t \<noteq> []" by (simp add: transcript_bytes_def write_domain_def)
  have f: "read_fixed 32 (tr_deal_digest t) = Inr (tr_deal_digest t, [])"
    using fix32.dec_enc [of "tr_deal_digest t" "[]"] assms(1) by (simp add: transcript_typed_def)
  have "decode_transcript (transcript_bytes t) = Inr (t\<lparr>tr_digest := digest_transcript (transcript_bytes t)\<rparr>)"
    unfolding decode_transcript_def if_not_P [OF x]
    unfolding transcript_bytes_def [of t]
    using assms(1)
    by (simp add: transcript_typed_def m v c d l h f field_reads del: read_hands.simps One_nat_def)
      (simp add: version_list_def)
  with assms(2) show ?thesis by (metis (full_types) transcript.surjective transcript.update_convs(13))
qed

lemma read_then [simp]:
  "rbind m (\<lambda>(x, r). f x r) = Inr y \<longleftrightarrow> (\<exists>x r. m = Inr (x, r) \<and> f x r = Inr y)"
  by (auto simp: rbind_eq_Inr)

lemma seven_nth: "length vs = 7 \<Longrightarrow> [vs ! 0, vs ! 1, vs ! 2, vs ! 3, vs ! 4, vs ! 5, vs ! 6] = vs"
  by (rule nth_equalityI) (auto simp: less_Suc_eq nth_Cons' numeral_eq_Suc)

lemma decode_steps:
  assumes "decode_transcript bs = Inr t"
  obtains vs r1 r2 r3 r4 r5 r6 r7 r8 r9 r10 r11 r12 r13 r14 r15 r16 where
    "read_canonical_domain [] bs = Inr (transcript_domain, r1)"
    "read_times 7 read_canonical_string r1 = Inr (vs, r2)"
    "tr_versions t = \<lparr>av_card = vs ! 0, av_deck = vs ! 1, av_seed = vs ! 2, av_random = vs ! 3,
        av_shuffle = vs ! 4, av_deal = vs ! 5, av_transcript = vs ! 6\<rparr>"
    "read_canonical_string r2 = Inr (tr_hand t, r3)"
    "read_fixed 32 r3 = Inr (tr_seed t, r4)" "read_fixed 32 r4 = Inr (tr_server_commitment t, r5)"
    "read_times 3 read_evidence r5 = Inr (tr_contributions t, r6)"
    "read_canonical_string r6 = Inr (be_provider (tr_beacon t), r7)"
    "read_canonical_string r7 = Inr (be_round (tr_beacon t), r8)"
    "read_fixed 32 r8 = Inr (be_digest (tr_beacon t), r9)"
    "read_canonical_string r9 = Inr (be_proof_ref (tr_beacon t), r10)"
    "read_canonical_string r10 = Inr (ra_key (tr_reveal_key t), r11)"
    "read_fixed 32 r11 = Inr (ra_hash (tr_reveal_key t), r12)"
    "read_fixed 32 r12 = Inr (tr_shuffle_seed t, r13)"
    "read_counted_cards deck_size r13 = Inr (tr_deck t, r14)"
    "read_hands [0, 1, 2] r14 = Inr (dr_hands (tr_deal t), r15)"
    "read_counted_cards landlord_card_count r15 = Inr (dr_landlord (tr_deal t), r16)"
    "\<exists>r17. read_fixed 32 r16 = Inr (tr_deck_digest t, r17) \<and> read_fixed 32 r17 = Inr (tr_deal_digest t, [])"
    "dr_digest (tr_deal t) = tr_deal_digest t" "tr_digest t = digest_transcript bs"
proof -
  show thesis
    using assms
    unfolding decode_transcript_def
    apply (simp del: read_hands.simps One_nat_def split: if_splits)
    apply (elim exE conjE)
    apply (rule that)
    apply (assumption | (simp del: read_hands.simps One_nat_def; fail) | fastforce)+
    done
qed

lemma decode_sound:
  assumes "decode_transcript bs = Inr t"
  shows "transcript_typed t \<and> bs = transcript_bytes t \<and> tr_digest t = digest_transcript bs"
  using assms
proof (rule decode_steps)
  fix vs r1 r2 r3 r4 r5 r6 r7 r8 r9 r10 r11 r12 r13 r14 r15 r16
  assume d: "read_canonical_domain [] bs = Inr (transcript_domain, r1)"
    "read_times 7 read_canonical_string r1 = Inr (vs, r2)"
    "tr_versions t = \<lparr>av_card = vs ! 0, av_deck = vs ! 1, av_seed = vs ! 2, av_random = vs ! 3,
        av_shuffle = vs ! 4, av_deal = vs ! 5, av_transcript = vs ! 6\<rparr>"
    and s: "read_canonical_string r2 = Inr (tr_hand t, r3)" "read_canonical_string r6 = Inr (be_provider (tr_beacon t), r7)"
    "read_canonical_string r7 = Inr (be_round (tr_beacon t), r8)" "read_canonical_string r9 = Inr (be_proof_ref (tr_beacon t), r10)"
    "read_canonical_string r10 = Inr (ra_key (tr_reveal_key t), r11)"
    and f: "read_fixed 32 r3 = Inr (tr_seed t, r4)" "read_fixed 32 r4 = Inr (tr_server_commitment t, r5)"
    "read_fixed 32 r8 = Inr (be_digest (tr_beacon t), r9)" "read_fixed 32 r11 = Inr (ra_hash (tr_reveal_key t), r12)"
    "read_fixed 32 r12 = Inr (tr_shuffle_seed t, r13)"
    and c: "read_times 3 read_evidence r5 = Inr (tr_contributions t, r6)"
    and k: "read_counted_cards deck_size r13 = Inr (tr_deck t, r14)"
    "read_counted_cards landlord_card_count r15 = Inr (dr_landlord (tr_deal t), r16)"
    and h: "read_hands [0, 1, 2] r14 = Inr (dr_hands (tr_deal t), r15)"
    and e: "\<exists>r17. read_fixed 32 r16 = Inr (tr_deck_digest t, r17) \<and> read_fixed 32 r17 = Inr (tr_deal_digest t, [])"
    and z: "dr_digest (tr_deal t) = tr_deal_digest t" "tr_digest t = digest_transcript bs"
  have v: "length vs = 7" "list_all text_ok vs" "r1 = concat (map write_string vs) @ r2"
    using canonical_str.dec_times_sound [OF d(2)] by simp_all
  have vl: "version_list (tr_versions t) = vs" using seven_nth [OF v(1)] by (simp add: d(3) version_list_def)
  obtain r17 where e': "read_fixed 32 r16 = Inr (tr_deck_digest t, r17)" "read_fixed 32 r17 = Inr (tr_deal_digest t, [])"
    using e by blast
  note st = s [THEN canonical_str.dec_sound]
  note fx = f [THEN fix32.dec_sound] e' [THEN fix32.dec_sound]
  have cc: "length (tr_contributions t) = 3" "list_all evidence_ok (tr_contributions t)"
      "r5 = concat (map evidence_bytes (tr_contributions t)) @ r6"
    using evidence.dec_times_sound [OF c] by simp_all
  have kk: "length (tr_deck t) = 54" "r13 = write_u16 (length (tr_deck t)) @ tr_deck t @ r14"
      "length (dr_landlord (tr_deal t)) = 3" "r15 = write_u16 (length (dr_landlord (tr_deal t))) @ dr_landlord (tr_deal t) @ r16"
    using k counted_cards [of 54 r13] counted_cards [of 3 r15] by (simp_all add: deck_size_def landlord_card_count_def)
  have hh: "length (dr_hands (tr_deal t)) = 3" "list_all (\<lambda>h. length h = 17) (dr_hands (tr_deal t))"
      "r14 = hands_bytes 0 (dr_hands (tr_deal t)) @ r15"
    using three_hands [THEN iffD1, OF h] by simp_all
  have "transcript_typed t"
    using v(2) vl st fx cc(1,2) kk(1,3) hh(1,2) z(1) by (simp add: transcript_typed_def versions_ok_def)
  moreover have "bs = transcript_bytes t"
    using transcript_domain_read [THEN iffD1, OF d(1)] v(3) vl st fx cc(3) kk(2,4) hh(3)
    unfolding transcript_bytes_def by (simp only: append_assoc append_Nil2)
  ultimately show ?thesis using z(2) by simp
qed

lemma decode_iff:
  "decode_transcript bs = Inr t \<longleftrightarrow> transcript_typed t \<and> bs = transcript_bytes t \<and> tr_digest t = digest_transcript bs"
  using decode_enc [of t] decode_sound [of bs t] by auto

section \<open>What verification accepts\<close>

lemma sha256_32: "equal32 (sha256 m) d \<longleftrightarrow> d = sha256 m"
  by (auto simp: equal32_def)

lemma shuffle_Inr:
  assumes "shuffle i = Some (Inr s)"
  shows "length (sr_seed s) = 32" "length (sr_deck_digest s) = 32" "deck_validate (sr_deck s) = Inr ()"
    "length (sr_deck s) = 54"
proof -
  obtain seed st d st' g where s: "derive_seed i = Inr seed"
      "shuffle_deck carddeck_uint64 canonical_deck (Some st) = Some (Inr (d, st'))" "deck_digest d = Inr g"
      "s = \<lparr>sr_seed = seed, sr_deck = d, sr_deck_digest = g\<rparr>"
    using assms by (auto simp: shuffle_def rbind_eq_Inr split: sum.splits option.splits)
  note m = shuffle_deck_mset [OF s(2) length_canonical_deck]
  show "length (sr_seed s) = 32" using s(1,4) by (auto simp: derive_seed_def rbind_eq_Inr)
  show "length (sr_deck_digest s) = 32" using s(3,4) by (auto simp: deck_digest_def rbind_eq_Inr)
  show "deck_validate (sr_deck s) = Inr ()" using m(2) s(4) by simp
  show "length (sr_deck s) = 54" using m(1) s(4) by (metis length_canonical_deck shuffle_result.select_convs(2) size_mset)
qed

lemma deal_Inr_shape:
  assumes "length d = 54" and "deal d = Inr r"
  shows "length (dr_hands r) = 3" "list_all (\<lambda>h. length h = 17) (dr_hands r)" "length (dr_landlord r) = 3"
    "length (dr_digest r) = 32" "deal_validate r = Inr ()"
proof -
  show "length (dr_hands r) = 3" "list_all (\<lambda>h. length h = 17) (dr_hands r)" "length (dr_landlord r) = 3"
    "length (dr_digest r) = 32"
    using assms deal_hands_shape [of d]
    by (auto simp: deal_Inr_iff list_all_iff deck_size_def landlord_card_count_def deal_compute_digest_def rbind_eq_Inr)
  show "deal_validate r = Inr ()" by (rule deal_validate_deal [OF assms])
qed

definition sealed :: "transcript_input \<Rightarrow> shuffle_result \<Rightarrow> deal_result \<Rightarrow> transcript" where
  "sealed i s d = \<lparr>tr_versions = current_algorithm_versions, tr_hand = ti_hand i, tr_seed = ti_seed i,
     tr_server_commitment = ti_server_commitment i, tr_contributions = ti_contributions i,
     tr_beacon = ti_beacon i, tr_reveal_key = ti_reveal_key i, tr_shuffle_seed = sr_seed s,
     tr_deck = sr_deck s, tr_deck_digest = sr_deck_digest s, tr_deal = d,
     tr_deal_digest = dr_digest d, tr_digest = zero_digest\<rparr>"

lemma canonical_digest [simp]:
  "canonical_bytes (t\<lparr>tr_digest := g\<rparr>) = canonical_bytes t" "transcript_bytes (t\<lparr>tr_digest := g\<rparr>) = transcript_bytes t"
  by (simp_all add: canonical_bytes_def transcript_bytes_def input_of_def)

lemma canonical_bytes_Inr:
  "canonical_bytes t = Inr c \<longleftrightarrow> tr_versions t = current_algorithm_versions \<and>
    validate_transcript_input (input_of t) = Inr () \<and> deck_validate (tr_deck t) = Inr () \<and>
    deal_validate (tr_deal t) = Inr () \<and> c = transcript_bytes t"
  by (auto simp: canonical_bytes_def rbind_eq_Inr)

lemma build_Inr:
  "build_transcript i = Some (Inr t) \<longleftrightarrow> validate_transcript_input i = Inr () \<and>
    (\<exists>s d. shuffle (transcript_shuffle_input i) = Some (Inr s) \<and> deal (sr_deck s) = Inr d \<and>
       t = (sealed i s d)\<lparr>tr_digest := digest_transcript (transcript_bytes (sealed i s d))\<rparr>)"
proof -
  have seal: "seal_transcript i s d = Inr ((sealed i s d)\<lparr>tr_digest := digest_transcript (transcript_bytes (sealed i s d))\<rparr>)"
    if "validate_transcript_input i = Inr ()" "shuffle j = Some (Inr s)" "deal (sr_deck s) = Inr d" for s d j
  proof -
    have "input_of (sealed i s d) = i" by (simp add: input_of_def sealed_def)
    then have "canonical_bytes (sealed i s d) = Inr (transcript_bytes (sealed i s d))"
      using that shuffle_Inr [OF that(2)] deal_Inr_shape [OF shuffle_Inr(4) [OF that(2)] that(3)]
      by (simp add: canonical_bytes_Inr sealed_def)
    then show ?thesis by (simp add: seal_transcript_def sealed_def [symmetric] Let_def)
  qed
  show ?thesis
    using seal by (auto simp: build_transcript_def rbind_eq_Inr split: sum.splits)
qed

text \<open>The array lengths of Go's \<open>TranscriptInput\<close>.\<close>

definition input_typed :: "transcript_input \<Rightarrow> bool" where
  "input_typed i \<longleftrightarrow> length (ti_seed i) = 32 \<and> length (ti_server_commitment i) = 32 \<and>
     length (ti_contributions i) = 3 \<and> list_all evidence_ok (ti_contributions i) \<and>
     length (be_digest (ti_beacon i)) = 32 \<and> length (ra_hash (ti_reveal_key i)) = 32"

lemma current_versions_ok: "versions_ok current_algorithm_versions"
  by code_simp

lemma validated_texts:
  assumes "validate_transcript_input i = Inr ()"
  shows "text_ok (ti_hand i)" "text_ok (be_provider (ti_beacon i))" "text_ok (be_round (ti_beacon i))"
    "text_ok (be_proof_ref (ti_beacon i))" "text_ok (ra_key (ti_reveal_key i))"
  using assms
  by (auto simp: validate_transcript_input_def rbind_eq_Inr validate_text_ok text_ok_def Suc_le_eq)

lemma built_typed:
  assumes "input_typed i" and "build_transcript i = Some (Inr t)"
  shows "transcript_typed t" "tr_digest t = digest_transcript (transcript_bytes t)" "input_of t = i"
    "canonical_bytes t = Inr (transcript_bytes t)"
proof -
  obtain s d where v: "validate_transcript_input i = Inr ()" and s: "shuffle (transcript_shuffle_input i) = Some (Inr s)"
    and d: "deal (sr_deck s) = Inr d"
    and t: "t = (sealed i s d)\<lparr>tr_digest := digest_transcript (transcript_bytes (sealed i s d))\<rparr>"
    using assms(2) by (auto simp: build_Inr)
  note sh = shuffle_Inr [OF s] and de = deal_Inr_shape [OF shuffle_Inr(4) [OF s] d]
  show "transcript_typed t"
    using assms(1) validated_texts [OF v] sh de current_versions_ok
    by (simp add: t sealed_def transcript_typed_def input_typed_def)
  show "tr_digest t = digest_transcript (transcript_bytes t)" by (simp add: t)
  show "input_of t = i" by (simp add: t sealed_def input_of_def)
  then show "canonical_bytes t = Inr (transcript_bytes t)"
    using v sh de by (simp add: canonical_bytes_Inr t sealed_def)
qed

lemma typed_input: "transcript_typed t \<Longrightarrow> input_typed (input_of t)"
  by (simp add: transcript_typed_def input_typed_def input_of_def)

lemma compare_equal:
  assumes "transcript_typed e" "transcript_typed t" "input_of e = input_of t" "tr_versions e = tr_versions t"
    "length (tr_digest e) = 32" "length (tr_digest t) = 32"
  shows "compare_transcripts e t = Inr () \<longleftrightarrow> e = t"
proof
  assume c: "compare_transcripts e t = Inr ()"
  then have "tr_deck e = tr_deck t" "tr_shuffle_seed e = tr_shuffle_seed t" "tr_deck_digest e = tr_deck_digest t"
      "dr_hands (tr_deal e) = dr_hands (tr_deal t)" "dr_landlord (tr_deal e) = dr_landlord (tr_deal t)"
      "tr_deal_digest e = tr_deal_digest t" "tr_digest e = tr_digest t"
    by (auto simp: compare_transcripts_def Let_def equal32_def split: if_splits)
  moreover have "dr_digest (tr_deal e) = dr_digest (tr_deal t)"
    using assms(1,2) calculation(6) by (simp add: transcript_typed_def)
  ultimately show "e = t"
    using assms(3,4) by (intro transcript.equality deal_result.equality) (simp_all add: input_of_def)
next
  assume "e = t"
  then show "compare_transcripts e t = Inr ()"
    using assms by (simp add: compare_transcripts_def Let_def equal32_def transcript_typed_def)
qed

lemma verify_iff:
  assumes "transcript_typed t" and "length (tr_digest t) = 32"
  shows "verify_transcript t = Some (Inr ()) \<longleftrightarrow> build_transcript (input_of t) = Some (Inr t)"
proof
  assume "verify_transcript t = Some (Inr ())"
  then obtain e where v: "tr_versions t = current_algorithm_versions"
      and b: "build_transcript (input_of t) = Some (Inr e)" and c: "compare_transcripts e t = Inr ()"
    by (auto simp: verify_transcript_def rbind_eq_Inr split: if_splits)
  note e = built_typed [OF typed_input [OF assms(1)] b]
  have "tr_versions e = current_algorithm_versions" "length (tr_digest e) = 32"
    using e(4) e(2) by (simp_all add: canonical_bytes_Inr digest_transcript_def)
  with compare_equal [of e t] e assms v c b show "build_transcript (input_of t) = Some (Inr t)" by simp
next
  assume b: "build_transcript (input_of t) = Some (Inr t)"
  note e = built_typed [OF typed_input [OF assms(1)] b]
  from e(4) have "tr_versions t = current_algorithm_versions" by (simp add: canonical_bytes_Inr)
  with b compare_equal [of t t] assms show "verify_transcript t = Some (Inr ())"
    by (simp add: verify_transcript_def)
qed

section \<open>Properties\<close>

lemma parse_transcript_spec:
  "parse_transcript c = Some (Inr t) \<longleftrightarrow>
    (input_typed (input_of t) \<and> build_transcript (input_of t) = Some (Inr t) \<and> canonical_bytes t = Inr c)"
proof
  assume p: "parse_transcript c = Some (Inr t)"
  then have d: "decode_transcript c = Inr t" and v: "verify_transcript t = Some (Inr ())" and c: "canonical_bytes t = Inr c"
    by (auto simp: parse_transcript_def rbind_eq_Inr split: sum.splits if_splits)
  from decode_sound [OF d] have t: "transcript_typed t" "length (tr_digest t) = 32" by (simp_all add: digest_transcript_def)
  show "input_typed (input_of t) \<and> build_transcript (input_of t) = Some (Inr t) \<and> canonical_bytes t = Inr c"
    using typed_input [OF t(1)] verify_iff [OF t] v c by simp
next
  assume a: "input_typed (input_of t) \<and> build_transcript (input_of t) = Some (Inr t) \<and> canonical_bytes t = Inr c"
  then have i: "input_typed (input_of t)" and b: "build_transcript (input_of t) = Some (Inr t)"
    and cb: "canonical_bytes t = Inr c" by blast+
  note t = built_typed [OF i b]
  have c: "c = transcript_bytes t" using t(4) cb by simp
  have "decode_transcript c = Inr t" using decode_iff t(1,2) c by simp
  moreover have "verify_transcript t = Some (Inr ())"
    using verify_iff [OF t(1)] t(2) b by (simp add: digest_transcript_def)
  ultimately show "parse_transcript c = Some (Inr t)" using cb by (simp add: parse_transcript_def)
qed

text \<open>C21: the parser accepts exactly the honest transcripts. A byte string parses to a transcript if and
  only if it is the canonical encoding of that transcript and rebuilding it from its own revealed
  inputs (checking every commitment, shuffling, dealing and hashing again) gives the very same
  transcript: nothing else is accepted, and everything that is built can be parsed back.\<close>

theorem parse_transcript_iff:
  "parse_transcript c = Some (Inr t) \<longleftrightarrow>
    (input_typed (input_of t) \<and> build_transcript (input_of t) = Some (Inr t) \<and> canonical_bytes t = Inr c)"
  by (rule parse_transcript_spec)

end
