(* ===== verification/Randomized_Setup.thy ===== *)
theory Randomized_Setup
  imports Gamecore_Module Transcript
begin

text \<open>
  The Doudizhu setup module (\<open>domain/randomizedsetup/module.go\<close>): from the fairness material it
  shuffles and deals, packs the result into a setup artifact, and verifies an artifact by generating
  it again. It is an instance of the game core's module contract.
\<close>

definition dd_game_id :: string where "dd_game_id = ''doudizhu''"
definition dd_ruleset_version :: string where "dd_ruleset_version = ''doudizhu-standard-v1''"
definition dd_module_version :: string where "dd_module_version = ''doudizhu-randomized-setup-v1''"
definition dd_fairness_suite :: string where "dd_fairness_suite = ''fair-doudizhu-carddeck-v1''"
definition dd_artifact_version :: string where "dd_artifact_version = ''doudizhu-card-deal-artifact-v1''"
definition dd_participant_count :: u8 where "dd_participant_count = 3"
definition payload_magic :: string where "payload_magic = ''DDZSETUP1''"

definition dd_descriptor :: descriptor where
  "dd_descriptor = \<lparr>ds_game = dd_game_id, ds_ruleset = dd_ruleset_version, ds_module = dd_module_version,
     ds_suite = dd_fairness_suite, ds_participants = dd_participant_count\<rparr>"

text \<open>\<open>mustDescriptor\<close> does not panic.\<close>

lemma dd_descriptor_new:
  "new_descriptor dd_game_id dd_ruleset_version dd_module_version dd_fairness_suite dd_participant_count = Inr dd_descriptor"
  by code_simp

record setup_data =
  su_seed :: bytes
  su_deck :: deck
  su_deck_digest :: bytes
  su_hands :: "card list list"
  su_landlord :: "card list"
  su_deal_digest :: bytes

section \<open>Material\<close>

fun check_client_commitments :: "string \<Rightarrow> participant_fairness list \<Rightarrow> go_error + unit" where
  "check_client_commitments hand [] = Inr ()"
| "check_client_commitments hand (p # ps) =
     rbind (compute_client_commitment hand (pf_position p) (pf_contribution p)) (\<lambda>commitment.
       if commitment \<noteq> pf_commitment p then Inl (Gamecore GcVerificationFailed)
       else check_client_commitments hand ps)"

definition dd_validate_material :: "fairness_material \<Rightarrow> go_error + unit" where
  "dd_validate_material m =
     rbind (material_validate m) (\<lambda>_.
     rbind (reject (fm_descriptor m \<noteq> dd_descriptor) (Gamecore GcInvalidArgument)) (\<lambda>_.
     rbind (compute_server_commitment (fm_instance m) (fm_seed m)) (\<lambda>commitment.
     rbind (reject (commitment \<noteq> fm_server_commitment m) (Gamecore GcVerificationFailed)) (\<lambda>_.
       check_client_commitments (fm_instance m) (fm_participants m)))))"

section \<open>The payload\<close>

definition setup_write_string :: "string \<Rightarrow> bytes" where
  "setup_write_string value = put_u16 (word_of_nat (length value)) @ str_bytes value"

abbreviation gvf :: go_error where "gvf \<equiv> Gamecore GcVerificationFailed"

definition setup_read_string :: "bytes \<Rightarrow> go_error + string \<times> bytes" where
  "setup_read_string bs =
     rbind (read_some gvf 2 bs) (\<lambda>(size, r).
       let n = unat (be_join size :: u16) in
       if n = 0 \<or> n > 128 \<or> n > length r then Inl gvf
       else rbind (read_some gvf n r) (\<lambda>(value, r'). Inr (bytes_str value, r')))"

definition payload_versions :: "string list" where
  "payload_versions = [payload_magic, card_version, deck_version, seed_version, random_stream_version,
     shuffle_version, deal_version]"

definition setup_bytes :: "setup_data \<Rightarrow> bytes" where
  "setup_bytes s =
     concat (map setup_write_string payload_versions)
     @ su_seed s @ su_deck_digest s @ su_deck s @ su_deal_digest s
     @ concat (su_hands s) @ su_landlord s"

definition encode_setup :: "setup_data \<Rightarrow> go_error + bytes" where
  "encode_setup s =
     rbind (deck_validate (su_deck s)) (\<lambda>_.
     rbind (deck_digest (su_deck s)) (\<lambda>digest.
     rbind (reject (digest \<noteq> su_deck_digest s) gvf) (\<lambda>_.
     rbind (deal (su_deck s)) (\<lambda>d.
     rbind (reject (dr_hands d \<noteq> su_hands s \<or> dr_landlord d \<noteq> su_landlord s \<or> dr_digest d \<noteq> su_deal_digest s) gvf) (\<lambda>_.
       Inr (setup_bytes s))))))"

fun read_versions :: "string list \<Rightarrow> bytes \<Rightarrow> go_error + bytes" where
  "read_versions [] bs = Inr bs"
| "read_versions (expected # rest) bs =
     rbind (setup_read_string bs) (\<lambda>(actual, r).
       if actual \<noteq> expected then Inl (Gamecore GcUnsupportedVersion) else read_versions rest r)"

definition decode_setup :: "bytes \<Rightarrow> go_error + setup_data" where
  "decode_setup payload =
     rbind (read_versions payload_versions payload) (\<lambda>r0.
     rbind (read_some gvf 32 r0) (\<lambda>(seed, r1).
     rbind (read_some gvf 32 r1) (\<lambda>(d_digest, r2).
     rbind (read_times deck_size (read_byte gvf) r2) (\<lambda>(d, r3).
     rbind (read_some gvf 32 r3) (\<lambda>(deal_dig, r4).
     rbind (read_times 3 (read_times cards_per_seat (read_byte gvf)) r4) (\<lambda>(hands, r5).
     rbind (read_times landlord_card_count (read_byte gvf) r5) (\<lambda>(landlord, r6).
       let s = \<lparr>su_seed = seed, su_deck = d, su_deck_digest = d_digest, su_hands = hands,
                su_landlord = landlord, su_deal_digest = deal_dig\<rparr>
       in if length r6 \<noteq> 0 then Inl gvf else rbind (encode_setup s) (\<lambda>_. Inr s))))))))"

section \<open>Generating and verifying\<close>

definition material_shuffle_input :: "fairness_material \<Rightarrow> shuffle_input" where
  "material_shuffle_input m =
     \<lparr>si_hand_id = fm_instance m, si_server_seed = fm_seed m,
      si_contributions = map pf_contribution (fm_participants m),
      si_beacon_provider = mb_provider (fm_beacon m), si_beacon_round = mb_round (fm_beacon m),
      si_beacon_digest = mb_digest (fm_beacon m)\<rparr>"

definition pack_setup :: "shuffle_result \<Rightarrow> go_error + setup_artifact" where
  "pack_setup s =
     rbind (deal (sr_deck s)) (\<lambda>d.
     rbind (encode_setup \<lparr>su_seed = sr_seed s, su_deck = sr_deck s, su_deck_digest = sr_deck_digest s,
              su_hands = dr_hands d, su_landlord = dr_landlord d, su_deal_digest = dr_digest d\<rparr>) (\<lambda>payload.
       new_setup_artifact dd_descriptor dd_artifact_version payload))"

definition generate_setup :: "fairness_material \<Rightarrow> (go_error + setup_artifact) option" where
  "generate_setup m =
     (case dd_validate_material m of
        Inl e \<Rightarrow> Some (Inl e)
      | Inr _ \<Rightarrow> map_option (\<lambda>r. rbind r pack_setup) (shuffle (material_shuffle_input m)))"

definition decode_artifact :: "setup_artifact \<Rightarrow> go_error + setup_data" where
  "decode_artifact a =
     rbind (artifact_validate a) (\<lambda>_.
     rbind (reject (sa_descriptor a \<noteq> dd_descriptor) gvf) (\<lambda>_.
     rbind (reject (sa_version a \<noteq> dd_artifact_version) (Gamecore GcUnsupportedVersion)) (\<lambda>_.
       decode_setup (sa_payload a))))"

definition verify_setup :: "fairness_material \<Rightarrow> setup_artifact \<Rightarrow> (go_error + unit) option" where
  "verify_setup m a =
     (case rbind (artifact_validate a) (\<lambda>_.
           rbind (reject (sa_descriptor a \<noteq> dd_descriptor) gvf) (\<lambda>_.
           rbind (reject (sa_version a \<noteq> dd_artifact_version) (Gamecore GcUnsupportedVersion)) (\<lambda>_.
             decode_artifact a))) of
        Inl e \<Rightarrow> Some (Inl e)
      | Inr _ \<Rightarrow>
          map_option (\<lambda>r. rbind r (\<lambda>expected.
            reject (sa_digest a \<noteq> sa_digest expected \<or> sa_payload a \<noteq> sa_payload expected) gvf))
            (generate_setup m))"

definition dd_module :: module where
  "dd_module = \<lparr>mo_descriptor = dd_descriptor, mo_generate = generate_setup, mo_verify = verify_setup\<rparr>"

section \<open>The payload codec\<close>

interpretation setup_str: codec setup_write_string setup_read_string text_ok
proof
  fix s r assume "text_ok s"
  then have l: "1 \<le> length s" "length s \<le> 128" by (simp_all add: text_ok_def)
  then have "unat (word_of_nat (length s) :: u16) = length s" by (simp add: unat_of_nat take_bit_nat_eq_self)
  moreover have "s \<noteq> []" using l by auto
  moreover from this have "str_bytes s \<noteq> []" by (simp add: str_bytes_def)
  moreover have "put_u16 w \<noteq> []" for w by (metis length_put(1) list.size(3) zero_neq_numeral)
  ultimately show "setup_read_string (setup_write_string s @ r) = Inr (s, r)"
    using l by (simp add: setup_read_string_def read_some_def setup_write_string_def Let_def)
next
  fix bs s r assume d: "setup_read_string bs = Inr (s, r)"
  define size r1 where "size = take 2 bs @ replicate (2 - length bs) 0" and "r1 = drop 2 bs"
  define n where "n = unat (be_join size :: u16)"
  have l: "n \<noteq> 0" "n \<le> 128" "n \<le> length r1" "s = bytes_str (take n r1)" "r = drop n r1"
    using d
    by (auto simp: setup_read_string_def read_some_def rbind_eq_Inr Let_def size_def r1_def n_def split: if_splits)
  have b2: "2 < length bs" using l(1,3) by (simp add: r1_def)
  then have sz: "size = take 2 bs" "length size = 2" by (simp_all add: size_def)
  have "put_u16 (word_of_nat n) = size"
    using put_be_join(1) [OF sz(2)] by (simp add: n_def)
  moreover have "bs = size @ r1" by (simp add: sz(1) r1_def)
  moreover have "length (take n r1) = n" using l(3) by simp
  ultimately show "text_ok s \<and> bs = setup_write_string s @ r"
    using l by (simp add: text_ok_def setup_write_string_def)
qed

lemma read_versions_iff:
  "list_all text_ok vs \<Longrightarrow> read_versions vs bs = Inr r \<longleftrightarrow> bs = concat (map setup_write_string vs) @ r"
proof (induction vs arbitrary: bs)
  case (Cons v vs)
  show ?case
  proof
    assume "read_versions (v # vs) bs = Inr r"
    then obtain r1 where "setup_read_string bs = Inr (v, r1)" "read_versions vs r1 = Inr r"
      by (auto simp: rbind_eq_Inr split: if_splits)
    with Cons setup_str.dec_sound [of bs v r1] show "bs = concat (map setup_write_string (v # vs)) @ r" by simp
  next
    assume "bs = concat (map setup_write_string (v # vs)) @ r"
    with Cons setup_str.dec_enc [of v "concat (map setup_write_string vs) @ r"] show "read_versions (v # vs) bs = Inr r"
      by simp
  qed
qed auto

lemma read_some_full: "read_some e n bs = Inr (v, r) \<Longrightarrow> r \<noteq> [] \<Longrightarrow> length v = n \<and> bs = v @ r"
  by (auto simp: read_some_def split: if_splits)

lemma read_some_enc: "length v = n \<Longrightarrow> v @ r \<noteq> [] \<Longrightarrow> read_some e n (v @ r) = Inr (v, r)"
  by (simp add: read_some_def)

definition setup_typed :: "setup_data \<Rightarrow> bool" where
  "setup_typed s \<longleftrightarrow> length (su_seed s) = 32 \<and> length (su_deck s) = 54 \<and> length (su_deck_digest s) = 32 \<and>
     length (su_hands s) = 3 \<and> list_all (\<lambda>h. length h = 17) (su_hands s) \<and> length (su_landlord s) = 3 \<and>
     length (su_deal_digest s) = 32"

lemma payload_versions_ok: "list_all text_ok payload_versions"
  by code_simp

interpretation hand_cards: codec "\<lambda>h. h" "read_times 17 (read_byte gvf)" "\<lambda>h. length h = 17"
  by unfold_locales (auto simp: read_bytes_iff)

lemma hand_lists: "read_times 3 (read_times 17 (read_byte gvf)) bs = Inr (hs, r) \<longleftrightarrow>
    length hs = 3 \<and> list_all (\<lambda>h. length h = 17) hs \<and> bs = concat hs @ r"
  using hand_cards.dec_times [of 3 bs hs r] by simp

lemma encode_setup_Inr:
  "encode_setup s = Inr p \<longleftrightarrow> deck_validate (su_deck s) = Inr () \<and> deck_digest (su_deck s) = Inr (su_deck_digest s) \<and>
    (\<exists>d. deal (su_deck s) = Inr d \<and> dr_hands d = su_hands s \<and> dr_landlord d = su_landlord s \<and> dr_digest d = su_deal_digest s) \<and>
    p = setup_bytes s"
  by (auto simp: encode_setup_def rbind_eq_Inr)

lemma decode_encode:
  assumes "setup_typed s" and "encode_setup s = Inr p"
  shows "decode_setup p = Inr s"
proof -
  have p: "p = setup_bytes s" using assms(2) by (simp add: encode_setup_Inr)
  let ?r6 = "su_landlord s" let ?r5 = "concat (su_hands s) @ ?r6" let ?r4 = "su_deal_digest s @ ?r5"
  let ?r3 = "su_deck s @ ?r4" let ?r2 = "su_deck_digest s @ ?r3" let ?r1 = "su_seed s @ ?r2"
  let ?e = "\<lparr>su_seed = su_seed s, su_deck = su_deck s, su_deck_digest = su_deck_digest s, su_hands = su_hands s,
      su_landlord = su_landlord s, su_deal_digest = su_deal_digest s\<rparr>"
  have ne: "?r6 \<noteq> []" "?r5 \<noteq> []" using assms(1) by (auto simp: setup_typed_def)
  have v: "read_versions payload_versions p = Inr ?r1"
    using read_versions_iff [OF payload_versions_ok] by (simp add: p setup_bytes_def)
  have "read_some gvf 32 ?r1 = Inr (su_seed s, ?r2)" "read_some gvf 32 ?r2 = Inr (su_deck_digest s, ?r3)"
    "read_some gvf 32 ?r4 = Inr (su_deal_digest s, ?r5)"
    using assms(1) ne by (intro read_some_enc; simp add: setup_typed_def)+
  moreover have "read_times deck_size (read_byte gvf) ?r3 = Inr (su_deck s, ?r4)"
    "read_times 3 (read_times cards_per_seat (read_byte gvf)) ?r5 = Inr (su_hands s, ?r6)"
    using assms(1) by (simp_all only: deck_size_def cards_per_seat_def hand_lists read_bytes_iff setup_typed_def)
  moreover have "read_times landlord_card_count (read_byte gvf) ?r6 = Inr (su_landlord s, [])"
    using read_bytes_iff [of 3 gvf ?r6 "su_landlord s" "[]"] assms(1)
    by (simp only: landlord_card_count_def setup_typed_def append_Nil2)
  ultimately have d: "decode_setup p = rbind (encode_setup ?e) (\<lambda>_. Inr ?e)"
    using v by (simp add: decode_setup_def Let_def)
  have e: "?e = s" by (cases s) simp
  show ?thesis using d unfolding e assms(2) by simp
qed

lemma decode_setup_sound:
  assumes "decode_setup p = Inr s"
  shows "setup_typed s \<and> encode_setup s = Inr p"
proof -
  obtain r0 r1 r2 r3 r4 r5 q where d: "read_versions payload_versions p = Inr r0"
      "read_some gvf 32 r0 = Inr (su_seed s, r1)" "read_some gvf 32 r1 = Inr (su_deck_digest s, r2)"
      "read_times deck_size (read_byte gvf) r2 = Inr (su_deck s, r3)" "read_some gvf 32 r3 = Inr (su_deal_digest s, r4)"
      "read_times 3 (read_times cards_per_seat (read_byte gvf)) r4 = Inr (su_hands s, r5)"
      "read_times landlord_card_count (read_byte gvf) r5 = Inr (su_landlord s, [])" "encode_setup s = Inr q"
    using assms by (auto simp: decode_setup_def Let_def rbind_eq_Inr split: if_splits)
  have l: "length (su_landlord s) = 3" "r5 = su_landlord s"
    using d(7) by (simp_all add: landlord_card_count_def read_bytes_iff)
  have h: "length (su_hands s) = 3" "list_all (\<lambda>h. length h = 17) (su_hands s)" "r4 = concat (su_hands s) @ r5"
    using d(6) by (simp_all only: cards_per_seat_def hand_lists)
  have "r4 \<noteq> []" using l h by auto
  from read_some_full [OF d(5) this] have g: "length (su_deal_digest s) = 32" "r3 = su_deal_digest s @ r4" by simp_all
  have k: "length (su_deck s) = 54" "r2 = su_deck s @ r3"
    using d(4) by (simp_all add: deck_size_def read_bytes_iff)
  have "r2 \<noteq> []" using k by auto
  from read_some_full [OF d(3) this] have f: "length (su_deck_digest s) = 32" "r1 = su_deck_digest s @ r2" by simp_all
  have "r1 \<noteq> []" using f k by auto
  from read_some_full [OF d(2) this] have e: "length (su_seed s) = 32" "r0 = su_seed s @ r1" by simp_all
  have "p = concat (map setup_write_string payload_versions) @ r0"
    using d(1) read_versions_iff [OF payload_versions_ok] by simp
  then have "p = setup_bytes s" by (simp add: setup_bytes_def e f k g h l)
  then show ?thesis using d(8) e f k g h l by (simp add: setup_typed_def encode_setup_Inr)
qed

lemma decode_setup_iff: "decode_setup p = Inr s \<longleftrightarrow> setup_typed s \<and> encode_setup s = Inr p"
  using decode_encode decode_setup_sound by blast

section \<open>Generated setups\<close>

text \<open>The setup that the shuffle result \<open>s\<close> and its deal \<open>d\<close> make.\<close>

definition setup_of :: "shuffle_result \<Rightarrow> deal_result \<Rightarrow> setup_data" where
  "setup_of s d = \<lparr>su_seed = sr_seed s, su_deck = sr_deck s, su_deck_digest = sr_deck_digest s,
     su_hands = dr_hands d, su_landlord = dr_landlord d, su_deal_digest = dr_digest d\<rparr>"

lemma shuffle_digest: "shuffle i = Some (Inr s) \<Longrightarrow> deck_digest (sr_deck s) = Inr (sr_deck_digest s)"
  by (auto simp: shuffle_def rbind_eq_Inr split: sum.splits option.splits)

lemma setup_of_ok:
  assumes "shuffle i = Some (Inr s)" and "deal (sr_deck s) = Inr d"
  shows "setup_typed (setup_of s d)" "encode_setup (setup_of s d) = Inr (setup_bytes (setup_of s d))"
  using shuffle_Inr [OF assms(1)] deal_Inr_shape [OF shuffle_Inr(4) [OF assms(1)] assms(2)] shuffle_digest [OF assms(1)] assms(2)
  by (simp_all add: setup_of_def setup_typed_def encode_setup_Inr)

lemma generate_setup_Inr:
  "generate_setup m = Some (Inr a) \<longleftrightarrow> dd_validate_material m = Inr () \<and>
    (\<exists>s d. shuffle (material_shuffle_input m) = Some (Inr s) \<and> deal (sr_deck s) = Inr d \<and>
       new_setup_artifact dd_descriptor dd_artifact_version (setup_bytes (setup_of s d)) = Inr a)"
proof -
  have "pack_setup s = Inr a \<longleftrightarrow>
      (\<exists>d. deal (sr_deck s) = Inr d \<and> new_setup_artifact dd_descriptor dd_artifact_version (setup_bytes (setup_of s d)) = Inr a)"
    if "shuffle (material_shuffle_input m) = Some (Inr s)" for s
    using setup_of_ok(2) [OF that]
    by (auto simp: pack_setup_def setup_of_def [symmetric] rbind_eq_Inr)
  then show ?thesis by (auto simp: generate_setup_def rbind_eq_Inr split: sum.splits)
qed

lemma generated_decodes:
  assumes "generate_setup m = Some (Inr a)" and "\<not> gc_all_zero (sa_digest a)"
  shows "artifact_validate a = Inr ()" "sa_descriptor a = dd_descriptor" "sa_version a = dd_artifact_version"
    "\<exists>s d. shuffle (material_shuffle_input m) = Some (Inr s) \<and> deal (sr_deck s) = Inr d \<and>
      decode_artifact a = Inr (setup_of s d)"
proof -
  obtain s d where s: "shuffle (material_shuffle_input m) = Some (Inr s)" and d: "deal (sr_deck s) = Inr d"
    and n: "new_setup_artifact dd_descriptor dd_artifact_version (setup_bytes (setup_of s d)) = Inr a"
    using assms(1) generate_setup_Inr by blast
  have f: "sa_descriptor a = dd_descriptor" "sa_version a = dd_artifact_version" "sa_payload a = setup_bytes (setup_of s d)"
    using n by (simp_all add: new_setup_artifact_Inr)
  show a: "artifact_validate a = Inr ()" using n f assms(2) by (simp add: artifact_validate_Inr)
  show "sa_descriptor a = dd_descriptor" "sa_version a = dd_artifact_version" by (fact f(1), fact f(2))
  have "decode_setup (sa_payload a) = Inr (setup_of s d)"
    using decode_encode [OF setup_of_ok [OF s d]] f(3) by simp
  with a f have "decode_artifact a = Inr (setup_of s d)" by (simp add: decode_artifact_def)
  with s d show "\<exists>s d. shuffle (material_shuffle_input m) = Some (Inr s) \<and> deal (sr_deck s) = Inr d \<and>
      decode_artifact a = Inr (setup_of s d)" by blast
qed

lemma verify_setup_accepts:
  "verify_setup m a = Some (Inr ()) \<longleftrightarrow> artifact_validate a = Inr () \<and> generate_setup m = Some (Inr a)"
proof
  assume v: "verify_setup m a = Some (Inr ())"
  then obtain e where a: "artifact_validate a = Inr ()" "sa_descriptor a = dd_descriptor" "sa_version a = dd_artifact_version"
      and e: "generate_setup m = Some (Inr e)" "sa_digest a = sa_digest e" "sa_payload a = sa_payload e"
    by (auto simp: verify_setup_def rbind_eq_Inr split: sum.splits)
  then have "a = e"
    by (intro setup_artifact.equality) (auto simp: generate_setup_Inr new_setup_artifact_Inr)
  with a e show "artifact_validate a = Inr () \<and> generate_setup m = Some (Inr a)" by simp
next
  assume g: "artifact_validate a = Inr () \<and> generate_setup m = Some (Inr a)"
  then have "\<not> gc_all_zero (sa_digest a)" by (simp add: artifact_validate_Inr)
  note gd = generated_decodes [OF conjunct2 [OF g] this]
  from gd(4) obtain s where "decode_artifact a = Inr s" by blast
  with g gd(2,3) show "verify_setup m a = Some (Inr ())" by (simp add: verify_setup_def)
qed

interpretation dd: setup_module dd_module
proof
  show "descriptor_validate (mo_descriptor dd_module) = Inr ()"
    by (simp add: dd_module_def) code_simp
next
  fix m a assume "mo_generate dd_module m = Some (Inr a)"
  then show "fm_descriptor m = mo_descriptor dd_module \<and> sa_descriptor a = mo_descriptor dd_module \<and>
      new_setup_artifact (sa_descriptor a) (sa_version a) (sa_payload a) = Inr a"
    by (auto simp: dd_module_def generate_setup_Inr new_setup_artifact_Inr dd_validate_material_def rbind_eq_Inr)
next
  show "mo_verify dd_module m a = Some (Inr ()) \<longleftrightarrow> artifact_validate a = Inr () \<and> mo_generate dd_module m = Some (Inr a)"
    for m a by (simp add: dd_module_def verify_setup_accepts)
qed

section \<open>Properties\<close>

text \<open>C34: the registered module verifies exactly what it generates. Once the Doudizhu module is in a registry,
  looking it up finds it; through the registry's wrapper, an artifact verifies against fairness
  material if and only if it is the artifact that the module generates from that material (whose
  digest is not the zero digest).\<close>

theorem registered_setup_verifies:
  assumes "register (Some reg) (Some dd_module) = Inr reg'"
  shows "\<exists>g. registry_lookup (Some reg') (descriptor_key_of dd_descriptor) = Inr g \<and>
    (\<forall>m a. registered_verify g m a = Some (Inr ()) \<longleftrightarrow> registered_generate g m = Some (Inr a)) \<and>
    (\<forall>m a. registered_generate g m = Some (Inr a) \<longleftrightarrow> generate_setup m = Some (Inr a) \<and> \<not> gc_all_zero (sa_digest a))"
  using dd.registered_found [OF assms] dd.registered_verifies dd.registered_generates
  by (auto simp: dd_module_def)

theorem registered_setup_verifies_witness:
  "\<exists>reg' g. register (Some Map.empty) (Some dd_module) = Inr reg' \<and>
    registry_lookup (Some reg') (descriptor_key_of dd_descriptor) = Inr g"
proof -
  have "descriptor_validate (mo_descriptor dd_module) = Inr ()" by (rule dd.valid_descriptor)
  then obtain reg' where "register (Some Map.empty) (Some dd_module) = Inr reg'"
    by (auto simp: register_def Let_def)
  with registered_setup_verifies [OF this] show ?thesis by blast
qed

text \<open>The setup payload is a codec. A payload decodes to a setup if and only if the setup has the sizes of
  Go's arrays and encodes to exactly that payload; encoding accepts only a setup whose deck is valid
  and whose digests and deal are those of its deck.\<close>

theorem setup_payload_roundtrip:
  "decode_setup p = Inr s \<longleftrightarrow> setup_typed s \<and> encode_setup s = Inr p"
  by (rule decode_setup_iff)

end
