(* ===== verification/Gamecore_Random.thy ===== *)
theory Gamecore_Random
  imports Shuffle_Deal
begin

text \<open>
  \<open>gamecore/random.go\<close> and the encoding helpers of \<open>gamecore/encoding.go\<close> it uses: the platform's
  own HMAC counter stream, rejection sampling and permutations. The stream has the layout of the
  one of \<open>carddeck\<close>, so its records and the lemmas on keystreams are shared; the blocks have
  their own domain and version.
\<close>

section \<open>Definitions\<close>

definition gc_random_stream_version :: string where
  "gc_random_stream_version = ''gamecore-hmac-counter-v1''"

definition gc_random_block_domain :: string where
  "gc_random_block_domain = ''gamecore/random-block/v1''"

definition max_permutation_items :: nat where "max_permutation_items = 1000000"

definition gc_new_stream :: "bytes \<Rightarrow> go_error + stream" where
  "gc_new_stream seed =
     (if all_zero seed then Inl (Gamecore GcInvalidArgument)
      else Inr \<lparr>st_key = seed, st_counter = 0, st_block = replicate 32 0, st_offset = 32\<rparr>)"

definition gc_random_block :: "bytes \<Rightarrow> u64 \<Rightarrow> bytes" where
  "gc_random_block key counter =
     hmac_sha256 key (write_domain gc_random_block_domain @ write_string gc_random_stream_version
                      @ write_u64 counter)"

definition gc_stream_fill :: "stream \<Rightarrow> stream" where
  "gc_stream_fill = stream_fill gc_random_block"

definition gc_stream_read :: "nat \<Rightarrow> stream \<Rightarrow> bytes \<times> stream" where
  "gc_stream_read = stream_read gc_random_block"

definition gc_uint64 :: "stream \<Rightarrow> u64 \<times> stream" where
  "gc_uint64 s = (let (encoded, s') = gc_stream_read 8 s in (be_join encoded, s'))"

definition gc_uniform ::
  "('s \<Rightarrow> u64 \<times> 's) \<Rightarrow> 's option \<Rightarrow> u64 \<Rightarrow> (go_error + u64 \<times> 's) option" where
  "gc_uniform next source bound =
     (case source of
        None \<Rightarrow> Some (Inl (Gamecore GcInvalidArgument))
      | Some s \<Rightarrow>
          if bound = 0 then Some (Inl (Gamecore GcInvalidArgument))
          else map_option Inr (uniform_loop next bound ((0 - bound) mod bound) s))"

fun permutation_loop ::
  "('s \<Rightarrow> u64 \<times> 's) \<Rightarrow> nat \<Rightarrow> u32 list \<Rightarrow> 's \<Rightarrow> (go_error + u32 list \<times> 's) option" where
  "permutation_loop next 0 items s = Some (Inr (items, s))"
| "permutation_loop next (Suc i) items s =
     (case gc_uniform next (Some s) (word_of_nat (Suc i + 1)) of
        None \<Rightarrow> None
      | Some (Inl e) \<Rightarrow> Some (Inl e)
      | Some (Inr (selected, s')) \<Rightarrow>
          permutation_loop next i (swap_cards items (Suc i) (unat selected)) s')"

definition permutation ::
  "int \<Rightarrow> ('s \<Rightarrow> u64 \<times> 's) \<Rightarrow> 's option \<Rightarrow> (go_error + u32 list \<times> 's) option" where
  "permutation cnt next source =
     (if cnt < 1 \<or> cnt > int max_permutation_items then Some (Inl (Gamecore GcInvalidArgument))
      else
        case source of
          None \<Rightarrow> Some (Inl (Gamecore GcInvalidArgument))
        | Some s \<Rightarrow> permutation_loop next (nat cnt - 1) (map word_of_nat [0..<nat cnt]) s)"

section \<open>The stream\<close>

lemma gc_uint64_eq: "gc_uint64 = stream_uint64 gc_random_block"
  by (rule ext) (simp add: gc_uint64_def gc_stream_read_def stream_uint64_def)

lemma length_gc_random_block [simp]: "length (gc_random_block key c) = 32"
  by (simp add: gc_random_block_def)

interpretation gc: uint64_source gc_uint64 "stream_word gc_random_block key"
    "\<lambda>i. stream_at gc_random_block key (8 * i)" for key :: bytes
  using stream_uint64_at [of gc_random_block key]
  by unfold_locales (simp_all add: gc_uint64_eq stream_word_def add.commute [of 8])

lemma gc_new_stream_at: "gc_new_stream seed = Inr s \<Longrightarrow> stream_at blk seed 0 s"
  by (auto simp: gc_new_stream_def stream_at_def split: if_splits)

section \<open>Sampling\<close>

lemma gc_uniform_Inr:
  "gc_uniform next src b = Some (Inr r) \<longleftrightarrow> uniform next src b = Some (Inr r)"
  by (cases src) (auto simp: gc_uniform_def uniform_def)

lemma gc_uniform_less: "gc_uniform next src b = Some (Inr (v, s')) \<Longrightarrow> unat v < unat b"
  unfolding gc_uniform_Inr by (rule uniform_less)

lemma gc_uniform_not_Inl:
  "b \<noteq> 0 \<Longrightarrow> gc_uniform next (Some s) b \<noteq> Some (Inl e)"
  by (simp add: gc_uniform_def)

section \<open>Permutations\<close>

lemma u64_of_small: "n < 2 ^ 32 \<Longrightarrow> unat (word_of_nat n :: u64) = n"
  by (simp add: unat_of_nat take_bit_nat_eq_self)

lemma permutation_loop_choices:
  assumes "i < length items" and "length items \<le> max_permutation_items"
    and "permutation_loop next i items s = Some (Inr (r, s'))"
  shows "\<exists>js. choices i js \<and> r = apply_choices i js items"
  using assms
proof (induction i arbitrary: items s)
  case 0
  then show ?case by (intro exI [of _ "[]"]) simp
next
  case (Suc i)
  then obtain v s1 where u: "gc_uniform next (Some s) (word_of_nat (Suc i + 1)) = Some (Inr (v, s1))"
    and l: "permutation_loop next i (swap_cards items (Suc i) (unat v)) s1 = Some (Inr (r, s'))"
    by (auto split: option.splits sum.splits)
  have "unat (word_of_nat (Suc i + 1) :: u64) = Suc i + 1"
    using Suc.prems(1,2) by (intro u64_of_small) (simp add: max_permutation_items_def)
  with gc_uniform_less [OF u] have v: "unat v \<le> Suc i" by simp
  from Suc.IH [OF _ _ l] Suc.prems(1,2) obtain js where "choices i js"
    "r = apply_choices i js (swap_cards items (Suc i) (unat v))" by auto
  with v show ?case by (intro exI [of _ "unat v # js"]) simp
qed


text \<open>A permutation that \<open>Permutation\<close> returns lists each of the indices \<open>0, ..., n - 1\<close> exactly
  once, and it is the Fisher-Yates permutation of exactly one vector of in-range choices, so no
  permutation is favoured by the construction.\<close>

theorem permutation_sound:
  assumes "permutation n next source = Some (Inr (r, s'))"
  shows "1 \<le> n \<and> n \<le> int max_permutation_items \<and> length r = nat n \<and> distinct r \<and>
    set r = {i. unat i < nat n} \<and>
    (\<exists>!js. choices (nat n - 1) js \<and> r = apply_choices (nat n - 1) js (map word_of_nat [0..<nat n]))"
proof -
  let ?d = "map word_of_nat [0..<nat n] :: u32 list"
  have n: "1 \<le> n" "n \<le> int max_permutation_items" using assms by (simp_all add: permutation_def split: if_splits)
  then obtain s where l: "permutation_loop next (nat n - 1) ?d s = Some (Inr (r, s'))"
    using assms by (auto simp: permutation_def split: option.splits)
  have len: "length ?d = Suc (nat n - 1)" using n by simp
  have b: "nat n \<le> max_permutation_items" using n by linarith
  have u: "unat (word_of_nat i :: u32) = i" if "i < nat n" for i
    using that b by (simp add: unat_of_nat take_bit_nat_eq_self max_permutation_items_def)
  have dist: "distinct ?d"
    unfolding distinct_map by (auto intro!: inj_onI dest: arg_cong [where f = unat] simp: u)
  have setd: "set ?d = {i. unat i < nat n}"
    using u by (auto intro!: image_eqI [where x = "unat _"])
  obtain js where js: "choices (nat n - 1) js" "r = apply_choices (nat n - 1) js ?d"
    using permutation_loop_choices [OF _ _ l] len b by auto
  then have m: "mset r = mset ?d" using len by (simp add: apply_choices_mset)
  have "length r = length ?d" by (rule mset_eq_length [OF m])
  moreover have "distinct r" using mset_eq_imp_distinct_iff [OF m] dist by blast
  moreover have "set r = {i. unat i < nat n}" using mset_eq_setD [OF m] setd by simp
  ultimately have all: "length r = nat n \<and> distinct r \<and> set r = {i. unat i < nat n}" by simp
  have unique: "js' = js" if "choices (nat n - 1) js' \<and> r = apply_choices (nat n - 1) js' ?d" for js'
    using apply_choices_inject [OF _ js(1), of js' ?d] that js(2) dist len by auto
  have "\<exists>!js. choices (nat n - 1) js \<and> r = apply_choices (nat n - 1) js ?d"
    by (rule ex1I [of _ js]) (use js unique in blast)+
  with all n show ?thesis by blast
qed

lemma permutation_3:
  "permutation 3 (\<lambda>s. (s, s + 1)) (Some 5) = Some (Inr ([1, 0, 2], 7 :: u64))"
proof -
  have "permutation_loop (\<lambda>s. (s, s + 1)) 2 [0, 1, 2] (5 :: u64) = Some (Inr ([1, 0, 2], 7))"
    by code_simp
  then show ?thesis by (simp add: permutation_def max_permutation_items_def upt_rec numeral_2_eq_2)
qed

theorem permutation_sound_witness: "distinct [1, 0, 2 :: u32] \<and> set [1, 0, 2 :: u32] = {i. unat i < 3}"
  using permutation_sound [OF permutation_3] by simp

end
