(* ===== verification/Pattern.thy ===== *)
theory Pattern
  imports Cards
begin

text \<open>
  \<open>playing/pattern.go\<close>: recognition of the fourteen card patterns (\<open>Analyze\<close>), the structural
  check of a pattern value and the comparison of two patterns (\<open>CanBeat\<close>).
\<close>

section \<open>Patterns\<close>

text \<open>Go's \<open>Kind\<close> is a string; any string outside the fourteen constants is \<open>KindUnknown\<close>.\<close>

datatype kind =
    KindSingle
  | KindPair
  | KindTriple
  | KindTripleWithSingle
  | KindTripleWithPair
  | KindStraight
  | KindConsecutivePairs
  | KindAirplane
  | KindAirplaneWithSingles
  | KindAirplaneWithPairs
  | KindFourWithTwoSingles
  | KindFourWithTwoPairs
  | KindBomb
  | KindRocket
  | KindUnknown string

definition rules_version :: string where "rules_version = ''doudizhu-play-rules-v1''"

record pattern =
  pat_version :: string
  pat_kind :: kind
  pat_main :: rank
  pat_seqlen :: u8
  pat_cards :: u8

definition mk_pattern :: "kind \<Rightarrow> rank \<Rightarrow> nat \<Rightarrow> nat \<Rightarrow> pattern" where
  "mk_pattern k rank seqlen cnt =
     \<lparr>pat_version = rules_version, pat_kind = k, pat_main = rank,
      pat_seqlen = word_of_nat seqlen, pat_cards = word_of_nat cnt\<rparr>"

section \<open>Counting ranks\<close>

fun rank_counts_loop :: "card list \<Rightarrow> bool list \<Rightarrow> nat list \<Rightarrow> go_error + nat list" where
  "rank_counts_loop [] seen counts = Inr counts"
| "rank_counts_loop (c # cs) seen counts =
     (if \<not> card_valid c then Inl (Pattern_Err InvalidPattern)
      else if seen ! unat c then Inl (Pattern_Err InvalidPattern)
      else rbind (card_rank c) (\<lambda>rank.
        rank_counts_loop cs (seen[unat c := True]) (counts[unat rank := counts ! unat rank + 1])))"

definition rank_counts :: "card list \<Rightarrow> go_error + nat list" where
  "rank_counts cards = rank_counts_loop cards (replicate deck_size False) (replicate 15 0)"

definition ranks_with_cards :: "nat list \<Rightarrow> rank list" where
  "ranks_with_cards counts = map word_of_nat (filter (\<lambda>r. counts ! r > 0) [0..<length counts])"

fun find_count :: "nat \<Rightarrow> nat list \<Rightarrow> nat \<Rightarrow> nat option" where
  "find_count r [] wanted = None"
| "find_count r (c # cs) wanted = (if c = wanted then Some r else find_count (Suc r) cs wanted)"

definition rank_with_count :: "nat list \<Rightarrow> nat \<Rightarrow> rank option" where
  "rank_with_count counts wanted = map_option word_of_nat (find_count 0 counts wanted)"

definition count_ranks :: "nat list \<Rightarrow> nat \<Rightarrow> nat" where
  "count_ranks counts wanted = length (filter (\<lambda>c. c = wanted) counts)"

text \<open>The first loop of \<open>exactSequence\<close>: \<open>low\<close> and \<open>high\<close> start at -1.\<close>

fun seq_scan :: "nat \<Rightarrow> nat list \<Rightarrow> nat \<Rightarrow> int \<Rightarrow> int \<Rightarrow> (int \<times> int) option" where
  "seq_scan rank [] wanted low high = Some (low, high)"
| "seq_scan rank (c # cs) wanted low high =
     (if c = 0 then seq_scan (Suc rank) cs wanted low high
      else if rank > unat rank_ace \<or> c \<noteq> wanted then None
      else seq_scan (Suc rank) cs wanted (if low = -1 then int rank else low) (int rank))"

definition exact_sequence :: "nat list \<Rightarrow> nat \<Rightarrow> (rank \<times> rank) option" where
  "exact_sequence counts wanted =
     (case seq_scan 0 counts wanted (-1) (-1) of
        None \<Rightarrow> None
      | Some (low, high) \<Rightarrow>
          if low = -1 then None
          else if list_ex (\<lambda>r. counts ! r \<noteq> wanted) [nat low..<Suc (nat high)] then None
          else Some (word_of_nat (nat low), word_of_nat (nat high)))"

fun take_body :: "nat list \<Rightarrow> nat list \<Rightarrow> nat list option" where
  "take_body [] remaining = Some remaining"
| "take_body (r # rs) remaining =
     (if remaining ! r < 3 then None
      else let remaining' = remaining[r := remaining ! r - 3]
           in if remaining' ! r \<noteq> 0 then None else take_body rs remaining')"

fun pair_wings_scan :: "nat list \<Rightarrow> nat \<Rightarrow> nat option" where
  "pair_wings_scan [] seen_pairs = Some seen_pairs"
| "pair_wings_scan (c # cs) seen_pairs =
     (if c = 0 then pair_wings_scan cs seen_pairs
      else if c = 2 then pair_wings_scan cs (Suc seen_pairs)
      else None)"

definition valid_pair_wings :: "nat list \<Rightarrow> nat \<Rightarrow> bool" where
  "valid_pair_wings counts pairs = (pair_wings_scan counts 0 = Some pairs)"

definition remaining_cards :: "nat list \<Rightarrow> nat" where
  "remaining_cards counts = foldl (+) 0 counts"

fun airplane_scan :: "nat list \<Rightarrow> nat list \<Rightarrow> nat \<Rightarrow> bool \<Rightarrow> rank option" where
  "airplane_scan [] counts len pair_wings = None"
| "airplane_scan (low # lows) counts len pair_wings =
     (case take_body [low..<low + len] counts of
        None \<Rightarrow> airplane_scan lows counts len pair_wings
      | Some remaining \<Rightarrow>
          if pair_wings then
            (if valid_pair_wings remaining len then Some (word_of_nat (low + len - 1))
             else airplane_scan lows counts len pair_wings)
          else if remaining_cards remaining = len then Some (word_of_nat (low + len - 1))
          else airplane_scan lows counts len pair_wings)"

text \<open>The loop condition \<open>low+length-1 <= RankAce\<close> bounds \<open>low\<close> by \<open>13 - length\<close>.\<close>

definition airplane_body :: "nat list \<Rightarrow> nat \<Rightarrow> bool \<Rightarrow> rank option" where
  "airplane_body counts len pair_wings =
     (if len < 2 then None
      else airplane_scan [0..<unat rank_ace + 2 - len] counts len pair_wings)"

section \<open>Analyze\<close>

text \<open>
  \<open>Analyze\<close> is a sequence of blocks that return a pattern or fall through; each block is an
  option here, and the first block that returns wins.
\<close>

fun first_some :: "'a option list \<Rightarrow> 'a option" where
  "first_some [] = None"
| "first_some (None # xs) = first_some xs"
| "first_some (Some x # xs) = Some x"

definition try_rocket :: "nat \<Rightarrow> nat list \<Rightarrow> pattern option" where
  "try_rocket n counts =
     (if n = 2 \<and> counts ! unat rank_small_joker = 1 \<and> counts ! unat rank_big_joker = 1
      then Some (mk_pattern KindRocket rank_big_joker 1 n) else None)"

definition try_same_rank :: "nat \<Rightarrow> nat list \<Rightarrow> pattern option" where
  "try_same_rank n counts =
     (case ranks_with_cards counts of
        [rank] \<Rightarrow>
          (if n = 1 then Some (mk_pattern KindSingle rank 1 1)
           else if n = 2 then Some (mk_pattern KindPair rank 1 2)
           else if n = 3 then Some (mk_pattern KindTriple rank 1 3)
           else if n = 4 then Some (mk_pattern KindBomb rank 1 4)
           else None)
      | _ \<Rightarrow> None)"

definition try_triple_single :: "nat \<Rightarrow> nat list \<Rightarrow> pattern option" where
  "try_triple_single n counts =
     (if n = 4 then map_option (\<lambda>triple. mk_pattern KindTripleWithSingle triple 1 4) (rank_with_count counts 3)
      else None)"

definition try_triple_pair :: "nat \<Rightarrow> nat list \<Rightarrow> pattern option" where
  "try_triple_pair n counts =
     (if n = 5 then
        (case rank_with_count counts 3 of
           Some triple \<Rightarrow>
             if count_ranks counts 2 = 1 then Some (mk_pattern KindTripleWithPair triple 1 5) else None
         | None \<Rightarrow> None)
      else None)"

definition try_straight :: "nat \<Rightarrow> nat list \<Rightarrow> pattern option" where
  "try_straight n counts =
     (if n \<ge> 5 then
        (case exact_sequence counts 1 of
           Some (low, high) \<Rightarrow>
             if unat (high - low) + 1 = n then Some (mk_pattern KindStraight high n n) else None
         | None \<Rightarrow> None)
      else None)"

definition try_consecutive_pairs :: "nat \<Rightarrow> nat list \<Rightarrow> pattern option" where
  "try_consecutive_pairs n counts =
     (if n \<ge> 6 \<and> n mod 2 = 0 then
        (let len = n div 2 in
         case exact_sequence counts 2 of
           Some (low, high) \<Rightarrow>
             if unat (high - low) + 1 = len \<and> len \<ge> 3
             then Some (mk_pattern KindConsecutivePairs high len n) else None
         | None \<Rightarrow> None)
      else None)"

definition try_airplane :: "nat \<Rightarrow> nat list \<Rightarrow> pattern option" where
  "try_airplane n counts =
     (if n \<ge> 6 \<and> n mod 3 = 0 then
        (let len = n div 3 in
         case exact_sequence counts 3 of
           Some (low, high) \<Rightarrow>
             if unat (high - low) + 1 = len \<and> len \<ge> 2
             then Some (mk_pattern KindAirplane high len n) else None
         | None \<Rightarrow> None)
      else None)"

definition try_airplane_singles :: "nat \<Rightarrow> nat list \<Rightarrow> pattern option" where
  "try_airplane_singles n counts =
     (if n \<ge> 8 \<and> n mod 4 = 0 then
        (let len = n div 4 in
         map_option (\<lambda>high. mk_pattern KindAirplaneWithSingles high len n) (airplane_body counts len False))
      else None)"

definition try_airplane_pairs :: "nat \<Rightarrow> nat list \<Rightarrow> pattern option" where
  "try_airplane_pairs n counts =
     (if n \<ge> 10 \<and> n mod 5 = 0 then
        (let len = n div 5 in
         map_option (\<lambda>high. mk_pattern KindAirplaneWithPairs high len n) (airplane_body counts len True))
      else None)"

definition try_four_singles :: "nat \<Rightarrow> nat list \<Rightarrow> pattern option" where
  "try_four_singles n counts =
     (if n = 6 then map_option (\<lambda>four. mk_pattern KindFourWithTwoSingles four 1 6) (rank_with_count counts 4)
      else None)"

definition try_four_pairs :: "nat \<Rightarrow> nat list \<Rightarrow> pattern option" where
  "try_four_pairs n counts =
     (if n = 8 then
        (case rank_with_count counts 4 of
           Some four \<Rightarrow>
             if count_ranks counts 2 = 2 then Some (mk_pattern KindFourWithTwoPairs four 1 8) else None
         | None \<Rightarrow> None)
      else None)"

definition analyze_blocks :: "nat \<Rightarrow> nat list \<Rightarrow> pattern option list" where
  "analyze_blocks n counts =
     [try_rocket n counts, try_same_rank n counts, try_triple_single n counts,
      try_triple_pair n counts, try_straight n counts, try_consecutive_pairs n counts,
      try_airplane n counts, try_airplane_singles n counts, try_airplane_pairs n counts,
      try_four_singles n counts, try_four_pairs n counts]"

definition analyze :: "card list \<Rightarrow> go_error + pattern" where
  "analyze cards =
     (if length cards = 0 \<or> length cards > 20 then Inl (Pattern_Err InvalidPattern)
      else rbind (rank_counts cards) (\<lambda>counts.
        case first_some (analyze_blocks (length cards) counts) of
          Some p \<Rightarrow> Inr p
        | None \<Rightarrow> Inl (Pattern_Err InvalidPattern)))"

section \<open>Validation and comparison\<close>

fun known_kind :: "kind \<Rightarrow> bool" where
  "known_kind (KindUnknown s) = False"
| "known_kind _ = True"

definition valid_pattern_structure :: "pattern \<Rightarrow> bool" where
  "valid_pattern_structure v =
     (let seqlen = unat (pat_seqlen v);
          cnt = unat (pat_cards v);
          ordinary = pat_main v \<le> rank_two;
          sequence = pat_main v \<le> rank_ace \<and>
            int (unat (pat_main v)) - int seqlen + 1 \<ge> int (unat rank_three)
      in case pat_kind v of
           KindSingle \<Rightarrow> seqlen = 1 \<and> cnt = 1
         | KindPair \<Rightarrow> seqlen = 1 \<and> cnt = 2 \<and> ordinary
         | KindTriple \<Rightarrow> seqlen = 1 \<and> cnt = 3 \<and> ordinary
         | KindTripleWithSingle \<Rightarrow> seqlen = 1 \<and> cnt = 4 \<and> ordinary
         | KindTripleWithPair \<Rightarrow> seqlen = 1 \<and> cnt = 5 \<and> ordinary
         | KindStraight \<Rightarrow> seqlen \<ge> 5 \<and> cnt = seqlen \<and> sequence
         | KindConsecutivePairs \<Rightarrow> seqlen \<ge> 3 \<and> cnt = 2 * seqlen \<and> sequence
         | KindAirplane \<Rightarrow> seqlen \<ge> 2 \<and> cnt = 3 * seqlen \<and> sequence
         | KindAirplaneWithSingles \<Rightarrow> seqlen \<ge> 2 \<and> cnt = 4 * seqlen \<and> sequence
         | KindAirplaneWithPairs \<Rightarrow> seqlen \<ge> 2 \<and> cnt = 5 * seqlen \<and> sequence
         | KindFourWithTwoSingles \<Rightarrow> seqlen = 1 \<and> cnt = 6 \<and> ordinary
         | KindFourWithTwoPairs \<Rightarrow> seqlen = 1 \<and> cnt = 8 \<and> ordinary
         | KindBomb \<Rightarrow> seqlen = 1 \<and> cnt = 4 \<and> ordinary
         | KindRocket \<Rightarrow> seqlen = 1 \<and> cnt = 2 \<and> pat_main v = rank_big_joker
         | KindUnknown s \<Rightarrow> False)"

definition validate_pattern :: "pattern \<Rightarrow> go_error + unit" where
  "validate_pattern v =
     (if pat_version v \<noteq> rules_version \<or> \<not> known_kind (pat_kind v) \<or> pat_seqlen v = 0
         \<or> pat_cards v = 0 \<or> pat_main v > rank_big_joker \<or> \<not> valid_pattern_structure v
      then Inl (Pattern_Err InvalidPatternValue) else Inr ())"

definition can_beat :: "pattern \<Rightarrow> pattern \<Rightarrow> go_error + bool" where
  "can_beat candidate incumbent =
     rbind (validate_pattern candidate) (\<lambda>_.
     rbind (validate_pattern incumbent) (\<lambda>_.
       if pat_kind candidate = KindRocket then Inr (pat_kind incumbent \<noteq> KindRocket)
       else if pat_kind incumbent = KindRocket then Inr False
       else if pat_kind candidate = KindBomb then
         (if pat_kind incumbent \<noteq> KindBomb then Inr True
          else Inr (pat_main candidate > pat_main incumbent))
       else if pat_kind incumbent = KindBomb then Inr False
       else if pat_kind candidate \<noteq> pat_kind incumbent
            \<or> pat_seqlen candidate \<noteq> pat_seqlen incumbent
            \<or> pat_cards candidate \<noteq> pat_cards incumbent then Inr False
       else Inr (pat_main candidate > pat_main incumbent)))"

section \<open>Rank tables\<close>

text \<open>\<open>rank_table cards\<close> is what \<open>rankCounts\<close> computes on distinct valid cards.\<close>

definition rank_table :: "card list \<Rightarrow> nat list" where
  "rank_table cards = map (\<lambda>r. length (filter (\<lambda>c. rank_of c = r) cards)) [0..<15]"

lemma length_rank_table [simp]: "length (rank_table cards) = 15"
  by (simp add: rank_table_def)

lemma rank_table_nth: "r < 15 \<Longrightarrow> rank_table cards ! r = length (filter (\<lambda>c. rank_of c = r) cards)"
  by (simp add: rank_table_def)

lemma rank_counts_loop_eq:
  assumes "length seen = deck_size" and "length counts = 15"
  shows "rank_counts_loop cs seen counts =
    (if (\<forall>c \<in> set cs. card_valid c \<and> \<not> seen ! unat c) \<and> distinct cs
     then Inr (map (\<lambda>r. counts ! r + length (filter (\<lambda>c. rank_of c = r) cs)) [0..<15])
     else Inl (Pattern_Err InvalidPattern))"
  using assms
proof (induction cs arbitrary: seen counts)
  case Nil
  have "map ((!) counts) [0..<15] = counts" using Nil(2) by (metis map_nth)
  then show ?case by simp
next
  case (Cons c cs)
  show ?case
  proof (cases "card_valid c \<and> \<not> seen ! unat c")
    case True
    then have c: "unat c < length seen" using Cons.prems(1) by (simp add: card_valid_def)
    have r: "rank_of c < 15" using True rank_of_less by blast
    have upd: "(seen[unat c := True] ! unat x) = (x = c \<or> seen ! unat x)" if "card_valid x" for x
      using that c Cons.prems(1) by (auto simp: nth_list_update card_valid_def word_unat_eq_iff)
    have step: "rank_counts_loop (c # cs) seen counts = rank_counts_loop cs (seen[unat c := True])
        (counts[rank_of c := counts ! rank_of c + 1])"
      using True r by (simp add: card_rank_valid unat_of_nat_u8)
    show ?thesis
      unfolding step
      using True upd r Cons.prems
      by (subst Cons.IH) (auto simp: nth_list_update)
  qed auto
qed

lemma rank_counts_eq:
  "rank_counts cards =
    (if (\<forall>c \<in> set cards. card_valid c) \<and> distinct cards then Inr (rank_table cards)
     else Inl (Pattern_Err InvalidPattern))"
proof -
  have "\<not> replicate deck_size False ! unat c" if "card_valid c" for c :: card
    using that by (simp add: card_valid_def)
  moreover have "map (\<lambda>r. replicate 15 0 ! r + length (filter (\<lambda>c. rank_of c = r) cards)) [0..<15]
      = rank_table cards"
    by (simp add: rank_table_def)
  ultimately show ?thesis
    unfolding rank_counts_def by (subst rank_counts_loop_eq) auto
qed

lemma sum_list_rank_table:
  "\<forall>c \<in> set cards. card_valid c \<Longrightarrow> sum_list (rank_table cards) = length cards"
proof (induction cards)
  case Nil
  show ?case by (simp add: rank_table_def)
next
  case (Cons c cs)
  then have r: "rank_of c < 15" by (simp add: rank_of_less)
  have "rank_table (c # cs) = (rank_table cs)[rank_of c := rank_table cs ! rank_of c + 1]"
    using r by (intro nth_equalityI) (auto simp: rank_table_nth nth_list_update)
  then have "sum_list (rank_table (c # cs)) = Suc (sum_list (rank_table cs))"
    using sum_list_update_nat [of "rank_of c" "rank_table cs" "rank_table cs ! rank_of c + 1"] r by simp
  with Cons show ?case by simp
qed

lemma rank_table_cong: "mset cs = mset ds \<Longrightarrow> rank_table cs = rank_table ds"
proof -
  assume "mset cs = mset ds"
  then have "size (mset (filter P cs)) = size (mset (filter P ds))" for P by (simp add: mset_filter)
  then show ?thesis by (simp only: rank_table_def size_mset)
qed

text \<open>The order in which a player lists the cards is irrelevant: two lists with the same cards
  are analysed to the same pattern or the same error.\<close>

theorem analyze_permutation:
  assumes "mset cards = mset cards'"
  shows "analyze cards = analyze cards'"
proof -
  have "length cards = length cards'" "set cards = set cards'" "distinct cards = distinct cards'"
    using assms by (auto dest: mset_eq_length mset_eq_setD mset_eq_imp_distinct_iff)
  then show ?thesis
    by (simp add: analyze_def rank_counts_eq rank_table_cong [OF assms])
qed

theorem analyze_permutation_witness:
  "mset [0, 1, 4, 5, 8, 9] = mset [9, 0, 8, 1, 5, 4 :: card] \<and>
   analyze [0, 1, 4, 5, 8, 9] = analyze [9, 0, 8, 1, 5, 4]"
proof -
  have "mset [0, 1, 4, 5, 8, 9] = mset [9, 0, 8, 1, 5, 4 :: card]" by simp
  then show ?thesis using analyze_permutation by blast
qed

section \<open>Sums over rank tables\<close>

lemma sum_list_index: "sum_list (c :: nat list) = (\<Sum>i<length c. c ! i)"
  by (simp add: sum_list_sum_nth atLeast0LessThan)

lemma sum_part_le:
  "S \<subseteq> {..<length (c :: nat list)} \<Longrightarrow> (\<Sum>i\<in>S. c ! i) \<le> sum_list c"
  by (simp add: sum_list_index sum_mono2)

lemma sum_part_eq_zero:
  assumes "S \<subseteq> {..<length (c :: nat list)}" and "sum_list c \<le> (\<Sum>i\<in>S. c ! i)"
    and "i < length c" and "i \<notin> S"
  shows "c ! i = 0"
proof -
  have "(\<Sum>j\<in>insert i S. c ! j) \<le> sum_list c"
    using assms(1,3) by (intro sum_part_le) auto
  moreover have "(\<Sum>j\<in>insert i S. c ! j) = c ! i + (\<Sum>j\<in>S. c ! j)"
    using assms(1,4) finite_subset by (subst sum.insert) auto
  ultimately show ?thesis using assms(2) by simp
qed

lemma sum_range_const:
  assumes "\<forall>r \<in> {l..<l + n}. (c :: nat list) ! r = w"
  shows "(\<Sum>r\<in>{l..<l + n}. c ! r) = n * w"
  using assms by simp

lemma sum_block:
  assumes "length c = 15" and "h < 15" and "l \<le> h"
    and "\<forall>s<15. c ! s = (if l \<le> s \<and> s \<le> h then w else 0)"
  shows "sum_list c = (Suc h - l) * w"
proof -
  have "sum_list c = (\<Sum>s<15. if l \<le> s \<and> s \<le> h then w else 0)"
    using assms(1,4) by (simp add: sum_list_index)
  also have "\<dots> = (\<Sum>s\<in>{l..h}. w)"
    by (rule sum.mono_neutral_cong_right) (use assms(2) in auto)
  finally show ?thesis by simp
qed

section \<open>The helpers of Analyze\<close>

lemma find_count_Some:
  "find_count k cs w = Some r \<Longrightarrow> k \<le> r \<and> r < k + length cs \<and> cs ! (r - k) = w"
proof (induction cs arbitrary: k)
  case (Cons x cs)
  show ?case
  proof (cases "x = w")
    case False
    with Cons.prems have "find_count (Suc k) cs w = Some r" by simp
    from Cons.IH [OF this] have "Suc k \<le> r" "r < Suc k + length cs" "cs ! (r - Suc k) = w"
      by simp_all
    then show ?thesis by (simp add: nth_Cons' Suc_diff_le)
  qed (use Cons.prems in auto)
qed simp

lemma find_count_None: "find_count k cs w = None \<longleftrightarrow> w \<notin> set cs"
  by (induction cs arbitrary: k) auto

lemma rank_with_count_Some:
  assumes "rank_with_count c w = Some q" and "length c = 15"
  shows "unat q < 15 \<and> c ! unat q = w"
proof -
  from assms obtain r where "find_count 0 c w = Some r" "q = word_of_nat r"
    by (auto simp: rank_with_count_def)
  then show ?thesis using find_count_Some [of 0 c w r] assms(2) by (simp add: unat_of_nat_u8)
qed

lemma rank_with_count_ex: "r < length c \<Longrightarrow> \<exists>q. rank_with_count c (c ! r) = Some q"
  by (metis find_count_None nth_mem option.exhaust option.map(2) rank_with_count_def)

lemma count_ranks_pos: "0 < count_ranks c w \<longleftrightarrow> (\<exists>r<length c. c ! r = w)"
  by (auto simp: count_ranks_def filter_empty_conv in_set_conv_nth)

lemma filter_upt_single: "k < n \<Longrightarrow> filter (\<lambda>r. r = k) [0..<n] = [k]"
proof (induction n)
  case (Suc n)
  then show ?case by (cases "k = n") (auto simp: filter_empty_conv)
qed simp

lemma ranks_with_cards_single:
  assumes "length c = 15"
  shows "ranks_with_cards c = [q] \<longleftrightarrow>
    unat q < 15 \<and> 0 < c ! unat q \<and> (\<forall>s<15. s \<noteq> unat q \<longrightarrow> c ! s = 0)"
proof
  assume "ranks_with_cards c = [q]"
  then have "map (word_of_nat :: nat \<Rightarrow> u8) (filter (\<lambda>r. c ! r > 0) [0..<length c]) = [q]"
    by (simp only: ranks_with_cards_def)
  then obtain r where f: "filter (\<lambda>r. c ! r > 0) [0..<length c] = [r]" and q: "q = word_of_nat r"
    unfolding map_eq_Cons_conv map_is_Nil_conv by blast
  have m: "s < length c \<and> 0 < c ! s \<longleftrightarrow> s = r" for s
  proof -
    have "s \<in> set (filter (\<lambda>r. c ! r > 0) [0..<length c]) \<longleftrightarrow> s \<in> set [r]" by (simp only: f)
    then show ?thesis by simp
  qed
  have r: "r < length c" "0 < c ! r" using m [of r] by simp_all
  have other: "c ! s = 0" if "s < length c" "s \<noteq> r" for s using m [of s] that by simp
  have "unat q = r" using r(1) assms by (simp add: q unat_of_nat_u8)
  then show "unat q < 15 \<and> 0 < c ! unat q \<and> (\<forall>s<15. s \<noteq> unat q \<longrightarrow> c ! s = 0)"
    using r other by (simp add: assms)
next
  assume a: "unat q < 15 \<and> 0 < c ! unat q \<and> (\<forall>s<15. s \<noteq> unat q \<longrightarrow> c ! s = 0)"
  then have "filter (\<lambda>r. c ! r > 0) [0..<length c] = filter (\<lambda>r. r = unat q) [0..<length c]"
    unfolding assms by (intro filter_cong) auto
  also have "\<dots> = [unat q]" using a by (intro filter_upt_single) (simp add: assms)
  finally show "ranks_with_cards c = [q]" by (simp add: ranks_with_cards_def)
qed

definition positions :: "nat \<Rightarrow> nat list \<Rightarrow> nat list" where
  "positions k cs = map fst (filter (\<lambda>(r, x). x \<noteq> 0) (enumerate k cs))"

lemma positions_Nil [simp]: "positions k [] = []"
  by (simp add: positions_def)

lemma positions_Cons [simp]:
  "positions k (c # cs) = (if c = 0 then positions (Suc k) cs else k # positions (Suc k) cs)"
  by (simp add: positions_def)

lemma set_positions: "r \<in> set (positions k cs) \<longleftrightarrow> k \<le> r \<and> r < k + length cs \<and> cs ! (r - k) \<noteq> 0"
proof (induction cs arbitrary: k)
  case (Cons c cs)
  show ?case
  proof (cases "r = k")
    case True
    then show ?thesis using Cons [of "Suc k"] by auto
  next
    case False
    then have "k \<le> r \<Longrightarrow> (c # cs) ! (r - k) = cs ! (r - Suc k)" by (simp add: nth_Cons')
    then show ?thesis using False Cons [of "Suc k"] by (cases "k \<le> r") auto
  qed
qed simp

lemma sorted_positions: "sorted (positions k cs)"
  by (induction cs arbitrary: k) (auto simp: set_positions)

lemma sorted_hd_last:
  assumes "sorted (xs :: nat list)" and "x \<in> set xs"
  shows "hd xs \<le> x \<and> x \<le> last xs"
proof -
  from assms(2) obtain ys zs where "xs = ys @ x # zs" by (meson split_list)
  with assms(1) show ?thesis by (cases ys) (auto simp: sorted_append)
qed

lemma seq_scan_eq:
  "low \<ge> -1 \<Longrightarrow> seq_scan k cs w low high =
    (if \<forall>i<length cs. cs ! i \<noteq> 0 \<longrightarrow> k + i \<le> 11 \<and> cs ! i = w
     then Some (if low = -1 \<and> positions k cs \<noteq> [] then int (hd (positions k cs)) else low,
                if positions k cs \<noteq> [] then int (last (positions k cs)) else high)
     else None)"
proof (induction cs arbitrary: k low high)
  case (Cons c cs)
  have ace: "unat rank_ace = 11" by simp
  have split: "(\<forall>i<length (c # cs). (c # cs) ! i \<noteq> 0 \<longrightarrow> k + i \<le> 11 \<and> (c # cs) ! i = w) \<longleftrightarrow>
      (c \<noteq> 0 \<longrightarrow> k \<le> 11 \<and> c = w) \<and> (\<forall>i<length cs. cs ! i \<noteq> 0 \<longrightarrow> Suc k + i \<le> 11 \<and> cs ! i = w)"
    by (auto simp: All_less_Suc2)
  show ?case
  proof (cases "c = 0")
    case True
    then show ?thesis unfolding split using Cons.prems by (simp add: Cons.IH) blast
  next
    case False
    show ?thesis
    proof (cases "k \<le> 11 \<and> c = w")
      case True
      then show ?thesis unfolding split using Cons.prems False
        by (cases "low = -1") (simp_all add: Cons.IH ace, blast+)
    next
      case False
      then show ?thesis unfolding split using \<open>c \<noteq> 0\<close> by (auto simp: ace)
    qed
  qed
qed simp

lemma exact_sequence_Some:
  assumes len: "length c = 15" and w: "0 < w" and es: "exact_sequence c w = Some (lo, hi)"
  shows "unat lo \<le> unat hi \<and> unat hi \<le> 11 \<and>
    (\<forall>s<15. c ! s = (if unat lo \<le> s \<and> s \<le> unat hi then w else 0))"
proof -
  let ?ps = "positions 0 c"
  have ok: "\<forall>i<length c. c ! i \<noteq> 0 \<longrightarrow> i \<le> 11 \<and> c ! i = w"
    using es by (simp add: exact_sequence_def seq_scan_eq split: if_splits)
  have ne: "?ps \<noteq> []"
    using es by (simp add: exact_sequence_def seq_scan_eq split: if_splits)
  have eq: "lo = word_of_nat (hd ?ps)" "hi = word_of_nat (last ?ps)"
    and gap: "\<forall>r \<in> set [hd ?ps..<Suc (last ?ps)]. c ! r = w"
    using es ok ne by (simp_all add: exact_sequence_def seq_scan_eq list_ex_iff del: upt_Suc split: if_splits)
  have mem: "hd ?ps \<in> set ?ps" "last ?ps \<in> set ?ps" using ne by simp_all
  then have b: "hd ?ps \<le> 11" "last ?ps \<le> 11" using ok by (auto simp: set_positions)
  then have u: "unat lo = hd ?ps" "unat hi = last ?ps" by (simp_all add: eq unat_of_nat_u8)
  have srt: "hd ?ps \<le> s" "s \<le> last ?ps" if "s \<in> set ?ps" for s
    using sorted_hd_last [OF sorted_positions that] by simp_all
  have out: "c ! s = 0" if "s < 15" "\<not> (hd ?ps \<le> s \<and> s \<le> last ?ps)" for s
    using srt [of s] that len by (auto simp: set_positions)
  have "hd ?ps \<le> last ?ps" using srt(1) mem by blast
  moreover have "c ! s = w" if "hd ?ps \<le> s" "s \<le> last ?ps" for s
    using gap that by (simp del: upt_Suc)
  ultimately show ?thesis using b out by (simp add: u)
qed

lemma exact_sequence_ex:
  assumes len: "length c = 15" and w: "0 < w" and lh: "lo \<le> hi" "hi \<le> 11"
    and cs: "\<forall>s<15. c ! s = (if lo \<le> s \<and> s \<le> hi then w else 0)"
  shows "exact_sequence c w = Some (word_of_nat lo, word_of_nat hi)"
proof -
  let ?ps = "positions 0 c"
  have mem: "s \<in> set ?ps \<longleftrightarrow> lo \<le> s \<and> s \<le> hi" for s
  proof -
    have "c ! s \<noteq> 0 \<longleftrightarrow> lo \<le> s \<and> s \<le> hi" if "s < 15" using cs w that by simp
    then show ?thesis using lh len by (auto simp: set_positions)
  qed
  then have ne: "?ps \<noteq> []" using lh(1) by (metis empty_iff list.set(1) order_refl)
  have m: "lo \<in> set ?ps" "hi \<in> set ?ps" using mem lh by simp_all
  have hd: "hd ?ps = lo" and la: "last ?ps = hi"
    using sorted_hd_last [OF sorted_positions m(1)] sorted_hd_last [OF sorted_positions m(2)]
      mem [of "hd ?ps"] mem [of "last ?ps"] ne by simp_all
  have ok: "\<forall>i<length c. c ! i \<noteq> 0 \<longrightarrow> i \<le> 11 \<and> c ! i = w" using cs len lh by auto
  have gap: "\<not> list_ex (\<lambda>r. c ! r \<noteq> w) [lo..<Suc hi]" using cs lh by (auto simp: list_ex_iff)
  have "seq_scan 0 c w (- 1) (- 1) = Some (int lo, int hi)"
    using ok ne by (simp add: seq_scan_eq hd la)
  then show ?thesis using gap by (simp add: exact_sequence_def del: upt_Suc)
qed


lemma remaining_cards_eq: "remaining_cards c = sum_list c"
proof -
  have "foldl (+) k c = k + sum_list c" for k :: nat by (induction c arbitrary: k) simp_all
  then show ?thesis by (simp add: remaining_cards_def)
qed

text \<open>\<open>clear_at rs c\<close> is the table left after the triples of the ranks \<open>rs\<close> are taken out.\<close>

definition clear_at :: "nat set \<Rightarrow> nat list \<Rightarrow> nat list" where
  "clear_at rs c = map (\<lambda>i. if i \<in> rs then 0 else c ! i) [0..<length c]"

lemma length_clear_at [simp]: "length (clear_at rs c) = length c"
  by (simp add: clear_at_def)

lemma clear_at_nth [simp]: "i < length c \<Longrightarrow> clear_at rs c ! i = (if i \<in> rs then 0 else c ! i)"
  by (simp add: clear_at_def)

lemma clear_at_empty [simp]: "clear_at {} c = c"
  by (simp add: clear_at_def map_nth)

lemma sum_list_clear_at:
  assumes "S \<subseteq> {..<length c}"
  shows "sum_list (clear_at S c) + (\<Sum>i\<in>S. c ! i) = sum_list c"
proof -
  have "sum_list (clear_at S c) = (\<Sum>i<length c. if i \<in> S then 0 else c ! i)"
    by (simp add: sum_list_index)
  also have "\<dots> = (\<Sum>i\<in>{..<length c} - S. c ! i)"
    by (rule sum.mono_neutral_cong_right) auto
  finally show ?thesis
    using sum.subset_diff [of S "{..<length c}" "(!) c"] assms by (simp add: sum_list_index)
qed

lemma take_body_eq:
  assumes "distinct rs" and "set rs \<subseteq> {..<length c}"
  shows "take_body rs c = (if \<forall>r \<in> set rs. c ! r = 3 then Some (clear_at (set rs) c) else None)"
  using assms
proof (induction rs arbitrary: c)
  case (Cons r rs)
  have r: "r < length c" "r \<notin> set rs" using Cons.prems by auto
  show ?case
  proof (cases "c ! r = 3")
    case True
    have "\<forall>x\<in>set rs. c[r := 0] ! x = c ! x" using r by (auto simp: nth_list_update)
    moreover have "clear_at (set rs) (c[r := 0]) = clear_at (set (r # rs)) c"
      by (rule nth_equalityI) (auto simp: nth_list_update)
    ultimately show ?thesis
      using True r Cons.prems Cons.IH [of "c[r := 0]"] by (simp add: Let_def)
  next
    case False
    then show ?thesis using r by (simp add: Let_def)
  qed
qed simp

lemma pair_wings_scan_eq:
  "pair_wings_scan cs k =
    (if \<forall>x \<in> set cs. x = 0 \<or> x = 2 then Some (k + length (filter (\<lambda>x. x = 2) cs)) else None)"
  by (induction cs arbitrary: k) auto

lemma sum_list_zero_two:
  "\<forall>x \<in> set cs. x = 0 \<or> x = 2 \<Longrightarrow> sum_list cs = 2 * length (filter (\<lambda>x. x = (2::nat)) cs)"
  by (induction cs) auto

lemma valid_pair_wings_iff:
  "valid_pair_wings cs n \<longleftrightarrow> (\<forall>x \<in> set cs. x = 0 \<or> x = 2) \<and> sum_list cs = 2 * n"
  by (auto simp: valid_pair_wings_def pair_wings_scan_eq sum_list_zero_two)

text \<open>\<open>body_at c low len\<close>: the ranks \<open>low\<close>, ..., \<open>low + len - 1\<close> hold exactly three cards each.\<close>

definition body_at :: "nat list \<Rightarrow> nat \<Rightarrow> nat \<Rightarrow> bool" where
  "body_at c low len \<longleftrightarrow> (\<forall>r \<in> {low..<low + len}. c ! r = 3)"

definition plane_at :: "nat list \<Rightarrow> nat \<Rightarrow> bool \<Rightarrow> nat \<Rightarrow> bool" where
  "plane_at c len pairs low \<longleftrightarrow> body_at c low len \<and>
     (if pairs then \<forall>s<length c. low \<le> s \<and> s < low + len \<or> c ! s = 0 \<or> c ! s = 2 else True)"

lemma airplane_scan_eq:
  assumes "length c = 15" and "\<forall>low \<in> set lows. low + len \<le> 12"
    and "sum_list c = (if pairs then 5 else 4) * len"
  shows "airplane_scan lows c len pairs =
    map_option (\<lambda>low. word_of_nat (low + len - 1)) (find (plane_at c len pairs) lows)"
  using assms(2)
proof (induction lows)
  case (Cons low lows)
  have sub: "{low..<low + len} \<subseteq> {..<length c}" using Cons.prems assms(1) by auto
  then have tb: "take_body [low..<low + len] c =
      (if body_at c low len then Some (clear_at {low..<low + len} c) else None)"
    by (subst take_body_eq) (auto simp: body_at_def)
  have sum: "sum_list (clear_at {low..<low + len} c) = (if pairs then 2 else 1) * len" if "body_at c low len"
    using sum_list_clear_at [OF sub] that assms(3) by (cases pairs) (simp_all add: body_at_def)
  have wings: "(\<forall>x \<in> set (clear_at {low..<low + len} c). x = 0 \<or> x = 2) \<longleftrightarrow>
      (\<forall>s<length c. low \<le> s \<and> s < low + len \<or> c ! s = 0 \<or> c ! s = 2)"
    by (auto simp: all_set_conv_all_nth)
  have "airplane_scan (low # lows) c len pairs =
      (if plane_at c len pairs low then Some (word_of_nat (low + len - 1))
       else airplane_scan lows c len pairs)"
  proof (cases "body_at c low len")
    case True
    have "valid_pair_wings (clear_at {low..<low + len} c) len = plane_at c len True low" if pairs
      unfolding valid_pair_wings_iff wings plane_at_def using True sum that by simp
    moreover have "plane_at c len False low" using True by (simp add: plane_at_def)
    ultimately show ?thesis using True sum
      by (cases pairs) (simp_all add: tb remaining_cards_eq)
  next
    case False
    then show ?thesis by (simp add: tb plane_at_def)
  qed
  then show ?case using Cons.IH Cons.prems by simp
qed simp

section \<open>The table of legal patterns\<close>

text \<open>
  \<open>fits k m len c\<close> states, rank table against kind, the table of legal patterns of
  \<open>doudizhu-play-rules-v1\<close>: the cards whose rank table is \<open>c\<close> form a pattern of kind \<open>k\<close> with main
  rank \<open>m\<close> and sequence length \<open>len\<close>.  It mentions no search and no order of attempts.
\<close>

definition block_only :: "nat list \<Rightarrow> nat \<Rightarrow> nat \<Rightarrow> nat \<Rightarrow> bool" where
  "block_only c m len w \<longleftrightarrow> 1 \<le> len \<and> len \<le> Suc m \<and>
     (\<forall>s<15. c ! s = (if Suc m - len \<le> s \<and> s \<le> m then w else 0))"

fun fits :: "kind \<Rightarrow> nat \<Rightarrow> nat \<Rightarrow> nat list \<Rightarrow> bool" where
  "fits KindSingle m len c \<longleftrightarrow> m < 15 \<and> len = 1 \<and> block_only c m 1 1"
| "fits KindPair m len c \<longleftrightarrow> m < 15 \<and> len = 1 \<and> block_only c m 1 2"
| "fits KindTriple m len c \<longleftrightarrow> m < 15 \<and> len = 1 \<and> block_only c m 1 3"
| "fits KindBomb m len c \<longleftrightarrow> m < 15 \<and> len = 1 \<and> block_only c m 1 4"
| "fits KindRocket m len c \<longleftrightarrow> m = 14 \<and> len = 1 \<and> c ! 13 = 1 \<and> c ! 14 = 1 \<and> sum_list c = 2"
| "fits KindTripleWithSingle m len c \<longleftrightarrow> m < 15 \<and> len = 1 \<and> c ! m = 3 \<and> sum_list c = 4"
| "fits KindTripleWithPair m len c \<longleftrightarrow>
     m < 15 \<and> len = 1 \<and> c ! m = 3 \<and> 2 \<in> set c \<and> sum_list c = 5"
| "fits KindFourWithTwoSingles m len c \<longleftrightarrow> m < 15 \<and> len = 1 \<and> c ! m = 4 \<and> sum_list c = 6"
| "fits KindFourWithTwoPairs m len c \<longleftrightarrow>
     m < 15 \<and> len = 1 \<and> c ! m = 4 \<and> count_ranks c 2 = 2 \<and> sum_list c = 8"
| "fits KindStraight m len c \<longleftrightarrow> m \<le> 11 \<and> 5 \<le> len \<and> block_only c m len 1"
| "fits KindConsecutivePairs m len c \<longleftrightarrow> m \<le> 11 \<and> 3 \<le> len \<and> block_only c m len 2"
| "fits KindAirplane m len c \<longleftrightarrow> m \<le> 11 \<and> 2 \<le> len \<and> block_only c m len 3"
| "fits KindAirplaneWithSingles m len c \<longleftrightarrow> m \<le> 11 \<and> 2 \<le> len \<and> len \<le> Suc m \<and>
     plane_at c len False (Suc m - len) \<and> sum_list c = 4 * len"
| "fits KindAirplaneWithPairs m len c \<longleftrightarrow> m \<le> 11 \<and> 2 \<le> len \<and> len \<le> Suc m \<and>
     plane_at c len True (Suc m - len) \<and> sum_list c = 5 * len"
| "fits (KindUnknown s) m len c \<longleftrightarrow> False"

fun kind_cards :: "kind \<Rightarrow> nat \<Rightarrow> nat" where
  "kind_cards KindSingle len = 1"
| "kind_cards KindPair len = 2"
| "kind_cards KindTriple len = 3"
| "kind_cards KindBomb len = 4"
| "kind_cards KindRocket len = 2"
| "kind_cards KindTripleWithSingle len = 4"
| "kind_cards KindTripleWithPair len = 5"
| "kind_cards KindFourWithTwoSingles len = 6"
| "kind_cards KindFourWithTwoPairs len = 8"
| "kind_cards KindStraight len = len"
| "kind_cards KindConsecutivePairs len = 2 * len"
| "kind_cards KindAirplane len = 3 * len"
| "kind_cards KindAirplaneWithSingles len = 4 * len"
| "kind_cards KindAirplaneWithPairs len = 5 * len"
| "kind_cards (KindUnknown s) len = 0"

lemma block_only_sum:
  assumes "length c = 15" and "m < 15" and "block_only c m len w"
  shows "sum_list c = len * w"
proof -
  have "sum_list c = (Suc m - (Suc m - len)) * w"
    using assms by (intro sum_block) (auto simp: block_only_def)
  then show ?thesis using assms(3) by (simp add: block_only_def)
qed

lemma fits_cards: "length c = 15 \<Longrightarrow> fits k m len c \<Longrightarrow> sum_list c = kind_cards k len"
  using block_only_sum [of c m len] by (cases k) auto

subsection \<open>Each attempt against its row of the table\<close>

text \<open>The attempt of \<open>Analyze\<close>, in their order, that recognises a kind.\<close>

fun attempt :: "kind \<Rightarrow> nat" where
  "attempt KindRocket = 0"
| "attempt KindSingle = 1"
| "attempt KindPair = 1"
| "attempt KindTriple = 1"
| "attempt KindBomb = 1"
| "attempt KindTripleWithSingle = 2"
| "attempt KindTripleWithPair = 3"
| "attempt KindStraight = 4"
| "attempt KindConsecutivePairs = 5"
| "attempt KindAirplane = 6"
| "attempt KindAirplaneWithSingles = 7"
| "attempt KindAirplaneWithPairs = 8"
| "attempt KindFourWithTwoSingles = 9"
| "attempt KindFourWithTwoPairs = 10"
| "attempt (KindUnknown s) = 11"

definition built :: "kind \<Rightarrow> nat list \<Rightarrow> pattern \<Rightarrow> bool" where
  "built k c p \<longleftrightarrow> (\<exists>m len. m < 15 \<and> p = mk_pattern k (word_of_nat m) len (kind_cards k len) \<and> fits k m len c)"

lemma builtI:
  "fits k (unat m) len c \<Longrightarrow> unat m < 15 \<Longrightarrow> p = mk_pattern k m len (kind_cards k len) \<Longrightarrow> built k c p"
  unfolding built_def by (intro exI [of _ "unat m"] exI [of _ len]) simp

lemma block_only_single: "m < 15 \<Longrightarrow> block_only c m 1 w \<longleftrightarrow> c ! m = w \<and> (\<forall>s<15. s \<noteq> m \<longrightarrow> c ! s = 0)"
  by (auto simp: block_only_def)

lemma ranks_with_cards_block:
  assumes "length c = 15"
  shows "ranks_with_cards c = [q] \<longleftrightarrow> unat q < 15 \<and> 0 < c ! unat q \<and> block_only c (unat q) 1 (c ! unat q)"
  using assms by (auto simp: ranks_with_cards_single block_only_single simp del: One_nat_def)

lemma try_same_rank_sound:
  assumes c: "length c = 15" and some: "try_same_rank (sum_list c) c = Some p"
  shows "\<exists>k. built k c p \<and> attempt k = 1"
proof -
  obtain q where q: "ranks_with_cards c = [q]"
    using some by (auto simp: try_same_rank_def split: list.splits)
  then have f: "unat q < 15" "block_only c (unat q) 1 (c ! unat q)" using ranks_with_cards_block [OF c] by blast+
  have sum: "sum_list c = c ! unat q" using block_only_sum [OF c f] by simp
  consider "c ! unat q = 1" "p = mk_pattern KindSingle q 1 1" | "c ! unat q = 2" "p = mk_pattern KindPair q 1 2"
    | "c ! unat q = 3" "p = mk_pattern KindTriple q 1 3" | "c ! unat q = 4" "p = mk_pattern KindBomb q 1 4"
    using some by (auto simp: try_same_rank_def q sum simp del: One_nat_def split: if_splits)
  then show ?thesis
  proof cases
    case 1
    with f have "built KindSingle c p" by (intro builtI [where m = q and len = 1]) simp_all
    then show ?thesis by (intro exI [of _ KindSingle]) simp
  next
    case 2
    with f have "built KindPair c p" by (intro builtI [where m = q and len = 1]) simp_all
    then show ?thesis by (intro exI [of _ KindPair]) simp
  next
    case 3
    with f have "built KindTriple c p" by (intro builtI [where m = q and len = 1]) simp_all
    then show ?thesis by (intro exI [of _ KindTriple]) simp
  next
    case 4
    with f have "built KindBomb c p" by (intro builtI [where m = q and len = 1]) simp_all
    then show ?thesis by (intro exI [of _ KindBomb]) simp
  qed
qed

lemma try_same_rank_complete:
  assumes c: "length c = 15" and m: "m < 15" and b: "block_only c m 1 w" "1 \<le> w" "w \<le> 4"
  shows "try_same_rank (sum_list c) c \<noteq> None"
proof -
  have "c ! m = w" using b m by (simp add: block_only_single del: One_nat_def)
  moreover have "unat (word_of_nat m :: u8) = m" using m by (simp add: unat_of_nat_u8)
  ultimately have "ranks_with_cards c = [word_of_nat m]"
    using ranks_with_cards_block [OF c, of "word_of_nat m"] b m by simp
  moreover have "sum_list c = w" using block_only_sum [OF c m b(1)] by simp
  ultimately show ?thesis using b(2,3) by (auto simp: try_same_rank_def)
qed


text \<open>The attempts that look for a rank with a given count.\<close>

lemma count_ranks_pos_set: "0 < count_ranks c w \<longleftrightarrow> w \<in> set c"
  by (auto simp: count_ranks_def filter_empty_conv)

lemma two_unique:
  assumes "length c = 15" and "sum_list c = 5" and "m < 15" and "c ! m = 3" and "2 \<in> set c"
  shows "count_ranks c 2 = 1"
proof -
  obtain q where q: "q < 15" "c ! q = 2" using assms(1,5) by (auto simp: in_set_conv_nth)
  then have "q \<noteq> m" using assms(4) by auto
  have zero: "c ! i = 0" if "i < 15" "i \<noteq> m" "i \<noteq> q" for i
    using assms q that \<open>q \<noteq> m\<close> by (intro sum_part_eq_zero [of "{m, q}"]) auto
  have "filter (\<lambda>i. c ! i = 2) [0..<length c] = filter (\<lambda>i. i = q) [0..<length c]"
  proof (intro filter_cong refl)
    fix x assume "x \<in> set [0..<length c]"
    then have "x < 15" using assms(1) by simp
    then show "(c ! x = 2) = (x = q)" using zero [of x] q assms(4) by (cases "x = m"; cases "x = q") auto
  qed
  then have "length (filter (\<lambda>i. c ! i = 2) [0..<length c]) = 1"
    using q(1) assms(1) by (simp add: filter_upt_single)
  moreover have "filter (\<lambda>x. x = 2) c = map ((!) c) (filter (\<lambda>i. c ! i = 2) [0..<length c])"
    by (subst map_nth [of c, symmetric]) (simp only: filter_map comp_def)
  ultimately show ?thesis by (simp add: count_ranks_def)
qed

lemma rank_with_count_sound:
  "length c = 15 \<Longrightarrow> rank_with_count c w = Some q \<Longrightarrow> unat q < 15 \<and> c ! unat q = w"
  by (rule rank_with_count_Some)

lemma rank_with_count_complete:
  "length c = 15 \<Longrightarrow> m < 15 \<Longrightarrow> c ! m = w \<Longrightarrow> rank_with_count c w \<noteq> None"
  using rank_with_count_ex [of m c] by auto

lemma try_count_sound:
  assumes c: "length c = 15"
  shows "try_triple_single (sum_list c) c = Some p \<Longrightarrow> built KindTripleWithSingle c p"
    and "try_triple_pair (sum_list c) c = Some p \<Longrightarrow> built KindTripleWithPair c p"
    and "try_four_singles (sum_list c) c = Some p \<Longrightarrow> built KindFourWithTwoSingles c p"
    and "try_four_pairs (sum_list c) c = Some p \<Longrightarrow> built KindFourWithTwoPairs c p"
proof -
  have two: "count_ranks c 2 = 1 \<Longrightarrow> 2 \<in> set c" by (simp flip: count_ranks_pos_set)
  show "try_triple_single (sum_list c) c = Some p \<Longrightarrow> built KindTripleWithSingle c p"
    by (auto simp: try_triple_single_def split: if_splits dest!: rank_with_count_sound [OF c]
        intro!: builtI [where len = 1])
  show "try_triple_pair (sum_list c) c = Some p \<Longrightarrow> built KindTripleWithPair c p"
    using two by (auto simp: try_triple_pair_def split: if_splits option.splits
        dest!: rank_with_count_sound [OF c] intro!: builtI [where len = 1])
  show "try_four_singles (sum_list c) c = Some p \<Longrightarrow> built KindFourWithTwoSingles c p"
    by (auto simp: try_four_singles_def split: if_splits dest!: rank_with_count_sound [OF c]
        intro!: builtI [where len = 1])
  show "try_four_pairs (sum_list c) c = Some p \<Longrightarrow> built KindFourWithTwoPairs c p"
    by (auto simp: try_four_pairs_def split: if_splits option.splits
        dest!: rank_with_count_sound [OF c] intro!: builtI [where len = 1])
qed

lemma try_count_complete:
  assumes c: "length c = 15"
  shows "fits KindTripleWithSingle m len c \<Longrightarrow> try_triple_single (sum_list c) c \<noteq> None"
    and "fits KindTripleWithPair m len c \<Longrightarrow> try_triple_pair (sum_list c) c \<noteq> None"
    and "fits KindFourWithTwoSingles m len c \<Longrightarrow> try_four_singles (sum_list c) c \<noteq> None"
    and "fits KindFourWithTwoPairs m len c \<Longrightarrow> try_four_pairs (sum_list c) c \<noteq> None"
proof -
  have ex: "\<exists>y. rank_with_count c w = Some y" if "m < 15" "c ! m = w" for w
    using rank_with_count_complete [OF c that] by blast
  show "fits KindTripleWithSingle m len c \<Longrightarrow> try_triple_single (sum_list c) c \<noteq> None"
    using ex by (simp add: try_triple_single_def)
  show "fits KindTripleWithPair m len c \<Longrightarrow> try_triple_pair (sum_list c) c \<noteq> None"
    using ex [of 3] two_unique [OF c, of m] by (auto simp: try_triple_pair_def)
  show "fits KindFourWithTwoSingles m len c \<Longrightarrow> try_four_singles (sum_list c) c \<noteq> None"
    using ex by (simp add: try_four_singles_def)
  show "fits KindFourWithTwoPairs m len c \<Longrightarrow> try_four_pairs (sum_list c) c \<noteq> None"
    using ex [of 4] by (auto simp: try_four_pairs_def)
qed

text \<open>The attempts built on \<open>exactSequence\<close>.\<close>

lemma sequence_sound:
  assumes "length c = 15" and "0 < w" and "exact_sequence c w = Some (lo, hi)"
  shows "unat hi \<le> 11 \<and> block_only c (unat hi) (unat (hi - lo) + 1) w"
proof -
  have s: "unat lo \<le> unat hi" "unat hi \<le> 11"
      "\<forall>s<15. c ! s = (if unat lo \<le> s \<and> s \<le> unat hi then w else 0)"
    using exact_sequence_Some [OF assms] by simp_all
  then have "unat (hi - lo) = unat hi - unat lo" by (simp add: unat_sub u8_le_nat)
  with s show ?thesis by (simp add: block_only_def)
qed

lemma sequence_complete:
  assumes "length c = 15" and "0 < w" and "m \<le> 11" and "block_only c m len w"
  obtains lo hi where "exact_sequence c w = Some (lo, hi)" and "unat (hi - lo) + 1 = len"
proof
  let ?lo = "Suc m - len"
  have b: "1 \<le> len" "len \<le> Suc m" "\<forall>s<15. c ! s = (if ?lo \<le> s \<and> s \<le> m then w else 0)"
    using assms(4) by (simp_all add: block_only_def)
  show "exact_sequence c w = Some (word_of_nat ?lo, word_of_nat m)"
    using b assms by (intro exact_sequence_ex) auto
  have u: "unat (word_of_nat m :: u8) = m" "unat (word_of_nat ?lo :: u8) = ?lo"
    using assms(3) by (simp_all add: unat_of_nat_u8 del: of_nat_diff)
  have "(word_of_nat ?lo :: u8) \<le> word_of_nat m" using b(1) by (simp add: u8_le_nat u)
  then have "unat (word_of_nat m - word_of_nat ?lo :: u8) = m - ?lo" by (simp add: unat_sub u)
  with b show "unat (word_of_nat m - word_of_nat ?lo :: u8) + 1 = len" by simp
qed

lemma try_sequence_sound:
  assumes c: "length c = 15"
  shows "try_straight (sum_list c) c = Some p \<Longrightarrow> built KindStraight c p"
    and "try_consecutive_pairs (sum_list c) c = Some p \<Longrightarrow> built KindConsecutivePairs c p"
    and "try_airplane (sum_list c) c = Some p \<Longrightarrow> built KindAirplane c p"
proof -
  show "try_straight (sum_list c) c = Some p \<Longrightarrow> built KindStraight c p"
    by (auto simp: try_straight_def split: if_splits option.splits
        dest!: sequence_sound [OF c, rotated] intro!: builtI)
  show "try_consecutive_pairs (sum_list c) c = Some p \<Longrightarrow> built KindConsecutivePairs c p"
    by (auto simp: try_consecutive_pairs_def Let_def split: if_splits option.splits
        dest!: sequence_sound [OF c, rotated] intro!: builtI)
  show "try_airplane (sum_list c) c = Some p \<Longrightarrow> built KindAirplane c p"
    by (auto simp: try_airplane_def Let_def split: if_splits option.splits
        dest!: sequence_sound [OF c, rotated] intro!: builtI)
qed

lemma try_sequence_complete:
  assumes c: "length c = 15"
  shows "fits KindStraight m len c \<Longrightarrow> try_straight (sum_list c) c \<noteq> None"
    and "fits KindConsecutivePairs m len c \<Longrightarrow> try_consecutive_pairs (sum_list c) c \<noteq> None"
    and "fits KindAirplane m len c \<Longrightarrow> try_airplane (sum_list c) c \<noteq> None"
proof -
  assume f: "fits KindStraight m len c"
  then obtain lo hi where "exact_sequence c 1 = Some (lo, hi)" "unat (hi - lo) + 1 = len"
    using sequence_complete [OF c, of 1 m len] by auto
  then show "try_straight (sum_list c) c \<noteq> None"
    using f fits_cards [OF c f] by (simp add: try_straight_def)
next
  assume f: "fits KindConsecutivePairs m len c"
  then obtain lo hi where "exact_sequence c 2 = Some (lo, hi)" "unat (hi - lo) + 1 = len"
    using sequence_complete [OF c, of 2 m len] by auto
  then show "try_consecutive_pairs (sum_list c) c \<noteq> None"
    using f fits_cards [OF c f] by (simp add: try_consecutive_pairs_def)
next
  assume f: "fits KindAirplane m len c"
  then obtain lo hi where "exact_sequence c 3 = Some (lo, hi)" "unat (hi - lo) + 1 = len"
    using sequence_complete [OF c, of 3 m len] by auto
  then show "try_airplane (sum_list c) c \<noteq> None"
    using f fits_cards [OF c f] by (simp add: try_airplane_def)
qed

text \<open>The attempts built on \<open>airplaneBody\<close>.\<close>

lemma airplane_body_eq:
  assumes c: "length c = 15" and sum: "sum_list c = (if pairs then 5 else 4) * len" and len: "2 \<le> len"
  shows "airplane_body c len pairs =
    map_option (\<lambda>low. word_of_nat (low + len - 1)) (find (plane_at c len pairs) [0..<13 - len])"
proof -
  have "airplane_scan [0..<13 - len] c len pairs =
      map_option (\<lambda>low. word_of_nat (low + len - 1)) (find (plane_at c len pairs) [0..<13 - len])"
    by (rule airplane_scan_eq [OF c _ sum]) auto
  then show ?thesis using len by (simp only: airplane_body_def) simp
qed

lemma airplane_body_sound:
  assumes c: "length c = 15" and sum: "sum_list c = (if pairs then 5 else 4) * len"
    and some: "airplane_body c len pairs = Some hi"
  shows "2 \<le> len \<and> unat hi \<le> 11 \<and> len \<le> Suc (unat hi) \<and> plane_at c len pairs (Suc (unat hi) - len)"
proof -
  have len: "2 \<le> len" using some by (simp add: airplane_body_def split: if_splits)
  then have "map_option (\<lambda>low. word_of_nat (low + len - 1)) (find (plane_at c len pairs) [0..<13 - len]) = Some hi"
    using some by (simp only: airplane_body_eq [OF c sum len])
  then obtain low where "find (plane_at c len pairs) [0..<13 - len] = Some low" "hi = word_of_nat (low + len - 1)"
    by auto
  then have low: "low < 13 - len" "plane_at c len pairs low" "hi = word_of_nat (low + len - 1)"
    by (auto simp: find_Some_iff)
  have "low + len - 1 \<le> 11" using low(1) by linarith
  then have "unat hi = low + len - 1" by (simp only: low(3) unat_of_nat_u8)
  with low len show ?thesis by simp
qed

lemma airplane_body_complete:
  assumes c: "length c = 15" and sum: "sum_list c = (if pairs then 5 else 4) * len"
    and "2 \<le> len" and "m \<le> 11" and "len \<le> Suc m" and p: "plane_at c len pairs (Suc m - len)"
  shows "airplane_body c len pairs \<noteq> None"
proof -
  have "Suc m - len \<in> set [0..<13 - len]" using assms by auto
  then have "find (plane_at c len pairs) [0..<13 - len] \<noteq> None" using p by (auto simp: find_None_iff)
  then show ?thesis by (simp only: airplane_body_eq [OF c sum assms(3)]) simp
qed


lemma try_airplane_sound:
  assumes c: "length c = 15"
  shows "try_airplane_singles (sum_list c) c = Some p \<Longrightarrow> built KindAirplaneWithSingles c p"
    and "try_airplane_pairs (sum_list c) c = Some p \<Longrightarrow> built KindAirplaneWithPairs c p"
proof -
  assume a: "try_airplane_singles (sum_list c) c = Some p"
  let ?len = "sum_list c div 4"
  from a obtain hi where hi: "airplane_body c ?len False = Some hi" and m: "sum_list c mod 4 = 0"
    and p: "p = mk_pattern KindAirplaneWithSingles hi ?len (sum_list c)"
    by (auto simp: try_airplane_singles_def Let_def split: if_splits)
  have sum: "sum_list c = 4 * ?len" using m by auto
  then show "built KindAirplaneWithSingles c p"
    using airplane_body_sound [OF c _ hi] p by (intro builtI [where m = hi and len = ?len]) simp_all
next
  assume a: "try_airplane_pairs (sum_list c) c = Some p"
  let ?len = "sum_list c div 5"
  from a obtain hi where hi: "airplane_body c ?len True = Some hi" and m: "sum_list c mod 5 = 0"
    and p: "p = mk_pattern KindAirplaneWithPairs hi ?len (sum_list c)"
    by (auto simp: try_airplane_pairs_def Let_def split: if_splits)
  have sum: "sum_list c = 5 * ?len" using m by auto
  then show "built KindAirplaneWithPairs c p"
    using airplane_body_sound [OF c _ hi] p by (intro builtI [where m = hi and len = ?len]) simp_all
qed

lemma try_airplane_complete:
  assumes c: "length c = 15"
  shows "fits KindAirplaneWithSingles m len c \<Longrightarrow> try_airplane_singles (sum_list c) c \<noteq> None"
    and "fits KindAirplaneWithPairs m len c \<Longrightarrow> try_airplane_pairs (sum_list c) c \<noteq> None"
proof -
  assume f: "fits KindAirplaneWithSingles m len c"
  then have "airplane_body c len False \<noteq> None" by (intro airplane_body_complete [OF c, where m = m]) auto
  then show "try_airplane_singles (sum_list c) c \<noteq> None" using f by (simp add: try_airplane_singles_def)
next
  assume f: "fits KindAirplaneWithPairs m len c"
  then have "airplane_body c len True \<noteq> None" by (intro airplane_body_complete [OF c, where m = m]) auto
  then show "try_airplane_pairs (sum_list c) c \<noteq> None" using f by (simp add: try_airplane_pairs_def)
qed

subsection \<open>Soundness and completeness of Analyze\<close>

lemma first_some_None: "first_some xs = None \<longleftrightarrow> set xs \<subseteq> {None}"
  by (induction xs rule: first_some.induct) auto

lemma try_rocket_built: "try_rocket (sum_list c) c = Some p \<Longrightarrow> built KindRocket c p"
  by (auto simp: try_rocket_def split: if_splits intro!: builtI [where len = 1])

lemma length_analyze_blocks [simp]: "length (analyze_blocks n c) = 11"
  by (simp add: analyze_blocks_def)

lemma analyze_blocks_nth:
  "analyze_blocks n c ! 0 = try_rocket n c"
  "analyze_blocks n c ! 1 = try_same_rank n c"
  "analyze_blocks n c ! 2 = try_triple_single n c"
  "analyze_blocks n c ! 3 = try_triple_pair n c"
  "analyze_blocks n c ! 4 = try_straight n c"
  "analyze_blocks n c ! 5 = try_consecutive_pairs n c"
  "analyze_blocks n c ! 6 = try_airplane n c"
  "analyze_blocks n c ! 7 = try_airplane_singles n c"
  "analyze_blocks n c ! 8 = try_airplane_pairs n c"
  "analyze_blocks n c ! 9 = try_four_singles n c"
  "analyze_blocks n c ! 10 = try_four_pairs n c"
  by (simp_all add: analyze_blocks_def)

lemma attempt_complete:
  assumes c: "length c = 15" and f: "fits k m len c"
  shows "analyze_blocks (sum_list c) c ! attempt k \<noteq> None"
  using f try_same_rank_complete [OF c, of m 1] try_same_rank_complete [OF c, of m 2]
    try_same_rank_complete [OF c, of m 3] try_same_rank_complete [OF c, of m 4] try_count_complete [OF c, of m len]
    try_sequence_complete [OF c, of m len] try_airplane_complete [OF c, of m len]
  by (cases k) (simp_all only: attempt.simps analyze_blocks_nth fits.simps try_rocket_def, simp_all)

lemma attempt_less: "fits k m len c \<Longrightarrow> attempt k < 11"
  by (cases k) auto

lemma attempt_sound:
  assumes c: "length c = 15" and "i < 11" and s: "analyze_blocks (sum_list c) c ! i = Some p"
  shows "\<exists>k. built k c p \<and> attempt k = i"
proof -
  have "i = 0 \<or> i = 1 \<or> i = 2 \<or> i = 3 \<or> i = 4 \<or> i = 5 \<or> i = 6 \<or> i = 7 \<or> i = 8 \<or> i = 9 \<or> i = 10"
    using assms(2) by presburger
  then consider "i = 0" | "i = 1" | "i = 2" | "i = 3" | "i = 4" | "i = 5" | "i = 6" | "i = 7" | "i = 8" | "i = 9" | "i = 10"
    by blast
  then show ?thesis
    using s try_rocket_built [of c p] try_same_rank_sound [OF c, of p] try_count_sound [OF c, of p]
      try_sequence_sound [OF c, of p] try_airplane_sound [OF c, of p]
    by cases (simp_all only: analyze_blocks_nth, (metis attempt.simps)+)
qed

lemma first_some_iff:
  "first_some xs = Some p \<longleftrightarrow> (\<exists>i<length xs. xs ! i = Some p \<and> (\<forall>j<i. xs ! j = None))"
proof (induction xs rule: first_some.induct)
  case (2 xs)
  show ?case
  proof
    assume "first_some (None # xs) = Some p"
    then obtain i where "i < length xs" "xs ! i = Some p" "\<forall>j<i. xs ! j = None" using 2 by auto
    then show "\<exists>i<length (None # xs). (None # xs) ! i = Some p \<and> (\<forall>j<i. (None # xs) ! j = None)"
      by (intro exI [of _ "Suc i"]) (auto simp: nth_Cons split: nat.splits)
  next
    assume "\<exists>i<length (None # xs). (None # xs) ! i = Some p \<and> (\<forall>j<i. (None # xs) ! j = None)"
    then obtain i where i: "i < Suc (length xs)" "(None # xs) ! i = Some p" "\<forall>j<i. (None # xs) ! j = None" by auto
    then obtain i' where "i = Suc i'" by (cases i) auto
    with i have "i' < length xs" "xs ! i' = Some p" "\<forall>j<i'. xs ! j = None" by auto
    then show "first_some (None # xs) = Some p" using 2 by auto
  qed
next
  case (3 x xs)
  have "i = 0" if "\<forall>j<i. (Some x # xs) ! j = None" for i
    using that by (cases i) force+
  then show ?case by force
qed simp

lemma blocks_sound:
  assumes c: "length c = 15" and "first_some (analyze_blocks (sum_list c) c) = Some p"
  shows "\<exists>k. built k c p"
  using assms(2) unfolding first_some_iff length_analyze_blocks by (blast dest: attempt_sound [OF c])

lemma blocks_complete:
  assumes c: "length c = 15" and f: "fits k m len c"
  shows "first_some (analyze_blocks (sum_list c) c) \<noteq> None"
proof -
  have "analyze_blocks (sum_list c) c ! attempt k \<in> set (analyze_blocks (sum_list c) c)"
    using attempt_less [OF f] by simp
  then show ?thesis using attempt_complete [OF assms] by (auto simp: first_some_None)
qed

lemma built_valid:
  assumes c: "length c = 15" and b: "built k c p" and n: "sum_list c \<le> 20" "0 < sum_list c"
    and four: "\<forall>s<15. c ! s \<le> (if s < 13 then 4 else 1)"
  shows "validate_pattern p = Inr () \<and> pat_kind p = k \<and> unat (pat_cards p) = sum_list c \<and>
    fits k (unat (pat_main p)) (unat (pat_seqlen p)) c"
proof -
  obtain m len where m: "m < 15" "p = mk_pattern k (word_of_nat m) len (kind_cards k len)" "fits k m len c"
    using b unfolding built_def by blast
  have kc: "kind_cards k len = sum_list c" using fits_cards [OF c m(3)] by simp
  have len: "1 \<le> len" "len \<le> 12" using m(3) by (cases k; auto simp: block_only_def)+
  have u: "unat (word_of_nat m :: u8) = m" "unat (word_of_nat len :: u8) = len"
      "unat (word_of_nat (kind_cards k len) :: u8) = sum_list c"
    using m(1) len n(1) by (simp_all add: unat_of_nat_u8 kc)
  have lm: "len \<le> Suc m" using m(3) by (cases k) (auto simp: block_only_def)
  have ord: "m < 13" if "2 \<le> c ! m" using four m(1) that by (cases "m < 13") auto
  show ?thesis
    using m(3) u len n kc ord lm
    unfolding m(2) validate_pattern_def valid_pattern_structure_def mk_pattern_def Let_def
    by (cases k) (auto simp: u8_nat block_only_single simp del: One_nat_def of_nat_mult sum_list_eq_0_iff)
qed


text \<open>No rank holds more cards than the deck has.\<close>

lemma rank_table_bound:
  assumes "\<forall>c \<in> set cards. card_valid c" and "distinct cards" and "s < 15"
  shows "rank_table cards ! s \<le> (if s < 13 then 4 else 1)"
proof -
  have d: "distinct (filter (\<lambda>c. rank_of c = s) cards)" using assms(2) by simp
  have u: "unat c < 54" if "c \<in> set cards" for c
    using assms(1) that by (simp add: card_valid_def deck_size_def)
  have inj: "inj_on (unat :: card \<Rightarrow> nat) X" for X by (rule inj_onI) (simp add: word_unat_eq_iff)
  have sub: "unat ` set (filter (\<lambda>c. rank_of c = s) cards) \<subseteq>
      (if s < 13 then {4 * s..<4 * s + 4} else {39 + s})"
    using u assms(3) by (fastforce simp: rank_of_def u8_nat split: if_splits)
  have "card (unat ` set (filter (\<lambda>c. rank_of c = s) cards)) \<le>
      card (if s < 13 then {4 * s..<4 * s + 4} else {39 + s})"
    by (rule card_mono [OF _ sub]) simp
  then have "length (filter (\<lambda>c. rank_of c = s) cards) \<le> (if s < 13 then 4 else 1)"
    unfolding card_image [OF inj] distinct_card [OF d] by (simp split: if_splits)
  then show ?thesis using assms(3) by (simp add: rank_table_nth)
qed

definition playable :: "card list \<Rightarrow> bool" where
  "playable cards \<longleftrightarrow> (\<forall>c \<in> set cards. card_valid c) \<and> distinct cards \<and>
     1 \<le> length cards \<and> length cards \<le> 20"

lemma analyze_playable:
  "analyze cards = (if playable cards then
      (case first_some (analyze_blocks (sum_list (rank_table cards)) (rank_table cards)) of
         Some p \<Rightarrow> Inr p | None \<Rightarrow> Inl (Pattern_Err InvalidPattern))
    else Inl (Pattern_Err InvalidPattern))"
  by (auto simp: analyze_def playable_def rank_counts_eq sum_list_rank_table Suc_le_eq)

lemma analyze_sound_facts:
  assumes "analyze cards = Inr p"
  shows "playable cards" and "fits (pat_kind p) (unat (pat_main p)) (unat (pat_seqlen p)) (rank_table cards)"
    and "unat (pat_cards p) = length cards" and "validate_pattern p = Inr ()"
proof -
  have pl: "playable cards" and fs: "first_some (analyze_blocks (sum_list (rank_table cards)) (rank_table cards)) = Some p"
    using assms by (auto simp: analyze_playable split: if_splits option.splits)
  then have v: "\<forall>c \<in> set cards. card_valid c" "distinct cards" "1 \<le> length cards" "length cards \<le> 20"
    by (simp_all add: playable_def)
  obtain k where k: "built k (rank_table cards) p" using blocks_sound [OF length_rank_table fs] by blast
  have s: "sum_list (rank_table cards) = length cards" by (rule sum_list_rank_table [OF v(1)])
  have n: "sum_list (rank_table cards) \<le> 20" "0 < sum_list (rank_table cards)"
    unfolding s using v by linarith+
  have "\<forall>s<15. rank_table cards ! s \<le> (if s < 13 then 4 else 1)"
    using rank_table_bound [OF v(1,2)] by blast
  from built_valid [OF length_rank_table k n this]
  show "fits (pat_kind p) (unat (pat_main p)) (unat (pat_seqlen p)) (rank_table cards)"
    "unat (pat_cards p) = length cards" "validate_pattern p = Inr ()"
    by (simp_all add: s)
  show "playable cards" by (rule pl)
qed

text \<open>C30: every pattern that \<open>Analyze\<close> reports is in the table of legal patterns for exactly these
  cards: its kind, main rank and sequence length fit the rank table, its card count is the number
  of cards played, and it passes the structural check that \<open>CanBeat\<close> makes on every pattern.\<close>

theorem analyze_sound:
  assumes "analyze cards = Inr p"
  shows "playable cards \<and>
    fits (pat_kind p) (unat (pat_main p)) (unat (pat_seqlen p)) (rank_table cards) \<and>
    unat (pat_cards p) = length cards \<and> validate_pattern p = Inr ()"
  using analyze_sound_facts [OF assms] by blast

lemma analyze_fits:
  "(\<exists>p. analyze cards = Inr p) \<longleftrightarrow> playable cards \<and> (\<exists>k m len. fits k m len (rank_table cards))"
proof
  assume "\<exists>p. analyze cards = Inr p"
  then show "playable cards \<and> (\<exists>k m len. fits k m len (rank_table cards))"
    using analyze_sound_facts(1,2) by blast
next
  assume "playable cards \<and> (\<exists>k m len. fits k m len (rank_table cards))"
  then show "\<exists>p. analyze cards = Inr p"
    using blocks_complete [OF length_rank_table] by (fastforce simp: analyze_playable split: option.splits)
qed

subsection \<open>Which row Analyze reports\<close>

text \<open>
  Some card sets fit several rows: \<open>333444555666\<close> is an airplane of length four, and an airplane of
  length three with three single wings for the main rank five and for the main rank six.
  \<open>preferred c k m len\<close> names the row that is reported then: its kind comes first in the order of the
  attempts, and its main rank is the lowest that fits that kind.
\<close>

definition preferred :: "nat list \<Rightarrow> kind \<Rightarrow> nat \<Rightarrow> nat \<Rightarrow> bool" where
  "preferred c k m len \<longleftrightarrow> fits k m len c \<and>
     (\<forall>k' m' len'. fits k' m' len' c \<longrightarrow> attempt k < attempt k' \<or> k = k' \<and> len = len' \<and> m \<le> m')"

lemma preferred_unique:
  "preferred c k m len \<Longrightarrow> preferred c k' m' len' \<Longrightarrow> k = k' \<and> m = m' \<and> len = len'"
  unfolding preferred_def by (metis le_antisym less_asym less_irrefl)

lemma block_only_main:
  assumes "m < 15" "m' < 15" "0 < w" "block_only c m len w" "block_only c m' len' w"
  shows "m = m'"
proof -
  have at: "c ! m = (if Suc m' - len' \<le> m \<and> m \<le> m' then w else 0)" "c ! m' = (if Suc m - len \<le> m' \<and> m' \<le> m then w else 0)"
    using assms by (simp_all add: block_only_def)
  have "c ! m = w" using assms(1,4) by (auto simp: block_only_def)
  moreover have "c ! m' = w" using assms(2,5) by (auto simp: block_only_def)
  ultimately show ?thesis using at assms(3) by (simp split: if_splits)
qed

lemma fits_main:
  assumes c: "length c = 15" and f: "fits k m len c" "fits k m' len' c"
    and k: "k \<noteq> KindAirplaneWithSingles" "k \<noteq> KindAirplaneWithPairs"
  shows "m = m'"
proof (rule ccontr)
  assume ne: "m \<noteq> m'"
  have m: "m < 15" "m' < 15" using f by (cases k; simp)+
  have b: "\<not> block_only c m' l' w" if "block_only c m l w" "0 < w" for l l' w
    using block_only_main [OF m that(2,1)] ne by blast
  have two: "c ! m + c ! m' \<le> sum_list c" using sum_part_le [of "{m, m'}" c] c m ne by simp
  have three: "10 \<le> sum_list c" if h: "2 \<in> set c" "c ! m = 4" "c ! m' = 4"
  proof -
    obtain q where "q < 15" "c ! q = 2" using h(1) c by (auto simp: in_set_conv_nth)
    then show ?thesis using sum_part_le [of "{m, m', q}" c] c m ne h by (cases "q = m"; cases "q = m'") auto
  qed
  have "2 \<in> set c" if "count_ranks c 2 = 2" using that by (simp flip: count_ranks_pos_set)
  with f k b two three ne show False by (cases k) auto
qed

lemma fits_len:
  assumes c: "length c = 15" and f: "fits k m len c" "fits k m' len' c"
  shows "len = len'"
  using fits_cards [OF c f(1)] fits_cards [OF c f(2)] f by (cases k) auto

lemma fits_attempt:
  assumes c: "length c = 15" and f: "fits k m len c" "fits k' m' len' c" and "attempt k = attempt k'"
  shows "k = k'"
  using fits_cards [OF c f(1)] fits_cards [OF c f(2)] assms by (cases k; cases k') simp_all

lemma airplane_body_lowest:
  assumes c: "length c = 15" and sum: "sum_list c = (if pairs then 5 else 4) * len" and len: "2 \<le> len"
    and some: "airplane_body c len pairs = Some hi"
    and m: "m \<le> 11" "len \<le> Suc m" "plane_at c len pairs (Suc m - len)"
  shows "unat hi \<le> m"
proof -
  from some obtain low where low: "find (plane_at c len pairs) [0..<13 - len] = Some low" "hi = word_of_nat (low + len - 1)"
    unfolding airplane_body_eq [OF c sum len] by auto
  then have l: "low < 13 - len" "\<forall>j<low. \<not> plane_at c len pairs j" by (auto simp: find_Some_iff)
  have "low \<le> Suc m - len" using l(2) m(3) by (meson not_le)
  moreover have "low + len - 1 \<le> 11" using l(1) by linarith
  then have "unat hi = low + len - 1" by (simp only: low(2) unat_of_nat_u8)
  ultimately show ?thesis using m(2) by linarith
qed

lemma airplane_lowest:
  assumes c: "length c = 15" and p: "analyze_blocks (sum_list c) c ! attempt k = Some p"
    and k: "k = KindAirplaneWithSingles \<or> k = KindAirplaneWithPairs" and f: "fits k m len c"
  shows "unat (pat_main p) \<le> m"
  using k
proof
  assume k1: "k = KindAirplaneWithSingles"
  have "airplane_body c len False = Some (pat_main p)"
    using p f unfolding k1 attempt.simps analyze_blocks_nth by (auto simp: try_airplane_singles_def mk_pattern_def)
  from airplane_body_lowest [OF c _ _ this, of m] f k1 show ?thesis by simp
next
  assume k1: "k = KindAirplaneWithPairs"
  have "airplane_body c len True = Some (pat_main p)"
    using p f unfolding k1 attempt.simps analyze_blocks_nth by (auto simp: try_airplane_pairs_def mk_pattern_def)
  from airplane_body_lowest [OF c _ _ this, of m] f k1 show ?thesis by simp
qed

lemma blocks_preferred:
  assumes c: "length c = 15" and fs: "first_some (analyze_blocks (sum_list c) c) = Some p"
    and n: "sum_list c \<le> 20" "0 < sum_list c" and four: "\<forall>s<15. c ! s \<le> (if s < 13 then 4 else 1)"
  shows "preferred c (pat_kind p) (unat (pat_main p)) (unat (pat_seqlen p))"
proof -
  obtain i where i: "i < 11" "analyze_blocks (sum_list c) c ! i = Some p" "\<forall>j<i. analyze_blocks (sum_list c) c ! j = None"
    using fs unfolding first_some_iff length_analyze_blocks by blast
  obtain k where b: "built k c p" and at: "attempt k = i" using attempt_sound [OF c i(1,2)] by blast
  have k: "pat_kind p = k" and f: "fits k (unat (pat_main p)) (unat (pat_seqlen p)) c"
    using built_valid [OF c b n four] by simp_all
  have "attempt k < attempt k' \<or> k = k' \<and> unat (pat_seqlen p) = len' \<and> unat (pat_main p) \<le> m'"
    if f': "fits k' m' len' c" for k' m' len'
  proof -
    have "\<not> attempt k' < i"
    proof
      assume "attempt k' < i"
      then have "analyze_blocks (sum_list c) c ! attempt k' = None" by (rule i(3) [rule_format])
      with attempt_complete [OF c f'] show False by contradiction
    qed
    then consider "i < attempt k'" | "attempt k = attempt k'" using at by linarith
    then show ?thesis
    proof cases
      case 2
      then have kk: "k = k'" by (rule fits_attempt [OF c f f'])
      have "unat (pat_main p) \<le> m'"
      proof (cases "k = KindAirplaneWithSingles \<or> k = KindAirplaneWithPairs")
        case True
        have "analyze_blocks (sum_list c) c ! attempt k = Some p" unfolding at by (rule i(2))
        from airplane_lowest [OF c this True, of m' len'] f' kk show ?thesis by blast
      next
        case False
        then have "unat (pat_main p) = m'" using fits_main [OF c f, of m' len'] f' kk by blast
        then show ?thesis by simp
      qed
      then show ?thesis using fits_len [OF c f] f' kk by blast
    qed (use at in simp)
  qed
  with f show ?thesis unfolding preferred_def k by blast
qed

lemma analyze_preferred:
  assumes "analyze cards = Inr p"
  shows "preferred (rank_table cards) (pat_kind p) (unat (pat_main p)) (unat (pat_seqlen p))"
proof -
  have pl: "playable cards" and fs: "first_some (analyze_blocks (sum_list (rank_table cards)) (rank_table cards)) = Some p"
    using assms by (auto simp: analyze_playable split: if_splits option.splits)
  then have v: "\<forall>c \<in> set cards. card_valid c" "distinct cards" "1 \<le> length cards" "length cards \<le> 20"
    by (simp_all add: playable_def)
  have "\<forall>s<15. rank_table cards ! s \<le> (if s < 13 then 4 else 1)"
    using rank_table_bound [OF v(1,2)] by blast
  moreover have "sum_list (rank_table cards) \<le> 20" "0 < sum_list (rank_table cards)"
    unfolding sum_list_rank_table [OF v(1)] using v(3,4) by linarith+
  ultimately show ?thesis by (intro blocks_preferred [OF length_rank_table fs])
qed

lemma validate_pattern_Inr:
  "validate_pattern v = Inr () \<longleftrightarrow> pat_version v = rules_version \<and> known_kind (pat_kind v) \<and>
     pat_seqlen v \<noteq> 0 \<and> pat_cards v \<noteq> 0 \<and> pat_main v \<le> rank_big_joker \<and> valid_pattern_structure v"
  by (auto simp: validate_pattern_def)

text \<open>C17: what \<open>Analyze\<close> returns. It is exactly the row of the table of legal patterns that is preferred
  for the rank table of one to twenty distinct physical cards: kind, main rank and sequence length are those
  of the row, the card count is the number of cards, the version that of the rules; and where no row fits, or
  the cards are not playable, there is no such pattern and \<open>Analyze\<close> fails.\<close>

theorem analyze_complete:
  "(analyze cards = Inr p) = (playable cards \<and>
    preferred (rank_table cards) (pat_kind p) (unat (pat_main p)) (unat (pat_seqlen p)) \<and>
    unat (pat_cards p) = length cards \<and> pat_version p = rules_version) \<and>
   ((\<exists>q. analyze cards = Inr q) = (playable cards \<and> (\<exists>k m len. fits k m len (rank_table cards))))"
proof -
  have fwd: "playable cards \<and> preferred (rank_table cards) (pat_kind q) (unat (pat_main q)) (unat (pat_seqlen q)) \<and>
      unat (pat_cards q) = length cards \<and> pat_version q = rules_version" if "analyze cards = Inr q" for q
    using analyze_sound_facts [OF that] analyze_preferred [OF that] by (simp add: validate_pattern_Inr)
  have "analyze cards = Inr p" if pl: "playable cards"
      and pr: "preferred (rank_table cards) (pat_kind p) (unat (pat_main p)) (unat (pat_seqlen p))"
      and rest: "unat (pat_cards p) = length cards" "pat_version p = rules_version"
  proof -
    obtain q where q: "analyze cards = Inr q" using analyze_fits pl pr unfolding preferred_def by blast
    have "q = p"
      using preferred_unique [OF conjunct1 [OF conjunct2 [OF fwd [OF q]]] pr] fwd [OF q] rest
      by (cases q; cases p) (simp add: word_unat_eq_iff)
    with q show ?thesis by simp
  qed
  with fwd analyze_fits show ?thesis by blast
qed

text \<open>The pattern \<open>33344455\<close> of the rules document: an airplane whose two wings are one pair of fives.\<close>

lemma analyze_33344455:
  "analyze [0, 1, 2, 4, 5, 6, 8, 9] = Inr (mk_pattern KindAirplaneWithSingles 1 2 8)"
  by code_simp

theorem analyze_sound_witness:
  "playable [0, 1, 2, 4, 5, 6, 8, 9] \<and> fits KindAirplaneWithSingles 1 2 (rank_table [0, 1, 2, 4, 5, 6, 8, 9])"
  using analyze_sound [OF analyze_33344455] by (simp add: mk_pattern_def)

section \<open>Comparison of patterns\<close>

text \<open>The comparison rules as a table: rockets above bombs above all other patterns; within
  one tier only patterns of one kind, length and card count compare, by main rank.\<close>

fun tier :: "kind \<Rightarrow> nat" where
  "tier KindRocket = 2"
| "tier KindBomb = 1"
| "tier _ = 0"

definition stronger :: "pattern \<Rightarrow> pattern \<Rightarrow> bool" where
  "stronger a b \<longleftrightarrow> tier (pat_kind b) < tier (pat_kind a) \<or>
     pat_kind a = pat_kind b \<and> pat_seqlen a = pat_seqlen b \<and> pat_cards a = pat_cards b \<and>
     pat_main b < pat_main a"

lemma tier_cases: "tier k = 0 \<longleftrightarrow> k \<noteq> KindRocket \<and> k \<noteq> KindBomb"
    "tier k = 1 \<longleftrightarrow> k = KindBomb" "tier k = 2 \<longleftrightarrow> k = KindRocket" "tier k \<le> 2"
  by (cases k; simp)+

lemma can_beat_valid:
  assumes "validate_pattern a = Inr ()" and "validate_pattern b = Inr ()"
  shows "can_beat a b = Inr (stronger a b)"
proof -
  have r: "pat_kind v = KindRocket \<Longrightarrow> pat_main v = rank_big_joker"
    and bomb: "pat_kind v = KindBomb \<Longrightarrow> pat_seqlen v = 1 \<and> pat_cards v = 4"
    if "validate_pattern v = Inr ()" for v
    using that by (auto simp: validate_pattern_Inr valid_pattern_structure_def Let_def u8_eq_nat)
  show ?thesis
    using assms r [OF assms(1)] r [OF assms(2)] bomb [OF assms(1)] bomb [OF assms(2)]
    by (cases "pat_kind a"; cases "pat_kind b") (auto simp: can_beat_def stronger_def)
qed

lemma can_beat_True:
  "can_beat a b = Inr True \<longleftrightarrow>
    validate_pattern a = Inr () \<and> validate_pattern b = Inr () \<and> stronger a b"
proof (cases "validate_pattern a = Inr () \<and> validate_pattern b = Inr ()")
  case True
  then show ?thesis by (simp add: can_beat_valid)
next
  case False
  then have "\<not> (\<exists>x. can_beat a b = Inr x)" by (auto simp: can_beat_def rbind_eq_Inr)
  with False show ?thesis by blast
qed

lemma stronger_asym: "stronger a b \<Longrightarrow> \<not> stronger b a"
  by (auto simp: stronger_def)

lemma stronger_trans: "stronger a b \<Longrightarrow> stronger b c \<Longrightarrow> stronger a c"
  by (auto simp: stronger_def)

text \<open>Comparison never rejects what \<open>Analyze\<close> recognised, and follows the comparison rules:
  a rocket beats everything else, a bomb every ordinary pattern, and otherwise only a pattern of
  the same kind, sequence length and card count with a higher main rank wins.\<close>

theorem can_beat_analyzed:
  assumes "analyze xs = Inr p" and "analyze ys = Inr q"
  shows "can_beat p q = Inr (tier (pat_kind q) < tier (pat_kind p) \<or>
    pat_kind p = pat_kind q \<and> pat_seqlen p = pat_seqlen q \<and> length xs = length ys \<and>
    pat_main q < pat_main p)"
proof -
  have "validate_pattern p = Inr ()" "unat (pat_cards p) = length xs"
    using analyze_sound_facts [OF assms(1)] by simp_all
  moreover have "validate_pattern q = Inr ()" "unat (pat_cards q) = length ys"
    using analyze_sound_facts [OF assms(2)] by simp_all
  ultimately show ?thesis by (simp add: can_beat_valid stronger_def u8_eq_nat)
qed

lemma analyze_pair_3: "analyze [0, 1] = Inr (mk_pattern KindPair 0 1 2)"
  by code_simp

lemma analyze_bomb_5: "analyze [8, 9, 10, 11] = Inr (mk_pattern KindBomb 2 1 4)"
  by code_simp

theorem can_beat_analyzed_witness:
  "can_beat (mk_pattern KindBomb 2 1 4) (mk_pattern KindPair 0 1 2) = Inr True"
  using can_beat_analyzed [OF analyze_bomb_5 analyze_pair_3] by (simp add: mk_pattern_def)

text \<open>C29: beating is a strict partial order: a winner over a winner wins, and no pattern is
  beaten by one that it beats (so no cycle of plays can arise within a trick).\<close>

theorem can_beat_strict_order:
  assumes "can_beat a b = Inr True" and "can_beat b c = Inr True"
  shows "can_beat a c = Inr True \<and> can_beat b a = Inr False \<and> can_beat c a = Inr False"
proof -
  have v: "validate_pattern a = Inr ()" "validate_pattern b = Inr ()" "validate_pattern c = Inr ()"
      and s: "stronger a b" "stronger b c"
    using assms by (simp_all add: can_beat_True)
  then have "stronger a c" using stronger_trans by blast
  then show ?thesis using v s stronger_asym by (simp add: can_beat_valid)
qed

theorem can_beat_strict_order_witness:
  "can_beat (mk_pattern KindRocket 14 1 2) (mk_pattern KindSingle 0 1 1) = Inr True"
proof -
  have "can_beat (mk_pattern KindRocket 14 1 2) (mk_pattern KindBomb 2 1 4) = Inr True"
      "can_beat (mk_pattern KindBomb 2 1 4) (mk_pattern KindSingle 0 1 1) = Inr True"
    by code_simp+
  from can_beat_strict_order [OF this] show ?thesis by simp
qed

end
