(* ===== verification/Playing.thy ===== *)
theory Playing
  imports Pattern
begin

text \<open>
  \<open>playing/state.go\<close>: the turn state of one hand (\<open>NewState\<close>, \<open>Play\<close>, \<open>Pass\<close>, \<open>Clone\<close>,
  \<open>Snapshot\<close>). The receiver is a pointer in Go, so an operation takes an option: \<open>None\<close> is the
  nil state, which every operation rejects. An operation that fails leaves the state as it was,
  so a result carries a new state only when it succeeds.
\<close>

section \<open>State\<close>

definition playing_state_version :: string where
  "playing_state_version = ''doudizhu-playing-state-v1''"

text \<open>Go's \<open>ActionType\<close> is a string; any string but the two constants is \<open>ActionOther\<close>.\<close>

datatype action_type = ActionPlay | ActionPass | ActionOther string

record action =
  act_number :: u64
  act_type :: action_type
  act_seat :: u8
  act_cards :: "card list"
  act_pattern :: "pattern option"

record pl_state =
  pl_revision :: u64
  pl_current :: u8
  pl_leading_seat :: u8
  pl_leading_cards :: "card list"
  pl_leading_pattern :: "pattern option"
  pl_pass_count :: u8
  pl_complete :: bool
  pl_winner :: u8
  pl_history :: "action list"

record pl_snapshot =
  ps_version :: string
  ps_revision :: u64
  ps_current :: u8
  ps_leading_seat :: u8
  ps_leading_cards :: "card list"
  ps_leading_pattern :: "pattern option"
  ps_pass_count :: u8
  ps_complete :: bool
  ps_winner :: u8
  ps_history :: "action list"

definition zero_state :: pl_state where
  "zero_state = \<lparr>pl_revision = 0, pl_current = 0, pl_leading_seat = 0, pl_leading_cards = [],
     pl_leading_pattern = None, pl_pass_count = 0, pl_complete = False, pl_winner = 0, pl_history = []\<rparr>"

definition valid_seat :: "u8 \<Rightarrow> bool" where
  "valid_seat seat \<longleftrightarrow> seat \<ge> 1 \<and> seat \<le> 3"

definition next_seat :: "u8 \<Rightarrow> u8" where
  "next_seat seat = seat mod 3 + 1"

section \<open>Operations\<close>

definition new_state :: "u8 \<Rightarrow> go_error + pl_state" where
  "new_state first =
     (if \<not> valid_seat first then Inl (Playing_Err InvalidSeat)
      else Inr (zero_state\<lparr>pl_current := first\<rparr>))"

definition clone_action :: "action \<Rightarrow> action" where
  "clone_action a =
     a\<lparr>act_cards := [] @ act_cards a,
       act_pattern := (case act_pattern a of None \<Rightarrow> None | Some p \<Rightarrow> Some p)\<rparr>"

definition pl_snapshot_of :: "pl_state option \<Rightarrow> pl_snapshot" where
  "pl_snapshot_of s =
     (case s of
        None \<Rightarrow> \<lparr>ps_version = playing_state_version, ps_revision = 0, ps_current = 0, ps_leading_seat = 0,
                 ps_leading_cards = [], ps_leading_pattern = None, ps_pass_count = 0,
                 ps_complete = False, ps_winner = 0, ps_history = []\<rparr>
      | Some st \<Rightarrow> \<lparr>ps_version = playing_state_version, ps_revision = pl_revision st,
                 ps_current = pl_current st, ps_leading_seat = pl_leading_seat st,
                 ps_leading_cards = pl_leading_cards st, ps_leading_pattern = pl_leading_pattern st,
                 ps_pass_count = pl_pass_count st, ps_complete = pl_complete st,
                 ps_winner = pl_winner st, ps_history = map clone_action (pl_history st)\<rparr>)"

definition pl_clone :: "pl_state option \<Rightarrow> pl_state option" where
  "pl_clone s =
     (case s of
        None \<Rightarrow> None
      | Some st \<Rightarrow> Some \<lparr>pl_revision = pl_revision st, pl_current = pl_current st,
                 pl_leading_seat = pl_leading_seat st, pl_leading_cards = pl_leading_cards st,
                 pl_leading_pattern = pl_leading_pattern st, pl_pass_count = pl_pass_count st,
                 pl_complete = pl_complete st, pl_winner = pl_winner st,
                 pl_history = map clone_action (pl_history st)\<rparr>)"

text \<open>\<open>validateActor\<close>; on success it hands on the state behind the receiver.\<close>

definition validate_actor :: "pl_state option \<Rightarrow> u8 \<Rightarrow> go_error + pl_state" where
  "validate_actor s seat =
     (case s of
        None \<Rightarrow> Inl (Playing_Err PlayingComplete)
      | Some st \<Rightarrow>
          if \<not> valid_seat seat then Inl (Playing_Err InvalidSeat)
          else if pl_complete st then Inl (Playing_Err PlayingComplete)
          else if seat \<noteq> pl_current st then Inl (Playing_Err WrongTurn)
          else Inr st)"

definition beats_leader :: "pl_state \<Rightarrow> pattern \<Rightarrow> go_error + unit" where
  "beats_leader st candidate =
     (case pl_leading_pattern st of
        None \<Rightarrow> Inr ()
      | Some leader \<Rightarrow>
          rbind (can_beat candidate leader) (\<lambda>beats.
            if \<not> beats then Inl (Playing_Err DoesNotBeat) else Inr ()))"

text \<open>What \<open>Play\<close> and \<open>Pass\<close> write once their checks have passed.\<close>

definition record_play :: "pl_state \<Rightarrow> u8 \<Rightarrow> card list \<Rightarrow> pattern \<Rightarrow> bool \<Rightarrow> pl_state" where
  "record_play st seat cards candidate hand_empty =
     (let revision = pl_revision st + 1;
          entry = \<lparr>act_number = revision, act_type = ActionPlay, act_seat = seat,
                   act_cards = cards, act_pattern = Some candidate\<rparr>;
          st1 = st\<lparr>pl_revision := revision, pl_history := pl_history st @ [entry],
                   pl_leading_seat := seat, pl_leading_cards := cards,
                   pl_leading_pattern := Some candidate, pl_pass_count := 0\<rparr>
      in if hand_empty then st1\<lparr>pl_complete := True, pl_winner := seat, pl_current := 0\<rparr>
         else st1\<lparr>pl_current := next_seat seat\<rparr>)"

definition record_pass :: "pl_state \<Rightarrow> u8 \<Rightarrow> pl_state" where
  "record_pass st seat =
     (let revision = pl_revision st + 1;
          entry = \<lparr>act_number = revision, act_type = ActionPass, act_seat = seat,
                   act_cards = [], act_pattern = None\<rparr>;
          st1 = st\<lparr>pl_revision := revision, pl_history := pl_history st @ [entry],
                   pl_pass_count := pl_pass_count st + 1\<rparr>
      in if pl_pass_count st1 = 2
         then st1\<lparr>pl_current := pl_leading_seat st1, pl_leading_seat := 0,
                  pl_leading_cards := [], pl_leading_pattern := None, pl_pass_count := 0\<rparr>
         else st1\<lparr>pl_current := next_seat seat\<rparr>)"

definition play :: "pl_state option \<Rightarrow> u8 \<Rightarrow> card list \<Rightarrow> bool \<Rightarrow> go_error + pl_state \<times> pl_snapshot" where
  "play s seat cards hand_empty =
     rbind (validate_actor s seat) (\<lambda>st.
     rbind (analyze cards) (\<lambda>candidate.
     rbind (beats_leader st candidate) (\<lambda>_.
       let st' = record_play st seat cards candidate hand_empty
       in Inr (st', pl_snapshot_of (Some st')))))"

definition pass :: "pl_state option \<Rightarrow> u8 \<Rightarrow> go_error + pl_state \<times> pl_snapshot" where
  "pass s seat =
     rbind (validate_actor s seat) (\<lambda>st.
       if pl_leading_pattern st = None \<or> pl_leading_seat st = 0 then Inl (Playing_Err CannotPass)
       else let st' = record_pass st seat in Inr (st', pl_snapshot_of (Some st')))"

section \<open>Copies\<close>

lemma clone_action_eq [simp]: "clone_action a = a"
  by (cases "act_pattern a") (simp_all add: clone_action_def)

lemma map_clone_action [simp]: "map clone_action h = h"
  by (simp add: map_idI)

lemma pl_clone_eq [simp]: "pl_clone s = s"
  by (simp add: pl_clone_def split: option.split)

section \<open>Seats\<close>

lemma valid_seat_cases: "valid_seat s \<longleftrightarrow> s = 1 \<or> s = 2 \<or> s = 3"
proof
  assume "valid_seat s"
  then have "1 \<le> unat s" "unat s \<le> 3" by (simp_all add: valid_seat_def u8_le_nat)
  then have "unat s = 1 \<or> unat s = 2 \<or> unat s = 3" by linarith
  then show "s = 1 \<or> s = 2 \<or> s = 3" by (simp add: u8_eq_nat)
qed (auto simp: valid_seat_def)

lemma next_seat_values [simp]: "next_seat 1 = 2" "next_seat 2 = 3" "next_seat 3 = 1"
  by (simp_all add: next_seat_def)

lemma valid_next_seat: "valid_seat s \<Longrightarrow> valid_seat (next_seat s)"
  by (auto simp: valid_seat_cases)

lemma next_seat_cycle: "valid_seat s \<Longrightarrow> next_seat (next_seat (next_seat s)) = s"
  by (auto simp: valid_seat_cases)

lemma next_seat_neq: "valid_seat s \<Longrightarrow> next_seat s \<noteq> s \<and> next_seat (next_seat s) \<noteq> s"
  by (auto simp: valid_seat_cases)

section \<open>When an operation succeeds\<close>

lemma validate_actor_Inr [result_simps]:
  "validate_actor s seat = Inr st \<longleftrightarrow>
    s = Some st \<and> valid_seat seat \<and> \<not> pl_complete st \<and> seat = pl_current st"
  by (auto simp: validate_actor_def split: option.splits)

lemma beats_leader_Inr [result_simps]:
  "beats_leader st p = Inr u \<longleftrightarrow>
    (\<forall>q. pl_leading_pattern st = Some q \<longrightarrow> can_beat p q = Inr True)"
  by (auto simp: beats_leader_def rbind_eq_Inr split: option.splits)

lemma play_Inr:
  "play s seat cards e = Inr (st', v) \<longleftrightarrow> (\<exists>st p.
     s = Some st \<and> valid_seat seat \<and> \<not> pl_complete st \<and> seat = pl_current st \<and> analyze cards = Inr p \<and>
     (\<forall>q. pl_leading_pattern st = Some q \<longrightarrow> can_beat p q = Inr True) \<and>
     st' = record_play st seat cards p e \<and> v = pl_snapshot_of (Some st'))"
  by (auto simp: play_def rbind_eq_Inr validate_actor_Inr beats_leader_Inr Let_def)

lemma pass_Inr:
  "pass s seat = Inr (st', v) \<longleftrightarrow> (\<exists>st.
     s = Some st \<and> valid_seat seat \<and> \<not> pl_complete st \<and> seat = pl_current st \<and>
     pl_leading_pattern st \<noteq> None \<and> pl_leading_seat st \<noteq> 0 \<and>
     st' = record_pass st seat \<and> v = pl_snapshot_of (Some st'))"
  by (auto simp: pass_def rbind_eq_Inr validate_actor_Inr Let_def)

lemma record_play_sel [simp]:
  "pl_revision (record_play st seat cards p e) = pl_revision st + 1"
  "pl_current (record_play st seat cards p e) = (if e then 0 else next_seat seat)"
  "pl_leading_seat (record_play st seat cards p e) = seat"
  "pl_leading_cards (record_play st seat cards p e) = cards"
  "pl_leading_pattern (record_play st seat cards p e) = Some p"
  "pl_pass_count (record_play st seat cards p e) = 0"
  "pl_complete (record_play st seat cards p e) = (e \<or> pl_complete st)"
  "pl_winner (record_play st seat cards p e) = (if e then seat else pl_winner st)"
  "pl_history (record_play st seat cards p e) =
     pl_history st @ [\<lparr>act_number = pl_revision st + 1, act_type = ActionPlay, act_seat = seat,
       act_cards = cards, act_pattern = Some p\<rparr>]"
  by (simp_all add: record_play_def Let_def)

lemma record_pass_sel [simp]:
  "pl_revision (record_pass st seat) = pl_revision st + 1"
  "pl_current (record_pass st seat) = (if pl_pass_count st + 1 = 2 then pl_leading_seat st else next_seat seat)"
  "pl_leading_seat (record_pass st seat) = (if pl_pass_count st + 1 = 2 then 0 else pl_leading_seat st)"
  "pl_leading_cards (record_pass st seat) = (if pl_pass_count st + 1 = 2 then [] else pl_leading_cards st)"
  "pl_leading_pattern (record_pass st seat) = (if pl_pass_count st + 1 = 2 then None else pl_leading_pattern st)"
  "pl_pass_count (record_pass st seat) = (if pl_pass_count st + 1 = 2 then 0 else pl_pass_count st + 1)"
  "pl_complete (record_pass st seat) = pl_complete st"
  "pl_winner (record_pass st seat) = pl_winner st"
  "pl_history (record_pass st seat) =
     pl_history st @ [\<lparr>act_number = pl_revision st + 1, act_type = ActionPass, act_seat = seat,
       act_cards = [], act_pattern = None\<rparr>]"
  by (simp_all add: record_pass_def Let_def)

section \<open>Reachable states\<close>

text \<open>
  \<open>pl_reach first s\<close>: \<open>s\<close> is reached from \<open>NewState(first)\<close> by successful plays and passes. The
  flag of a play is the caller's: it says whether the play empties the actor's hand.
\<close>

inductive pl_reach :: "u8 \<Rightarrow> pl_state \<Rightarrow> bool" for first where
  reach_new: "new_state first = Inr s \<Longrightarrow> pl_reach first s"
| reach_play: "pl_reach first s \<Longrightarrow> play (Some s) seat cards e = Inr (s', v) \<Longrightarrow> pl_reach first s'"
| reach_pass: "pl_reach first s \<Longrightarrow> pass (Some s) seat = Inr (s', v) \<Longrightarrow> pl_reach first s'"

definition plays :: "action list \<Rightarrow> nat" where
  "plays h = length (filter (\<lambda>a. act_type a = ActionPlay) h)"

definition passes :: "action list \<Rightarrow> nat" where
  "passes h = length (filter (\<lambda>a. act_type a = ActionPass) h)"

lemma plays_append [simp]: "plays (h @ [a]) = plays h + (if act_type a = ActionPlay then 1 else 0)"
  by (simp add: plays_def)

lemma passes_append [simp]: "passes (h @ [a]) = passes h + (if act_type a = ActionPass then 1 else 0)"
  by (simp add: passes_def)

lemma plays_passes:
  "\<forall>a \<in> set h. act_type a = ActionPlay \<or> act_type a = ActionPass \<Longrightarrow> plays h + passes h = length h"
proof (induction h)
  case (Cons a h)
  then show ?case by (cases "act_type a") (simp_all add: plays_def passes_def)
qed (simp add: plays_def passes_def)

text \<open>What \<open>Play\<close> and \<open>Pass\<close> put into the history.\<close>

definition entry_ok :: "action \<Rightarrow> bool" where
  "entry_ok a \<longleftrightarrow> valid_seat (act_seat a) \<and>
     (case act_type a of
        ActionPlay \<Rightarrow> \<exists>p. act_pattern a = Some p \<and> analyze (act_cards a) = Inr p
      | ActionPass \<Rightarrow> act_cards a = [] \<and> act_pattern a = None
      | ActionOther t \<Rightarrow> False)"

lemma entry_ok_type: "entry_ok a \<Longrightarrow> act_type a = ActionPlay \<or> act_type a = ActionPass"
  by (cases "act_type a") (simp_all add: entry_ok_def)

text \<open>Who is to act, given the leading seat and the passes since: the seat after the last actor.\<close>

definition turn_ok :: "pl_state \<Rightarrow> bool" where
  "turn_ok s \<longleftrightarrow> (case pl_leading_pattern s of
      None \<Rightarrow> pl_leading_seat s = 0 \<and> pl_leading_cards s = [] \<and> pl_pass_count s = 0 \<and> \<not> pl_complete s
    | Some p \<Rightarrow> valid_seat (pl_leading_seat s) \<and> analyze (pl_leading_cards s) = Inr p \<and>
        (\<not> pl_complete s \<longrightarrow> (pl_pass_count s = 0 \<and> pl_current s = next_seat (pl_leading_seat s) \<or>
           pl_pass_count s = 1 \<and> pl_current s = next_seat (next_seat (pl_leading_seat s)))))"

definition pl_inv :: "pl_state \<Rightarrow> bool" where
  "pl_inv s \<longleftrightarrow> turn_ok s \<and>
     (if pl_complete s then pl_current s = 0 \<and> pl_winner s = pl_leading_seat s \<and> pl_pass_count s = 0
      else valid_seat (pl_current s) \<and> pl_winner s = 0) \<and>
     pl_revision s = word_of_nat (length (pl_history s)) \<and> (\<forall>a \<in> set (pl_history s). entry_ok a) \<and>
     map act_number (pl_history s) = map word_of_nat [1..<Suc (length (pl_history s))] \<and>
     passes (pl_history s) + (if pl_leading_pattern s = None then 0 else 2 - unat (pl_pass_count s))
       \<le> 2 * plays (pl_history s)"

lemma pl_inv_new: "new_state first = Inr s \<Longrightarrow> pl_inv s"
  by (auto simp: new_state_def zero_state_def pl_inv_def turn_ok_def plays_def passes_def split: if_splits)

lemma numbers_append:
  "map act_number h = map word_of_nat [1..<Suc (length h)] \<Longrightarrow>
   map act_number h @ [word_of_nat (length h) + 1] = (map word_of_nat [1..<Suc (Suc (length h))] :: u64 list)"
  by (simp add: add.commute)

lemma pl_inv_play:
  assumes inv: "pl_inv s" and pl: "play (Some s) seat cards e = Inr (s', v)"
  shows "pl_inv s'"
proof -
  obtain p where p: "valid_seat seat" "\<not> pl_complete s" "analyze cards = Inr p"
      "s' = record_play s seat cards p e"
    using pl by (auto simp: play_Inr)
  have pc: "unat (pl_pass_count s) \<le> 1" if "pl_leading_pattern s \<noteq> None"
    using inv p(2) that by (auto simp: pl_inv_def turn_ok_def)
  have "turn_ok s'" using p by (simp add: turn_ok_def)
  moreover have "\<forall>a \<in> set (pl_history s'). entry_ok a" using inv p by (auto simp: pl_inv_def entry_ok_def)
  moreover have "passes (pl_history s) + 2 \<le> 2 * (plays (pl_history s) + 1)"
    using inv pc by (auto simp: pl_inv_def split: if_splits)
  moreover have "valid_seat (next_seat seat)" using p(1) by (rule valid_next_seat)
  ultimately show ?thesis
    using inv p numbers_append [of "pl_history s"] by (simp add: pl_inv_def add.commute)
qed

lemma pl_inv_pass:
  assumes inv: "pl_inv s" and pa: "pass (Some s) seat = Inr (s', v)"
  shows "pl_inv s'"
proof -
  have p: "valid_seat seat" "\<not> pl_complete s" "seat = pl_current s"
      "s' = record_pass s seat"
    using pa by (auto simp: pass_Inr)
  obtain q where q: "pl_leading_pattern s = Some q" "pl_leading_seat s \<noteq> 0"
    using pa by (auto simp: pass_Inr)
  have t: "valid_seat (pl_leading_seat s)" "analyze (pl_leading_cards s) = Inr q"
      "pl_pass_count s = 0 \<and> pl_current s = next_seat (pl_leading_seat s) \<or>
       pl_pass_count s = 1 \<and> pl_current s = next_seat (next_seat (pl_leading_seat s))"
    using inv q p(2) by (simp_all add: pl_inv_def turn_ok_def)
  have "turn_ok s'" using t q p by (auto simp: turn_ok_def)
  moreover have "\<forall>a \<in> set (pl_history s'). entry_ok a" using inv p by (auto simp: pl_inv_def entry_ok_def)
  moreover have "valid_seat (next_seat seat)" using p(1) by (rule valid_next_seat)
  ultimately show ?thesis
    using inv p q t numbers_append [of "pl_history s"] by (auto simp: pl_inv_def add.commute)
qed

lemma pl_reach_inv: "pl_reach first s \<Longrightarrow> pl_inv s"
  by (induction rule: pl_reach.induct) (blast intro: pl_inv_new pl_inv_play pl_inv_pass)+

section \<open>The invariant of the turn state\<close>

text \<open>C18: in every reachable turn state the actor, the leader and the pass count agree: while the
  hand is open, the current seat is the one after the last actor, a leading play is a recognised
  pattern with at most one pass after it, and without a leader nobody has passed; once it is
  complete nobody is to act and the winner is the leader. The revision counts the history, whose
  entries are numbered from 1, and between two plays there are at most two passes.\<close>

theorem playing_invariant:
  assumes "pl_reach first s"
  shows "turn_ok s \<and>
    (if pl_complete s then pl_current s = 0 \<and> pl_winner s = pl_leading_seat s \<and> pl_pass_count s = 0
     else valid_seat (pl_current s) \<and> pl_winner s = 0) \<and>
    pl_revision s = word_of_nat (length (pl_history s)) \<and>
    map act_number (pl_history s) = map word_of_nat [1..<Suc (length (pl_history s))] \<and>
    length (pl_history s) \<le> 3 * plays (pl_history s)"
  using pl_reach_inv [OF assms] plays_passes [of "pl_history s"] entry_ok_type
  by (fastforce simp: pl_inv_def split: if_splits)

text \<open>A concrete run for the witnesses: seat 2 leads the single 3 of clubs and the others pass.\<close>

definition run_play :: pl_state where
  "run_play = record_play (zero_state\<lparr>pl_current := 2\<rparr>) 2 [0] (mk_pattern KindSingle 0 1 1) False"

definition run_pass :: pl_state where
  "run_pass = record_pass run_play 3"

lemma run_new: "new_state 2 = Inr (zero_state\<lparr>pl_current := 2\<rparr>)"
  by (simp add: new_state_def valid_seat_def)

lemma analyze_3: "analyze [0] = Inr (mk_pattern KindSingle 0 1 1)"
  by code_simp

lemma run_play_step:
  "play (Some (zero_state\<lparr>pl_current := 2\<rparr>)) 2 [0] False = Inr (run_play, pl_snapshot_of (Some run_play))"
  by (simp add: play_Inr run_play_def analyze_3 valid_seat_def zero_state_def)

lemma run_pass_step: "pass (Some run_play) 3 = Inr (run_pass, pl_snapshot_of (Some run_pass))"
  by (simp add: pass_Inr run_pass_def run_play_def valid_seat_def zero_state_def next_seat_def)

lemma reach_run_play: "pl_reach 2 run_play"
  by (rule reach_play [OF reach_new [OF run_new] run_play_step])

lemma reach_run_pass: "pl_reach 2 run_pass"
  by (rule reach_pass [OF reach_run_play run_pass_step])

theorem playing_invariant_witness:
  "turn_ok run_pass \<and> length (pl_history run_pass) \<le> 3 * plays (pl_history run_pass)"
  using playing_invariant [OF reach_run_pass] by blast

section \<open>Progress\<close>

lemma analyze_single: "card_valid c \<Longrightarrow> \<exists>p. analyze [c] = Inr p"
proof -
  assume c: "card_valid c"
  then have "rank_of c < 15" by (rule rank_of_less)
  then have "fits KindSingle (rank_of c) 1 (rank_table [c])"
    by (simp add: block_only_def rank_table_nth)
  moreover have "playable [c]" using c by (simp add: playable_def)
  ultimately show ?thesis using analyze_fits by blast
qed

text \<open>C24: the hand never gets stuck: in every reachable open state the current seat can act (lead
  any single card when there is no leader, pass otherwise), passing without a leader is refused,
  and the two other seats are refused whatever they try.\<close>

theorem playing_no_deadlock:
  assumes "pl_reach first s" and "\<not> pl_complete s"
  shows "(if pl_leading_pattern s = None
          then pass (Some s) (pl_current s) = Inl (Playing_Err CannotPass) \<and>
            (\<forall>c. card_valid c \<longrightarrow> (\<exists>r. play (Some s) (pl_current s) [c] False = Inr r))
          else \<exists>r. pass (Some s) (pl_current s) = Inr r) \<and>
    (\<forall>seat cards e. valid_seat seat \<and> seat \<noteq> pl_current s \<longrightarrow>
       play (Some s) seat cards e = Inl (Playing_Err WrongTurn) \<and>
       pass (Some s) seat = Inl (Playing_Err WrongTurn))"
proof -
  have inv: "valid_seat (pl_current s)" "turn_ok s"
    using pl_reach_inv [OF assms(1)] assms(2) by (simp_all add: pl_inv_def)
  have va: "validate_actor (Some s) (pl_current s) = Inr s"
    using inv assms(2) by (simp add: validate_actor_Inr)
  have other: "validate_actor (Some s) seat = Inl (Playing_Err WrongTurn)"
    if "valid_seat seat" "seat \<noteq> pl_current s" for seat
    using that assms(2) by (simp add: validate_actor_def)
  have lead: "\<exists>r. play (Some s) (pl_current s) [c] False = Inr r"
    if "pl_leading_pattern s = None" "card_valid c" for c
  proof -
    obtain p where p: "analyze [c] = Inr p" using analyze_single [OF \<open>card_valid c\<close>] ..
    then show ?thesis using va that(1) by (simp add: play_def beats_leader_def Let_def)
  qed
  have "\<exists>r. pass (Some s) (pl_current s) = Inr r" if "pl_leading_pattern s \<noteq> None"
  proof -
    have "pl_leading_seat s \<noteq> 0" using that inv(2) by (auto simp: turn_ok_def valid_seat_cases)
    with that show ?thesis using va by (simp add: pass_def Let_def)
  qed
  moreover have "pass (Some s) (pl_current s) = Inl (Playing_Err CannotPass)"
    if "pl_leading_pattern s = None" using that va by (simp add: pass_def)
  ultimately show ?thesis
    using lead other by (auto simp: play_def pass_def)
qed

theorem playing_no_deadlock_witness: "\<exists>r. pass (Some run_pass) 1 = Inr r"
proof -
  have "\<not> pl_complete run_pass" and m: "pl_leading_pattern run_pass \<noteq> None" "pl_current run_pass = 1"
    by (simp_all add: run_pass_def run_play_def zero_state_def)
  from playing_no_deadlock [OF reach_run_pass this(1)] m show ?thesis by simp
qed

section \<open>Turn order and tricks in the history\<close>

lemma seats_rotate:
  "pl_reach first s \<Longrightarrow>
    map act_seat (pl_history s) = map (\<lambda>i. (next_seat ^^ i) first) [0..<length (pl_history s)] \<and>
    (\<not> pl_complete s \<longrightarrow> pl_current s = (next_seat ^^ length (pl_history s)) first)"
proof (induction rule: pl_reach.induct)
  case (reach_new s)
  then show ?case by (auto simp: new_state_def zero_state_def split: if_splits)
next
  case (reach_play s seat cards e s' v)
  then show ?case by (auto simp: play_Inr)
next
  case (reach_pass s seat s' v)
  have inv: "pl_inv s" by (rule pl_reach_inv [OF reach_pass.hyps(1)])
  have "pl_current s' = next_seat seat"
    using reach_pass.hyps(2) inv
    by (auto simp: pass_Inr pl_inv_def turn_ok_def valid_seat_cases split: option.splits)
  then show ?case using reach_pass by (auto simp: pass_Inr)
qed

text \<open>The last play and the passes after it, as the history shows them.\<close>

definition tail_ok :: "pl_state \<Rightarrow> bool" where
  "tail_ok s \<longleftrightarrow> (case pl_leading_pattern s of
      None \<Rightarrow> pl_history s = [] \<or> (\<exists>h a b. pl_history s = h @ [a, b] \<and> act_type a = ActionPass \<and> act_type b = ActionPass)
    | Some p \<Rightarrow> (\<exists>h a t. pl_history s = h @ a # t \<and> act_type a = ActionPlay \<and> act_pattern a = Some p \<and>
        act_seat a = pl_leading_seat s \<and> length t = unat (pl_pass_count s) \<and> (\<forall>x \<in> set t. act_type x = ActionPass)))"

lemma tail_ok_play: "play (Some s) seat cards e = Inr (s', v) \<Longrightarrow> tail_ok s'"
  by (auto simp: play_Inr tail_ok_def)

lemma tail_ok_pass:
  assumes inv: "pl_inv s" "tail_ok s" and pa: "pass (Some s) seat = Inr (s', v)"
  shows "tail_ok s'"
proof -
  have p: "s' = record_pass s seat" "\<not> pl_complete s" using pa by (auto simp: pass_Inr)
  obtain q where q: "pl_leading_pattern s = Some q" using pa by (auto simp: pass_Inr)
  obtain h a t where h: "pl_history s = h @ a # t" "act_type a = ActionPlay" "act_pattern a = Some q"
      "act_seat a = pl_leading_seat s" "length t = unat (pl_pass_count s)" "\<forall>x \<in> set t. act_type x = ActionPass"
    using inv(2) q by (auto simp: tail_ok_def)
  have "pl_pass_count s = 0 \<or> pl_pass_count s = 1" using inv(1) q p(2) by (auto simp: pl_inv_def turn_ok_def)
  then show ?thesis
  proof
    assume "pl_pass_count s = 0"
    with h(5) have t: "t = []" by simp
    show ?thesis
      using p q h \<open>pl_pass_count s = 0\<close> unfolding t
      by (simp add: tail_ok_def) (rule exI [of _ h], rule exI [of _ a], simp)
  next
    assume "pl_pass_count s = 1"
    moreover from this h(5) obtain x where "t = [x]" by (auto simp: length_Suc_conv)
    ultimately show ?thesis using p q h by (fastforce simp: tail_ok_def)
  qed
qed

lemma pl_reach_tail: "pl_reach first s \<Longrightarrow> tail_ok s"
proof (induction rule: pl_reach.induct)
  case (reach_new s)
  then show ?case by (auto simp: new_state_def zero_state_def tail_ok_def split: if_splits)
qed (blast intro: tail_ok_play tail_ok_pass pl_reach_inv)+

text \<open>\<open>tricks_ok h\<close>: a play with at most one pass since the play before it beats that play.\<close>

definition tricks_ok :: "action list \<Rightarrow> bool" where
  "tricks_ok h \<longleftrightarrow> (\<forall>h1 a t b h2. h = h1 @ a # t @ b # h2 \<and> act_type a = ActionPlay \<and> act_type b = ActionPlay \<and>
     (\<forall>x \<in> set t. act_type x = ActionPass) \<and> length t \<le> 1 \<longrightarrow>
     (\<exists>p q. act_pattern a = Some p \<and> act_pattern b = Some q \<and> can_beat q p = Inr True))"


lemma tricks_ok_append:
  assumes "tricks_ok h"
    and new: "\<And>h1 a t. h = h1 @ a # t \<Longrightarrow> act_type a = ActionPlay \<Longrightarrow> act_type b = ActionPlay \<Longrightarrow>
      \<forall>x \<in> set t. act_type x = ActionPass \<Longrightarrow> length t \<le> 1 \<Longrightarrow>
      \<exists>p q. act_pattern a = Some p \<and> act_pattern b = Some q \<and> can_beat q p = Inr True"
  shows "tricks_ok (h @ [b])"
  unfolding tricks_ok_def
proof (intro allI impI)
  fix h1 a t b' h2
  assume *: "h @ [b] = h1 @ a # t @ b' # h2 \<and> act_type a = ActionPlay \<and> act_type b' = ActionPlay \<and>
     (\<forall>x \<in> set t. act_type x = ActionPass) \<and> length t \<le> 1"
  show "\<exists>p q. act_pattern a = Some p \<and> act_pattern b' = Some q \<and> can_beat q p = Inr True"
  proof (cases h2 rule: rev_cases)
    case Nil
    with * have "h = h1 @ a # t" "b' = b" by simp_all
    with * new show ?thesis by blast
  next
    case (snoc h2' c)
    with * have "h = h1 @ a # t @ b' # h2'" by simp
    with * assms(1) show ?thesis unfolding tricks_ok_def by blast
  qed
qed

lemma last_play_unique:
  assumes "h1 @ a # t = g @ c # u" and "act_type a = ActionPlay" and "\<forall>x \<in> set t. act_type x = ActionPass"
    and "act_type c = ActionPlay" and "\<forall>x \<in> set u. act_type x = ActionPass"
  shows "a = c"
proof -
  have last: "last (filter (\<lambda>x. act_type x = ActionPlay) (l @ x # r)) = x"
    if "act_type x = ActionPlay" "\<forall>y \<in> set r. act_type y = ActionPass" for l x r
  proof -
    have "filter (\<lambda>y. act_type y = ActionPlay) r = []" using that(2) by (simp add: filter_empty_conv)
    with that(1) show ?thesis by simp
  qed
  show ?thesis using last [OF assms(2,3), of h1] last [OF assms(4,5), of g] assms(1) by simp
qed

lemma pl_reach_tricks: "pl_reach first s \<Longrightarrow> tricks_ok (pl_history s)"
proof (induction rule: pl_reach.induct)
  case (reach_new s)
  then show ?case by (auto simp: new_state_def zero_state_def tricks_ok_def split: if_splits)
next
  case (reach_play s seat cards e s' v)
  obtain p where p: "s' = record_play s seat cards p e"
      "\<forall>q. pl_leading_pattern s = Some q \<longrightarrow> can_beat p q = Inr True"
    using reach_play.hyps(2) by (auto simp: play_Inr)
  have tl: "tail_ok s" by (rule pl_reach_tail [OF reach_play.hyps(1)])
  show ?case unfolding p(1) record_play_sel
  proof (rule tricks_ok_append [OF reach_play.IH])
    fix h1 a t
    assume h: "pl_history s = h1 @ a # t" "act_type a = ActionPlay" "\<forall>x \<in> set t. act_type x = ActionPass" "length t \<le> 1"
    have "\<exists>q. pl_leading_pattern s = Some q \<and> act_pattern a = Some q"
    proof (cases "pl_leading_pattern s")
      case None
      with tl h(1) obtain g x y where "h1 @ a # t = g @ [x, y]" "act_type x = ActionPass" "act_type y = ActionPass"
        by (auto simp: tail_ok_def)
      with h(2,4) show ?thesis by (cases t rule: rev_cases) (auto simp: append_eq_append_conv2 append_eq_Cons_conv)
    next
      case (Some q)
      with tl obtain g c u where g: "pl_history s = g @ c # u" "act_type c = ActionPlay" "act_pattern c = Some q"
          "\<forall>x \<in> set u. act_type x = ActionPass"
        by (auto simp: tail_ok_def)
      have "a = c" using last_play_unique [OF h(1) [unfolded g(1), symmetric] h(2,3) g(2,4)] by simp
      with Some g(3) show ?thesis by simp
    qed
    with p(2) show "\<exists>pa q. act_pattern a = Some pa \<and>
        act_pattern \<lparr>act_number = pl_revision s + 1, act_type = ActionPlay, act_seat = seat,
          act_cards = cards, act_pattern = Some p\<rparr> = Some q \<and> can_beat q pa = Inr True" by auto
  qed
next
  case (reach_pass s seat s' v)
  then have "s' = record_pass s seat" by (auto simp: pass_Inr)
  then show ?case by (simp, intro tricks_ok_append [OF reach_pass.IH]) simp
qed


text \<open>C31: within a trick the plays strictly increase: whenever two plays of the history have at most
  one pass (and no play) between them, the later one beats the earlier one.\<close>

theorem playing_tricks:
  assumes "pl_reach first s" and "pl_history s = h1 @ a # t @ b # h2"
    and "act_type a = ActionPlay" and "act_type b = ActionPlay"
    and "\<forall>x \<in> set t. act_type x = ActionPass" and "length t \<le> 1"
  shows "\<exists>p q. act_pattern a = Some p \<and> act_pattern b = Some q \<and> can_beat q p = Inr True"
  using pl_reach_tricks [OF assms(1)] assms(2-) unfolding tricks_ok_def by blast

text \<open>The table turns strictly: the \<open>i\<close>-th entry of the history is an action of the seat \<open>i\<close>
  places after the first, through passes, plays and the two passes that end a trick, and the seat
  to act in an open hand is the next one.\<close>

theorem playing_rotation:
  assumes "pl_reach first s"
  shows "map act_seat (pl_history s) = map (\<lambda>i. (next_seat ^^ i) first) [0..<length (pl_history s)] \<and>
    (\<not> pl_complete s \<longrightarrow> pl_current s = (next_seat ^^ length (pl_history s)) first)"
  by (rule seats_rotate [OF assms])

theorem playing_rotation_witness:
  "map act_seat (pl_history run_pass) = [2, 3] \<and> pl_current run_pass = 1"
proof -
  have "length (pl_history run_pass) = 2" "\<not> pl_complete run_pass"
    by (simp_all add: run_pass_def run_play_def zero_state_def)
  with playing_rotation [OF reach_run_pass] show ?thesis
    by (simp add: upt_rec numeral_2_eq_2)
qed

section \<open>Replaying the history\<close>

definition apply_entry :: "bool \<Rightarrow> pl_state \<Rightarrow> action \<Rightarrow> go_error + pl_state" where
  "apply_entry won s a =
     (case act_type a of
        ActionPlay \<Rightarrow> rbind (play (Some s) (act_seat a) (act_cards a) won) (\<lambda>r. Inr (fst r))
      | ActionPass \<Rightarrow> rbind (pass (Some s) (act_seat a)) (\<lambda>r. Inr (fst r))
      | ActionOther t \<Rightarrow> Inl (Playing_Err PlayingComplete))"

fun replay :: "bool \<Rightarrow> pl_state \<Rightarrow> action list \<Rightarrow> go_error + pl_state" where
  "replay won s [] = Inr s"
| "replay won s (a # h) = rbind (apply_entry (won \<and> h = []) s a) (\<lambda>s'. replay won s' h)"

lemma replay_append:
  "replay won s (h @ [a]) = rbind (replay False s h) (\<lambda>s'. apply_entry won s' a)"
proof (induction h arbitrary: s)
  case Nil
  then show ?case by (cases "apply_entry won s a") simp_all
next
  case (Cons b h)
  then show ?case by (cases "apply_entry False s b") simp_all
qed

lemma reach_replay:
  "pl_reach first s \<Longrightarrow> \<exists>s0. new_state first = Inr s0 \<and> replay (pl_complete s) s0 (pl_history s) = Inr s"
proof (induction rule: pl_reach.induct)
  case (reach_new s)
  then show ?case by (auto simp: new_state_def zero_state_def split: if_splits)
next
  case (reach_play s seat cards e s' v)
  obtain p where p: "s' = record_play s seat cards p e" "\<not> pl_complete s"
    using reach_play.hyps(2) by (auto simp: play_Inr)
  with reach_play.IH obtain s0 where "new_state first = Inr s0" "replay False s0 (pl_history s) = Inr s" by auto
  with p reach_play.hyps(2) show ?case by (simp add: replay_append apply_entry_def)
next
  case (reach_pass s seat s' v)
  have p: "s' = record_pass s seat" "\<not> pl_complete s" using reach_pass.hyps(2) by (auto simp: pass_Inr)
  with reach_pass.IH obtain s0 where "new_state first = Inr s0" "replay False s0 (pl_history s) = Inr s" by auto
  with p reach_pass.hyps(2) show ?case by (simp add: replay_append apply_entry_def)
qed

text \<open>The public history determines the state: replaying the recorded actions from the first
  seat reproduces exactly the current turn state.\<close>

theorem playing_replay:
  assumes "pl_reach first s"
  shows "\<exists>s0. new_state first = Inr s0 \<and> replay (pl_complete s) s0 (pl_history s) = Inr s"
  by (rule reach_replay [OF assms])

theorem playing_replay_witness:
  "replay False (zero_state\<lparr>pl_current := 2\<rparr>) (pl_history run_pass) = Inr run_pass"
proof -
  have "\<not> pl_complete run_pass" by (simp add: run_pass_def run_play_def zero_state_def)
  with playing_replay [OF reach_run_pass] show ?thesis by (auto simp: run_new)
qed

text \<open>For \<open>playing_tricks\<close>: seat 2 leads a 3, seat 3 beats it with a 4.\<close>

definition run_beat :: pl_state where
  "run_beat = record_play run_play 3 [4] (mk_pattern KindSingle 1 1 1) False"

lemma analyze_4: "analyze [4] = Inr (mk_pattern KindSingle 1 1 1)"
  by code_simp

lemma beat_3_4: "can_beat (mk_pattern KindSingle 1 1 1) (mk_pattern KindSingle 0 1 1) = Inr True"
  by code_simp

lemma reach_run_beat: "pl_reach 2 run_beat"
proof (rule reach_play [OF reach_run_play])
  show "play (Some run_play) 3 [4] False = Inr (run_beat, pl_snapshot_of (Some run_beat))"
    unfolding run_beat_def
    using beat_3_4 by (simp add: play_Inr run_play_def analyze_4 valid_seat_def zero_state_def next_seat_def)
qed

theorem playing_tricks_witness:
  "\<exists>a b p q. pl_history run_beat = [a, b] \<and> act_pattern a = Some p \<and> act_pattern b = Some q \<and>
     can_beat q p = Inr True"
proof -
  obtain a b where h: "pl_history run_beat = [a, b]" "act_type a = ActionPlay" "act_type b = ActionPlay"
    by (simp add: run_beat_def run_play_def zero_state_def)
  have "\<exists>p q. act_pattern a = Some p \<and> act_pattern b = Some q \<and> can_beat q p = Inr True"
    by (rule playing_tricks [OF reach_run_beat, of "[]" a "[]" b "[]"]) (simp_all add: h)
  with h(1) show ?thesis by blast
qed

end
