(* ===== verification/Bidding.thy ===== *)
theory Bidding
  imports Gamecore_Random Playing
begin

text \<open>
  \<open>bidding/bidding.go\<close>: the score auction. The first bidder is drawn from the deal digest by the
  \<open>gamecore\<close> stream; \<open>Submit\<close> takes the bids in seat order, one per seat, until a seat bids three
  or all three have bid.
\<close>

section \<open>State\<close>

definition bidding_rules_version :: string where
  "bidding_rules_version = ''doudizhu-score-bidding-v1''"

definition first_bidder_domain :: string where
  "first_bidder_domain = ''doudizhu/bidding-first-seat/v1''"

type_synonym score = u8

abbreviation score_pass :: score where "score_pass \<equiv> 0"
abbreviation score_one :: score where "score_one \<equiv> 1"
abbreviation score_two :: score where "score_two \<equiv> 2"
abbreviation score_three :: score where "score_three \<equiv> 3"

definition score_valid :: "score \<Rightarrow> bool" where
  "score_valid s \<longleftrightarrow> s \<le> score_three"

record bid =
  bid_position :: u8
  bid_score :: score

record bid_snapshot =
  bs_version :: string
  bs_first :: u8
  bs_current :: u8
  bs_highest_score :: score
  bs_highest_bidder :: u8
  bs_actions :: "bid list"
  bs_complete :: bool
  bs_no_landlord :: bool
  bs_landlord :: u8

text \<open>\<open>bd_actions\<close> is the array of three actions, of which the first \<open>bd_count\<close> are in use.\<close>

record bid_state =
  bd_first :: u8
  bd_current :: u8
  bd_highest_score :: score
  bd_highest_bidder :: u8
  bd_actions :: "bid list"
  bd_count :: nat
  bd_complete :: bool
  bd_no_landlord :: bool
  bd_landlord :: u8

definition bid_clone :: "bid_state option \<Rightarrow> bid_state option" where
  "bid_clone s = (case s of None \<Rightarrow> None | Some st \<Rightarrow> Some st)"

definition new_bid_state :: "u8 \<Rightarrow> bid_state" where
  "new_bid_state first =
     \<lparr>bd_first = first, bd_current = first, bd_highest_score = 0, bd_highest_bidder = 0,
      bd_actions = replicate 3 \<lparr>bid_position = 0, bid_score = 0\<rparr>, bd_count = 0,
      bd_complete = False, bd_no_landlord = False, bd_landlord = 0\<rparr>"

section \<open>Operations\<close>

definition derive_first_bidder :: "bytes \<Rightarrow> (go_error + u8) option" where
  "derive_first_bidder deal_digest =
     (if all_zero deal_digest then Some (Inl (Bidding_Err BdInvalidDealDigest))
      else
        (case gc_new_stream (sha256 (str_bytes first_bidder_domain @ [0] @ deal_digest)) of
           Inl e \<Rightarrow> Some (Inl e)
         | Inr stream \<Rightarrow>
             map_option (\<lambda>r. rbind r (\<lambda>(value, _). Inr (ucast (value + 1))))
               (gc_uniform gc_uint64 (Some stream) 3)))"

definition new_bidding :: "bytes \<Rightarrow> (go_error + bid_state) option" where
  "new_bidding deal_digest =
     map_option (\<lambda>r. rbind r (\<lambda>first. Inr (new_bid_state first))) (derive_first_bidder deal_digest)"

definition next_position :: "u8 \<Rightarrow> u8" where
  "next_position position = position mod 3 + 1"

definition bid_snapshot_of :: "bid_state option \<Rightarrow> bid_snapshot" where
  "bid_snapshot_of s =
     (case s of
        None \<Rightarrow> \<lparr>bs_version = '''', bs_first = 0, bs_current = 0, bs_highest_score = 0,
                 bs_highest_bidder = 0, bs_actions = [], bs_complete = False,
                 bs_no_landlord = False, bs_landlord = 0\<rparr>
      | Some st \<Rightarrow> \<lparr>bs_version = bidding_rules_version, bs_first = bd_first st,
                 bs_current = bd_current st, bs_highest_score = bd_highest_score st,
                 bs_highest_bidder = bd_highest_bidder st,
                 bs_actions = take (bd_count st) (bd_actions st), bs_complete = bd_complete st,
                 bs_no_landlord = bd_no_landlord st, bs_landlord = bd_landlord st\<rparr>)"

definition submit_guards :: "bid_state \<Rightarrow> u8 \<Rightarrow> score \<Rightarrow> go_error + unit" where
  "submit_guards st position scr =
     (if bd_complete st then Inl (Bidding_Err BdBiddingComplete)
      else if position < 1 \<or> position > 3 then Inl (Bidding_Err BdInvalidPosition)
      else if \<not> score_valid scr then Inl (Bidding_Err BdInvalidScore)
      else if position \<noteq> bd_current st then Inl (Bidding_Err BdWrongTurn)
      else if scr > score_pass \<and> scr \<le> bd_highest_score st then Inl (Bidding_Err BdBidNotHigher)
      else Inr ())"

definition record_bid :: "bid_state \<Rightarrow> u8 \<Rightarrow> score \<Rightarrow> bid_state" where
  "record_bid st position scr =
     (let st1 = st\<lparr>bd_actions := (bd_actions st)[bd_count st := \<lparr>bid_position = position, bid_score = scr\<rparr>],
                   bd_count := bd_count st + 1\<rparr>;
          st2 = (if scr > bd_highest_score st1
                 then st1\<lparr>bd_highest_score := scr, bd_highest_bidder := position\<rparr> else st1)
      in if scr = score_three \<or> bd_count st2 = length (bd_actions st2)
         then (let st3 = st2\<lparr>bd_complete := True, bd_current := 0\<rparr>
               in if bd_highest_score st3 = score_pass then st3\<lparr>bd_no_landlord := True\<rparr>
                  else st3\<lparr>bd_landlord := bd_highest_bidder st3\<rparr>)
         else st2\<lparr>bd_current := next_position position\<rparr>)"

definition submit :: "bid_state option \<Rightarrow> u8 \<Rightarrow> score \<Rightarrow> go_error + bid_state \<times> bid_snapshot" where
  "submit s position scr =
     (case s of
        None \<Rightarrow> Inl (Gamecore GcInvalidArgument)
      | Some st \<Rightarrow>
          rbind (submit_guards st position scr) (\<lambda>_.
            let st' = record_bid st position scr in Inr (st', bid_snapshot_of (Some st'))))"

lemma submit_Inr:
  "submit s position scr = Inr (st', v) \<longleftrightarrow> (\<exists>st. s = Some st \<and> \<not> bd_complete st \<and>
     valid_seat position \<and> score_valid scr \<and> position = bd_current st \<and>
     (scr = score_pass \<or> scr > bd_highest_score st) \<and>
     st' = record_bid st position scr \<and> v = bid_snapshot_of (Some st'))"
  by (auto simp: submit_def submit_guards_def Let_def valid_seat_def not_less not_le word_gt_0_no
      split: option.splits if_splits)

section \<open>The auction\<close>

inductive bd_reach :: "u8 \<Rightarrow> bid_state \<Rightarrow> bool" for first where
  bd_new: "valid_seat first \<Longrightarrow> bd_reach first (new_bid_state first)"
| bd_submit: "bd_reach first s \<Longrightarrow> submit (Some s) position scr = Inr (s', v) \<Longrightarrow> bd_reach first s'"

definition bids :: "bid_state \<Rightarrow> bid list" where
  "bids s = take (bd_count s) (bd_actions s)"

definition positive_scores :: "bid list \<Rightarrow> score list" where
  "positive_scores bs = filter (\<lambda>x. x \<noteq> score_pass) (map bid_score bs)"

text \<open>
  What a list of bids decides: the highest score and its bidder (0 and 0 when everyone passed), and
  whether the auction is over.
\<close>

definition top_score :: "bid list \<Rightarrow> score" where
  "top_score bs = (if positive_scores bs = [] then 0 else last (positive_scores bs))"

definition top_bidder :: "bid list \<Rightarrow> u8" where
  "top_bidder bs = (let pos = filter (\<lambda>b. bid_score b \<noteq> score_pass) bs in if pos = [] then 0 else bid_position (last pos))"

definition auction_over :: "bid list \<Rightarrow> bool" where
  "auction_over bs \<longleftrightarrow> score_three \<in> set (map bid_score bs) \<or> length bs = 3"


lemma record_bid_actions:
  "bd_actions (record_bid s position scr) = (bd_actions s)[bd_count s := \<lparr>bid_position = position, bid_score = scr\<rparr>]"
  "bd_count (record_bid s position scr) = Suc (bd_count s)"
  by (simp_all add: record_bid_def Let_def)

lemma bids_record:
  "length (bd_actions s) = 3 \<Longrightarrow> bd_count s < 3 \<Longrightarrow>
    bids (record_bid s position scr) = bids s @ [\<lparr>bid_position = position, bid_score = scr\<rparr>]"
  unfolding bids_def record_bid_actions by (rule take_Suc_update) simp

lemma positive_scores_append [simp]:
  "positive_scores (bs @ [b]) = positive_scores bs @ (if bid_score b = 0 then [] else [bid_score b])"
  by (simp add: positive_scores_def)

lemma top_score_append:
  "top_score (bs @ [b]) = (if bid_score b = 0 then top_score bs else bid_score b)"
  by (simp add: top_score_def)

lemma top_bidder_append:
  "top_bidder (bs @ [b]) = (if bid_score b = 0 then top_bidder bs else bid_position b)"
  by (simp add: top_bidder_def)

lemma top_score_zero: "top_score bs = 0 \<longleftrightarrow> (\<forall>b \<in> set bs. bid_score b = score_pass)"
proof -
  have "x \<noteq> 0" if "x \<in> set (positive_scores bs)" for x using that by (simp add: positive_scores_def)
  then have "positive_scores bs \<noteq> [] \<Longrightarrow> last (positive_scores bs) \<noteq> 0" by (metis last_in_set)
  moreover have "positive_scores bs = [] \<longleftrightarrow> (\<forall>b \<in> set bs. bid_score b = 0)"
    by (auto simp: positive_scores_def filter_empty_conv)
  ultimately show ?thesis by (auto simp: top_score_def)
qed

text \<open>The state is what the bids made so far say it is.\<close>

definition bd_inv :: "u8 \<Rightarrow> bid_state \<Rightarrow> bool" where
  "bd_inv first s \<longleftrightarrow>
     length (bd_actions s) = 3 \<and> bd_count s \<le> 3 \<and> bd_first s = first \<and>
     bd_highest_score s = top_score (bids s) \<and> bd_highest_bidder s = top_bidder (bids s) \<and>
     bd_complete s = auction_over (bids s) \<and>
     bd_no_landlord s = (bd_complete s \<and> top_score (bids s) = 0) \<and>
     bd_landlord s = (if bd_complete s \<and> top_score (bids s) \<noteq> 0 then top_bidder (bids s) else 0) \<and>
     bd_current s = (if bd_complete s then 0 else (next_position ^^ bd_count s) first)"

definition bids_ok :: "u8 \<Rightarrow> bid list \<Rightarrow> bool" where
  "bids_ok first bs \<longleftrightarrow>
     map bid_position bs = map (\<lambda>i. (next_position ^^ i) first) [0..<length bs] \<and>
     (\<forall>b \<in> set bs. score_valid (bid_score b)) \<and> sorted_wrt (<) (positive_scores bs)"

lemma length_bids: "bd_inv first s \<Longrightarrow> length (bids s) = bd_count s"
  by (simp add: bd_inv_def bids_def)

lemma bd_inv_new: "bd_inv first (new_bid_state first) \<and> bids_ok first (bids (new_bid_state first))"
  by (simp add: bd_inv_def bids_ok_def new_bid_state_def bids_def top_score_def top_bidder_def
      positive_scores_def auction_over_def)

lemma sorted_wrt_last:
  "sorted_wrt (<) (xs :: u8 list) \<Longrightarrow> x \<in> set xs \<Longrightarrow> x \<le> last xs"
  by (induction xs rule: rev_induct) (auto simp: sorted_wrt_append)

lemma bd_inv_submit:
  assumes inv: "bd_inv first s" "bids_ok first (bids s)" and sub: "submit (Some s) position scr = Inr (s', v)"
  shows "bd_inv first s' \<and> bids_ok first (bids s')"
proof -
  have g: "\<not> bd_complete s" "score_valid scr" "position = bd_current s"
      "scr = score_pass \<or> scr > bd_highest_score s" and s': "s' = record_bid s position scr"
    using sub by (auto simp: submit_Inr)
  have n: "bd_count s < 3"
    using inv(1) g(1) length_bids [OF inv(1)] by (auto simp: bd_inv_def auction_over_def)
  let ?b = "\<lparr>bid_position = position, bid_score = scr\<rparr>"
  have bs: "bids s' = bids s @ [?b]" using inv(1) n unfolding s' by (intro bids_record) (simp_all add: bd_inv_def)
  have pos: "position = (next_position ^^ bd_count s) first" using inv(1) g by (simp add: bd_inv_def)
  have no3: "score_three \<notin> set (map bid_score (bids s))" using inv(1) g(1) by (auto simp: bd_inv_def auction_over_def)
  have top: "bd_highest_score s = top_score (bids s)" using inv(1) by (simp add: bd_inv_def)
  have over: "auction_over (bids s') = (scr = score_three \<or> bd_count s + 1 = 3)"
    using no3 length_bids [OF inv(1)] by (auto simp: bs auction_over_def)
  have "bd_inv first s'"
    using inv(1) g n over pos
    unfolding bd_inv_def bs top_score_append top_bidder_append
    by (auto simp: s' record_bid_def Let_def)
  moreover have "bids_ok first (bids s')"
  proof -
    have "x < scr" if "x \<in> set (positive_scores (bids s))" "scr \<noteq> 0" for x
    proof -
      have "x \<le> top_score (bids s)" using that(1) inv(2) sorted_wrt_last by (auto simp: bids_ok_def top_score_def)
      with g(4) that(2) top show ?thesis by auto
    qed
    then show ?thesis
      using inv(2) g(2) pos length_bids [OF inv(1)] by (auto simp: bids_ok_def bs sorted_wrt_append)
  qed
  ultimately show ?thesis ..
qed

lemma bd_reach_inv: "bd_reach first s \<Longrightarrow> bd_inv first s \<and> bids_ok first (bids s)"
  by (induction rule: bd_reach.induct) (use bd_inv_new bd_inv_submit in blast)+


lemma next_position_eq: "next_position = next_seat"
  by (rule ext) (simp add: next_position_def next_seat_def)

lemma valid_next_seat_pow: "valid_seat first \<Longrightarrow> valid_seat ((next_seat ^^ n) first)"
  by (induction n) (simp_all add: valid_next_seat)

lemma bd_reach_first: "bd_reach first s \<Longrightarrow> valid_seat first"
  by (induction rule: bd_reach.induct)

lemma bd_reach_positions: "bd_reach first s \<Longrightarrow> \<forall>b \<in> set (bids s). valid_seat (bid_position b)"
proof -
  assume r: "bd_reach first s"
  then have "map bid_position (bids s) = map (\<lambda>i. (next_seat ^^ i) first) [0..<length (bids s)]"
    using bd_reach_inv [OF r] by (simp add: bids_ok_def next_position_eq)
  then have "set (map bid_position (bids s)) = (\<lambda>i. (next_seat ^^ i) first) ` {0..<length (bids s)}" by simp
  then have "\<forall>p \<in> set (map bid_position (bids s)). valid_seat p"
    using valid_next_seat_pow [OF bd_reach_first [OF r]] by auto
  then show ?thesis by simp
qed

lemma top_bid_mem:
  "top_score bs \<noteq> 0 \<Longrightarrow> \<lparr>bid_position = top_bidder bs, bid_score = top_score bs\<rparr> \<in> set bs"
proof (induction bs rule: rev_induct)
  case (snoc b bs)
  then show ?case by (cases b) (auto simp: top_score_append top_bidder_append)
qed (simp add: top_score_def positive_scores_def)

lemma top_score_max:
  assumes "sorted_wrt (<) (positive_scores bs)" and "b \<in> set bs"
  shows "bid_score b \<le> top_score bs"
proof (cases "bid_score b = 0")
  case False
  then have "bid_score b \<in> set (positive_scores bs)" using assms(2) by (simp add: positive_scores_def)
  with sorted_wrt_last [OF assms(1)] show ?thesis by (auto simp: top_score_def)
qed simp

section \<open>Properties\<close>

text \<open>C28: the outcome of an auction is what its bids say. In every reachable auction the bids were
  made in seat order from the first bidder, the positive bids strictly increase, the auction is
  over exactly when someone bid three or all three have bid, and then there is no landlord exactly
  when everyone passed; otherwise the landlord is the highest (that is, the last positive) bidder.\<close>

theorem bidding_outcome:
  assumes "bd_reach first s"
  shows "map bid_position (bids s) = map (\<lambda>i. (next_position ^^ i) first) [0..<length (bids s)] \<and>
    sorted_wrt (<) (positive_scores (bids s)) \<and>
    bd_complete s = (score_three \<in> set (map bid_score (bids s)) \<or> length (bids s) = 3) \<and>
    (bd_complete s \<longrightarrow> bd_no_landlord s = (\<forall>b \<in> set (bids s). bid_score b = score_pass)) \<and>
    (bd_complete s \<and> \<not> bd_no_landlord s \<longrightarrow> valid_seat (bd_landlord s) \<and>
      \<lparr>bid_position = bd_landlord s, bid_score = bd_highest_score s\<rparr> \<in> set (bids s) \<and>
      (\<forall>b \<in> set (bids s). bid_score b \<le> bd_highest_score s))"
proof -
  have inv: "bd_inv first s" "bids_ok first (bids s)" using bd_reach_inv [OF assms] by blast+
  have lord: "valid_seat (bd_landlord s) \<and>
      \<lparr>bid_position = bd_landlord s, bid_score = bd_highest_score s\<rparr> \<in> set (bids s)"
    if "bd_complete s" "\<not> bd_no_landlord s"
  proof -
    have "top_score (bids s) \<noteq> 0" "bd_landlord s = top_bidder (bids s)" "bd_highest_score s = top_score (bids s)"
      using inv(1) that by (auto simp: bd_inv_def)
    then show ?thesis using top_bid_mem bd_reach_positions [OF assms] by fastforce
  qed
  moreover have "\<forall>b \<in> set (bids s). bid_score b \<le> bd_highest_score s"
    using top_score_max inv by (auto simp: bids_ok_def bd_inv_def)
  ultimately show ?thesis
    using inv by (auto simp: bids_ok_def bd_inv_def auction_over_def top_score_zero)
qed

text \<open>C38: the auction goes on and always ends. In every state it can reach, a bid is accepted exactly while the
  auction is open, from the seat on turn, for a valid score that is a pass or above the highest one; every
  accepted bid uses up one of three turns; after three the auction is complete; and until then a seat is on
  turn.\<close>

theorem bidding_progress:
  assumes "bd_reach first s"
  shows "((\<exists>s' v. submit (Some s) p scr = Inr (s', v)) =
      (\<not> bd_complete s \<and> p = bd_current s \<and> score_valid scr \<and> (scr = score_pass \<or> scr > bd_highest_score s))) \<and>
    (\<forall>s' v. submit (Some s) p scr = Inr (s', v) \<longrightarrow> bd_count s' = bd_count s + 1 \<and> bd_count s' \<le> 3) \<and>
    (bd_complete s \<or> bd_count s < 3 \<and> valid_seat (bd_current s))"
proof -
  have inv: "bd_inv first s" using bd_reach_inv [OF assms(1)] by blast
  then have cur: "\<not> bd_complete s \<Longrightarrow> valid_seat (bd_current s)"
    using valid_next_seat_pow [OF bd_reach_first [OF assms(1)]] by (simp add: bd_inv_def next_position_eq)
  moreover have "\<not> bd_complete s \<Longrightarrow> bd_count s < 3"
    using inv length_bids [OF inv] by (auto simp: bd_inv_def auction_over_def)
  ultimately show ?thesis
    by (auto simp: submit_Inr record_bid_actions)
qed

text \<open>A concrete auction: seat 2 passes, seat 3 bids two, seat 1 bids three.\<close>

definition auction2 :: bid_state where
  "auction2 = record_bid (record_bid (new_bid_state 2) 2 0) 3 2"

definition auction3 :: bid_state where
  "auction3 = record_bid auction2 1 3"

lemma auction2_reach: "bd_reach 2 auction2"
proof -
  have "bd_reach 2 (new_bid_state 2)" by (rule bd_new) (simp add: valid_seat_def)
  moreover have "submit (Some (new_bid_state 2)) 2 0 = Inr (record_bid (new_bid_state 2) 2 0,
      bid_snapshot_of (Some (record_bid (new_bid_state 2) 2 0)))"
    by (simp add: submit_def submit_guards_def new_bid_state_def score_valid_def Let_def)
  ultimately have "bd_reach 2 (record_bid (new_bid_state 2) 2 0)" by (rule bd_submit)
  moreover have "submit (Some (record_bid (new_bid_state 2) 2 0)) 3 2 = Inr (auction2, bid_snapshot_of (Some auction2))"
    by (simp add: auction2_def submit_def submit_guards_def new_bid_state_def score_valid_def
        record_bid_def next_position_def Let_def)
  ultimately show ?thesis by (rule bd_submit)
qed

lemma auction3_reach: "bd_reach 2 auction3"
proof (rule bd_submit [OF auction2_reach])
  show "submit (Some auction2) 1 3 = Inr (auction3, bid_snapshot_of (Some auction3))"
    by (simp add: auction3_def auction2_def submit_def submit_guards_def new_bid_state_def score_valid_def
        record_bid_def next_position_def Let_def)
qed

theorem bidding_outcome_witness: "bd_complete auction3 \<and> valid_seat (bd_landlord auction3)"
proof -
  have "bd_complete auction3" "\<not> bd_no_landlord auction3"
    by (simp_all add: auction3_def auction2_def record_bid_def new_bid_state_def)
  with bidding_outcome [OF auction3_reach] show ?thesis by blast
qed

theorem bidding_progress_witness:
  "valid_seat (bd_current auction2) \<and> (\<forall>s' v. submit (Some auction2) 2 3 \<noteq> Inr (s', v))"
proof -
  have "\<not> bd_complete auction2" "bd_current auction2 = 1"
    by (simp_all add: auction2_def record_bid_def new_bid_state_def next_position_def)
  with bidding_progress [OF auction2_reach, of 2 3] show ?thesis by auto
qed

section \<open>The first bidder\<close>

lemma threshold_3: "threshold 3 = 1"
  unfolding threshold_def by code_simp

lemma u64_ge_1: "(1 :: u64) \<le> x \<longleftrightarrow> x \<noteq> 0"
proof -
  have "x \<noteq> 0 \<longleftrightarrow> unat x \<noteq> 0" by (simp add: unat_eq_0)
  then show ?thesis by (simp add: word_le_nat_alt Suc_le_eq)
qed

lemma gc_uniform_3:
  assumes "gc_new_stream seed = Inr s"
  shows "map_option (\<lambda>r. rbind r (\<lambda>(v, _). Inr (f v))) (gc_uniform gc_uint64 (Some s) 3) =
    (if \<forall>n. stream_word gc_random_block seed n = 0 then None
     else Some (Inr (f (stream_word gc_random_block seed
       (LEAST n. stream_word gc_random_block seed n \<noteq> 0) mod 3))))"
proof -
  let ?w = "stream_word gc_random_block seed"
  have s0: "stream_at gc_random_block seed (8 * 0) s" using gc_new_stream_at [OF assms] by simp
  have cases: "gc_uniform gc_uint64 (Some s) 3 = None \<or>
      (\<exists>v s'. gc_uniform gc_uint64 (Some s) 3 = Some (Inr (v, s')))"
    by (cases "gc_uniform gc_uint64 (Some s) 3") (auto simp: gc_uniform_def)
  have least: "?w n mod 3 = ?w (LEAST n. ?w n \<noteq> 0) mod 3" if "\<forall>k<n. ?w k = 0" "?w n \<noteq> 0" for n
  proof -
    have "(LEAST n. ?w n \<noteq> 0) = n"
    proof (rule Least_equality)
      show "?w n \<noteq> 0" by (rule that(2))
      show "n \<le> y" if "?w y \<noteq> 0" for y using \<open>\<forall>k<n. ?w k = 0\<close> that not_le by blast
    qed
    then show ?thesis by simp
  qed
  show ?thesis
  proof (cases "\<forall>n. ?w n = 0")
    case True
    have "gc_uniform gc_uint64 (Some s) 3 \<noteq> Some (Inr (v, s'))" for v s'
      using gc.uniform_draws [OF s0, of 3 v s'] True by (auto simp: gc_uniform_Inr threshold_3 u64_ge_1)
    with cases True show ?thesis by auto
  next
    case False
    then obtain n where "threshold 3 \<le> ?w (0 + n)" by (auto simp: threshold_3 u64_ge_1)
    then obtain v s' where u: "uniform gc_uint64 (Some s) 3 = Some (Inr (v, s'))"
      using gc.uniform_returns [OF s0, of 3] by auto
    obtain m where m: "\<forall>k<m. ?w k < 1" "1 \<le> ?w m" "v = ?w m mod 3"
      using gc.uniform_draws [OF s0 u] unfolding threshold_3 by auto
    have "?w k = 0" if "k < m" for k using m(1) that u64_ge_1 [of "?w k"] by (simp add: not_le [symmetric])
    with m(2,3) least [of m] have "v = ?w (LEAST n. ?w n \<noteq> 0) mod 3" by (simp add: u64_ge_1)
    with u False show ?thesis by (simp add: gc_uniform_Inr [THEN iffD2, OF u])
  qed
qed

lemma first_bidder_eq:
  "derive_first_bidder digest =
    (let seed = sha256 (str_bytes first_bidder_domain @ [0] @ digest);
         w = stream_word gc_random_block seed
     in if all_zero digest then Some (Inl (Bidding_Err BdInvalidDealDigest))
        else if all_zero seed then Some (Inl (Gamecore GcInvalidArgument))
        else if \<forall>n. w n = 0 then None
        else Some (Inr (ucast (w (LEAST n. w n \<noteq> 0) mod 3 + 1))))"
proof -
  define seed where "seed = sha256 (str_bytes first_bidder_domain @ [0] @ digest)"
  show ?thesis
    unfolding derive_first_bidder_def seed_def [symmetric] Let_def
  proof (cases "all_zero digest \<or> all_zero seed")
    case False
    then obtain st where st: "gc_new_stream seed = Inr st" by (simp add: gc_new_stream_def)
    show "(if all_zero digest then Some (Inl (Bidding_Err BdInvalidDealDigest))
        else case gc_new_stream seed of
               Inl e \<Rightarrow> Some (Inl e)
             | Inr stream \<Rightarrow> map_option (\<lambda>r. rbind r (\<lambda>(value, _). Inr (ucast (value + 1))))
                 (gc_uniform gc_uint64 (Some stream) 3)) =
      (if all_zero digest then Some (Inl (Bidding_Err BdInvalidDealDigest))
       else if all_zero seed then Some (Inl (Gamecore GcInvalidArgument))
       else if \<forall>n. stream_word gc_random_block seed n = 0 then None
       else Some (Inr (ucast (stream_word gc_random_block seed
              (LEAST n. stream_word gc_random_block seed n \<noteq> 0) mod 3 + 1))))"
      using False gc_uniform_3 [OF st, of "\<lambda>v. ucast (v + 1)"] by (simp only: st sum.case if_False de_Morgan_disj not_False_eq_True simp_thms)
  qed (auto simp: gc_new_stream_def)
qed

lemma residues_3:
  "card {c :: u64. c \<noteq> 0 \<and> c mod 3 = r} = (if r = 0 \<or> r = 1 \<or> r = 2 then 2 ^ 64 div 3 else 0)"
proof (cases "r = 0 \<or> r = 1 \<or> r = 2")
  case True
  then have "unat r < unat (3 :: u64)" by auto
  from uniform_unbiased_card [OF this] show ?thesis
    using True by (simp add: threshold_3 u64_ge_1)
next
  case False
  have "c mod 3 \<noteq> r" for c :: u64
  proof
    assume "c mod 3 = r"
    then have "unat r < 3" by (auto simp: unat_mod)
    then have "unat r = 0 \<or> unat r = 1 \<or> unat r = 2" by linarith
    with False show False by (auto simp: word_unat_eq_iff)
  qed
  with False show ?thesis by simp
qed

text \<open>The first bidder is fixed by the deal digest. With \<open>seed\<close> the SHA-256 of the domain and the
  digest, it is one plus the first nonzero 64-bit word of the seed's HMAC keystream modulo three:
  the sampler rejects only the word 0, so the three seats get equally many words.\<close>

theorem first_bidder_spec:
  "derive_first_bidder digest =
    (let seed = sha256 (str_bytes first_bidder_domain @ [0] @ digest);
         w = (\<lambda>n. be_join (map (\<lambda>i. gc_random_block seed (word_of_nat (i div 32)) ! (i mod 32)) [8 * n..<8 * n + 8]) :: u64)
     in if all_zero digest then Some (Inl (Bidding_Err BdInvalidDealDigest))
        else if all_zero seed then Some (Inl (Gamecore GcInvalidArgument))
        else if \<forall>n. w n = 0 then None
        else Some (Inr (ucast (w (LEAST n. w n \<noteq> 0) mod 3 + 1)))) \<and>
   (\<forall>r :: u64. card {c. c \<noteq> 0 \<and> c mod 3 = r} = (if r = 0 \<or> r = 1 \<or> r = 2 then 2 ^ 64 div 3 else 0))"
proof (rule conjI)
  have w: "stream_word gc_random_block seed =
      (\<lambda>n. be_join (map (\<lambda>i. gc_random_block seed (word_of_nat (i div 32)) ! (i mod 32)) [8 * n..<8 * n + 8]))" for seed
    by (rule ext) (simp only: stream_word_def keystream_def [abs_def])
  show "derive_first_bidder digest =
    (let seed = sha256 (str_bytes first_bidder_domain @ [0] @ digest);
         w = (\<lambda>n. be_join (map (\<lambda>i. gc_random_block seed (word_of_nat (i div 32)) ! (i mod 32)) [8 * n..<8 * n + 8]) :: u64)
     in if all_zero digest then Some (Inl (Bidding_Err BdInvalidDealDigest))
        else if all_zero seed then Some (Inl (Gamecore GcInvalidArgument))
        else if \<forall>n. w n = 0 then None
        else Some (Inr (ucast (w (LEAST n. w n \<noteq> 0) mod 3 + 1))))"
    unfolding first_bidder_eq w ..
  show "\<forall>r :: u64. card {c. c \<noteq> 0 \<and> c mod 3 = r} = (if r = 0 \<or> r = 1 \<or> r = 2 then 2 ^ 64 div 3 else 0)"
    using residues_3 by blast
qed

end
