(* ===== verification/Settlement.thy ===== *)
theory Settlement
  imports Bidding
begin

text \<open>
  \<open>settlement/settlement.go\<close>: the score of a finished hand. \<open>Calculate\<close> checks the playing
  snapshot again from its history, counts bombs and rockets, detects spring and anti-spring, and
  pays the three seats. The points are Go \<open>int64\<close>, read with \<open>sint\<close>.
\<close>

type_synonym i64 = "64 word"

definition settlement_rules_version :: string where
  "settlement_rules_version = ''doudizhu-settlement-v1''"

definition max_bombs :: nat where "max_bombs = 13"
definition max_rockets :: nat where "max_rockets = 1"
definition max_multiplier_exponent :: nat where
  "max_multiplier_exponent = max_bombs + max_rockets + 1"

record settlement_input =
  in_landlord :: u8
  in_score :: score
  in_playing :: pl_snapshot

record settlement_result =
  res_version :: string
  res_landlord :: u8
  res_winner :: u8
  res_landlord_won :: bool
  res_base :: u8
  res_bombs :: u8
  res_rockets :: u8
  res_spring :: bool
  res_anti_spring :: bool
  res_multiplier :: u64
  res_stake :: u64
  res_points :: "i64 list"

section \<open>Checking the input\<close>

definition settlement_validate :: "settlement_input \<Rightarrow> go_error + unit" where
  "settlement_validate i =
     (let p = in_playing i; bad = Inl (Settlement_Err StInvalidInput) in
      if in_landlord i < 1 \<or> in_landlord i > 3 then bad
      else if in_score i < score_one \<or> in_score i > score_three then bad
      else if ps_version p \<noteq> playing_state_version \<or> \<not> ps_complete p \<or> ps_winner p < 1
              \<or> ps_winner p > 3 \<or> ps_current p \<noteq> 0 then bad
      else if length (ps_history p) = 0 \<or> ps_revision p \<noteq> word_of_nat (length (ps_history p)) then bad
      else let final = last (ps_history p)
           in if act_type final \<noteq> ActionPlay \<or> act_seat final \<noteq> ps_winner p then bad else Inr ())"

text \<open>The inner loop over the cards of one play, with the array of cards seen so far.\<close>

fun mark_seen :: "card list \<Rightarrow> bool list \<Rightarrow> go_error + bool list" where
  "mark_seen [] seen = Inr seen"
| "mark_seen (c # cs) seen =
     (if seen ! unat c then Inl (Settlement_Err StInvalidInput)
      else mark_seen cs (seen[unat c := True]))"

record tally =
  ta_plays :: "nat list"
  ta_bombs :: nat
  ta_rockets :: nat
  ta_seen :: "bool list"

definition tally_play :: "action \<Rightarrow> pattern \<Rightarrow> bool list \<Rightarrow> tally \<Rightarrow> tally" where
  "tally_play a p seen t =
     (let seat = unat (act_seat a - 1);
          t1 = t\<lparr>ta_seen := seen, ta_plays := (ta_plays t)[seat := ta_plays t ! seat + 1]\<rparr>
      in case pat_kind p of
           KindBomb \<Rightarrow> t1\<lparr>ta_bombs := ta_bombs t1 + 1\<rparr>
         | KindRocket \<Rightarrow> t1\<lparr>ta_rockets := ta_rockets t1 + 1\<rparr>
         | _ \<Rightarrow> t1)"

fun scan_history :: "nat \<Rightarrow> action list \<Rightarrow> tally \<Rightarrow> go_error + tally" where
  "scan_history index [] t = Inr t"
| "scan_history index (a # h) t =
     (let bad = Inl (Settlement_Err StInvalidInput) in
      if act_number a \<noteq> word_of_nat (index + 1) \<or> act_seat a < 1 \<or> act_seat a > 3 then bad
      else case act_type a of
        ActionPass \<Rightarrow>
          if length (act_cards a) \<noteq> 0 \<or> act_pattern a \<noteq> None then bad
          else scan_history (Suc index) h t
      | ActionPlay \<Rightarrow>
          (case act_pattern a of
             None \<Rightarrow> bad
           | Some p \<Rightarrow>
               if length (act_cards a) = 0 then bad
               else (case analyze (act_cards a) of
                   Inl e \<Rightarrow> bad
                 | Inr analyzed \<Rightarrow>
                     if analyzed \<noteq> p then bad
                     else rbind (mark_seen (act_cards a) (ta_seen t)) (\<lambda>seen.
                       scan_history (Suc index) h (tally_play a p seen t))))
      | ActionOther s \<Rightarrow> bad)"

definition empty_tally :: tally where
  "empty_tally = \<lparr>ta_plays = [0, 0, 0], ta_bombs = 0, ta_rockets = 0, ta_seen = replicate deck_size False\<rparr>"

section \<open>Calculate\<close>

definition seat_points :: "u8 \<Rightarrow> bool \<Rightarrow> i64 \<Rightarrow> i64 list" where
  "seat_points landlord won stake =
     map (\<lambda>seat. if won then (if seat = landlord then 2 * stake else - stake)
                  else (if seat = landlord then - 2 * stake else stake)) [1, 2, 3]"

definition farmers_played :: "u8 \<Rightarrow> nat list \<Rightarrow> nat" where
  "farmers_played landlord by_seat =
     sum_list (map (\<lambda>seat. if seat \<noteq> landlord then by_seat ! unat (seat - 1) else 0) [1, 2, 3])"

definition calculate :: "settlement_input \<Rightarrow> go_error + settlement_result" where
  "calculate i =
     rbind (settlement_validate i) (\<lambda>_.
     rbind (scan_history 0 (ps_history (in_playing i)) empty_tally) (\<lambda>t.
       let bad = Inl (Settlement_Err StInvalidInput);
           landlord = in_landlord i;
           won = (ps_winner (in_playing i) = landlord);
           spring = (won \<and> farmers_played landlord (ta_plays t) = 0);
           anti_spring = (\<not> won \<and> ta_plays t ! unat (landlord - 1) = 1);
           exponent = ta_bombs t + ta_rockets t + (if spring \<or> anti_spring then 1 else 0);
           multiplier = push_bit exponent (1 :: u64);
           base = (ucast (in_score i) :: u64);
           stake = base * multiplier
       in if ta_bombs t > max_bombs \<or> ta_rockets t > max_rockets then bad
          else if exponent > max_multiplier_exponent then bad
          else if base > (- 1) div multiplier then bad
          else if stake > (2 ^ 63 - 1) div 2 then bad
          else Inr \<lparr>res_version = settlement_rules_version, res_landlord = landlord,
                    res_winner = ps_winner (in_playing i), res_landlord_won = won,
                    res_base = in_score i, res_bombs = word_of_nat (ta_bombs t),
                    res_rockets = word_of_nat (ta_rockets t), res_spring = spring,
                    res_anti_spring = anti_spring, res_multiplier = multiplier, res_stake = stake,
                    res_points = seat_points landlord won stake\<rparr>))"

section \<open>What the history scan accepts\<close>

definition plays_by :: "u8 \<Rightarrow> action list \<Rightarrow> nat" where
  "plays_by seat h = length (filter (\<lambda>a. act_type a = ActionPlay \<and> act_seat a = seat) h)"

definition kinds_played :: "kind \<Rightarrow> action list \<Rightarrow> nat" where
  "kinds_played k h =
     length (filter (\<lambda>a. act_type a = ActionPlay \<and> map_option pat_kind (act_pattern a) = Some k) h)"

definition played_cards :: "action list \<Rightarrow> card list" where
  "played_cards h = concat (map act_cards h)"

definition history_ok :: "nat \<Rightarrow> action list \<Rightarrow> bool" where
  "history_ok n h \<longleftrightarrow> (\<forall>a \<in> set h. entry_ok a) \<and>
     map act_number h = map word_of_nat [Suc n..<Suc n + length h] \<and> distinct (played_cards h)"

text \<open>\<open>marks seen cs seen'\<close>: the array \<open>seen'\<close> flags what \<open>seen\<close> flags and the cards \<open>cs\<close>.\<close>

definition marks :: "bool list \<Rightarrow> card list \<Rightarrow> bool list \<Rightarrow> bool" where
  "marks seen cs seen' \<longleftrightarrow> length seen' = length seen \<and>
     (\<forall>c. card_valid c \<longrightarrow> seen' ! unat c = (seen ! unat c \<or> c \<in> set cs))"

definition unmarked :: "bool list \<Rightarrow> card list \<Rightarrow> bool" where
  "unmarked seen cs \<longleftrightarrow> distinct cs \<and> (\<forall>c \<in> set cs. \<not> seen ! unat c)"

lemma marks_step:
  "length seen = deck_size \<Longrightarrow> card_valid c \<Longrightarrow> card_valid x \<Longrightarrow>
    seen[unat c := True] ! unat x = (x = c \<or> seen ! unat x)"
  by (auto simp: nth_list_update card_valid_def word_unat_eq_iff)

lemma mark_seen_spec:
  assumes "length seen = deck_size" and "\<forall>c \<in> set cs. card_valid c"
  shows "if unmarked seen cs then \<exists>seen'. mark_seen cs seen = Inr seen' \<and> marks seen cs seen'
    else mark_seen cs seen = Inl (Settlement_Err StInvalidInput)"
  using assms
proof (induction cs arbitrary: seen)
  case Nil
  show ?case by (simp add: unmarked_def marks_def)
next
  case (Cons c cs)
  let ?seen = "seen[unat c := True]"
  note upd = marks_step [OF Cons.prems(1), of c]
  show ?case
  proof (cases "seen ! unat c")
    case True
    then show ?thesis by (simp add: unmarked_def)
  next
    case False
    have len: "length ?seen = deck_size" and v: "\<forall>x \<in> set cs. card_valid x" using Cons.prems by simp_all
    have um: "unmarked seen (c # cs) = unmarked ?seen cs"
      using False upd Cons.prems by (auto simp: unmarked_def)
    have mk: "marks seen (c # cs) s' = marks ?seen cs s'" for s'
      using upd Cons.prems by (auto simp: marks_def)
    show ?thesis
      using Cons.IH [OF len v] False unfolding um mk by simp
  qed
qed

lemma played_cards_Cons [simp]: "played_cards (a # h) = act_cards a @ played_cards h"
  by (simp add: played_cards_def)

lemma played_cards_Nil [simp]: "played_cards [] = []"
  by (simp add: played_cards_def)

lemma unmarked_append:
  "marks seen cs seen' \<Longrightarrow> \<forall>c \<in> set ds. card_valid c \<Longrightarrow>
    unmarked seen (cs @ ds) \<longleftrightarrow> unmarked seen cs \<and> unmarked seen' ds"
  by (auto simp: unmarked_def marks_def)

lemma history_ok_Cons:
  "history_ok n (a # h) \<longleftrightarrow> entry_ok a \<and> act_number a = word_of_nat (Suc n) \<and>
     history_ok (Suc n) h \<and> distinct (act_cards a @ played_cards h)"
proof -
  have "[Suc n..<Suc n + length (a # h)] = Suc n # [Suc (Suc n)..<Suc (Suc n) + length h]"
    by (simp add: upt_conv_Cons del: upt_Suc)
  then show ?thesis by (auto simp only: history_ok_def list.map list.set played_cards_Cons distinct_append insert_iff ball_simps list.inject)
qed

lemma entry_cards_valid: "entry_ok a \<Longrightarrow> \<forall>c \<in> set (act_cards a). card_valid c"
  using analyze_sound_facts(1) by (auto simp: entry_ok_def playable_def split: action_type.splits)

lemma history_cards_valid: "\<forall>a \<in> set h. entry_ok a \<Longrightarrow> \<forall>c \<in> set (played_cards h). card_valid c"
  using entry_cards_valid by (auto simp: played_cards_def)

lemma history_ok_valid: "history_ok n h \<Longrightarrow> \<forall>c \<in> set (played_cards h). card_valid c"
  by (rule history_cards_valid) (simp add: history_ok_def)

definition counts_as :: "action list \<Rightarrow> tally \<Rightarrow> tally \<Rightarrow> bool" where
  "counts_as h t t' \<longleftrightarrow>
     ta_plays t' = [ta_plays t ! 0 + plays_by 1 h, ta_plays t ! 1 + plays_by 2 h, ta_plays t ! 2 + plays_by 3 h] \<and>
     ta_bombs t' = ta_bombs t + kinds_played KindBomb h \<and>
     ta_rockets t' = ta_rockets t + kinds_played KindRocket h"

lemma tally_play_sel [simp]:
  "ta_plays (tally_play a p seen t) =
     (ta_plays t)[unat (act_seat a - 1) := ta_plays t ! unat (act_seat a - 1) + 1]"
  "ta_bombs (tally_play a p seen t) = ta_bombs t + (if pat_kind p = KindBomb then 1 else 0)"
  "ta_rockets (tally_play a p seen t) = ta_rockets t + (if pat_kind p = KindRocket then 1 else 0)"
  "ta_seen (tally_play a p seen t) = seen"
  by (simp_all add: tally_play_def Let_def split: kind.split)

lemma counts_as_play:
  assumes "length (ta_plays t) = 3" and "valid_seat (act_seat a)" and "act_type a = ActionPlay"
    and "act_pattern a = Some p" and "counts_as h (tally_play a p seen t) t'"
  shows "counts_as (a # h) t t'"
proof -
  obtain x y z where t: "ta_plays t = [x, y, z]" using length3_exhaust [OF assms(1)] by blast
  show ?thesis
    using assms(2-) by (auto simp: counts_as_def plays_by_def kinds_played_def t valid_seat_cases)
qed

lemma counts_as_pass: "act_type a = ActionPass \<Longrightarrow> counts_as (a # h) t t' = counts_as h t t'"
  by (simp add: counts_as_def plays_by_def kinds_played_def)

lemma scan_play_step:
  assumes "length (ta_seen t) = deck_size" and "act_type a = ActionPlay"
  shows "scan_history n (a # h) t = Inr t' \<longleftrightarrow>
    entry_ok a \<and> act_number a = word_of_nat (Suc n) \<and> unmarked (ta_seen t) (act_cards a) \<and>
    (\<exists>p seen. act_pattern a = Some p \<and> mark_seen (act_cards a) (ta_seen t) = Inr seen \<and>
       marks (ta_seen t) (act_cards a) seen \<and> scan_history (Suc n) h (tally_play a p seen t) = Inr t')"
proof (cases "entry_ok a")
  case True
  then obtain p where p: "act_pattern a = Some p" "analyze (act_cards a) = Inr p" "valid_seat (act_seat a)"
    using assms(2) by (auto simp: entry_ok_def)
  have ne: "act_cards a \<noteq> []" using analyze_sound_facts(1) [OF p(2)] by (auto simp: playable_def)
  show ?thesis
    using p ne assms True mark_seen_spec [OF assms(1) entry_cards_valid [OF True]]
    by (cases "unmarked (ta_seen t) (act_cards a)")
      (auto simp: Let_def rbind_eq_Inr valid_seat_def)
next
  case False
  then show ?thesis
    using assms(2) by (auto simp: Let_def entry_ok_def valid_seat_def rbind_eq_Inr split: if_splits option.splits sum.splits)
qed

lemma scan_pass_step:
  "act_type a = ActionPass \<Longrightarrow> scan_history n (a # h) t = Inr t' \<longleftrightarrow>
    entry_ok a \<and> act_number a = word_of_nat (Suc n) \<and> scan_history (Suc n) h t = Inr t'"
  by (auto simp: Let_def entry_ok_def valid_seat_def)

lemma scan_history_sound:
  assumes "length (ta_plays t) = 3" and "length (ta_seen t) = deck_size" and "scan_history n h t = Inr t'"
  shows "history_ok n h \<and> unmarked (ta_seen t) (played_cards h) \<and> counts_as h t t'"
  using assms
proof (induction h arbitrary: n t)
  case Nil
  then show ?case
    using length3_exhaust [OF Nil(1)] by (auto simp: history_ok_def unmarked_def counts_as_def plays_by_def kinds_played_def)
next
  case (Cons a h)
  show ?case
  proof (cases "act_type a")
    case ActionPlay
    then obtain p seen where st: "entry_ok a" "act_number a = word_of_nat (Suc n)"
        "unmarked (ta_seen t) (act_cards a)" "act_pattern a = Some p" "marks (ta_seen t) (act_cards a) seen"
        "scan_history (Suc n) h (tally_play a p seen t) = Inr t'"
      using Cons.prems scan_play_step by blast
    have len: "length seen = deck_size" using st(5) Cons.prems(2) by (simp add: marks_def)
    from Cons.IH [OF _ _ st(6)] Cons.prems(1) len
    have IH: "history_ok (Suc n) h" "unmarked seen (played_cards h)" "counts_as h (tally_play a p seen t) t'"
      by simp_all
    have v: "\<forall>c \<in> set (played_cards h). card_valid c"
      by (rule history_ok_valid [OF IH(1)])
    have um: "unmarked (ta_seen t) (act_cards a @ played_cards h)"
      using unmarked_append [OF st(5) v] st(3) IH(2) by blast
    have "valid_seat (act_seat a)" using st(1) by (simp add: entry_ok_def)
    then have "counts_as (a # h) t t'"
      using counts_as_play [OF Cons.prems(1) _ ActionPlay st(4) IH(3)] by blast
    then show ?thesis using um IH(1) st(1,2) by (simp add: history_ok_Cons unmarked_def)
  next
    case ActionPass
    then have st: "entry_ok a" "act_number a = word_of_nat (Suc n)" "scan_history (Suc n) h t = Inr t'"
      using Cons.prems(3) scan_pass_step by blast+
    from Cons.IH [OF Cons.prems(1,2) st(3)] ActionPass st(1,2)
    show ?thesis by (auto simp: history_ok_Cons entry_ok_def counts_as_pass unmarked_def)
  next
    case (ActionOther s)
    with Cons.prems(3) show ?thesis by (simp add: Let_def split: if_splits)
  qed
qed

lemma scan_history_complete:
  assumes "length (ta_seen t) = deck_size" and "history_ok n h" and "unmarked (ta_seen t) (played_cards h)"
  shows "\<exists>t'. scan_history n h t = Inr t'"
  using assms
proof (induction h arbitrary: n t)
  case (Cons a h)
  have a: "entry_ok a" "act_number a = word_of_nat (Suc n)" and h: "history_ok (Suc n) h"
    using Cons.prems(2) by (simp_all add: history_ok_Cons)
  show ?case
  proof (cases "act_type a")
    case ActionPlay
    then obtain p where p: "act_pattern a = Some p" using a(1) by (auto simp: entry_ok_def)
    have um: "unmarked (ta_seen t) (act_cards a)" using Cons.prems(3) by (simp add: unmarked_def)
    obtain seen where seen: "mark_seen (act_cards a) (ta_seen t) = Inr seen" "marks (ta_seen t) (act_cards a) seen"
      using mark_seen_spec [OF Cons.prems(1) entry_cards_valid [OF a(1)]] um by auto
    have v: "\<forall>c \<in> set (played_cards h). card_valid c"
      by (rule history_ok_valid [OF h])
    have "unmarked seen (played_cards h)" using unmarked_append [OF seen(2) v] Cons.prems(3) by simp
    moreover have "length seen = deck_size" using seen(2) Cons.prems(1) by (simp add: marks_def)
    ultimately obtain t' where "scan_history (Suc n) h (tally_play a p seen t) = Inr t'"
      using Cons.IH [OF _ h, of "tally_play a p seen t"] by auto
    then show ?thesis using scan_play_step [OF Cons.prems(1) ActionPlay] a um p seen by blast
  next
    case ActionPass
    then have "unmarked (ta_seen t) (played_cards h)" using Cons.prems(3) a(1) by (simp add: entry_ok_def)
    then show ?thesis using Cons.IH [OF Cons.prems(1) h] scan_pass_step [OF ActionPass] a by blast
  next
    case (ActionOther s)
    with a(1) show ?thesis by (simp add: entry_ok_def)
  qed
qed simp

section \<open>Bombs and rockets are bounded by the deck\<close>

lemma valid_cards_length: "\<forall>c \<in> set cs. card_valid c \<Longrightarrow> distinct cs \<Longrightarrow> length cs \<le> deck_size"
proof -
  assume v: "\<forall>c \<in> set cs. card_valid c" and d: "distinct cs"
  have "inj_on (unat :: card \<Rightarrow> nat) (set cs)" by (rule inj_onI) (simp add: word_unat_eq_iff)
  then have "card (set cs) = card (unat ` set cs)" by (simp add: card_image)
  also have "unat ` set cs \<subseteq> {..<deck_size}" using v by (auto simp: card_valid_def)
  then have "card (unat ` set cs) \<le> deck_size" using card_mono [of "{..<deck_size}"] by fastforce
  finally show ?thesis using distinct_card [OF d] by simp
qed

lemma entry_bomb_cards:
  assumes "entry_ok a" and "act_type a = ActionPlay" and "act_pattern a = Some p" and "pat_kind p = KindBomb"
  shows "length (act_cards a) = 4"
proof -
  have an: "analyze (act_cards a) = Inr p" using assms(1-3) by (auto simp: entry_ok_def)
  have v: "\<forall>c \<in> set (act_cards a). card_valid c" using analyze_sound_facts(1) [OF an] by (simp add: playable_def)
  have "fits KindBomb (unat (pat_main p)) (unat (pat_seqlen p)) (rank_table (act_cards a))"
    using analyze_sound_facts(2) [OF an] assms(4) by simp
  from fits_cards [OF length_rank_table this] show ?thesis by (simp add: sum_list_rank_table [OF v])
qed

lemma entry_rocket_cards:
  assumes "entry_ok a" and "act_type a = ActionPlay" and "act_pattern a = Some p" and "pat_kind p = KindRocket"
  shows "small_joker \<in> set (act_cards a)"
proof -
  have an: "analyze (act_cards a) = Inr p" using assms(1-3) by (auto simp: entry_ok_def)
  have v: "\<forall>c \<in> set (act_cards a). card_valid c" using analyze_sound_facts(1) [OF an] by (simp add: playable_def)
  have "rank_table (act_cards a) ! 13 = 1" using analyze_sound_facts(2) [OF an] assms(4) by simp
  then have "length (filter (\<lambda>c. rank_of c = 13) (act_cards a)) = 1" by (simp add: rank_table_nth)
  then obtain c where c: "c \<in> set (act_cards a)" "rank_of c = 13"
    by (metis (mono_tags, lifting) filter_empty_conv length_0_conv zero_neq_one)
  have "c = small_joker"
  proof (rule ccontr)
    assume "c \<noteq> small_joker"
    with c v have "unat c < 54" "c \<noteq> 52" "unat c div 4 = 13" "c \<noteq> 53"
      by (auto simp: rank_of_def card_valid_def deck_size_def split: if_splits)
    then have "unat c = 52 \<or> unat c = 53" by linarith
    with \<open>c \<noteq> 52\<close> \<open>c \<noteq> 53\<close> show False by (auto simp: u8_eq_nat)
  qed
  with c(1) show ?thesis by simp
qed

lemma bombs_cards:
  "\<forall>a \<in> set h. entry_ok a \<Longrightarrow> 4 * kinds_played KindBomb h \<le> length (played_cards h)"
proof (induction h)
  case (Cons a h)
  then show ?case using entry_bomb_cards [of a] by (auto simp: kinds_played_def)
qed (simp add: kinds_played_def)

lemma rockets_cards:
  "\<forall>a \<in> set h. entry_ok a \<Longrightarrow> kinds_played KindRocket h \<le> count_list (played_cards h) small_joker"
proof (induction h)
  case (Cons a h)
  have "1 \<le> count_list (act_cards a) small_joker" if "small_joker \<in> set (act_cards a)"
    using that count_list_0_iff [of "act_cards a" small_joker] by linarith
  then show ?case using Cons entry_rocket_cards [of a] by (force simp: kinds_played_def)
qed (simp add: kinds_played_def)

lemma count_list_distinct: "distinct xs \<Longrightarrow> count_list xs x \<le> 1"
  by (induction xs) (auto simp: count_list_0_iff)

lemma history_bounds:
  assumes "history_ok n h"
  shows "kinds_played KindBomb h \<le> max_bombs" and "kinds_played KindRocket h \<le> max_rockets"
proof -
  have e: "\<forall>a \<in> set h. entry_ok a" and d: "distinct (played_cards h)" using assms by (simp_all add: history_ok_def)
  have "length (played_cards h) \<le> 54"
    using valid_cards_length [OF history_ok_valid [OF assms] d] by (simp add: deck_size_def)
  with bombs_cards [OF e] show "kinds_played KindBomb h \<le> max_bombs" by (simp add: max_bombs_def)
  have "count_list (played_cards h) small_joker \<le> 1"
    using d by (rule count_list_distinct)
  with rockets_cards [OF e] show "kinds_played KindRocket h \<le> max_rockets" by (simp add: max_rockets_def)
qed

section \<open>The value of Calculate\<close>

text \<open>Spring: the landlord wins and no farmer ever played; anti-spring: a farmer wins and the
  landlord played only once.\<close>

definition doubled :: "u8 \<Rightarrow> bool \<Rightarrow> action list \<Rightarrow> bool" where
  "doubled landlord won h \<longleftrightarrow>
     (if won then \<forall>a \<in> set h. act_type a = ActionPlay \<longrightarrow> act_seat a = landlord
      else plays_by landlord h = 1)"

definition stake_of :: "u8 \<Rightarrow> bool \<Rightarrow> score \<Rightarrow> action list \<Rightarrow> nat" where
  "stake_of landlord won scr h =
     unat scr * 2 ^ (kinds_played KindBomb h + kinds_played KindRocket h + (if doubled landlord won h then 1 else 0))"

lemma farmers_played_zero:
  assumes "valid_seat landlord" and "counts_as h empty_tally t" and "\<forall>a \<in> set h. entry_ok a"
  shows "farmers_played landlord (ta_plays t) = 0 \<longleftrightarrow> (\<forall>a \<in> set h. act_type a = ActionPlay \<longrightarrow> act_seat a = landlord)"
proof -
  have seats: "act_seat a = 1 \<or> act_seat a = 2 \<or> act_seat a = 3" if "a \<in> set h" for a
    using that assms(3) by (auto simp: entry_ok_def valid_seat_cases)
  have p: "plays_by s h = 0 \<longleftrightarrow> (\<forall>a \<in> set h. act_type a = ActionPlay \<longrightarrow> act_seat a \<noteq> s)" for s
    by (auto simp: plays_by_def filter_empty_conv)
  have split: "(\<forall>a \<in> set h. act_type a = ActionPlay \<longrightarrow> act_seat a = l) \<longleftrightarrow> plays_by m h = 0 \<and> plays_by n h = 0"
    if "\<forall>a \<in> set h. act_seat a = l \<or> act_seat a = m \<or> act_seat a = n" "l \<noteq> m" "l \<noteq> n" for l m n
    unfolding p using that by blast
  have ta: "ta_plays t = [plays_by 1 h, plays_by 2 h, plays_by 3 h]"
    using assms(2) by (simp add: counts_as_def empty_tally_def)
  consider "landlord = 1" | "landlord = 2" | "landlord = 3" using assms(1) by (auto simp: valid_seat_cases)
  then show ?thesis
  proof cases
    case 1
    have "\<forall>a \<in> set h. act_seat a = 1 \<or> act_seat a = 2 \<or> act_seat a = 3" using seats by blast
    from split [OF this] 1 show ?thesis by (simp add: ta farmers_played_def)
  next
    case 2
    have "\<forall>a \<in> set h. act_seat a = 2 \<or> act_seat a = 1 \<or> act_seat a = 3" using seats by blast
    from split [OF this] 2 show ?thesis by (simp add: ta farmers_played_def)
  next
    case 3
    have "\<forall>a \<in> set h. act_seat a = 3 \<or> act_seat a = 1 \<or> act_seat a = 2" using seats by blast
    from split [OF this] 3 show ?thesis by (simp add: ta farmers_played_def)
  qed
qed

lemma landlord_plays:
  assumes "valid_seat landlord" and "counts_as h empty_tally t"
  shows "ta_plays t ! unat (landlord - 1) = plays_by landlord h"
  using assms by (auto simp: valid_seat_cases counts_as_def empty_tally_def)

lemma stake_bound:
  assumes "history_ok 0 h" and "(scr :: score) \<le> 3"
  shows "kinds_played KindBomb h + kinds_played KindRocket h + (if b then 1 else 0) \<le> 15"
    and "unat scr * 2 ^ (kinds_played KindBomb h + kinds_played KindRocket h + (if b then 1 else 0)) \<le> 98304"
proof -
  let ?e = "kinds_played KindBomb h + kinds_played KindRocket h + (if b then 1 else 0)"
  show e: "?e \<le> 15" using history_bounds [OF assms(1)] by (simp add: max_bombs_def max_rockets_def)
  have "(2 :: nat) ^ ?e \<le> 2 ^ 15" by (rule power_increasing [OF e]) simp
  moreover have "unat scr \<le> 3" using assms(2) by (simp add: u8_le_nat)
  ultimately have "unat scr * 2 ^ ?e \<le> 3 * 2 ^ 15" by (rule mult_le_mono [rotated])
  then show "unat scr * 2 ^ ?e \<le> 98304" by simp
qed

lemma i64_of_int:
  assumes "- (2 ^ 63) \<le> k" and "k < 2 ^ 63"
  shows "sint (word_of_int k :: i64) = k"
  using assms by (simp add: signed_of_int signed_take_bit_int_eq_self)

lemma u64_of_nat: "n < 2 ^ 64 \<Longrightarrow> unat (word_of_nat n :: u64) = n"
  by (simp add: unat_of_nat take_bit_nat_eq_self)

lemma push_bit_one: "push_bit e (1 :: u64) = word_of_nat (2 ^ e)"
  by (simp add: push_bit_eq_mult)

lemma stake_word:
  assumes "unat (scr :: score) * 2 ^ e \<le> 98304" and "e \<le> 15"
  shows "(ucast scr :: u64) * push_bit e 1 = word_of_nat (unat scr * 2 ^ e)"
    and "\<not> (- 1) div push_bit e 1 < (ucast scr :: u64)"
    and "\<not> (2 ^ 63 - 1) div 2 < (ucast scr :: u64) * push_bit e 1"
proof -
  have e: "(2 :: nat) ^ e \<le> 2 ^ 15" by (rule power_increasing [OF assms(2)]) simp
  then have m: "unat (push_bit e (1 :: u64)) = 2 ^ e"
    unfolding push_bit_one by (intro u64_of_nat) (rule le_less_trans, assumption, simp)
  have c: "(ucast scr :: u64) = word_of_nat (unat scr)" by (simp add: of_nat_unat)
  then show st: "(ucast scr :: u64) * push_bit e 1 = word_of_nat (unat scr * 2 ^ e)"
    by (simp add: push_bit_one)
  have us: "unat (ucast scr :: u64) = unat scr" 
    unfolding c by (rule u64_of_nat) (rule less_trans [OF unat_lt_256], simp)
  have "(2 ^ 64 - 1) div 2 ^ 15 \<le> (2 ^ 64 - 1) div (2 :: nat) ^ e"
    by (rule div_le_mono2) (use e in simp_all)
  moreover have "unat ((- 1 :: u64) div push_bit e 1) = (2 ^ 64 - 1) div 2 ^ e"
    unfolding unat_div m unsigned_minus_1_eq_mask mask_eq_exp_minus_1 by simp
  ultimately have "unat (ucast scr :: u64) \<le> unat ((- 1 :: u64) div push_bit e 1)"
    using unat_lt_256 [of scr] us by simp
  then show "\<not> (- 1) div push_bit e 1 < (ucast scr :: u64)" by (simp add: word_less_nat_alt)
  have "unat ((ucast scr :: u64) * push_bit e 1) = unat scr * 2 ^ e"
    unfolding st by (rule u64_of_nat) (use assms(1) in simp)
  then show "\<not> (2 ^ 63 - 1) div 2 < (ucast scr :: u64) * push_bit e 1"
    using assms(1) by (simp add: word_less_nat_alt unat_div)
qed

lemma point_values:
  assumes "n \<le> 98304"
  shows "sint (word_of_nat n :: i64) = int n" and "sint (- word_of_nat n :: i64) = - int n"
    and "sint (2 * word_of_nat n :: i64) = 2 * int n" and "sint (- (2 * word_of_nat n) :: i64) = - (2 * int n)"
  using i64_of_int [of "int n"] i64_of_int [of "- int n"] i64_of_int [of "2 * int n"]
    i64_of_int [of "- 2 * int n"] assms by simp_all


lemma seat_points_values:
  assumes "valid_seat landlord" and "n \<le> 98304"
  shows "map sint (seat_points landlord won (word_of_nat n)) =
    map (\<lambda>seat. (if won then 1 else - 1) * (if seat = landlord then 2 else - 1) * int n) [1, 2, 3]"
  using assms by (auto simp: seat_points_def point_values valid_seat_cases)

lemma calculate_Inr:
  "calculate i = Inr r \<longleftrightarrow> settlement_validate i = Inr () \<and> history_ok 0 (ps_history (in_playing i)) \<and>
    (let h = ps_history (in_playing i); l = in_landlord i; won = (ps_winner (in_playing i) = l);
         d = doubled l won h; n = stake_of l won (in_score i) h
     in r = \<lparr>res_version = settlement_rules_version, res_landlord = l,
          res_winner = ps_winner (in_playing i), res_landlord_won = won, res_base = in_score i,
          res_bombs = word_of_nat (kinds_played KindBomb h), res_rockets = word_of_nat (kinds_played KindRocket h),
          res_spring = (won \<and> d), res_anti_spring = (\<not> won \<and> d),
          res_multiplier = word_of_nat (2 ^ (kinds_played KindBomb h + kinds_played KindRocket h + (if d then 1 else 0))),
          res_stake = word_of_nat n, res_points = seat_points l won (word_of_nat n)\<rparr>)"
  (is "?L = ?R")
proof (cases "settlement_validate i = Inr () \<and> history_ok 0 (ps_history (in_playing i))")
  case True
  define h l won where "h = ps_history (in_playing i)" and "l = in_landlord i" and "won = (ps_winner (in_playing i) = l)"
  have ok: "history_ok 0 h" using True by (simp add: h_def)
  have l: "valid_seat l" and scr: "in_score i \<le> 3"
    using True by (auto simp: settlement_validate_def Let_def valid_seat_def l_def not_less split: if_splits)
  have um: "unmarked (ta_seen empty_tally) (played_cards h)"
    using ok history_ok_valid [OF ok] by (auto simp: unmarked_def empty_tally_def history_ok_def card_valid_def)
  have len: "length (ta_plays empty_tally) = 3" "length (ta_seen empty_tally) = deck_size"
    by (simp_all add: empty_tally_def)
  obtain t where t: "scan_history 0 h empty_tally = Inr t" using scan_history_complete [OF len(2) ok um] ..
  have cnt: "counts_as h empty_tally t" using scan_history_sound [OF len t] by blast
  have e: "\<forall>a \<in> set h. entry_ok a" using ok by (simp add: history_ok_def)
  have tb: "ta_bombs t = kinds_played KindBomb h" "ta_rockets t = kinds_played KindRocket h"
    using cnt by (simp_all add: counts_as_def empty_tally_def)
  have d: "(won \<and> farmers_played l (ta_plays t) = 0 \<or> \<not> won \<and> ta_plays t ! unat (l - 1) = 1) = doubled l won h"
    and s: "(won \<and> farmers_played l (ta_plays t) = 0) = (won \<and> doubled l won h)"
    and a: "(\<not> won \<and> ta_plays t ! unat (l - 1) = 1) = (\<not> won \<and> doubled l won h)"
    using farmers_played_zero [OF l cnt e] landlord_plays [OF l cnt] by (auto simp: doubled_def)
  let ?x = "kinds_played KindBomb h + kinds_played KindRocket h + (if doubled l won h then 1 else 0)"
  have x: "?x \<le> 15" "unat (in_score i) * 2 ^ ?x \<le> 98304" by (rule stake_bound [OF ok scr])+
  note w = stake_word [OF x(2,1)]
  have b: "\<not> (kinds_played KindBomb h > max_bombs \<or> kinds_played KindRocket h > max_rockets)"
    using history_bounds [OF ok] by auto
  have x': "\<not> ?x > max_multiplier_exponent" using x(1) by (simp add: max_multiplier_exponent_def max_bombs_def max_rockets_def)
  have "calculate i = Inr \<lparr>res_version = settlement_rules_version, res_landlord = l,
          res_winner = ps_winner (in_playing i), res_landlord_won = won, res_base = in_score i,
          res_bombs = word_of_nat (kinds_played KindBomb h), res_rockets = word_of_nat (kinds_played KindRocket h),
          res_spring = (won \<and> doubled l won h), res_anti_spring = (\<not> won \<and> doubled l won h),
          res_multiplier = word_of_nat (2 ^ ?x),
          res_stake = word_of_nat (unat (in_score i) * 2 ^ ?x),
          res_points = seat_points l won (word_of_nat (unat (in_score i) * 2 ^ ?x))\<rparr>"
    using True w b x'
    unfolding calculate_def Let_def h_def [symmetric] l_def [symmetric] won_def [symmetric] t rbind_Inr tb d
    by (simp only: t rbind_Inr tb d s a if_False push_bit_one)
  with True show ?thesis
    unfolding Let_def stake_of_def h_def [symmetric] l_def [symmetric] won_def [symmetric] by auto
next
  case False
  have "length (ta_plays empty_tally) = 3" "length (ta_seen empty_tally) = deck_size"
    by (simp_all add: empty_tally_def)
  from scan_history_sound [OF this] have "\<not> ?L" using False
    by (auto simp: calculate_def rbind_eq_Inr)
  with False show ?thesis by blast
qed


section \<open>Properties\<close>

text \<open>C22: what a settlement pays. The stake is the winning bid doubled once per bomb, once per
  rocket and once for a spring or anti-spring; the landlord wins or loses twice the stake, each
  farmer once, so the points sum to zero, and no machine integer overflowed on the way.\<close>

theorem settlement_pays:
  assumes "calculate i = Inr r"
  shows "let h = ps_history (in_playing i); l = in_landlord i; won = (ps_winner (in_playing i) = l);
      n = unat (in_score i) * 2 ^ (kinds_played KindBomb h + kinds_played KindRocket h + (if doubled l won h then 1 else 0))
    in res_landlord_won r = won \<and> unat (res_stake r) = n \<and> n \<le> 3 * 2 ^ 15 \<and>
      map sint (res_points r) =
        map (\<lambda>seat. (if won then 1 else - 1) * (if seat = l then 2 else - 1) * int n) [1, 2, 3] \<and>
      sum_list (map sint (res_points r)) = 0"
proof -
  let ?h = "ps_history (in_playing i)" and ?l = "in_landlord i"
  let ?won = "ps_winner (in_playing i) = ?l"
  have v: "settlement_validate i = Inr ()" and ok: "history_ok 0 ?h" using assms by (simp_all add: calculate_Inr)
  have l: "valid_seat ?l" and scr: "in_score i \<le> 3"
    using v by (auto simp: settlement_validate_def Let_def valid_seat_def not_less split: if_splits)
  have n: "stake_of ?l ?won (in_score i) ?h \<le> 98304" unfolding stake_of_def by (rule stake_bound [OF ok scr])
  define N where "N = stake_of ?l ?won (in_score i) ?h"
  have N: "N \<le> 98304" unfolding N_def by (rule n)
  then have u: "unat (word_of_nat N :: u64) = N" by (intro u64_of_nat) simp
  have r: "res_landlord_won r = ?won" "res_stake r = word_of_nat N"
      "res_points r = seat_points ?l ?won (word_of_nat N)"
    using assms by (simp_all add: calculate_Inr Let_def N_def)
  have pts: "map sint (res_points r) =
      map (\<lambda>seat. (if ?won then 1 else - 1) * (if seat = ?l then 2 else - 1) * int N) [1, 2, 3]"
    unfolding r by (rule seat_points_values [OF l N])
  have zero: "sum_list (map sint (res_points r)) = 0"
    unfolding pts using l by (auto simp: valid_seat_cases)
  have st: "unat (res_stake r) = N" unfolding r by (rule u)
  have le: "N \<le> 3 * 2 ^ 15" using N by simp
  show ?thesis
    unfolding Let_def stake_of_def [symmetric] N_def [symmetric]
    apply (rule conjI, rule r(1))
    apply (rule conjI, rule st)
    apply (rule conjI, rule le)
    apply (rule conjI, rule pts)
    apply (rule zero)
    done
qed

lemma finished_hand:
  assumes "pl_reach first s" and "pl_complete s" and "distinct (played_cards (pl_history s))"
    and "valid_seat landlord" and "scr \<in> {score_one, score_two, score_three}"
  shows "\<exists>r. calculate \<lparr>in_landlord = landlord, in_score = scr, in_playing = pl_snapshot_of (Some s)\<rparr> = Inr r \<and>
    res_winner r = pl_winner s \<and> act_seat (last (pl_history s)) = pl_winner s"
proof -
  have inv: "pl_inv s" by (rule pl_reach_inv [OF assms(1)])
  have tl: "tail_ok s" by (rule pl_reach_tail [OF assms(1)])
  obtain p where p: "pl_leading_pattern s = Some p" using inv assms(2) by (auto simp: pl_inv_def turn_ok_def split: option.splits)
  have win: "valid_seat (pl_winner s)" "pl_winner s = pl_leading_seat s" "pl_current s = 0" "pl_pass_count s = 0"
    using inv p assms(2) by (auto simp: pl_inv_def turn_ok_def)
  obtain g a where a: "pl_history s = g @ [a]" "act_type a = ActionPlay" "act_seat a = pl_winner s"
    using tl p win by (auto simp: tail_ok_def)
  have ok: "history_ok 0 (pl_history s)" using inv assms(3) by (simp add: pl_inv_def history_ok_def)
  let ?i = "\<lparr>in_landlord = landlord, in_score = scr, in_playing = pl_snapshot_of (Some s)\<rparr>"
  have rev: "pl_revision s = word_of_nat (length (pl_history s))" using inv by (simp add: pl_inv_def)
  have "settlement_validate ?i = Inr ()"
    using assms(2,4,5) win(1,3) a rev
    by (simp add: settlement_validate_def Let_def pl_snapshot_of_def valid_seat_def not_less) auto
  then have "\<exists>r. calculate ?i = Inr r \<and> res_winner r = pl_winner s"
    using ok by (simp add: calculate_Inr Let_def pl_snapshot_of_def)
  with a show ?thesis by auto
qed

text \<open>C23: every finished hand can be settled. A turn state reached by plays and passes, completed by
  its last play, whose plays used no card twice, is accepted by \<open>Calculate\<close> for every landlord
  seat and winning bid: none of its checks (numbering, seats, patterns, card reuse, counts,
  overflow) can fail, and the winner of the settlement is the seat that played last.\<close>

theorem finished_hand_settles:
  assumes "pl_reach first s" and "pl_complete s" and "distinct (played_cards (pl_history s))"
    and "valid_seat landlord" and "scr \<in> {score_one, score_two, score_three}"
  shows "\<exists>r. calculate \<lparr>in_landlord = landlord, in_score = scr, in_playing = pl_snapshot_of (Some s)\<rparr> = Inr r \<and>
    res_winner r = pl_winner s \<and> act_seat (last (pl_history s)) = pl_winner s"
  by (rule finished_hand [OF assms])

text \<open>Seat 2, the landlord, goes out with its first play: a spring.\<close>

definition run_win :: pl_state where
  "run_win = record_play (zero_state\<lparr>pl_current := 2\<rparr>) 2 [0] (mk_pattern KindSingle 0 1 1) True"

lemma reach_run_win: "pl_reach 2 run_win"
proof (rule reach_play [OF reach_new [OF run_new]])
  show "play (Some (zero_state\<lparr>pl_current := 2\<rparr>)) 2 [0] True = Inr (run_win, pl_snapshot_of (Some run_win))"
    by (simp add: play_Inr run_win_def analyze_3 valid_seat_def zero_state_def)
qed

lemma run_win_facts: "pl_complete run_win" "distinct (played_cards (pl_history run_win))" "pl_winner run_win = 2"
    "pl_history run_win = [\<lparr>act_number = 1, act_type = ActionPlay, act_seat = 2, act_cards = [0],
       act_pattern = Some (mk_pattern KindSingle 0 1 1)\<rparr>]"
  by (simp_all add: run_win_def zero_state_def)

lemma two_valid: "valid_seat 2" "(3 :: score) \<in> {score_one, score_two, score_three}"
  by (simp_all add: valid_seat_def)

theorem finished_hand_settles_witness:
  "\<exists>r. calculate \<lparr>in_landlord = 2, in_score = 3, in_playing = pl_snapshot_of (Some run_win)\<rparr> = Inr r \<and>
    res_winner r = 2"
  using finished_hand_settles [OF reach_run_win run_win_facts(1,2) two_valid] run_win_facts(3) by auto

theorem settlement_pays_witness:
  "\<exists>r. calculate \<lparr>in_landlord = 2, in_score = 3, in_playing = pl_snapshot_of (Some run_win)\<rparr> = Inr r \<and>
    map sint (res_points r) = [- 6, 12, - 6]"
proof -
  let ?i = "\<lparr>in_landlord = 2, in_score = 3, in_playing = pl_snapshot_of (Some run_win)\<rparr>"
  obtain r where r: "calculate ?i = Inr r"
    using finished_hand [OF reach_run_win run_win_facts(1,2) two_valid] by blast
  have h: "ps_history (in_playing ?i) = pl_history run_win" "ps_winner (in_playing ?i) = 2" "in_landlord ?i = 2"
    by (simp_all add: pl_snapshot_of_def run_win_facts)
  have "kinds_played KindBomb (pl_history run_win) = 0" "kinds_played KindRocket (pl_history run_win) = 0"
      "doubled 2 True (pl_history run_win)"
    by (simp_all add: run_win_facts kinds_played_def doubled_def mk_pattern_def)
  note k = this
  have sc: "unat (in_score ?i) = 3" by simp
  have "map sint (res_points r) = map (\<lambda>seat. (if (2 :: u8) = 2 then 1 else - 1) * (if seat = 2 then 2 else - 1) *
      int (3 * 2 ^ (0 + 0 + (if doubled 2 (2 = (2 :: u8)) (pl_history run_win) then 1 else 0)))) [1, 2, 3 :: u8]"
    using settlement_pays [OF r] unfolding Let_def h sc k(1,2) by (elim conjE) assumption
  moreover have "(2 = (2 :: u8)) = True" by simp
  ultimately have "map sint (res_points r) = [- 6, 12, - 6]" by (simp only: k(3) if_True) simp
  with r show ?thesis by (intro exI conjI)
qed

end
