(* ===== verification/Domain_Types.thy ===== *)
theory Domain_Types
  imports Go_Strings Go_Errors
begin

text \<open>
  \<open>domain/ids.go\<close>, \<open>domain/errors.go\<close> and \<open>domain/event.go\<close>: identifiers and seats, the optimistic
  version check of the aggregates, and the domain events, whose payload type is a parameter.
\<close>

type_synonym account_id = string
type_synonym room_id = string
type_synonym hand_id = string
type_synonym seat = u8

definition fixed_seats :: "seat list" where
  "fixed_seats = [1, 2, 3]"

definition seat_valid :: "seat \<Rightarrow> bool" where
  "seat_valid s \<longleftrightarrow> s \<ge> 1 \<and> s \<le> 3"

definition validate_identifier :: "string \<Rightarrow> go_error + unit" where
  "validate_identifier value =
     (let v = trim_space value in
      if v = [] then Inl (Domain DmInvalidArgument)
      else if length v > 128 then Inl (Domain DmInvalidArgument)
      else Inr ())"

definition check_expected_version :: "u64 \<Rightarrow> u64 \<Rightarrow> go_error + unit" where
  "check_expected_version actual expected =
     (if actual \<noteq> expected then Inl (Domain (DmVersionConflict expected actual)) else Inr ())"

datatype aggregate_type = AggregateRoom | AggregateHand

record 'p event =
  ev_type :: aggregate_type
  ev_id :: string
  ev_name :: string
  ev_version :: u64
  ev_payload :: 'p

lemma validate_identifier_Inr [result_simps]:
  "validate_identifier v = Inr u \<longleftrightarrow> trim_space v \<noteq> [] \<and> length (trim_space v) \<le> 128"
  by (auto simp: validate_identifier_def Let_def)

lemma validate_identifier_nonempty: "validate_identifier v = Inr u \<Longrightarrow> v \<noteq> []"
  by (auto simp: validate_identifier_Inr)

lemma check_expected_version_Inr [result_simps]:
  "check_expected_version actual expected = Inr u \<longleftrightarrow> expected = actual"
  by (auto simp: check_expected_version_def)

lemma length_fixed_seats [simp]: "length fixed_seats = 3"
  by (simp add: fixed_seats_def)

end
