(* ===== verification/Room.thy ===== *)
theory Room
  imports Domain_Types
begin

text \<open>
  \<open>domain/room.go\<close> and \<open>RestoreRoom\<close> of \<open>domain/restore.go\<close>: the room aggregate. A method that
  fails leaves the room as it was, so it returns the new room and its events only on success.
\<close>

section \<open>State and events\<close>

text \<open>Go's \<open>RoomStatus\<close> is a string; any string but the four constants is \<open>RoomStatusOther\<close>.\<close>

datatype room_status = RoomWaitingPlayers | RoomReady | RoomHandActive | RoomClosed | RoomStatusOther string

definition event_room_created :: string where "event_room_created = ''doudizhu.room.created.v1''"
definition event_room_player_joined :: string where
  "event_room_player_joined = ''doudizhu.room.player-joined.v1''"
definition event_room_player_left :: string where
  "event_room_player_left = ''doudizhu.room.player-left.v1''"
definition event_room_ready_changed :: string where
  "event_room_ready_changed = ''doudizhu.room.ready-changed.v1''"
definition event_room_hand_started :: string where
  "event_room_hand_started = ''doudizhu.room.hand-started.v1''"
definition event_room_hand_finished :: string where
  "event_room_hand_finished = ''doudizhu.room.hand-finished.v1''"
definition event_room_closed :: string where "event_room_closed = ''doudizhu.room.closed.v1''"

record room_seat =
  rs_account :: account_id
  rs_ready :: bool

record seat_snapshot =
  sn_seat :: seat
  sn_account :: account_id
  sn_ready :: bool

record room_snapshot =
  rn_id :: room_id
  rn_owner :: account_id
  rn_status :: room_status
  rn_seats :: "seat_snapshot list"
  rn_active_hand :: hand_id
  rn_last_hand :: hand_id
  rn_version :: u64

record room =
  rm_id :: room_id
  rm_owner :: account_id
  rm_status :: room_status
  rm_seats :: "room_seat list"
  rm_active_hand :: hand_id
  rm_last_hand :: hand_id
  rm_version :: u64

datatype room_payload =
    RoomCreatedPayload account_id seat
  | RoomPlayerPayload account_id seat
  | RoomReadyChangedPayload account_id seat bool
  | RoomHandPayload hand_id

record hand_seat =
  hs_seat :: seat
  hs_account :: account_id

definition empty_seat :: room_seat where
  "empty_seat = \<lparr>rs_account = [], rs_ready = False\<rparr>"

section \<open>Helpers\<close>

definition room_record :: "room \<Rightarrow> string \<Rightarrow> room_payload \<Rightarrow> room \<times> room_payload event" where
  "room_record r name payload =
     (let r' = r\<lparr>rm_version := rm_version r + 1\<rparr>
      in (r', \<lparr>ev_type = AggregateRoom, ev_id = rm_id r', ev_name = name,
               ev_version = rm_version r', ev_payload = payload\<rparr>))"

fun seat_of_loop :: "nat \<Rightarrow> room_seat list \<Rightarrow> account_id \<Rightarrow> seat option" where
  "seat_of_loop index [] account = None"
| "seat_of_loop index (s # ss) account =
     (if rs_account s = account then Some (fixed_seats ! index) else seat_of_loop (Suc index) ss account)"

definition seat_of :: "room \<Rightarrow> account_id \<Rightarrow> seat option" where
  "seat_of r account = seat_of_loop 0 (rm_seats r) account"

definition occupied_count :: "room \<Rightarrow> nat" where
  "occupied_count r = length (filter (\<lambda>s. rs_account s \<noteq> []) (rm_seats r))"

definition all_ready :: "room \<Rightarrow> bool" where
  "all_ready r = list_all (\<lambda>s. rs_account s \<noteq> [] \<and> rs_ready s) (rm_seats r)"

definition recalculate_status :: "room \<Rightarrow> room" where
  "recalculate_status r =
     (if rm_status r = RoomClosed then r
      else if rm_active_hand r \<noteq> [] then r\<lparr>rm_status := RoomHandActive\<rparr>
      else if occupied_count r = 3 \<and> all_ready r then r\<lparr>rm_status := RoomReady\<rparr>
      else r\<lparr>rm_status := RoomWaitingPlayers\<rparr>)"

definition room_snapshot_of :: "room \<Rightarrow> room_snapshot" where
  "room_snapshot_of r =
     \<lparr>rn_id = rm_id r, rn_owner = rm_owner r, rn_status = rm_status r,
      rn_seats = map (\<lambda>(sn, s). \<lparr>sn_seat = sn, sn_account = rs_account s, sn_ready = rs_ready s\<rparr>)
                   (zip fixed_seats (rm_seats r)),
      rn_active_hand = rm_active_hand r, rn_last_hand = rm_last_hand r, rn_version = rm_version r\<rparr>"

definition hand_seats :: "room \<Rightarrow> go_error + hand_seat list" where
  "hand_seats r =
     (if occupied_count r \<noteq> 3 then Inl (Domain DmRoomNotReady)
      else Inr (map (\<lambda>(sn, s). \<lparr>hs_seat = sn, hs_account = rs_account s\<rparr>) (zip fixed_seats (rm_seats r))))"

section \<open>Operations\<close>

type_synonym room_result = "go_error + room \<times> room_payload event list"

definition room_done :: "room \<Rightarrow> string \<Rightarrow> room_payload \<Rightarrow> room_result" where
  "room_done r name payload = (let (r', e) = room_record r name payload in Inr (r', [e]))"

definition new_room :: "room_id \<Rightarrow> account_id \<Rightarrow> room_result" where
  "new_room rid owner =
     rbind (validate_identifier rid) (\<lambda>_.
     rbind (validate_identifier owner) (\<lambda>_.
       room_done
         \<lparr>rm_id = rid, rm_owner = owner, rm_status = RoomWaitingPlayers,
          rm_seats = [\<lparr>rs_account = owner, rs_ready = False\<rparr>, empty_seat, empty_seat],
          rm_active_hand = [], rm_last_hand = [], rm_version = 0\<rparr>
         event_room_created (RoomCreatedPayload owner 1)))"

fun first_free :: "nat \<Rightarrow> room_seat list \<Rightarrow> nat option" where
  "first_free index [] = None"
| "first_free index (s # ss) = (if rs_account s = [] then Some index else first_free (Suc index) ss)"

definition join :: "room \<Rightarrow> account_id \<Rightarrow> u64 \<Rightarrow> room_result" where
  "join r actor expected =
     rbind (check_expected_version (rm_version r) expected) (\<lambda>_.
     rbind (validate_identifier actor) (\<lambda>_.
       if rm_status r = RoomClosed then Inl (Domain DmRoomClosed)
       else if rm_status r = RoomHandActive then Inl (Domain DmHandActive)
       else if seat_of r actor \<noteq> None then Inl (Domain DmAlreadySeated)
       else case first_free 0 (rm_seats r) of
         None \<Rightarrow> Inl (Domain DmRoomFull)
       | Some index \<Rightarrow>
           room_done
             (recalculate_status (r\<lparr>rm_seats := (rm_seats r)[index := \<lparr>rs_account = actor, rs_ready = False\<rparr>]\<rparr>))
             event_room_player_joined (RoomPlayerPayload actor (fixed_seats ! index))))"

definition leave :: "room \<Rightarrow> account_id \<Rightarrow> u64 \<Rightarrow> room_result" where
  "leave r actor expected =
     rbind (check_expected_version (rm_version r) expected) (\<lambda>_.
       if rm_status r = RoomClosed then Inl (Domain DmRoomClosed)
       else if rm_status r = RoomHandActive then Inl (Domain DmHandActive)
       else case seat_of r actor of
         None \<Rightarrow> Inl (Domain DmNotSeated)
       | Some seat \<Rightarrow>
           let vacated = r\<lparr>rm_seats := (rm_seats r)[unat (seat - 1) := empty_seat]\<rparr>
           in if actor = rm_owner r then
                (if occupied_count r > 1 then Inl (Domain DmOwnerMustRemain)
                 else room_done (vacated\<lparr>rm_status := RoomClosed\<rparr>)
                        event_room_closed (RoomPlayerPayload actor seat))
              else room_done (recalculate_status vacated)
                     event_room_player_left (RoomPlayerPayload actor seat))"

definition set_ready :: "room \<Rightarrow> account_id \<Rightarrow> bool \<Rightarrow> u64 \<Rightarrow> room_result" where
  "set_ready r actor ready expected =
     rbind (check_expected_version (rm_version r) expected) (\<lambda>_.
       if rm_status r = RoomClosed then Inl (Domain DmRoomClosed)
       else if rm_status r = RoomHandActive then Inl (Domain DmHandActive)
       else case seat_of r actor of
         None \<Rightarrow> Inl (Domain DmNotSeated)
       | Some seat \<Rightarrow>
           let current = rm_seats r ! unat (seat - 1)
           in if rs_ready current = ready then Inl (Domain DmNoStateChange)
              else room_done
                (recalculate_status (r\<lparr>rm_seats := (rm_seats r)[unat (seat - 1) := current\<lparr>rs_ready := ready\<rparr>]\<rparr>))
                event_room_ready_changed (RoomReadyChangedPayload actor seat ready))"

definition start_hand :: "room \<Rightarrow> account_id \<Rightarrow> hand_id \<Rightarrow> u64 \<Rightarrow> room_result" where
  "start_hand r actor hid expected =
     rbind (check_expected_version (rm_version r) expected) (\<lambda>_.
     rbind (reject (actor \<noteq> rm_owner r) (Domain DmForbidden)) (\<lambda>_.
     rbind (validate_identifier hid) (\<lambda>_.
       if rm_status r = RoomClosed then Inl (Domain DmRoomClosed)
       else if rm_active_hand r \<noteq> [] \<or> rm_status r = RoomHandActive then Inl (Domain DmHandActive)
       else if rm_status r \<noteq> RoomReady \<or> occupied_count r \<noteq> 3 \<or> \<not> all_ready r then Inl (Domain DmRoomNotReady)
       else room_done
         (r\<lparr>rm_active_hand := hid, rm_status := RoomHandActive,
            rm_seats := map (\<lambda>s. s\<lparr>rs_ready := False\<rparr>) (rm_seats r)\<rparr>)
         event_room_hand_started (RoomHandPayload hid))))"

text \<open>\<open>archiveAvailable\<close> is variadic in Go: an empty list is the call without it.\<close>

definition finish_hand :: "room \<Rightarrow> hand_id \<Rightarrow> u64 \<Rightarrow> bool list \<Rightarrow> room_result" where
  "finish_hand r hid expected archive_available =
     rbind (check_expected_version (rm_version r) expected) (\<lambda>_.
       if rm_status r \<noteq> RoomHandActive \<or> rm_active_hand r = [] \<or> rm_active_hand r \<noteq> hid
       then Inl (Domain DmHandNotActive)
       else room_done
         (recalculate_status (r\<lparr>rm_active_hand := [],
            rm_last_hand := (if archive_available = [] \<or> hd archive_available then hid else [])\<rparr>))
         event_room_hand_finished (RoomHandPayload hid))"

section \<open>Restoring\<close>

fun valid_room_status :: "room_status \<Rightarrow> bool" where
  "valid_room_status (RoomStatusOther s) = False"
| "valid_room_status _ = True"

fun restore_seats :: "seat list \<Rightarrow> seat_snapshot list \<Rightarrow> account_id list \<Rightarrow> go_error + room_seat list" where
  "restore_seats (expected # es) (current # cs) seen =
     (if sn_seat current \<noteq> expected then Inl (Domain DmInvalidArgument)
      else if sn_account current = [] then
        (if sn_ready current then Inl (Domain DmInvalidArgument)
         else rbind (restore_seats es cs seen) (\<lambda>ss. Inr (empty_seat # ss)))
      else rbind (validate_identifier (sn_account current)) (\<lambda>_.
        if sn_account current \<in> set seen then Inl (Domain DmInvalidArgument)
        else rbind (restore_seats es cs (sn_account current # seen)) (\<lambda>ss.
          Inr (\<lparr>rs_account = sn_account current, rs_ready = sn_ready current\<rparr> # ss))))"
| "restore_seats _ _ seen = Inr []"

definition validate_room_state :: "room \<Rightarrow> go_error + unit" where
  "validate_room_state r =
     (case rm_status r of
        RoomHandActive \<Rightarrow>
          rbind (reject (rm_active_hand r = [] \<or> occupied_count r \<noteq> 3) (Domain DmInvalidArgument)) (\<lambda>_.
            validate_identifier (rm_active_hand r))
      | RoomReady \<Rightarrow>
          reject (rm_active_hand r \<noteq> [] \<or> occupied_count r \<noteq> 3 \<or> \<not> all_ready r) (Domain DmInvalidArgument)
      | RoomWaitingPlayers \<Rightarrow>
          reject (rm_active_hand r \<noteq> [] \<or> (occupied_count r = 3 \<and> all_ready r)) (Domain DmInvalidArgument)
      | RoomClosed \<Rightarrow>
          reject (rm_active_hand r \<noteq> [] \<or> occupied_count r \<noteq> 0) (Domain DmInvalidArgument)
      | RoomStatusOther s \<Rightarrow> Inr ())"

definition restore_room :: "room_snapshot \<Rightarrow> go_error + room" where
  "restore_room snap =
     rbind (validate_identifier (rn_id snap)) (\<lambda>_.
     rbind (validate_identifier (rn_owner snap)) (\<lambda>_.
     rbind (reject (rn_version snap = 0) (Domain DmInvalidArgument)) (\<lambda>_.
     rbind (if rn_last_hand snap \<noteq> [] then validate_identifier (rn_last_hand snap) else Inr ()) (\<lambda>_.
     rbind (reject (\<not> valid_room_status (rn_status snap)) (Domain DmInvalidArgument)) (\<lambda>_.
     rbind (restore_seats fixed_seats (rn_seats snap) []) (\<lambda>seats.
       let r = \<lparr>rm_id = rn_id snap, rm_owner = rn_owner snap, rm_status = rn_status snap,
                rm_seats = seats, rm_active_hand = rn_active_hand snap,
                rm_last_hand = rn_last_hand snap, rm_version = rn_version snap\<rparr>
       in if rn_status snap \<noteq> RoomClosed \<and> rs_account (seats ! 0) \<noteq> rn_owner snap
          then Inl (Domain DmInvalidArgument)
          else rbind (validate_room_state r) (\<lambda>_. Inr r)))))))"

section \<open>Lookup on three seats\<close>

lemma seat_of_three:
  assumes "rm_seats r = [a, b, c]"
  shows "seat_of r x = (if rs_account a = x then Some 1 else if rs_account b = x then Some 2
    else if rs_account c = x then Some 3 else None)"
  by (simp add: seat_of_def assms fixed_seats_def numeral_2_eq_2)

lemma first_free_three:
  "first_free 0 [a, b, c] = (if rs_account a = [] then Some 0 else if rs_account b = [] then Some 1
    else if rs_account c = [] then Some 2 else None)"
  by (simp add: numeral_2_eq_2)

lemma recalculate_status_sel [simp]:
  "rm_id (recalculate_status r) = rm_id r" "rm_owner (recalculate_status r) = rm_owner r"
  "rm_seats (recalculate_status r) = rm_seats r" "rm_active_hand (recalculate_status r) = rm_active_hand r"
  "rm_last_hand (recalculate_status r) = rm_last_hand r" "rm_version (recalculate_status r) = rm_version r"
  by (simp_all add: recalculate_status_def)

section \<open>The room invariant\<close>

text \<open>What holds of the seats, whatever the status.\<close>

definition seats_ok :: "room_seat list \<Rightarrow> bool" where
  "seats_ok ss \<longleftrightarrow> length ss = 3 \<and> distinct (filter (\<lambda>x. x \<noteq> []) (map rs_account ss)) \<and>
     (\<forall>s \<in> set ss. if rs_account s = [] then \<not> rs_ready s else validate_identifier (rs_account s) = Inr ())"

definition room_inv :: "room \<Rightarrow> bool" where
  "room_inv r \<longleftrightarrow> validate_identifier (rm_id r) = Inr () \<and> validate_identifier (rm_owner r) = Inr () \<and>
     (rm_last_hand r \<noteq> [] \<longrightarrow> validate_identifier (rm_last_hand r) = Inr ()) \<and>
     valid_room_status (rm_status r) \<and> seats_ok (rm_seats r) \<and>
     (rm_status r \<noteq> RoomClosed \<longrightarrow> rs_account (rm_seats r ! 0) = rm_owner r) \<and>
     validate_room_state r = Inr ()"

lemma recalculate_inv:
  assumes "validate_identifier (rm_id r) = Inr ()" and "validate_identifier (rm_owner r) = Inr ()"
    and "rm_last_hand r \<noteq> [] \<longrightarrow> validate_identifier (rm_last_hand r) = Inr ()"
    and "rm_status r \<noteq> RoomClosed" and "rm_active_hand r = []"
    and "seats_ok (rm_seats r)" and "rs_account (rm_seats r ! 0) = rm_owner r"
  shows "room_inv (recalculate_status r)"
proof -
  have "rm_status (recalculate_status r) = (if occupied_count r = 3 \<and> all_ready r then RoomReady else RoomWaitingPlayers)"
    using assms(4,5) by (simp add: recalculate_status_def)
  then show ?thesis
    using assms by (simp add: room_inv_def validate_room_state_def occupied_count_def all_ready_def)
qed

lemma room_inv_record [simp]: "room_inv (r\<lparr>rm_version := v\<rparr>) = room_inv r"
  by (cases "rm_status r") (simp_all add: room_inv_def validate_room_state_def occupied_count_def all_ready_def)

lemma room_done_Inr:
  "room_done r name p = Inr (r', es) \<longleftrightarrow> r' = r\<lparr>rm_version := rm_version r + 1\<rparr> \<and>
    es = [\<lparr>ev_type = AggregateRoom, ev_id = rm_id r, ev_name = name, ev_version = rm_version r + 1, ev_payload = p\<rparr>]"
  by (auto simp: room_done_def room_record_def Let_def)

lemma room_seats3:
  assumes "room_inv r"
  obtains a b c where "rm_seats r = [a, b, c]"
proof -
  have "length (rm_seats r) = 3" using assms by (simp add: room_inv_def seats_ok_def)
  from length3_exhaust [OF this] that show ?thesis by blast
qed

lemma new_room_inv: "new_room rid owner = Inr (r, es) \<Longrightarrow> room_inv r"
  by (auto simp: new_room_def rbind_eq_Inr room_done_Inr room_inv_def seats_ok_def empty_seat_def
      validate_room_state_def occupied_count_def)

lemma open_room:
  assumes "room_inv r" and "rm_status r \<noteq> RoomClosed" and "rm_status r \<noteq> RoomHandActive"
  shows "rm_active_hand r = []"
  using assms by (cases "rm_status r") (auto simp: room_inv_def validate_room_state_def)

lemma join_inv:
  assumes inv: "room_inv r" and j: "join r actor v = Inr (r', es)"
  shows "room_inv r'"
proof -
  obtain a b c where s: "rm_seats r = [a, b, c]" using room_seats3 [OF inv] .
  have act: "validate_identifier actor = Inr ()" "actor \<noteq> []"
    using j validate_identifier_nonempty by (auto simp: join_def rbind_eq_Inr)
  have st: "rm_status r \<noteq> RoomClosed" "rm_status r \<noteq> RoomHandActive" "seat_of r actor = None"
    using j by (auto simp: join_def rbind_eq_Inr split: if_splits)
  have own: "rs_account a = rm_owner r" "rs_account a \<noteq> []"
    using inv st(1) s validate_identifier_nonempty by (auto simp: room_inv_def)
  obtain i where i: "first_free 0 (rm_seats r) = Some i"
    and r': "r' = (recalculate_status (r\<lparr>rm_seats := (rm_seats r)[i := \<lparr>rs_account = actor, rs_ready = False\<rparr>]\<rparr>))\<lparr>rm_version := rm_version r + 1\<rparr>"
    using j by (auto simp: join_def rbind_eq_Inr room_done_Inr split: if_splits option.splits)
  have so: "seats_ok ((rm_seats r)[i := \<lparr>rs_account = actor, rs_ready = False\<rparr>]) \<and> i \<noteq> 0"
    using i s own act st(3) inv
    by (auto simp: first_free_three seat_of_three [OF s] room_inv_def seats_ok_def split: if_splits)
  moreover from this own s have "rs_account ((rm_seats r)[i := \<lparr>rs_account = actor, rs_ready = False\<rparr>] ! 0) = rm_owner r"
    by (cases i) simp_all
  ultimately have "room_inv (recalculate_status (r\<lparr>rm_seats := (rm_seats r)[i := \<lparr>rs_account = actor, rs_ready = False\<rparr>]\<rparr>))"
    by (intro recalculate_inv) (use inv st open_room [OF inv st(1,2)] in \<open>simp_all add: room_inv_def\<close>)
  then show ?thesis by (simp add: r')
qed

lemma leave_inv:
  assumes inv: "room_inv r" and l: "leave r actor v = Inr (r', es)" and act: "actor \<noteq> []"
  shows "room_inv r'"
proof -
  obtain a b c where s: "rm_seats r = [a, b, c]" using room_seats3 [OF inv] .
  have st: "rm_status r \<noteq> RoomClosed" "rm_status r \<noteq> RoomHandActive"
    using l by (auto simp: leave_def rbind_eq_Inr split: if_splits)
  have own: "rs_account a = rm_owner r" "rs_account a \<noteq> []"
    using inv st(1) s validate_identifier_nonempty by (auto simp: room_inv_def)
  have so: "seats_ok [a, b, c]" using inv s by (simp add: room_inv_def)
  have ah: "rm_active_hand r = []" by (rule open_room [OF inv st])
  show ?thesis
  proof (cases "actor = rm_owner r")
    case True
    then have "seat_of r actor = Some 1" by (simp add: seat_of_three [OF s] own)
    moreover have "occupied_count r \<le> 1"
      using l True st calculation by (auto simp: leave_def rbind_eq_Inr Let_def split: if_splits)
    then have "rs_account b = []" "rs_account c = []"
      using own by (auto simp: occupied_count_def s split: if_splits)
    ultimately show ?thesis
      using l True st inv so s ah
      by (auto simp: leave_def rbind_eq_Inr Let_def room_done_Inr room_inv_def seats_ok_def empty_seat_def
          validate_room_state_def occupied_count_def split: if_splits)
  next
    case False
    then obtain sn where sn: "seat_of r actor = Some sn"
      and r': "r' = (recalculate_status (r\<lparr>rm_seats := (rm_seats r)[unat (sn - 1) := empty_seat]\<rparr>))\<lparr>rm_version := rm_version r + 1\<rparr>"
      using l st by (auto simp: leave_def rbind_eq_Inr Let_def room_done_Inr split: if_splits option.splits)
    have k: "unat (sn - 1) = 1 \<or> unat (sn - 1) = 2" using sn own False by (auto simp: seat_of_three [OF s] split: if_splits)
    then have "seats_ok ((rm_seats r)[unat (sn - 1) := empty_seat])"
      using so by (elim disjE) (auto simp: s seats_ok_def empty_seat_def numeral_2_eq_2 split: if_splits)
    then have "room_inv (recalculate_status (r\<lparr>rm_seats := (rm_seats r)[unat (sn - 1) := empty_seat]\<rparr>))"
      by (intro recalculate_inv) (use inv st own s k ah in \<open>auto simp: room_inv_def\<close>)
    then show ?thesis by (simp add: r')
  qed
qed


lemma set_ready_inv:
  assumes inv: "room_inv r" and l: "set_ready r actor ready v = Inr (r', es)" and act: "actor \<noteq> []"
  shows "room_inv r'"
proof -
  obtain a b c where s: "rm_seats r = [a, b, c]" using room_seats3 [OF inv] .
  have st: "rm_status r \<noteq> RoomClosed" "rm_status r \<noteq> RoomHandActive"
    using l by (auto simp: set_ready_def rbind_eq_Inr split: if_splits)
  have own: "rs_account a = rm_owner r" using inv st(1) s by (auto simp: room_inv_def)
  have so: "seats_ok [a, b, c]" using inv s by (simp add: room_inv_def)
  have ah: "rm_active_hand r = []" by (rule open_room [OF inv st])
  obtain sn where sn: "seat_of r actor = Some sn"
    and r': "r' = (recalculate_status (r\<lparr>rm_seats := (rm_seats r)[unat (sn - 1) :=
      (rm_seats r ! unat (sn - 1))\<lparr>rs_ready := ready\<rparr>]\<rparr>))\<lparr>rm_version := rm_version r + 1\<rparr>"
    using l st by (auto simp: set_ready_def rbind_eq_Inr Let_def room_done_Inr split: if_splits option.splits)
  have k: "unat (sn - 1) = 0 \<and> rs_account a = actor \<or> unat (sn - 1) = 1 \<and> rs_account b = actor
      \<or> unat (sn - 1) = 2 \<and> rs_account c = actor"
    using sn by (auto simp: seat_of_three [OF s] split: if_splits)
  then have "seats_ok ((rm_seats r)[unat (sn - 1) := (rm_seats r ! unat (sn - 1))\<lparr>rs_ready := ready\<rparr>])"
    using so act by (elim disjE) (auto simp: s seats_ok_def numeral_2_eq_2 split: if_splits)
  then have "room_inv (recalculate_status (r\<lparr>rm_seats := (rm_seats r)[unat (sn - 1) :=
      (rm_seats r ! unat (sn - 1))\<lparr>rs_ready := ready\<rparr>]\<rparr>))"
    by (intro recalculate_inv) (use inv st own s k ah in \<open>auto simp: room_inv_def\<close>)
  then show ?thesis by (simp add: r')
qed

lemma start_hand_Inr:
  "start_hand r actor hid v = Inr (r', es) \<longleftrightarrow> v = rm_version r \<and> actor = rm_owner r \<and>
    validate_identifier hid = Inr () \<and> rm_active_hand r = [] \<and> rm_status r = RoomReady \<and>
    occupied_count r = 3 \<and> all_ready r \<and>
    room_done (r\<lparr>rm_active_hand := hid, rm_status := RoomHandActive,
      rm_seats := map (\<lambda>s. s\<lparr>rs_ready := False\<rparr>) (rm_seats r)\<rparr>) event_room_hand_started (RoomHandPayload hid) = Inr (r', es)"
  by (auto simp: start_hand_def rbind_eq_Inr check_expected_version_Inr)

lemma unready_seats:
  "seats_ok ss \<Longrightarrow> seats_ok (map (\<lambda>s. s\<lparr>rs_ready := False\<rparr>) ss)"
  "length (filter (\<lambda>s. rs_account s \<noteq> []) (map (\<lambda>s. s\<lparr>rs_ready := False\<rparr>) ss)) =
    length (filter (\<lambda>s. rs_account s \<noteq> []) ss)"
  by (auto simp: seats_ok_def comp_def filter_map split: if_splits)

lemma start_hand_inv:
  assumes inv: "room_inv r" and l: "start_hand r actor hid v = Inr (r', es)"
  shows "room_inv r'"
proof -
  obtain a b c where s: "rm_seats r = [a, b, c]" using room_seats3 [OF inv] .
  have h: "validate_identifier hid = Inr ()" "hid \<noteq> []" "rm_status r = RoomReady" "occupied_count r = 3"
    using l validate_identifier_nonempty by (auto simp: start_hand_Inr)
  have r': "r' = r\<lparr>rm_active_hand := hid, rm_status := RoomHandActive,
      rm_seats := map (\<lambda>s. s\<lparr>rs_ready := False\<rparr>) (rm_seats r), rm_version := rm_version r + 1\<rparr>"
    using l by (simp add: start_hand_Inr room_done_Inr)
  show ?thesis
    using inv h unready_seats [of "rm_seats r"] s
    unfolding r' room_inv_def validate_room_state_def occupied_count_def by simp
qed

lemma finish_hand_Inr:
  "finish_hand r hid v arch = Inr (r', es) \<longleftrightarrow> v = rm_version r \<and> rm_status r = RoomHandActive \<and>
    hid \<noteq> [] \<and> rm_active_hand r = hid \<and>
    room_done (recalculate_status (r\<lparr>rm_active_hand := [],
      rm_last_hand := (if arch = [] \<or> hd arch then hid else [])\<rparr>)) event_room_hand_finished (RoomHandPayload hid) = Inr (r', es)"
  by (auto simp: finish_hand_def rbind_eq_Inr check_expected_version_Inr)

lemma finish_hand_inv:
  assumes inv: "room_inv r" and l: "finish_hand r hid v arch = Inr (r', es)"
  shows "room_inv r'"
proof -
  have h: "rm_status r = RoomHandActive" "validate_identifier hid = Inr ()"
    using l inv by (auto simp: finish_hand_Inr room_inv_def validate_room_state_def rbind_eq_Inr)
  have r': "r' = (recalculate_status (r\<lparr>rm_active_hand := [],
      rm_last_hand := (if arch = [] \<or> hd arch then hid else [])\<rparr>))\<lparr>rm_version := rm_version r + 1\<rparr>"
    using l by (simp add: finish_hand_Inr room_done_Inr)
  have "room_inv (recalculate_status (r\<lparr>rm_active_hand := [], rm_last_hand := (if arch = [] \<or> hd arch then hid else [])\<rparr>))"
    by (rule recalculate_inv) (use inv h in \<open>auto simp: room_inv_def\<close>)
  then show ?thesis by (simp add: r')
qed

section \<open>Commands and reachable rooms\<close>

datatype room_command =
    CmdJoin account_id
  | CmdLeave account_id
  | CmdSetReady account_id bool
  | CmdStartHand account_id hand_id
  | CmdFinishHand hand_id "bool list"

fun room_apply :: "room \<Rightarrow> u64 \<Rightarrow> room_command \<Rightarrow> room_result" where
  "room_apply r v (CmdJoin actor) = join r actor v"
| "room_apply r v (CmdLeave actor) = leave r actor v"
| "room_apply r v (CmdSetReady actor ready) = set_ready r actor ready v"
| "room_apply r v (CmdStartHand actor hid) = start_hand r actor hid v"
| "room_apply r v (CmdFinishHand hid arch) = finish_hand r hid v arch"

text \<open>The application layer refuses a command without an actor before it reaches the room.\<close>

fun has_actor :: "room_command \<Rightarrow> bool" where
  "has_actor (CmdLeave actor) = (actor \<noteq> [])"
| "has_actor (CmdSetReady actor ready) = (actor \<noteq> [])"
| "has_actor _ = True"

inductive room_reach :: "room \<Rightarrow> bool" where
  room_reach_new: "new_room rid owner = Inr (r, es) \<Longrightarrow> room_reach r"
| room_reach_step: "room_reach r \<Longrightarrow> has_actor cmd \<Longrightarrow> room_apply r v cmd = Inr (r', es) \<Longrightarrow> room_reach r'"

lemma room_reach_inv: "room_reach r \<Longrightarrow> room_inv r"
proof (induction rule: room_reach.induct)
  case (room_reach_step r cmd v r' es)
  then show ?case
    by (cases cmd) (auto intro: join_inv leave_inv set_ready_inv start_hand_inv finish_hand_inv)
qed (rule new_room_inv)

lemma restore_seats_ok:
  assumes "seats_ok ss"
  shows "restore_seats fixed_seats
    (map (\<lambda>(sn, s). \<lparr>sn_seat = sn, sn_account = rs_account s, sn_ready = rs_ready s\<rparr>) (zip fixed_seats ss)) [] = Inr ss"
proof -
  have "length ss = 3" using assms by (simp add: seats_ok_def)
  from length3_exhaust [OF this] obtain a b c where s: "ss = [a, b, c]" by blast
  have e: "x = empty_seat" if "rs_account x = []" "\<not> rs_ready x" for x :: room_seat
    using that by (cases x) (simp add: empty_seat_def)
  have f: "\<lparr>rs_account = rs_account x, rs_ready = rs_ready x\<rparr> = x" for x :: room_seat
    by (cases x) simp
  show ?thesis
    using assms e [of a] e [of b] e [of c]
    by (auto simp: s seats_ok_def fixed_seats_def f split: if_splits)
qed

lemma restore_room_snapshot:
  assumes "room_inv r" and "rm_version r \<noteq> 0"
  shows "restore_room (room_snapshot_of r) = Inr r"
proof (cases r)
  case (fields rid owner status seats active final version)
  have last: "(if final \<noteq> [] then validate_identifier final else Inr ()) = Inr ()"
    and own: "\<not> (status \<noteq> RoomClosed \<and> rs_account (seats ! 0) \<noteq> owner)"
    using assms(1) by (auto simp: room_inv_def fields)
  have st: "validate_room_state r = Inr ()" "valid_room_status status" "validate_identifier rid = Inr ()"
      "validate_identifier owner = Inr ()" "seats_ok seats" "version \<noteq> 0"
    using assms by (simp_all add: room_inv_def fields)
  have "restore_room (room_snapshot_of r) =
      rbind (if final \<noteq> [] then validate_identifier final else Inr ()) (\<lambda>_.
        if status \<noteq> RoomClosed \<and> rs_account (seats ! 0) \<noteq> owner then Inl (Domain DmInvalidArgument)
        else rbind (validate_room_state r) (\<lambda>_. Inr r))"
    using st(2-) restore_seats_ok [OF st(5)]
    unfolding restore_room_def room_snapshot_of_def fields Let_def by (simp only: room_snapshot.simps room.simps rbind_Inr reject_False simp_thms)
  then show ?thesis unfolding last st(1) using own by simp
qed

section \<open>Properties\<close>

text \<open>C26: a room survives storage. Every room that the aggregate's commands can produce satisfies the
  room invariant (status, seats and active hand agree; the owner sits in seat 1 of an open room; no
  account sits twice), and restoring its snapshot gives back exactly that room.\<close>

theorem room_snapshot_roundtrip:
  assumes "room_reach r" and "rm_version r \<noteq> 0"
  shows "room_inv r \<and> restore_room (room_snapshot_of r) = Inr r"
  using room_reach_inv [OF assms(1)] restore_room_snapshot [OF room_reach_inv [OF assms(1)] assms(2)] by blast

definition sample_room :: room where
  "sample_room = \<lparr>rm_id = ''R'', rm_owner = ''A'', rm_status = RoomWaitingPlayers,
     rm_seats = [\<lparr>rs_account = ''A'', rs_ready = False\<rparr>, empty_seat, empty_seat],
     rm_active_hand = [], rm_last_hand = [], rm_version = 1\<rparr>"

lemma identifier_R: "validate_identifier ''R'' = Inr ()" and identifier_A: "validate_identifier ''A'' = Inr ()"
  by code_simp+

lemma sample_room_new: "\<exists>es. new_room ''R'' ''A'' = Inr (sample_room, es)"
  by (simp add: new_room_def identifier_R identifier_A room_done_Inr sample_room_def)

lemma sample_room_reach: "room_reach sample_room"
  using sample_room_new room_reach_new by blast

theorem room_snapshot_roundtrip_witness: "restore_room (room_snapshot_of sample_room) = Inr sample_room"
proof -
  have "rm_version sample_room \<noteq> 0" by (simp add: sample_room_def)
  from room_snapshot_roundtrip [OF sample_room_reach this] show ?thesis by blast
qed

lemma room_apply_step:
  assumes "room_apply r v cmd = Inr (r', es)"
  shows "v = rm_version r \<and> rm_version r' = rm_version r + 1 \<and> rm_id r' = rm_id r \<and> rm_owner r' = rm_owner r \<and>
    (\<exists>name p. es = [\<lparr>ev_type = AggregateRoom, ev_id = rm_id r, ev_name = name, ev_version = rm_version r', ev_payload = p\<rparr>])"
  using assms
  by (cases cmd) (auto simp: join_def leave_def set_ready_def start_hand_Inr finish_hand_Inr rbind_eq_Inr room_done_Inr
      check_expected_version_Inr Let_def split: if_splits option.splits)

lemma room_apply_conflict:
  "v \<noteq> rm_version r \<Longrightarrow> room_apply r v cmd = Inl (Domain (DmVersionConflict v (rm_version r)))"
  by (cases cmd) (simp_all add: join_def leave_def set_ready_def start_hand_def finish_hand_def check_expected_version_def)

text \<open>Optimistic concurrency. A command with a stale version is refused with the two versions and
  changes nothing; an accepted one keeps the room's identity and owner, raises the version by one and
  emits exactly one event, which carries the new version.\<close>

theorem room_command_version:
  "(case room_apply r v cmd of
      Inl e \<Rightarrow> v \<noteq> rm_version r \<longrightarrow> e = Domain (DmVersionConflict v (rm_version r))
    | Inr (r', es) \<Rightarrow> v = rm_version r \<and> rm_version r' = rm_version r + 1 \<and> rm_id r' = rm_id r \<and>
        rm_owner r' = rm_owner r \<and>
        (\<exists>name p. es = [\<lparr>ev_type = AggregateRoom, ev_id = rm_id r, ev_name = name,
           ev_version = rm_version r', ev_payload = p\<rparr>]))"
  using room_apply_step [of r v cmd] room_apply_conflict [of v r cmd]
  by (cases "room_apply r v cmd") auto

theorem room_command_version_witness:
  "room_apply sample_room 7 (CmdJoin ''B'') = Inl (Domain (DmVersionConflict 7 1))"
proof -
  have "rm_version sample_room = 1" by (simp add: sample_room_def)
  moreover obtain e where "room_apply sample_room 7 (CmdJoin ''B'') = Inl e"
    by (simp add: join_def check_expected_version_def sample_room_def)
  ultimately show ?thesis using room_command_version [of 7 sample_room "CmdJoin ''B''"] by simp
qed

lemma finish_only:
  assumes "rm_status r = RoomHandActive" and "rm_active_hand r = hid" and "room_apply r v cmd = Inr (r', es)"
  shows "\<exists>arch. cmd = CmdFinishHand hid arch"
  using assms
  by (cases cmd) (auto simp: join_def leave_def set_ready_def start_hand_Inr finish_hand_Inr rbind_eq_Inr
      split: if_splits)

lemma closed_terminal:
  assumes "rm_status r = RoomClosed" shows "room_apply r v cmd \<noteq> Inr res"
  using assms
  by (cases res; cases cmd) (auto simp: join_def leave_def set_ready_def start_hand_Inr finish_hand_Inr rbind_eq_Inr)

lemma occupied_three:
  assumes "seats_ok ss" and "length (filter (\<lambda>s. rs_account s \<noteq> []) ss) = 3"
  shows "distinct (map rs_account ss) \<and> [] \<notin> set (map rs_account ss)"
proof -
  have all: "\<forall>s \<in> set ss. rs_account s \<noteq> []"
    by (rule length_filter_all) (use assms in \<open>simp add: seats_ok_def\<close>)
  then have "filter (\<lambda>x. x \<noteq> []) (map rs_account ss) = map rs_account ss" by (simp add: filter_id_conv)
  with assms(1) all show ?thesis by (auto simp: seats_ok_def)
qed

text \<open>C27: a hand starts only at a full, ready table, and locks it. When \<open>StartHand\<close> succeeds, three
  different accounts were seated and ready and the owner asked for it; the hand gets exactly these
  seats, and until that very hand is finished no command on the room succeeds.\<close>

theorem room_hand_locks:
  assumes "room_reach r" and "start_hand r actor hid v = Inr (r', es)"
  shows "actor = rm_owner r \<and> all_ready r \<and>
    (\<exists>b c. hand_seats r' = Inr [\<lparr>hs_seat = 1, hs_account = actor\<rparr>, \<lparr>hs_seat = 2, hs_account = b\<rparr>, \<lparr>hs_seat = 3, hs_account = c\<rparr>]
       \<and> distinct [actor, b, c] \<and> [] \<notin> set [actor, b, c]) \<and>
    (\<forall>w cmd res. room_apply r' w cmd = Inr res \<longrightarrow> (\<exists>arch. cmd = CmdFinishHand hid arch))"
proof -
  have inv: "room_inv r" by (rule room_reach_inv [OF assms(1)])
  obtain a b c where s: "rm_seats r = [a, b, c]" using room_seats3 [OF inv] .
  have h: "actor = rm_owner r" "all_ready r" "occupied_count r = 3" "rm_status r = RoomReady"
    using assms(2) by (auto simp: start_hand_Inr)
  have r': "r' = r\<lparr>rm_active_hand := hid, rm_status := RoomHandActive,
      rm_seats := map (\<lambda>s. s\<lparr>rs_ready := False\<rparr>) (rm_seats r), rm_version := rm_version r + 1\<rparr>"
    using assms(2) by (simp add: start_hand_Inr room_done_Inr)
  have own: "rs_account a = actor" using inv h s by (simp add: room_inv_def)
  have d: "distinct [rs_account a, rs_account b, rs_account c]" "[] \<notin> set [rs_account a, rs_account b, rs_account c]"
    using occupied_three [of "rm_seats r"] inv h(3) by (simp_all add: room_inv_def occupied_count_def s)
  have occ: "occupied_count r' = 3"
    using h(3) unready_seats(2) [of "rm_seats r"] by (simp add: occupied_count_def r')
  have "hand_seats r' = Inr [\<lparr>hs_seat = 1, hs_account = actor\<rparr>, \<lparr>hs_seat = 2, hs_account = rs_account b\<rparr>,
      \<lparr>hs_seat = 3, hs_account = rs_account c\<rparr>]"
    using occ by (simp add: hand_seats_def) (simp add: r' s fixed_seats_def own)
  moreover have "rm_status r' = RoomHandActive" "rm_active_hand r' = hid" by (simp_all add: r')
  note finish_only [OF this]
  ultimately show ?thesis using h(1,2) d own by fastforce
qed

text \<open>A full table whose owner starts the hand \<open>H\<close>.\<close>

definition full_room :: room where
  "full_room = \<lparr>rm_id = ''R'', rm_owner = ''A'', rm_status = RoomReady,
     rm_seats = [\<lparr>rs_account = ''A'', rs_ready = True\<rparr>, \<lparr>rs_account = ''B'', rs_ready = True\<rparr>,
       \<lparr>rs_account = ''C'', rs_ready = True\<rparr>],
     rm_active_hand = [], rm_last_hand = [], rm_version = 6\<rparr>"

definition run_commands :: "(u64 \<times> room_command) list \<Rightarrow> room \<Rightarrow> room option" where
  "run_commands cs r = foldl (\<lambda>acc (v, c). case acc of None \<Rightarrow> None
     | Some r \<Rightarrow> (case room_apply r v c of Inl e \<Rightarrow> None | Inr (r', es) \<Rightarrow> Some r')) (Some r) cs"

lemma run_commands_reach:
  "room_reach r \<Longrightarrow> list_all (has_actor \<circ> snd) cs \<Longrightarrow> run_commands cs r = Some r' \<Longrightarrow> room_reach r'"
proof (induction cs arbitrary: r' rule: rev_induct)
  case (snoc c cs)
  obtain v k where c: "c = (v, k)" by (cases c)
  from snoc.prems(3) obtain r1 es where "run_commands cs r = Some r1" "room_apply r1 v k = Inr (r', es)"
    by (auto simp: run_commands_def c split: option.splits sum.splits)
  with snoc show ?case by (auto simp: c intro: room_reach_step)
qed (simp add: run_commands_def)

lemma full_room_reach: "room_reach full_room"
proof (rule run_commands_reach [OF sample_room_reach])
  show "run_commands [(1, CmdJoin ''B''), (2, CmdJoin ''C''), (3, CmdSetReady ''A'' True),
      (4, CmdSetReady ''B'' True), (5, CmdSetReady ''C'' True)] sample_room = Some full_room"
    by code_simp
qed simp

lemma full_room_start: "\<exists>r' es. start_hand full_room ''A'' ''H'' 6 = Inr (r', es)"
proof -
  have "validate_identifier ''H'' = Inr ()" by code_simp
  then show ?thesis
    by (simp add: start_hand_Inr full_room_def occupied_count_def all_ready_def room_done_Inr)
qed

theorem room_hand_locks_witness:
  "\<exists>r' es. start_hand full_room ''A'' ''H'' 6 = Inr (r', es) \<and>
    (\<forall>w cmd res. room_apply r' w cmd = Inr res \<longrightarrow> (\<exists>arch. cmd = CmdFinishHand ''H'' arch))"
proof -
  obtain r' es where s: "start_hand full_room ''A'' ''H'' 6 = Inr (r', es)" using full_room_start by blast
  from room_hand_locks [OF full_room_reach s] s show ?thesis by blast
qed

text \<open>A seat without an account is never ready in a stored room.\<close>

lemma restore_seats_ghost:
  assumes "seats_ok [a, b, c]" and "rs_account a \<noteq> []"
    and "rs_account b = [] \<and> ss = [a, b\<lparr>rs_ready := True\<rparr>, c] \<or>
      rs_account b \<noteq> [] \<and> rs_account c = [] \<and> ss = [a, b, c\<lparr>rs_ready := True\<rparr>]"
  shows "restore_seats fixed_seats
    (map (\<lambda>(sn, s). \<lparr>sn_seat = sn, sn_account = rs_account s, sn_ready = rs_ready s\<rparr>) (zip fixed_seats ss)) []
    = Inl (Domain DmInvalidArgument)"
  using assms by (auto simp: seats_ok_def fixed_seats_def split: if_splits)

lemma restore_room_ghost:
  assumes "restore_seats fixed_seats
      (map (\<lambda>(sn, s). \<lparr>sn_seat = sn, sn_account = rs_account s, sn_ready = rs_ready s\<rparr>) (zip fixed_seats (rm_seats r))) []
      = Inl (Domain DmInvalidArgument)"
    and "validate_identifier (rm_id r) = Inr ()" and "validate_identifier (rm_owner r) = Inr ()"
    and "rm_last_hand r \<noteq> [] \<longrightarrow> validate_identifier (rm_last_hand r) = Inr ()"
  shows "restore_room (room_snapshot_of r) = Inl (Domain DmInvalidArgument)"
  using assms by (auto simp: restore_room_def room_snapshot_of_def reject_def Let_def)

text \<open>C39: an actor-less command is not refused by the aggregate. \<open>SetReady\<close> does not check the actor, and
  the empty account matches the first free seat. So in every room that the commands of the aggregate can
  produce, while it waits with a free seat, \<open>SetReady\<close> without an actor is accepted, marks a seat ready in
  which nobody sits, and leaves a room whose stored snapshot \<open>RestoreRoom\<close> refuses. The application layer
  rejects a command without an actor, so only a direct caller of the aggregate sees this.\<close>

theorem set_ready_without_actor:
  assumes "room_reach r" and "rm_status r = RoomWaitingPlayers" and "occupied_count r < 3"
  shows "\<exists>r' es p. set_ready r [] True (rm_version r) = Inr (r', es) \<and> seat_of r [] = Some p \<and> p \<in> {2, 3} \<and>
    rm_seats r' ! unat (p - 1) = \<lparr>rs_account = [], rs_ready = True\<rparr> \<and>
    restore_room (room_snapshot_of r') = Inl (Domain DmInvalidArgument)"
proof -
  have inv: "room_inv r" by (rule room_reach_inv [OF assms(1)])
  obtain a b c where s: "rm_seats r = [a, b, c]" using room_seats3 [OF inv] .
  have so: "seats_ok [a, b, c]" using inv s by (simp add: room_inv_def)
  have own: "rs_account a \<noteq> []"
    using inv assms(2) s validate_identifier_nonempty by (auto simp: room_inv_def)
  then have free: "rs_account b = [] \<or> rs_account c = []"
    using assms(3) by (auto simp: occupied_count_def s split: if_splits)
  define i where "i = (if rs_account b = [] then 1 else 2 :: nat)"
  define p :: seat where "p = (if rs_account b = [] then 2 else 3)"
  have p: "seat_of r [] = Some p" "unat (p - 1) = i" "p \<in> {2, 3}"
    using free own by (auto simp: seat_of_three [OF s] p_def i_def)
  define x where "x = [a, b, c] ! i"
  have x: "rs_account x = []" "\<not> rs_ready x"
    using so free by (auto simp: x_def i_def seats_ok_def)
  define r' where "r' = (recalculate_status (r\<lparr>rm_seats := [a, b, c][i := x\<lparr>rs_ready := True\<rparr>]\<rparr>))\<lparr>rm_version := rm_version r + 1\<rparr>"
  have "\<exists>es. set_ready r [] True (rm_version r) = Inr (r', es)"
    using x assms(2) p by (simp add: set_ready_def s Let_def room_done_Inr r'_def x_def check_expected_version_def)
  moreover have "rm_seats r' ! unat (p - 1) = \<lparr>rs_account = [], rs_ready = True\<rparr>"
    using x unfolding p(2) by (cases x) (auto simp: r'_def i_def)
  moreover have "restore_seats fixed_seats
      (map (\<lambda>(sn, s). \<lparr>sn_seat = sn, sn_account = rs_account s, sn_ready = rs_ready s\<rparr>) (zip fixed_seats (rm_seats r'))) []
      = Inl (Domain DmInvalidArgument)"
    by (rule restore_seats_ghost [OF so own]) (use free in \<open>auto simp: r'_def i_def x_def\<close>)
  then have "restore_room (room_snapshot_of r') = Inl (Domain DmInvalidArgument)"
    by (rule restore_room_ghost) (use inv in \<open>simp_all add: r'_def room_inv_def\<close>)
  ultimately show ?thesis using p by blast
qed

theorem set_ready_without_actor_witness:
  "\<exists>r'. restore_room (room_snapshot_of r') = Inl (Domain DmInvalidArgument) \<and>
    (\<exists>es. set_ready sample_room [] True 1 = Inr (r', es))"
proof -
  have "rm_status sample_room = RoomWaitingPlayers" "occupied_count sample_room < 3" "rm_version sample_room = 1"
    by (simp_all add: sample_room_def occupied_count_def empty_seat_def)
  with set_ready_without_actor [OF sample_room_reach this(1,2)] show ?thesis by metis
qed

end
