(* ===== verification/Hand.thy ===== *)
theory Hand
  imports Room Encoding
begin

text \<open>
  The hand aggregate: \<open>domain/hand_types.go\<close>, \<open>hand_validation.go\<close>, \<open>hand_fairness.go\<close>,
  \<open>hand_lifecycle.go\<close>, \<open>fairness.go\<close> and \<open>RestoreHand\<close> of \<open>restore.go\<close>. It drives the
  commit-reveal fairness protocol of three seats, locks the public beacon, and then follows the
  hand through its phases. A 32-byte array of Go is a list of 32 bytes.
\<close>

section \<open>Types\<close>

text \<open>Go's \<open>HandPhase\<close> is a string; any string but the eleven constants is \<open>HandPhaseOther\<close>.\<close>

datatype hand_phase =
    HandFairnessCommitting
  | HandFairnessRevealing
  | HandWaitingPublicBeacon
  | HandDealing
  | HandBidding
  | HandPlaying
  | HandSettling
  | HandCompleted
  | HandCancelled
  | HandAborted
  | HandExpired
  | HandPhaseOther string

definition event_hand_created :: string where "event_hand_created = ''doudizhu.hand.created.v1''"
definition event_fairness_commit_accepted :: string where
  "event_fairness_commit_accepted = ''doudizhu.hand.fairness-commit-accepted.v1''"
definition event_fairness_reveal_accepted :: string where
  "event_fairness_reveal_accepted = ''doudizhu.hand.fairness-reveal-accepted.v1''"
definition event_public_beacon_locked :: string where
  "event_public_beacon_locked = ''doudizhu.hand.public-beacon-locked.v1''"
definition event_hand_phase_changed :: string where
  "event_hand_phase_changed = ''doudizhu.hand.phase-changed.v1''"
definition event_hand_terminated :: string where
  "event_hand_terminated = ''doudizhu.hand.terminated.v1''"

definition fairness_mode_client_custodied :: string where
  "fairness_mode_client_custodied = ''client-contributed-server-custodied-v1''"

text \<open>A Go \<open>time.Time\<close>: nanoseconds since the zero time (1 January of year 1, UTC) and a location.\<close>

record go_time =
  tm_nanos :: int
  tm_location :: string

definition time_utc :: "go_time \<Rightarrow> go_time" where
  "time_utc t = t\<lparr>tm_location := ''UTC''\<rparr>"

definition time_is_zero :: "go_time \<Rightarrow> bool" where
  "time_is_zero t \<longleftrightarrow> tm_nanos t = 0"

definition time_unix_epoch :: go_time where
  "time_unix_epoch = \<lparr>tm_nanos = 62135596800 * 10 ^ 9, tm_location = ''Local''\<rparr>"

record beacon_plan =
  bp_provider :: string
  bp_round :: string

record reveal_key_binding =
  rk_hash :: bytes
  rk_bound_at :: go_time

record beacon_value =
  bv_provider :: string
  bv_round :: string
  bv_digest :: bytes
  bv_proof_ref :: string

record contribution =
  ct_commitment :: bytes
  ct_revealed :: bool
  ct_digest :: bytes
  ct_record_ref :: string

record contribution_snapshot =
  cs_seat :: seat
  cs_committed :: bool
  cs_commitment :: bytes
  cs_revealed :: bool
  cs_digest :: bytes
  cs_record_ref :: string

record hand_snapshot =
  hn_mode :: string
  hn_id :: hand_id
  hn_room :: room_id
  hn_phase :: hand_phase
  hn_seats :: "hand_seat list"
  hn_server_commitment :: bytes
  hn_reveal_key :: string
  hn_reveal_hash :: bytes
  hn_reveal_bound_at :: go_time
  hn_plan :: beacon_plan
  hn_beacon :: "beacon_value option"
  hn_contributions :: "contribution_snapshot list"
  hn_reason :: string
  hn_version :: u64

record hand =
  ha_mode :: string
  ha_id :: hand_id
  ha_room :: room_id
  ha_phase :: hand_phase
  ha_seats :: "hand_seat list"
  ha_server_commitment :: bytes
  ha_reveal_key :: string
  ha_reveal_hash :: bytes
  ha_reveal_bound_at :: go_time
  ha_plan :: beacon_plan
  ha_beacon :: "beacon_value option"
  ha_contributions :: "contribution list"
  ha_reason :: string
  ha_version :: u64

datatype hand_payload =
    HandCreatedPayload string room_id "hand_seat list" string bytes go_time beacon_plan
  | FairnessSeatPayload seat
  | PublicBeaconPayload string string string
  | HandPhasePayload hand_phase hand_phase
  | HandTerminationPayload hand_phase string

type_synonym hand_result = "go_error + hand \<times> hand_payload event list"

section \<open>Fairness hashes\<close>

definition zero32 :: bytes where "zero32 = replicate 32 0"

definition hand_client_commit_domain :: string where
  "hand_client_commit_domain = ''fair-doudizhu/client-commit/v1''"

definition write_length_prefixed :: "bytes \<Rightarrow> bytes" where
  "write_length_prefixed value = put_u32 (word_of_nat (length value)) @ value"

definition client_commit_message :: "hand_id \<Rightarrow> seat \<Rightarrow> bytes \<Rightarrow> bytes" where
  "client_commit_message hid seat digest =
     str_bytes hand_client_commit_domain @ [0] @ write_length_prefixed (str_bytes hid) @ [seat] @ digest"

definition hand_client_commitment :: "hand_id \<Rightarrow> seat \<Rightarrow> bytes \<Rightarrow> bytes" where
  "hand_client_commitment hid seat digest = sha256 (client_commit_message hid seat digest)"

definition all_zero32 :: "bytes \<Rightarrow> bool" where
  "all_zero32 value = (foldl (OR) 0 value = 0)"

section \<open>Validation\<close>

fun check_hand_seats :: "hand_seat list \<Rightarrow> seat list \<Rightarrow> account_id list \<Rightarrow> go_error + seat list" where
  "check_hand_seats [] seen_seats seen_accounts = Inr seen_seats"
| "check_hand_seats (s # ss) seen_seats seen_accounts =
     (if \<not> seat_valid (hs_seat s) then Inl (Domain DmInvalidArgument)
      else rbind (validate_identifier (hs_account s)) (\<lambda>_.
        if hs_seat s \<in> set seen_seats then Inl (Domain DmInvalidArgument)
        else if hs_account s \<in> set seen_accounts then Inl (Domain DmInvalidArgument)
        else check_hand_seats ss (hs_seat s # seen_seats) (hs_account s # seen_accounts)))"

definition validate_hand_seats :: "hand_seat list \<Rightarrow> go_error + unit" where
  "validate_hand_seats seats =
     rbind (check_hand_seats seats [] []) (\<lambda>seen.
       reject (\<not> list_all (\<lambda>s. s \<in> set seen) fixed_seats) (Domain DmInvalidArgument))"

definition validate_beacon_plan :: "beacon_plan \<Rightarrow> go_error + unit" where
  "validate_beacon_plan plan =
     rbind (validate_identifier (bp_provider plan)) (\<lambda>_. validate_identifier (bp_round plan))"

section \<open>Construction\<close>

definition hand_record :: "hand \<Rightarrow> string \<Rightarrow> hand_payload \<Rightarrow> hand \<times> hand_payload event" where
  "hand_record h name payload =
     (let h' = h\<lparr>ha_version := ha_version h + 1\<rparr>
      in (h', \<lparr>ev_type = AggregateHand, ev_id = ha_id h', ev_name = name,
               ev_version = ha_version h', ev_payload = payload\<rparr>))"

definition empty_contribution :: contribution where
  "empty_contribution = \<lparr>ct_commitment = zero32, ct_revealed = False, ct_digest = zero32, ct_record_ref = []\<rparr>"

definition default_binding :: "string \<Rightarrow> reveal_key_binding" where
  "default_binding reveal_key =
     \<lparr>rk_hash = sha256 (str_bytes reveal_key), rk_bound_at = time_utc time_unix_epoch\<rparr>"

text \<open>The bindings are variadic: none, one, or (an error) more.\<close>

definition new_hand ::
  "hand_id \<Rightarrow> room_id \<Rightarrow> hand_seat list \<Rightarrow> bytes \<Rightarrow> string \<Rightarrow> beacon_plan \<Rightarrow> reveal_key_binding list \<Rightarrow> hand_result" where
  "new_hand hid rid seats server_commitment reveal_key plan bindings =
     rbind (validate_identifier hid) (\<lambda>_.
     rbind (validate_identifier rid) (\<lambda>_.
     rbind (reject (all_zero32 server_commitment) (Domain DmInvalidArgument)) (\<lambda>_.
     rbind (validate_identifier reveal_key) (\<lambda>_.
     rbind (reject (length bindings > 1) (Domain DmInvalidArgument)) (\<lambda>_.
       let binding = (if length bindings = 1 then hd bindings else default_binding reveal_key)
       in rbind (reject (rk_hash binding = zero32 \<or> time_is_zero (rk_bound_at binding)) (Domain DmInvalidArgument)) (\<lambda>_.
          rbind (validate_beacon_plan plan) (\<lambda>_.
          rbind (validate_hand_seats seats) (\<lambda>_.
            let h = \<lparr>ha_mode = [], ha_id = hid, ha_room = rid, ha_phase = HandFairnessCommitting,
                     ha_seats = seats, ha_server_commitment = server_commitment,
                     ha_reveal_key = reveal_key, ha_reveal_hash = rk_hash binding,
                     ha_reveal_bound_at = time_utc (rk_bound_at binding), ha_plan = plan,
                     ha_beacon = None, ha_contributions = replicate 3 empty_contribution,
                     ha_reason = [], ha_version = 0\<rparr>;
                (h', e) = hand_record h event_hand_created
                  (HandCreatedPayload [] rid seats reveal_key (rk_hash binding)
                     (time_utc (rk_bound_at binding)) plan)
            in Inr (h', [e])))))))))"

text \<open>The type assertion on the event payload; \<open>NewHand\<close> always makes this payload.\<close>

definition with_custodied_mode :: "hand_payload event \<Rightarrow> go_error + hand_payload event" where
  "with_custodied_mode e =
     (case ev_payload e of
        HandCreatedPayload mode rid seats key hash bound plan \<Rightarrow>
          Inr (e\<lparr>ev_payload := HandCreatedPayload fairness_mode_client_custodied rid seats key hash bound plan\<rparr>)
      | _ \<Rightarrow> Inl (Domain DmInvalidArgument))"

definition new_client_custodied_hand ::
  "hand_id \<Rightarrow> room_id \<Rightarrow> hand_seat list \<Rightarrow> bytes \<Rightarrow> string \<Rightarrow> beacon_plan \<Rightarrow> reveal_key_binding \<Rightarrow> hand_result" where
  "new_client_custodied_hand hid rid seats server_commitment reveal_key plan binding =
     rbind (new_hand hid rid seats server_commitment reveal_key plan [binding]) (\<lambda>(h, es).
     rbind (with_custodied_mode (hd es)) (\<lambda>e.
       Inr (h\<lparr>ha_mode := fairness_mode_client_custodied\<rparr>, e # tl es)))"

definition hand_snapshot_of :: "hand \<Rightarrow> hand_snapshot" where
  "hand_snapshot_of h =
     \<lparr>hn_mode = ha_mode h, hn_id = ha_id h, hn_room = ha_room h, hn_phase = ha_phase h,
      hn_seats = ha_seats h, hn_server_commitment = ha_server_commitment h,
      hn_reveal_key = ha_reveal_key h, hn_reveal_hash = ha_reveal_hash h,
      hn_reveal_bound_at = ha_reveal_bound_at h, hn_plan = ha_plan h, hn_beacon = ha_beacon h,
      hn_contributions = map (\<lambda>(sn, c). \<lparr>cs_seat = sn, cs_committed = (ct_commitment c \<noteq> zero32),
          cs_commitment = ct_commitment c, cs_revealed = ct_revealed c, cs_digest = ct_digest c,
          cs_record_ref = ct_record_ref c\<rparr>) (zip fixed_seats (ha_contributions h)),
      hn_reason = ha_reason h, hn_version = ha_version h\<rparr>"

section \<open>Lifecycle helpers\<close>

fun phase_terminal :: "hand_phase \<Rightarrow> bool" where
  "phase_terminal HandCompleted = True"
| "phase_terminal HandCancelled = True"
| "phase_terminal HandAborted = True"
| "phase_terminal HandExpired = True"
| "phase_terminal _ = False"

definition prepare_mutation :: "hand \<Rightarrow> u64 \<Rightarrow> hand_phase \<Rightarrow> go_error + unit" where
  "prepare_mutation h expected required =
     rbind (check_expected_version (ha_version h) expected) (\<lambda>_.
       if phase_terminal (ha_phase h) then Inl (Domain DmHandTerminal)
       else if ha_phase h \<noteq> required then Inl (Domain DmWrongPhase)
       else Inr ())"

fun find_hand_seat :: "hand_seat list \<Rightarrow> account_id \<Rightarrow> seat option" where
  "find_hand_seat [] actor = None"
| "find_hand_seat (s # ss) actor = (if hs_account s = actor then Some (hs_seat s) else find_hand_seat ss actor)"

definition resolve_seat :: "hand \<Rightarrow> account_id \<Rightarrow> go_error + seat" where
  "resolve_seat h actor =
     rbind (validate_identifier actor) (\<lambda>_.
       case find_hand_seat (ha_seats h) actor of
         Some s \<Rightarrow> Inr s
       | None \<Rightarrow> Inl (Domain DmNotSeated))"

definition change_phase :: "hand \<Rightarrow> hand_phase \<Rightarrow> hand \<times> hand_payload event" where
  "change_phase h to =
     hand_record (h\<lparr>ha_phase := to\<rparr>) event_hand_phase_changed (HandPhasePayload (ha_phase h) to)"

definition transition :: "hand \<Rightarrow> u64 \<Rightarrow> hand_phase \<Rightarrow> hand_phase \<Rightarrow> hand_result" where
  "transition h expected source to =
     rbind (prepare_mutation h expected source) (\<lambda>_.
       let (h', e) = change_phase h to in Inr (h', [e]))"

definition terminate :: "hand \<Rightarrow> u64 \<Rightarrow> hand_phase \<Rightarrow> string \<Rightarrow> hand_result" where
  "terminate h expected terminal reason =
     rbind (check_expected_version (ha_version h) expected) (\<lambda>_.
       if phase_terminal (ha_phase h) then Inl (Domain DmHandTerminal)
       else let r = trim_space reason in
         if r = [] \<or> length r > 256 then Inl (Domain DmInvalidArgument)
         else let source = ha_phase h;
                  h1 = h\<lparr>ha_reason := r, ha_phase := terminal\<rparr>;
                  (h2, e1) = hand_record h1 event_hand_terminated (HandTerminationPayload terminal r);
                  (h3, e2) = hand_record h2 event_hand_phase_changed (HandPhasePayload source terminal)
              in Inr (h3, [e1, e2]))"

definition commit_count :: "hand \<Rightarrow> nat" where
  "commit_count h = length (filter (\<lambda>c. ct_commitment c \<noteq> zero32) (ha_contributions h))"

definition reveal_count :: "hand \<Rightarrow> nat" where
  "reveal_count h = length (filter ct_revealed (ha_contributions h))"

section \<open>Fairness commands\<close>

definition set_contribution :: "hand \<Rightarrow> seat \<Rightarrow> contribution \<Rightarrow> hand" where
  "set_contribution h seat c = h\<lparr>ha_contributions := (ha_contributions h)[unat (seat - 1) := c]\<rparr>"

definition submit_commit :: "hand \<Rightarrow> account_id \<Rightarrow> bytes \<Rightarrow> u64 \<Rightarrow> hand_result" where
  "submit_commit h actor commitment expected =
     (if ha_mode h = fairness_mode_client_custodied then Inl (Domain DmWrongPhase)
      else
        rbind (prepare_mutation h expected HandFairnessCommitting) (\<lambda>_.
        rbind (resolve_seat h actor) (\<lambda>seat.
        rbind (reject (all_zero32 commitment) (Domain DmInvalidArgument)) (\<lambda>_.
          let current = ha_contributions h ! unat (seat - 1)
          in if ct_commitment current \<noteq> zero32 then Inl (Domain DmDuplicateContribution)
             else
               let h1 = set_contribution h seat (current\<lparr>ct_commitment := commitment\<rparr>);
                   (h2, e) = hand_record h1 event_fairness_commit_accepted (FairnessSeatPayload seat)
               in if commit_count h2 = 3
                  then let (h3, e2) = change_phase h2 HandFairnessRevealing in Inr (h3, [e, e2])
                  else Inr (h2, [e])))))"

definition submit_reveal :: "hand \<Rightarrow> account_id \<Rightarrow> bytes \<Rightarrow> string \<Rightarrow> u64 \<Rightarrow> hand_result" where
  "submit_reveal h actor digest record_ref expected =
     (if ha_mode h = fairness_mode_client_custodied then Inl (Domain DmWrongPhase)
      else
        rbind (prepare_mutation h expected HandFairnessRevealing) (\<lambda>_.
        rbind (resolve_seat h actor) (\<lambda>seat.
        rbind (reject (all_zero32 digest) (Domain DmInvalidArgument)) (\<lambda>_.
          let ref = trim_space record_ref;
              current = ha_contributions h ! unat (seat - 1)
          in if ref = [] \<or> length ref > 256 then Inl (Domain DmInvalidArgument)
             else if ct_commitment current = zero32 then Inl (Domain DmWrongPhase)
             else if ct_revealed current then Inl (Domain DmDuplicateContribution)
             else if hand_client_commitment (ha_id h) seat digest \<noteq> ct_commitment current
             then Inl (Domain DmCommitmentMismatch)
             else
               let h1 = set_contribution h seat
                     (current\<lparr>ct_revealed := True, ct_digest := digest, ct_record_ref := ref\<rparr>);
                   (h2, e) = hand_record h1 event_fairness_reveal_accepted (FairnessSeatPayload seat)
               in if reveal_count h2 = 3
                  then let (h3, e2) = change_phase h2 HandWaitingPublicBeacon in Inr (h3, [e, e2])
                  else Inr (h2, [e])))))"

text \<open>The receiver may be nil.\<close>

definition submit_custodied ::
  "hand option \<Rightarrow> account_id \<Rightarrow> bytes \<Rightarrow> string \<Rightarrow> u64 \<Rightarrow> hand_result" where
  "submit_custodied receiver actor digest record_ref expected =
     (case receiver of
        None \<Rightarrow> Inl (Domain DmWrongPhase)
      | Some h \<Rightarrow>
        if ha_mode h \<noteq> fairness_mode_client_custodied then Inl (Domain DmWrongPhase)
        else
          rbind (prepare_mutation h expected HandFairnessCommitting) (\<lambda>_.
          rbind (resolve_seat h actor) (\<lambda>seat.
            let ref = trim_space record_ref;
                current = ha_contributions h ! unat (seat - 1)
            in if ref = [] \<or> length ref > 256 \<or> all_zero32 digest then Inl (Domain DmInvalidArgument)
               else if ct_commitment current \<noteq> zero32 \<or> ct_revealed current
               then Inl (Domain DmDuplicateContribution)
               else
                 let h1 = set_contribution h seat
                       (current\<lparr>ct_commitment := hand_client_commitment (ha_id h) seat digest,
                                ct_revealed := True, ct_digest := digest, ct_record_ref := ref\<rparr>);
                     (h2, e1) = hand_record h1 event_fairness_commit_accepted (FairnessSeatPayload seat);
                     (h3, e2) = hand_record h2 event_fairness_reveal_accepted (FairnessSeatPayload seat)
                 in if reveal_count h3 = 3
                    then let (h4, e3) = change_phase h3 HandWaitingPublicBeacon in Inr (h4, [e1, e2, e3])
                    else Inr (h3, [e1, e2]))))"

definition lock_public_beacon :: "hand \<Rightarrow> beacon_value \<Rightarrow> u64 \<Rightarrow> hand_result" where
  "lock_public_beacon h value expected =
     rbind (prepare_mutation h expected HandWaitingPublicBeacon) (\<lambda>_.
     rbind (reject (bv_provider value \<noteq> bp_provider (ha_plan h) \<or> bv_round value \<noteq> bp_round (ha_plan h))
              (Domain DmBeaconMismatch)) (\<lambda>_.
     rbind (reject (all_zero32 (bv_digest value)) (Domain DmInvalidArgument)) (\<lambda>_.
       let v = value\<lparr>bv_proof_ref := trim_space (bv_proof_ref value)\<rparr>
       in if bv_proof_ref v = [] \<or> length (bv_proof_ref v) > 512 then Inl (Domain DmInvalidArgument)
          else
            let (h1, e1) = hand_record (h\<lparr>ha_beacon := Some v\<rparr>) event_public_beacon_locked
                  (PublicBeaconPayload (bv_provider v) (bv_round v) (bv_proof_ref v));
                (h2, e2) = change_phase h1 HandDealing
            in Inr (h2, [e1, e2]))))"

section \<open>Lifecycle commands\<close>

definition mark_dealt :: "hand \<Rightarrow> u64 \<Rightarrow> hand_result" where
  "mark_dealt h expected = transition h expected HandDealing HandBidding"

definition start_playing :: "hand \<Rightarrow> u64 \<Rightarrow> hand_result" where
  "start_playing h expected = transition h expected HandBidding HandPlaying"

definition start_settling :: "hand \<Rightarrow> u64 \<Rightarrow> hand_result" where
  "start_settling h expected = transition h expected HandPlaying HandSettling"

definition complete_hand :: "hand \<Rightarrow> u64 \<Rightarrow> hand_result" where
  "complete_hand h expected = transition h expected HandSettling HandCompleted"

definition cancel_hand :: "hand \<Rightarrow> string \<Rightarrow> u64 \<Rightarrow> hand_result" where
  "cancel_hand h reason expected =
     (if ha_phase h = HandDealing \<or> ha_phase h = HandBidding \<or> ha_phase h = HandPlaying \<or> ha_phase h = HandSettling
      then Inl (Domain DmWrongPhase)
      else terminate h expected HandCancelled reason)"

definition abort_hand :: "hand \<Rightarrow> string \<Rightarrow> u64 \<Rightarrow> hand_result" where
  "abort_hand h reason expected = terminate h expected HandAborted reason"

definition expire_hand :: "hand \<Rightarrow> string \<Rightarrow> u64 \<Rightarrow> hand_result" where
  "expire_hand h reason expected = terminate h expected HandExpired reason"

section \<open>Restoring\<close>

fun valid_hand_phase :: "hand_phase \<Rightarrow> bool" where
  "valid_hand_phase (HandPhaseOther s) = False"
| "valid_hand_phase _ = True"

definition validate_hand_state :: "hand \<Rightarrow> go_error + unit" where
  "validate_hand_state h =
     (let commits = commit_count h; reveals = reveal_count h; bad = Domain DmInvalidArgument in
      if reveals > commits then Inl bad
      else if phase_terminal (ha_phase h) then
        (if ha_phase h = HandCompleted then
           (if ha_reason h \<noteq> [] then Inl bad
            else reject (commits \<noteq> 3 \<or> reveals \<noteq> 3 \<or> ha_beacon h = None) bad)
         else reject (trim_space (ha_reason h) = [] \<or> length (ha_reason h) > 256) bad)
      else if ha_reason h \<noteq> [] then Inl bad
      else case ha_phase h of
        HandFairnessCommitting \<Rightarrow>
          if ha_mode h = fairness_mode_client_custodied
          then reject (commits \<ge> 3 \<or> reveals \<noteq> commits \<or> ha_beacon h \<noteq> None) bad
          else reject (commits \<ge> 3 \<or> reveals \<noteq> 0 \<or> ha_beacon h \<noteq> None) bad
      | HandFairnessRevealing \<Rightarrow> reject (commits \<noteq> 3 \<or> reveals \<ge> 3 \<or> ha_beacon h \<noteq> None) bad
      | HandWaitingPublicBeacon \<Rightarrow> reject (commits \<noteq> 3 \<or> reveals \<noteq> 3 \<or> ha_beacon h \<noteq> None) bad
      | HandDealing \<Rightarrow> reject (commits \<noteq> 3 \<or> reveals \<noteq> 3 \<or> ha_beacon h = None) bad
      | HandBidding \<Rightarrow> reject (commits \<noteq> 3 \<or> reveals \<noteq> 3 \<or> ha_beacon h = None) bad
      | HandPlaying \<Rightarrow> reject (commits \<noteq> 3 \<or> reveals \<noteq> 3 \<or> ha_beacon h = None) bad
      | HandSettling \<Rightarrow> reject (commits \<noteq> 3 \<or> reveals \<noteq> 3 \<or> ha_beacon h = None) bad
      | HandCompleted \<Rightarrow> reject (commits \<noteq> 3 \<or> reveals \<noteq> 3 \<or> ha_beacon h = None) bad
      | _ \<Rightarrow> Inr ())"

definition restore_contribution :: "seat \<Rightarrow> contribution_snapshot \<Rightarrow> go_error + contribution" where
  "restore_contribution expected c =
     (let committed = (cs_commitment c \<noteq> zero32); bad = Inl (Domain DmInvalidArgument) in
      if cs_seat c \<noteq> expected then bad
      else if cs_committed c \<noteq> committed then bad
      else if cs_revealed c \<and> (\<not> committed \<or> all_zero32 (cs_digest c)) then bad
      else if cs_revealed c \<and> (trim_space (cs_record_ref c) = [] \<or> length (cs_record_ref c) > 256) then bad
      else if \<not> cs_revealed c \<and> (cs_digest c \<noteq> zero32 \<or> cs_record_ref c \<noteq> []) then bad
      else Inr \<lparr>ct_commitment = cs_commitment c, ct_revealed = cs_revealed c, ct_digest = cs_digest c,
                ct_record_ref = cs_record_ref c\<rparr>)"

fun restore_contributions :: "seat list \<Rightarrow> contribution_snapshot list \<Rightarrow> go_error + contribution list" where
  "restore_contributions (expected # es) (c # cs) =
     rbind (restore_contribution expected c) (\<lambda>x.
     rbind (restore_contributions es cs) (\<lambda>xs. Inr (x # xs)))"
| "restore_contributions _ _ = Inr []"

definition check_beacon_snapshot :: "hand_snapshot \<Rightarrow> go_error + unit" where
  "check_beacon_snapshot s =
     (case hn_beacon s of
        None \<Rightarrow> Inr ()
      | Some b \<Rightarrow>
          if bv_provider b \<noteq> bp_provider (hn_plan s) \<or> bv_round b \<noteq> bp_round (hn_plan s)
          then Inl (Domain DmBeaconMismatch)
          else reject (all_zero32 (bv_digest b) \<or> trim_space (bv_proof_ref b) = [] \<or> length (bv_proof_ref b) > 512)
                 (Domain DmInvalidArgument))"

definition restore_hand :: "hand_snapshot \<Rightarrow> go_error + hand" where
  "restore_hand s =
     (let bad = Domain DmInvalidArgument in
      rbind (reject (hn_mode s \<noteq> [] \<and> hn_mode s \<noteq> fairness_mode_client_custodied) bad) (\<lambda>_.
      rbind (validate_identifier (hn_id s)) (\<lambda>_.
      rbind (validate_identifier (hn_room s)) (\<lambda>_.
      rbind (reject (hn_version s = 0) bad) (\<lambda>_.
      rbind (reject (\<not> valid_hand_phase (hn_phase s)) bad) (\<lambda>_.
      rbind (validate_hand_seats (hn_seats s)) (\<lambda>_.
      rbind (reject (all_zero32 (hn_server_commitment s)) bad) (\<lambda>_.
      rbind (validate_identifier (hn_reveal_key s)) (\<lambda>_.
      rbind (reject (hn_reveal_hash s = zero32 \<or> time_is_zero (hn_reveal_bound_at s)) bad) (\<lambda>_.
      rbind (validate_beacon_plan (hn_plan s)) (\<lambda>_.
      rbind (check_beacon_snapshot s) (\<lambda>_.
      rbind (restore_contributions fixed_seats (hn_contributions s)) (\<lambda>cs.
        let h = \<lparr>ha_mode = hn_mode s, ha_id = hn_id s, ha_room = hn_room s, ha_phase = hn_phase s,
                 ha_seats = hn_seats s, ha_server_commitment = hn_server_commitment s,
                 ha_reveal_key = hn_reveal_key s, ha_reveal_hash = hn_reveal_hash s,
                 ha_reveal_bound_at = time_utc (hn_reveal_bound_at s), ha_plan = hn_plan s,
                 ha_beacon = hn_beacon s, ha_contributions = cs, ha_reason = hn_reason s,
                 ha_version = hn_version s\<rparr>
        in rbind (validate_hand_state h) (\<lambda>_. Inr h))))))))))))))"

section \<open>Commands\<close>

datatype hand_command =
    HCommit account_id bytes
  | HReveal account_id bytes string
  | HCustodied account_id bytes string
  | HBeacon beacon_value
  | HDealt
  | HPlaying
  | HSettling
  | HComplete
  | HCancel string
  | HAbort string
  | HExpire string

fun hand_apply :: "hand \<Rightarrow> u64 \<Rightarrow> hand_command \<Rightarrow> hand_result" where
  "hand_apply h v (HCommit actor commitment) = submit_commit h actor commitment v"
| "hand_apply h v (HReveal actor digest ref) = submit_reveal h actor digest ref v"
| "hand_apply h v (HCustodied actor digest ref) = submit_custodied (Some h) actor digest ref v"
| "hand_apply h v (HBeacon value) = lock_public_beacon h value v"
| "hand_apply h v HDealt = mark_dealt h v"
| "hand_apply h v HPlaying = start_playing h v"
| "hand_apply h v HSettling = start_settling h v"
| "hand_apply h v HComplete = complete_hand h v"
| "hand_apply h v (HCancel reason) = cancel_hand h reason v"
| "hand_apply h v (HAbort reason) = abort_hand h reason v"
| "hand_apply h v (HExpire reason) = expire_hand h reason v"

text \<open>Digests and commitments are arrays of 32 bytes in Go.\<close>

fun typed_command :: "hand_command \<Rightarrow> bool" where
  "typed_command (HCommit actor commitment) = (length commitment = 32)"
| "typed_command (HReveal actor digest ref) = (length digest = 32)"
| "typed_command (HCustodied actor digest ref) = (length digest = 32)"
| "typed_command _ = True"

inductive hand_reach :: "hand \<Rightarrow> bool" where
  hand_reach_new: "new_hand hid rid seats sc key plan bindings = Inr (h, es) \<Longrightarrow> hand_reach h"
| hand_reach_custodied: "new_client_custodied_hand hid rid seats sc key plan binding = Inr (h, es) \<Longrightarrow> hand_reach h"
| hand_reach_step: "hand_reach h \<Longrightarrow> typed_command cmd \<Longrightarrow> hand_apply h v cmd = Inr (h', es) \<Longrightarrow> hand_reach h'"

section \<open>The effect of a successful command\<close>

definition bump :: "nat \<Rightarrow> hand \<Rightarrow> hand" where
  "bump n h = h\<lparr>ha_version := ha_version h + word_of_nat n\<rparr>"

lemma prepare_mutation_Inr [result_simps]:
  "prepare_mutation h v p = Inr u \<longleftrightarrow> v = ha_version h \<and> \<not> phase_terminal (ha_phase h) \<and> ha_phase h = p"
  by (auto simp: prepare_mutation_def rbind_eq_Inr check_expected_version_Inr)

lemma resolve_seat_Inr [result_simps]:
  "resolve_seat h actor = Inr s \<longleftrightarrow> validate_identifier actor = Inr () \<and> find_hand_seat (ha_seats h) actor = Some s"
  by (auto simp: resolve_seat_def rbind_eq_Inr split: option.splits)

lemmas hand_record_simps = hand_record_def change_phase_def Let_def split_beta

text \<open>\<open>put h k c\<close> is the hand after contribution \<open>k\<close> was replaced.\<close>

abbreviation put :: "hand \<Rightarrow> nat \<Rightarrow> contribution \<Rightarrow> hand" where
  "put h k c \<equiv> h\<lparr>ha_contributions := (ha_contributions h)[k := c]\<rparr>"

lemma count_version [simp]:
  "commit_count (h\<lparr>ha_version := v\<rparr>) = commit_count h" "reveal_count (h\<lparr>ha_version := v\<rparr>) = reveal_count h"
  "commit_count (h\<lparr>ha_phase := p\<rparr>) = commit_count h" "reveal_count (h\<lparr>ha_phase := p\<rparr>) = reveal_count h"
  "commit_count (h\<lparr>ha_reason := r\<rparr>) = commit_count h" "reveal_count (h\<lparr>ha_reason := r\<rparr>) = reveal_count h"
  "commit_count (h\<lparr>ha_beacon := b\<rparr>) = commit_count h" "reveal_count (h\<lparr>ha_beacon := b\<rparr>) = reveal_count h"
  by (simp_all add: commit_count_def reveal_count_def)

lemma submit_commit_Inr:
  assumes "submit_commit h actor commitment v = Inr (h', es)"
  shows "\<exists>seat k h1. ha_mode h \<noteq> fairness_mode_client_custodied \<and> ha_phase h = HandFairnessCommitting \<and>
    find_hand_seat (ha_seats h) actor = Some seat \<and> k = unat (seat - 1) \<and> \<not> all_zero32 commitment \<and>
    ct_commitment (ha_contributions h ! k) = zero32 \<and>
    h1 = put h k ((ha_contributions h ! k)\<lparr>ct_commitment := commitment\<rparr>) \<and>
    h' = (if commit_count h1 = 3 then h1\<lparr>ha_phase := HandFairnessRevealing, ha_version := ha_version h + 2\<rparr>
          else h1\<lparr>ha_version := ha_version h + 1\<rparr>)"
proof -
  obtain seat where s: "ha_mode h \<noteq> fairness_mode_client_custodied" "ha_phase h = HandFairnessCommitting"
      "find_hand_seat (ha_seats h) actor = Some seat" "\<not> all_zero32 commitment"
    using assms by (auto simp: submit_commit_def result_simps split: if_splits)
  let ?k = "unat (seat - 1)"
  let ?h1 = "put h ?k ((ha_contributions h ! ?k)\<lparr>ct_commitment := commitment\<rparr>)"
  have "ct_commitment (ha_contributions h ! ?k) = zero32"
    using assms s by (auto simp: submit_commit_def result_simps Let_def split: if_splits)
  moreover from this have "h' = (if commit_count ?h1 = 3 then ?h1\<lparr>ha_phase := HandFairnessRevealing, ha_version := ha_version h + 2\<rparr>
          else ?h1\<lparr>ha_version := ha_version h + 1\<rparr>)"
    using assms s by (auto simp: submit_commit_def result_simps set_contribution_def hand_record_simps split: if_splits)
  ultimately show ?thesis using s by blast
qed

lemma submit_reveal_Inr:
  assumes "submit_reveal h actor digest ref v = Inr (h', es)"
  shows "\<exists>seat k h1. ha_mode h \<noteq> fairness_mode_client_custodied \<and> ha_phase h = HandFairnessRevealing \<and>
    find_hand_seat (ha_seats h) actor = Some seat \<and> k = unat (seat - 1) \<and> \<not> all_zero32 digest \<and>
    trim_space ref \<noteq> [] \<and> length (trim_space ref) \<le> 256 \<and>
    ct_commitment (ha_contributions h ! k) \<noteq> zero32 \<and> \<not> ct_revealed (ha_contributions h ! k) \<and>
    hand_client_commitment (ha_id h) seat digest = ct_commitment (ha_contributions h ! k) \<and>
    h1 = put h k ((ha_contributions h ! k)\<lparr>ct_revealed := True, ct_digest := digest, ct_record_ref := trim_space ref\<rparr>) \<and>
    h' = (if reveal_count h1 = 3 then h1\<lparr>ha_phase := HandWaitingPublicBeacon, ha_version := ha_version h + 2\<rparr>
          else h1\<lparr>ha_version := ha_version h + 1\<rparr>)"
proof -
  obtain seat where s: "ha_mode h \<noteq> fairness_mode_client_custodied" "ha_phase h = HandFairnessRevealing"
      "find_hand_seat (ha_seats h) actor = Some seat" "\<not> all_zero32 digest"
    using assms by (auto simp: submit_reveal_def result_simps split: if_splits)
  let ?k = "unat (seat - 1)"
  let ?h1 = "put h ?k ((ha_contributions h ! ?k)\<lparr>ct_revealed := True, ct_digest := digest, ct_record_ref := trim_space ref\<rparr>)"
  have g: "trim_space ref \<noteq> []" "length (trim_space ref) \<le> 256"
      "ct_commitment (ha_contributions h ! ?k) \<noteq> zero32" "\<not> ct_revealed (ha_contributions h ! ?k)"
      "hand_client_commitment (ha_id h) seat digest = ct_commitment (ha_contributions h ! ?k)"
    using assms s by (auto simp: submit_reveal_def result_simps Let_def split: if_splits)
  moreover from this have "h' = (if reveal_count ?h1 = 3 then ?h1\<lparr>ha_phase := HandWaitingPublicBeacon, ha_version := ha_version h + 2\<rparr>
          else ?h1\<lparr>ha_version := ha_version h + 1\<rparr>)"
    using assms s by (auto simp: submit_reveal_def result_simps set_contribution_def hand_record_simps split: if_splits)
  ultimately show ?thesis using s by blast
qed

lemma submit_custodied_Inr:
  assumes "submit_custodied (Some h) actor digest ref v = Inr (h', es)"
  shows "\<exists>seat k h1. ha_mode h = fairness_mode_client_custodied \<and> ha_phase h = HandFairnessCommitting \<and>
    find_hand_seat (ha_seats h) actor = Some seat \<and> k = unat (seat - 1) \<and> \<not> all_zero32 digest \<and>
    trim_space ref \<noteq> [] \<and> length (trim_space ref) \<le> 256 \<and>
    ct_commitment (ha_contributions h ! k) = zero32 \<and> \<not> ct_revealed (ha_contributions h ! k) \<and>
    h1 = put h k ((ha_contributions h ! k)\<lparr>ct_commitment := hand_client_commitment (ha_id h) seat digest,
           ct_revealed := True, ct_digest := digest, ct_record_ref := trim_space ref\<rparr>) \<and>
    h' = (if reveal_count h1 = 3 then h1\<lparr>ha_phase := HandWaitingPublicBeacon, ha_version := ha_version h + 3\<rparr>
          else h1\<lparr>ha_version := ha_version h + 2\<rparr>)"
proof -
  obtain seat where s: "ha_mode h = fairness_mode_client_custodied" "ha_phase h = HandFairnessCommitting"
      "find_hand_seat (ha_seats h) actor = Some seat"
    using assms by (auto simp: submit_custodied_def result_simps split: if_splits)
  let ?k = "unat (seat - 1)"
  let ?h1 = "put h ?k ((ha_contributions h ! ?k)\<lparr>ct_commitment := hand_client_commitment (ha_id h) seat digest,
           ct_revealed := True, ct_digest := digest, ct_record_ref := trim_space ref\<rparr>)"
  have g: "trim_space ref \<noteq> []" "length (trim_space ref) \<le> 256" "\<not> all_zero32 digest"
      "ct_commitment (ha_contributions h ! ?k) = zero32" "\<not> ct_revealed (ha_contributions h ! ?k)"
    using assms s by (auto simp: submit_custodied_def result_simps Let_def split: if_splits)
  moreover from this have "h' = (if reveal_count ?h1 = 3 then ?h1\<lparr>ha_phase := HandWaitingPublicBeacon, ha_version := ha_version h + 3\<rparr>
          else ?h1\<lparr>ha_version := ha_version h + 2\<rparr>)"
    using assms s by (auto simp: submit_custodied_def result_simps set_contribution_def hand_record_simps split: if_splits)
  ultimately show ?thesis using s by blast
qed

lemma lock_public_beacon_Inr:
  assumes "lock_public_beacon h value v = Inr (h', es)"
  shows "ha_phase h = HandWaitingPublicBeacon \<and> bv_provider value = bp_provider (ha_plan h) \<and>
    bv_round value = bp_round (ha_plan h) \<and> \<not> all_zero32 (bv_digest value) \<and>
    trim_space (bv_proof_ref value) \<noteq> [] \<and> length (trim_space (bv_proof_ref value)) \<le> 512 \<and>
    h' = h\<lparr>ha_phase := HandDealing, ha_beacon := Some (value\<lparr>bv_proof_ref := trim_space (bv_proof_ref value)\<rparr>),
       ha_version := ha_version h + 2\<rparr>"
  using assms by (auto simp: lock_public_beacon_def result_simps hand_record_simps split: if_splits)

lemma transition_Inr:
  "transition h v p q = Inr (h', es) \<Longrightarrow> ha_phase h = p \<and> h' = h\<lparr>ha_phase := q, ha_version := ha_version h + 1\<rparr>"
  by (auto simp: transition_def result_simps hand_record_simps)

lemma terminate_Inr:
  assumes "terminate h v p reason = Inr (h', es)"
  shows "\<not> phase_terminal (ha_phase h) \<and> trim_space reason \<noteq> [] \<and> length (trim_space reason) \<le> 256 \<and>
    h' = h\<lparr>ha_phase := p, ha_reason := trim_space reason, ha_version := ha_version h + 2\<rparr>"
  using assms by (auto simp: terminate_def result_simps hand_record_simps split: if_splits)

section \<open>The hand invariant\<close>

definition static_ok :: "hand \<Rightarrow> bool" where
  "static_ok h \<longleftrightarrow> (ha_mode h = [] \<or> ha_mode h = fairness_mode_client_custodied) \<and>
     validate_identifier (ha_id h) = Inr () \<and> validate_identifier (ha_room h) = Inr () \<and>
     validate_hand_seats (ha_seats h) = Inr () \<and> \<not> all_zero32 (ha_server_commitment h) \<and>
     validate_identifier (ha_reveal_key h) = Inr () \<and> ha_reveal_hash h \<noteq> zero32 \<and>
     \<not> time_is_zero (ha_reveal_bound_at h) \<and> time_utc (ha_reveal_bound_at h) = ha_reveal_bound_at h \<and>
     validate_beacon_plan (ha_plan h) = Inr ()"

text \<open>Contribution \<open>k\<close>: a revealed one opens its commitment, an unrevealed one carries no reveal.\<close>

definition contribution_ok :: "hand_id \<Rightarrow> nat \<Rightarrow> contribution \<Rightarrow> bool" where
  "contribution_ok hid k c \<longleftrightarrow> length (ct_commitment c) = 32 \<and> length (ct_digest c) = 32 \<and>
     (if ct_revealed c
      then ct_commitment c = hand_client_commitment hid (word_of_nat (Suc k)) (ct_digest c) \<and>
           \<not> all_zero32 (ct_digest c) \<and> trim_space (ct_record_ref c) \<noteq> [] \<and> length (ct_record_ref c) \<le> 256
      else ct_digest c = zero32 \<and> ct_record_ref c = [])"

definition contributions_ok :: "hand \<Rightarrow> bool" where
  "contributions_ok h \<longleftrightarrow> length (ha_contributions h) = 3 \<and>
     (\<forall>k<3. contribution_ok (ha_id h) k (ha_contributions h ! k))"

definition beacon_ok :: "hand \<Rightarrow> bool" where
  "beacon_ok h \<longleftrightarrow> (\<forall>b. ha_beacon h = Some b \<longrightarrow>
     bv_provider b = bp_provider (ha_plan h) \<and> bv_round b = bp_round (ha_plan h) \<and>
     \<not> all_zero32 (bv_digest b) \<and> trim_space (bv_proof_ref b) \<noteq> [] \<and> length (bv_proof_ref b) \<le> 512)"

definition phase_ok :: "hand \<Rightarrow> bool" where
  "phase_ok h \<longleftrightarrow> valid_hand_phase (ha_phase h) \<and> validate_hand_state h = Inr () \<and>
     (ha_phase h = HandFairnessRevealing \<longrightarrow> ha_mode h \<noteq> fairness_mode_client_custodied)"

definition hand_inv :: "hand \<Rightarrow> bool" where
  "hand_inv h \<longleftrightarrow> static_ok h \<and> contributions_ok h \<and> beacon_ok h \<and> phase_ok h"

text \<open>
  The zero commitment stands for \<open>not committed\<close>, so the books balance only while no hash of a
  revealed contribution is the zero digest.
\<close>

definition hashes_nonzero :: "hand \<Rightarrow> bool" where
  "hashes_nonzero h \<longleftrightarrow> (\<forall>c \<in> set (ha_contributions h). ct_revealed c \<longrightarrow> ct_commitment c \<noteq> zero32)"

lemma all_zero32_eq: "length v = 32 \<Longrightarrow> all_zero32 v \<longleftrightarrow> v = zero32"
proof -
  assume l: "length v = 32"
  have "all_zero32 v \<longleftrightarrow> (\<forall>x \<in> set v. x = 0)" by (simp add: all_zero32_def foldl_or_zero)
  also have "\<dots> \<longleftrightarrow> v = zero32"
  proof
    assume "\<forall>x \<in> set v. x = 0"
    then show "v = zero32" unfolding zero32_def by (intro replicate_eqI) (simp_all add: l)
  qed (simp add: zero32_def)
  finally show ?thesis .
qed

lemma length_zero32 [simp]: "length zero32 = 32"
  by (simp add: zero32_def)

lemma trim_space_ref: "trim_space (trim_space r) = trim_space r"
  by (rule trim_space_idem)

lemma check_hand_seats_valid:
  "check_hand_seats ss seen accounts = Inr seen' \<Longrightarrow> \<forall>s \<in> set ss. seat_valid (hs_seat s)"
  by (induction ss seen accounts arbitrary: seen' rule: check_hand_seats.induct)
    (auto simp: rbind_eq_Inr split: if_splits)

lemma find_hand_seat_mem: "find_hand_seat ss a = Some s \<Longrightarrow> \<exists>x \<in> set ss. hs_seat x = s \<and> hs_account x = a"
  by (induction ss) (auto split: if_splits)

lemma seat_index:
  assumes "static_ok h" and "find_hand_seat (ha_seats h) a = Some s"
  shows "unat (s - 1) < 3 \<and> word_of_nat (Suc (unat (s - 1))) = s"
proof -
  obtain x where x: "x \<in> set (ha_seats h)" "hs_seat x = s" using find_hand_seat_mem [OF assms(2)] by blast
  have "validate_hand_seats (ha_seats h) = Inr ()" using assms(1) by (simp add: static_ok_def)
  then obtain seen where "check_hand_seats (ha_seats h) [] [] = Inr seen"
    by (auto simp: validate_hand_seats_def rbind_eq_Inr)
  from check_hand_seats_valid [OF this] x have "seat_valid s" by auto
  then have "1 \<le> unat s" "unat s \<le> 3" by (simp_all add: seat_valid_def u8_le_nat Suc_le_eq unat_gt_0)
  then have "unat s = 1 \<or> unat s = 2 \<or> unat s = 3" by linarith
  then have "s = 1 \<or> s = 2 \<or> s = 3" by (simp add: u8_eq_nat)
  then show ?thesis by (elim disjE) simp_all
qed

lemma counts_le: "length (ha_contributions h) = 3 \<Longrightarrow> commit_count h \<le> 3 \<and> reveal_count h \<le> 3"
  using length_filter_le [of "\<lambda>c. ct_commitment c \<noteq> zero32" "ha_contributions h"]
    length_filter_le [of ct_revealed "ha_contributions h"]
  by (simp add: commit_count_def reveal_count_def)

lemma put_counts:
  assumes "length (ha_contributions h) = 3" and "k < 3"
  shows "commit_count (put h k c) + (if ct_commitment (ha_contributions h ! k) \<noteq> zero32 then 1 else 0) =
      commit_count h + (if ct_commitment c \<noteq> zero32 then 1 else 0)"
    and "reveal_count (put h k c) + (if ct_revealed (ha_contributions h ! k) then 1 else 0) =
      reveal_count h + (if ct_revealed c then 1 else 0)"
  using assms length_filter_update [of k "ha_contributions h" "\<lambda>c. ct_commitment c \<noteq> zero32" c]
    length_filter_update [of k "ha_contributions h" ct_revealed c]
  by (simp_all add: commit_count_def reveal_count_def)

lemma put_ok:
  "contributions_ok h \<Longrightarrow> k < 3 \<Longrightarrow> contribution_ok (ha_id h) k c \<Longrightarrow> contributions_ok (put h k c)"
  by (auto simp: contributions_ok_def nth_list_update)

lemma ok_version [simp]:
  "static_ok (h\<lparr>ha_version := v\<rparr>) = static_ok h" "contributions_ok (h\<lparr>ha_version := v\<rparr>) = contributions_ok h"
  "beacon_ok (h\<lparr>ha_version := v\<rparr>) = beacon_ok h"
  "static_ok (h\<lparr>ha_phase := p\<rparr>) = static_ok h" "contributions_ok (h\<lparr>ha_phase := p\<rparr>) = contributions_ok h"
  "beacon_ok (h\<lparr>ha_phase := p\<rparr>) = beacon_ok h"
  "static_ok (h\<lparr>ha_reason := r\<rparr>) = static_ok h" "contributions_ok (h\<lparr>ha_reason := r\<rparr>) = contributions_ok h"
  "beacon_ok (h\<lparr>ha_reason := r\<rparr>) = beacon_ok h"
  "static_ok (h\<lparr>ha_beacon := b\<rparr>) = static_ok h" "contributions_ok (h\<lparr>ha_beacon := b\<rparr>) = contributions_ok h"
  "static_ok (h\<lparr>ha_contributions := cs\<rparr>) = static_ok h" "beacon_ok (h\<lparr>ha_contributions := cs\<rparr>) = beacon_ok h"
  by (simp_all add: static_ok_def contributions_ok_def beacon_ok_def)


text \<open>The bookkeeping that each phase promises.\<close>

definition books :: "hand_phase \<Rightarrow> bool \<Rightarrow> nat \<Rightarrow> nat \<Rightarrow> bool \<Rightarrow> string \<Rightarrow> bool" where
  "books phase custodied commits reveals beacon reason \<longleftrightarrow> reveals \<le> commits \<and>
     (case phase of
        HandFairnessCommitting \<Rightarrow> reason = [] \<and> commits < 3 \<and> \<not> beacon \<and> reveals = (if custodied then commits else 0)
      | HandFairnessRevealing \<Rightarrow> reason = [] \<and> \<not> custodied \<and> commits = 3 \<and> reveals < 3 \<and> \<not> beacon
      | HandWaitingPublicBeacon \<Rightarrow> reason = [] \<and> commits = 3 \<and> reveals = 3 \<and> \<not> beacon
      | HandDealing \<Rightarrow> reason = [] \<and> commits = 3 \<and> reveals = 3 \<and> beacon
      | HandBidding \<Rightarrow> reason = [] \<and> commits = 3 \<and> reveals = 3 \<and> beacon
      | HandPlaying \<Rightarrow> reason = [] \<and> commits = 3 \<and> reveals = 3 \<and> beacon
      | HandSettling \<Rightarrow> reason = [] \<and> commits = 3 \<and> reveals = 3 \<and> beacon
      | HandCompleted \<Rightarrow> reason = [] \<and> commits = 3 \<and> reveals = 3 \<and> beacon
      | HandPhaseOther s \<Rightarrow> False
      | _ \<Rightarrow> trim_space reason \<noteq> [] \<and> length reason \<le> 256)"

lemma phase_ok_books:
  "phase_ok h \<longleftrightarrow> books (ha_phase h) (ha_mode h = fairness_mode_client_custodied) (commit_count h) (reveal_count h)
     (ha_beacon h \<noteq> None) (ha_reason h)"
  by (cases "ha_phase h") (auto simp: phase_ok_def books_def validate_hand_state_def Let_def)

lemma books_terminate:
  "books p c n m b r \<Longrightarrow> trim_space reason \<noteq> [] \<Longrightarrow> length reason \<le> 256 \<Longrightarrow>
    q = HandCancelled \<or> q = HandAborted \<or> q = HandExpired \<Longrightarrow> books q c n m b reason"
  by (auto simp: books_def)

section \<open>Every command keeps the invariant\<close>

lemma commit_inv:
  assumes inv: "hand_inv h" and len: "length commitment = 32" and s: "submit_commit h actor commitment v = Inr (h', es)"
  shows "hand_inv h'"
proof -
  obtain seat k h1 where g: "ha_mode h \<noteq> fairness_mode_client_custodied" "ha_phase h = HandFairnessCommitting"
      "find_hand_seat (ha_seats h) actor = Some seat" "k = unat (seat - 1)" "\<not> all_zero32 commitment"
      "ct_commitment (ha_contributions h ! k) = zero32"
      "h1 = put h k ((ha_contributions h ! k)\<lparr>ct_commitment := commitment\<rparr>)"
      "h' = (if commit_count h1 = 3 then h1\<lparr>ha_phase := HandFairnessRevealing, ha_version := ha_version h + 2\<rparr>
          else h1\<lparr>ha_version := ha_version h + 1\<rparr>)"
    using submit_commit_Inr [OF s] by blast
  have i: "static_ok h" "contributions_ok h" "beacon_ok h"
      "books HandFairnessCommitting False (commit_count h) (reveal_count h) (ha_beacon h \<noteq> None) (ha_reason h)"
    using inv g(1,2) by (simp_all add: hand_inv_def phase_ok_books)
  have k: "k < 3" using seat_index [OF i(1) g(3)] g(4) by simp
  have l3: "length (ha_contributions h) = 3" using i(2) by (simp add: contributions_ok_def)
  have rc: "reveal_count h = 0" using i(4) by (simp add: books_def)
  then have nr: "\<not> ct_revealed (ha_contributions h ! k)"
    using k l3 by (auto simp: reveal_count_def filter_empty_conv)
  have ck: "contribution_ok (ha_id h) k (ha_contributions h ! k)" using i(2) k by (simp add: contributions_ok_def)
  have nz: "commitment \<noteq> zero32" using g(5) all_zero32_eq [OF len] by simp
  have "commit_count h1 = commit_count h + 1" "reveal_count h1 = 0"
    using put_counts [OF l3 k] g(6,7) nz nr rc by simp_all
  then have "books (ha_phase h') False (commit_count h') (reveal_count h') (ha_beacon h' \<noteq> None) (ha_reason h')"
    using i(4) g(2,7,8) by (auto simp: books_def)
  moreover have "contributions_ok h1"
    unfolding g(7) by (rule put_ok [OF i(2) k]) (use ck nr len in \<open>simp add: contribution_ok_def\<close>)
  moreover have "static_ok h1" "beacon_ok h1" using i g(7) by simp_all
  moreover have "ha_mode h' = ha_mode h" using g(7,8) by simp
  ultimately show ?thesis using g(1,8) by (auto simp: hand_inv_def phase_ok_books)
qed

lemma reveal_inv:
  assumes inv: "hand_inv h" and len: "length digest = 32" and s: "submit_reveal h actor digest ref v = Inr (h', es)"
  shows "hand_inv h'"
proof -
  obtain seat k h1 where g: "ha_mode h \<noteq> fairness_mode_client_custodied" "ha_phase h = HandFairnessRevealing"
      "find_hand_seat (ha_seats h) actor = Some seat" "k = unat (seat - 1)" "\<not> all_zero32 digest"
      "trim_space ref \<noteq> []" "length (trim_space ref) \<le> 256"
      "ct_commitment (ha_contributions h ! k) \<noteq> zero32" "\<not> ct_revealed (ha_contributions h ! k)"
      "hand_client_commitment (ha_id h) seat digest = ct_commitment (ha_contributions h ! k)"
      "h1 = put h k ((ha_contributions h ! k)\<lparr>ct_revealed := True, ct_digest := digest, ct_record_ref := trim_space ref\<rparr>)"
      "h' = (if reveal_count h1 = 3 then h1\<lparr>ha_phase := HandWaitingPublicBeacon, ha_version := ha_version h + 2\<rparr>
          else h1\<lparr>ha_version := ha_version h + 1\<rparr>)"
    using submit_reveal_Inr [OF s] by blast
  have i: "static_ok h" "contributions_ok h" "beacon_ok h"
      "books HandFairnessRevealing False (commit_count h) (reveal_count h) (ha_beacon h \<noteq> None) (ha_reason h)"
    using inv g(1,2) by (simp_all add: hand_inv_def phase_ok_books)
  have k: "k < 3" and kseat: "word_of_nat (Suc k) = seat" using seat_index [OF i(1) g(3)] g(4) by simp_all
  have l3: "length (ha_contributions h) = 3" using i(2) by (simp add: contributions_ok_def)
  have ck: "contribution_ok (ha_id h) k (ha_contributions h ! k)" using i(2) k by (simp add: contributions_ok_def)
  have "commit_count h1 = commit_count h" "reveal_count h1 = reveal_count h + 1"
    unfolding g(11)
    using put_counts [OF l3 k, of "(ha_contributions h ! k)\<lparr>ct_revealed := True, ct_digest := digest, ct_record_ref := trim_space ref\<rparr>"] g(8,9)
    by simp_all
  then have "books (ha_phase h') False (commit_count h') (reveal_count h') (ha_beacon h' \<noteq> None) (ha_reason h')"
    using i(4) g(2,11,12) by (auto simp: books_def)
  moreover have "contributions_ok h1"
    unfolding g(11)
    by (rule put_ok [OF i(2) k]) (use ck g(5-7,9,10) len kseat in \<open>simp add: contribution_ok_def trim_space_ref\<close>)
  moreover have "static_ok h1" "beacon_ok h1" using i g(11) by simp_all
  moreover have "ha_mode h' = ha_mode h" using g(11,12) by simp
  ultimately show ?thesis using g(1,12) by (auto simp: hand_inv_def phase_ok_books)
qed

lemma custodied_inv:
  assumes inv: "hand_inv h" and len: "length digest = 32"
    and s: "submit_custodied (Some h) actor digest ref v = Inr (h', es)" and nz: "hashes_nonzero h'"
  shows "hand_inv h'"
proof -
  obtain seat k h1 where g: "ha_mode h = fairness_mode_client_custodied" "ha_phase h = HandFairnessCommitting"
      "find_hand_seat (ha_seats h) actor = Some seat" "k = unat (seat - 1)" "\<not> all_zero32 digest"
      "trim_space ref \<noteq> []" "length (trim_space ref) \<le> 256"
      "ct_commitment (ha_contributions h ! k) = zero32" "\<not> ct_revealed (ha_contributions h ! k)"
      "h1 = put h k ((ha_contributions h ! k)\<lparr>ct_commitment := hand_client_commitment (ha_id h) seat digest,
           ct_revealed := True, ct_digest := digest, ct_record_ref := trim_space ref\<rparr>)"
      "h' = (if reveal_count h1 = 3 then h1\<lparr>ha_phase := HandWaitingPublicBeacon, ha_version := ha_version h + 3\<rparr>
          else h1\<lparr>ha_version := ha_version h + 2\<rparr>)"
    using submit_custodied_Inr [OF s] by blast
  have i: "static_ok h" "contributions_ok h" "beacon_ok h"
      "books HandFairnessCommitting True (commit_count h) (reveal_count h) (ha_beacon h \<noteq> None) (ha_reason h)"
    using inv g(1,2) by (simp_all add: hand_inv_def phase_ok_books)
  have k: "k < 3" and kseat: "word_of_nat (Suc k) = seat" using seat_index [OF i(1) g(3)] g(4) by simp_all
  have l3: "length (ha_contributions h) = 3" using i(2) by (simp add: contributions_ok_def)
  have ck: "contribution_ok (ha_id h) k (ha_contributions h ! k)" using i(2) k by (simp add: contributions_ok_def)
  have "ha_contributions h' = ha_contributions h1" using g(11) by simp
  then have hz: "hand_client_commitment (ha_id h) seat digest \<noteq> zero32"
    using nz g(10) k l3 by (auto simp: hashes_nonzero_def dest!: bspec [OF _ nth_mem, of _ _ k])
  have "commit_count h1 = commit_count h + 1" "reveal_count h1 = reveal_count h + 1"
    using put_counts [OF l3 k] g(8-10) hz by simp_all
  then have "books (ha_phase h') True (commit_count h') (reveal_count h') (ha_beacon h' \<noteq> None) (ha_reason h')"
    using i(4) g(2,10,11) by (auto simp: books_def)
  moreover have "contributions_ok h1"
    unfolding g(10)
    by (rule put_ok [OF i(2) k])
      (use ck g(5-7) len kseat in \<open>simp add: contribution_ok_def trim_space_ref hand_client_commitment_def\<close>)
  moreover have "static_ok h1" "beacon_ok h1" using i g(10) by simp_all
  moreover have "ha_mode h' = ha_mode h" using g(10,11) by simp
  ultimately show ?thesis using g(1,11) by (auto simp: hand_inv_def phase_ok_books)
qed

lemma beacon_inv:
  assumes inv: "hand_inv h" and s: "lock_public_beacon h value v = Inr (h', es)"
  shows "hand_inv h'"
proof -
  have g: "ha_phase h = HandWaitingPublicBeacon" "bv_provider value = bp_provider (ha_plan h)"
      "bv_round value = bp_round (ha_plan h)" "\<not> all_zero32 (bv_digest value)"
      "trim_space (bv_proof_ref value) \<noteq> []" "length (trim_space (bv_proof_ref value)) \<le> 512"
      "h' = h\<lparr>ha_phase := HandDealing, ha_beacon := Some (value\<lparr>bv_proof_ref := trim_space (bv_proof_ref value)\<rparr>),
         ha_version := ha_version h + 2\<rparr>"
    using lock_public_beacon_Inr [OF s] by simp_all
  have "beacon_ok h'" using g by (simp add: beacon_ok_def trim_space_ref)
  moreover have "static_ok h'" "contributions_ok h'"
    using inv g(7) by (simp_all add: hand_inv_def static_ok_def contributions_ok_def)
  moreover have "phase_ok h'"
    using inv g(1,7) by (auto simp: hand_inv_def phase_ok_books books_def commit_count_def reveal_count_def)
  ultimately show ?thesis by (simp add: hand_inv_def)
qed

lemma transition_inv:
  assumes inv: "hand_inv h" and s: "transition h v p q = Inr (h', es)"
    and "(p, q) \<in> {(HandDealing, HandBidding), (HandBidding, HandPlaying), (HandPlaying, HandSettling), (HandSettling, HandCompleted)}"
  shows "hand_inv h'"
  using inv transition_Inr [OF s] assms(3) by (auto simp: hand_inv_def phase_ok_books books_def)

lemma terminate_inv:
  assumes inv: "hand_inv h" and s: "terminate h v q reason = Inr (h', es)"
    and "q = HandCancelled \<or> q = HandAborted \<or> q = HandExpired"
  shows "hand_inv h'"
  using inv terminate_Inr [OF s] assms(3) books_terminate [OF _ _ _ assms(3)]
  by (auto simp: hand_inv_def phase_ok_books trim_space_ref)

end
