(* ===== verification/Hand_Safety.thy ===== *)
theory Hand_Safety
  imports Hand
begin

text \<open>
  Safety of the hand aggregate (\<open>domain/hand_*.go\<close>, \<open>domain/fairness.go\<close>, \<open>RestoreHand\<close>): the
  invariant of every reachable hand, the storage round trip, what a gameplay phase guarantees about
  the fairness protocol, what no later command can change, and the binding of commitments.
\<close>

section \<open>Reachable hands keep the invariant\<close>

lemma commands_split:
  assumes "hand_apply h v cmd = Inr (h', es)"
  obtains (commit) actor c where "cmd = HCommit actor c" "submit_commit h actor c v = Inr (h', es)"
    | (reveal) actor d r where "cmd = HReveal actor d r" "submit_reveal h actor d r v = Inr (h', es)"
    | (custodied) actor d r where "cmd = HCustodied actor d r" "submit_custodied (Some h) actor d r v = Inr (h', es)"
    | (beacon) b where "cmd = HBeacon b" "lock_public_beacon h b v = Inr (h', es)"
    | (transition) p q where "transition h v p q = Inr (h', es)"
        "(p, q) \<in> {(HandDealing, HandBidding), (HandBidding, HandPlaying), (HandPlaying, HandSettling), (HandSettling, HandCompleted)}"
    | (terminate) q reason where "terminate h v q reason = Inr (h', es)"
        "q = HandCancelled \<or> q = HandAborted \<or> q = HandExpired"
        "ha_phase h \<in> {HandDealing, HandBidding, HandPlaying, HandSettling} \<Longrightarrow> q \<noteq> HandCancelled"
  using assms
proof (cases cmd)
  case HDealt with assms show ?thesis by (intro transition [of HandDealing HandBidding]) (simp_all add: mark_dealt_def)
next
  case HPlaying with assms show ?thesis by (intro transition [of HandBidding HandPlaying]) (simp_all add: start_playing_def)
next
  case HSettling with assms show ?thesis by (intro transition [of HandPlaying HandSettling]) (simp_all add: start_settling_def)
next
  case HComplete with assms show ?thesis by (intro transition [of HandSettling HandCompleted]) (simp_all add: complete_hand_def)
next
  case (HCancel r)
  with assms show ?thesis
    by (intro terminate [of HandCancelled r]) (auto simp: cancel_hand_def split: if_splits)
next
  case (HAbort r) with assms show ?thesis by (intro terminate [of HandAborted r]) (simp_all add: abort_hand_def)
next
  case (HExpire r) with assms show ?thesis by (intro terminate [of HandExpired r]) (simp_all add: expire_hand_def)
qed (simp_all add: commit reveal custodied beacon)

lemma hand_apply_inv:
  assumes "hand_inv h" "typed_command cmd" "hand_apply h v cmd = Inr (h', es)" "hashes_nonzero h'"
  shows "hand_inv h'"
  using assms(3)
proof (cases rule: commands_split)
  case commit with assms show ?thesis by (auto intro: commit_inv)
next
  case reveal with assms show ?thesis by (auto intro: reveal_inv)
next
  case custodied with assms show ?thesis by (auto intro: custodied_inv)
next
  case beacon with assms show ?thesis by (auto intro: beacon_inv)
next
  case transition with assms show ?thesis by (blast intro: transition_inv)
next
  case terminate with assms show ?thesis by (blast intro: terminate_inv)
qed

text \<open>A revealed contribution stays, so hashes that are non-zero at the end were so all along.\<close>

lemma contributions_step:
  assumes "hand_apply h v cmd = Inr (h', es)"
  shows "ha_contributions h' = ha_contributions h \<or>
    (\<exists>k c. ha_contributions h' = (ha_contributions h)[k := c] \<and>
       (ct_commitment (ha_contributions h ! k) \<noteq> zero32 \<longrightarrow> ct_commitment c = ct_commitment (ha_contributions h ! k)) \<and>
       (ct_revealed (ha_contributions h ! k) \<longrightarrow> ct_revealed c \<and> ct_digest c = ct_digest (ha_contributions h ! k) \<and>
          ct_record_ref c = ct_record_ref (ha_contributions h ! k)) \<and>
       (ha_mode h = fairness_mode_client_custodied \<longrightarrow> \<not> ct_revealed (ha_contributions h ! k)) \<and>
       (ha_mode h \<noteq> fairness_mode_client_custodied \<longrightarrow> ct_revealed c \<longrightarrow> ct_revealed (ha_contributions h ! k) \<or> ct_commitment c \<noteq> zero32))"
  using assms
proof (cases rule: commands_split)
  case (commit actor c) with submit_commit_Inr [OF commit(2)] show ?thesis by fastforce
next
  case (reveal actor d r) with submit_reveal_Inr [OF reveal(2)] show ?thesis by fastforce
next
  case (custodied actor d r) with submit_custodied_Inr [OF custodied(2)] show ?thesis by fastforce
next
  case (beacon b) with lock_public_beacon_Inr [OF beacon(2)] show ?thesis by simp
next
  case (transition p q) with transition_Inr [OF transition(1)] show ?thesis by simp
next
  case (terminate q r) with terminate_Inr [OF terminate(1)] show ?thesis by simp
qed

text \<open>The fields that the constructors fix, and the beacon outside its phase.\<close>

definition same_setup :: "hand \<Rightarrow> hand \<Rightarrow> bool" where
  "same_setup h h' \<longleftrightarrow> ha_mode h' = ha_mode h \<and> ha_id h' = ha_id h \<and> ha_room h' = ha_room h \<and>
     ha_seats h' = ha_seats h \<and> ha_server_commitment h' = ha_server_commitment h \<and>
     ha_reveal_key h' = ha_reveal_key h \<and> ha_reveal_hash h' = ha_reveal_hash h \<and>
     ha_reveal_bound_at h' = ha_reveal_bound_at h \<and> ha_plan h' = ha_plan h"

lemma same_setup_step:
  assumes "hand_apply h v cmd = Inr (h', es)"
  shows "same_setup h h' \<and> (ha_phase h = HandWaitingPublicBeacon \<or> ha_beacon h' = ha_beacon h)"
  using assms
proof (cases rule: commands_split)
  case (commit actor c) with submit_commit_Inr [OF commit(2)] show ?thesis by (auto simp: same_setup_def)
next
  case (reveal actor d r) with submit_reveal_Inr [OF reveal(2)] show ?thesis by (auto simp: same_setup_def)
next
  case (custodied actor d r) with submit_custodied_Inr [OF custodied(2)] show ?thesis by (auto simp: same_setup_def)
next
  case (beacon b) with lock_public_beacon_Inr [OF beacon(2)] show ?thesis by (simp add: same_setup_def)
next
  case (transition p q) with transition_Inr [OF transition(1)] show ?thesis by (simp add: same_setup_def)
next
  case (terminate q r) with terminate_Inr [OF terminate(1)] show ?thesis by (simp add: same_setup_def)
qed

definition early_phase :: "hand_phase \<Rightarrow> bool" where
  "early_phase p \<longleftrightarrow> p = HandFairnessCommitting \<or> p = HandFairnessRevealing \<or> p = HandWaitingPublicBeacon"

definition early_ok :: "hand \<Rightarrow> bool" where
  "early_ok h \<longleftrightarrow> (early_phase (ha_phase h) \<longrightarrow> ha_beacon h = None) \<and>
     (ha_mode h \<noteq> fairness_mode_client_custodied \<longrightarrow> hashes_nonzero h)"

lemma early_phase_step:
  assumes "hand_apply h v cmd = Inr (h', es)" and "early_phase (ha_phase h')"
  shows "early_phase (ha_phase h) \<and> ha_beacon h' = ha_beacon h"
  using assms(1)
proof (cases rule: commands_split)
  case (commit actor c) with submit_commit_Inr [OF commit(2)] show ?thesis by (auto simp: early_phase_def)
next
  case (reveal actor d r) with submit_reveal_Inr [OF reveal(2)] show ?thesis by (auto simp: early_phase_def)
next
  case (custodied actor d r) with submit_custodied_Inr [OF custodied(2)] show ?thesis by (auto simp: early_phase_def)
next
  case (beacon b) with lock_public_beacon_Inr [OF beacon(2)] assms(2) show ?thesis by (simp add: early_phase_def)
next
  case (transition p q) with transition_Inr [OF transition(1)] assms(2) show ?thesis by (auto simp: early_phase_def)
next
  case (terminate q r) with terminate_Inr [OF terminate(1)] assms(2) show ?thesis by (auto simp: early_phase_def)
qed

lemma hashes_nonzero_step:
  assumes s: "hand_apply h v cmd = Inr (h', es)"
    and m: "ha_mode h \<noteq> fairness_mode_client_custodied" and hz: "hashes_nonzero h"
  shows "hashes_nonzero h'"
proof -
  consider "ha_contributions h' = ha_contributions h"
    | k c where "ha_contributions h' = (ha_contributions h)[k := c]" "k < length (ha_contributions h)"
      "ct_commitment (ha_contributions h ! k) \<noteq> zero32 \<Longrightarrow> ct_commitment c = ct_commitment (ha_contributions h ! k)"
      "ct_revealed c \<Longrightarrow> ct_revealed (ha_contributions h ! k) \<or> ct_commitment c \<noteq> zero32"
    using contributions_step [OF s] m by (metis list_update_beyond not_le)
  then show ?thesis
  proof cases
    case 1 with hz show ?thesis by (simp add: hashes_nonzero_def)
  next
    case (2 k c)
    have old: "ct_revealed (ha_contributions h ! k) \<Longrightarrow> ct_commitment (ha_contributions h ! k) \<noteq> zero32"
      using hz 2(2) by (simp add: hashes_nonzero_def)
    then have "ct_revealed c \<Longrightarrow> ct_commitment c \<noteq> zero32" using 2(3,4) by metis
    then show ?thesis
      using hz 2(1) set_update_subset_insert [of "ha_contributions h" k c] by (auto simp: hashes_nonzero_def)
  qed
qed

lemma new_hand_Inr:
  assumes "new_hand hid rid seats sc key plan bindings = Inr (h, es)"
  shows "\<exists>hash bound. h = \<lparr>ha_mode = [], ha_id = hid, ha_room = rid, ha_phase = HandFairnessCommitting,
      ha_seats = seats, ha_server_commitment = sc, ha_reveal_key = key, ha_reveal_hash = hash,
      ha_reveal_bound_at = time_utc bound, ha_plan = plan, ha_beacon = None,
      ha_contributions = replicate 3 empty_contribution, ha_reason = [], ha_version = 1\<rparr> \<and>
    hash \<noteq> zero32 \<and> \<not> time_is_zero bound \<and> validate_identifier hid = Inr () \<and> validate_identifier rid = Inr () \<and>
    \<not> all_zero32 sc \<and> validate_identifier key = Inr () \<and> validate_beacon_plan plan = Inr () \<and>
    validate_hand_seats seats = Inr ()"
  using assms
  by (auto simp: new_hand_def rbind_eq_Inr reject_eq_Inr hand_record_def Let_def split: if_splits)

lemma empty_contributions_ok:
  "ha_contributions h = replicate 3 empty_contribution \<Longrightarrow> contributions_ok h \<and> hashes_nonzero h \<and>
    commit_count h = 0 \<and> reveal_count h = 0"
  by (simp add: contributions_ok_def contribution_ok_def empty_contribution_def hashes_nonzero_def
      commit_count_def reveal_count_def)

lemma new_hand_ok:
  assumes "new_hand hid rid seats sc key plan bindings = Inr (h, es)"
    and m: "mode = [] \<or> mode = fairness_mode_client_custodied"
  shows "hand_inv (h\<lparr>ha_mode := mode\<rparr>) \<and> early_ok (h\<lparr>ha_mode := mode\<rparr>)"
proof -
  obtain hash bound where g: "h = \<lparr>ha_mode = [], ha_id = hid, ha_room = rid, ha_phase = HandFairnessCommitting,
      ha_seats = seats, ha_server_commitment = sc, ha_reveal_key = key, ha_reveal_hash = hash,
      ha_reveal_bound_at = time_utc bound, ha_plan = plan, ha_beacon = None,
      ha_contributions = replicate 3 empty_contribution, ha_reason = [], ha_version = 1\<rparr>"
    "hash \<noteq> zero32" "\<not> time_is_zero bound" "validate_identifier hid = Inr ()" "validate_identifier rid = Inr ()"
    "\<not> all_zero32 sc" "validate_identifier key = Inr ()" "validate_beacon_plan plan = Inr ()"
    "validate_hand_seats seats = Inr ()"
    using new_hand_Inr [OF assms(1)] by blast
  let ?h = "h\<lparr>ha_mode := mode\<rparr>"
  have "static_ok ?h" using g m by (simp add: static_ok_def time_utc_def time_is_zero_def)
  moreover have c: "contributions_ok ?h \<and> hashes_nonzero ?h \<and> commit_count ?h = 0 \<and> reveal_count ?h = 0"
    by (rule empty_contributions_ok) (simp add: g(1))
  moreover have "beacon_ok ?h" by (simp add: beacon_ok_def g(1))
  moreover have "phase_ok ?h" using c by (simp add: phase_ok_books books_def g(1))
  moreover have "early_ok ?h" using c by (simp add: early_ok_def g(1))
  ultimately show ?thesis by (simp add: hand_inv_def)
qed

lemma new_custodied_Inr:
  assumes "new_client_custodied_hand hid rid seats sc key plan binding = Inr (h, es)"
  shows "\<exists>h0 es0. new_hand hid rid seats sc key plan [binding] = Inr (h0, es0) \<and>
    h = h0\<lparr>ha_mode := fairness_mode_client_custodied\<rparr>"
  using assms by (auto simp: new_client_custodied_hand_def rbind_eq_Inr)

lemma hand_reach_early: "hand_reach h \<Longrightarrow> early_ok h"
proof (induction rule: hand_reach.induct)
  case (hand_reach_new hid rid seats sc key plan bindings h es)
  have "ha_mode h = []" using new_hand_Inr [OF hand_reach_new] by auto
  then have "h\<lparr>ha_mode := []\<rparr> = h" by (cases h) simp
  with new_hand_ok [OF hand_reach_new, of "[]"] show ?case by simp
next
  case (hand_reach_custodied hid rid seats sc key plan binding h es)
  from new_custodied_Inr [OF this] new_hand_ok show ?case by blast
next
  case (hand_reach_step h cmd v h' es)
  have "ha_mode h' = ha_mode h" using same_setup_step [OF hand_reach_step(3)] by (simp add: same_setup_def)
  then show ?case
    using hand_reach_step early_phase_step [OF hand_reach_step(3)] hashes_nonzero_step [OF hand_reach_step(3)]
    by (auto simp: early_ok_def)
qed

text \<open>In the custodied mode a step back only removes reveals.\<close>

lemma hashes_nonzero_before:
  assumes s: "hand_apply h v cmd = Inr (h', es)" and e: "early_ok h" and hz: "hashes_nonzero h'"
  shows "hashes_nonzero h"
proof (cases "ha_mode h = fairness_mode_client_custodied")
  case False with e show ?thesis by (simp add: early_ok_def)
next
  case True
  consider "ha_contributions h' = ha_contributions h"
    | k c where "ha_contributions h' = (ha_contributions h)[k := c]" "\<not> ct_revealed (ha_contributions h ! k)"
    using contributions_step [OF s] True by metis
  then show ?thesis
  proof cases
    case 1 with hz show ?thesis by (simp add: hashes_nonzero_def)
  next
    case (2 k c)
    show ?thesis
      unfolding hashes_nonzero_def
    proof (intro ballI impI)
      fix d assume "d \<in> set (ha_contributions h)" and r: "ct_revealed d"
      then obtain i where i: "i < length (ha_contributions h)" "d = ha_contributions h ! i" by (metis in_set_conv_nth)
      with 2(2) r have "i \<noteq> k" by auto
      with i 2(1) have "d \<in> set (ha_contributions h')" by (metis length_list_update nth_list_update_neq nth_mem)
      with hz r show "ct_commitment d \<noteq> zero32" by (simp add: hashes_nonzero_def)
    qed
  qed
qed

lemma hand_reach_inv: "hand_reach h \<Longrightarrow> hashes_nonzero h \<Longrightarrow> hand_inv h"
proof (induction rule: hand_reach.induct)
  case (hand_reach_new hid rid seats sc key plan bindings h es)
  have "ha_mode h = []" using new_hand_Inr [OF hand_reach_new(1)] by auto
  then have "h\<lparr>ha_mode := []\<rparr> = h" by (cases h) simp
  with new_hand_ok [OF hand_reach_new(1), of "[]"] show ?case by simp
next
  case (hand_reach_custodied hid rid seats sc key plan binding h es)
  from new_custodied_Inr [OF this(1)] new_hand_ok show ?case by blast
next
  case (hand_reach_step h cmd v h' es)
  have "hashes_nonzero h"
    by (rule hashes_nonzero_before [OF hand_reach_step(3) hand_reach_early [OF hand_reach_step(1)] hand_reach_step(5)])
  with hand_reach_step show ?case by (blast intro: hand_apply_inv)
qed

section \<open>Storage round trip\<close>

lemma restore_contribution_ok:
  assumes "contribution_ok hid k c" and "ct_revealed c \<longrightarrow> ct_commitment c \<noteq> zero32"
  shows "restore_contribution s \<lparr>cs_seat = s, cs_committed = (ct_commitment c \<noteq> zero32),
          cs_commitment = ct_commitment c, cs_revealed = ct_revealed c, cs_digest = ct_digest c,
          cs_record_ref = ct_record_ref c\<rparr> = Inr c"
  using assms by (cases c) (auto simp: restore_contribution_def contribution_ok_def Let_def)

lemma restore_contributions_ok:
  assumes "contributions_ok h" and "hashes_nonzero h"
  shows "restore_contributions fixed_seats (hn_contributions (hand_snapshot_of h)) = Inr (ha_contributions h)"
proof -
  obtain a b c where s: "ha_contributions h = [a, b, c]"
    using assms(1) length3_exhaust [of "ha_contributions h"] by (auto simp: contributions_ok_def)
  have "contribution_ok (ha_id h) 0 a" "contribution_ok (ha_id h) 1 b" "contribution_ok (ha_id h) 2 c"
    using assms(1) unfolding contributions_ok_def s
    by (metis nth_Cons_0 zero_less_numeral, metis One_nat_def nth_Cons_0 nth_Cons_Suc numeral_3_eq_3 lessI less_SucI,
        metis One_nat_def nth_Cons_0 nth_Cons_Suc numeral_3_eq_3 numeral_2_eq_2 lessI)
  then show ?thesis
    using assms(2) restore_contribution_ok
    by (simp add: hand_snapshot_of_def s fixed_seats_def hashes_nonzero_def)
qed

lemma restore_hand_snapshot:
  assumes "hand_inv h" and "hashes_nonzero h" and "ha_version h \<noteq> 0"
  shows "restore_hand (hand_snapshot_of h) = Inr h"
proof -
  have cs: "restore_contributions fixed_seats (hn_contributions (hand_snapshot_of h)) = Inr (ha_contributions h)"
    using assms by (intro restore_contributions_ok) (simp_all add: hand_inv_def)
  have b: "check_beacon_snapshot (hand_snapshot_of h) = Inr ()"
    using assms(1)
    by (auto simp: hand_inv_def beacon_ok_def check_beacon_snapshot_def hand_snapshot_of_def split: option.splits)
  have st: "static_ok h" "valid_hand_phase (ha_phase h)" "validate_hand_state h = Inr ()"
    using assms(1) by (simp_all add: hand_inv_def phase_ok_def)
  have f: "hn_mode (hand_snapshot_of h) = ha_mode h" "hn_id (hand_snapshot_of h) = ha_id h"
    "hn_room (hand_snapshot_of h) = ha_room h" "hn_phase (hand_snapshot_of h) = ha_phase h"
    "hn_seats (hand_snapshot_of h) = ha_seats h" "hn_server_commitment (hand_snapshot_of h) = ha_server_commitment h"
    "hn_reveal_key (hand_snapshot_of h) = ha_reveal_key h" "hn_reveal_hash (hand_snapshot_of h) = ha_reveal_hash h"
    "hn_reveal_bound_at (hand_snapshot_of h) = ha_reveal_bound_at h" "hn_plan (hand_snapshot_of h) = ha_plan h"
    "hn_beacon (hand_snapshot_of h) = ha_beacon h" "hn_reason (hand_snapshot_of h) = ha_reason h"
    "hn_version (hand_snapshot_of h) = ha_version h"
    by (simp_all add: hand_snapshot_of_def)
  have m: "reject (ha_mode h \<noteq> [] \<and> ha_mode h \<noteq> fairness_mode_client_custodied) e = Inr ()" for e :: go_error
    using st(1) by (auto simp: static_ok_def)
  have g: "validate_identifier (ha_id h) = Inr ()"
    "validate_identifier (ha_room h) = Inr ()" "validate_hand_seats (ha_seats h) = Inr ()"
    "\<not> all_zero32 (ha_server_commitment h)" "validate_identifier (ha_reveal_key h) = Inr ()"
    "\<not> (ha_reveal_hash h = zero32 \<or> time_is_zero (ha_reveal_bound_at h))"
    "time_utc (ha_reveal_bound_at h) = ha_reveal_bound_at h" "validate_beacon_plan (ha_plan h) = Inr ()"
    using st(1) by (simp_all add: static_ok_def)
  have "restore_hand (hand_snapshot_of h) = rbind (validate_hand_state h) (\<lambda>_. Inr h)"
    unfolding restore_hand_def Let_def f cs b m g rbind_Inr
    using g assms(3) st(2) by (cases h) simp
  with st(3) show ?thesis by simp
qed

section \<open>Runs\<close>

inductive hand_run :: "hand \<Rightarrow> hand \<Rightarrow> bool" where
  hand_run_refl: "hand_run h h"
| hand_run_step: "hand_run h h1 \<Longrightarrow> typed_command cmd \<Longrightarrow> hand_apply h1 v cmd = Inr (h2, es) \<Longrightarrow> hand_run h h2"

lemma hand_run_reach: "hand_run h h' \<Longrightarrow> hand_reach h \<Longrightarrow> hand_reach h'"
  by (induction rule: hand_run.induct) (auto intro: hand_reach_step)

text \<open>What no later command changes.\<close>

definition frozen :: "hand \<Rightarrow> hand \<Rightarrow> bool" where
  "frozen h h' \<longleftrightarrow> same_setup h h' \<and> (ha_beacon h \<noteq> None \<longrightarrow> ha_beacon h' = ha_beacon h) \<and>
     length (ha_contributions h') = length (ha_contributions h) \<and>
     (\<forall>k < length (ha_contributions h).
        (ct_commitment (ha_contributions h ! k) \<noteq> zero32 \<longrightarrow>
           ct_commitment (ha_contributions h' ! k) = ct_commitment (ha_contributions h ! k)) \<and>
        (ct_revealed (ha_contributions h ! k) \<longrightarrow> ha_contributions h' ! k = ha_contributions h ! k))"

lemma frozen_trans: "frozen a b \<Longrightarrow> frozen b c \<Longrightarrow> frozen a c"
  unfolding frozen_def same_setup_def by (intro conjI allI impI) auto

lemma frozen_step:
  assumes s: "hand_apply h v cmd = Inr (h', es)" and e: "early_ok h"
  shows "frozen h h'"
proof -
  have fixed: "same_setup h h'" and b: "ha_beacon h \<noteq> None \<longrightarrow> ha_beacon h' = ha_beacon h"
    using same_setup_step [OF s] e by (auto simp: early_ok_def early_phase_def)
  consider "ha_contributions h' = ha_contributions h"
    | k c where "ha_contributions h' = (ha_contributions h)[k := c]" "k < length (ha_contributions h)"
      "ct_commitment (ha_contributions h ! k) \<noteq> zero32 \<Longrightarrow> ct_commitment c = ct_commitment (ha_contributions h ! k)"
      "ct_revealed (ha_contributions h ! k) \<Longrightarrow> ct_revealed c \<and> ct_digest c = ct_digest (ha_contributions h ! k) \<and>
          ct_record_ref c = ct_record_ref (ha_contributions h ! k)"
      "ha_mode h = fairness_mode_client_custodied \<Longrightarrow> \<not> ct_revealed (ha_contributions h ! k)"
    using contributions_step [OF s] by (metis list_update_beyond not_le)
  then show ?thesis
  proof cases
    case 1 with fixed b show ?thesis by (simp add: frozen_def)
  next
    case (2 k c)
    have "ct_revealed (ha_contributions h ! k) \<Longrightarrow> ct_commitment (ha_contributions h ! k) \<noteq> zero32"
      using 2(2,5) e by (auto simp: early_ok_def hashes_nonzero_def)
    then have "ct_revealed (ha_contributions h ! k) \<Longrightarrow> c = ha_contributions h ! k"
      using 2(3,4) by (intro contribution.equality) auto
    with 2(1-3) fixed b show ?thesis by (auto simp: frozen_def nth_list_update)
  qed
qed

lemma frozen_refl: "frozen h h"
  by (simp add: frozen_def same_setup_def)

lemma hand_run_frozen: "hand_run h h' \<Longrightarrow> hand_reach h \<Longrightarrow> frozen h h'"
proof (induction rule: hand_run.induct)
  case (hand_run_step h h1 cmd v h2 es)
  have "frozen h1 h2"
    by (rule frozen_step [OF hand_run_step(3) hand_reach_early [OF hand_run_reach [OF hand_run_step(1) hand_run_step(5)]]])
  with hand_run_step show ?case by (blast intro: frozen_trans)
qed (rule frozen_refl)

section \<open>Phases\<close>

fun phase_index :: "hand_phase \<Rightarrow> nat" where
  "phase_index HandFairnessCommitting = 0"
| "phase_index HandFairnessRevealing = 1"
| "phase_index HandWaitingPublicBeacon = 2"
| "phase_index HandDealing = 3"
| "phase_index HandBidding = 4"
| "phase_index HandPlaying = 5"
| "phase_index HandSettling = 6"
| "phase_index _ = 7"

lemma terminal_index: "phase_terminal p \<Longrightarrow> phase_index p = 7"
  by (cases p) simp_all

lemma phase_step:
  assumes "hand_apply h v cmd = Inr (h', es)"
  shows "\<not> phase_terminal (ha_phase h) \<and> v = ha_version h \<and> phase_index (ha_phase h) \<le> phase_index (ha_phase h') \<and>
    (ha_phase h' = HandCancelled \<longrightarrow> ha_phase h \<notin> {HandDealing, HandBidding, HandPlaying, HandSettling}) \<and>
    (phase_index (ha_phase h') \<le> phase_index (ha_phase h) + 1 \<or> phase_terminal (ha_phase h') \<or>
       (ha_mode h = fairness_mode_client_custodied \<and> ha_phase h = HandFairnessCommitting \<and> ha_phase h' = HandWaitingPublicBeacon))"
  using assms
proof (cases rule: commands_split)
  case (commit actor c)
  with submit_commit_Inr [OF commit(2)] show ?thesis
    by (auto simp: submit_commit_def prepare_mutation_Inr rbind_eq_Inr split: if_splits)
next
  case (reveal actor d r)
  with submit_reveal_Inr [OF reveal(2)] show ?thesis
    by (auto simp: submit_reveal_def prepare_mutation_Inr rbind_eq_Inr split: if_splits)
next
  case (custodied actor d r)
  with submit_custodied_Inr [OF custodied(2)] show ?thesis
    by (auto simp: submit_custodied_def prepare_mutation_Inr rbind_eq_Inr split: if_splits)
next
  case (beacon b)
  with lock_public_beacon_Inr [OF beacon(2)] show ?thesis
    by (auto simp: lock_public_beacon_def prepare_mutation_Inr rbind_eq_Inr)
next
  case (transition p q)
  with transition_Inr [OF transition(1)] show ?thesis
    by (auto simp: transition_def prepare_mutation_Inr rbind_eq_Inr early_phase_def)
next
  case (terminate q r)
  have "v = ha_version h" using terminate(1) by (auto simp: terminate_def rbind_eq_Inr check_expected_version_Inr)
  with terminate_Inr [OF terminate(1)] terminate(2,3) show ?thesis
    by (cases "ha_phase h") (auto simp: early_phase_def split: if_splits)
qed

lemma hand_run_phase:
  "hand_run h h' \<Longrightarrow> (phase_terminal (ha_phase h) \<longrightarrow> h' = h) \<and> phase_index (ha_phase h) \<le> phase_index (ha_phase h')"
proof (induction rule: hand_run.induct)
  case (hand_run_step h h1 cmd v h2 es)
  with phase_step [OF hand_run_step(3)] show ?case by (metis order.trans)
qed simp

section \<open>Versions and events\<close>

text \<open>\<open>recorded h es h'\<close>: the events \<open>es\<close> were recorded one after the other on the way from \<open>h\<close> to \<open>h'\<close>.\<close>

definition recorded :: "hand \<Rightarrow> hand_payload event list \<Rightarrow> hand \<Rightarrow> bool" where
  "recorded h es h' \<longleftrightarrow> es \<noteq> [] \<and> ha_id h' = ha_id h \<and>
     map ev_version es = map (\<lambda>i. ha_version h + word_of_nat (Suc i)) [0..<length es] \<and>
     ha_version h' = ha_version h + word_of_nat (length es) \<and>
     (\<forall>e \<in> set es. ev_type e = AggregateHand \<and> ev_id e = ha_id h)"

lemmas recorded_simps = recorded_def result_simps hand_record_simps set_contribution_def

lemma recorded_step:
  assumes "hand_apply h v cmd = Inr (h', es)"
  shows "recorded h es h'"
  using assms
proof (cases rule: commands_split)
  case (commit actor c) then show ?thesis
    by (auto simp: recorded_simps submit_commit_def split: if_splits)
next
  case (reveal actor d r) then show ?thesis
    by (auto simp: recorded_simps submit_reveal_def split: if_splits)
next
  case (custodied actor d r) then show ?thesis
    by (auto simp: recorded_simps submit_custodied_def split: if_splits)
next
  case (beacon b) then show ?thesis
    by (auto simp: recorded_simps lock_public_beacon_def split: if_splits)
next
  case (transition p q) then show ?thesis
    by (auto simp: recorded_simps transition_def)
next
  case (terminate q r) then show ?thesis
    by (auto simp: recorded_simps terminate_def split: if_splits)
qed

section \<open>Fairness without the hash hypothesis\<close>

definition late_phase :: "hand_phase \<Rightarrow> bool" where
  "late_phase p \<longleftrightarrow> p \<in> {HandDealing, HandBidding, HandPlaying, HandSettling, HandCompleted}"

definition fair_ok :: "hand \<Rightarrow> bool" where
  "fair_ok h \<longleftrightarrow> static_ok h \<and> contributions_ok h \<and> beacon_ok h \<and>
     (ha_phase h = HandWaitingPublicBeacon \<longrightarrow> reveal_count h = 3) \<and>
     (late_phase (ha_phase h) \<longrightarrow> reveal_count h = 3 \<and> ha_beacon h \<noteq> None)"

lemma fair_put:
  assumes "fair_ok h" and "ha_phase h \<noteq> HandWaitingPublicBeacon" and "\<not> late_phase (ha_phase h)"
    and "k < 3" and "contribution_ok (ha_id h) k c"
    and "h' = (if count_of = 3 then (put h k c)\<lparr>ha_phase := q, ha_version := v\<rparr> else (put h k c)\<lparr>ha_version := w\<rparr>)"
    and "q = HandFairnessRevealing \<or> q = HandWaitingPublicBeacon \<and> count_of = reveal_count (put h k c)"
  shows "fair_ok h'"
proof -
  have "contributions_ok (put h k c)" "static_ok (put h k c)" "beacon_ok (put h k c)"
    using assms by (auto simp: fair_ok_def intro: put_ok)
  then show ?thesis using assms(2,3,6,7) by (auto simp: fair_ok_def late_phase_def)
qed

lemma fair_step:
  assumes f: "fair_ok h" and e: "early_ok h" and t: "typed_command cmd" and s: "hand_apply h v cmd = Inr (h', es)"
  shows "fair_ok h'"
  using s
proof (cases rule: commands_split)
  case (commit actor c)
  obtain seat k where g: "ha_mode h \<noteq> fairness_mode_client_custodied" "ha_phase h = HandFairnessCommitting"
      "find_hand_seat (ha_seats h) actor = Some seat" "k = unat (seat - 1)" "ct_commitment (ha_contributions h ! k) = zero32"
      "h' = (if commit_count (put h k ((ha_contributions h ! k)\<lparr>ct_commitment := c\<rparr>)) = 3
          then (put h k ((ha_contributions h ! k)\<lparr>ct_commitment := c\<rparr>))\<lparr>ha_phase := HandFairnessRevealing, ha_version := ha_version h + 2\<rparr>
          else (put h k ((ha_contributions h ! k)\<lparr>ct_commitment := c\<rparr>))\<lparr>ha_version := ha_version h + 1\<rparr>)"
    using submit_commit_Inr [OF commit(2)] by blast
  have k: "k < 3" using f seat_index [OF _ g(3)] g(4) by (simp add: fair_ok_def)
  have c: "contribution_ok (ha_id h) k (ha_contributions h ! k)" "length (ha_contributions h) = 3"
    using f k by (simp_all add: fair_ok_def contributions_ok_def)
  have "\<not> ct_revealed (ha_contributions h ! k)"
    using e g(1,5) k c(2) by (auto simp: early_ok_def hashes_nonzero_def)
  then show ?thesis using c t commit(1) g(2)
    by (intro fair_put [OF f _ _ k _ g(6)]) (auto simp: contribution_ok_def late_phase_def)
next
  case (reveal actor d r)
  obtain seat k where g: "ha_phase h = HandFairnessRevealing"
      "find_hand_seat (ha_seats h) actor = Some seat" "k = unat (seat - 1)" "\<not> all_zero32 d"
      "trim_space r \<noteq> []" "length (trim_space r) \<le> 256"
      "hand_client_commitment (ha_id h) seat d = ct_commitment (ha_contributions h ! k)"
      "h' = (if reveal_count (put h k ((ha_contributions h ! k)\<lparr>ct_revealed := True, ct_digest := d, ct_record_ref := trim_space r\<rparr>)) = 3
          then (put h k ((ha_contributions h ! k)\<lparr>ct_revealed := True, ct_digest := d, ct_record_ref := trim_space r\<rparr>))\<lparr>ha_phase := HandWaitingPublicBeacon, ha_version := ha_version h + 2\<rparr>
          else (put h k ((ha_contributions h ! k)\<lparr>ct_revealed := True, ct_digest := d, ct_record_ref := trim_space r\<rparr>))\<lparr>ha_version := ha_version h + 1\<rparr>)"
    using submit_reveal_Inr [OF reveal(2)] by blast
  have k: "k < 3" "word_of_nat (Suc k) = seat" using f seat_index [OF _ g(2)] g(3) by (simp_all add: fair_ok_def)
  have c: "contribution_ok (ha_id h) k (ha_contributions h ! k)"
    using f k by (simp add: fair_ok_def contributions_ok_def)
  show ?thesis using c t reveal(1) g(1,4-7) k(2)
    by (intro fair_put [OF f _ _ k(1) _ g(8)]) (auto simp: contribution_ok_def late_phase_def trim_space_ref)
next
  case (custodied actor d r)
  obtain seat k where g: "ha_phase h = HandFairnessCommitting"
      "find_hand_seat (ha_seats h) actor = Some seat" "k = unat (seat - 1)" "\<not> all_zero32 d"
      "trim_space r \<noteq> []" "length (trim_space r) \<le> 256"
      "h' = (if reveal_count (put h k ((ha_contributions h ! k)\<lparr>ct_commitment := hand_client_commitment (ha_id h) seat d,
           ct_revealed := True, ct_digest := d, ct_record_ref := trim_space r\<rparr>)) = 3
          then (put h k ((ha_contributions h ! k)\<lparr>ct_commitment := hand_client_commitment (ha_id h) seat d,
           ct_revealed := True, ct_digest := d, ct_record_ref := trim_space r\<rparr>))\<lparr>ha_phase := HandWaitingPublicBeacon, ha_version := ha_version h + 3\<rparr>
          else (put h k ((ha_contributions h ! k)\<lparr>ct_commitment := hand_client_commitment (ha_id h) seat d,
           ct_revealed := True, ct_digest := d, ct_record_ref := trim_space r\<rparr>))\<lparr>ha_version := ha_version h + 2\<rparr>)"
    using submit_custodied_Inr [OF custodied(2)] by blast
  have k: "k < 3" "word_of_nat (Suc k) = seat" using f seat_index [OF _ g(2)] g(3) by (simp_all add: fair_ok_def)
  show ?thesis using t custodied(1) g(1,4-6) k(2)
    by (intro fair_put [OF f _ _ k(1) _ g(7)])
      (auto simp: contribution_ok_def late_phase_def trim_space_ref hand_client_commitment_def)
next
  case (beacon b)
  with lock_public_beacon_Inr [OF beacon(2)] f show ?thesis
    by (auto simp: fair_ok_def beacon_ok_def late_phase_def trim_space_ref)
next
  case (transition p q)
  with transition_Inr [OF transition(1)] f show ?thesis by (auto simp: fair_ok_def late_phase_def)
next
  case (terminate q r)
  with terminate_Inr [OF terminate(1)] f show ?thesis by (auto simp: fair_ok_def late_phase_def)
qed

lemma hand_reach_fair: "hand_reach h \<Longrightarrow> fair_ok h"
proof (induction rule: hand_reach.induct)
  case (hand_reach_new hid rid seats sc key plan bindings h es)
  have "ha_mode h = []" "ha_phase h = HandFairnessCommitting" using new_hand_Inr [OF hand_reach_new] by auto
  moreover from this have "h\<lparr>ha_mode := []\<rparr> = h" by (cases h) simp
  then have "hand_inv h" using new_hand_ok [OF hand_reach_new, of "[]"] by simp
  ultimately show ?case by (simp add: hand_inv_def fair_ok_def late_phase_def)
next
  case (hand_reach_custodied hid rid seats sc key plan binding h es)
  obtain h0 es0 where h: "new_hand hid rid seats sc key plan [binding] = Inr (h0, es0)"
    "h = h0\<lparr>ha_mode := fairness_mode_client_custodied\<rparr>" using new_custodied_Inr [OF hand_reach_custodied] by blast
  have "ha_phase h = HandFairnessCommitting" using new_hand_Inr [OF h(1)] h(2) by auto
  with new_hand_ok [OF h(1), of fairness_mode_client_custodied] h(2) show ?case
    by (simp add: hand_inv_def fair_ok_def late_phase_def)
next
  case (hand_reach_step h cmd v h' es)
  then show ?case by (blast intro: fair_step hand_reach_early)
qed

section \<open>Properties\<close>

text \<open>C33: a hand survives storage. Every hand that the constructors and commands can produce keeps the hand
  invariant (seats and setup valid, every revealed contribution opens its commitment, the beacon
  matches its plan, the books of commitments and reveals balance in every phase), and restoring its
  snapshot gives back exactly that hand. The hash hypothesis excludes a contribution whose SHA-256
  commitment is the zero digest, which the code uses for \<open>not committed\<close>.\<close>

theorem hand_snapshot_roundtrip:
  assumes "hand_reach h" and "hashes_nonzero h" and "ha_version h \<noteq> 0"
  shows "hand_inv h \<and> restore_hand (hand_snapshot_of h) = Inr h"
  using hand_reach_inv [OF assms(1,2)] restore_hand_snapshot [OF hand_reach_inv [OF assms(1,2)] assms(2,3)] by blast

text \<open>C19: no cards before fairness. A hand that was dealt or went on to bidding, playing, settling or
  completion holds a public beacon of the planned provider and round with a non-zero digest, and all
  three contributions are revealed and open the commitments made before.\<close>

theorem hand_fair_before_deal:
  assumes "hand_reach h"
    and "ha_phase h \<in> {HandDealing, HandBidding, HandPlaying, HandSettling, HandCompleted}"
  shows "(\<exists>b. ha_beacon h = Some b \<and> bv_provider b = bp_provider (ha_plan h) \<and>
      bv_round b = bp_round (ha_plan h) \<and> \<not> all_zero32 (bv_digest b)) \<and>
    (\<forall>k<3. let c = ha_contributions h ! k in ct_revealed c \<and> \<not> all_zero32 (ct_digest c) \<and>
      ct_commitment c = hand_client_commitment (ha_id h) (word_of_nat (Suc k)) (ct_digest c))"
proof -
  have inv: "contributions_ok h" "beacon_ok h" "ha_beacon h \<noteq> None" "reveal_count h = 3"
    using hand_reach_fair [OF assms(1)] assms(2) by (auto simp: fair_ok_def late_phase_def)
  have "length (ha_contributions h) = 3" using inv(1) by (simp add: contributions_ok_def)
  then have "\<forall>k<3. ct_revealed (ha_contributions h ! k)"
    using inv(4) length_filter_all [of ct_revealed "ha_contributions h"] by (simp add: reveal_count_def)
  with inv show ?thesis by (auto simp: contributions_ok_def contribution_ok_def beacon_ok_def Let_def)
qed

text \<open>C25: nothing is changed afterwards. From a reachable hand, no sequence of commands changes the setup
  (seats, server commitment, key binding, beacon plan), a commitment once made, a contribution once
  revealed or a beacon once locked; phases only move forward and a terminal hand accepts nothing.\<close>

theorem hand_frozen:
  assumes "hand_reach h" and "hand_run h h'"
  shows "frozen h h' \<and> phase_index (ha_phase h) \<le> phase_index (ha_phase h') \<and>
    (phase_terminal (ha_phase h) \<longrightarrow> h' = h)"
  using hand_run_frozen [OF assms(2,1)] hand_run_phase [OF assms(2)] by blast

text \<open>Optimistic concurrency. An accepted command names the current version; its events are at least
  one, carry the next versions without a gap, and the hand ends at the version of the last of them.\<close>

theorem hand_event_versions:
  assumes "hand_apply h v cmd = Inr (h', es)"
  shows "v = ha_version h \<and> recorded h es h'"
  using phase_step [OF assms] recorded_step [OF assms] by blast

text \<open>C36: the two packages agree. On every hand id, seat and contribution that the card deck package
  accepts, its commitment is the one the hand aggregate checks reveals against, so transcripts and
  hands speak of the same commitments.\<close>

theorem commitments_agree:
  "compute_client_commitment hid seat digest =
    (if validate_text hid False = Inr () \<and> seat_valid seat \<and> \<not> all_zero32 digest
     then Inr (hand_client_commitment hid seat digest) else Inl (Carddeck InvalidArgument))"
proof (cases "validate_text hid False")
  case (Inl e)
  then have "e = Carddeck InvalidArgument" by (auto simp: validate_text_def split: if_splits)
  with Inl show ?thesis by (simp add: compute_client_commitment_def)
next
  case (Inr u)
  have "all_zero digest = all_zero32 digest" by (simp add: all_zero_def all_zero32_def)
  with Inr show ?thesis
    by (auto simp: compute_client_commitment_def hand_client_commitment_def client_commit_message_def
        write_domain_def write_string_def write_bytes_def write_length_prefixed_def client_commit_domain_def
        hand_client_commit_domain_def seat_valid_def not_le)
qed

text \<open>The hashed message is injective. Two commitments hash the same bytes only when they are for the same
  hand, seat and contribution: a commitment cannot be carried over to another hand or seat.\<close>

theorem commit_message_injective:
  assumes "length hid < 2 ^ 32" and "length hid' < 2 ^ 32"
    and "client_commit_message hid seat digest = client_commit_message hid' seat' digest'"
  shows "hid = hid' \<and> seat = seat' \<and> digest = digest'"
proof -
  have "write_bytes (str_bytes hid) @ (seat # digest) = write_bytes (str_bytes hid') @ (seat' # digest')"
    using assms(3) by (simp add: client_commit_message_def write_length_prefixed_def write_bytes_def)
  from write_bytes_prefix [OF _ _ this] assms(1,2) show ?thesis by simp
qed

section \<open>Witnesses\<close>

definition sample_seats :: "hand_seat list" where
  "sample_seats = [\<lparr>hs_seat = 1, hs_account = ''A''\<rparr>, \<lparr>hs_seat = 2, hs_account = ''B''\<rparr>, \<lparr>hs_seat = 3, hs_account = ''C''\<rparr>]"

definition sample_binding :: reveal_key_binding where
  "sample_binding = \<lparr>rk_hash = replicate 32 7, rk_bound_at = \<lparr>tm_nanos = 9, tm_location = ''UTC''\<rparr>\<rparr>"

definition sample_plan :: beacon_plan where
  "sample_plan = \<lparr>bp_provider = ''P'', bp_round = ''1''\<rparr>"

definition sample_hand :: hand where
  "sample_hand = \<lparr>ha_mode = [], ha_id = ''H'', ha_room = ''R'', ha_phase = HandFairnessCommitting,
     ha_seats = sample_seats, ha_server_commitment = replicate 32 5, ha_reveal_key = ''K'',
     ha_reveal_hash = replicate 32 7, ha_reveal_bound_at = \<lparr>tm_nanos = 9, tm_location = ''UTC''\<rparr>,
     ha_plan = sample_plan, ha_beacon = None, ha_contributions = replicate 3 empty_contribution,
     ha_reason = [], ha_version = 1\<rparr>"

lemma sample_hand_new:
  "\<exists>es. new_hand ''H'' ''R'' sample_seats (replicate 32 5) ''K'' sample_plan [sample_binding] = Inr (sample_hand, es)"
  by (rule exI, rule trans [OF _ refl], code_simp)

lemma sample_hand_reach: "hand_reach sample_hand"
  using sample_hand_new hand_reach_new by blast

definition sample_committed :: hand where
  "sample_committed = sample_hand\<lparr>ha_contributions := [empty_contribution\<lparr>ct_commitment := replicate 32 1\<rparr>,
     empty_contribution, empty_contribution], ha_version := 2\<rparr>"

lemma sample_commit: "\<exists>es. hand_apply sample_hand 1 (HCommit ''A'' (replicate 32 1)) = Inr (sample_committed, es)"
  by (rule exI, rule trans [OF _ refl], code_simp)

lemma sample_committed_reach: "hand_reach sample_committed"
  using sample_commit by (auto intro: hand_reach_step [OF sample_hand_reach, of "HCommit ''A'' (replicate 32 1)"])

theorem hand_snapshot_roundtrip_witness: "restore_hand (hand_snapshot_of sample_committed) = Inr sample_committed"
proof -
  have "hashes_nonzero sample_committed" "ha_version sample_committed \<noteq> 0"
    by (simp_all add: sample_committed_def hashes_nonzero_def empty_contribution_def)
  from hand_snapshot_roundtrip [OF sample_committed_reach this] show ?thesis by blast
qed

theorem hand_event_versions_witness:
  "\<exists>es. hand_apply sample_hand 1 (HCommit ''A'' (replicate 32 1)) = Inr (sample_committed, es) \<and>
    recorded sample_hand es sample_committed"
  using sample_commit hand_event_versions by blast

theorem hand_frozen_witness: "frozen sample_hand sample_committed"
proof -
  have "hand_run sample_hand sample_committed"
    using sample_commit by (auto intro: hand_run_step [OF hand_run_refl, of "HCommit ''A'' (replicate 32 1)"])
  from hand_frozen [OF sample_hand_reach this] show ?thesis by blast
qed

theorem commit_message_injective_witness:
  "client_commit_message ''H'' 1 (replicate 32 1) \<noteq> client_commit_message ''H'' 2 (replicate 32 1)"
  using commit_message_injective [of "''H''" "''H''" 1 "replicate 32 1" 2 "replicate 32 1"] by fastforce

text \<open>A custodied hand in which all three seats contribute and the beacon is locked.\<close>

definition opened :: "seat \<Rightarrow> contribution" where
  "opened s = \<lparr>ct_commitment = hand_client_commitment ''H'' s (replicate 32 9), ct_revealed = True,
     ct_digest = replicate 32 9, ct_record_ref = ''r''\<rparr>"

definition custodied_at :: "hand_phase \<Rightarrow> contribution list \<Rightarrow> u64 \<Rightarrow> hand" where
  "custodied_at p cs v = sample_hand\<lparr>ha_mode := fairness_mode_client_custodied, ha_phase := p,
     ha_contributions := cs, ha_version := v\<rparr>"

definition sample_beacon :: beacon_value where
  "sample_beacon = \<lparr>bv_provider = ''P'', bv_round = ''1'', bv_digest = replicate 32 3, bv_proof_ref = ''q''\<rparr>"

lemma custodied_new:
  "\<exists>es. new_client_custodied_hand ''H'' ''R'' sample_seats (replicate 32 5) ''K'' sample_plan sample_binding =
     Inr (custodied_at HandFairnessCommitting (replicate 3 empty_contribution) 1, es)"
  by (rule exI, rule trans [OF _ refl], code_simp)

lemma sample_texts: "trim_space ''r'' = ''r''" "trim_space ''q'' = ''q''"
  "validate_identifier ''A'' = Inr ()" "validate_identifier ''B'' = Inr ()" "validate_identifier ''C'' = Inr ()"
  by code_simp+

lemma custodied_seat:
  assumes "i < 3" and "length cs = 3" and "cs ! i = empty_contribution"
    and "a = [''A'', ''B'', ''C''] ! i"
  shows "\<exists>es. hand_apply (custodied_at HandFairnessCommitting cs v) v (HCustodied a (replicate 32 9) ''r'') =
     Inr (let cs' = cs[i := opened (word_of_nat (Suc i))] in
          if length (filter ct_revealed cs') = 3 then custodied_at HandWaitingPublicBeacon cs' (v + 3)
          else custodied_at HandFairnessCommitting cs' (v + 2), es)"
proof -
  have i: "i = 0 \<or> i = 1 \<or> i = 2" using assms(1) by linarith
  have z: "\<not> all_zero32 (replicate 32 9)" by code_simp
  show ?thesis
    using i assms(2-4)
    by (elim disjE)
      (simp_all add: submit_custodied_def custodied_at_def sample_hand_def sample_seats_def prepare_mutation_def
        check_expected_version_def resolve_seat_def sample_texts z empty_contribution_def set_contribution_def
        hand_record_simps opened_def reveal_count_def)
qed

definition dealt_hand :: hand where
  "dealt_hand = (custodied_at HandDealing [opened 1, opened 2, opened 3] 10)\<lparr>ha_beacon := Some sample_beacon\<rparr>"

lemma dealt_hand_reach: "hand_reach dealt_hand"
proof -
  let ?e = empty_contribution and ?c = "custodied_at HandFairnessCommitting"
  let ?cmd = "\<lambda>a. HCustodied a (replicate 32 9) ''r''"
  have er: "\<not> ct_revealed ?e" by (simp add: empty_contribution_def)
  have op: "ct_revealed (opened s)" for s by (simp add: opened_def)
  have r0: "hand_reach (?c [?e, ?e, ?e] 1)"
    using custodied_new hand_reach_custodied by (fastforce simp: numeral_3_eq_3)
  have "\<exists>es. hand_apply (?c [?e, ?e, ?e] 1) 1 (?cmd ''A'') = Inr (?c [opened 1, ?e, ?e] 3, es)"
    using custodied_seat [of 0 "[?e, ?e, ?e]" "''A''" 1] er op by simp
  then have r1: "hand_reach (?c [opened 1, ?e, ?e] 3)"
    by (auto intro: hand_reach_step [OF r0, of "?cmd ''A''"])
  have "\<exists>es. hand_apply (?c [opened 1, ?e, ?e] 3) 3 (?cmd ''B'') = Inr (?c [opened 1, opened 2, ?e] 5, es)"
    using custodied_seat [of 1 "[opened 1, ?e, ?e]" "''B''" 3] er op by simp
  then have r2: "hand_reach (?c [opened 1, opened 2, ?e] 5)"
    by (auto intro: hand_reach_step [OF r1, of "?cmd ''B''"])
  have "\<exists>es. hand_apply (?c [opened 1, opened 2, ?e] 5) 5 (?cmd ''C'') =
      Inr (custodied_at HandWaitingPublicBeacon [opened 1, opened 2, opened 3] 8, es)"
    using custodied_seat [of 2 "[opened 1, opened 2, ?e]" "''C''" 5] er op by simp
  then have r3: "hand_reach (custodied_at HandWaitingPublicBeacon [opened 1, opened 2, opened 3] 8)"
    by (auto intro: hand_reach_step [OF r2, of "?cmd ''C''"])
  have z: "\<not> all_zero32 (replicate 32 3)" by code_simp
  have "\<exists>es. hand_apply (custodied_at HandWaitingPublicBeacon [opened 1, opened 2, opened 3] 8) 8 (HBeacon sample_beacon) =
      Inr (dealt_hand, es)"
    by (simp add: lock_public_beacon_def prepare_mutation_def check_expected_version_def custodied_at_def
        dealt_hand_def sample_hand_def sample_plan_def sample_beacon_def sample_texts z hand_record_simps)
  then show ?thesis by (auto intro: hand_reach_step [OF r3, of "HBeacon sample_beacon"])
qed

theorem hand_fair_before_deal_witness:
  "ct_commitment (ha_contributions dealt_hand ! 2) = hand_client_commitment ''H'' 3 (replicate 32 9)"
proof -
  have "ha_phase dealt_hand \<in> {HandDealing, HandBidding, HandPlaying, HandSettling, HandCompleted}"
    by (simp add: dealt_hand_def custodied_at_def)
  from hand_fair_before_deal [OF dealt_hand_reach this]
  have "ct_commitment (ha_contributions dealt_hand ! 2) =
      hand_client_commitment (ha_id dealt_hand) 3 (ct_digest (ha_contributions dealt_hand ! 2))"
    by (auto simp: Let_def dest: spec [of _ 2])
  then show ?thesis by (simp add: dealt_hand_def custodied_at_def opened_def sample_hand_def)
qed

end
