(* ===== verification/Json_Text.thy ===== *)
theory Json_Text
  imports Gamecore_Identity
begin

text \<open>
  The text level of Go's \<open>encoding/json\<close>, as far as the sources use it: one code point of a UTF-8
  string, the string escapes that \<open>Marshal\<close> writes (with HTML escaping) and \<open>Unmarshal\<close> reads, and
  the syntax of numbers. Reading what was written gives the string back when it is valid UTF-8.
\<close>

section \<open>One code point\<close>

text \<open>The ranges of the second byte (which depends on the first), and of the following ones.\<close>

definition ascii :: "u8 \<Rightarrow> bool" where "ascii a \<longleftrightarrow> a < 0x80"
definition lead2 :: "u8 \<Rightarrow> bool" where "lead2 a \<longleftrightarrow> utf8_cont 0xC2 0xDF a"
definition lead3 :: "u8 \<Rightarrow> bool" where "lead3 a \<longleftrightarrow> utf8_cont 0xE0 0xEF a"
definition lead4 :: "u8 \<Rightarrow> bool" where "lead4 a \<longleftrightarrow> utf8_cont 0xF0 0xF4 a"
definition tail :: "u8 \<Rightarrow> bool" where "tail b \<longleftrightarrow> utf8_cont 0x80 0xBF b"

definition tail_of :: "u8 \<Rightarrow> u8 \<Rightarrow> bool" where
  "tail_of a b \<longleftrightarrow>
     utf8_cont (if a = 0xE0 then 0xA0 else if a = 0xF0 then 0x90 else 0x80)
       (if a = 0xED then 0x9F else if a = 0xF4 then 0x8F else 0xBF) b"

text \<open>The first code point of a string and the rest; \<open>None\<close> when its first byte starts no well-formed sequence.\<close>

fun utf8_step :: "bytes \<Rightarrow> (bytes \<times> bytes) option" where
  "utf8_step [] = None"
| "utf8_step (a # r) =
     (if ascii a then Some ([a], r)
      else if lead2 a then
        (case r of b # s \<Rightarrow> if tail b then Some ([a, b], s) else None | _ \<Rightarrow> None)
      else if lead3 a then
        (case r of b # c # s \<Rightarrow> if tail_of a b \<and> tail c then Some ([a, b, c], s) else None | _ \<Rightarrow> None)
      else if lead4 a then
        (case r of b # c # d # s \<Rightarrow>
           if tail_of a b \<and> tail c \<and> tail d then Some ([a, b, c, d], s) else None | _ \<Rightarrow> None)
      else None)"

lemma utf8_step_forms:
  "utf8_step bs = Some (p, s) \<Longrightarrow>
    (\<exists>a. p = [a] \<and> bs = a # s \<and> ascii a) \<or>
    (\<exists>a b. p = [a, b] \<and> bs = a # b # s \<and> \<not> ascii a \<and> lead2 a \<and> tail b) \<or>
    (\<exists>a b c. p = [a, b, c] \<and> bs = a # b # c # s \<and> \<not> ascii a \<and> \<not> lead2 a \<and> lead3 a \<and> tail_of a b \<and> tail c) \<or>
    (\<exists>a b c d. p = [a, b, c, d] \<and> bs = a # b # c # d # s \<and> \<not> ascii a \<and> \<not> lead2 a \<and> \<not> lead3 a \<and> lead4 a \<and>
       tail_of a b \<and> tail c \<and> tail d)"
  by (cases bs) (auto split: list.splits if_splits)

lemma utf8_step_append: "utf8_step bs = Some (p, s) \<Longrightarrow> bs = p @ s \<and> utf8_step (p @ t) = Some (p, t)"
  by (drule utf8_step_forms) auto

lemma utf8_step_shorter: "utf8_step bs = Some (p, s) \<Longrightarrow> length s < length bs"
  by (drule utf8_step_forms) auto

lemma utf8_step_ascii: "utf8_step bs = Some (p, s) \<Longrightarrow> ascii (hd p) \<Longrightarrow> p = [hd p]"
  by (drule utf8_step_forms) auto

lemma lead_not_special:
  "lead3 a \<Longrightarrow> a \<noteq> 0xF0 \<and> a \<noteq> 0xF4" "lead4 a \<Longrightarrow> a \<noteq> 0xE0 \<and> a \<noteq> 0xED"
  by (auto simp: lead3_def lead4_def utf8_cont_def)

lemma valid_utf8_Cons:
  "valid_utf8 (a # r) =
     (if ascii a then valid_utf8 r
      else if lead2 a then (case r of b # s \<Rightarrow> tail b \<and> valid_utf8 s | _ \<Rightarrow> False)
      else if lead3 a then (case r of b # c # s \<Rightarrow> tail_of a b \<and> tail c \<and> valid_utf8 s | _ \<Rightarrow> False)
      else if lead4 a then (case r of b # c # d # s \<Rightarrow> tail_of a b \<and> tail c \<and> tail d \<and> valid_utf8 s | _ \<Rightarrow> False)
      else False)"
proof (cases "ascii a")
  case True
  then show ?thesis unfolding valid_utf8.simps(2) by (simp only: ascii_def if_True)
next
  case not_ascii: False
  then have high: "\<not> a < 0x80" by (simp add: ascii_def)
  show ?thesis
  proof (cases "lead2 a")
    case True
    then show ?thesis unfolding valid_utf8.simps(2) tail_def using not_ascii high by (simp only: lead2_def if_True if_False)
  next
    case not_two: False
    then have plain: "\<not> a < 0x80" "\<not> utf8_cont 0xC2 0xDF a" using high by (simp_all add: lead2_def)
    note False = not_ascii not_two
    show ?thesis
    proof (cases "lead3 a")
      case True
      then have tails: "tail_of a = utf8_cont (if a = 0xE0 then 0xA0 else 0x80) (if a = 0xED then 0x9F else 0xBF)"
        using lead_not_special(1) by (auto simp: tail_of_def fun_eq_iff)
      show ?thesis
        unfolding valid_utf8.simps(2) tails tail_def using True False plain by (simp only: lead3_def if_False if_True de_Morgan_disj)
    next
      case three: False
      show ?thesis
      proof (cases "lead4 a")
        case True
        then have tails: "tail_of a = utf8_cont (if a = 0xF0 then 0x90 else 0x80) (if a = 0xF4 then 0x8F else 0xBF)"
          using lead_not_special(2) by (auto simp: tail_of_def fun_eq_iff)
        show ?thesis
          unfolding valid_utf8.simps(2) tails tail_def using True False three plain
          by (simp only: lead3_def lead4_def if_False if_True de_Morgan_disj)
      next
        case four: False
        then show ?thesis
          unfolding valid_utf8.simps(2) using False three plain
          by (simp only: lead3_def lead4_def if_False de_Morgan_disj)
      qed
    qed
  qed
qed

lemma valid_utf8_step: "valid_utf8 (a # r) \<longleftrightarrow> (\<exists>p s. utf8_step (a # r) = Some (p, s) \<and> valid_utf8 s)"
proof (cases "ascii a \<or> lead2 a \<or> \<not> lead3 a \<and> \<not> lead4 a")
  case True
  then show ?thesis unfolding valid_utf8_Cons by (cases r) auto
next
  case False
  then show ?thesis
    unfolding valid_utf8_Cons by (cases r; cases "tl r"; cases "tl (tl r)"; auto simp del: valid_utf8.simps)
qed

declare utf8_step.simps [simp del]

section \<open>Hexadecimal digits\<close>

definition hex_digit :: "u8 \<Rightarrow> u8" where
  "hex_digit n = (if n < 10 then 0x30 + n else 0x57 + n)"

definition hex_value :: "u8 \<Rightarrow> u8 option" where
  "hex_value c =
     (if utf8_cont 0x30 0x39 c then Some (c - 0x30)
      else if utf8_cont 0x61 0x66 c then Some (c - 0x57)
      else if utf8_cont 0x41 0x46 c then Some (c - 0x37)
      else None)"

lemma u8_below:
  assumes "list_all P (map word_of_nat [0..<m])" and "unat (n :: u8) < m"
  shows "P n"
proof -
  have "n = word_of_nat (unat n)" by simp
  with assms(2) have "n \<in> set (map word_of_nat [0..<m])" by (metis atLeastLessThan_iff image_eqI le0 set_map set_upt)
  then show ?thesis using assms(1) by (auto simp: list_all_iff)
qed

lemma hex_value_digit: "n < 16 \<Longrightarrow> hex_value (hex_digit n) = Some n"
proof (rule u8_below [of "\<lambda>n. hex_value (hex_digit n) = Some n" 16])
  show "list_all (\<lambda>n. hex_value (hex_digit n) = Some n) (map word_of_nat [0..<16])" by code_simp
qed (simp add: u8_less_nat)

section \<open>Escapes\<close>

definition replacement_bytes :: bytes where "replacement_bytes = [0xEF, 0xBF, 0xBD]"

text \<open>\<open>utf8.AppendRune\<close> of a code point.\<close>

definition encode_rune :: "nat \<Rightarrow> bytes" where
  "encode_rune n =
     (if n < 0x80 then [word_of_nat n]
      else if n < 0x800 then [word_of_nat (0xC0 + n div 0x40), word_of_nat (0x80 + n mod 0x40)]
      else if 0xD800 \<le> n \<and> n < 0xE000 \<or> n > 0x10FFFF then replacement_bytes
      else if n < 0x10000 then
        [word_of_nat (0xE0 + n div 0x1000), word_of_nat (0x80 + n div 0x40 mod 0x40), word_of_nat (0x80 + n mod 0x40)]
      else
        [word_of_nat (0xF0 + n div 0x40000), word_of_nat (0x80 + n div 0x1000 mod 0x40),
         word_of_nat (0x80 + n div 0x40 mod 0x40), word_of_nat (0x80 + n mod 0x40)])"

definition hex4 :: "bytes \<Rightarrow> (nat \<times> bytes) option" where
  "hex4 bs =
     (case bs of a # b # c # d # r \<Rightarrow>
        (case (hex_value a, hex_value b, hex_value c, hex_value d) of
           (Some w, Some x, Some y, Some z) \<Rightarrow>
             Some (unat w * 0x1000 + unat x * 0x100 + unat y * 0x10 + unat z, r)
         | _ \<Rightarrow> None)
      | _ \<Rightarrow> None)"

text \<open>After \<open>\u\<close>: a surrogate must be the first half of a pair, or it is replaced.\<close>

definition unescape_unicode :: "bytes \<Rightarrow> (bytes \<times> bytes) option" where
  "unescape_unicode r =
     (case hex4 r of
        None \<Rightarrow> None
      | Some (u, s) \<Rightarrow>
          if 0xD800 \<le> u \<and> u < 0xE000 then
            (case s of
               b # e # t \<Rightarrow>
                 (if b = 0x5C \<and> e = 0x75 then
                    (case hex4 t of
                       Some (v, t') \<Rightarrow>
                         (if u < 0xDC00 \<and> 0xDC00 \<le> v \<and> v < 0xE000
                          then Some (encode_rune ((u - 0xD800) * 0x400 + (v - 0xDC00) + 0x10000), t')
                          else Some (replacement_bytes, s))
                     | None \<Rightarrow> Some (replacement_bytes, s))
                  else Some (replacement_bytes, s))
             | _ \<Rightarrow> Some (replacement_bytes, s))
          else Some (encode_rune u, s))"

text \<open>After the backslash.\<close>

definition unescape :: "bytes \<Rightarrow> (bytes \<times> bytes) option" where
  "unescape r =
     (case r of
        [] \<Rightarrow> None
      | e # s \<Rightarrow>
          (if e = 0x22 \<or> e = 0x5C \<or> e = 0x2F then Some ([e], s)
           else if e = 0x62 then Some ([0x08], s)
           else if e = 0x66 then Some ([0x0C], s)
           else if e = 0x6E then Some ([0x0A], s)
           else if e = 0x72 then Some ([0x0D], s)
           else if e = 0x74 then Some ([0x09], s)
           else if e = 0x75 then unescape_unicode s
           else None))"

lemma hex4_shorter: "hex4 bs = Some (n, r) \<Longrightarrow> length r < length bs"
  by (auto simp: hex4_def split: list.splits option.splits)

lemma unescape_shorter: "unescape r = Some (p, s) \<Longrightarrow> length s < length r"
  by (auto simp: unescape_def unescape_unicode_def split: list.splits if_splits option.splits
      dest!: hex4_shorter)

section \<open>Strings\<close>

text \<open>The rest of a string literal after its opening quote: the string, and what follows the closing quote.\<close>

function unquote :: "bytes \<Rightarrow> (bytes \<times> bytes) option" where
  "unquote bs =
     (case bs of
        [] \<Rightarrow> None
      | a # r \<Rightarrow>
          (if a = 0x22 then Some ([], r)
           else if a = 0x5C then
             (case unescape r of
                None \<Rightarrow> None
              | Some (p, s) \<Rightarrow> map_option (apfst ((@) p)) (unquote s))
           else if a < 0x20 then None
           else
             (case utf8_step bs of
                None \<Rightarrow> map_option (apfst ((@) replacement_bytes)) (unquote r)
              | Some (p, s) \<Rightarrow> map_option (apfst ((@) p)) (unquote s))))"
  by pat_completeness auto
termination
  by (relation "measure length") (auto dest!: unescape_shorter utf8_step_shorter)

declare unquote.simps [simp del]

definition quote_char :: "bytes \<Rightarrow> bytes" where
  "quote_char p =
     (case p of
        [a] \<Rightarrow>
          (if a = 0x22 \<or> a = 0x5C then [0x5C, a]
           else if a = 0x08 then [0x5C, 0x62]
           else if a = 0x0C then [0x5C, 0x66]
           else if a = 0x0A then [0x5C, 0x6E]
           else if a = 0x0D then [0x5C, 0x72]
           else if a = 0x09 then [0x5C, 0x74]
           else if a < 0x20 \<or> a = 0x3C \<or> a = 0x3E \<or> a = 0x26
           then [0x5C, 0x75, 0x30, 0x30, hex_digit (drop_bit 4 a), hex_digit (a AND 0xF)]
           else [a])
      | _ \<Rightarrow>
          (if p = [0xE2, 0x80, 0xA8] then [0x5C, 0x75, 0x32, 0x30, 0x32, 0x38]
           else if p = [0xE2, 0x80, 0xA9] then [0x5C, 0x75, 0x32, 0x30, 0x32, 0x39]
           else p))"

function quote_body :: "bytes \<Rightarrow> bytes" where
  "quote_body bs =
     (case bs of
        [] \<Rightarrow> []
      | a # r \<Rightarrow>
          (case utf8_step bs of
             None \<Rightarrow> [0x5C, 0x75, 0x66, 0x66, 0x66, 0x64] @ quote_body r
           | Some (p, s) \<Rightarrow> quote_char p @ quote_body s))"
  by pat_completeness auto
termination
  by (relation "measure length") (auto dest!: utf8_step_shorter)

declare quote_body.simps [simp del]

definition quote :: "bytes \<Rightarrow> bytes" where
  "quote bs = [0x22] @ quote_body bs @ [0x22]"

section \<open>Reading back what was written\<close>

lemma unquote_plain:
  "utf8_step bs = Some (p, s) \<Longrightarrow> hd p \<noteq> 0x22 \<Longrightarrow> hd p \<noteq> 0x5C \<Longrightarrow> \<not> hd p < 0x20 \<Longrightarrow>
    unquote (p @ t) = map_option (apfst ((@) p)) (unquote t)"
  using utf8_step_append [of bs p s t] utf8_step_forms [of bs p s]
  by (auto simp: unquote.simps [of "_ # _"])

lemma unescape_letter: "c \<noteq> 0x75 \<Longrightarrow> unescape [c] = Some (p, []) \<Longrightarrow> unescape (c # t) = Some (p, t)"
  by (auto simp: unescape_def split: if_splits)

lemma hex4_append: "hex4 bs = Some (u, r) \<Longrightarrow> hex4 (bs @ t) = Some (u, r @ t)"
  by (auto simp: hex4_def split: list.splits option.splits)

lemma unescape_hex:
  "hex4 u = Some (n, []) \<Longrightarrow> n < 0xD800 \<or> 0xE000 \<le> n \<Longrightarrow> unescape (0x75 # u @ t) = Some (encode_rune n, t)"
  using hex4_append [of u n "[]" t] by (auto simp: unescape_def unescape_unicode_def)

lemma unquote_escape:
  "unescape e = Some (p, t) \<Longrightarrow> unquote (0x5C # e) = map_option (apfst ((@) p)) (unquote t)"
  by (simp add: unquote.simps [of "0x5C # e"])

lemma unat_low_nibble: "unat (a AND 0xF :: u8) = unat a mod 16"
proof -
  have "a AND 0xF = take_bit 4 a" by (simp add: take_bit_eq_mask mask_eq_exp_minus_1)
  then show ?thesis by (simp add: unsigned_take_bit_eq take_bit_eq_mod unat_mod_distrib)
qed

lemma unat_high_nibble: "unat (drop_bit 4 a :: u8) = unat a div 16"
  by (simp add: drop_bit_eq_div unat_div_distrib)

lemma hex4_quote: "hex4 [0x30, 0x30, hex_digit (drop_bit 4 a), hex_digit (a AND 0xF)] = Some (unat a, [])"
proof -
  have "hex_value (hex_digit (drop_bit 4 a)) = Some (drop_bit 4 a)" "hex_value (hex_digit (a AND 0xF)) = Some (a AND 0xF)"
    using unat_lt_256 [of a] by (auto intro!: hex_value_digit simp: u8_less_nat unat_low_nibble unat_high_nibble)
  moreover have "hex_value 0x30 = Some 0" by code_simp
  ultimately show ?thesis by (simp add: hex4_def unat_low_nibble unat_high_nibble)
qed

lemma encode_rune_ascii: "ascii a \<Longrightarrow> encode_rune (unat a) = [a]"
  by (simp add: encode_rune_def ascii_def u8_less_nat)

lemma unquote_quote_ascii:
  assumes "ascii a"
  shows "unquote (quote_char [a] @ t) = map_option (apfst ((@) [a])) (unquote t)"
proof -
  have small: "unat a < 0xD800" using unat_lt_256 [of a] by linarith
  have "a \<in> {0x22, 0x5C, 0x08, 0x0C, 0x0A, 0x0D, 0x09} \<or>
      quote_char [a] = [0x5C, 0x75, 0x30, 0x30, hex_digit (drop_bit 4 a), hex_digit (a AND 0xF)] \<or>
      quote_char [a] = [a] \<and> a \<noteq> 0x22 \<and> a \<noteq> 0x5C \<and> \<not> a < 0x20"
    by (simp add: quote_char_def)
  then consider "a \<in> {0x22, 0x5C, 0x08, 0x0C, 0x0A, 0x0D, 0x09}"
    | "quote_char [a] = [0x5C, 0x75, 0x30, 0x30, hex_digit (drop_bit 4 a), hex_digit (a AND 0xF)]"
    | "quote_char [a] = [a]" "a \<noteq> 0x22" "a \<noteq> 0x5C" "\<not> a < 0x20"
    by blast
  then show ?thesis
  proof cases
    case 1
    then show ?thesis by (auto simp: quote_char_def unquote_escape unescape_def)
  next
    case 2
    then show ?thesis
      using unescape_hex [OF hex4_quote, of a t] small encode_rune_ascii [OF assms] by (simp add: unquote_escape)
  next
    case 3
    moreover have "utf8_step [a] = Some ([a], [])" using assms by (simp add: utf8_step.simps)
    ultimately show ?thesis using unquote_plain [of "[a]" "[a]"] by simp
  qed
qed

lemma lead_high: "lead2 a \<or> lead3 a \<or> lead4 a \<Longrightarrow> a \<noteq> 0x22 \<and> a \<noteq> 0x5C \<and> \<not> a < 0x20"
  by (auto simp: lead2_def lead3_def lead4_def utf8_cont_def u8_nat)

lemma unquote_quote_char:
  assumes "utf8_step bs = Some (p, s)"
  shows "unquote (quote_char p @ t) = map_option (apfst ((@) p)) (unquote t)"
proof (cases "ascii (hd p)")
  case True
  then show ?thesis using utf8_step_ascii [OF assms] unquote_quote_ascii by metis
next
  case False
  then have high: "hd p \<noteq> 0x22" "hd p \<noteq> 0x5C" "\<not> hd p < 0x20" and "length p \<noteq> 1"
    using utf8_step_forms [OF assms] lead_high by fastforce+
  then have wide: "quote_char p =
      (if p = [0xE2, 0x80, 0xA8] then [0x5C, 0x75, 0x32, 0x30, 0x32, 0x38]
       else if p = [0xE2, 0x80, 0xA9] then [0x5C, 0x75, 0x32, 0x30, 0x32, 0x39] else p)"
    by (auto simp: quote_char_def split: list.splits)
  have "hex4 [0x32, 0x30, 0x32, 0x38] = Some (0x2028, [])" "hex4 [0x32, 0x30, 0x32, 0x39] = Some (0x2029, [])"
    by (simp_all add: hex4_def hex_value_def utf8_cont_def)
  then have "unescape (0x75 # [0x32, 0x30, 0x32, 0x38] @ t) = Some (encode_rune 0x2028, t)"
    "unescape (0x75 # [0x32, 0x30, 0x32, 0x39] @ t) = Some (encode_rune 0x2029, t)"
    using unescape_hex [of "[0x32, 0x30, 0x32, 0x38]" "0x2028" t] unescape_hex [of "[0x32, 0x30, 0x32, 0x39]" "0x2029" t]
    by simp_all
  then show ?thesis
    using wide unquote_plain [OF assms high] by (auto simp: unquote_escape encode_rune_def)
qed

lemma unquote_quote_body: "valid_utf8 bs \<Longrightarrow> unquote (quote_body bs @ 0x22 # t) = Some (bs, t)"
proof (induction bs rule: quote_body.induct)
  case (1 bs)
  show ?case
  proof (cases bs)
    case Nil
    then show ?thesis by (simp add: quote_body.simps [of "[]"] unquote.simps [of "0x22 # t"])
  next
    case (Cons a r)
    then obtain p s where p: "utf8_step bs = Some (p, s)" "valid_utf8 s" using 1(3) valid_utf8_step by metis
    have "unquote (quote_body s @ 0x22 # t) = Some (s, t)" using 1(2) Cons p by blast
    moreover have "quote_body bs = quote_char p @ quote_body s" using p(1) Cons by (subst quote_body.simps) simp
    moreover have "bs = p @ s" using utf8_step_append [OF p(1)] by blast
    ultimately show ?thesis using unquote_quote_char [OF p(1)] by simp
  qed
qed

lemma unquote_quote: "valid_utf8 bs \<Longrightarrow> unquote (tl (quote bs @ t)) = Some (bs, t)"
  by (simp add: quote_def unquote_quote_body)

end
