(* ===== verification/Json.thy ===== *)
theory Json
  imports Json_Text
begin

text \<open>
  JSON values as \<open>encoding/json\<close> reads and writes them: the tokens of a text, the parser (a state
  machine with a stack of open arrays and objects, as the scanner of Go's library, with its nesting
  limit), the compact printer of \<open>Marshal\<close>, and decimal numbers. Parsing a printed value gives it back.
\<close>

section \<open>Values\<close>

datatype json =
    JNull
  | JBool bool
  | JNum bytes
  | JStr string
  | JArr "json list"
  | JObj "(string \<times> json) list"

section \<open>Numbers\<close>

definition is_digit :: "u8 \<Rightarrow> bool" where "is_digit c \<longleftrightarrow> utf8_cont 0x30 0x39 c"

definition number_char :: "u8 \<Rightarrow> bool" where
  "number_char c \<longleftrightarrow> is_digit c \<or> c = 0x2D \<or> c = 0x2B \<or> c = 0x2E \<or> c = 0x65 \<or> c = 0x45"

definition exponent_ok :: "bytes \<Rightarrow> bool" where
  "exponent_ok bs =
     (case bs of
        [] \<Rightarrow> True
      | c # t \<Rightarrow> (c = 0x65 \<or> c = 0x45) \<and>
          (let u = (case t of s # t' \<Rightarrow> if s = 0x2B \<or> s = 0x2D then t' else t | [] \<Rightarrow> t)
           in u \<noteq> [] \<and> list_all is_digit u))"

definition fraction_ok :: "bytes \<Rightarrow> bool" where
  "fraction_ok bs =
     (case bs of
        c # t \<Rightarrow> if c = 0x2E then takeWhile is_digit t \<noteq> [] \<and> exponent_ok (dropWhile is_digit t) else exponent_ok bs
      | [] \<Rightarrow> True)"

definition number_ok :: "bytes \<Rightarrow> bool" where
  "number_ok bs =
     (let b = (case bs of c # t \<Rightarrow> if c = 0x2D then t else bs | [] \<Rightarrow> bs);
          i = takeWhile is_digit b
      in i \<noteq> [] \<and> (hd i = 0x30 \<longrightarrow> length i = 1) \<and> fraction_ok (dropWhile is_digit b))"

fun show_nat :: "nat \<Rightarrow> bytes" where
  "show_nat n = (if n < 10 then [0x30 + word_of_nat n] else show_nat (n div 10) @ [0x30 + word_of_nat (n mod 10)])"

definition show_int :: "int \<Rightarrow> bytes" where
  "show_int i = (if i < 0 then 0x2D # show_nat (nat (- i)) else show_nat (nat i))"

definition read_digits :: "bytes \<Rightarrow> nat" where
  "read_digits bs = foldl (\<lambda>n c. 10 * n + unat (c - 0x30)) 0 bs"

text \<open>\<open>strconv.ParseUint\<close> and \<open>strconv.ParseInt\<close> in base 10, with the width in bits.\<close>

definition parse_uint :: "nat \<Rightarrow> bytes \<Rightarrow> nat option" where
  "parse_uint w bs =
     (if bs \<noteq> [] \<and> list_all is_digit bs \<and> read_digits bs < 2 ^ w then Some (read_digits bs) else None)"

definition parse_int :: "nat \<Rightarrow> bytes \<Rightarrow> int option" where
  "parse_int w bs =
     (case bs of
        c # t \<Rightarrow>
          if c = 0x2D \<or> c = 0x2B then
            (if t \<noteq> [] \<and> list_all is_digit t \<and> read_digits t \<le> 2 ^ (w - 1) - (if c = 0x2D then 0 else 1)
             then Some (if c = 0x2D then - int (read_digits t) else int (read_digits t)) else None)
          else (if list_all is_digit bs \<and> read_digits bs < 2 ^ (w - 1) then Some (int (read_digits bs)) else None)
      | [] \<Rightarrow> None)"

section \<open>Tokens\<close>

datatype token =
    TLBrace | TRBrace | TLBrack | TRBrack | TColon | TComma
  | TStr string | TNum bytes | TTrue | TFalse | TNull

definition is_space :: "u8 \<Rightarrow> bool" where
  "is_space c \<longleftrightarrow> c = 0x20 \<or> c = 0x09 \<or> c = 0x0D \<or> c = 0x0A"

definition punctuation :: "u8 \<Rightarrow> token option" where
  "punctuation c =
     (if c = 0x7B then Some TLBrace else if c = 0x7D then Some TRBrace
      else if c = 0x5B then Some TLBrack else if c = 0x5D then Some TRBrack
      else if c = 0x3A then Some TColon else if c = 0x2C then Some TComma else None)"

text \<open>One of the words \<open>true\<close>, \<open>false\<close>, \<open>null\<close> at the start of a text.\<close>

definition word_token :: "bytes \<Rightarrow> (token \<times> bytes) option" where
  "word_token bs =
     (if take 4 bs = [0x74, 0x72, 0x75, 0x65] then Some (TTrue, drop 4 bs)
      else if take 5 bs = [0x66, 0x61, 0x6C, 0x73, 0x65] then Some (TFalse, drop 5 bs)
      else if take 4 bs = [0x6E, 0x75, 0x6C, 0x6C] then Some (TNull, drop 4 bs)
      else None)"

text \<open>The first token of a text that starts with no space.\<close>

definition next_token :: "bytes \<Rightarrow> (token \<times> bytes) option" where
  "next_token bs =
     (case bs of
        [] \<Rightarrow> None
      | c # r \<Rightarrow>
          (case punctuation c of
             Some t \<Rightarrow> Some (t, r)
           | None \<Rightarrow>
               if c = 0x22 then map_option (apfst (\<lambda>s. TStr (bytes_str s))) (unquote r)
               else if number_char c then
                 (if number_ok (takeWhile number_char bs)
                  then Some (TNum (takeWhile number_char bs), dropWhile number_char bs) else None)
               else word_token bs))"

lemma unquote_shorter: "unquote bs = Some (s, r) \<Longrightarrow> length r < length bs"
proof (induction "length bs" arbitrary: bs s r rule: less_induct)
  case less
  show ?case
  proof (cases bs)
    case (Cons a t)
    have "length u < length bs \<or> length u < length t \<Longrightarrow> unquote u = Some (v, r) \<Longrightarrow> length r < length bs" for u v
      using less(1) [of u v r] Cons by auto
    then show ?thesis
      using less(2) Cons by (auto simp: unquote.simps [of "a # t"] split: if_splits option.splits
          dest!: unescape_shorter utf8_step_shorter; blast)
  qed (use less in \<open>simp add: unquote.simps\<close>)
qed

lemma word_token_shorter: "word_token bs = Some (t, r) \<Longrightarrow> length r < length bs"
  by (cases bs) (auto simp: word_token_def split: if_splits)

lemma next_token_shorter: "next_token bs = Some (t, r) \<Longrightarrow> length r < length bs"
  by (auto simp: next_token_def length_dropWhile_le less_Suc_eq_le split: list.splits option.splits if_splits
      dest!: unquote_shorter word_token_shorter)

function lex :: "bytes \<Rightarrow> token list option" where
  "lex bs =
     (case bs of
        [] \<Rightarrow> Some []
      | c # r \<Rightarrow>
          if is_space c then lex r
          else (case next_token bs of
                  None \<Rightarrow> None
                | Some (t, s) \<Rightarrow> map_option ((#) t) (lex s)))"
  by pat_completeness auto
termination
  by (relation "measure length") (auto dest!: next_token_shorter)

declare lex.simps [simp del]

section \<open>The parser\<close>

text \<open>The open arrays and objects, innermost first, each with what it holds so far in reverse.\<close>

datatype frame =
    FArr "json list"
  | FObj "(string \<times> json) list"
  | FMem "(string \<times> json) list" string

datatype mode = MValue | MElems | MKeys | MKey | MColon | MNext | MDone json

definition max_nesting :: int where "max_nesting = 10000"

fun complete_value :: "json \<Rightarrow> frame list \<Rightarrow> mode \<times> frame list" where
  "complete_value v [] = (MDone v, [])"
| "complete_value v (FArr vs # fs) = (MNext, FArr (v # vs) # fs)"
| "complete_value v (FMem ms k # fs) = (MNext, FObj ((k, v) # ms) # fs)"
| "complete_value v (FObj ms # fs) = (MNext, FObj ms # fs)"

definition open_frame :: "mode \<Rightarrow> frame \<Rightarrow> frame list \<Rightarrow> (mode \<times> frame list) option" where
  "open_frame m f fs = (if int (length fs) < max_nesting then Some (m, f # fs) else None)"

fun start_value :: "token \<Rightarrow> frame list \<Rightarrow> (mode \<times> frame list) option" where
  "start_value TNull fs = Some (complete_value JNull fs)"
| "start_value TTrue fs = Some (complete_value (JBool True) fs)"
| "start_value TFalse fs = Some (complete_value (JBool False) fs)"
| "start_value (TNum n) fs = Some (complete_value (JNum n) fs)"
| "start_value (TStr s) fs = Some (complete_value (JStr s) fs)"
| "start_value TLBrack fs = open_frame MElems (FArr []) fs"
| "start_value TLBrace fs = open_frame MKeys (FObj []) fs"
| "start_value t fs = None"

fun close_frame :: "frame list \<Rightarrow> (mode \<times> frame list) option" where
  "close_frame (FArr vs # fs) = Some (complete_value (JArr (rev vs)) fs)"
| "close_frame (FObj ms # fs) = Some (complete_value (JObj (rev ms)) fs)"
| "close_frame fs = None"

fun object_key :: "token \<Rightarrow> frame list \<Rightarrow> (mode \<times> frame list) option" where
  "object_key (TStr k) (FObj ms # fs) = Some (MColon, FMem ms k # fs)"
| "object_key t fs = None"

fun parse_step :: "mode \<Rightarrow> frame list \<Rightarrow> token \<Rightarrow> (mode \<times> frame list) option" where
  "parse_step MValue fs t = start_value t fs"
| "parse_step MElems fs t = (if t = TRBrack then close_frame fs else start_value t fs)"
| "parse_step MKeys fs t = (if t = TRBrace then close_frame fs else object_key t fs)"
| "parse_step MKey fs t = object_key t fs"
| "parse_step MColon fs t = (if t = TColon then Some (MValue, fs) else None)"
| "parse_step MNext (FArr vs # fs) t =
     (if t = TComma then Some (MValue, FArr vs # fs)
      else if t = TRBrack then close_frame (FArr vs # fs) else None)"
| "parse_step MNext (FObj ms # fs) t =
     (if t = TComma then Some (MKey, FObj ms # fs)
      else if t = TRBrace then close_frame (FObj ms # fs) else None)"
| "parse_step MNext fs t = None"
| "parse_step (MDone v) fs t = None"

fun parse_tokens :: "mode \<times> frame list \<Rightarrow> token list \<Rightarrow> (mode \<times> frame list) option" where
  "parse_tokens s [] = Some s"
| "parse_tokens (m, fs) (t # ts) =
     (case parse_step m fs t of None \<Rightarrow> None | Some s \<Rightarrow> parse_tokens s ts)"

text \<open>A decoder that reads one value and then finds the end of the input.\<close>

definition json_parse :: "bytes \<Rightarrow> json option" where
  "json_parse bs =
     (case lex bs of
        None \<Rightarrow> None
      | Some ts \<Rightarrow> (case parse_tokens (MValue, []) ts of Some (MDone v, []) \<Rightarrow> Some v | _ \<Rightarrow> None))"

section \<open>The printer\<close>

definition print_string :: "string \<Rightarrow> bytes" where "print_string s = quote (str_bytes s)"

fun separated :: "'a \<Rightarrow> 'a list list \<Rightarrow> 'a list" where
  "separated s [] = []"
| "separated s [x] = x"
| "separated s (x # y # ys) = x @ s # separated s (y # ys)"

fun json_print :: "json \<Rightarrow> bytes" where
  "json_print JNull = [0x6E, 0x75, 0x6C, 0x6C]"
| "json_print (JBool True) = [0x74, 0x72, 0x75, 0x65]"
| "json_print (JBool False) = [0x66, 0x61, 0x6C, 0x73, 0x65]"
| "json_print (JNum n) = n"
| "json_print (JStr s) = print_string s"
| "json_print (JArr vs) = [0x5B] @ separated 0x2C (map json_print vs) @ [0x5D]"
| "json_print (JObj ms) = [0x7B] @ separated 0x2C (map (\<lambda>(k, v). print_string k @ [0x3A] @ json_print v) ms) @ [0x7D]"

section \<open>Parsing what was printed\<close>

text \<open>The values the printer writes faithfully: valid UTF-8, well-formed numbers, at most \<open>n\<close> levels deep.\<close>

fun json_ok :: "int \<Rightarrow> json \<Rightarrow> bool" where
  "json_ok n (JNum b) \<longleftrightarrow> number_ok b \<and> list_all number_char b"
| "json_ok n (JStr s) \<longleftrightarrow> valid_utf8 (str_bytes s)"
| "json_ok n (JArr vs) \<longleftrightarrow> 0 < n \<and> (\<forall>v \<in> set vs. json_ok (n - 1) v)"
| "json_ok n (JObj ms) \<longleftrightarrow> 0 < n \<and> (\<forall>(k, v) \<in> set ms. valid_utf8 (str_bytes k) \<and> json_ok (n - 1) v)"
| "json_ok n v \<longleftrightarrow> True"

fun tokens_of :: "json \<Rightarrow> token list" where
  "tokens_of JNull = [TNull]"
| "tokens_of (JBool b) = [if b then TTrue else TFalse]"
| "tokens_of (JNum n) = [TNum n]"
| "tokens_of (JStr s) = [TStr s]"
| "tokens_of (JArr vs) = TLBrack # separated TComma (map tokens_of vs) @ [TRBrack]"
| "tokens_of (JObj ms) = TLBrace # separated TComma (map (\<lambda>(k, v). TStr k # TColon # tokens_of v) ms) @ [TRBrace]"

definition stops :: "bytes \<Rightarrow> bool" where
  "stops t \<longleftrightarrow> t = [] \<or> \<not> number_char (hd t)"

lemma number_char_plain: "number_char c \<Longrightarrow> punctuation c = None \<and> c \<noteq> 0x22 \<and> \<not> is_space c"
  by (auto simp: number_char_def is_digit_def utf8_cont_def punctuation_def is_space_def)

lemma lex_token:
  assumes "next_token (x @ t) = Some (tok, t)" and "x \<noteq> []" and "\<not> is_space (hd x)"
  shows "lex (x @ t) = map_option ((#) tok) (lex t)"
  using assms by (cases x) (simp_all add: lex.simps [of "_ # _"])

lemma stops_Cons: "stops (c # t) \<longleftrightarrow> \<not> number_char c"
  by (simp add: stops_def)

lemma stops_punctuation [simp]: "stops (0x5D # t)" "stops (0x7D # t)" "stops (0x2C # t)" "stops (0x3A # t)"
  by (simp_all add: stops_Cons number_char_def is_digit_def utf8_cont_def)

lemma lex_punctuation: "punctuation c = Some tok \<Longrightarrow> lex (c # t) = map_option ((#) tok) (lex t)"
  using lex_token [of "[c]" t tok]
  by (auto simp: next_token_def is_space_def punctuation_def split: if_splits)

lemma lex_marks [simp]:
  "lex (0x7B # t) = map_option ((#) TLBrace) (lex t)" "lex (0x7D # t) = map_option ((#) TRBrace) (lex t)"
  "lex (0x5B # t) = map_option ((#) TLBrack) (lex t)" "lex (0x5D # t) = map_option ((#) TRBrack) (lex t)"
  "lex (0x3A # t) = map_option ((#) TColon) (lex t)" "lex (0x2C # t) = map_option ((#) TComma) (lex t)"
  by (simp_all add: lex_punctuation punctuation_def)

lemma lex_string: "valid_utf8 (str_bytes s) \<Longrightarrow> lex (print_string s @ t) = map_option ((#) (TStr s)) (lex t)"
  by (rule lex_token)
    (auto simp: next_token_def print_string_def quote_def unquote_quote_body punctuation_def is_space_def)

lemma number_ok_nonempty: "number_ok b \<Longrightarrow> b \<noteq> []"
  by (auto simp: number_ok_def)

lemma takeWhile_stops: "list_all number_char b \<Longrightarrow> stops t \<Longrightarrow> takeWhile number_char (b @ t) = b"
  by (induction b) (auto simp: stops_def takeWhile_eq_Nil_iff)

lemma dropWhile_stops: "list_all number_char b \<Longrightarrow> stops t \<Longrightarrow> dropWhile number_char (b @ t) = t"
  by (induction b) (auto simp: stops_def dropWhile_eq_self_iff)

lemma lex_number:
  assumes "number_ok b" and "list_all number_char b" and "stops t"
  shows "lex (b @ t) = map_option ((#) (TNum b)) (lex t)"
proof (rule lex_token)
  obtain c r where b: "b = c # r" using number_ok_nonempty [OF assms(1)] by (cases b) auto
  then have c: "punctuation c = None \<and> c \<noteq> 0x22 \<and> \<not> is_space c" "number_char c"
    using assms(2) number_char_plain by auto
  then show "\<not> is_space (hd b)" "b \<noteq> []" using b by auto
  show "next_token (b @ t) = Some (TNum b, t)"
    using takeWhile_stops [OF assms(2,3)] dropWhile_stops [OF assms(2,3)] assms(1) c
    unfolding b by (simp add: next_token_def)
qed

lemma lex_words:
  "lex ([0x74, 0x72, 0x75, 0x65] @ t) = map_option ((#) TTrue) (lex t)"
  "lex ([0x66, 0x61, 0x6C, 0x73, 0x65] @ t) = map_option ((#) TFalse) (lex t)"
  "lex ([0x6E, 0x75, 0x6C, 0x6C] @ t) = map_option ((#) TNull) (lex t)"
  by (rule lex_token; simp add: next_token_def punctuation_def number_char_def is_digit_def utf8_cont_def
      word_token_def is_space_def)+

lemma lex_separated:
  assumes "\<And>x t. x \<in> set xs \<Longrightarrow> stops t \<Longrightarrow> lex (f x @ t) = map_option ((@) (g x)) (lex t)" and "stops t"
  shows "lex (separated 0x2C (map f xs) @ t) = map_option ((@) (separated TComma (map g xs))) (lex t)"
  using assms
proof (induction xs rule: induct_list012)
  case 1
  then show ?case by (simp add: option.map_id0 [unfolded id_def] cong: map_option_cong)
next
  case (2 x)
  then show ?case by simp
next
  case (3 x y zs)
  have "lex (separated 0x2C (map f (y # zs)) @ t) = map_option ((@) (separated TComma (map g (y # zs)))) (lex t)"
    using 3 by simp
  then show ?case using 3(3) [of x] by (simp add: option.map_comp comp_def)
qed

lemma append_Cons_fun: "(@) (a # xs) = (\<lambda>ys. a # xs @ ys)"
  by (rule ext) simp

lemma lex_print: "json_ok n v \<Longrightarrow> stops t \<Longrightarrow> lex (json_print v @ t) = map_option ((@) (tokens_of v)) (lex t)"
proof (induction v arbitrary: n t rule: tokens_of.induct)
  case (5 vs)
  have "lex (separated 0x2C (map json_print vs) @ 0x5D # t) = map_option ((@) (separated TComma (map tokens_of vs))) (lex (0x5D # t))"
    using 5 by (intro lex_separated) auto
  then show ?case by (simp add: option.map_comp comp_def)
next
  case (6 ms)
  have "lex (json_print v @ u) = map_option ((@) (tokens_of v)) (lex u)" "valid_utf8 (str_bytes k)"
    if "(k, v) \<in> set ms" "stops u" for k v u
    using 6 that by fastforce+
  then have "lex (separated 0x2C (map (\<lambda>(k, v). print_string k @ [0x3A] @ json_print v) ms) @ 0x7D # t)
      = map_option ((@) (separated TComma (map (\<lambda>(k, v). TStr k # TColon # tokens_of v) ms))) (lex (0x7D # t))"
    by (intro lex_separated) (auto simp: lex_string option.map_comp comp_def append_Cons_fun split: prod.splits)
  then show ?case by (simp add: option.map_comp comp_def)
qed (auto simp: lex_words [simplified] lex_string lex_number cong: map_option_cong)

lemma tokens_of_first: "\<exists>t ts. tokens_of v = t # ts \<and> t \<noteq> TRBrack"
  by (cases v) auto

lemma parse_elements_first: "parse_tokens (MElems, fs) (tokens_of v @ ts) = parse_tokens (MValue, fs) (tokens_of v @ ts)"
  using tokens_of_first [of v] by auto

lemma parse_array:
  assumes "\<And>v fs' ts. v \<in> set vs \<Longrightarrow> length fs' = Suc (length fs) \<Longrightarrow>
      parse_tokens (MValue, fs') (tokens_of v @ ts) = parse_tokens (complete_value v fs') ts"
    and "vs \<noteq> []"
  shows "parse_tokens (MValue, FArr acc # fs) (separated TComma (map tokens_of vs) @ TRBrack # ts) =
    parse_tokens (complete_value (JArr (rev acc @ vs)) fs) ts"
  using assms
proof (induction vs arbitrary: acc rule: induct_list012)
  case (3 x y zs)
  have "parse_tokens (MValue, FArr (x # acc) # fs) (separated TComma (map tokens_of (y # zs)) @ TRBrack # ts) =
      parse_tokens (complete_value (JArr (rev (x # acc) @ y # zs)) fs) ts"
    using 3(2) [of "x # acc"] 3(3) by simp
  then show ?case using 3(3) [of x] by simp
qed simp_all

lemma parse_members:
  assumes "\<And>k v fs' ts. (k, v) \<in> set ms \<Longrightarrow> length fs' = Suc (length fs) \<Longrightarrow>
      parse_tokens (MValue, fs') (tokens_of v @ ts) = parse_tokens (complete_value v fs') ts"
    and "ms \<noteq> []"
  shows "parse_tokens (MKey, FObj acc # fs)
      (separated TComma (map (\<lambda>(k, v). TStr k # TColon # tokens_of v) ms) @ TRBrace # ts) =
    parse_tokens (complete_value (JObj (rev acc @ ms)) fs) ts"
  using assms
proof (induction ms arbitrary: acc rule: induct_list012)
  case (2 m)
  then show ?case by (cases m) simp
next
  case (3 x y zs)
  have "parse_tokens (MKey, FObj (x # acc) # fs)
      (separated TComma (map (\<lambda>(k, v). TStr k # TColon # tokens_of v) (y # zs)) @ TRBrace # ts) =
      parse_tokens (complete_value (JObj (rev (x # acc) @ y # zs)) fs) ts"
    by (rule 3(2)) (use 3(3) in auto)
  then show ?case using 3(3) [of "fst x" "snd x" "FMem acc (fst x) # fs"] by (cases x) simp
qed simp

lemma parse_keys_first:
  assumes "ms \<noteq> []"
  shows "parse_tokens (MKeys, fs) (separated TComma (map (\<lambda>(k, v). TStr k # TColon # f v) ms) @ ts) =
    parse_tokens (MKey, fs) (separated TComma (map (\<lambda>(k, v). TStr k # TColon # f v) ms) @ ts)"
proof (cases ms)
  case (Cons m ms')
  then show ?thesis by (cases m; cases ms') auto
qed (use assms in simp)

lemma parse_value:
  "json_ok (max_nesting - int (length fs)) v \<Longrightarrow>
    parse_tokens (MValue, fs) (tokens_of v @ ts) = parse_tokens (complete_value v fs) ts"
proof (induction v arbitrary: fs ts rule: tokens_of.induct)
  case (5 vs)
  have deep: "int (length fs) < max_nesting" using 5 by simp
  have vals: "parse_tokens (MValue, fs') (tokens_of v @ us) = parse_tokens (complete_value v fs') us"
    if "v \<in> set vs" "length fs' = Suc (length fs)" for v fs' us
  proof (rule 5(1) [OF that(1)])
    have eq: "max_nesting - int (length fs') = max_nesting - int (length fs) - 1" using that(2) by simp
    show "json_ok (max_nesting - int (length fs')) v" unfolding eq using 5(2) that(1) by simp
  qed
  show ?case
  proof (cases vs)
    case Nil
    then show ?thesis using deep by (simp add: open_frame_def)
  next
    case (Cons w ws)
    have "parse_tokens (MElems, FArr [] # fs) (separated TComma (map tokens_of vs) @ TRBrack # ts) =
        parse_tokens (MValue, FArr [] # fs) (separated TComma (map tokens_of vs) @ TRBrack # ts)"
      unfolding Cons by (cases ws) (simp_all add: parse_elements_first)
    also have "\<dots> = parse_tokens (complete_value (JArr (rev [] @ vs)) fs) ts"
      by (rule parse_array [OF vals]) (use Cons in auto)
    finally show ?thesis using deep by (simp add: open_frame_def)
  qed
next
  case (6 ms)
  have deep: "int (length fs) < max_nesting" using 6 by simp
  have vals: "parse_tokens (MValue, fs') (tokens_of v @ us) = parse_tokens (complete_value v fs') us"
    if "(k, v) \<in> set ms" "length fs' = Suc (length fs)" for k v fs' us
  proof (rule 6(1) [OF that(1) refl])
    have eq: "max_nesting - int (length fs') = max_nesting - int (length fs) - 1" using that(2) by simp
    show "json_ok (max_nesting - int (length fs')) v" unfolding eq using 6(2) that(1) by fastforce
  qed
  show ?case
  proof (cases "ms = []")
    case True
    then show ?thesis using deep by (simp add: open_frame_def)
  next
    case False
    have "parse_tokens (MKey, FObj [] # fs)
        (separated TComma (map (\<lambda>(k, v). TStr k # TColon # tokens_of v) ms) @ TRBrace # ts) =
        parse_tokens (complete_value (JObj (rev [] @ ms)) fs) ts"
      by (rule parse_members [OF vals]) (use False in auto)
    then show ?thesis using parse_keys_first [OF False, of "FObj [] # fs" tokens_of] deep by (simp add: open_frame_def)
  qed
qed simp_all

theorem json_roundtrip: "json_ok max_nesting v \<Longrightarrow> json_parse (json_print v) = Some v"
  using lex_print [of max_nesting v "[]"] parse_value [of "[]" v "[]"]
  by (simp add: json_parse_def stops_def lex.simps [of "[]"])

end
