(* ===== verification/Text_Codecs.thy ===== *)
theory Text_Codecs
  imports Json_Text
begin

text \<open>
  What the sources use of \<open>encoding/hex\<close> and \<open>encoding/base64\<close>: the lower-case hexadecimal text of a
  byte slice, and base64 in the standard alphabet with padding (the JSON form of a byte slice) and in
  the URL alphabet without padding. Decoding an encoded slice gives it back.
\<close>

section \<open>Hexadecimal\<close>

definition hex_encode :: "bytes \<Rightarrow> string" where
  "hex_encode bs = bytes_str (concat (map (\<lambda>b. [hex_digit (drop_bit 4 b), hex_digit (b AND 0xF)]) bs))"

fun hex_decode_bytes :: "bytes \<Rightarrow> bytes option" where
  "hex_decode_bytes [] = Some []"
| "hex_decode_bytes [c] = None"
| "hex_decode_bytes (c # d # r) =
     (case (hex_value c, hex_value d, hex_decode_bytes r) of
        (Some x, Some y, Some bs) \<Rightarrow> Some ((push_bit 4 x OR y) # bs)
      | _ \<Rightarrow> None)"

definition hex_decode :: "string \<Rightarrow> bytes option" where
  "hex_decode s = hex_decode_bytes (str_bytes s)"

lemma nibbles_join: "push_bit 4 (drop_bit 4 b) OR (b AND 0xF) = (b :: u8)"
proof (rule bit_word_eqI)
  fix n assume "n < LENGTH(8)"
  moreover have "b AND 0xF = take_bit 4 b" by (simp add: take_bit_eq_mask mask_eq_exp_minus_1)
  ultimately show "bit (push_bit 4 (drop_bit 4 b) OR (b AND 0xF)) n = bit b n"
    by (cases "n < 4") (auto simp: bit_simps simp flip: add_diff_assoc2)
qed

lemma hex_nibbles: "hex_value (hex_digit (drop_bit 4 b)) = Some (drop_bit 4 b)"
    "hex_value (hex_digit (b AND 0xF)) = Some (b AND 0xF)"
  using unat_lt_256 [of b]
  by (auto intro!: hex_value_digit simp: u8_less_nat unat_low_nibble unat_high_nibble)

lemma hex_decode_bytes_encode:
  "hex_decode_bytes (concat (map (\<lambda>b. [hex_digit (drop_bit 4 b), hex_digit (b AND 0xF)]) bs)) = Some bs"
  by (induction bs) (simp_all add: hex_nibbles nibbles_join)

lemma hex_decode_encode [simp]: "hex_decode (hex_encode bs) = Some bs"
  by (simp add: hex_decode_def hex_encode_def str_bytes_bytes_str hex_decode_bytes_encode)

lemma length_hex_encode [simp]: "length (hex_encode bs) = 2 * length bs"
  by (induction bs) (simp_all add: hex_encode_def)

lemma hex_encode_inject [simp]: "hex_encode a = hex_encode b \<longleftrightarrow> a = b"
  by (metis hex_decode_encode option.inject)

section \<open>Base64\<close>

text \<open>The characters for 62 and 63 differ between the two alphabets.\<close>

definition b64_char :: "bool \<Rightarrow> nat \<Rightarrow> u8" where
  "b64_char url n =
     (if n < 26 then 0x41 + word_of_nat n
      else if n < 52 then 0x61 + word_of_nat (n - 26)
      else if n < 62 then 0x30 + word_of_nat (n - 52)
      else if n = 62 then (if url then 0x2D else 0x2B)
      else (if url then 0x5F else 0x2F))"

definition b64_value :: "bool \<Rightarrow> u8 \<Rightarrow> nat option" where
  "b64_value url c =
     (if utf8_cont 0x41 0x5A c then Some (unat (c - 0x41))
      else if utf8_cont 0x61 0x7A c then Some (unat (c - 0x61) + 26)
      else if utf8_cont 0x30 0x39 c then Some (unat (c - 0x30) + 52)
      else if c = (if url then 0x2D else 0x2B) then Some 62
      else if c = (if url then 0x5F else 0x2F) then Some 63
      else None)"

fun b64_encode_bytes :: "bool \<Rightarrow> bytes \<Rightarrow> bytes" where
  "b64_encode_bytes url [] = []"
| "b64_encode_bytes url [a] =
     [b64_char url (unat a div 4), b64_char url (unat a mod 4 * 16)] @ (if url then [] else [0x3D, 0x3D])"
| "b64_encode_bytes url [a, b] =
     [b64_char url (unat a div 4), b64_char url (unat a mod 4 * 16 + unat b div 16), b64_char url (unat b mod 16 * 4)]
     @ (if url then [] else [0x3D])"
| "b64_encode_bytes url (a # b # c # r) =
     b64_char url (unat a div 4) # b64_char url (unat a mod 4 * 16 + unat b div 16)
     # b64_char url (unat b mod 16 * 4 + unat c div 64) # b64_char url (unat c mod 64) # b64_encode_bytes url r"

definition b64_one :: "bool \<Rightarrow> u8 \<Rightarrow> u8 \<Rightarrow> bytes option" where
  "b64_one url p q =
     (case (b64_value url p, b64_value url q) of
        (Some w, Some x) \<Rightarrow> Some [word_of_nat (w * 4 + x div 16)]
      | _ \<Rightarrow> None)"

definition b64_two :: "bool \<Rightarrow> u8 \<Rightarrow> u8 \<Rightarrow> u8 \<Rightarrow> bytes option" where
  "b64_two url p q r =
     (case (b64_value url p, b64_value url q, b64_value url r) of
        (Some w, Some x, Some y) \<Rightarrow> Some [word_of_nat (w * 4 + x div 16), word_of_nat (x mod 16 * 16 + y div 4)]
      | _ \<Rightarrow> None)"

definition b64_three :: "bool \<Rightarrow> u8 \<Rightarrow> u8 \<Rightarrow> u8 \<Rightarrow> u8 \<Rightarrow> bytes option" where
  "b64_three url p q r s =
     (case (b64_value url p, b64_value url q, b64_value url r, b64_value url s) of
        (Some w, Some x, Some y, Some z) \<Rightarrow>
          Some [word_of_nat (w * 4 + x div 16), word_of_nat (x mod 16 * 16 + y div 4), word_of_nat (y mod 4 * 64 + z)]
      | _ \<Rightarrow> None)"

text \<open>Quanta of four characters; only the last one may be padded (or, without padding, shorter).\<close>

fun b64_decode_bytes :: "bool \<Rightarrow> bytes \<Rightarrow> bytes option" where
  "b64_decode_bytes url [] = Some []"
| "b64_decode_bytes url [p] = None"
| "b64_decode_bytes url [p, q] = (if url then b64_one url p q else None)"
| "b64_decode_bytes url [p, q, r] = (if url then b64_two url p q r else None)"
| "b64_decode_bytes url (p # q # r # s # t) =
     (if \<not> url \<and> t = [] \<and> s = 0x3D
      then (if r = 0x3D then b64_one url p q else b64_two url p q r)
      else (case (b64_three url p q r s, b64_decode_bytes url t) of
              (Some xs, Some ys) \<Rightarrow> Some (xs @ ys)
            | _ \<Rightarrow> None))"

text \<open>The decoders skip carriage returns and line feeds.\<close>

definition b64_decode :: "bool \<Rightarrow> string \<Rightarrow> bytes option" where
  "b64_decode url s = b64_decode_bytes url (filter (\<lambda>c. c \<noteq> 0x0D \<and> c \<noteq> 0x0A) (str_bytes s))"

definition b64_encode :: "bool \<Rightarrow> bytes \<Rightarrow> string" where
  "b64_encode url bs = bytes_str (b64_encode_bytes url bs)"

definition b64_sound :: "bool \<Rightarrow> nat \<Rightarrow> bool" where
  "b64_sound url n \<longleftrightarrow> b64_value url (b64_char url n) = Some n \<and> b64_char url n \<noteq> 0x3D \<and>
     b64_char url n \<noteq> 0x0D \<and> b64_char url n \<noteq> 0x0A \<and> b64_char url n < 0x80"

lemma b64_sound: "n < 64 \<Longrightarrow> b64_sound url n"
proof -
  have "list_all (b64_sound True) [0..<64]" "list_all (b64_sound False) [0..<64]" by code_simp+
  then show "n < 64 \<Longrightarrow> b64_sound url n" by (cases url) (simp_all add: list_all_iff)
qed

lemma b64_char_value [simp]:
  assumes "n < 64"
  shows "b64_value url (b64_char url n) = Some n" and "b64_char url n \<noteq> 0x3D" and "b64_char url n \<noteq> 0x0D"
    and "b64_char url n \<noteq> 0x0A" and "b64_char url n < 0x80"
  using b64_sound [OF assms, of url] by (simp_all add: b64_sound_def)

lemma b64_indices [simp]:
  fixes a b c :: u8
  shows "unat a div 4 < 64" and "unat a mod 4 * 16 < 64" and "unat a mod 4 * 16 + unat b div 16 < 64"
    and "unat b mod 16 * 4 < 64" and "unat b mod 16 * 4 + unat c div 64 < 64"
proof -
  have m: "unat a mod 4 < 4" "unat b mod 16 < 16" by simp_all
  have d: "unat a div 4 < 64" "unat b div 16 < 16" "unat c div 64 < 4"
    using unat_lt_256 [of a] unat_lt_256 [of b] unat_lt_256 [of c] by (simp_all add: less_mult_imp_div_less)
  show "unat a div 4 < 64" "unat a mod 4 * 16 < 64" "unat a mod 4 * 16 + unat b div 16 < 64"
    "unat b mod 16 * 4 < 64" "unat b mod 16 * 4 + unat c div 64 < 64"
    using m d by linarith+
qed

lemma b64_bounds [simp]: "unat (b :: u8) div 16 < 16" "unat (b :: u8) div 64 < 4"
  using unat_lt_256 [of b] by (simp_all add: less_mult_imp_div_less)

lemma b64_decode_bytes_encode: "b64_decode_bytes url (b64_encode_bytes url bs) = Some bs"
  by (induction url bs rule: b64_encode_bytes.induct)
    (simp_all add: b64_one_def b64_two_def b64_three_def div_less mod_less del: of_nat_add of_nat_mult)

lemma b64_encode_plain: "c \<in> set (b64_encode_bytes url bs) \<Longrightarrow> c \<noteq> 0x0D \<and> c \<noteq> 0x0A \<and> c < 0x80"
  by (induction url bs rule: b64_encode_bytes.induct) (auto split: if_splits)

lemma b64_decode_encode [simp]: "b64_decode url (b64_encode url bs) = Some bs"
proof -
  have "filter (\<lambda>c. c \<noteq> 0x0D \<and> c \<noteq> 0x0A) (b64_encode_bytes url bs) = b64_encode_bytes url bs"
    using b64_encode_plain by (auto simp: filter_id_conv)
  then show ?thesis by (simp add: b64_decode_def b64_encode_def str_bytes_bytes_str b64_decode_bytes_encode)
qed

end
