(* ===== verification/Json_Struct.thy ===== *)
theory Json_Struct
  imports Json Text_Codecs
begin

text \<open>
  How \<open>encoding/json\<close> maps JSON values to Go values and back: numbers, strings, booleans, slices,
  arrays, byte slices, pointers and structs with their field names. A decoder takes the value that is
  already in the variable, because \<open>null\<close> and absent members keep it and a repeated member decodes
  into what the first one left. The locale \<open>json_codec\<close> is the contract of an encoder and a decoder.
\<close>

section \<open>Decimal numbers\<close>

declare show_nat.simps [simp del]

lemma is_digit_small: "n < 10 \<Longrightarrow> is_digit (0x30 + word_of_nat n) \<and> unat (0x30 + word_of_nat n - 0x30 :: u8) = n \<and>
    (0x30 + word_of_nat n = (0x30 :: u8) \<longrightarrow> n = 0)"
proof -
  have "list_all (\<lambda>n. is_digit (0x30 + word_of_nat n) \<and> unat (0x30 + word_of_nat n - 0x30 :: u8) = n \<and>
      (0x30 + word_of_nat n = (0x30 :: u8) \<longrightarrow> n = 0)) [0..<10]" by code_simp
  then show "n < 10 \<Longrightarrow> ?thesis" by (simp add: list_all_iff)
qed

lemma show_nat_nonempty: "show_nat n \<noteq> []"
  by (subst show_nat.simps) simp

lemma show_nat_digits: "list_all is_digit (show_nat n)"
proof (induction n rule: show_nat.induct)
  case (1 n)
  then show ?case using is_digit_small [of n] is_digit_small [of "n mod 10"] by (subst show_nat.simps) auto
qed

lemma read_digits_snoc: "read_digits (bs @ [c]) = 10 * read_digits bs + unat (c - 0x30)"
  by (simp add: read_digits_def)

lemma read_digits_show [simp]: "read_digits (show_nat n) = n"
proof (induction n rule: show_nat.induct)
  case (1 n)
  show ?case
  proof (cases "n < 10")
    case True
    then show ?thesis using is_digit_small [of n] by (subst show_nat.simps) (simp add: read_digits_def)
  next
    case False
    then show ?thesis using 1 is_digit_small [of "n mod 10"] by (subst show_nat.simps) (simp add: read_digits_snoc)
  qed
qed

lemma show_nat_leading: "n \<noteq> 0 \<Longrightarrow> hd (show_nat n) \<noteq> 0x30"
proof (induction n rule: show_nat.induct)
  case (1 n)
  show ?case
  proof (cases "n < 10")
    case True
    then show ?thesis using is_digit_small [of n] 1(2) by (subst show_nat.simps) auto
  next
    case False
    then have "hd (show_nat (n div 10)) \<noteq> 0x30" using 1 by simp
    then show ?thesis using False show_nat_nonempty by (subst show_nat.simps) simp
  qed
qed

lemma show_nat_0: "show_nat 0 = [0x30]"
  by (simp add: show_nat.simps)

lemma takeWhile_digits: "list_all is_digit bs \<Longrightarrow> takeWhile is_digit bs = bs \<and> dropWhile is_digit bs = []"
  by (simp add: list_all_iff takeWhile_eq_all_conv dropWhile_eq_Nil_conv)

lemma number_ok_digits: "list_all is_digit bs \<Longrightarrow> bs \<noteq> [] \<Longrightarrow> (hd bs = 0x30 \<longrightarrow> length bs = 1) \<Longrightarrow>
    number_ok bs \<and> number_ok (0x2D # bs)"
  by (cases bs) (auto simp: number_ok_def Let_def takeWhile_digits fraction_ok_def is_digit_def utf8_cont_def)

lemma number_ok_show: "number_ok (show_nat n) \<and> number_ok (0x2D # show_nat n)"
  using show_nat_digits [of n] show_nat_nonempty [of n] show_nat_leading [of n] number_ok_digits
  by (cases "n = 0") (auto simp: show_nat_0)

lemma number_chars_show: "list_all number_char (show_nat n)"
  using show_nat_digits [of n] by (auto simp: list_all_iff number_char_def)

lemma parse_uint_show: "n < 2 ^ w \<Longrightarrow> parse_uint w (show_nat n) = Some n"
  by (simp add: parse_uint_def show_nat_digits show_nat_nonempty)

lemma parse_int_digits:
  "list_all is_digit bs \<Longrightarrow> bs \<noteq> [] \<Longrightarrow> read_digits bs < 2 ^ (w - 1) \<Longrightarrow> parse_int w bs = Some (int (read_digits bs))"
  by (cases bs) (auto simp: parse_int_def is_digit_def utf8_cont_def)

lemma parse_int_show:
  assumes "- (2 ^ (w - 1)) \<le> i" and "i < 2 ^ (w - 1)"
  shows "parse_int w (show_int i) = Some i"
proof (cases "i < 0")
  case True
  then have "nat (- i) \<le> 2 ^ (w - 1)" using assms by (simp add: nat_le_iff)
  then show ?thesis using True show_nat_digits show_nat_nonempty by (simp add: show_int_def parse_int_def)
next
  case False
  then have "nat i < 2 ^ (w - 1)" using assms by (simp add: nat_less_iff)
  then show ?thesis
    using False parse_int_digits [OF show_nat_digits show_nat_nonempty, of "nat i" w] by (simp add: show_int_def)
qed

section \<open>Simple values\<close>

definition json_word :: "'a::len word \<Rightarrow> json" where "json_word x = JNum (show_nat (unat x))"

definition decode_word :: "json \<Rightarrow> 'a::len word \<Rightarrow> 'a word option" where
  "decode_word j old =
     (case j of JNull \<Rightarrow> Some old | JNum b \<Rightarrow> map_option word_of_nat (parse_uint LENGTH('a) b) | _ \<Rightarrow> None)"

definition json_i64 :: "64 word \<Rightarrow> json" where "json_i64 x = JNum (show_int (sint x))"

definition decode_i64 :: "json \<Rightarrow> 64 word \<Rightarrow> 64 word option" where
  "decode_i64 j old =
     (case j of JNull \<Rightarrow> Some old | JNum b \<Rightarrow> map_option word_of_int (parse_int 64 b) | _ \<Rightarrow> None)"

definition decode_string :: "json \<Rightarrow> string \<Rightarrow> string option" where
  "decode_string j old = (case j of JNull \<Rightarrow> Some old | JStr s \<Rightarrow> Some s | _ \<Rightarrow> None)"

definition decode_bool :: "json \<Rightarrow> bool \<Rightarrow> bool option" where
  "decode_bool j old = (case j of JNull \<Rightarrow> Some old | JBool b \<Rightarrow> Some b | _ \<Rightarrow> None)"

section \<open>Slices, arrays, pointers\<close>

text \<open>
  A slice that is not nil is its elements and the stale elements beyond its length that a later,
  longer array member would decode into.
\<close>

type_synonym 'a slice = "('a list \<times> 'a list) option"

definition elements :: "'a slice \<Rightarrow> 'a list" where
  "elements s = (case s of None \<Rightarrow> [] | Some (xs, stale) \<Rightarrow> xs)"

text \<open>What \<open>append([]T(nil), xs...)\<close> gives: nil when there is nothing to append.\<close>

definition slice_of :: "'a list \<Rightarrow> 'a slice" where
  "slice_of xs = (if xs = [] then None else Some (xs, []))"

text \<open>What \<open>make([]T, n)\<close> gives.\<close>

definition made_slice :: "'a list \<Rightarrow> 'a slice" where "made_slice xs = Some (xs, [])"

lemma elements_slice [simp]: "elements (slice_of xs) = xs" "elements (made_slice xs) = xs"
  by (simp_all add: elements_def slice_of_def made_slice_def)

definition json_slice :: "('a \<Rightarrow> json) \<Rightarrow> 'a slice \<Rightarrow> json" where
  "json_slice enc s = (case s of None \<Rightarrow> JNull | Some (xs, stale) \<Rightarrow> JArr (map enc xs))"

fun decode_elements :: "(json \<Rightarrow> 'a \<Rightarrow> 'a option) \<Rightarrow> 'a \<Rightarrow> json list \<Rightarrow> 'a list \<Rightarrow> 'a list option" where
  "decode_elements d zero [] olds = Some []"
| "decode_elements d zero (v # vs) olds =
     (case d v (case olds of [] \<Rightarrow> zero | x # _ \<Rightarrow> x) of
        None \<Rightarrow> None
      | Some x \<Rightarrow> map_option ((#) x) (decode_elements d zero vs (tl olds)))"

definition decode_slice :: "(json \<Rightarrow> 'a \<Rightarrow> 'a option) \<Rightarrow> 'a \<Rightarrow> json \<Rightarrow> 'a slice \<Rightarrow> 'a slice option" where
  "decode_slice d zero j old =
     (case j of
        JNull \<Rightarrow> Some None
      | JArr [] \<Rightarrow> Some (Some ([], []))
      | JArr vs \<Rightarrow>
          (let olds = (case old of None \<Rightarrow> [] | Some (xs, stale) \<Rightarrow> xs @ stale)
           in map_option (\<lambda>xs. Some (xs, drop (length vs) olds)) (decode_elements d zero vs olds))
      | _ \<Rightarrow> None)"

text \<open>A fixed array: elements beyond it are skipped, missing ones are zeroed.\<close>

definition decode_array :: "(json \<Rightarrow> 'a \<Rightarrow> 'a option) \<Rightarrow> 'a \<Rightarrow> json \<Rightarrow> 'a list \<Rightarrow> 'a list option" where
  "decode_array d zero j old =
     (case j of
        JNull \<Rightarrow> Some old
      | JArr vs \<Rightarrow>
          map_option (\<lambda>xs. xs @ replicate (length old - length xs) zero) (decode_elements d zero (take (length old) vs) old)
      | _ \<Rightarrow> None)"

text \<open>A slice of bytes is base64 text; an array of numbers is read as well.\<close>

definition json_bytes :: "u8 slice \<Rightarrow> json" where
  "json_bytes s = (case s of None \<Rightarrow> JNull | Some (xs, stale) \<Rightarrow> JStr (b64_encode False xs))"

definition decode_bytes :: "json \<Rightarrow> u8 slice \<Rightarrow> u8 slice option" where
  "decode_bytes j old =
     (case j of
        JStr s \<Rightarrow> map_option (\<lambda>bs. Some (bs, [])) (b64_decode False s)
      | _ \<Rightarrow> decode_slice decode_word 0 j old)"

definition json_pointer :: "('a \<Rightarrow> json) \<Rightarrow> 'a option \<Rightarrow> json" where
  "json_pointer enc p = (case p of None \<Rightarrow> JNull | Some x \<Rightarrow> enc x)"

definition decode_pointer :: "(json \<Rightarrow> 'a \<Rightarrow> 'a option) \<Rightarrow> 'a \<Rightarrow> json \<Rightarrow> 'a option \<Rightarrow> 'a option option" where
  "decode_pointer d zero j old =
     (if j = JNull then Some None
      else map_option Some (d j (case old of None \<Rightarrow> zero | Some x \<Rightarrow> x)))"

section \<open>Structs\<close>

text \<open>
  Member names match field names exactly or up to case: \<open>fold_name\<close> maps ASCII letters to upper case
  and the two other code points that fold to an ASCII letter (the long s, the Kelvin sign).
\<close>

definition upper_char :: "char \<Rightarrow> char" where
  "upper_char c = (let n = (of_char c :: nat) in if 97 \<le> n \<and> n \<le> 122 then char_of (n - 32) else c)"

function fold_name :: "string \<Rightarrow> string" where
  "fold_name s =
     (case s of
        [] \<Rightarrow> []
      | c # r \<Rightarrow>
          if take 2 s = [CHR 0xC5, CHR 0xBF] then CHR ''S'' # fold_name (drop 2 s)
          else if take 3 s = [CHR 0xE2, CHR 0x84, CHR 0xAA] then CHR ''K'' # fold_name (drop 3 s)
          else upper_char c # fold_name r)"
  by pat_completeness auto
termination
  by (relation "measure length") auto

declare fold_name.simps [simp del]

type_synonym 'r field = "string \<times> (json \<Rightarrow> 'r \<Rightarrow> 'r option)"

definition find_field :: "'r field list \<Rightarrow> string \<Rightarrow> (json \<Rightarrow> 'r \<Rightarrow> 'r option) option" where
  "find_field fds k =
     (case map_of fds k of
        Some d \<Rightarrow> Some d
      | None \<Rightarrow> map_of (map (apfst fold_name) fds) (fold_name k))"

fun decode_members :: "'r field list \<Rightarrow> bool \<Rightarrow> (string \<times> json) list \<Rightarrow> 'r \<Rightarrow> 'r option" where
  "decode_members fds strict [] r = Some r"
| "decode_members fds strict ((k, v) # ms) r =
     (case find_field fds k of
        None \<Rightarrow> if strict then None else decode_members fds strict ms r
      | Some d \<Rightarrow> (case d v r of None \<Rightarrow> None | Some r' \<Rightarrow> decode_members fds strict ms r'))"

definition decode_struct :: "'r field list \<Rightarrow> bool \<Rightarrow> json \<Rightarrow> 'r \<Rightarrow> 'r option" where
  "decode_struct fds strict j r =
     (case j of JNull \<Rightarrow> Some r | JObj ms \<Rightarrow> decode_members fds strict ms r | _ \<Rightarrow> None)"

text \<open>A field decoder: a getter, a setter and a decoder for the field's type.\<close>

definition field :: "string \<Rightarrow> (json \<Rightarrow> 'a \<Rightarrow> 'a option) \<Rightarrow> ('r \<Rightarrow> 'a) \<Rightarrow> ('a \<Rightarrow> 'r \<Rightarrow> 'r) \<Rightarrow> 'r field" where
  "field name d get put = (name, \<lambda>j r. map_option (\<lambda>x. put x r) (d j (get r)))"

text \<open>A member to write, unless it is empty and tagged \<open>omitempty\<close>.\<close>

definition member :: "string \<Rightarrow> json \<Rightarrow> (string \<times> json) list" where "member name j = [(name, j)]"

definition member_unless :: "bool \<Rightarrow> string \<Rightarrow> json \<Rightarrow> (string \<times> json) list" where
  "member_unless absent name j = (if absent then [] else [(name, j)])"

section \<open>Encoders and decoders that fit\<close>

locale json_codec =
  fixes enc :: "'a \<Rightarrow> json" and dec :: "json \<Rightarrow> 'a \<Rightarrow> 'a option" and zero :: 'a and ok :: "'a \<Rightarrow> bool"
    and depth :: int
  assumes dec_enc: "ok x \<Longrightarrow> dec (enc x) zero = Some x"
    and enc_json: "ok x \<Longrightarrow> json_ok depth (enc x)"
begin

lemma decode_elements_enc: "list_all ok xs \<Longrightarrow> set olds \<subseteq> {zero} \<Longrightarrow> decode_elements dec zero (map enc xs) olds = Some xs"
proof (induction xs arbitrary: olds)
  case (Cons x xs)
  have "(case olds of [] \<Rightarrow> zero | y # _ \<Rightarrow> y) = zero" "set (tl olds) \<subseteq> {zero}"
    using Cons.prems(2) by (cases olds; auto)+
  then show ?case using Cons by (simp add: dec_enc)
qed simp

lemma slice_codec:
  assumes "list_all ok (elements s)" and "s = None \<or> s = Some (elements s, [])"
  shows "decode_slice dec zero (json_slice enc s) None = Some s"
  using assms decode_elements_enc [of "elements s" "[]"]
  by (cases "elements s") (auto simp: decode_slice_def json_slice_def)

lemma array_codec:
  "list_all ok xs \<Longrightarrow> length xs = n \<Longrightarrow> decode_array dec zero (JArr (map enc xs)) (replicate n zero) = Some xs"
  using decode_elements_enc [of xs "replicate n zero"] by (simp add: decode_array_def set_replicate_conv_if)

lemma pointer_codec: "list_all ok (case p of None \<Rightarrow> [] | Some x \<Rightarrow> [x]) \<Longrightarrow> (\<And>x. enc x \<noteq> JNull) \<Longrightarrow>
    decode_pointer dec zero (json_pointer enc p) None = Some p"
  by (cases p) (simp_all add: decode_pointer_def json_pointer_def dec_enc)

end

interpretation word_codec: json_codec json_word decode_word 0 "\<lambda>_. True" 0
  by unfold_locales
    (simp_all add: json_word_def decode_word_def parse_uint_show number_ok_show number_chars_show)

interpretation string_codec: json_codec JStr decode_string "[]" "\<lambda>s. valid_utf8 (str_bytes s)" 0
  by unfold_locales (simp_all add: decode_string_def)

interpretation bool_codec: json_codec JBool decode_bool False "\<lambda>_. True" 0
  by unfold_locales (simp_all add: decode_bool_def)

interpretation i64_codec: json_codec json_i64 decode_i64 0 "\<lambda>_. True" 0
proof
  fix x :: "64 word"
  show "decode_i64 (json_i64 x) 0 = Some x"
    using parse_int_show [of 64 "sint x"] sint_greater_eq [of x] sint_less [of x]
    by (simp add: decode_i64_def json_i64_def)
  show "json_ok 0 (json_i64 x)"
    using number_ok_show number_chars_show by (simp add: json_i64_def show_int_def number_char_def)
qed

end
