(* ===== verification/Live_Wire.thy ===== *)
theory Live_Wire
  imports Json_Struct Settlement
begin

text \<open>
  The JSON forms of the values a live hand exchanges and archives (\<open>livehand/game.go\<close> and the tags of
  \<open>bidding.Snapshot\<close>, \<open>playing.Snapshot\<close>, \<open>playing.Pattern\<close>, \<open>settlement.Result\<close>): an encoder and the field
  table of its decoder for each struct. The wire records keep what a Go slice distinguishes and a list
  does not (nil or empty), because the verifier compares with \<open>reflect.DeepEqual\<close>.
\<close>

section \<open>Bidding\<close>

definition json_bid :: "bid \<Rightarrow> json" where
  "json_bid b = JObj (member ''position'' (json_word (bid_position b)) @ member ''score'' (json_word (bid_score b)))"

definition bid_fields :: "bid field list" where
  "bid_fields =
     [field ''position'' decode_word bid_position (\<lambda>x. bid_position_update (\<lambda>_. x)),
      field ''score'' decode_word bid_score (\<lambda>x. bid_score_update (\<lambda>_. x))]"

definition zero_bid :: bid where "zero_bid = \<lparr>bid_position = 0, bid_score = 0\<rparr>"

record bidding_wire =
  bw_version :: string
  bw_first :: u8
  bw_current :: u8
  bw_highest_score :: score
  bw_highest_bidder :: u8
  bw_actions :: "bid slice"
  bw_complete :: bool
  bw_no_landlord :: bool
  bw_landlord :: u8

text \<open>\<open>Snapshot\<close> makes its actions with \<open>make\<close>, so they are never nil.\<close>

definition bidding_wire_of :: "bid_snapshot \<Rightarrow> bidding_wire" where
  "bidding_wire_of s =
     \<lparr>bw_version = bs_version s, bw_first = bs_first s, bw_current = bs_current s,
      bw_highest_score = bs_highest_score s, bw_highest_bidder = bs_highest_bidder s,
      bw_actions = made_slice (bs_actions s), bw_complete = bs_complete s,
      bw_no_landlord = bs_no_landlord s, bw_landlord = bs_landlord s\<rparr>"

definition json_bidding :: "bidding_wire \<Rightarrow> json" where
  "json_bidding b = JObj
     (member ''v'' (JStr (bw_version b)) @ member ''firstBidder'' (json_word (bw_first b))
      @ member ''currentBidder'' (json_word (bw_current b))
      @ member ''highestScore'' (json_word (bw_highest_score b))
      @ member ''highestBidder'' (json_word (bw_highest_bidder b))
      @ member ''actions'' (json_slice json_bid (bw_actions b)) @ member ''complete'' (JBool (bw_complete b))
      @ member ''noLandlord'' (JBool (bw_no_landlord b)) @ member ''landlord'' (json_word (bw_landlord b)))"

definition bidding_fields :: "bidding_wire field list" where
  "bidding_fields =
     [field ''v'' decode_string bw_version (\<lambda>x. bw_version_update (\<lambda>_. x)),
      field ''firstBidder'' decode_word bw_first (\<lambda>x. bw_first_update (\<lambda>_. x)),
      field ''currentBidder'' decode_word bw_current (\<lambda>x. bw_current_update (\<lambda>_. x)),
      field ''highestScore'' decode_word bw_highest_score (\<lambda>x. bw_highest_score_update (\<lambda>_. x)),
      field ''highestBidder'' decode_word bw_highest_bidder (\<lambda>x. bw_highest_bidder_update (\<lambda>_. x)),
      field ''actions'' (decode_slice (decode_struct bid_fields True) zero_bid) bw_actions (\<lambda>x. bw_actions_update (\<lambda>_. x)),
      field ''complete'' decode_bool bw_complete (\<lambda>x. bw_complete_update (\<lambda>_. x)),
      field ''noLandlord'' decode_bool bw_no_landlord (\<lambda>x. bw_no_landlord_update (\<lambda>_. x)),
      field ''landlord'' decode_word bw_landlord (\<lambda>x. bw_landlord_update (\<lambda>_. x))]"

definition zero_bidding :: bidding_wire where
  "zero_bidding = \<lparr>bw_version = '''', bw_first = 0, bw_current = 0, bw_highest_score = 0, bw_highest_bidder = 0,
     bw_actions = None, bw_complete = False, bw_no_landlord = False, bw_landlord = 0\<rparr>"

section \<open>Playing\<close>

fun kind_text :: "kind \<Rightarrow> string" where
  "kind_text KindSingle = ''SINGLE''"
| "kind_text KindPair = ''PAIR''"
| "kind_text KindTriple = ''TRIPLE''"
| "kind_text KindTripleWithSingle = ''TRIPLE_WITH_SINGLE''"
| "kind_text KindTripleWithPair = ''TRIPLE_WITH_PAIR''"
| "kind_text KindStraight = ''STRAIGHT''"
| "kind_text KindConsecutivePairs = ''CONSECUTIVE_PAIRS''"
| "kind_text KindAirplane = ''AIRPLANE''"
| "kind_text KindAirplaneWithSingles = ''AIRPLANE_WITH_SINGLES''"
| "kind_text KindAirplaneWithPairs = ''AIRPLANE_WITH_PAIRS''"
| "kind_text KindFourWithTwoSingles = ''FOUR_WITH_TWO_SINGLES''"
| "kind_text KindFourWithTwoPairs = ''FOUR_WITH_TWO_PAIRS''"
| "kind_text KindBomb = ''BOMB''"
| "kind_text KindRocket = ''ROCKET''"
| "kind_text (KindUnknown s) = s"

definition known_kinds :: "kind list" where
  "known_kinds = [KindSingle, KindPair, KindTriple, KindTripleWithSingle, KindTripleWithPair, KindStraight,
     KindConsecutivePairs, KindAirplane, KindAirplaneWithSingles, KindAirplaneWithPairs,
     KindFourWithTwoSingles, KindFourWithTwoPairs, KindBomb, KindRocket]"

definition kind_of_text :: "string \<Rightarrow> kind" where
  "kind_of_text s = (case map_of (map (\<lambda>k. (kind_text k, k)) known_kinds) s of Some k \<Rightarrow> k | None \<Rightarrow> KindUnknown s)"

fun action_text :: "action_type \<Rightarrow> string" where
  "action_text ActionPlay = ''PLAY''"
| "action_text ActionPass = ''PASS''"
| "action_text (ActionOther s) = s"

definition action_of_text :: "string \<Rightarrow> action_type" where
  "action_of_text s = (if s = ''PLAY'' then ActionPlay else if s = ''PASS'' then ActionPass else ActionOther s)"

definition decode_kind :: "json \<Rightarrow> kind \<Rightarrow> kind option" where
  "decode_kind j old = map_option kind_of_text (decode_string j (kind_text old))"

definition decode_action_type :: "json \<Rightarrow> action_type \<Rightarrow> action_type option" where
  "decode_action_type j old = map_option action_of_text (decode_string j (action_text old))"

definition json_pattern :: "pattern \<Rightarrow> json" where
  "json_pattern p = JObj
     (member ''v'' (JStr (pat_version p)) @ member ''kind'' (JStr (kind_text (pat_kind p)))
      @ member ''mainRank'' (json_word (pat_main p)) @ member ''sequenceLength'' (json_word (pat_seqlen p))
      @ member ''cardCount'' (json_word (pat_cards p)))"

definition pattern_fields :: "pattern field list" where
  "pattern_fields =
     [field ''v'' decode_string pat_version (\<lambda>x. pat_version_update (\<lambda>_. x)),
      field ''kind'' decode_kind pat_kind (\<lambda>x. pat_kind_update (\<lambda>_. x)),
      field ''mainRank'' decode_word pat_main (\<lambda>x. pat_main_update (\<lambda>_. x)),
      field ''sequenceLength'' decode_word pat_seqlen (\<lambda>x. pat_seqlen_update (\<lambda>_. x)),
      field ''cardCount'' decode_word pat_cards (\<lambda>x. pat_cards_update (\<lambda>_. x))]"

definition zero_pattern :: pattern where
  "zero_pattern = \<lparr>pat_version = '''', pat_kind = KindUnknown '''', pat_main = 0, pat_seqlen = 0, pat_cards = 0\<rparr>"

record action_wire =
  aw_number :: u64
  aw_type :: action_type
  aw_seat :: u8
  aw_cards :: "card slice"
  aw_pattern :: "pattern option"

definition action_wire_of :: "action \<Rightarrow> action_wire" where
  "action_wire_of a = \<lparr>aw_number = act_number a, aw_type = act_type a, aw_seat = act_seat a,
     aw_cards = slice_of (act_cards a), aw_pattern = act_pattern a\<rparr>"

definition json_action :: "action_wire \<Rightarrow> json" where
  "json_action a = JObj
     (member ''number'' (json_word (aw_number a)) @ member ''type'' (JStr (action_text (aw_type a)))
      @ member ''seat'' (json_word (aw_seat a))
      @ member_unless (elements (aw_cards a) = []) ''cards'' (json_bytes (aw_cards a))
      @ member_unless (aw_pattern a = None) ''pattern'' (json_pointer json_pattern (aw_pattern a)))"

definition action_fields :: "action_wire field list" where
  "action_fields =
     [field ''number'' decode_word aw_number (\<lambda>x. aw_number_update (\<lambda>_. x)),
      field ''type'' decode_action_type aw_type (\<lambda>x. aw_type_update (\<lambda>_. x)),
      field ''seat'' decode_word aw_seat (\<lambda>x. aw_seat_update (\<lambda>_. x)),
      field ''cards'' decode_bytes aw_cards (\<lambda>x. aw_cards_update (\<lambda>_. x)),
      field ''pattern'' (decode_pointer (decode_struct pattern_fields True) zero_pattern) aw_pattern
        (\<lambda>x. aw_pattern_update (\<lambda>_. x))]"

definition zero_action :: action_wire where
  "zero_action = \<lparr>aw_number = 0, aw_type = ActionOther '''', aw_seat = 0, aw_cards = None, aw_pattern = None\<rparr>"

record playing_wire =
  pw_version :: string
  pw_revision :: u64
  pw_current :: u8
  pw_leading_seat :: u8
  pw_leading_cards :: "card slice"
  pw_leading_pattern :: "pattern option"
  pw_pass_count :: u8
  pw_complete :: bool
  pw_winner :: u8
  pw_history :: "action_wire slice"

text \<open>The history is made with \<open>make\<close>, so it is never nil.\<close>

definition playing_wire_of :: "pl_snapshot \<Rightarrow> playing_wire" where
  "playing_wire_of s =
     \<lparr>pw_version = ps_version s, pw_revision = ps_revision s, pw_current = ps_current s,
      pw_leading_seat = ps_leading_seat s, pw_leading_cards = slice_of (ps_leading_cards s),
      pw_leading_pattern = ps_leading_pattern s, pw_pass_count = ps_pass_count s,
      pw_complete = ps_complete s, pw_winner = ps_winner s,
      pw_history = made_slice (map action_wire_of (ps_history s))\<rparr>"

definition json_playing :: "playing_wire \<Rightarrow> json" where
  "json_playing p = JObj
     (member ''v'' (JStr (pw_version p)) @ member ''revision'' (json_word (pw_revision p))
      @ member_unless (pw_current p = 0) ''currentSeat'' (json_word (pw_current p))
      @ member_unless (pw_leading_seat p = 0) ''leadingSeat'' (json_word (pw_leading_seat p))
      @ member_unless (elements (pw_leading_cards p) = []) ''leadingCards'' (json_bytes (pw_leading_cards p))
      @ member_unless (pw_leading_pattern p = None) ''leadingPattern'' (json_pointer json_pattern (pw_leading_pattern p))
      @ member ''passCount'' (json_word (pw_pass_count p)) @ member ''complete'' (JBool (pw_complete p))
      @ member_unless (pw_winner p = 0) ''winnerSeat'' (json_word (pw_winner p))
      @ member ''history'' (json_slice json_action (pw_history p)))"

definition playing_fields :: "playing_wire field list" where
  "playing_fields =
     [field ''v'' decode_string pw_version (\<lambda>x. pw_version_update (\<lambda>_. x)),
      field ''revision'' decode_word pw_revision (\<lambda>x. pw_revision_update (\<lambda>_. x)),
      field ''currentSeat'' decode_word pw_current (\<lambda>x. pw_current_update (\<lambda>_. x)),
      field ''leadingSeat'' decode_word pw_leading_seat (\<lambda>x. pw_leading_seat_update (\<lambda>_. x)),
      field ''leadingCards'' decode_bytes pw_leading_cards (\<lambda>x. pw_leading_cards_update (\<lambda>_. x)),
      field ''leadingPattern'' (decode_pointer (decode_struct pattern_fields True) zero_pattern) pw_leading_pattern
        (\<lambda>x. pw_leading_pattern_update (\<lambda>_. x)),
      field ''passCount'' decode_word pw_pass_count (\<lambda>x. pw_pass_count_update (\<lambda>_. x)),
      field ''complete'' decode_bool pw_complete (\<lambda>x. pw_complete_update (\<lambda>_. x)),
      field ''winnerSeat'' decode_word pw_winner (\<lambda>x. pw_winner_update (\<lambda>_. x)),
      field ''history'' (decode_slice (decode_struct action_fields True) zero_action) pw_history
        (\<lambda>x. pw_history_update (\<lambda>_. x))]"

definition zero_playing :: playing_wire where
  "zero_playing = \<lparr>pw_version = '''', pw_revision = 0, pw_current = 0, pw_leading_seat = 0, pw_leading_cards = None,
     pw_leading_pattern = None, pw_pass_count = 0, pw_complete = False, pw_winner = 0, pw_history = None\<rparr>"

section \<open>Settlement\<close>

definition json_settlement :: "settlement_result \<Rightarrow> json" where
  "json_settlement s = JObj
     (member ''v'' (JStr (res_version s)) @ member ''landlordSeat'' (json_word (res_landlord s))
      @ member ''winnerSeat'' (json_word (res_winner s)) @ member ''landlordWon'' (JBool (res_landlord_won s))
      @ member ''baseScore'' (json_word (res_base s)) @ member ''bombCount'' (json_word (res_bombs s))
      @ member ''rocketCount'' (json_word (res_rockets s)) @ member ''spring'' (JBool (res_spring s))
      @ member ''antiSpring'' (JBool (res_anti_spring s)) @ member ''multiplier'' (json_word (res_multiplier s))
      @ member ''finalStake'' (json_word (res_stake s))
      @ member ''seatPoints'' (JArr (map json_i64 (res_points s))))"

definition settlement_fields :: "settlement_result field list" where
  "settlement_fields =
     [field ''v'' decode_string res_version (\<lambda>x. res_version_update (\<lambda>_. x)),
      field ''landlordSeat'' decode_word res_landlord (\<lambda>x. res_landlord_update (\<lambda>_. x)),
      field ''winnerSeat'' decode_word res_winner (\<lambda>x. res_winner_update (\<lambda>_. x)),
      field ''landlordWon'' decode_bool res_landlord_won (\<lambda>x. res_landlord_won_update (\<lambda>_. x)),
      field ''baseScore'' decode_word res_base (\<lambda>x. res_base_update (\<lambda>_. x)),
      field ''bombCount'' decode_word res_bombs (\<lambda>x. res_bombs_update (\<lambda>_. x)),
      field ''rocketCount'' decode_word res_rockets (\<lambda>x. res_rockets_update (\<lambda>_. x)),
      field ''spring'' decode_bool res_spring (\<lambda>x. res_spring_update (\<lambda>_. x)),
      field ''antiSpring'' decode_bool res_anti_spring (\<lambda>x. res_anti_spring_update (\<lambda>_. x)),
      field ''multiplier'' decode_word res_multiplier (\<lambda>x. res_multiplier_update (\<lambda>_. x)),
      field ''finalStake'' decode_word res_stake (\<lambda>x. res_stake_update (\<lambda>_. x)),
      field ''seatPoints'' (decode_array decode_i64 0) res_points (\<lambda>x. res_points_update (\<lambda>_. x))]"

definition zero_settlement :: settlement_result where
  "zero_settlement = \<lparr>res_version = '''', res_landlord = 0, res_winner = 0, res_landlord_won = False, res_base = 0,
     res_bombs = 0, res_rockets = 0, res_spring = False, res_anti_spring = False, res_multiplier = 0, res_stake = 0,
     res_points = [0, 0, 0]\<rparr>"

section \<open>Decoding what was encoded\<close>

lemma json_ok_word [simp]: "json_ok n (json_word x)"
  using number_ok_show number_chars_show by (simp add: json_word_def)

lemma json_ok_i64 [simp]: "json_ok n (json_i64 x)"
  using number_ok_show number_chars_show by (simp add: json_i64_def show_int_def number_char_def)

lemma json_ok_mono: "json_ok n v \<Longrightarrow> n \<le> m \<Longrightarrow> json_ok m v"
proof (induction n v arbitrary: m rule: json_ok.induct)
  case (3 n vs)
  then show ?case by (auto intro: "3.IH")
next
  case (4 n ms)
  have "json_ok (m - 1) v" if "(k, v) \<in> set ms" for k v
  proof (rule "4.IH" [OF that refl])
    show "json_ok (n - 1) v" using "4.prems"(1) that by fastforce
    show "n - 1 \<le> m - 1" using "4.prems"(2) by simp
  qed
  moreover have "0 < m" "\<And>k v. (k, v) \<in> set ms \<Longrightarrow> valid_utf8 (str_bytes k)" using "4.prems" by fastforce+
  ultimately show ?case by auto
qed simp_all

text \<open>The member names and the two action types are ASCII.\<close>

definition wire_names :: "string list" where
  "wire_names =
    [''position'', ''score'', ''v'', ''firstBidder'', ''currentBidder'', ''highestScore'', ''highestBidder'',
     ''actions'', ''complete'', ''noLandlord'', ''landlord'', ''kind'', ''mainRank'', ''sequenceLength'',
     ''cardCount'', ''number'', ''type'', ''seat'', ''cards'', ''pattern'', ''revision'', ''currentSeat'',
     ''leadingSeat'', ''leadingCards'', ''leadingPattern'', ''passCount'', ''winnerSeat'', ''history'',
     ''landlordSeat'', ''landlordWon'', ''baseScore'', ''bombCount'', ''rocketCount'', ''spring'', ''antiSpring'',
     ''multiplier'', ''finalStake'', ''seatPoints'', ''fairnessMode'', ''handId'', ''status'', ''stateVersion'',
     ''setupArtifact'', ''setupDigest'', ''transcript'', ''transcriptDigest'', ''bidding'', ''playing'',
     ''settlement'', ''finalHands'', ''landlordCards'', ''winningScore'', ''reason'', ''currentHands'', ''phase'',
     ''PLAY'', ''PASS'']"

lemma wire_names_valid: "list_all (\<lambda>s. valid_utf8 (str_bytes s)) wire_names"
  by code_simp

lemmas name_valid = wire_names_valid [unfolded wire_names_def list.pred_inject]

declare name_valid [simp]

lemmas struct_simps = decode_struct_def field_def find_field_def member_def member_unless_def

lemma json_objects [simp]: "json_bid b \<noteq> JNull" "json_pattern p \<noteq> JNull" "json_action a \<noteq> JNull"
  by (simp_all add: json_bid_def json_pattern_def json_action_def)

interpretation bid_codec: json_codec json_bid "decode_struct bid_fields True" zero_bid "\<lambda>_. True" 1
  by unfold_locales (simp_all add: json_bid_def bid_fields_def zero_bid_def struct_simps word_codec.dec_enc)

definition bidding_wire_ok :: "bidding_wire \<Rightarrow> bool" where
  "bidding_wire_ok b \<longleftrightarrow> valid_utf8 (str_bytes (bw_version b)) \<and>
     (bw_actions b = None \<or> bw_actions b = made_slice (elements (bw_actions b)))"

interpretation bidding_codec: json_codec json_bidding "decode_struct bidding_fields True" zero_bidding bidding_wire_ok 3
proof
  fix b assume ok: "bidding_wire_ok b"
  have "decode_slice (decode_struct bid_fields True) zero_bid (json_slice json_bid (bw_actions b)) None = Some (bw_actions b)"
    using ok by (intro bid_codec.slice_codec) (auto simp: bidding_wire_ok_def made_slice_def list_all_iff)
  then show "decode_struct bidding_fields True (json_bidding b) zero_bidding = Some b"
    by (simp add: json_bidding_def bidding_fields_def zero_bidding_def struct_simps word_codec.dec_enc
        string_codec.dec_enc bool_codec.dec_enc decode_string_def decode_bool_def)
  show "json_ok 3 (json_bidding b)"
    using ok bid_codec.enc_json json_ok_mono [of 1 _ 2]
    by (auto simp: json_bidding_def member_def bidding_wire_ok_def json_slice_def split: option.splits)
qed

lemma kind_codes: "k \<in> set known_kinds \<Longrightarrow> kind_of_text (kind_text k) = k \<and> valid_utf8 (str_bytes (kind_text k))"
proof -
  have "list_all (\<lambda>k. kind_of_text (kind_text k) = k \<and> valid_utf8 (str_bytes (kind_text k))) known_kinds" by code_simp
  then show "k \<in> set known_kinds \<Longrightarrow> ?thesis" by (simp add: list_all_iff)
qed

definition pattern_ok :: "pattern \<Rightarrow> bool" where
  "pattern_ok p \<longleftrightarrow> valid_utf8 (str_bytes (pat_version p)) \<and> pat_kind p \<in> set known_kinds"

interpretation pattern_codec: json_codec json_pattern "decode_struct pattern_fields True" zero_pattern pattern_ok 1
  by unfold_locales
    (use kind_codes in \<open>simp_all add: json_pattern_def pattern_fields_def zero_pattern_def struct_simps pattern_ok_def
      word_codec.dec_enc decode_string_def decode_kind_def\<close>)

lemma bytes_codec: "decode_bytes (json_bytes (slice_of xs)) None = Some (slice_of xs)"
  by (simp add: decode_bytes_def json_bytes_def slice_of_def decode_slice_def)

definition action_wire_ok :: "action_wire \<Rightarrow> bool" where
  "action_wire_ok a \<longleftrightarrow> (aw_type a = ActionPlay \<or> aw_type a = ActionPass) \<and>
     aw_cards a = slice_of (elements (aw_cards a)) \<and> (\<forall>p. aw_pattern a = Some p \<longrightarrow> pattern_ok p)"

lemma json_ok_bytes [simp]: "json_ok n (json_bytes s)"
proof -
  have "ascii_only \<Longrightarrow> valid_utf8 bs" if "ascii_only = (\<forall>c \<in> set bs. c < 0x80)" for ascii_only bs
    using that by (induction bs arbitrary: ascii_only) simp_all
  then have "valid_utf8 (b64_encode_bytes False xs)" for xs using b64_encode_plain by blast
  then show ?thesis by (simp add: json_bytes_def b64_encode_def str_bytes_bytes_str split: option.split)
qed

lemma action_codes [simp]: "t = ActionPlay \<or> t = ActionPass \<Longrightarrow> action_of_text (action_text t) = t"
  by (auto simp: action_of_text_def)

interpretation action_codec: json_codec json_action "decode_struct action_fields True" zero_action action_wire_ok 2
proof
  fix a assume ok: "action_wire_ok a"
  have p: "decode_pointer (decode_struct pattern_fields True) zero_pattern (json_pointer json_pattern (aw_pattern a)) None =
      Some (aw_pattern a)"
    using ok by (intro pattern_codec.pointer_codec) (auto simp: action_wire_ok_def split: option.split)
  have c: "decode_bytes (json_bytes (aw_cards a)) None = Some (aw_cards a)"
    using ok bytes_codec action_wire_ok_def by metis
  have nil: "elements (aw_cards a) = [] \<longleftrightarrow> aw_cards a = None"
    using ok by (auto simp: action_wire_ok_def slice_of_def elements_def)
  show "decode_struct action_fields True (json_action a) zero_action = Some a"
    using p c nil ok
    by (cases a) (simp add: json_action_def action_fields_def zero_action_def struct_simps word_codec.dec_enc
        decode_action_type_def decode_string_def action_wire_ok_def)
  show "json_ok 2 (json_action a)"
    using ok pattern_codec.enc_json
    by (auto simp: json_action_def member_def member_unless_def action_wire_ok_def json_pointer_def split: option.splits)
qed

definition playing_wire_ok :: "playing_wire \<Rightarrow> bool" where
  "playing_wire_ok p \<longleftrightarrow> valid_utf8 (str_bytes (pw_version p)) \<and>
     pw_leading_cards p = slice_of (elements (pw_leading_cards p)) \<and>
     (\<forall>q. pw_leading_pattern p = Some q \<longrightarrow> pattern_ok q) \<and>
     pw_history p = made_slice (elements (pw_history p)) \<and> list_all action_wire_ok (elements (pw_history p))"

interpretation playing_codec: json_codec json_playing "decode_struct playing_fields True" zero_playing playing_wire_ok 4
proof
  fix p assume ok: "playing_wire_ok p"
  have lp: "decode_pointer (decode_struct pattern_fields True) zero_pattern
      (json_pointer json_pattern (pw_leading_pattern p)) None = Some (pw_leading_pattern p)"
    using ok by (intro pattern_codec.pointer_codec) (auto simp: playing_wire_ok_def split: option.split)
  have c: "decode_bytes (json_bytes (pw_leading_cards p)) None = Some (pw_leading_cards p)"
    using ok bytes_codec playing_wire_ok_def by metis
  have nil: "elements (pw_leading_cards p) = [] \<longleftrightarrow> pw_leading_cards p = None"
    using ok by (auto simp: playing_wire_ok_def slice_of_def elements_def)
  have h: "decode_slice (decode_struct action_fields True) zero_action (json_slice json_action (pw_history p)) None =
      Some (pw_history p)"
    using ok by (intro action_codec.slice_codec) (auto simp: playing_wire_ok_def made_slice_def)
  show "decode_struct playing_fields True (json_playing p) zero_playing = Some p"
    using lp c nil h ok
    by (cases p) (simp add: json_playing_def playing_fields_def zero_playing_def struct_simps word_codec.dec_enc
        decode_bool_def decode_string_def)
  have "json_ok 3 (json_slice json_action (pw_history p))"
    using ok action_codec.enc_json
    by (auto simp: playing_wire_ok_def json_slice_def list_all_iff elements_def split: option.splits)
  then show "json_ok 4 (json_playing p)"
    using ok pattern_codec.enc_json json_ok_mono [of 1 _ 3]
    by (auto simp: json_playing_def member_def member_unless_def playing_wire_ok_def json_pointer_def split: option.splits)
qed

definition settlement_wire_ok :: "settlement_result \<Rightarrow> bool" where
  "settlement_wire_ok s \<longleftrightarrow> valid_utf8 (str_bytes (res_version s)) \<and> length (res_points s) = 3"

interpretation settlement_codec: json_codec json_settlement "decode_struct settlement_fields True" zero_settlement
  settlement_wire_ok 2
proof
  fix s assume ok: "settlement_wire_ok s"
  have points: "decode_array decode_i64 0 (JArr (map json_i64 (res_points s))) [0, 0, 0] = Some (res_points s)"
    using i64_codec.array_codec [of "res_points s" 3] ok
    by (simp add: settlement_wire_ok_def list_all_iff numeral_3_eq_3)
  show "decode_struct settlement_fields True (json_settlement s) zero_settlement = Some s"
    using points
    by (simp add: json_settlement_def settlement_fields_def zero_settlement_def struct_simps word_codec.dec_enc
        decode_bool_def decode_string_def)
  show "json_ok 2 (json_settlement s)"
    using ok by (simp add: json_settlement_def member_def settlement_wire_ok_def)
qed

section \<open>Final payloads\<close>

record completed_payload =
  cp_fairness_mode :: string
  cp_version :: string
  cp_hand_id :: string
  cp_status :: string
  cp_state_version :: u64
  cp_setup_artifact :: string
  cp_setup_digest :: string
  cp_transcript :: string
  cp_transcript_digest :: string
  cp_bidding :: bidding_wire
  cp_playing :: playing_wire
  cp_settlement :: settlement_result
  cp_final_hands :: "string slice list"
  cp_landlord_cards :: "string slice"
  cp_landlord_seat :: u8
  cp_winning_score :: score
  cp_winner_seat :: u8

definition json_completed :: "completed_payload \<Rightarrow> json" where
  "json_completed p = JObj
     (member_unless (cp_fairness_mode p = '''') ''fairnessMode'' (JStr (cp_fairness_mode p))
      @ member ''v'' (JStr (cp_version p)) @ member ''handId'' (JStr (cp_hand_id p))
      @ member ''status'' (JStr (cp_status p)) @ member ''stateVersion'' (json_word (cp_state_version p))
      @ member ''setupArtifact'' (JStr (cp_setup_artifact p)) @ member ''setupDigest'' (JStr (cp_setup_digest p))
      @ member ''transcript'' (JStr (cp_transcript p)) @ member ''transcriptDigest'' (JStr (cp_transcript_digest p))
      @ member ''bidding'' (json_bidding (cp_bidding p)) @ member ''playing'' (json_playing (cp_playing p))
      @ member ''settlement'' (json_settlement (cp_settlement p))
      @ member ''finalHands'' (JArr (map (json_slice JStr) (cp_final_hands p)))
      @ member ''landlordCards'' (json_slice JStr (cp_landlord_cards p))
      @ member ''landlordSeat'' (json_word (cp_landlord_seat p))
      @ member ''winningScore'' (json_word (cp_winning_score p))
      @ member ''winnerSeat'' (json_word (cp_winner_seat p)))"

definition completed_fields :: "completed_payload field list" where
  "completed_fields =
     [field ''fairnessMode'' decode_string cp_fairness_mode (\<lambda>x. cp_fairness_mode_update (\<lambda>_. x)),
      field ''v'' decode_string cp_version (\<lambda>x. cp_version_update (\<lambda>_. x)),
      field ''handId'' decode_string cp_hand_id (\<lambda>x. cp_hand_id_update (\<lambda>_. x)),
      field ''status'' decode_string cp_status (\<lambda>x. cp_status_update (\<lambda>_. x)),
      field ''stateVersion'' decode_word cp_state_version (\<lambda>x. cp_state_version_update (\<lambda>_. x)),
      field ''setupArtifact'' decode_string cp_setup_artifact (\<lambda>x. cp_setup_artifact_update (\<lambda>_. x)),
      field ''setupDigest'' decode_string cp_setup_digest (\<lambda>x. cp_setup_digest_update (\<lambda>_. x)),
      field ''transcript'' decode_string cp_transcript (\<lambda>x. cp_transcript_update (\<lambda>_. x)),
      field ''transcriptDigest'' decode_string cp_transcript_digest (\<lambda>x. cp_transcript_digest_update (\<lambda>_. x)),
      field ''bidding'' (decode_struct bidding_fields True) cp_bidding (\<lambda>x. cp_bidding_update (\<lambda>_. x)),
      field ''playing'' (decode_struct playing_fields True) cp_playing (\<lambda>x. cp_playing_update (\<lambda>_. x)),
      field ''settlement'' (decode_struct settlement_fields True) cp_settlement (\<lambda>x. cp_settlement_update (\<lambda>_. x)),
      field ''finalHands'' (decode_array (decode_slice decode_string '''') None) cp_final_hands
        (\<lambda>x. cp_final_hands_update (\<lambda>_. x)),
      field ''landlordCards'' (decode_slice decode_string '''') cp_landlord_cards (\<lambda>x. cp_landlord_cards_update (\<lambda>_. x)),
      field ''landlordSeat'' decode_word cp_landlord_seat (\<lambda>x. cp_landlord_seat_update (\<lambda>_. x)),
      field ''winningScore'' decode_word cp_winning_score (\<lambda>x. cp_winning_score_update (\<lambda>_. x)),
      field ''winnerSeat'' decode_word cp_winner_seat (\<lambda>x. cp_winner_seat_update (\<lambda>_. x))]"

definition zero_completed :: completed_payload where
  "zero_completed = \<lparr>cp_fairness_mode = '''', cp_version = '''', cp_hand_id = '''', cp_status = '''',
     cp_state_version = 0, cp_setup_artifact = '''', cp_setup_digest = '''', cp_transcript = '''',
     cp_transcript_digest = '''', cp_bidding = zero_bidding, cp_playing = zero_playing,
     cp_settlement = zero_settlement, cp_final_hands = [None, None, None], cp_landlord_cards = None,
     cp_landlord_seat = 0, cp_winning_score = 0, cp_winner_seat = 0\<rparr>"

record terminal_payload =
  tp_fairness_mode :: string
  tp_version :: string
  tp_hand_id :: string
  tp_status :: string
  tp_reason :: string
  tp_state_version :: u64
  tp_setup_artifact :: string
  tp_setup_digest :: string
  tp_transcript :: string
  tp_transcript_digest :: string
  tp_current_hands :: "string slice list"
  tp_landlord_cards :: "string slice"

definition json_terminal :: "terminal_payload \<Rightarrow> json" where
  "json_terminal p = JObj
     (member_unless (tp_fairness_mode p = '''') ''fairnessMode'' (JStr (tp_fairness_mode p))
      @ member ''v'' (JStr (tp_version p)) @ member ''handId'' (JStr (tp_hand_id p))
      @ member ''status'' (JStr (tp_status p)) @ member ''reason'' (JStr (tp_reason p))
      @ member ''stateVersion'' (json_word (tp_state_version p))
      @ member ''setupArtifact'' (JStr (tp_setup_artifact p)) @ member ''setupDigest'' (JStr (tp_setup_digest p))
      @ member ''transcript'' (JStr (tp_transcript p)) @ member ''transcriptDigest'' (JStr (tp_transcript_digest p))
      @ member ''currentHands'' (JArr (map (json_slice JStr) (tp_current_hands p)))
      @ member ''landlordCards'' (json_slice JStr (tp_landlord_cards p)))"

definition terminal_fields :: "terminal_payload field list" where
  "terminal_fields =
     [field ''fairnessMode'' decode_string tp_fairness_mode (\<lambda>x. tp_fairness_mode_update (\<lambda>_. x)),
      field ''v'' decode_string tp_version (\<lambda>x. tp_version_update (\<lambda>_. x)),
      field ''handId'' decode_string tp_hand_id (\<lambda>x. tp_hand_id_update (\<lambda>_. x)),
      field ''status'' decode_string tp_status (\<lambda>x. tp_status_update (\<lambda>_. x)),
      field ''reason'' decode_string tp_reason (\<lambda>x. tp_reason_update (\<lambda>_. x)),
      field ''stateVersion'' decode_word tp_state_version (\<lambda>x. tp_state_version_update (\<lambda>_. x)),
      field ''setupArtifact'' decode_string tp_setup_artifact (\<lambda>x. tp_setup_artifact_update (\<lambda>_. x)),
      field ''setupDigest'' decode_string tp_setup_digest (\<lambda>x. tp_setup_digest_update (\<lambda>_. x)),
      field ''transcript'' decode_string tp_transcript (\<lambda>x. tp_transcript_update (\<lambda>_. x)),
      field ''transcriptDigest'' decode_string tp_transcript_digest (\<lambda>x. tp_transcript_digest_update (\<lambda>_. x)),
      field ''currentHands'' (decode_array (decode_slice decode_string '''') None) tp_current_hands
        (\<lambda>x. tp_current_hands_update (\<lambda>_. x)),
      field ''landlordCards'' (decode_slice decode_string '''') tp_landlord_cards (\<lambda>x. tp_landlord_cards_update (\<lambda>_. x))]"

definition zero_terminal :: terminal_payload where
  "zero_terminal = \<lparr>tp_fairness_mode = '''', tp_version = '''', tp_hand_id = '''', tp_status = '''', tp_reason = '''',
     tp_state_version = 0, tp_setup_artifact = '''', tp_setup_digest = '''', tp_transcript = '''',
     tp_transcript_digest = '''', tp_current_hands = [None, None, None], tp_landlord_cards = None\<rparr>"

abbreviation utf8_text :: "string \<Rightarrow> bool" where "utf8_text s \<equiv> valid_utf8 (str_bytes s)"

interpretation texts_codec: json_codec "json_slice JStr" "decode_slice decode_string ''''" None
  "\<lambda>s. s = made_slice (elements s) \<and> list_all utf8_text (elements s)" 1
proof
  fix s :: "string slice" assume ok: "s = made_slice (elements s) \<and> list_all utf8_text (elements s)"
  show "decode_slice decode_string '''' (json_slice JStr s) None = Some s"
    using ok by (intro string_codec.slice_codec) (auto simp: made_slice_def)
  have "json_slice JStr (made_slice xs) = JArr (map JStr xs)" for xs
    by (simp add: json_slice_def made_slice_def)
  then have "json_slice JStr s = JArr (map JStr (elements s))" using ok by metis
  then show "json_ok 1 (json_slice JStr s)" using ok by (auto simp: list_all_iff)
qed

definition completed_ok :: "completed_payload \<Rightarrow> bool" where
  "completed_ok p \<longleftrightarrow> list_all utf8_text [cp_fairness_mode p, cp_version p, cp_hand_id p, cp_status p, cp_setup_artifact p,
       cp_setup_digest p, cp_transcript p, cp_transcript_digest p] \<and>
     bidding_wire_ok (cp_bidding p) \<and> playing_wire_ok (cp_playing p) \<and> settlement_wire_ok (cp_settlement p) \<and>
     length (cp_final_hands p) = 3 \<and>
     list_all (\<lambda>s. s = made_slice (elements s) \<and> list_all utf8_text (elements s)) (cp_landlord_cards p # cp_final_hands p)"

lemma completed_payload_codec:
  assumes ok: "completed_ok p"
  shows "decode_struct completed_fields True (json_completed p) zero_completed = Some p"
    and "json_ok 5 (json_completed p)"
proof -
  have hands: "decode_array (decode_slice decode_string '''') None (JArr (map (json_slice JStr) (cp_final_hands p)))
      [None, None, None] = Some (cp_final_hands p)"
    using texts_codec.array_codec [of "cp_final_hands p" 3] ok by (simp add: completed_ok_def numeral_3_eq_3)
  have landlord: "decode_slice decode_string '''' (json_slice JStr (cp_landlord_cards p)) None = Some (cp_landlord_cards p)"
    using ok by (intro texts_codec.dec_enc) (simp add: completed_ok_def)
  have parts: "decode_struct bidding_fields True (json_bidding (cp_bidding p)) zero_bidding = Some (cp_bidding p)"
    "decode_struct playing_fields True (json_playing (cp_playing p)) zero_playing = Some (cp_playing p)"
    "decode_struct settlement_fields True (json_settlement (cp_settlement p)) zero_settlement = Some (cp_settlement p)"
    using ok by (auto intro!: bidding_codec.dec_enc playing_codec.dec_enc settlement_codec.dec_enc simp: completed_ok_def)
  show "decode_struct completed_fields True (json_completed p) zero_completed = Some p"
    unfolding decode_struct_def [of completed_fields]
    using hands landlord parts
    by (cases p) (simp add: json_completed_def completed_fields_def zero_completed_def field_def find_field_def member_def
        member_unless_def word_codec.dec_enc decode_string_def)
  have "json_ok 4 (json_bidding (cp_bidding p))" "json_ok 4 (json_playing (cp_playing p))"
    "json_ok 4 (json_settlement (cp_settlement p))" "json_ok 4 (json_slice JStr (cp_landlord_cards p))"
    "\<forall>h \<in> set (cp_final_hands p). json_ok 3 (json_slice JStr h)"
    using ok bidding_codec.enc_json playing_codec.enc_json settlement_codec.enc_json texts_codec.enc_json
      json_ok_mono [of 3 _ 4] json_ok_mono [of 2 _ 4] json_ok_mono [of 1 _ 4] json_ok_mono [of 1 _ 3]
    by (auto simp: completed_ok_def list_all_iff)
  then show "json_ok 5 (json_completed p)"
    using ok by (simp add: json_completed_def member_def member_unless_def completed_ok_def)
qed

definition terminal_ok :: "terminal_payload \<Rightarrow> bool" where
  "terminal_ok p \<longleftrightarrow> list_all utf8_text [tp_fairness_mode p, tp_version p, tp_hand_id p, tp_status p, tp_reason p,
       tp_setup_artifact p, tp_setup_digest p, tp_transcript p, tp_transcript_digest p] \<and>
     length (tp_current_hands p) = 3 \<and>
     list_all (\<lambda>s. s = made_slice (elements s) \<and> list_all utf8_text (elements s)) (tp_landlord_cards p # tp_current_hands p)"

lemma terminal_payload_codec:
  assumes ok: "terminal_ok p"
  shows "decode_struct terminal_fields True (json_terminal p) zero_terminal = Some p"
    and "json_ok 5 (json_terminal p)"
proof -
  have hands: "decode_array (decode_slice decode_string '''') None (JArr (map (json_slice JStr) (tp_current_hands p)))
      [None, None, None] = Some (tp_current_hands p)"
    using texts_codec.array_codec [of "tp_current_hands p" 3] ok by (simp add: terminal_ok_def numeral_3_eq_3)
  have landlord: "decode_slice decode_string '''' (json_slice JStr (tp_landlord_cards p)) None = Some (tp_landlord_cards p)"
    using ok by (intro texts_codec.dec_enc) (simp add: terminal_ok_def)
  show "decode_struct terminal_fields True (json_terminal p) zero_terminal = Some p"
    using hands landlord
    by (cases p) (simp add: json_terminal_def terminal_fields_def zero_terminal_def struct_simps
        word_codec.dec_enc decode_string_def)
  have "json_ok 4 (json_slice JStr (tp_landlord_cards p))"
    "\<forall>h \<in> set (tp_current_hands p). json_ok 3 (json_slice JStr h)"
    using ok texts_codec.enc_json json_ok_mono [of 1 _ 4] json_ok_mono [of 1 _ 3]
    by (auto simp: terminal_ok_def list_all_iff)
  then show "json_ok 5 (json_terminal p)"
    using ok by (simp add: json_terminal_def member_def member_unless_def terminal_ok_def)
qed

end
