(* ===== verification/Live_Directory.thy ===== *)
theory Live_Directory
  imports Gamecore_Module
begin

text \<open>
  The live directory of the game core (\<open>gamecore/runtime.go\<close>, \<open>gamecore/runtime_compensation.go\<close>):
  running games by instance id, commands, durable commits, aborts, and the final record that is
  archived exactly when an instance ends. An entry is a heap object (its address is a position in
  \<open>ld_heap\<close>), because an operation that has looked up an entry may run after another one has closed
  it; the lookup and the part under the entry's lock are separate definitions. The games, the archive
  and the durable commit are parameters.
\<close>

datatype final_status = FinalCompleted | FinalAborted | FinalOther string

fun status_text :: "final_status \<Rightarrow> string" where
  "status_text FinalCompleted = ''completed''"
| "status_text FinalAborted = ''aborted''"
| "status_text (FinalOther s) = s"

definition final_record_domain :: string where
  "final_record_domain = ''gamecore/final-record/v1''"

record command =
  cm_actor :: u8
  cm_expected :: u64
  cm_payload :: bytes

record command_outcome =
  oc_version :: u64
  oc_payload :: bytes
  oc_terminal :: bool
  oc_final :: bytes

record view_request =
  vr_position :: u8
  vr_public :: bool

record game_view =
  gv_version :: u64
  gv_payload :: bytes

record abort_outcome =
  ao_version :: u64
  ao_final :: bytes

section \<open>Final records\<close>

record final_record =
  fr_instance :: string
  fr_descriptor :: descriptor
  fr_status :: final_status
  fr_version :: u64
  fr_payload :: bytes
  fr_digest :: bytes

definition final_record_bytes :: "final_record \<Rightarrow> bytes" where
  "final_record_bytes r =
     gc_write_domain final_record_domain @ gc_write_string (fr_instance r)
     @ descriptor_bytes (fr_descriptor r) @ gc_write_string (status_text (fr_status r))
     @ gc_write_u64 (fr_version r) @ gc_write_bytes (fr_payload r)"

definition final_record_digest :: "final_record \<Rightarrow> bytes" where
  "final_record_digest r = sha256 (final_record_bytes r)"

definition new_final_record :: "string \<Rightarrow> descriptor \<Rightarrow> final_status \<Rightarrow> u64 \<Rightarrow> bytes \<Rightarrow> go_error + final_record" where
  "new_final_record iid d status version payload =
     rbind (validate_instance_id iid) (\<lambda>_.
     rbind (descriptor_validate d) (\<lambda>_.
     rbind (reject (status \<noteq> FinalCompleted \<and> status \<noteq> FinalAborted) (Gamecore GcInvalidArgument)) (\<lambda>_.
     rbind (reject (version = 0) (Gamecore GcInvalidArgument)) (\<lambda>_.
     rbind (gc_validate_payload payload False) (\<lambda>_.
       let r = \<lparr>fr_instance = iid, fr_descriptor = d, fr_status = status, fr_version = version,
                fr_payload = payload, fr_digest = replicate 32 0\<rparr>
       in Inr (r\<lparr>fr_digest := final_record_digest r\<rparr>))))))"

definition final_record_validate :: "final_record \<Rightarrow> go_error + unit" where
  "final_record_validate r =
     rbind (new_final_record (fr_instance r) (fr_descriptor r) (fr_status r) (fr_version r) (fr_payload r)) (\<lambda>restored.
       reject (gc_all_zero (fr_digest r) \<or> fr_digest restored \<noteq> fr_digest r) (Gamecore GcVerificationFailed))"

section \<open>Games, archive, entries\<close>

text \<open>
  The interface \<open>LiveGame\<close> as a record of functions on a game state. A game that fails a command may
  still have changed, so \<open>lg_apply\<close> returns the state in both cases; \<open>lg_clone\<close> is \<open>None\<close> where the
  game does not implement \<open>CloneCandidate\<close>.
\<close>

record 'g live_game =
  lg_descriptor :: "'g \<Rightarrow> descriptor"
  lg_instance :: "'g \<Rightarrow> string"
  lg_apply :: "'g \<Rightarrow> command \<Rightarrow> 'g \<times> (go_error + command_outcome)"
  lg_view :: "'g \<Rightarrow> view_request \<Rightarrow> go_error + game_view"
  lg_abort :: "'g \<Rightarrow> string \<Rightarrow> 'g \<times> (go_error + abort_outcome)"
  lg_clone :: "'g \<Rightarrow> (go_error + 'g) option"

text \<open>\<open>Archive\<close>: whether the record was archived, and the archive's new state.\<close>

type_synonym 'a archiver = "final_record \<Rightarrow> 'a \<Rightarrow> bool \<times> 'a"

record 'g live_entry =
  le_game :: 'g
  le_descriptor :: descriptor
  le_pending :: "final_record option"
  le_closed :: bool
  le_quarantined :: bool

record ('g, 'a) live_directory =
  ld_heap :: "'g live_entry list"
  ld_map :: "string \<rightharpoonup> nat"
  ld_archive :: 'a

text \<open>A Go method that returns a value and an error: the value may be meaningful beside the error.\<close>

type_synonym 'r returned = "'r option \<times> go_error option"

abbreviation failed :: "go_error \<Rightarrow> 'r returned" where "failed e \<equiv> (None, Some e)"

definition new_live_directory :: "'a option \<Rightarrow> go_error + ('g, 'a) live_directory" where
  "new_live_directory archive =
     (case archive of
        None \<Rightarrow> Inl (Gamecore GcInvalidArgument)
      | Some a \<Rightarrow> Inr \<lparr>ld_heap = [], ld_map = Map.empty, ld_archive = a\<rparr>)"

definition set_entry :: "('g, 'a) live_directory \<Rightarrow> nat \<Rightarrow> 'g live_entry \<Rightarrow> ('g, 'a) live_directory" where
  "set_entry d a e = d\<lparr>ld_heap := (ld_heap d)[a := e]\<rparr>"

definition add_game ::
  "'g live_game \<Rightarrow> ('g, 'a) live_directory \<Rightarrow> descriptor \<Rightarrow> 'g option \<Rightarrow> go_error + ('g, 'a) live_directory" where
  "add_game ops d expected game =
     (case game of
        None \<Rightarrow> Inl (Gamecore GcInvalidArgument)
      | Some g \<Rightarrow>
          rbind (descriptor_validate expected) (\<lambda>_.
          rbind (descriptor_validate (lg_descriptor ops g)) (\<lambda>_.
          rbind (reject (lg_descriptor ops g \<noteq> expected) (Gamecore GcInvalidArgument)) (\<lambda>_.
          let iid = lg_instance ops g in
          rbind (validate_instance_id iid) (\<lambda>_.
            if ld_map d iid \<noteq> None then Inl (Gamecore GcInstanceExists)
            else Inr (d\<lparr>ld_heap := ld_heap d @ [\<lparr>le_game = g, le_descriptor = expected, le_pending = None,
                          le_closed = False, le_quarantined = False\<rparr>],
                       ld_map := (ld_map d)(iid \<mapsto> length (ld_heap d))\<rparr>))))))"

section \<open>Looking up an entry\<close>

definition find_entry :: "('g, 'a) live_directory \<Rightarrow> string \<Rightarrow> go_error + nat" where
  "find_entry d iid =
     rbind (validate_instance_id iid) (\<lambda>_.
       case ld_map d iid of
         None \<Rightarrow> Inl (Gamecore GcInstanceNotFound)
       | Some a \<Rightarrow> Inr a)"

definition contains :: "('g, 'a) live_directory \<Rightarrow> string \<Rightarrow> bool" where
  "contains d iid \<longleftrightarrow> ld_map d iid \<noteq> None"

definition entry_count :: "('g, 'a) live_directory \<Rightarrow> nat" where
  "entry_count d = card (dom (ld_map d))"

section \<open>Under the entry's lock\<close>

definition archive_pending ::
  "'a archiver \<Rightarrow> string \<Rightarrow> nat \<Rightarrow> ('g, 'a) live_directory \<Rightarrow> ('g, 'a) live_directory \<times> go_error option" where
  "archive_pending arch iid a d =
     (case le_pending (ld_heap d ! a) of
        None \<Rightarrow> (d, Some (Gamecore GcNotFinalizing))
      | Some record \<Rightarrow>
          (case arch record (ld_archive d) of (archived, ar) \<Rightarrow>
             let d1 = d\<lparr>ld_archive := ar\<rparr> in
             if \<not> archived then (d1, Some (Gamecore GcArchiveFailed))
             else
               let d2 = (if ld_map d1 iid = Some a then d1\<lparr>ld_map := (ld_map d1)(iid := None)\<rparr> else d1)
               in (set_entry d2 a ((ld_heap d2 ! a)\<lparr>le_pending := None, le_closed := True\<rparr>), None)))"

definition finalize_with ::
  "'a archiver \<Rightarrow> string \<Rightarrow> nat \<Rightarrow> final_record \<Rightarrow> 'r \<Rightarrow> ('g, 'a) live_directory \<Rightarrow>
     ('g, 'a) live_directory \<times> 'r returned" where
  "finalize_with arch iid a record value d =
     (case archive_pending arch iid a (set_entry d a ((ld_heap d ! a)\<lparr>le_pending := Some record\<rparr>)) of
        (d', err) \<Rightarrow> (d', Some value, err))"

definition apply_at ::
  "'g live_game \<Rightarrow> 'a archiver \<Rightarrow> string \<Rightarrow> nat \<Rightarrow> command \<Rightarrow> ('g, 'a) live_directory \<Rightarrow>
     ('g, 'a) live_directory \<times> command_outcome returned" where
  "apply_at ops arch iid a cmd d =
     (let e = ld_heap d ! a in
      if le_closed e \<or> le_quarantined e then (d, failed (Gamecore GcInstanceNotFound))
      else if le_pending e \<noteq> None then (d, failed (Gamecore GcFinalizationPending))
      else if cm_actor cmd < 1 \<or> cm_actor cmd > ds_participants (le_descriptor e)
      then (d, failed (Gamecore GcInvalidArgument))
      else case lg_apply ops (le_game e) cmd of (g, result) \<Rightarrow>
        let d1 = set_entry d a (e\<lparr>le_game := g\<rparr>) in
        (case result of
           Inl err \<Rightarrow> (d1, failed err)
         | Inr outcome \<Rightarrow>
             if \<not> oc_terminal outcome then
               (if length (oc_final outcome) \<noteq> 0 then (d1, failed (Gamecore GcVerificationFailed))
                else (d1, Some outcome, None))
             else
               (case new_final_record iid (le_descriptor e) FinalCompleted (oc_version outcome) (oc_final outcome) of
                  Inl err \<Rightarrow> (d1, failed err)
                | Inr record \<Rightarrow> finalize_with arch iid a record outcome d1)))"

text \<open>
  \<open>ApplyCommitted\<close>: \<open>persist\<close> is the durable commit of the outcome on its own state; \<open>None\<close> is a nil
  function. The returned game is the published candidate.
\<close>

definition candidate_of ::
  "'g live_game \<Rightarrow> string \<Rightarrow> 'g live_entry \<Rightarrow> command \<Rightarrow> go_error + 'g \<times> command_outcome \<times> final_record option" where
  "candidate_of ops iid e cmd =
     (if le_closed e \<or> le_quarantined e \<or> le_pending e \<noteq> None then Inl (Gamecore GcFinalizationPending)
      else if cm_actor cmd < 1 \<or> cm_actor cmd > ds_participants (le_descriptor e)
      then Inl (Gamecore GcInvalidArgument)
      else case lg_clone ops (le_game e) of
        None \<Rightarrow> Inl (Gamecore GcInvalidArgument)
      | Some (Inl err) \<Rightarrow> Inl err
      | Some (Inr g) \<Rightarrow>
          (case lg_apply ops g cmd of (g', result) \<Rightarrow>
             rbind result (\<lambda>outcome.
               if \<not> oc_terminal outcome \<and> length (oc_final outcome) \<noteq> 0 then Inl (Gamecore GcVerificationFailed)
               else if oc_terminal outcome then
                 rbind (new_final_record iid (le_descriptor e) FinalCompleted (oc_version outcome) (oc_final outcome))
                   (\<lambda>record. Inr (g', outcome, Some record))
               else Inr (g', outcome, None))))"

definition commit_at ::
  "'g live_game \<Rightarrow> 'a archiver \<Rightarrow> string \<Rightarrow> nat \<Rightarrow> command \<Rightarrow>
     (command_outcome \<Rightarrow> 'p \<Rightarrow> bool \<times> 'p) option \<Rightarrow> 'p \<Rightarrow> ('g, 'a) live_directory \<Rightarrow>
     ('g, 'a) live_directory \<times> 'p \<times> (command_outcome \<times> 'g) returned" where
  "commit_at ops arch iid a cmd persist p d =
     (case persist of
        None \<Rightarrow> (d, p, failed (Gamecore GcInvalidArgument))
      | Some commit \<Rightarrow>
          (let e = ld_heap d ! a in
           case candidate_of ops iid e cmd of
             Inl err \<Rightarrow> (d, p, failed err)
           | Inr (g, outcome, final) \<Rightarrow>
               (case commit outcome p of (committed, p') \<Rightarrow>
                  if \<not> committed
                  then (set_entry d a (e\<lparr>le_quarantined := True\<rparr>), p', failed (Gamecore GcVerificationFailed))
                  else
                    let d1 = set_entry d a (e\<lparr>le_game := g\<rparr>) in
                    (case final of
                       None \<Rightarrow> (d1, p', Some (outcome, g), None)
                     | Some record \<Rightarrow>
                         (case finalize_with arch iid a record (outcome, g) d1 of (d2, r) \<Rightarrow> (d2, p', r))))))"

definition archive_recovered ::
  "'g live_game \<Rightarrow> 'a archiver \<Rightarrow> 'g option \<Rightarrow> command_outcome \<Rightarrow> ('g, 'a) live_directory \<Rightarrow>
     ('g, 'a) live_directory \<times> final_record returned" where
  "archive_recovered ops arch game outcome d =
     (case game of
        None \<Rightarrow> (d, failed (Gamecore GcInvalidArgument))
      | Some g \<Rightarrow>
          if \<not> oc_terminal outcome \<or> length (oc_final outcome) = 0 then (d, failed (Gamecore GcInvalidArgument))
          else
            (case new_final_record (lg_instance ops g) (lg_descriptor ops g) FinalCompleted (oc_version outcome)
                    (oc_final outcome) of
               Inl err \<Rightarrow> (d, failed err)
             | Inr record \<Rightarrow>
                 (case arch record (ld_archive d) of (archived, ar) \<Rightarrow>
                    (d\<lparr>ld_archive := ar\<rparr>, Some record, if archived then None else Some (Gamecore GcArchiveFailed)))))"

definition view_at :: "'g live_game \<Rightarrow> nat \<Rightarrow> view_request \<Rightarrow> ('g, 'a) live_directory \<Rightarrow> go_error + game_view" where
  "view_at ops a request d =
     (let e = ld_heap d ! a in
      if le_closed e \<or> le_quarantined e then Inl (Gamecore GcInstanceNotFound)
      else if \<not> vr_public request \<and>
              (vr_position request < 1 \<or> vr_position request > ds_participants (le_descriptor e))
      then Inl (Gamecore GcInvalidArgument)
      else lg_view ops (le_game e) request)"

definition abort_at ::
  "'g live_game \<Rightarrow> 'a archiver \<Rightarrow> string \<Rightarrow> nat \<Rightarrow> string \<Rightarrow> ('g, 'a) live_directory \<Rightarrow>
     ('g, 'a) live_directory \<times> final_record returned" where
  "abort_at ops arch iid a reason d =
     (let e = ld_heap d ! a in
      if le_closed e then (d, failed (Gamecore GcInstanceNotFound))
      else if le_pending e \<noteq> None then (d, failed (Gamecore GcFinalizationPending))
      else case gc_validate_identifier reason of
        Inl err \<Rightarrow> (d, failed err)
      | Inr _ \<Rightarrow>
          (case lg_abort ops (le_game e) reason of (g, result) \<Rightarrow>
             let d1 = set_entry d a (e\<lparr>le_game := g\<rparr>) in
             (case result of
                Inl err \<Rightarrow> (d1, failed err)
              | Inr outcome \<Rightarrow>
                  (case new_final_record iid (le_descriptor e) FinalAborted (ao_version outcome) (ao_final outcome) of
                     Inl err \<Rightarrow> (d1, failed err)
                   | Inr record \<Rightarrow> finalize_with arch iid a record record d1))))"

definition retry_at ::
  "'a archiver \<Rightarrow> string \<Rightarrow> nat \<Rightarrow> ('g, 'a) live_directory \<Rightarrow> ('g, 'a) live_directory \<times> final_record returned" where
  "retry_at arch iid a d =
     (let e = ld_heap d ! a in
      if le_closed e then (d, failed (Gamecore GcInstanceNotFound))
      else case le_pending e of
        None \<Rightarrow> (d, failed (Gamecore GcNotFinalizing))
      | Some record \<Rightarrow> (case archive_pending arch iid a d of (d', err) \<Rightarrow> (d', Some record, err)))"

definition pending_at :: "nat \<Rightarrow> ('g, 'a) live_directory \<Rightarrow> go_error + final_record option" where
  "pending_at a d =
     (if le_closed (ld_heap d ! a) then Inl (Gamecore GcInstanceNotFound)
      else Inr (le_pending (ld_heap d ! a)))"

definition compensate_at ::
  "string \<Rightarrow> nat \<Rightarrow> ('g, 'a) live_directory \<Rightarrow> ('g, 'a) live_directory \<times> go_error option" where
  "compensate_at iid a d =
     (let e = ld_heap d ! a in
      if le_closed e \<or> le_pending e \<noteq> None then (d, Some (Gamecore GcFinalizationPending))
      else if ld_map d iid \<noteq> Some a then (d, Some (Gamecore GcInstanceNotFound))
      else (set_entry (d\<lparr>ld_map := (ld_map d)(iid := None)\<rparr>) a (e\<lparr>le_closed := True\<rparr>), None))"

section \<open>The operations\<close>

text \<open>A lookup followed by the locked part; a nil receiver is \<open>None\<close>.\<close>

definition with_entry ::
  "('g, 'a) live_directory option \<Rightarrow> string \<Rightarrow>
     (nat \<Rightarrow> ('g, 'a) live_directory \<Rightarrow> ('g, 'a) live_directory \<times> 'r returned) \<Rightarrow>
     ('g, 'a) live_directory option \<times> 'r returned" where
  "with_entry receiver iid f =
     (case receiver of
        None \<Rightarrow> (None, failed (Gamecore GcInvalidArgument))
      | Some d \<Rightarrow>
          (case find_entry d iid of
             Inl err \<Rightarrow> (Some d, failed err)
           | Inr a \<Rightarrow> (case f a d of (d', r) \<Rightarrow> (Some d', r))))"

definition live_apply ::
  "'g live_game \<Rightarrow> 'a archiver \<Rightarrow> ('g, 'a) live_directory option \<Rightarrow> string \<Rightarrow> command \<Rightarrow>
     ('g, 'a) live_directory option \<times> command_outcome returned" where
  "live_apply ops arch receiver iid cmd = with_entry receiver iid (\<lambda>a d. apply_at ops arch iid a cmd d)"

definition live_abort ::
  "'g live_game \<Rightarrow> 'a archiver \<Rightarrow> ('g, 'a) live_directory option \<Rightarrow> string \<Rightarrow> string \<Rightarrow>
     ('g, 'a) live_directory option \<times> final_record returned" where
  "live_abort ops arch receiver iid reason = with_entry receiver iid (\<lambda>a d. abort_at ops arch iid a reason d)"

definition live_retry ::
  "'a archiver \<Rightarrow> ('g, 'a) live_directory option \<Rightarrow> string \<Rightarrow>
     ('g, 'a) live_directory option \<times> final_record returned" where
  "live_retry arch receiver iid = with_entry receiver iid (\<lambda>a d. retry_at arch iid a d)"

definition live_commit ::
  "'g live_game \<Rightarrow> 'a archiver \<Rightarrow> ('g, 'a) live_directory option \<Rightarrow> string \<Rightarrow> command \<Rightarrow>
     (command_outcome \<Rightarrow> 'p \<Rightarrow> bool \<times> 'p) option \<Rightarrow> 'p \<Rightarrow>
     ('g, 'a) live_directory option \<times> 'p \<times> (command_outcome \<times> 'g) returned" where
  "live_commit ops arch receiver iid cmd persist p =
     (if persist = None then (receiver, p, failed (Gamecore GcInvalidArgument))
      else case receiver of
        None \<Rightarrow> (None, p, failed (Gamecore GcInvalidArgument))
      | Some d \<Rightarrow>
          (case find_entry d iid of
             Inl err \<Rightarrow> (Some d, p, failed err)
           | Inr a \<Rightarrow> (case commit_at ops arch iid a cmd persist p d of (d', p', r) \<Rightarrow> (Some d', p', r))))"

section \<open>Interleavings\<close>

text \<open>
  The critical sections of any number of goroutines, in any order. \<open>ids\<close> records under which id each
  entry was added; a goroutine may hold the address of any entry ever added, since it may have looked
  it up before the entry was closed. \<open>ArchiveRecoveredFinal\<close> is not a step: it touches no entry.
\<close>

inductive ld_step ::
  "'g live_game \<Rightarrow> 'a archiver \<Rightarrow> string list \<times> ('g, 'a) live_directory \<Rightarrow>
     string list \<times> ('g, 'a) live_directory \<Rightarrow> bool"
  for ops :: "'g live_game" and arch :: "'a archiver" where
  ld_add: "add_game ops d expected (Some g) = Inr d' \<Longrightarrow>
    ld_step ops arch (ids, d) (ids @ [lg_instance ops g], d')"
| ld_apply: "a < length ids \<Longrightarrow> apply_at ops arch (ids ! a) a cmd d = (d', r) \<Longrightarrow>
    ld_step ops arch (ids, d) (ids, d')"
| ld_commit: "a < length ids \<Longrightarrow>
    commit_at ops arch (ids ! a) a cmd (Some (\<lambda>outcome u. (durable outcome, u))) () d = (d', p, r) \<Longrightarrow>
    ld_step ops arch (ids, d) (ids, d')"
| ld_abort: "a < length ids \<Longrightarrow> abort_at ops arch (ids ! a) a reason d = (d', r) \<Longrightarrow>
    ld_step ops arch (ids, d) (ids, d')"
| ld_retry: "a < length ids \<Longrightarrow> retry_at arch (ids ! a) a d = (d', r) \<Longrightarrow>
    ld_step ops arch (ids, d) (ids, d')"
| ld_compensate: "a < length ids \<Longrightarrow> compensate_at (ids ! a) a d = (d', err) \<Longrightarrow>
    ld_step ops arch (ids, d) (ids, d')"

text \<open>An archive that also keeps the list of the records it has accepted.\<close>

definition logged :: "'a archiver \<Rightarrow> ('a \<times> final_record list) archiver" where
  "logged arch r s = (case arch r (fst s) of (ok, s') \<Rightarrow> (ok, (s', if ok then snd s @ [r] else snd s)))"

definition records_of :: "('g, 'a \<times> final_record list) live_directory \<Rightarrow> string \<Rightarrow> final_record list" where
  "records_of d iid = filter (\<lambda>r. fr_instance r = iid) (snd (ld_archive d))"

definition record_sealed :: "final_record \<Rightarrow> bool" where
  "record_sealed r \<longleftrightarrow>
     new_final_record (fr_instance r) (fr_descriptor r) (fr_status r) (fr_version r) (fr_payload r) = Inr r"

definition registration_ok :: "string \<Rightarrow> 'g live_entry \<Rightarrow> bool" where
  "registration_ok iid e \<longleftrightarrow> (le_closed e \<longrightarrow> le_pending e = None) \<and>
     (\<forall>r. le_pending e = Some r \<longrightarrow> record_sealed r \<and> fr_instance r = iid)"

definition directory_ok :: "string list \<Rightarrow> ('g, 'a \<times> final_record list) live_directory \<Rightarrow> bool" where
  "directory_ok ids d \<longleftrightarrow> length ids = length (ld_heap d) \<and>
     (\<forall>iid a. ld_map d iid = Some a \<longleftrightarrow> a < length ids \<and> ids ! a = iid \<and> \<not> le_closed (ld_heap d ! a)) \<and>
     (\<forall>a < length ids. registration_ok (ids ! a) (ld_heap d ! a)) \<and>
     (\<forall>r \<in> set (snd (ld_archive d)). record_sealed r) \<and>
     (\<forall>iid. length (records_of d iid) + (if ld_map d iid = None then 0 else 1) \<le> count_list ids iid)"

lemma new_final_record_sealed:
  "new_final_record iid ds st v p = Inr r \<Longrightarrow> record_sealed r \<and> fr_instance r = iid \<and> fr_descriptor r = ds \<and>
    fr_status r = st \<and> fr_version r = v \<and> fr_payload r = p"
  by (auto simp: new_final_record_def rbind_eq_Inr Let_def record_sealed_def)

lemma set_entry_ok:
  assumes "directory_ok ids d" and "a < length ids" and "registration_ok (ids ! a) e" and "le_closed e = le_closed (ld_heap d ! a)"
  shows "directory_ok ids (set_entry d a e)"
  using assms by (auto simp: directory_ok_def set_entry_def records_of_def nth_list_update)

lemma set_entry_heap [simp]: "a < length (ld_heap d) \<Longrightarrow> ld_heap (set_entry d a e) ! a = e"
  by (simp add: set_entry_def)

lemma directory_ok_length: "directory_ok ids d \<Longrightarrow> length (ld_heap d) = length ids"
  by (simp add: directory_ok_def)

lemma directory_ok_entry: "directory_ok ids d \<Longrightarrow> a < length ids \<Longrightarrow> registration_ok (ids ! a) (ld_heap d ! a)"
  by (simp add: directory_ok_def)

lemma directory_ok_map:
  "directory_ok ids d \<Longrightarrow>
    ld_map d iid = Some a \<longleftrightarrow> a < length ids \<and> ids ! a = iid \<and> \<not> le_closed (ld_heap d ! a)"
  unfolding directory_ok_def by blast

lemma directory_ok_open_unique:
  "directory_ok ids d \<Longrightarrow> ld_map d iid = Some a \<Longrightarrow> b < length ids \<Longrightarrow> ids ! b = iid \<Longrightarrow>
    \<not> le_closed (ld_heap d ! b) \<Longrightarrow> b = a"
  by (metis directory_ok_map option.inject)

lemma directory_ok_absent:
  "directory_ok ids d \<Longrightarrow> ld_map d iid = None \<Longrightarrow> b < length ids \<Longrightarrow> ids ! b = iid \<Longrightarrow>
    le_closed (ld_heap d ! b)"
  by (metis directory_ok_map option.distinct(1))

lemma archive_pending_ok:
  assumes ok: "directory_ok ids d" and a: "a < length ids" and "\<not> le_closed (ld_heap d ! a)"
    and run: "archive_pending (logged arch) (ids ! a) a d = (d', err)"
  shows "directory_ok ids d'"
proof (cases "le_pending (ld_heap d ! a)")
  case None
  then show ?thesis using ok run by (simp add: archive_pending_def)
next
  case (Some r)
  have r: "record_sealed r" "fr_instance r = ids ! a"
    using directory_ok_entry [OF ok a] Some by (auto simp: registration_ok_def)
  have here: "ld_map d (ids ! a) = Some a" using ok a assms(3) by (auto simp: directory_ok_def)
  obtain b s where arch: "arch r (fst (ld_archive d)) = (b, s)" by (meson surj_pair)
  show ?thesis
  proof (cases b)
    case False
    then have "d' = d\<lparr>ld_archive := (s, snd (ld_archive d))\<rparr>"
      using run Some arch by (auto simp: archive_pending_def logged_def Let_def)
    then show ?thesis using ok by (simp add: directory_ok_def records_of_def)
  next
    case True
    have counts: "length (records_of d iid) + (if ld_map d iid = None then 0 else 1) \<le> count_list ids iid" for iid
      using ok by (simp add: directory_ok_def)
    have d': "d' = set_entry (d\<lparr>ld_archive := (s, snd (ld_archive d) @ [r]), ld_map := (ld_map d)(ids ! a := None)\<rparr>) a
        ((ld_heap d ! a)\<lparr>le_pending := None, le_closed := True\<rparr>)"
      using run Some arch here True by (auto simp: archive_pending_def logged_def Let_def)
    have "length (records_of d' iid) + (if ld_map d' iid = None then 0 else 1) \<le> count_list ids iid" for iid
      using counts [of iid] r here by (auto simp: d' records_of_def set_entry_def)
    moreover have "ld_map d' iid = Some b \<longleftrightarrow> b < length ids \<and> ids ! b = iid \<and> \<not> le_closed (ld_heap d' ! b)" for iid b
      using ok a directory_ok_open_unique [OF ok here, of b]
      by (auto simp: d' directory_ok_def set_entry_def nth_list_update)
    ultimately show ?thesis
      using ok a r by (simp add: d' directory_ok_def set_entry_def nth_list_update registration_ok_def)
  qed
qed

lemma finalize_ok:
  assumes ok: "directory_ok ids d" and a: "a < length ids" and open1: "\<not> le_closed (ld_heap d ! a)"
    and r: "new_final_record (ids ! a) ds st v p = Inr r"
    and run: "finalize_with (logged arch) (ids ! a) a r value d = (d', out)"
  shows "directory_ok ids d'"
proof -
  let ?d = "set_entry d a ((ld_heap d ! a)\<lparr>le_pending := Some r\<rparr>)"
  have "directory_ok ids ?d"
    using ok a open1 new_final_record_sealed [OF r] by (intro set_entry_ok) (auto simp: registration_ok_def)
  moreover have "\<not> le_closed (ld_heap ?d ! a)" using a open1 directory_ok_length [OF ok] by simp
  moreover obtain err where "archive_pending (logged arch) (ids ! a) a ?d = (d', err)"
    using run by (auto simp: finalize_with_def split: prod.splits)
  ultimately show ?thesis using archive_pending_ok a by blast
qed

lemma set_game_ok:
  assumes "directory_ok ids d" and "a < length ids"
  shows "directory_ok ids (set_entry d a ((ld_heap d ! a)\<lparr>le_game := g\<rparr>))"
    and "directory_ok ids (set_entry d a ((ld_heap d ! a)\<lparr>le_quarantined := q\<rparr>))"
  using assms directory_ok_entry [OF assms] by (auto intro!: set_entry_ok simp: registration_ok_def)

lemma apply_ok:
  assumes ok: "directory_ok ids d" and a: "a < length ids"
    and run: "apply_at ops (logged arch) (ids ! a) a cmd d = (d', r)"
  shows "directory_ok ids d'"
proof -
  obtain g result where step: "lg_apply ops (le_game (ld_heap d ! a)) cmd = (g, result)" by (meson surj_pair)
  let ?d = "set_entry d a ((ld_heap d ! a)\<lparr>le_game := g\<rparr>)"
  have ok1: "directory_ok ids ?d" and "length (ld_heap d) = length ids"
    using set_game_ok [OF ok a] directory_ok_length [OF ok] by auto
  then have heap: "ld_heap ?d ! a = (ld_heap d ! a)\<lparr>le_game := g\<rparr>" using a by simp
  consider "d' = d" | "d' = ?d"
    | outcome final where "\<not> le_closed (ld_heap d ! a)"
        "new_final_record (ids ! a) (le_descriptor (ld_heap d ! a)) FinalCompleted (oc_version outcome) (oc_final outcome) = Inr final"
        "finalize_with (logged arch) (ids ! a) a final outcome ?d = (d', r)"
    using run step by (auto simp: apply_at_def Let_def split: if_splits sum.splits)
  then show ?thesis
  proof cases
    case 3
    then show ?thesis using finalize_ok [OF ok1 a] heap by simp
  qed (use ok ok1 in simp_all)
qed

lemma abort_ok:
  assumes ok: "directory_ok ids d" and a: "a < length ids"
    and run: "abort_at ops (logged arch) (ids ! a) a reason d = (d', r)"
  shows "directory_ok ids d'"
proof -
  obtain g result where step: "lg_abort ops (le_game (ld_heap d ! a)) reason = (g, result)" by (meson surj_pair)
  let ?d = "set_entry d a ((ld_heap d ! a)\<lparr>le_game := g\<rparr>)"
  have ok1: "directory_ok ids ?d" and "length (ld_heap d) = length ids"
    using set_game_ok [OF ok a] directory_ok_length [OF ok] by auto
  then have heap: "ld_heap ?d ! a = (ld_heap d ! a)\<lparr>le_game := g\<rparr>" using a by simp
  consider "d' = d" | "d' = ?d"
    | outcome :: abort_outcome and final where "\<not> le_closed (ld_heap d ! a)"
        "new_final_record (ids ! a) (le_descriptor (ld_heap d ! a)) FinalAborted (ao_version outcome) (ao_final outcome) = Inr final"
        "finalize_with (logged arch) (ids ! a) a final final ?d = (d', r)"
    using run step by (auto simp: abort_at_def Let_def split: if_splits sum.splits)
  then show ?thesis
  proof cases
    case 3
    then show ?thesis using finalize_ok [OF ok1 a] heap by simp
  qed (use ok ok1 in simp_all)
qed

lemma candidate_of_Inr:
  "candidate_of ops iid e cmd = Inr (g, outcome, final) \<Longrightarrow>
    \<not> le_closed e \<and> \<not> le_quarantined e \<and> le_pending e = None \<and>
    (\<exists>copy. lg_clone ops (le_game e) = Some (Inr copy) \<and> lg_apply ops copy cmd = (g, Inr outcome)) \<and>
    (case final of
       None \<Rightarrow> \<not> oc_terminal outcome \<and> oc_final outcome = []
     | Some record \<Rightarrow> oc_terminal outcome \<and>
         new_final_record iid (le_descriptor e) FinalCompleted (oc_version outcome) (oc_final outcome) = Inr record)"
  by (auto simp: candidate_of_def rbind_eq_Inr split: if_splits sum.splits option.splits prod.splits)

lemma commit_ok:
  assumes ok: "directory_ok ids d" and a: "a < length ids"
    and run: "commit_at ops (logged arch) (ids ! a) a cmd persist p d = (d', p', r)"
  shows "directory_ok ids d'"
proof -
  note heap = directory_ok_length [OF ok]
  consider "d' = d" | "d' = set_entry d a ((ld_heap d ! a)\<lparr>le_quarantined := True\<rparr>)"
    | g where "d' = set_entry d a ((ld_heap d ! a)\<lparr>le_game := g\<rparr>)"
    | g outcome final out where "candidate_of ops (ids ! a) (ld_heap d ! a) cmd = Inr (g, outcome, Some final)"
        "finalize_with (logged arch) (ids ! a) a final (outcome, g) (set_entry d a ((ld_heap d ! a)\<lparr>le_game := g\<rparr>)) = (d', out)"
    using run by (auto simp: commit_at_def Let_def split: if_splits sum.splits option.splits prod.splits)
  then show ?thesis
  proof cases
    case 4
    then show ?thesis
      using finalize_ok [OF set_game_ok(1) [OF ok a] a] candidate_of_Inr [OF 4(1)] a heap by fastforce
  qed (use ok set_game_ok [OF ok a] in simp_all)
qed

lemma retry_ok:
  assumes "directory_ok ids d" and "a < length ids" and "retry_at (logged arch) (ids ! a) a d = (d', r)"
  shows "directory_ok ids d'"
  using assms archive_pending_ok [OF assms(1,2)]
  by (auto simp: retry_at_def Let_def split: if_splits option.splits prod.splits)

lemma compensate_ok:
  assumes ok: "directory_ok ids d" and a: "a < length ids" and run: "compensate_at (ids ! a) a d = (d', r)"
  shows "directory_ok ids d'"
proof (cases "d' = d")
  case False
  then have here: "le_pending (ld_heap d ! a) = None" "ld_map d (ids ! a) = Some a"
    and d': "d' = set_entry (d\<lparr>ld_map := (ld_map d)(ids ! a := None)\<rparr>) a ((ld_heap d ! a)\<lparr>le_closed := True\<rparr>)"
    using run by (auto simp: compensate_at_def Let_def split: if_splits)
  have counts: "length (records_of d iid) + (if ld_map d iid = None then 0 else 1) \<le> count_list ids iid" for iid
    using ok by (simp add: directory_ok_def)
  have "length (records_of d' iid) + (if ld_map d' iid = None then 0 else 1) \<le> count_list ids iid" for iid
    using counts [of iid] here by (auto simp: d' records_of_def set_entry_def)
  moreover have "ld_map d' iid = Some b \<longleftrightarrow> b < length ids \<and> ids ! b = iid \<and> \<not> le_closed (ld_heap d' ! b)" for iid b
    using ok a directory_ok_open_unique [OF ok here(2), of b]
    by (auto simp: d' directory_ok_def set_entry_def nth_list_update)
  ultimately show ?thesis
    using ok a here by (simp add: d' directory_ok_def set_entry_def nth_list_update registration_ok_def)
qed (use ok in simp)

lemma add_game_Inr:
  "add_game ops d expected (Some g) = Inr d' \<Longrightarrow> ld_map d (lg_instance ops g) = None \<and>
    d' = d\<lparr>ld_heap := ld_heap d @ [\<lparr>le_game = g, le_descriptor = expected, le_pending = None,
        le_closed = False, le_quarantined = False\<rparr>],
      ld_map := (ld_map d)(lg_instance ops g \<mapsto> length (ld_heap d))\<rparr>"
  by (auto simp: add_game_def rbind_eq_Inr Let_def split: if_splits)

lemma add_ok:
  assumes ok: "directory_ok ids d" and run: "add_game ops d expected (Some g) = Inr d'"
  shows "directory_ok (ids @ [lg_instance ops g]) d'"
proof -
  note add = add_game_Inr [OF run] and len = directory_ok_length [OF ok]
  have counts: "length (records_of d iid) + (if ld_map d iid = None then 0 else 1) \<le> count_list ids iid" for iid
    using ok by (simp add: directory_ok_def)
  have "length (records_of d' iid) + (if ld_map d' iid = None then 0 else 1)
      \<le> count_list (ids @ [lg_instance ops g]) iid" for iid
    using counts [of iid] add by (auto simp: records_of_def)
  moreover have "ld_map d' iid = Some a \<longleftrightarrow>
      a < length (ids @ [lg_instance ops g]) \<and> (ids @ [lg_instance ops g]) ! a = iid \<and> \<not> le_closed (ld_heap d' ! a)" for iid a
    using ok add len directory_ok_absent [OF ok, of "lg_instance ops g" a]
    by (auto simp: directory_ok_def nth_append less_Suc_eq)
  ultimately show ?thesis
    using ok add len by (simp add: directory_ok_def nth_append less_Suc_eq registration_ok_def)
qed

lemma ld_step_ok:
  assumes "ld_step ops (logged arch) s s'" and "directory_ok (fst s) (snd s)"
  shows "directory_ok (fst s') (snd s')"
  using assms by cases (auto dest: add_ok apply_ok commit_ok abort_ok retry_ok compensate_ok)

lemma ld_run_ok:
  "(ld_step ops (logged arch))\<^sup>*\<^sup>* s s' \<Longrightarrow> directory_ok (fst s) (snd s) \<Longrightarrow> directory_ok (fst s') (snd s')"
  by (induction rule: rtranclp_induct) (auto dest: ld_step_ok)

section \<open>What the directory promises\<close>

lemma new_live_directory_ok:
  "new_live_directory (Some (a, [])) = Inr d \<Longrightarrow> directory_ok [] d"
  by (auto simp: new_live_directory_def directory_ok_def records_of_def)

lemma ld_run_directory:
  assumes "new_live_directory (Some (a, [])) = Inr d0" and "(ld_step ops (logged arch))\<^sup>*\<^sup>* ([], d0) (ids, d)"
  shows "directory_ok ids d"
  using ld_run_ok [OF assms(2)] new_live_directory_ok [OF assms(1)] by simp

text \<open>The heap keeps every entry, and a quarantined entry stays quarantined.\<close>

definition keeps_quarantine :: "'g live_entry list \<Rightarrow> 'g live_entry list \<Rightarrow> bool" where
  "keeps_quarantine h h' \<longleftrightarrow> length h \<le> length h' \<and>
     (\<forall>a < length h. le_quarantined (h ! a) \<longrightarrow> le_quarantined (h' ! a))"

lemma keeps_quarantine_refl [simp]: "keeps_quarantine h h"
  by (simp add: keeps_quarantine_def)

lemma keeps_quarantine_trans: "keeps_quarantine h h1 \<Longrightarrow> keeps_quarantine h1 h2 \<Longrightarrow> keeps_quarantine h h2"
  by (simp add: keeps_quarantine_def)

lemma keeps_quarantine_update:
  "(le_quarantined (h ! a) \<Longrightarrow> le_quarantined e) \<Longrightarrow> keeps_quarantine h (h[a := e])"
  by (cases "a < length h") (simp_all add: keeps_quarantine_def nth_list_update list_update_beyond)

lemma archive_pending_quarantine:
  "archive_pending arch iid a d = (d', err) \<Longrightarrow> keeps_quarantine (ld_heap d) (ld_heap d')"
  by (auto simp: archive_pending_def set_entry_def Let_def keeps_quarantine_update
      split: option.splits prod.splits if_splits)

lemma finalize_quarantine:
  assumes "finalize_with arch iid a r value d = (d', out)"
  shows "keeps_quarantine (ld_heap d) (ld_heap d')"
proof -
  let ?d = "set_entry d a ((ld_heap d ! a)\<lparr>le_pending := Some r\<rparr>)"
  obtain err where "archive_pending arch iid a ?d = (d', err)"
    using assms by (auto simp: finalize_with_def split: prod.splits)
  moreover have "keeps_quarantine (ld_heap d) (ld_heap ?d)"
    by (simp add: set_entry_def keeps_quarantine_update)
  ultimately show ?thesis using archive_pending_quarantine keeps_quarantine_trans by blast
qed

lemma set_entry_quarantine:
  "(le_quarantined (ld_heap d ! a) \<Longrightarrow> le_quarantined e) \<Longrightarrow> keeps_quarantine (ld_heap d) (ld_heap (set_entry d a e))"
  by (simp add: set_entry_def keeps_quarantine_update)

lemma finalize_after_set_quarantine:
  "finalize_with arch iid a r value (set_entry d a ((ld_heap d ! a)\<lparr>le_game := g\<rparr>)) = (d', out) \<Longrightarrow>
    keeps_quarantine (ld_heap d) (ld_heap d')"
  by (rule keeps_quarantine_trans [OF set_entry_quarantine finalize_quarantine]) simp_all

lemmas quarantine_kept = archive_pending_quarantine finalize_after_set_quarantine set_entry_quarantine

lemma ld_step_quarantine: "ld_step ops arch s s' \<Longrightarrow> keeps_quarantine (ld_heap (snd s)) (ld_heap (snd s'))"
proof (induction rule: ld_step.induct)
  case (ld_add d expected g d' ids)
  then show ?case by (auto dest!: add_game_Inr simp: keeps_quarantine_def nth_append)
next
  case (ld_apply a ids cmd d d' r)
  then show ?case
    by (auto simp: apply_at_def Let_def split: if_splits sum.splits prod.splits intro: quarantine_kept)
next
  case (ld_commit a ids cmd durable d d' p r)
  then show ?case
    by (auto simp: commit_at_def Let_def split: if_splits sum.splits prod.splits option.splits intro: quarantine_kept)
next
  case (ld_abort a ids reason d d' r)
  then show ?case
    by (auto simp: abort_at_def Let_def split: if_splits sum.splits prod.splits intro: quarantine_kept)
next
  case (ld_retry a ids d d' r)
  then show ?case
    by (auto simp: retry_at_def Let_def split: if_splits prod.splits option.splits intro: quarantine_kept)
next
  case (ld_compensate a ids d d' err)
  then show ?case
    by (auto simp: compensate_at_def Let_def set_entry_def keeps_quarantine_update split: if_splits)
qed

lemma ld_run_quarantine:
  "(ld_step ops arch)\<^sup>*\<^sup>* s s' \<Longrightarrow> keeps_quarantine (ld_heap (snd s)) (ld_heap (snd s'))"
  by (induction rule: rtranclp_induct) (auto intro: keeps_quarantine_trans dest: ld_step_quarantine)

lemma quarantined_refuses:
  assumes "le_quarantined (ld_heap d ! a)"
  shows "apply_at ops arch iid a cmd d = (d, failed (Gamecore GcInstanceNotFound))"
    and "commit_at ops arch iid a cmd (Some commit) p d = (d, p, failed (Gamecore GcFinalizationPending))"
    and "view_at ops a request d = Inl (Gamecore GcInstanceNotFound)"
  using assms by (simp_all add: apply_at_def commit_at_def candidate_of_def view_at_def Let_def)

lemma archive_pending_game:
  "archive_pending arch iid a d = (d', err) \<Longrightarrow> a < length (ld_heap d) \<Longrightarrow>
    le_game (ld_heap d' ! a) = le_game (ld_heap d ! a) \<and> length (ld_heap d') = length (ld_heap d)"
  by (auto simp: archive_pending_def set_entry_def Let_def split: option.splits prod.splits if_splits)

lemma finalize_game:
  "finalize_with arch iid a r value d = (d', out) \<Longrightarrow> a < length (ld_heap d) \<Longrightarrow>
    le_game (ld_heap d' ! a) = le_game (ld_heap d ! a) \<and> fst out = Some value"
  by (auto simp: finalize_with_def set_entry_def split: prod.splits dest!: archive_pending_game)

section \<open>Properties\<close>

text \<open>C10: However the critical sections of concurrent callers interleave, the live directory archives at most
  one final record per registration of an instance id (none for one that is still open or was compensated),
  and every archived record is the one its own fields determine, with a matching digest.\<close>

theorem live_archived_at_most_once:
  assumes "new_live_directory (Some (a, [])) = Inr d0" and "(ld_step ops (logged arch))\<^sup>*\<^sup>* ([], d0) (ids, d)"
  shows "length (records_of d iid) + (if contains d iid then 1 else 0) \<le> count_list ids iid \<and>
    (\<forall>r \<in> set (records_of d iid). new_final_record iid (fr_descriptor r) (fr_status r) (fr_version r) (fr_payload r) = Inr r)"
  using ld_run_directory [OF assms] by (auto simp: directory_ok_def contains_def records_of_def record_sealed_def split: if_splits)

text \<open>C14: \<open>ApplyCommitted\<close> publishes a new game state or reports success only after the durable commit of exactly
  the outcome it returns has succeeded on a copy of the open, unquarantined game; when the commit fails, the game
  is left as it was and the entry is quarantined.\<close>

theorem commit_before_publish:
  assumes "a < length (ld_heap d)" and "commit_at ops arch iid a cmd (Some commit) p d = (d', p', r)"
  shows "(le_game (ld_heap d' ! a) \<noteq> le_game (ld_heap d ! a) \<or> snd r = None \<longrightarrow>
      (\<exists>copy g outcome. lg_clone ops (le_game (ld_heap d ! a)) = Some (Inr copy) \<and> lg_apply ops copy cmd = (g, Inr outcome) \<and>
         commit outcome p = (True, p') \<and> le_game (ld_heap d' ! a) = g \<and> fst r = Some (outcome, g) \<and>
         \<not> le_closed (ld_heap d ! a) \<and> \<not> le_quarantined (ld_heap d ! a) \<and> le_pending (ld_heap d ! a) = None)) \<and>
    (\<forall>g outcome final. candidate_of ops iid (ld_heap d ! a) cmd = Inr (g, outcome, final) \<longrightarrow> \<not> fst (commit outcome p) \<longrightarrow>
       le_game (ld_heap d' ! a) = le_game (ld_heap d ! a) \<and> le_quarantined (ld_heap d' ! a) \<and> fst r = None)"
proof (cases "candidate_of ops iid (ld_heap d ! a) cmd")
  case (Inl err)
  then show ?thesis using assms by (auto simp: commit_at_def Let_def)
next
  case (Inr c)
  obtain g outcome final where c: "c = (g, outcome, final)" by (metis prod_cases3)
  obtain b p1 where b: "commit outcome p = (b, p1)" by (meson surj_pair)
  note cand = candidate_of_Inr [OF Inr [unfolded c]]
  show ?thesis
  proof (cases b)
    case False
    then show ?thesis using assms Inr c b by (auto simp: commit_at_def Let_def)
  next
    case True
    have "le_game (ld_heap d' ! a) = g \<and> fst r = Some (outcome, g) \<and> p' = p1"
      using assms Inr c b True
      by (auto simp: commit_at_def Let_def set_entry_def split: option.splits prod.splits dest!: finalize_game)
    then show ?thesis using cand b True Inr c by auto
  qed
qed

text \<open>Once an instance is quarantined, no later interleaving makes it accept a command, a durable command or a
  view again.\<close>

theorem quarantine_permanent:
  assumes "(ld_step ops arch)\<^sup>*\<^sup>* (ids, d) (ids', d')" and "a < length (ld_heap d)" and "le_quarantined (ld_heap d ! a)"
  shows "apply_at ops arch iid a cmd d' = (d', failed (Gamecore GcInstanceNotFound)) \<and>
    commit_at ops arch iid a cmd (Some commit) p d' = (d', p, failed (Gamecore GcFinalizationPending)) \<and>
    view_at ops a request d' = Inl (Gamecore GcInstanceNotFound)"
  using ld_run_quarantine [OF assms(1)] assms(2,3) by (simp add: quarantined_refuses keeps_quarantine_def)

section \<open>Witnesses\<close>

definition small_descriptor :: descriptor where
  "small_descriptor = \<lparr>ds_game = ''g'', ds_ruleset = ''r'', ds_module = ''m'', ds_suite = ''f'', ds_participants = 2\<rparr>"

text \<open>A game of one move, which ends it; the state tells whether it was made.\<close>

definition small_game :: "bool live_game" where
  "small_game = \<lparr>lg_descriptor = (\<lambda>_. small_descriptor), lg_instance = (\<lambda>_. ''i1''),
     lg_apply = (\<lambda>g cmd. (True, Inr \<lparr>oc_version = 2, oc_payload = [], oc_terminal = True, oc_final = [1]\<rparr>)),
     lg_view = (\<lambda>g request. Inr \<lparr>gv_version = 1, gv_payload = []\<rparr>),
     lg_abort = (\<lambda>g reason. (True, Inr \<lparr>ao_version = 1, ao_final = [1]\<rparr>)),
     lg_clone = (\<lambda>g. Some (Inr g))\<rparr>"

definition small_directory :: "bool \<Rightarrow> bool \<Rightarrow> final_record option \<Rightarrow> bool \<Rightarrow> 'a \<Rightarrow> (bool, 'a) live_directory" where
  "small_directory g closed pending quarantined a =
     \<lparr>ld_heap = [\<lparr>le_game = g, le_descriptor = small_descriptor, le_pending = pending, le_closed = closed,
        le_quarantined = quarantined\<rparr>],
      ld_map = (if closed then Map.empty else [''i1'' \<mapsto> 0]), ld_archive = a\<rparr>"

definition small_move :: command where
  "small_move = \<lparr>cm_actor = 1, cm_expected = 1, cm_payload = []\<rparr>"

lemma small_valid [simp]:
  "validate_instance_id ''i1'' = Inr ()" "descriptor_validate small_descriptor = Inr ()"
  "gc_validate_identifier ''r'' = Inr ()"
  by code_simp+

lemma small_payload [simp]: "gc_validate_payload [1] False = Inr ()"
  by (simp add: gc_validate_payload_def max_payload_bytes_def)

lemma small_participants [simp]: "ds_participants small_descriptor = 2"
  by (simp add: small_descriptor_def)

definition small_record :: "final_status \<Rightarrow> u64 \<Rightarrow> final_record" where
  "small_record st v =
     (let r = \<lparr>fr_instance = ''i1'', fr_descriptor = small_descriptor, fr_status = st, fr_version = v, fr_payload = [1],
        fr_digest = replicate 32 0\<rparr>
      in r\<lparr>fr_digest := final_record_digest r\<rparr>)"

lemma small_final [simp]:
  "v \<noteq> 0 \<Longrightarrow> st = FinalCompleted \<or> st = FinalAborted \<Longrightarrow>
    new_final_record ''i1'' small_descriptor st v [1] = Inr (small_record st v)"
  by (auto simp: new_final_record_def small_record_def Let_def)

lemma small_add:
  "add_game small_game \<lparr>ld_heap = [], ld_map = Map.empty, ld_archive = a\<rparr> small_descriptor (Some False) =
    Inr (small_directory False False None False a)"
  by (simp add: add_game_def small_game_def small_directory_def)

lemma small_apply:
  "apply_at small_game (logged (\<lambda>r u. (True, u))) ''i1'' 0 small_move (small_directory False False None False ((), [])) =
    (small_directory True True None False ((), [small_record FinalCompleted 2]),
     Some \<lparr>oc_version = 2, oc_payload = [], oc_terminal = True, oc_final = [1]\<rparr>, None)"
  by (simp add: apply_at_def small_directory_def small_game_def small_move_def finalize_with_def archive_pending_def
      set_entry_def logged_def Let_def)

lemma small_run:
  "(ld_step small_game (logged (\<lambda>r u. (True, u))))\<^sup>*\<^sup>* ([], \<lparr>ld_heap = [], ld_map = Map.empty, ld_archive = ((), [])\<rparr>)
    ([''i1''], small_directory True True None False ((), [small_record FinalCompleted 2]))"
proof -
  have "ld_step small_game (logged (\<lambda>r u. (True, u))) ([], \<lparr>ld_heap = [], ld_map = Map.empty, ld_archive = ((), [])\<rparr>)
      ([''i1''], small_directory False False None False ((), []))"
    using ld_step.ld_add [OF small_add, where ids = "[]"] by (simp add: small_game_def)
  moreover have "ld_step small_game (logged (\<lambda>r u. (True, u))) ([''i1''], small_directory False False None False ((), []))
      ([''i1''], small_directory True True None False ((), [small_record FinalCompleted 2]))"
    using small_apply by (intro ld_step.ld_apply [where a = 0 and cmd = small_move]) simp_all
  ultimately show ?thesis by (meson converse_rtranclp_into_rtranclp rtranclp.rtrancl_refl)
qed

theorem live_archived_at_most_once_witness:
  "length (records_of (small_directory True True None False ((), [small_record FinalCompleted 2])) ''i1'') = 1 \<and>
    length (records_of (small_directory True True None False ((), [small_record FinalCompleted 2])) ''i1'')
      \<le> count_list [''i1''] ''i1''"
  using live_archived_at_most_once [OF _ small_run, of "()" "''i1''"]
  by (simp add: new_live_directory_def records_of_def small_directory_def small_record_def Let_def split: if_splits)

text \<open>A commit that fails, and the quarantine it leaves.\<close>

lemma small_commit:
  "commit_at small_game arch ''i1'' 0 small_move (Some (\<lambda>outcome n. (False, Suc n))) 0 (small_directory False False None False a) =
    (small_directory False False None True a, 1, failed (Gamecore GcVerificationFailed))"
  by (simp add: commit_at_def candidate_of_def small_directory_def small_game_def small_move_def set_entry_def Let_def)

theorem commit_before_publish_witness:
  "le_quarantined (ld_heap (small_directory False False None True ()) ! 0) \<and>
    candidate_of small_game ''i1'' (ld_heap (small_directory False False None False ()) ! 0) small_move =
      Inr (True, \<lparr>oc_version = 2, oc_payload = [], oc_terminal = True, oc_final = [1]\<rparr>, Some (small_record FinalCompleted 2))"
proof -
  have cand: "candidate_of small_game ''i1'' (ld_heap (small_directory False False None False ()) ! 0) small_move =
      Inr (True, \<lparr>oc_version = 2, oc_payload = [], oc_terminal = True, oc_final = [1]\<rparr>, Some (small_record FinalCompleted 2))"
    by (simp add: candidate_of_def small_directory_def small_game_def small_move_def Let_def)
  have "0 < length (ld_heap (small_directory False False None False ()))" by (simp add: small_directory_def)
  from commit_before_publish [OF this small_commit [of "\<lambda>r u. (True, u)"]] cand show ?thesis by auto
qed

theorem quarantine_permanent_witness:
  "view_at small_game 0 \<lparr>vr_position = 1, vr_public = False\<rparr> (small_directory False False None True ((), [])) =
    Inl (Gamecore GcInstanceNotFound)"
proof -
  have "0 < length (ld_heap (small_directory False False None True ((), [])))"
    "le_quarantined (ld_heap (small_directory False False None True ((), [])) ! 0)"
    by (simp_all add: small_directory_def)
  from quarantine_permanent [OF rtranclp.rtrancl_refl this, THEN conjunct2, THEN conjunct2] show ?thesis .
qed

end
