(* ===== verification/Live_Game.thy ===== *)
theory Live_Game
  imports Live_Wire Live_Directory Randomized_Setup Hand
begin

text \<open>
  The running game of one hand (\<open>livehand/game.go\<close>): made from a dealing hand, its fairness material and
  its setup artifact; it takes bids, plays and passes as JSON commands, shows public and private views,
  and ends with a completed or an aborted payload. It is the \<open>LiveGame\<close> that the live directory runs.
  An operation on a nil game is refused like one on a terminal game; the model has no nil game.
\<close>

section \<open>State\<close>

definition public_view_version :: string where "public_view_version = ''doudizhu-live-public-view-v1''"
definition private_view_version :: string where "private_view_version = ''doudizhu-live-private-view-v1''"
definition terminal_payload_v1 :: string where "terminal_payload_v1 = ''doudizhu-live-terminal-v1''"
definition completed_payload_v1 :: string where "completed_payload_v1 = ''doudizhu-live-completed-v1''"
definition bid_command_version :: string where "bid_command_version = ''doudizhu-live-bid-command-v1''"
definition bid_result_version :: string where "bid_result_version = ''doudizhu-live-bid-result-v1''"
definition play_command_version :: string where "play_command_version = ''doudizhu-live-play-command-v1''"
definition pass_command_version :: string where "pass_command_version = ''doudizhu-live-pass-command-v1''"
definition play_result_version :: string where "play_result_version = ''doudizhu-live-play-result-v1''"
definition phase_bidding :: string where "phase_bidding = ''BIDDING''"
definition phase_no_landlord :: string where "phase_no_landlord = ''NO_LANDLORD''"
definition phase_playing :: string where "phase_playing = ''PLAYING''"
definition phase_completed :: string where "phase_completed = ''COMPLETED''"
definition phase_aborted :: string where "phase_aborted = ''ABORTED''"

lemmas phase_defs = phase_bidding_def phase_no_landlord_def phase_playing_def phase_completed_def phase_aborted_def

record live_hand =
  lh_id :: string
  lh_seats :: "hand_seat list"
  lh_phase :: string
  lh_version :: u64
  lh_artifact :: setup_artifact
  lh_setup :: setup_data
  lh_material :: fairness_material
  lh_transcript :: transcript
  lh_auction :: bid_state
  lh_play :: "pl_state option"
  lh_current :: "card list list"
  lh_landlord :: u8
  lh_score :: score
  lh_playing_seat :: u8
  lh_winner :: u8
  lh_settlement :: "settlement_result option"
  lh_terminal :: bool
  lh_origin :: hand_snapshot
  lh_history :: "command list"

section \<open>Making a game\<close>

definition material_transcript_input :: "fairness_material \<Rightarrow> transcript_input" where
  "material_transcript_input m =
     \<lparr>ti_hand = fm_instance m, ti_seed = fm_seed m, ti_server_commitment = fm_server_commitment m,
      ti_contributions = map (\<lambda>p. \<lparr>ce_seat = pf_position p, ce_digest = pf_contribution p,
         ce_commitment = pf_commitment p\<rparr>) (fm_participants m),
      ti_beacon = \<lparr>be_provider = mb_provider (fm_beacon m), be_round = mb_round (fm_beacon m),
         be_digest = mb_digest (fm_beacon m), be_proof_ref = mb_proof_ref (fm_beacon m)\<rparr>,
      ti_reveal_key = \<lparr>ra_key = mk_key (fm_key m), ra_hash = mk_hash (fm_key m)\<rparr>\<rparr>"

definition build_material_transcript :: "fairness_material \<Rightarrow> (go_error + transcript) option" where
  "build_material_transcript m =
     (case build_transcript (material_transcript_input m) of
        None \<Rightarrow> None
      | Some (Inl e) \<Rightarrow> Some (Inl e)
      | Some (Inr t) \<Rightarrow> map_option (\<lambda>r. rbind r (\<lambda>_. Inr t)) (verify_transcript t))"

text \<open>The loop over the three contributions of the hand, each against its participant of the material.\<close>

fun contributions_match :: "contribution_snapshot list \<Rightarrow> participant_fairness list \<Rightarrow> bool" where
  "contributions_match [] ps = True"
| "contributions_match (c # cs) (p # ps) \<longleftrightarrow>
     cs_committed c \<and> cs_revealed c \<and> pf_position p = cs_seat c \<and> pf_contribution p = cs_digest c \<and>
     pf_commitment p = cs_commitment c \<and> contributions_match cs ps"
| "contributions_match (c # cs) [] = False"

definition check_live_identity :: "hand_snapshot \<Rightarrow> fairness_material \<Rightarrow> go_error + unit" where
  "check_live_identity s m =
     rbind (reject (hn_phase s \<noteq> HandDealing) (Domain DmWrongPhase)) (\<lambda>_.
     rbind (restore_hand s) (\<lambda>_.
     rbind (material_validate m) (\<lambda>_.
     rbind (reject (fm_instance m \<noteq> hn_id s \<or> fm_descriptor m \<noteq> dd_descriptor) (Gamecore GcInvalidArgument)) (\<lambda>_.
     rbind (reject (hn_server_commitment s \<noteq> fm_server_commitment m) (Gamecore GcVerificationFailed)) (\<lambda>_.
     rbind (reject
        (case hn_beacon s of
           None \<Rightarrow> True
         | Some b \<Rightarrow> bv_provider b \<noteq> mb_provider (fm_beacon m) \<or> bv_round b \<noteq> mb_round (fm_beacon m) \<or>
             bv_digest b \<noteq> mb_digest (fm_beacon m) \<or> bv_proof_ref b \<noteq> mb_proof_ref (fm_beacon m))
        (Gamecore GcVerificationFailed)) (\<lambda>_.
     rbind (reject (hn_reveal_key s \<noteq> mk_key (fm_key m) \<or> hn_reveal_hash s \<noteq> mk_hash (fm_key m))
        (Gamecore GcVerificationFailed)) (\<lambda>_.
       reject (\<not> contributions_match (hn_contributions s) (fm_participants m)) (Gamecore GcVerificationFailed))))))))"

definition transcript_matches :: "transcript \<Rightarrow> setup_data \<Rightarrow> bool" where
  "transcript_matches t s \<longleftrightarrow>
     tr_deck t = su_deck s \<and> tr_deck_digest t = su_deck_digest s \<and> dr_hands (tr_deal t) = su_hands s \<and>
     dr_landlord (tr_deal t) = su_landlord s \<and> tr_deal_digest t = su_deal_digest s"

definition initial_hand ::
  "hand_snapshot \<Rightarrow> fairness_material \<Rightarrow> setup_artifact \<Rightarrow> setup_data \<Rightarrow> transcript \<Rightarrow> bid_state \<Rightarrow> live_hand" where
  "initial_hand s m a su t auction =
     \<lparr>lh_id = fm_instance m, lh_seats = hn_seats s, lh_phase = phase_bidding, lh_version = 1, lh_artifact = a,
      lh_setup = su, lh_material = m, lh_transcript = t, lh_auction = auction, lh_play = None,
      lh_current = su_hands su, lh_landlord = 0, lh_score = 0, lh_playing_seat = 0, lh_winner = 0,
      lh_settlement = None, lh_terminal = False, lh_origin = s, lh_history = []\<rparr>"

text \<open>\<open>New\<close>; \<open>None\<close> where one of the rejection samplers never ends.\<close>

definition new_live_hand :: "hand_snapshot \<Rightarrow> fairness_material \<Rightarrow> setup_artifact \<Rightarrow> (go_error + live_hand) option" where
  "new_live_hand s m a =
     (case check_live_identity s m of
        Inl e \<Rightarrow> Some (Inl e)
      | Inr _ \<Rightarrow>
          (case verify_setup m a of
             None \<Rightarrow> None
           | Some (Inl e) \<Rightarrow> Some (Inl e)
           | Some (Inr _) \<Rightarrow>
               (case decode_artifact a of
                  Inl e \<Rightarrow> Some (Inl e)
                | Inr su \<Rightarrow>
                    (case build_material_transcript m of
                       None \<Rightarrow> None
                     | Some (Inl e) \<Rightarrow> Some (Inl e)
                     | Some (Inr t) \<Rightarrow>
                         if \<not> transcript_matches t su then Some (Inl (Gamecore GcVerificationFailed))
                         else map_option (\<lambda>r. rbind r (\<lambda>auction. Inr (initial_hand s m a su t auction)))
                                (new_bidding (su_deal_digest su))))))"

section \<open>Commands\<close>

definition decode_strict_json :: "bytes \<Rightarrow> 'r field list \<Rightarrow> bool \<Rightarrow> 'r \<Rightarrow> go_error + 'r" where
  "decode_strict_json payload fds strict zero =
     (if length payload = 0 then Inl (Livehand MalformedCommand)
      else case Option.bind (json_parse payload) (\<lambda>j. decode_struct fds strict j zero) of
        None \<Rightarrow> Inl (Livehand MalformedCommand)
      | Some r \<Rightarrow> Inr r)"

record bid_command =
  bc_version :: string
  bc_score :: score

definition bid_command_fields :: "bid_command field list" where
  "bid_command_fields =
     [field ''v'' decode_string bc_version (\<lambda>x. bc_version_update (\<lambda>_. x)),
      field ''score'' decode_word bc_score (\<lambda>x. bc_score_update (\<lambda>_. x))]"

definition decode_bid_command :: "bytes \<Rightarrow> go_error + bid_command" where
  "decode_bid_command payload =
     rbind (decode_strict_json payload bid_command_fields True \<lparr>bc_version = '''', bc_score = 0\<rparr>) (\<lambda>c.
       if bc_version c \<noteq> bid_command_version then Inl (Gamecore GcUnsupportedVersion) else Inr c)"

record play_command =
  yc_version :: string
  yc_cards :: "string slice"

definition play_command_fields :: "play_command field list" where
  "play_command_fields =
     [field ''v'' decode_string yc_version (\<lambda>x. yc_version_update (\<lambda>_. x)),
      field ''cards'' (decode_slice decode_string '''') yc_cards (\<lambda>x. yc_cards_update (\<lambda>_. x))]"

fun parse_codes :: "string list \<Rightarrow> go_error + card list" where
  "parse_codes [] = Inr []"
| "parse_codes (code # codes) =
     (case parse_card code of
        Inl e \<Rightarrow> Inl (Livehand MalformedCommand)
      | Inr c \<Rightarrow> rbind (parse_codes codes) (\<lambda>cs. Inr (c # cs)))"

definition decode_play_command :: "bytes \<Rightarrow> go_error + play_command \<times> card list" where
  "decode_play_command payload =
     rbind (decode_strict_json payload play_command_fields True \<lparr>yc_version = '''', yc_cards = None\<rparr>) (\<lambda>c.
     rbind (reject (yc_version c \<noteq> play_command_version) (Gamecore GcUnsupportedVersion)) (\<lambda>_.
     rbind (reject (length (elements (yc_cards c)) = 0 \<or> length (elements (yc_cards c)) > 20) (Livehand MalformedCommand)) (\<lambda>_.
     rbind (parse_codes (elements (yc_cards c))) (\<lambda>cards. Inr (c, cards)))))"

record pass_command =
  sc_version :: string

definition pass_command_fields :: "pass_command field list" where
  "pass_command_fields = [field ''v'' decode_string sc_version (\<lambda>x. sc_version_update (\<lambda>_. x))]"

definition decode_pass_command :: "bytes \<Rightarrow> go_error + pass_command" where
  "decode_pass_command payload =
     rbind (decode_strict_json payload pass_command_fields True \<lparr>sc_version = ''''\<rparr>) (\<lambda>c.
       if sc_version c \<noteq> pass_command_version then Inl (Gamecore GcUnsupportedVersion) else Inr c)"

text \<open>The header of a command: its version, with other members ignored.\<close>

definition command_payload_version :: "bytes \<Rightarrow> go_error + string" where
  "command_payload_version payload =
     (if length payload = 0 then Inl (Livehand MalformedCommand)
      else rbind (decode_strict_json payload pass_command_fields False \<lparr>sc_version = ''''\<rparr>) (\<lambda>h.
        if trim_space (sc_version h) = [] then Inl (Livehand MalformedCommand) else Inr (sc_version h)))"

fun remove_held_cards :: "card list \<Rightarrow> card list \<Rightarrow> go_error + card list" where
  "remove_held_cards remaining [] = Inr remaining"
| "remove_held_cards remaining (c # played) =
     (if c \<notin> set remaining then Inl (Livehand CardNotHeld)
      else remove_held_cards (remove1 c remaining) played)"

section \<open>Bidding\<close>

definition json_bid_result :: "live_hand \<Rightarrow> bid_snapshot \<Rightarrow> bool \<Rightarrow> json" where
  "json_bid_result g snapshot requires_termination = JObj
     (member ''v'' (JStr bid_result_version) @ member ''handId'' (JStr (lh_id g))
      @ member ''stateVersion'' (json_word (lh_version g)) @ member ''phase'' (JStr (lh_phase g))
      @ member ''bidding'' (json_bidding (bidding_wire_of snapshot))
      @ member_unless (lh_landlord g = 0) ''landlordSeat'' (json_word (lh_landlord g))
      @ member_unless (lh_score g = 0) ''winningScore'' (json_word (lh_score g))
      @ member_unless (lh_playing_seat g = 0) ''playingSeat'' (json_word (lh_playing_seat g))
      @ member ''requiresTermination'' (JBool requires_termination))"

definition bid_outcome :: "live_hand \<Rightarrow> bid_snapshot \<Rightarrow> bool \<Rightarrow> command_outcome" where
  "bid_outcome g snapshot requires_termination =
     \<lparr>oc_version = lh_version g, oc_payload = json_print (json_bid_result g snapshot requires_termination),
      oc_terminal = False, oc_final = []\<rparr>"

definition position_index :: "u8 \<Rightarrow> nat" where "position_index seat = unat (seat - 1)"

definition start_play :: "live_hand \<Rightarrow> bid_snapshot \<Rightarrow> pl_state \<Rightarrow> live_hand" where
  "start_play g snapshot turns =
     (let index = position_index (bs_landlord snapshot)
      in g\<lparr>lh_current := (lh_current g)[index := lh_current g ! index @ su_landlord (lh_setup g)],
           lh_landlord := bs_landlord snapshot, lh_score := bs_highest_score snapshot,
           lh_playing_seat := bs_landlord snapshot, lh_play := Some turns, lh_phase := phase_playing\<rparr>)"

definition apply_bid :: "live_hand \<Rightarrow> command \<Rightarrow> live_hand \<times> (go_error + command_outcome)" where
  "apply_bid g cmd =
     (case decode_bid_command (cm_payload cmd) of
        Inl e \<Rightarrow> (g, Inl e)
      | Inr b \<Rightarrow>
          (case submit (Some (lh_auction g)) (cm_actor cmd) (bc_score b) of
             Inl e \<Rightarrow> (g, Inl e)
           | Inr (auction, snapshot) \<Rightarrow>
               let g1 = g\<lparr>lh_auction := auction, lh_version := lh_version g + 1\<rparr> in
               if bs_complete snapshot \<and> bs_no_landlord snapshot then
                 (let g2 = g1\<lparr>lh_phase := phase_no_landlord\<rparr> in (g2, Inr (bid_outcome g2 snapshot True)))
               else if bs_complete snapshot \<and> bs_landlord snapshot \<noteq> 0 then
                 (case new_state (bs_landlord snapshot) of
                    Inl e \<Rightarrow> (g1, Inl e)
                  | Inr turns \<Rightarrow> (let g2 = start_play g1 snapshot turns in (g2, Inr (bid_outcome g2 snapshot False))))
               else (g1, Inr (bid_outcome g1 snapshot False))))"

section \<open>Playing\<close>

text \<open>\<open>cardCodes\<close> makes its slice, so it is never nil.\<close>

definition hand_codes :: "card list \<Rightarrow> go_error + string slice" where
  "hand_codes cards = rbind (card_codes cards) (\<lambda>codes. Inr (made_slice codes))"

fun all_hand_codes :: "card list list \<Rightarrow> go_error + string slice list" where
  "all_hand_codes [] = Inr []"
| "all_hand_codes (h # hs) = rbind (hand_codes h) (\<lambda>c. rbind (all_hand_codes hs) (\<lambda>cs. Inr (c # cs)))"

definition completed_payload_of ::
  "live_hand \<Rightarrow> u64 \<Rightarrow> pl_snapshot \<Rightarrow> settlement_result \<Rightarrow> card list list \<Rightarrow> go_error + completed_payload" where
  "completed_payload_of g version played result hands =
     rbind (canonical_bytes (lh_transcript g)) (\<lambda>canonical.
     rbind (all_hand_codes hands) (\<lambda>final_hands.
     rbind (hand_codes (su_landlord (lh_setup g))) (\<lambda>landlord.
       Inr \<lparr>cp_fairness_mode = hn_mode (lh_origin g), cp_version = completed_payload_v1, cp_hand_id = lh_id g,
            cp_status = status_text FinalCompleted, cp_state_version = version,
            cp_setup_artifact = b64_encode True (sa_payload (lh_artifact g)),
            cp_setup_digest = hex_encode (sa_digest (lh_artifact g)),
            cp_transcript = b64_encode True canonical,
            cp_transcript_digest = hex_encode (tr_digest (lh_transcript g)),
            cp_bidding = bidding_wire_of (bid_snapshot_of (Some (lh_auction g))),
            cp_playing = playing_wire_of played, cp_settlement = result, cp_final_hands = final_hands,
            cp_landlord_cards = landlord, cp_landlord_seat = lh_landlord g, cp_winning_score = lh_score g,
            cp_winner_seat = ps_winner played\<rparr>)))"

definition build_completed_payload ::
  "live_hand \<Rightarrow> u64 \<Rightarrow> pl_snapshot \<Rightarrow> settlement_result \<Rightarrow> card list list \<Rightarrow> go_error + bytes" where
  "build_completed_payload g version played result hands =
     rbind (completed_payload_of g version played result hands) (\<lambda>p. Inr (json_print (json_completed p)))"

definition json_play_result :: "string \<Rightarrow> u64 \<Rightarrow> string \<Rightarrow> pl_snapshot \<Rightarrow> settlement_result option \<Rightarrow> json" where
  "json_play_result iid version phase snapshot result = JObj
     (member ''v'' (JStr play_result_version) @ member ''handId'' (JStr iid)
      @ member ''stateVersion'' (json_word version) @ member ''phase'' (JStr phase)
      @ member ''playing'' (json_playing (playing_wire_of snapshot))
      @ member_unless (ps_winner snapshot = 0) ''winnerSeat'' (json_word (ps_winner snapshot))
      @ member_unless (result = None) ''settlement'' (json_pointer json_settlement result))"

text \<open>The move of one command on copies of the turn state and the hands.\<close>

definition move_of ::
  "live_hand \<Rightarrow> pl_state \<Rightarrow> string \<Rightarrow> command \<Rightarrow> go_error + pl_state \<times> card list list \<times> pl_snapshot" where
  "move_of g turns version cmd =
     (let index = position_index (cm_actor cmd) in
      if version = play_command_version then
        rbind (decode_play_command (cm_payload cmd)) (\<lambda>(c, cards).
        rbind (remove_held_cards (lh_current g ! index) cards) (\<lambda>remaining.
        rbind (play (Some turns) (cm_actor cmd) cards (length remaining = 0)) (\<lambda>(turns', snapshot).
          Inr (turns', (lh_current g)[index := remaining], snapshot))))
      else if version = pass_command_version then
        rbind (decode_pass_command (cm_payload cmd)) (\<lambda>c.
        rbind (pass (Some turns) (cm_actor cmd)) (\<lambda>(turns', snapshot).
          Inr (turns', lh_current g, snapshot)))
      else if version = bid_command_version then Inl (Livehand UnsupportedCommand)
      else Inl (Gamecore GcUnsupportedVersion))"

text \<open>The settlement and the final payload of a completed snapshot.\<close>

definition settle_hand :: "live_hand \<Rightarrow> u64 \<Rightarrow> pl_snapshot \<Rightarrow> card list list \<Rightarrow> go_error + settlement_result \<times> bytes" where
  "settle_hand g version snapshot hands =
     rbind (calculate \<lparr>in_landlord = lh_landlord g, in_score = lh_score g, in_playing = snapshot\<rparr>) (\<lambda>result.
     rbind (build_completed_payload g version snapshot result hands) (\<lambda>final. Inr (result, final)))"

text \<open>\<open>clearMaterial\<close>: the server seed is zeroed, the participants are dropped.\<close>

definition clear_material :: "fairness_material \<Rightarrow> fairness_material" where
  "clear_material m = m\<lparr>fm_seed := replicate (length (fm_seed m)) 0, fm_participants := []\<rparr>"

definition after_move :: "live_hand \<Rightarrow> pl_state \<Rightarrow> card list list \<Rightarrow> pl_snapshot \<Rightarrow> live_hand" where
  "after_move g turns hands snapshot =
     g\<lparr>lh_play := Some turns, lh_current := hands, lh_version := lh_version g + 1,
       lh_playing_seat := ps_current snapshot\<rparr>"

definition complete_game :: "live_hand \<Rightarrow> pl_snapshot \<Rightarrow> settlement_result \<Rightarrow> live_hand" where
  "complete_game g snapshot result =
     g\<lparr>lh_phase := phase_completed, lh_winner := ps_winner snapshot, lh_settlement := Some result,
       lh_terminal := True, lh_material := clear_material (lh_material g)\<rparr>"

definition playing_step :: "live_hand \<Rightarrow> command \<Rightarrow> go_error + live_hand \<times> command_outcome" where
  "playing_step g cmd =
     (case lh_play g of
        None \<Rightarrow> Inl (Livehand UnsupportedCommand)
      | Some turns \<Rightarrow>
          rbind (command_payload_version (cm_payload cmd)) (\<lambda>version.
          rbind (reject (cm_actor cmd \<noteq> ps_current (pl_snapshot_of (Some turns))) (Playing_Err WrongTurn)) (\<lambda>_.
          rbind (move_of g turns version cmd) (\<lambda>(turns', hands, snapshot).
            let next_version = lh_version g + 1;
                g1 = after_move g turns' hands snapshot
            in if ps_complete snapshot then
                 rbind (settle_hand g next_version snapshot hands) (\<lambda>(result, final).
                   Inr (complete_game g1 snapshot result,
                     \<lparr>oc_version = next_version,
                      oc_payload = json_print (json_play_result (lh_id g) next_version phase_completed snapshot (Some result)),
                      oc_terminal = True, oc_final = final\<rparr>))
               else
                 Inr (g1, \<lparr>oc_version = next_version,
                      oc_payload = json_print (json_play_result (lh_id g) next_version phase_playing snapshot None),
                      oc_terminal = False, oc_final = []\<rparr>)))))"

definition apply_playing :: "live_hand \<Rightarrow> command \<Rightarrow> live_hand \<times> (go_error + command_outcome)" where
  "apply_playing g cmd =
     (case playing_step g cmd of Inl e \<Rightarrow> (g, Inl e) | Inr (g', outcome) \<Rightarrow> (g', Inr outcome))"

section \<open>The game's operations\<close>

definition live_game_apply :: "live_hand \<Rightarrow> command \<Rightarrow> live_hand \<times> (go_error + command_outcome)" where
  "live_game_apply g cmd =
     (if lh_terminal g then (g, Inl (Gamecore GcInstanceNotFound))
      else if lh_phase g \<noteq> phase_bidding \<and> lh_phase g \<noteq> phase_playing then (g, Inl (Livehand UnsupportedCommand))
      else if cm_expected cmd \<noteq> lh_version g then (g, Inl (Livehand LhVersionConflict))
      else case (if lh_phase g = phase_playing then apply_playing g cmd else apply_bid g cmd) of
          (g', Inl e) \<Rightarrow> (g', Inl e)
        | (g', Inr outcome) \<Rightarrow> (g'\<lparr>lh_history := lh_history g' @ [cmd]\<rparr>, Inr outcome))"

definition fork_game :: "live_hand \<Rightarrow> go_error + live_hand" where
  "fork_game g =
     (if lh_terminal g then Inl (Gamecore GcInstanceNotFound)
      else Inr (g\<lparr>lh_auction := the (bid_clone (Some (lh_auction g))), lh_play := pl_clone (lh_play g)\<rparr>))"

definition seat_views :: "live_hand \<Rightarrow> json list" where
  "seat_views g =
     map (\<lambda>(seat, cards). JObj (member ''position'' (json_word (hs_seat seat))
            @ member ''accountId'' (JStr (hs_account seat))
            @ member ''remainingCards'' (JNum (show_nat (length cards)))))
       (zip (lh_seats g) (lh_current g))"

definition public_view :: "live_hand \<Rightarrow> go_error + json" where
  "public_view g =
     rbind (if lh_landlord g \<noteq> 0 then hand_codes (su_landlord (lh_setup g)) else Inr None) (\<lambda>landlord_cards.
       Inr (JObj
         (member ''v'' (JStr public_view_version) @ member ''handId'' (JStr (lh_id g))
          @ member ''phase'' (JStr (lh_phase g)) @ member ''stateVersion'' (json_word (lh_version g))
          @ member ''seats'' (JArr (seat_views g))
          @ member ''setupDigest'' (JStr (hex_encode (sa_digest (lh_artifact g))))
          @ member ''deckDigest'' (JStr (hex_encode (su_deck_digest (lh_setup g))))
          @ member ''dealDigest'' (JStr (hex_encode (su_deal_digest (lh_setup g))))
          @ member ''landlordCardCount'' (JNum (show_nat landlord_card_count))
          @ member ''bidding'' (json_bidding (bidding_wire_of (bid_snapshot_of (Some (lh_auction g)))))
          @ member_unless (lh_landlord g = 0) ''landlordSeat'' (json_word (lh_landlord g))
          @ member_unless (lh_score g = 0) ''winningScore'' (json_word (lh_score g))
          @ member_unless (lh_playing_seat g = 0) ''playingSeat'' (json_word (lh_playing_seat g))
          @ member_unless (elements landlord_cards = []) ''landlordCards'' (json_slice JStr landlord_cards)
          @ member_unless (lh_play g = None) ''playing'' (json_playing (playing_wire_of (pl_snapshot_of (lh_play g))))
          @ member_unless (lh_winner g = 0) ''winnerSeat'' (json_word (lh_winner g))
          @ member_unless (lh_settlement g = None) ''settlement'' (json_pointer json_settlement (lh_settlement g)))))"

definition private_view :: "live_hand \<Rightarrow> u8 \<Rightarrow> json \<Rightarrow> go_error + json" where
  "private_view g position public =
     rbind (hand_codes (lh_current g ! position_index position)) (\<lambda>cards.
       Inr (JObj (member ''v'' (JStr private_view_version) @ member ''public'' public
         @ member ''position'' (json_word position) @ member ''cards'' (json_slice JStr cards))))"

definition live_game_view :: "live_hand \<Rightarrow> view_request \<Rightarrow> go_error + game_view" where
  "live_game_view g request =
     rbind (reject (lh_terminal g) (Gamecore GcInstanceNotFound)) (\<lambda>_.
     rbind (public_view g) (\<lambda>public.
       if vr_public request then Inr \<lparr>gv_version = lh_version g, gv_payload = json_print public\<rparr>
       else
         rbind (reject (vr_position request < 1 \<or> vr_position request > 3) (Gamecore GcInvalidArgument)) (\<lambda>_.
         rbind (private_view g (vr_position request) public) (\<lambda>private.
           Inr \<lparr>gv_version = lh_version g, gv_payload = json_print private\<rparr>))))"

definition terminal_payload_of :: "live_hand \<Rightarrow> string \<Rightarrow> u64 \<Rightarrow> go_error + terminal_payload" where
  "terminal_payload_of g reason version =
     rbind (canonical_bytes (lh_transcript g)) (\<lambda>canonical.
     rbind (all_hand_codes (lh_current g)) (\<lambda>current.
     rbind (hand_codes (su_landlord (lh_setup g))) (\<lambda>landlord.
       Inr \<lparr>tp_fairness_mode = hn_mode (lh_origin g), tp_version = terminal_payload_v1, tp_hand_id = lh_id g,
            tp_status = status_text FinalAborted, tp_reason = reason, tp_state_version = version,
            tp_setup_artifact = b64_encode True (sa_payload (lh_artifact g)),
            tp_setup_digest = hex_encode (sa_digest (lh_artifact g)),
            tp_transcript = b64_encode True canonical,
            tp_transcript_digest = hex_encode (tr_digest (lh_transcript g)),
            tp_current_hands = current, tp_landlord_cards = landlord\<rparr>)))"

definition live_game_abort :: "live_hand \<Rightarrow> string \<Rightarrow> live_hand \<times> (go_error + abort_outcome)" where
  "live_game_abort g reason =
     (if lh_terminal g then (g, Inl (Gamecore GcInstanceNotFound))
      else
        let reason' = trim_space reason in
        if reason' = [] \<or> length reason' > 128 then (g, Inl (Gamecore GcInvalidArgument))
        else
          (case terminal_payload_of g reason' (lh_version g + 1) of
             Inl e \<Rightarrow> (g, Inl e)
           | Inr p \<Rightarrow>
               (g\<lparr>lh_version := lh_version g + 1, lh_phase := phase_aborted, lh_terminal := True,
                  lh_material := clear_material (lh_material g)\<rparr>,
                Inr \<lparr>ao_version = lh_version g + 1, ao_final = json_print (json_terminal p)\<rparr>)))"

fun position_in :: "hand_seat list \<Rightarrow> account_id \<Rightarrow> go_error + u8" where
  "position_in [] account = Inl (Livehand ViewerNotSeated)"
| "position_in (s # ss) account = (if hs_account s = account then Inr (hs_seat s) else position_in ss account)"

definition position_for_account :: "live_hand \<Rightarrow> account_id \<Rightarrow> go_error + u8" where
  "position_for_account g account = position_in (lh_seats g) account"

definition live_hand_game :: "live_hand live_game" where
  "live_hand_game = \<lparr>lg_descriptor = (\<lambda>_. dd_descriptor), lg_instance = lh_id, lg_apply = live_game_apply,
     lg_view = live_game_view, lg_abort = live_game_abort, lg_clone = (\<lambda>g. Some (fork_game g))\<rparr>"

end
