(* ===== verification/Final_Evidence.thy ===== *)
theory Final_Evidence
  imports Live_Game
begin

text \<open>
  The offline verifier of archived hands (\<open>livehand/evidence.go\<close>): it decodes the final payload of a
  record, restores the setup artifact and the transcript from it, replays the auction and every play,
  settles again, and compares. Every failure is the one error \<open>ErrInvalidFinalEvidence\<close>.
\<close>

definition final_verification_report_v1 :: string where
  "final_verification_report_v1 = ''doudizhu-final-verification-report-v1''"

record verification_report =
  vp_fairness_mode :: string
  vp_version :: string
  vp_hand_id :: string
  vp_status :: final_status
  vp_final_version :: u64
  vp_record_digest :: string
  vp_setup_digest :: string
  vp_transcript_digest :: string
  vp_completed :: bool
  vp_reason :: string
  vp_landlord :: u8
  vp_winner :: u8
  vp_points :: "i64 list"
  vp_remaining :: "nat list"

abbreviation bad_evidence :: go_error where "bad_evidence \<equiv> Livehand InvalidFinalEvidence"

text \<open>A step whose error is wrapped as invalid evidence.\<close>

definition evidence_step :: "go_error + 'a \<Rightarrow> go_error + 'a" where
  "evidence_step r = (case r of Inl e \<Rightarrow> Inl bad_evidence | Inr x \<Rightarrow> Inr x)"

section \<open>Decoding\<close>

definition decode_final_evidence_json :: "bytes \<Rightarrow> 'r field list \<Rightarrow> 'r \<Rightarrow> go_error + 'r" where
  "decode_final_evidence_json payload fds zero =
     (if length payload = 0 then Inl bad_evidence
      else case Option.bind (json_parse payload) (\<lambda>j. decode_struct fds True j zero) of
        None \<Rightarrow> Inl bad_evidence
      | Some r \<Rightarrow> Inr r)"

definition lower_char :: "char \<Rightarrow> char" where
  "lower_char c = (let n = (of_char c :: nat) in if 65 \<le> n \<and> n \<le> 90 then char_of (n + 32) else c)"

definition decode_digest :: "string \<Rightarrow> go_error + bytes" where
  "decode_digest value =
     (if length value \<noteq> 64 \<or> value \<noteq> map lower_char value then Inl bad_evidence
      else case hex_decode value of None \<Rightarrow> Inl bad_evidence | Some d \<Rightarrow> Inr d)"

definition decode_base64_text :: "string \<Rightarrow> go_error + bytes" where
  "decode_base64_text value =
     (case b64_decode True value of
        None \<Rightarrow> Inl bad_evidence
      | Some bs \<Rightarrow> if length bs = 0 \<or> b64_encode True bs \<noteq> value then Inl bad_evidence else Inr bs)"

section \<open>Setup and transcript\<close>

definition restore_evidence_setup :: "string \<Rightarrow> string \<Rightarrow> go_error + setup_data" where
  "restore_evidence_setup artifact_text digest_text =
     rbind (decode_base64_text artifact_text) (\<lambda>payload.
     rbind (decode_digest digest_text) (\<lambda>digest.
     rbind (evidence_step (restore_setup_artifact dd_descriptor dd_artifact_version payload digest)) (\<lambda>artifact.
       evidence_step (decode_artifact artifact))))"

definition check_evidence_transcript :: "string \<Rightarrow> string \<Rightarrow> setup_data \<Rightarrow> transcript \<Rightarrow> go_error + unit" where
  "check_evidence_transcript hand digest_text su t =
     rbind (decode_digest digest_text) (\<lambda>digest.
     rbind (reject (digest \<noteq> tr_digest t) bad_evidence) (\<lambda>_.
       reject (tr_hand t \<noteq> hand \<or> \<not> transcript_matches t su) bad_evidence))"

definition verify_common_evidence ::
  "string \<Rightarrow> string \<Rightarrow> string \<Rightarrow> string \<Rightarrow> string \<Rightarrow> (go_error + setup_data) option" where
  "verify_common_evidence hand artifact_text artifact_digest transcript_text transcript_digest =
     (case restore_evidence_setup artifact_text artifact_digest of
        Inl e \<Rightarrow> Some (Inl e)
      | Inr su \<Rightarrow>
          (case decode_base64_text transcript_text of
             Inl e \<Rightarrow> Some (Inl e)
           | Inr canonical \<Rightarrow>
               map_option (\<lambda>r. rbind (evidence_step r) (\<lambda>t.
                   rbind (check_evidence_transcript hand transcript_digest su t) (\<lambda>_. Inr su)))
                 (parse_transcript canonical)))"

section \<open>Replay\<close>

text \<open>\<open>reflect.DeepEqual\<close> does not see the stale elements behind a slice.\<close>

definition trim_slice :: "'a slice \<Rightarrow> 'a slice" where
  "trim_slice s = map_option (\<lambda>(xs, stale). (xs, [])) s"

definition trim_bidding :: "bidding_wire \<Rightarrow> bidding_wire" where
  "trim_bidding b = b\<lparr>bw_actions := trim_slice (bw_actions b)\<rparr>"

definition trim_action :: "action_wire \<Rightarrow> action_wire" where
  "trim_action a = a\<lparr>aw_cards := trim_slice (aw_cards a)\<rparr>"

definition trim_playing :: "playing_wire \<Rightarrow> playing_wire" where
  "trim_playing p = p\<lparr>pw_leading_cards := trim_slice (pw_leading_cards p),
     pw_history := map_option (\<lambda>(xs, stale). (map trim_action xs, [])) (pw_history p)\<rparr>"

fun replay_bids :: "bid_state \<Rightarrow> bid_snapshot \<Rightarrow> bid list \<Rightarrow> go_error + bid_snapshot" where
  "replay_bids s actual [] = Inr actual"
| "replay_bids s actual (b # bs) =
     rbind (submit (Some s) (bid_position b) (bid_score b)) (\<lambda>(s', v). replay_bids s' v bs)"

definition zero_bid_snapshot :: bid_snapshot where "zero_bid_snapshot = bid_snapshot_of None"

definition replay_bidding :: "bytes \<Rightarrow> bidding_wire \<Rightarrow> (go_error + bid_snapshot) option" where
  "replay_bidding deal_digest expected =
     (let actions = elements (bw_actions expected) in
      if bw_version expected \<noteq> bidding_rules_version \<or> length actions < 1 \<or> length actions > 3
      then Some (Inl bad_evidence)
      else map_option (\<lambda>r. evidence_step
             (rbind r (\<lambda>s. rbind (replay_bids s zero_bid_snapshot actions) (\<lambda>actual.
                if bidding_wire_of actual \<noteq> trim_bidding expected \<or> \<not> bs_complete actual
                then Inl bad_evidence else Inr actual))))
           (new_bidding deal_digest))"

fun remove_cards_for_verification :: "card list \<Rightarrow> card list \<Rightarrow> go_error + card list" where
  "remove_cards_for_verification remaining [] = Inr remaining"
| "remove_cards_for_verification remaining (c # wanted) =
     (if c \<notin> set remaining then Inl (Gamecore GcVerificationFailed)
      else remove_cards_for_verification (remove1 c remaining) wanted)"

definition replay_action ::
  "pl_state \<Rightarrow> card list list \<Rightarrow> u8 \<Rightarrow> action_type \<Rightarrow> card list \<Rightarrow> go_error + pl_state \<times> card list list" where
  "replay_action s hands seat type cards =
     (if seat < 1 \<or> seat > 3 then Inl (Gamecore GcVerificationFailed)
      else case type of
        ActionPlay \<Rightarrow>
          rbind (remove_cards_for_verification (hands ! position_index seat) cards) (\<lambda>remaining.
          rbind (play (Some s) seat cards (length remaining = 0)) (\<lambda>(s', v).
            Inr (s', hands[position_index seat := remaining])))
      | ActionPass \<Rightarrow> rbind (pass (Some s) seat) (\<lambda>(s', v). Inr (s', hands))
      | ActionOther t \<Rightarrow> Inl (Gamecore GcVerificationFailed))"

fun replay_history :: "pl_state \<Rightarrow> card list list \<Rightarrow> action_wire list \<Rightarrow> go_error + pl_state \<times> card list list" where
  "replay_history s hands [] = Inr (s, hands)"
| "replay_history s hands (a # as) =
     rbind (replay_action s hands (aw_seat a) (aw_type a) (elements (aw_cards a))) (\<lambda>(s', hands').
       replay_history s' hands' as)"

definition hands_with_landlord :: "setup_data \<Rightarrow> u8 \<Rightarrow> card list list" where
  "hands_with_landlord su landlord =
     (su_hands su)[position_index landlord := su_hands su ! position_index landlord @ su_landlord su]"

text \<open>The snapshot of the last step is the snapshot of the state it left.\<close>

definition replay_playing :: "setup_data \<Rightarrow> u8 \<Rightarrow> playing_wire \<Rightarrow> go_error + pl_snapshot \<times> card list list" where
  "replay_playing su landlord expected =
     (let history = elements (pw_history expected) in
      rbind (reject (landlord < 1 \<or> landlord > 3 \<or> pw_version expected \<noteq> playing_state_version \<or> length history = 0)
        (Gamecore GcVerificationFailed)) (\<lambda>_.
      rbind (new_state landlord) (\<lambda>s.
      rbind (replay_history s (hands_with_landlord su landlord) history) (\<lambda>(s', hands).
        let actual = pl_snapshot_of (Some s') in
        if playing_wire_of actual \<noteq> trim_playing expected then Inl (Gamecore GcVerificationFailed)
        else Inr (actual, hands)))))"

section \<open>Comparing hands\<close>

fun compare_codes :: "string list \<Rightarrow> card list \<Rightarrow> bool" where
  "compare_codes [] [] = True"
| "compare_codes (s # ss) (c # cs) \<longleftrightarrow> parse_card s = Inr c \<and> compare_codes ss cs"
| "compare_codes ss cs = False"

definition compare_hand_codes :: "string slice list \<Rightarrow> card list list \<Rightarrow> bool" where
  "compare_hand_codes encoded hands = list_all2 (\<lambda>s h. compare_codes (elements s) h) encoded hands"

definition contains_physical_card :: "card list \<Rightarrow> card \<Rightarrow> bool" where
  "contains_physical_card cards wanted \<longleftrightarrow> wanted \<in> set cards"

text \<open>One seat: the cards seen so far, the seat that holds landlord cards, the cards of this seat.\<close>

fun verify_aborted_seat ::
  "setup_data \<Rightarrow> nat \<Rightarrow> string list \<Rightarrow> bool list \<Rightarrow> nat option \<Rightarrow> card list \<Rightarrow>
     go_error + bool list \<times> nat option \<times> card list" where
  "verify_aborted_seat su seat [] seen owner held = Inr (seen, owner, held)"
| "verify_aborted_seat su seat (code # codes) seen owner held =
     (case parse_card code of
        Inl e \<Rightarrow> Inl bad_evidence
      | Inr c \<Rightarrow>
          if seen ! unat c then Inl bad_evidence
          else if c \<in> set (su_hands su ! seat) then
            verify_aborted_seat su seat codes (seen[unat c := True]) owner (held @ [c])
          else if \<not> contains_physical_card (su_landlord su) c then Inl bad_evidence
          else if owner \<noteq> None \<and> owner \<noteq> Some seat then Inl bad_evidence
          else verify_aborted_seat su seat codes (seen[unat c := True]) (Some seat) (held @ [c]))"

fun verify_aborted_seats ::
  "setup_data \<Rightarrow> nat \<Rightarrow> string slice list \<Rightarrow> bool list \<Rightarrow> nat option \<Rightarrow> go_error + card list list" where
  "verify_aborted_seats su seat [] seen owner = Inr []"
| "verify_aborted_seats su seat (h # hs) seen owner =
     (if length (elements h) > cards_per_seat + landlord_card_count then Inl bad_evidence
      else rbind (verify_aborted_seat su seat (elements h) seen owner []) (\<lambda>(seen', owner', held).
        rbind (verify_aborted_seats su (Suc seat) hs seen' owner') (\<lambda>rest. Inr (held # rest))))"

definition verify_aborted_hands :: "string slice list \<Rightarrow> setup_data \<Rightarrow> go_error + card list list" where
  "verify_aborted_hands encoded su = verify_aborted_seats su 0 encoded (replicate deck_size False) None"

section \<open>Verifying a record\<close>

definition fairness_mode_ok :: "string \<Rightarrow> bool" where
  "fairness_mode_ok mode \<longleftrightarrow> mode = '''' \<or> mode = fairness_mode_client_custodied"

definition check_completed_identity :: "final_record \<Rightarrow> completed_payload \<Rightarrow> go_error + unit" where
  "check_completed_identity r p =
     reject (\<not> fairness_mode_ok (cp_fairness_mode p) \<or> cp_version p \<noteq> completed_payload_v1 \<or>
         cp_status p \<noteq> status_text FinalCompleted \<or> cp_hand_id p \<noteq> fr_instance r \<or> cp_state_version p \<noteq> fr_version r)
       bad_evidence"

definition completed_report :: "final_record \<Rightarrow> completed_payload \<Rightarrow> i64 list \<Rightarrow> card list list \<Rightarrow> verification_report" where
  "completed_report r p points hands =
     \<lparr>vp_fairness_mode = cp_fairness_mode p, vp_version = final_verification_report_v1, vp_hand_id = cp_hand_id p,
      vp_status = fr_status r, vp_final_version = fr_version r, vp_record_digest = hex_encode (fr_digest r),
      vp_setup_digest = cp_setup_digest p, vp_transcript_digest = cp_transcript_digest p, vp_completed = True,
      vp_reason = '''', vp_landlord = cp_landlord_seat p, vp_winner = cp_winner_seat p, vp_points = points,
      vp_remaining = map length hands\<rparr>"

text \<open>What follows once the auction has been replayed.\<close>

definition verify_completed_play ::
  "final_record \<Rightarrow> completed_payload \<Rightarrow> setup_data \<Rightarrow> bid_snapshot \<Rightarrow> go_error + verification_report" where
  "verify_completed_play r p su auction =
     rbind (reject (bs_no_landlord auction \<or> bs_landlord auction = 0 \<or> bs_landlord auction \<noteq> cp_landlord_seat p \<or>
         bs_highest_score auction \<noteq> cp_winning_score p) bad_evidence) (\<lambda>_.
     rbind (evidence_step (replay_playing su (bs_landlord auction) (cp_playing p))) (\<lambda>(snapshot, hands).
     rbind (reject (\<not> ps_complete snapshot \<or> ps_winner snapshot \<noteq> cp_winner_seat p) bad_evidence) (\<lambda>_.
     rbind (reject (\<not> compare_hand_codes (cp_final_hands p) hands) bad_evidence) (\<lambda>_.
     rbind (reject (\<not> compare_codes (elements (cp_landlord_cards p)) (su_landlord su)) bad_evidence) (\<lambda>_.
     rbind (evidence_step (calculate \<lparr>in_landlord = bs_landlord auction, in_score = bs_highest_score auction,
         in_playing = snapshot\<rparr>)) (\<lambda>calculated.
     rbind (reject (calculated \<noteq> cp_settlement p \<or> res_landlord (cp_settlement p) \<noteq> cp_landlord_seat p \<or>
         res_winner (cp_settlement p) \<noteq> cp_winner_seat p) bad_evidence) (\<lambda>_.
       Inr (completed_report r p (res_points calculated) hands))))))))"

definition verify_completed_record :: "final_record \<Rightarrow> (go_error + verification_report) option" where
  "verify_completed_record r =
     (case rbind (decode_final_evidence_json (fr_payload r) completed_fields zero_completed) (\<lambda>p.
             rbind (check_completed_identity r p) (\<lambda>_. Inr p)) of
        Inl e \<Rightarrow> Some (Inl e)
      | Inr p \<Rightarrow>
          (case verify_common_evidence (cp_hand_id p) (cp_setup_artifact p) (cp_setup_digest p) (cp_transcript p)
                  (cp_transcript_digest p) of
             None \<Rightarrow> None
           | Some (Inl e) \<Rightarrow> Some (Inl e)
           | Some (Inr su) \<Rightarrow>
               map_option (\<lambda>b. rbind b (verify_completed_play r p su)) (replay_bidding (su_deal_digest su) (cp_bidding p))))"

definition check_aborted_identity :: "final_record \<Rightarrow> terminal_payload \<Rightarrow> go_error + unit" where
  "check_aborted_identity r p =
     reject (\<not> fairness_mode_ok (tp_fairness_mode p) \<or> tp_version p \<noteq> terminal_payload_v1 \<or>
         tp_status p \<noteq> status_text FinalAborted \<or> tp_hand_id p \<noteq> fr_instance r \<or> tp_state_version p \<noteq> fr_version r \<or>
         trim_space (tp_reason p) = [] \<or> tp_reason p \<noteq> trim_space (tp_reason p) \<or> length (tp_reason p) > 128)
       bad_evidence"

definition aborted_report :: "final_record \<Rightarrow> terminal_payload \<Rightarrow> card list list \<Rightarrow> verification_report" where
  "aborted_report r p hands =
     \<lparr>vp_fairness_mode = tp_fairness_mode p, vp_version = final_verification_report_v1, vp_hand_id = tp_hand_id p,
      vp_status = fr_status r, vp_final_version = fr_version r, vp_record_digest = hex_encode (fr_digest r),
      vp_setup_digest = tp_setup_digest p, vp_transcript_digest = tp_transcript_digest p, vp_completed = False,
      vp_reason = tp_reason p, vp_landlord = 0, vp_winner = 0, vp_points = [0, 0, 0],
      vp_remaining = map length hands\<rparr>"

definition verify_aborted_record :: "final_record \<Rightarrow> (go_error + verification_report) option" where
  "verify_aborted_record r =
     (case rbind (decode_final_evidence_json (fr_payload r) terminal_fields zero_terminal) (\<lambda>p.
             rbind (check_aborted_identity r p) (\<lambda>_. Inr p)) of
        Inl e \<Rightarrow> Some (Inl e)
      | Inr p \<Rightarrow>
          map_option (\<lambda>c. rbind c (\<lambda>su.
              rbind (reject (\<not> compare_codes (elements (tp_landlord_cards p)) (su_landlord su)) bad_evidence) (\<lambda>_.
              rbind (verify_aborted_hands (tp_current_hands p) su) (\<lambda>hands. Inr (aborted_report r p hands)))))
            (verify_common_evidence (tp_hand_id p) (tp_setup_artifact p) (tp_setup_digest p) (tp_transcript p)
              (tp_transcript_digest p)))"

definition verify_final_record :: "final_record \<Rightarrow> (go_error + verification_report) option" where
  "verify_final_record r =
     (case final_record_validate r of
        Inl e \<Rightarrow> Some (Inl bad_evidence)
      | Inr _ \<Rightarrow>
          if fr_descriptor r \<noteq> dd_descriptor then Some (Inl bad_evidence)
          else (case fr_status r of
                  FinalCompleted \<Rightarrow> verify_completed_record r
                | FinalAborted \<Rightarrow> verify_aborted_record r
                | FinalOther s \<Rightarrow> Some (Inl bad_evidence)))"

end
