(* ===== verification/Live_Replay.thy ===== *)
theory Live_Replay
  imports Final_Evidence
begin

text \<open>
  The state machine of the running game: the games that commands, aborts and forks can reach from a dealt
  one, and what holds of each. The turn state and the hands of such a game are exactly what the verifier
  of \<open>livehand/evidence.go\<close> computes when it replays the recorded history from the deal.
\<close>

section \<open>Taking cards out of a hand\<close>

lemma remove_for_verification_eq:
  "remove_cards_for_verification hand cards = Inr r \<longleftrightarrow> remove_held_cards hand cards = Inr r"
  by (induction hand cards rule: remove_held_cards.induct) simp_all

lemma remove_held_mset: "remove_held_cards hand cards = Inr r \<Longrightarrow> mset r + mset cards = mset hand"
proof (induction hand cards rule: remove_held_cards.induct)
  case (2 hand c played)
  then have "c \<in> set hand" "mset r + mset played = mset (remove1 c hand)" by (simp_all split: if_splits)
  then show ?case by simp
qed simp

lemma mset_concat_update:
  "i < length hs \<Longrightarrow> mset (concat (hs[i := h])) + mset (hs ! i) = mset (concat hs) + mset h"
proof (induction hs arbitrary: i)
  case (Cons x hs)
  then show ?case by (cases i) (simp_all add: add_ac)
qed simp

lemma cards_taken:
  assumes "i < length hs" and "remove_held_cards (hs ! i) cards = Inr r"
  shows "mset (concat (hs[i := r])) + mset cards = mset (concat hs)"
proof -
  have "(mset (concat (hs[i := r])) + mset cards) + mset r = mset (concat hs) + mset r"
    using mset_concat_update [OF assms(1), of r] remove_held_mset [OF assms(2)] by (metis add.assoc add.commute)
  then show ?thesis by simp
qed

lemma position_index_bound: "valid_seat seat \<Longrightarrow> position_index seat < 3"
  by (auto simp: valid_seat_cases position_index_def)

section \<open>Replay\<close>

lemma replay_history_append:
  "replay_history s hands (as @ [a]) = rbind (replay_history s hands as) (\<lambda>(s', hands').
     replay_action s' hands' (aw_seat a) (aw_type a) (elements (aw_cards a)))"
proof (induction as arbitrary: s hands)
  case Nil
  then show ?case
    by (cases "replay_action s hands (aw_seat a) (aw_type a) (elements (aw_cards a))") auto
next
  case (Cons b as)
  then show ?case
    by (cases "replay_action s hands (aw_seat b) (aw_type b) (elements (aw_cards b))") auto
qed

lemma replay_play:
  "replay_action s hands seat ActionPlay cards = Inr (s', hands') \<longleftrightarrow> valid_seat seat \<and>
     (\<exists>r v. remove_held_cards (hands ! position_index seat) cards = Inr r \<and> play (Some s) seat cards (r = []) = Inr (s', v) \<and>
        hands' = hands[position_index seat := r])"
  by (auto simp: replay_action_def rbind_eq_Inr remove_for_verification_eq valid_seat_def not_less not_le)

lemma replay_pass:
  "replay_action s hands seat ActionPass cards = Inr (s', hands') \<longleftrightarrow> valid_seat seat \<and>
     (\<exists>v. pass (Some s) seat = Inr (s', v) \<and> hands' = hands)"
  by (auto simp: replay_action_def rbind_eq_Inr valid_seat_def not_less not_le)

text \<open>The hands never grow, and what leaves them is what the history shows.\<close>

lemma replay_cards:
  assumes "length hands = 3" and "replay_history s hands as = Inr (s', hands')" and "\<forall>a \<in> set as. aw_type a = ActionPass \<longrightarrow> elements (aw_cards a) = []"
  shows "length hands' = 3 \<and> mset (concat hands') + mset (concat (map (\<lambda>a. elements (aw_cards a)) as)) = mset (concat hands)"
  using assms(2,3)
proof (induction as arbitrary: s' hands' rule: rev_induct)
  case Nil
  then show ?case using assms(1) by simp
next
  case (snoc a as)
  obtain s1 h1 where r: "replay_history s hands as = Inr (s1, h1)"
    and a: "replay_action s1 h1 (aw_seat a) (aw_type a) (elements (aw_cards a)) = Inr (s', hands')"
    using snoc.prems(1) by (auto simp: replay_history_append rbind_eq_Inr)
  have IH: "length h1 = 3" "mset (concat h1) + mset (concat (map (\<lambda>a. elements (aw_cards a)) as)) = mset (concat hands)"
    using snoc.IH [OF r] snoc.prems(2) by auto
  show ?case
  proof (cases "aw_type a")
    case ActionPlay
    with a obtain r where r: "valid_seat (aw_seat a)" "hands' = h1[position_index (aw_seat a) := r]"
      "remove_held_cards (h1 ! position_index (aw_seat a)) (elements (aw_cards a)) = Inr r"
      by (auto simp: replay_play)
    have "position_index (aw_seat a) < length h1" using position_index_bound [OF r(1)] IH(1) by simp
    from cards_taken [OF this r(3)] have "mset (concat hands') + mset (elements (aw_cards a)) = mset (concat h1)"
      by (simp only: r(2))
    then have "mset (concat hands') + (M + mset (elements (aw_cards a))) = mset (concat h1) + M" for M
      by (metis add.assoc add.commute)
    note * = this [of "mset (concat (map (\<lambda>a. elements (aw_cards a)) as))"]
    from IH(1) r(2)
    have "length hands' = 3" by simp
    then show ?thesis using * IH(2) by simp
  next
    case ActionPass
    with a have "hands' = h1" by (auto simp: replay_pass)
    with ActionPass IH snoc.prems(2) show ?thesis by simp
  next
    case (ActionOther t)
    with a show ?thesis by (auto simp: replay_action_def split: if_splits)
  qed
qed

text \<open>\<open>replays su landlord turns hands\<close>: the verifier, started with the deal \<open>su\<close>, reaches these.\<close>

definition replays :: "setup_data \<Rightarrow> u8 \<Rightarrow> pl_state \<Rightarrow> card list list \<Rightarrow> bool" where
  "replays su landlord turns hands \<longleftrightarrow> (\<exists>s0. new_state landlord = Inr s0 \<and>
     replay_history s0 (hands_with_landlord su landlord) (map action_wire_of (pl_history turns)) = Inr (turns, hands))"

lemma action_wire_sel [simp]:
  "aw_type (action_wire_of a) = act_type a" "aw_seat (action_wire_of a) = act_seat a"
  "elements (aw_cards (action_wire_of a)) = act_cards a"
  by (simp_all add: action_wire_of_def)

lemma replays_new: "new_state landlord = Inr s \<Longrightarrow> replays su landlord s (hands_with_landlord su landlord)"
  by (auto simp: replays_def new_state_def zero_state_def split: if_splits)

lemma replays_play:
  assumes "replays su landlord turns hands" and "remove_held_cards (hands ! position_index seat) cards = Inr r"
    and "play (Some turns) seat cards (r = []) = Inr (turns', v)"
  shows "replays su landlord turns' (hands[position_index seat := r])"
proof -
  obtain p where p: "turns' = record_play turns seat cards p (r = [])" "valid_seat seat" using assms(3) by (auto simp: play_Inr)
  have "replay_action turns hands seat ActionPlay cards = Inr (turns', hands[position_index seat := r])"
    using assms(2,3) p(2) by (auto simp: replay_play)
  with assms(1) p(1) show ?thesis by (auto simp: replays_def replay_history_append)
qed

lemma replays_pass:
  assumes "replays su landlord turns hands" and "pass (Some turns) seat = Inr (turns', v)"
  shows "replays su landlord turns' hands"
proof -
  have p: "turns' = record_pass turns seat" "valid_seat seat" using assms(2) by (auto simp: pass_Inr)
  have "replay_action turns hands seat ActionPass [] = Inr (turns', hands)"
    using assms(2) p(2) by (auto simp: replay_pass)
  with assms(1) p(1) show ?thesis by (auto simp: replays_def replay_history_append)
qed

text \<open>A replay is a sequence of legal moves, and it is over exactly when a hand is empty: the winner's.\<close>

definition table_open :: "pl_state \<Rightarrow> card list list \<Rightarrow> bool" where
  "table_open turns hands \<longleftrightarrow> length hands = 3 \<and>
     (\<forall>i < 3. hands ! i = [] \<longleftrightarrow> pl_complete turns \<and> i = position_index (pl_winner turns))"

lemma position_index_inj: "valid_seat a \<Longrightarrow> valid_seat b \<Longrightarrow> position_index a = position_index b \<longleftrightarrow> a = b"
  by (auto simp: valid_seat_cases position_index_def)

lemma table_open_play:
  assumes "table_open turns hands" and "play (Some turns) seat cards (r = []) = Inr (turns', v)"
  shows "table_open turns' (hands[position_index seat := r])"
proof -
  obtain p where p: "turns' = record_play turns seat cards p (r = [])" "valid_seat seat" "\<not> pl_complete turns"
    using assms(2) by (auto simp: play_Inr)
  with assms(1) position_index_bound [OF p(2)] show ?thesis
    by (auto simp: table_open_def nth_list_update)
qed

lemma table_open_pass: "table_open turns hands \<Longrightarrow> pass (Some turns) seat = Inr (turns', v) \<Longrightarrow> table_open turns' hands"
  by (auto simp: table_open_def pass_Inr)

lemma replay_legal:
  assumes "pl_reach landlord s" and "table_open s hands" and "replay_history s hands as = Inr (s', hands')"
  shows "pl_reach landlord s' \<and> table_open s' hands'"
  using assms(3)
proof (induction as arbitrary: s' hands' rule: rev_induct)
  case Nil
  then show ?case using assms(1,2) by simp
next
  case (snoc a as)
  obtain s1 h1 where r: "replay_history s hands as = Inr (s1, h1)"
    and a: "replay_action s1 h1 (aw_seat a) (aw_type a) (elements (aw_cards a)) = Inr (s', hands')"
    using snoc.prems(1) by (auto simp: replay_history_append rbind_eq_Inr)
  have IH: "pl_reach landlord s1" "table_open s1 h1" using snoc.IH [OF r] by simp_all
  show ?case
  proof (cases "aw_type a")
    case ActionPlay
    with a IH show ?thesis by (auto simp: replay_play intro: reach_play table_open_play)
  next
    case ActionPass
    with a IH show ?thesis by (auto simp: replay_pass intro: reach_pass table_open_pass)
  next
    case (ActionOther t)
    with a show ?thesis by (auto simp: replay_action_def split: if_splits)
  qed
qed

lemma dealt_hands:
  assumes "setup_typed su" and "valid_seat landlord"
  shows "length (hands_with_landlord su landlord) = 3" "\<forall>i < 3. hands_with_landlord su landlord ! i \<noteq> []"
    "mset (concat (hands_with_landlord su landlord)) = mset (concat (su_hands su)) + mset (su_landlord su)"
proof -
  have l: "length (su_hands su) = 3" "\<forall>i < 3. su_hands su ! i \<noteq> []"
    using assms(1) by (auto simp: setup_typed_def list_all_length)
  then show "length (hands_with_landlord su landlord) = 3" "\<forall>i < 3. hands_with_landlord su landlord ! i \<noteq> []"
    using position_index_bound [OF assms(2)] by (auto simp: hands_with_landlord_def nth_list_update)
  have "position_index landlord < length (su_hands su)" using l position_index_bound [OF assms(2)] by simp
  from mset_concat_update [OF this, of "su_hands su ! position_index landlord @ su_landlord su"]
  show "mset (concat (hands_with_landlord su landlord)) = mset (concat (su_hands su)) + mset (su_landlord su)"
    by (simp add: hands_with_landlord_def add_ac)
qed

lemma replays_facts:
  assumes "setup_typed su" and "replays su landlord turns hands"
  shows "pl_reach landlord turns" "table_open turns hands"
    "mset (concat hands) + mset (played_cards (pl_history turns)) = mset (concat (su_hands su)) + mset (su_landlord su)"
proof -
  obtain s0 where n: "new_state landlord = Inr s0"
    and r: "replay_history s0 (hands_with_landlord su landlord) (map action_wire_of (pl_history turns)) = Inr (turns, hands)"
    using assms(2) by (auto simp: replays_def)
  have v: "valid_seat landlord" "\<not> pl_complete s0" using n by (auto simp: new_state_def zero_state_def split: if_splits)
  note d = dealt_hands [OF assms(1) v(1)]
  have "table_open s0 (hands_with_landlord su landlord)" using v(2) d by (simp add: table_open_def)
  from replay_legal [OF reach_new [OF n] this r]
  show legal: "pl_reach landlord turns" "table_open turns hands" by simp_all
  have "\<forall>a \<in> set (map action_wire_of (pl_history turns)). aw_type a = ActionPass \<longrightarrow> elements (aw_cards a) = []"
    using pl_reach_inv [OF legal(1)] by (auto simp: pl_inv_def entry_ok_def)
  from replay_cards [OF d(1) r this] d(3)
  show "mset (concat hands) + mset (played_cards (pl_history turns)) = mset (concat (su_hands su)) + mset (su_landlord su)"
    by (simp add: played_cards_def comp_def)
qed

end
