(* ===== verification/Live_Game_Safety.thy ===== *)
theory Live_Game_Safety
  imports Live_Replay
begin

text \<open>
  What commands, aborts and forks can make of a dealt game: the invariant of the phases, cards are
  never lost or made, versions count the accepted commands, refused commands change nothing.
\<close>

section \<open>Accepted commands\<close>

lemma phases_distinct [simp]:
  "phase_bidding \<noteq> phase_no_landlord" "phase_bidding \<noteq> phase_playing" "phase_bidding \<noteq> phase_completed"
  "phase_bidding \<noteq> phase_aborted" "phase_no_landlord \<noteq> phase_playing" "phase_no_landlord \<noteq> phase_completed"
  "phase_no_landlord \<noteq> phase_aborted" "phase_playing \<noteq> phase_completed" "phase_playing \<noteq> phase_aborted"
  "phase_completed \<noteq> phase_aborted"
  by (simp_all add: phase_defs)

lemmas phases_distinct_sym [simp] = phases_distinct [symmetric]

lemma live_apply_cases:
  assumes "live_game_apply g cmd = (g', r)"
  obtains (refused) e where "r = Inl e" "g' = g"
    | (failed_bid) e where "r = Inl e" "\<not> lh_terminal g" "lh_phase g = phase_bidding" "apply_bid g cmd = (g', Inl e)"
    | (bid) g1 outcome where "r = Inr outcome" "\<not> lh_terminal g" "lh_phase g = phase_bidding"
        "cm_expected cmd = lh_version g" "apply_bid g cmd = (g1, Inr outcome)" "g' = g1\<lparr>lh_history := lh_history g1 @ [cmd]\<rparr>"
    | (move) g1 outcome where "r = Inr outcome" "\<not> lh_terminal g" "lh_phase g = phase_playing"
        "cm_expected cmd = lh_version g" "playing_step g cmd = Inr (g1, outcome)" "g' = g1\<lparr>lh_history := lh_history g1 @ [cmd]\<rparr>"
  using assms
  by (auto simp: live_game_apply_def apply_playing_def split: if_splits prod.splits sum.splits)

text \<open>What a bid that the auction takes does to the game.\<close>

definition bid_taken :: "live_hand \<Rightarrow> bid_state \<Rightarrow> live_hand" where
  "bid_taken g auction = g\<lparr>lh_auction := auction, lh_version := lh_version g + 1\<rparr>"

lemma apply_bid_taken:
  assumes "decode_bid_command (cm_payload cmd) = Inr b"
    and "submit (Some (lh_auction g)) (cm_actor cmd) (bc_score b) = Inr (auction, v)"
  shows "apply_bid g cmd =
    (let g1 = bid_taken g auction; g2 = g1\<lparr>lh_phase := phase_no_landlord\<rparr> in
     if bs_complete v \<and> bs_no_landlord v then (g2, Inr (bid_outcome g2 v True))
     else if bs_complete v \<and> bs_landlord v \<noteq> 0 then
       (case new_state (bs_landlord v) of
          Inl e \<Rightarrow> (g1, Inl e)
        | Inr turns \<Rightarrow> (start_play g1 v turns, Inr (bid_outcome (start_play g1 v turns) v False)))
     else (g1, Inr (bid_outcome g1 v False)))"
  by (simp add: apply_bid_def assms Let_def bid_taken_def split: sum.split)

lemma bid_outcome_sel [simp]:
  "oc_version (bid_outcome g v b) = lh_version g" "oc_terminal (bid_outcome g v b) = False"
  by (simp_all add: bid_outcome_def)

lemma bid_snapshot_sel [simp]:
  "bs_complete (bid_snapshot_of (Some st)) = bd_complete st" "bs_no_landlord (bid_snapshot_of (Some st)) = bd_no_landlord st"
  "bs_landlord (bid_snapshot_of (Some st)) = bd_landlord st" "bs_highest_score (bid_snapshot_of (Some st)) = bd_highest_score st"
  by (simp_all add: bid_snapshot_of_def)

lemma bid_taken_sel [simp]:
  "lh_version (bid_taken g a) = lh_version g + 1" "lh_auction (bid_taken g a) = a" "lh_phase (bid_taken g a) = lh_phase g"
  by (simp_all add: bid_taken_def)

lemma start_play_version [simp]: "lh_version (start_play g v turns) = lh_version g"
  by (simp add: start_play_def Let_def)

lemma apply_bid_cases:
  assumes "apply_bid g cmd = (g', r)"
  obtains (refused) e where "r = Inl e" "g' = g"
    | (taken) auction score where "submit (Some (lh_auction g)) (cm_actor cmd) score = Inr (auction, bid_snapshot_of (Some auction))"
        "if bd_complete auction \<and> bd_no_landlord auction
         then g' = (bid_taken g auction)\<lparr>lh_phase := phase_no_landlord\<rparr> \<and> r = Inr (bid_outcome g' (bid_snapshot_of (Some auction)) True)
         else if bd_complete auction \<and> bd_landlord auction \<noteq> 0
         then case new_state (bd_landlord auction) of
              Inl e \<Rightarrow> g' = bid_taken g auction \<and> r = Inl e
            | Inr turns \<Rightarrow> g' = start_play (bid_taken g auction) (bid_snapshot_of (Some auction)) turns \<and>
                r = Inr (bid_outcome g' (bid_snapshot_of (Some auction)) False)
         else g' = bid_taken g auction \<and> r = Inr (bid_outcome g' (bid_snapshot_of (Some auction)) False)"
proof (cases "decode_bid_command (cm_payload cmd)")
  case (Inl e)
  with assms show ?thesis by (auto simp: apply_bid_def intro: refused)
next
  case (Inr b)
  note d = this
  show ?thesis
  proof (cases "submit (Some (lh_auction g)) (cm_actor cmd) (bc_score b)")
    case (Inl e)
    with d assms show ?thesis by (auto simp: apply_bid_def intro: refused)
  next
    case (Inr s)
    then obtain auction where sub: "submit (Some (lh_auction g)) (cm_actor cmd) (bc_score b) = Inr (auction, bid_snapshot_of (Some auction))"
      by (cases s) (auto simp: submit_Inr)
    show ?thesis
      using assms unfolding apply_bid_taken [OF d sub]
      by (intro taken [OF sub]) (auto simp: Let_def split: sum.splits if_splits)
  qed
qed

text \<open>A move that the table takes, and the settlement when it ends the hand.\<close>

lemma pl_snapshot_sel [simp]:
  "ps_complete (pl_snapshot_of (Some st)) = pl_complete st" "ps_winner (pl_snapshot_of (Some st)) = pl_winner st"
  "ps_current (pl_snapshot_of (Some st)) = pl_current st"
  by (simp_all add: pl_snapshot_of_def)

lemma move_of_Inr:
  assumes "move_of g turns version cmd = Inr (turns', hands, v)"
  obtains (play) cards r where "remove_held_cards (lh_current g ! position_index (cm_actor cmd)) cards = Inr r"
      "play (Some turns) (cm_actor cmd) cards (r = []) = Inr (turns', v)" "hands = (lh_current g)[position_index (cm_actor cmd) := r]"
      "v = pl_snapshot_of (Some turns')"
    | (pass) "pass (Some turns) (cm_actor cmd) = Inr (turns', v)" "hands = lh_current g" "v = pl_snapshot_of (Some turns')"
proof -
  consider "version = play_command_version" | "version = pass_command_version" "version \<noteq> play_command_version"
    | "version \<noteq> play_command_version" "version \<noteq> pass_command_version" by blast
  then show ?thesis
  proof cases
    case 1
    with assms obtain c cards r where "remove_held_cards (lh_current g ! position_index (cm_actor cmd)) cards = Inr r"
      "play (Some turns) (cm_actor cmd) cards (r = []) = Inr (turns', v)" "hands = (lh_current g)[position_index (cm_actor cmd) := r]"
      by (auto simp: move_of_def Let_def rbind_eq_Inr)
    then show ?thesis by (intro play) (auto simp: play_Inr)
  next
    case 2
    with assms have "pass (Some turns) (cm_actor cmd) = Inr (turns', v)" "hands = lh_current g"
      by (auto simp: move_of_def Let_def rbind_eq_Inr)
    then show ?thesis by (intro pass) (auto simp: pass_Inr)
  next
    case 3
    with assms show ?thesis by (auto simp: move_of_def Let_def split: if_splits)
  qed
qed

lemma playing_step_Inr:
  assumes "playing_step g cmd = Inr (g', outcome)"
  obtains turns version turns' hands where "lh_play g = Some turns"
    "move_of g turns version cmd = Inr (turns', hands, pl_snapshot_of (Some turns'))"
    "oc_version outcome = lh_version g + 1" "oc_terminal outcome = pl_complete turns'"
    "if pl_complete turns'
     then \<exists>result. settle_hand g (lh_version g + 1) (pl_snapshot_of (Some turns')) hands = Inr (result, oc_final outcome) \<and>
        g' = complete_game (after_move g turns' hands (pl_snapshot_of (Some turns'))) (pl_snapshot_of (Some turns')) result
     else g' = after_move g turns' hands (pl_snapshot_of (Some turns'))"
proof -
  obtain turns version turns' hands v where t: "lh_play g = Some turns" and m: "move_of g turns version cmd = Inr (turns', hands, v)"
    and rest: "(let next_version = lh_version g + 1; g1 = after_move g turns' hands v
            in if ps_complete v then
                 rbind (settle_hand g next_version v hands) (\<lambda>(result, final).
                   Inr (complete_game g1 v result,
                     \<lparr>oc_version = next_version,
                      oc_payload = json_print (json_play_result (lh_id g) next_version phase_completed v (Some result)),
                      oc_terminal = True, oc_final = final\<rparr>))
               else
                 Inr (g1, \<lparr>oc_version = next_version,
                      oc_payload = json_print (json_play_result (lh_id g) next_version phase_playing v None),
                      oc_terminal = False, oc_final = []\<rparr>)) = Inr (g', outcome)"
    using assms by (auto simp: playing_step_def rbind_eq_Inr split: option.splits)
  from m have v: "v = pl_snapshot_of (Some turns')" by (rule move_of_Inr)
  show ?thesis
  proof (rule that [OF t m [unfolded v]])
    show "oc_version outcome = lh_version g + 1" "oc_terminal outcome = pl_complete turns'"
      using rest by (auto simp: v Let_def rbind_eq_Inr split: if_splits)
    show "if pl_complete turns'
     then \<exists>result. settle_hand g (lh_version g + 1) (pl_snapshot_of (Some turns')) hands = Inr (result, oc_final outcome) \<and>
        g' = complete_game (after_move g turns' hands (pl_snapshot_of (Some turns'))) (pl_snapshot_of (Some turns')) result
     else g' = after_move g turns' hands (pl_snapshot_of (Some turns'))"
      using rest by (auto simp: v Let_def rbind_eq_Inr split: if_splits)
  qed
qed

section \<open>Reachable games\<close>

definition dealt :: "live_hand \<Rightarrow> bool" where
  "dealt g \<longleftrightarrow> (\<exists>s m a su t first. g = initial_hand s m a su t (new_bid_state first) \<and> valid_seat first \<and>
     setup_typed su \<and> mset (concat (su_hands su)) + mset (su_landlord su) = mset canonical_deck)"

inductive lh_reach :: "live_hand \<Rightarrow> live_hand \<Rightarrow> bool" for g0 where
  lh_start: "lh_reach g0 g0"
| lh_command: "lh_reach g0 g \<Longrightarrow> live_game_apply g cmd = (g', r) \<Longrightarrow> lh_reach g0 g'"
| lh_abort: "lh_reach g0 g \<Longrightarrow> live_game_abort g reason = (g', r) \<Longrightarrow> lh_reach g0 g'"
| lh_fork: "lh_reach g0 g \<Longrightarrow> fork_game g = Inr g' \<Longrightarrow> lh_reach g0 g'"

definition untouched :: "live_hand \<Rightarrow> bool" where
  "untouched g \<longleftrightarrow> lh_play g = None \<and> lh_current g = su_hands (lh_setup g) \<and> lh_landlord g = 0 \<and> lh_score g = 0 \<and>
     lh_playing_seat g = 0"

definition in_play :: "live_hand \<Rightarrow> pl_state \<Rightarrow> bool" where
  "in_play g turns \<longleftrightarrow> lh_play g = Some turns \<and> bd_complete (lh_auction g) \<and> \<not> bd_no_landlord (lh_auction g) \<and>
     lh_landlord g = bd_landlord (lh_auction g) \<and> valid_seat (lh_landlord g) \<and>
     lh_score g = bd_highest_score (lh_auction g) \<and> lh_playing_seat g = pl_current turns \<and>
     replays (lh_setup g) (lh_landlord g) turns (lh_current g)"

definition game_settlement :: "live_hand \<Rightarrow> pl_state \<Rightarrow> go_error + settlement_result" where
  "game_settlement g turns =
     calculate \<lparr>in_landlord = lh_landlord g, in_score = lh_score g, in_playing = pl_snapshot_of (Some turns)\<rparr>"

definition phase_inv :: "live_hand \<Rightarrow> bool" where
  "phase_inv g \<longleftrightarrow>
     (if lh_phase g = phase_bidding then untouched g \<and> \<not> bd_complete (lh_auction g)
      else if lh_phase g = phase_no_landlord then untouched g \<and> bd_complete (lh_auction g) \<and> bd_landlord (lh_auction g) = 0
      else if lh_phase g = phase_playing then \<exists>turns. in_play g turns \<and> \<not> pl_complete turns
      else if lh_phase g = phase_completed then \<exists>turns result. in_play g turns \<and> pl_complete turns \<and>
        lh_winner g = pl_winner turns \<and> lh_settlement g = Some result \<and> game_settlement g turns = Inr result
      else lh_phase g = phase_aborted \<and> (untouched g \<or> (\<exists>turns. in_play g turns \<and> \<not> pl_complete turns))) \<and>
     (lh_phase g \<noteq> phase_completed \<longrightarrow> lh_winner g = 0 \<and> lh_settlement g = None)"

lemma history_frame [simp]:
  "untouched (g\<lparr>lh_history := h\<rparr>) = untouched g" "in_play (g\<lparr>lh_history := h\<rparr>) turns = in_play g turns"
  "game_settlement (g\<lparr>lh_history := h\<rparr>) turns = game_settlement g turns"
  by (simp_all add: untouched_def in_play_def game_settlement_def)

lemma phase_inv_history [simp]: "phase_inv (g\<lparr>lh_history := h\<rparr>) = phase_inv g"
  by (simp add: phase_inv_def)

definition log_inv :: "live_hand \<Rightarrow> bool" where
  "log_inv g \<longleftrightarrow>
     lh_version g = word_of_nat (length (lh_history g) + (if lh_phase g = phase_aborted then 2 else 1)) \<and>
     map cm_expected (lh_history g) = map word_of_nat [1..<Suc (length (lh_history g))]"

definition game_inv :: "live_hand \<Rightarrow> bool" where
  "game_inv g \<longleftrightarrow> setup_typed (lh_setup g) \<and> bd_reach (bd_first (lh_auction g)) (lh_auction g) \<and>
     lh_terminal g = (lh_phase g = phase_completed \<or> lh_phase g = phase_aborted) \<and> phase_inv g \<and> log_inv g"

lemma new_auction [simp]: "bd_first (new_bid_state first) = first" "bd_complete (new_bid_state first) = False"
  by (simp_all add: new_bid_state_def)

lemma game_inv_dealt: "dealt g \<Longrightarrow> game_inv g"
  by (auto simp: dealt_def game_inv_def phase_inv_def log_inv_def untouched_def initial_hand_def intro: bd_new)

lemma auction_decided:
  assumes "bd_reach first s" and "bd_complete s"
  shows "if bd_no_landlord s then bd_landlord s = 0 else valid_seat (bd_landlord s)"
proof -
  have inv: "bd_inv first s" using bd_reach_inv [OF assms(1)] by blast
  have "valid_seat (bd_landlord s)" if "\<not> bd_no_landlord s"
  proof -
    have "top_score (bids s) \<noteq> 0" "bd_landlord s = top_bidder (bids s)" using inv that assms(2) by (auto simp: bd_inv_def)
    then show ?thesis using top_bid_mem bd_reach_positions [OF assms(1)] by fastforce
  qed
  with inv assms(2) show ?thesis by (auto simp: bd_inv_def)
qed

lemma submit_first: "submit (Some s) p v = Inr (s', w) \<Longrightarrow> bd_first s' = bd_first s"
  by (auto simp: submit_Inr record_bid_def Let_def)

lemma log_inv_step:
  assumes "log_inv g" and "lh_phase g \<noteq> phase_aborted" and "cm_expected cmd = lh_version g"
    and "lh_version g' = lh_version g + 1" and "lh_phase g' \<noteq> phase_aborted" and "lh_history g' = lh_history g @ [cmd]"
  shows "log_inv g'"
  using assms by (simp add: log_inv_def add.commute)

lemma bid_inv:
  assumes inv: "game_inv g" "lh_phase g = phase_bidding"
    and step: "apply_bid g cmd = (g', r)"
  shows "(\<exists>e. r = Inl e \<and> g' = g) \<or>
    (\<exists>outcome. r = Inr outcome \<and> oc_version outcome = lh_version g + 1 \<and> \<not> oc_terminal outcome \<and>
      lh_version g' = lh_version g + 1 \<and> lh_history g' = lh_history g \<and> lh_setup g' = lh_setup g \<and>
      bd_reach (bd_first (lh_auction g')) (lh_auction g') \<and> lh_terminal g' = lh_terminal g \<and>
      lh_phase g' \<in> {phase_bidding, phase_no_landlord, phase_playing} \<and> phase_inv g')"
  using step
proof (cases rule: apply_bid_cases)
  case (taken auction score)
  have reach: "bd_reach (bd_first auction) auction"
    using inv(1) bd_submit [OF _ taken(1)] submit_first [OF taken(1)] by (auto simp: game_inv_def)
  have un: "untouched g" "lh_winner g = 0" "lh_settlement g = None" using inv by (simp_all add: game_inv_def phase_inv_def)
  consider (nobody) "bd_complete auction" "bd_no_landlord auction"
    | (won) "bd_complete auction" "\<not> bd_no_landlord auction" | (more) "\<not> bd_complete auction" by blast
  then show ?thesis
  proof cases
    case nobody
    with taken(2) auction_decided [OF reach] reach un inv(1) show ?thesis
      by (auto simp: bid_taken_def phase_inv_def untouched_def)
  next
    case won
    then have v: "valid_seat (bd_landlord auction)" using auction_decided [OF reach] by simp
    then obtain turns where n: "new_state (bd_landlord auction) = Inr turns" by (auto simp: new_state_def)
    have "bd_landlord auction \<noteq> 0" using v by (auto simp: valid_seat_cases)
    with won n taken(2) have g': "g' = start_play (bid_taken g auction) (bid_snapshot_of (Some auction)) turns"
      "r = Inr (bid_outcome g' (bid_snapshot_of (Some auction)) False)" by simp_all
    have t: "\<not> pl_complete turns" "pl_current turns = bd_landlord auction" using n by (auto simp: new_state_def zero_state_def split: if_splits)
    have "in_play g' turns"
      using won v t un replays_new [OF n, of "lh_setup g"]
      by (simp add: in_play_def g'(1) start_play_def bid_taken_def Let_def untouched_def hands_with_landlord_def)
    with t(1) un reach g'(2) inv(1) show ?thesis
      by (auto simp: g'(1) start_play_def bid_taken_def Let_def phase_inv_def)
  next
    case more
    with taken(2) reach un inv show ?thesis by (auto simp: bid_taken_def phase_inv_def untouched_def)
  qed
qed simp

lemma in_play_after_move:
  assumes "in_play g turns" and "replays (lh_setup g) (lh_landlord g) turns' hands"
  shows "in_play (after_move g turns' hands (pl_snapshot_of (Some turns'))) turns'"
  using assms by (auto simp: in_play_def after_move_def)

lemma in_play_complete: "in_play (complete_game g v result) turns = in_play g turns"
  by (simp add: in_play_def complete_game_def)

lemma move_replays:
  assumes "in_play g turns" and "move_of g turns version cmd = Inr (turns', hands, v)"
  shows "replays (lh_setup g) (lh_landlord g) turns' hands"
  using assms(2)
proof (cases rule: move_of_Inr)
  case (play cards r)
  with assms(1) show ?thesis by (auto simp: in_play_def intro: replays_play)
next
  case pass
  with assms(1) show ?thesis by (auto simp: in_play_def intro: replays_pass)
qed

lemma settle_hand_Inr: "settle_hand g n (pl_snapshot_of (Some turns)) hands = Inr (result, final) \<Longrightarrow>
    game_settlement g turns = Inr result"
  by (auto simp: settle_hand_def game_settlement_def rbind_eq_Inr)

lemma move_inv:
  assumes inv: "game_inv g" "lh_phase g = phase_playing" and step: "playing_step g cmd = Inr (g', outcome)"
  shows "oc_version outcome = lh_version g + 1 \<and> lh_version g' = lh_version g + 1 \<and> lh_history g' = lh_history g \<and>
    lh_setup g' = lh_setup g \<and> lh_auction g' = lh_auction g \<and> lh_terminal g' = oc_terminal outcome \<and>
    lh_phase g' = (if oc_terminal outcome then phase_completed else phase_playing) \<and> phase_inv g'"
  using step
proof (cases rule: playing_step_Inr)
  case (1 turns version turns' hands)
  obtain ts where ts: "in_play g ts" "lh_winner g = 0" "lh_settlement g = None" "\<not> lh_terminal g"
    using inv by (auto simp: game_inv_def phase_inv_def)
  then have "ts = turns" using 1(1) by (simp add: in_play_def)
  with ts have ip: "in_play g turns" by simp
  note after = in_play_after_move [OF ip move_replays [OF ip 1(2)]]
  let ?v = "pl_snapshot_of (Some turns')" let ?g1 = "after_move g turns' hands ?v"
  have same [simp]: "lh_version ?g1 = lh_version g + 1" "lh_history ?g1 = lh_history g" "lh_setup ?g1 = lh_setup g"
    "lh_auction ?g1 = lh_auction g" "lh_phase ?g1 = lh_phase g" "lh_terminal ?g1 = lh_terminal g" "lh_winner ?g1 = lh_winner g"
    "lh_settlement ?g1 = lh_settlement g" "lh_landlord ?g1 = lh_landlord g" "lh_score ?g1 = lh_score g"
    by (simp_all add: after_move_def)
  show ?thesis
  proof (cases "pl_complete turns'")
    case True
    then obtain result where s: "settle_hand g (lh_version g + 1) ?v hands = Inr (result, oc_final outcome)"
      and g': "g' = complete_game ?g1 ?v result" using 1(5) by auto
    have ip': "in_play g' turns'" using after by (simp add: g' in_play_complete)
    have st: "game_settlement g' turns' = Inr result" using settle_hand_Inr [OF s] by (simp add: game_settlement_def g' complete_game_def)
    have sel: "lh_phase g' = phase_completed" "lh_terminal g'" "lh_winner g' = pl_winner turns'" "lh_settlement g' = Some result"
      "lh_version g' = lh_version g + 1" "lh_history g' = lh_history g" "lh_setup g' = lh_setup g" "lh_auction g' = lh_auction g"
      by (simp_all add: g' complete_game_def)
    have "phase_inv g'" using ip' st sel True by (auto simp: phase_inv_def)
    with sel 1 True show ?thesis by simp
  next
    case False
    with 1(5) have "g' = ?g1" by simp
    moreover have "phase_inv ?g1" using after False ts inv by (auto simp: phase_inv_def)
    ultimately show ?thesis using 1 False inv(2) ts(4) by simp
  qed
qed

text \<open>One command: refused without a trace, or accepted at the expected version, which it counts up.\<close>

lemma apply_inv:
  assumes inv: "game_inv g" and step: "live_game_apply g cmd = (g', r)"
  shows "game_inv g' \<and> ((\<exists>e. r = Inl e \<and> g' = g) \<or>
    (\<exists>outcome. r = Inr outcome \<and> \<not> lh_terminal g \<and> lh_phase g \<in> {phase_bidding, phase_playing} \<and>
      cm_expected cmd = lh_version g \<and> lh_version g' = lh_version g + 1 \<and>
      oc_version outcome = lh_version g' \<and> lh_terminal g' = oc_terminal outcome \<and> lh_setup g' = lh_setup g \<and>
      lh_history g' = lh_history g @ [cmd]))"
  using step
proof (cases rule: live_apply_cases)
  case (refused e)
  with inv show ?thesis by simp
next
  case (failed_bid e)
  with bid_inv [OF inv failed_bid(3,4)] inv show ?thesis by simp
next
  case (bid g1 outcome)
  from bid_inv [OF inv bid(3,5)] have *: "oc_version outcome = lh_version g + 1" "\<not> oc_terminal outcome"
    "lh_version g1 = lh_version g + 1" "lh_history g1 = lh_history g" "lh_setup g1 = lh_setup g"
    "bd_reach (bd_first (lh_auction g1)) (lh_auction g1)" "lh_terminal g1 = lh_terminal g"
    "lh_phase g1 = phase_bidding \<or> lh_phase g1 = phase_no_landlord \<or> lh_phase g1 = phase_playing" "phase_inv g1"
    by auto
  have "log_inv g" using inv by (simp add: game_inv_def)
  then have "log_inv g'"
    by (rule log_inv_step) (use bid(3,4) *(3,4,8) in \<open>auto simp: bid(6)\<close>)
  moreover have "phase_inv g'" using *(9) by (simp add: bid(6))
  ultimately have "game_inv g'" using inv *(5,6,7,8) bid(2) by (auto simp: game_inv_def bid(6))
  with * bid show ?thesis by simp
next
  case (move g1 outcome)
  note * = move_inv [OF inv move(3,5)]
  have "log_inv g" using inv by (simp add: game_inv_def)
  then have "log_inv g'"
    by (rule log_inv_step) (use move(3,4) * in \<open>simp_all add: move(6)\<close>)
  moreover have "phase_inv g'" using * by (simp add: move(6))
  ultimately have "game_inv g'" using inv * by (simp add: game_inv_def move(6))
  with * move show ?thesis by simp
qed

lemma abort_inv:
  assumes inv: "game_inv g" and step: "live_game_abort g reason = (g', r)"
  shows "game_inv g' \<and> ((\<exists>e. r = Inl e \<and> g' = g) \<or>
    (\<exists>outcome. r = Inr outcome \<and> \<not> lh_terminal g \<and> lh_terminal g' \<and> lh_phase g' = phase_aborted \<and>
      lh_version g' = lh_version g + 1 \<and> ao_version outcome = lh_version g' \<and> lh_setup g' = lh_setup g))"
proof (cases r)
  case (Inl e)
  with step inv show ?thesis by (auto simp: live_game_abort_def Let_def split: if_splits sum.splits)
next
  case (Inr outcome)
  with step have t: "\<not> lh_terminal g" and o: "ao_version outcome = lh_version g + 1"
    and g': "g' = g\<lparr>lh_version := lh_version g + 1, lh_phase := phase_aborted, lh_terminal := True,
                  lh_material := clear_material (lh_material g)\<rparr>"
    by (auto simp: live_game_abort_def Let_def split: if_splits sum.splits)
  have ph: "lh_phase g \<noteq> phase_completed" "lh_phase g \<noteq> phase_aborted" using inv t by (auto simp: game_inv_def)
  then have "lh_phase g = phase_bidding \<or> lh_phase g = phase_no_landlord \<or> lh_phase g = phase_playing"
    using inv by (auto simp: game_inv_def phase_inv_def split: if_splits)
  then have "untouched g \<or> (\<exists>turns. in_play g turns \<and> \<not> pl_complete turns)" "lh_winner g = 0" "lh_settlement g = None"
    using inv ph by (auto simp: game_inv_def phase_inv_def split: if_splits)
  then have "phase_inv g'" by (auto simp: g' phase_inv_def untouched_def in_play_def)
  moreover have "log_inv g'" using inv ph by (auto simp: game_inv_def log_inv_def g')
  ultimately have "game_inv g'" using inv by (auto simp: game_inv_def g')
  with t o show ?thesis by (simp add: Inr g')
qed

lemma fork_eq: "fork_game g = Inr g' \<longleftrightarrow> \<not> lh_terminal g \<and> g' = g"
  by (cases g) (auto simp: fork_game_def bid_clone_def)

lemma reach_inv:
  assumes "lh_reach g0 g" and "dealt g0"
  shows "game_inv g \<and> lh_setup g = lh_setup g0"
  using assms(1)
proof induction
  case lh_start
  then show ?case using game_inv_dealt [OF assms(2)] by simp
next
  case (lh_command g cmd g' r)
  with apply_inv [of g cmd g' r] show ?case by auto
next
  case (lh_abort g reason g' r)
  with abort_inv [of g reason g' r] show ?case by auto
next
  case (lh_fork g g')
  then show ?case by (simp add: fork_eq)
qed

section \<open>Cards\<close>

definition cards_in_hand :: "live_hand \<Rightarrow> card multiset" where
  "cards_in_hand g = mset (concat (lh_current g))"

definition cards_played :: "live_hand \<Rightarrow> card multiset" where
  "cards_played g = (case lh_play g of None \<Rightarrow> {#} | Some turns \<Rightarrow> mset (played_cards (pl_history turns)))"

definition cards_face_down :: "live_hand \<Rightarrow> card multiset" where
  "cards_face_down g = (if lh_landlord g = 0 then mset (su_landlord (lh_setup g)) else {#})"

lemma phase_table:
  assumes "game_inv g"
  obtains (untouched) "untouched g" "lh_phase g \<noteq> phase_completed"
    | (in_play) turns where "in_play g turns" "pl_complete turns \<longleftrightarrow> lh_phase g = phase_completed"
  using assms by (auto simp: game_inv_def phase_inv_def split: if_splits)

lemma in_play_facts:
  assumes "game_inv g" and "in_play g turns"
  shows "pl_reach (lh_landlord g) turns" "table_open turns (lh_current g)"
    "cards_in_hand g + cards_played g = mset (concat (su_hands (lh_setup g))) + mset (su_landlord (lh_setup g))"
    "cards_face_down g = {#}"
proof -
  have "setup_typed (lh_setup g)" "replays (lh_setup g) (lh_landlord g) turns (lh_current g)"
    using assms by (auto simp: game_inv_def in_play_def)
  from replays_facts [OF this] show "pl_reach (lh_landlord g) turns" "table_open turns (lh_current g)"
    "cards_in_hand g + cards_played g = mset (concat (su_hands (lh_setup g))) + mset (su_landlord (lh_setup g))"
    using assms(2) by (simp_all add: cards_in_hand_def cards_played_def in_play_def)
  show "cards_face_down g = {#}" using assms(2) by (auto simp: cards_face_down_def in_play_def valid_seat_def)
qed

lemma all_cards:
  assumes "game_inv g"
  shows "cards_in_hand g + cards_played g + cards_face_down g =
    mset (concat (su_hands (lh_setup g))) + mset (su_landlord (lh_setup g))"
  using assms
proof (cases rule: phase_table)
  case untouched
  then show ?thesis by (simp add: untouched_def cards_in_hand_def cards_played_def cards_face_down_def)
next
  case (in_play turns)
  with in_play_facts [OF assms in_play(1)] show ?thesis by simp
qed

lemma dealt_cards: "dealt g \<Longrightarrow> mset (concat (su_hands (lh_setup g))) + mset (su_landlord (lh_setup g)) = mset canonical_deck"
  by (auto simp: dealt_def initial_hand_def)

text \<open>A hand is empty only when it has won.\<close>

lemma empty_hands:
  assumes "game_inv g"
  shows "length (lh_current g) = 3 \<and> (\<forall>i < 3. lh_current g ! i = [] \<longleftrightarrow> lh_phase g = phase_completed \<and> i = position_index (lh_winner g))"
  using assms
proof (cases rule: phase_table)
  case untouched
  moreover have "setup_typed (lh_setup g)" using assms by (simp add: game_inv_def)
  ultimately show ?thesis by (auto simp: untouched_def setup_typed_def list_all_length)
next
  case (in_play turns)
  have "lh_winner g = pl_winner turns" if "lh_phase g = phase_completed"
    using assms that in_play(1) by (auto simp: game_inv_def phase_inv_def in_play_def)
  then show ?thesis using in_play_facts(2) [OF assms in_play(1)] in_play(2) by (auto simp: table_open_def)
qed

section \<open>What a game keeps\<close>

definition same_deal :: "live_hand \<Rightarrow> live_hand \<Rightarrow> bool" where
  "same_deal g g' \<longleftrightarrow> lh_id g' = lh_id g \<and> lh_seats g' = lh_seats g \<and> lh_artifact g' = lh_artifact g \<and>
     lh_setup g' = lh_setup g \<and> lh_transcript g' = lh_transcript g \<and> lh_origin g' = lh_origin g \<and>
     bd_first (lh_auction g') = bd_first (lh_auction g)"

lemma same_deal_trans: "same_deal g h \<Longrightarrow> same_deal h k \<Longrightarrow> same_deal g k"
  by (simp add: same_deal_def)

lemma same_deal_bid: "apply_bid g cmd = (g', r) \<Longrightarrow> same_deal g g'"
proof (erule apply_bid_cases)
  fix auction score
  assume sub: "submit (Some (lh_auction g)) (cm_actor cmd) score = Inr (auction, bid_snapshot_of (Some auction))"
  have t: "same_deal g (bid_taken g auction)" using submit_first [OF sub] by (simp add: same_deal_def bid_taken_def)
  then show "if bd_complete auction \<and> bd_no_landlord auction
         then g' = (bid_taken g auction)\<lparr>lh_phase := phase_no_landlord\<rparr> \<and> r = Inr (bid_outcome g' (bid_snapshot_of (Some auction)) True)
         else if bd_complete auction \<and> bd_landlord auction \<noteq> 0
         then case new_state (bd_landlord auction) of
              Inl e \<Rightarrow> g' = bid_taken g auction \<and> r = Inl e
            | Inr turns \<Rightarrow> g' = start_play (bid_taken g auction) (bid_snapshot_of (Some auction)) turns \<and>
                r = Inr (bid_outcome g' (bid_snapshot_of (Some auction)) False)
         else g' = bid_taken g auction \<and> r = Inr (bid_outcome g' (bid_snapshot_of (Some auction)) False)
    \<Longrightarrow> same_deal g g'"
    by (auto simp: same_deal_def start_play_def Let_def split: if_splits sum.splits)
qed (simp add: same_deal_def)

lemma same_deal_move: "playing_step g cmd = Inr (g', outcome) \<Longrightarrow> same_deal g g'"
  by (erule playing_step_Inr) (auto simp: same_deal_def after_move_def complete_game_def split: if_splits)

lemma same_deal_apply: "live_game_apply g cmd = (g', r) \<Longrightarrow> same_deal g g'"
proof (erule live_apply_cases)
  fix e assume "g' = g"
  then show "same_deal g g'" by (simp add: same_deal_def)
next
  fix e assume "apply_bid g cmd = (g', Inl e)"
  then show "same_deal g g'" by (rule same_deal_bid)
next
  fix g1 outcome assume "apply_bid g cmd = (g1, Inr outcome)" "g' = g1\<lparr>lh_history := lh_history g1 @ [cmd]\<rparr>"
  then show "same_deal g g'" using same_deal_bid [of g cmd g1] by (simp add: same_deal_def)
next
  fix g1 outcome assume "playing_step g cmd = Inr (g1, outcome)" "g' = g1\<lparr>lh_history := lh_history g1 @ [cmd]\<rparr>"
  then show "same_deal g g'" using same_deal_move [of g cmd g1] by (simp add: same_deal_def)
qed

lemma same_deal_abort: "live_game_abort g reason = (g', r) \<Longrightarrow> same_deal g g'"
  by (auto simp: live_game_abort_def Let_def same_deal_def split: if_splits sum.splits)

lemma reach_deal: "lh_reach g0 g \<Longrightarrow> same_deal g0 g"
proof (induction rule: lh_reach.induct)
  case lh_start
  then show ?case by (simp add: same_deal_def)
next
  case (lh_command g cmd g' r)
  then show ?case using same_deal_trans same_deal_apply by blast
next
  case (lh_abort g reason g' r)
  then show ?case using same_deal_trans same_deal_abort by blast
next
  case (lh_fork g g')
  then show ?case by (simp add: fork_eq)
qed

lemma reachable_cards:
  assumes "lh_reach g0 g" and "dealt g0"
  shows "cards_in_hand g + cards_played g + cards_face_down g = mset canonical_deck"
  using all_cards [of g] reach_inv [OF assms] dealt_cards [OF assms(2)] by simp

lemma reachable_hand_cards:
  assumes "lh_reach g0 g" and "dealt g0" and "hand \<in> set (lh_current g)" and "c \<in> set hand"
  shows "card_valid c"
proof -
  have "c \<in># cards_in_hand g" using assms(3,4) by (auto simp: cards_in_hand_def)
  then have "c \<in># mset canonical_deck" by (simp flip: reachable_cards [OF assms(1,2)])
  then show ?thesis by (simp add: valid_cards_list)
qed

end
