(* ===== verification/Live_Commands.thy ===== *)
theory Live_Commands
  imports Live_Game_Safety
begin

text \<open>
  The commands a client can send, as JSON payloads, and what the game's decoders make of them; the game
  can always go on: some command of the seat to act is accepted. A concrete hand that is won at once.
\<close>

section \<open>Payloads\<close>

definition bid_json :: "score \<Rightarrow> json" where
  "bid_json s = JObj [(''v'', JStr bid_command_version), (''score'', json_word s)]"

definition play_json :: "string list \<Rightarrow> json" where
  "play_json codes = JObj [(''v'', JStr play_command_version), (''cards'', JArr (map JStr codes))]"

definition pass_json :: json where "pass_json = JObj [(''v'', JStr pass_command_version)]"

lemma command_versions_utf8 [simp]:
  "utf8_text bid_command_version" "utf8_text play_command_version" "utf8_text pass_command_version"
  "utf8_text ''v''" "utf8_text ''score''" "utf8_text ''cards''"
  by code_simp+

lemma command_version_trim [simp]:
  "trim_space bid_command_version \<noteq> []" "trim_space play_command_version \<noteq> []" "trim_space pass_command_version \<noteq> []"
  by code_simp+

lemma command_versions_distinct [simp]:
  "pass_command_version \<noteq> play_command_version" "bid_command_version \<noteq> play_command_version"
  "bid_command_version \<noteq> pass_command_version"
  by (simp_all add: bid_command_version_def play_command_version_def pass_command_version_def)

lemma print_object_nonempty [simp]: "json_print (JObj ms) \<noteq> []"
  by simp

lemma strict_decoded:
  assumes "json_ok max_nesting (JObj ms)" and "decode_struct fds strict (JObj ms) zero = Some r"
  shows "decode_strict_json (json_print (JObj ms)) fds strict zero = Inr r"
  unfolding decode_strict_json_def json_roundtrip [OF assms(1)]
  by (simp add: assms(2) del: json_print.simps)

lemma decode_bid_json: "decode_bid_command (json_print (bid_json s)) = Inr \<lparr>bc_version = bid_command_version, bc_score = s\<rparr>"
proof -
  have "json_ok max_nesting (bid_json s)"
    using word_codec.enc_json [of s] by (simp add: bid_json_def max_nesting_def json_ok_mono [of 0])
  moreover have "decode_struct bid_command_fields True (bid_json s) \<lparr>bc_version = '''', bc_score = 0\<rparr> =
      Some \<lparr>bc_version = bid_command_version, bc_score = s\<rparr>"
    by (simp add: bid_json_def bid_command_fields_def struct_simps word_codec.dec_enc decode_string_def)
  ultimately show ?thesis unfolding bid_json_def by (simp add: decode_bid_command_def strict_decoded del: json_print.simps)
qed

lemma versions_read:
  "json_ok max_nesting (JObj ((''v'', JStr ver) # ms)) \<Longrightarrow>
   decode_members pass_command_fields False ms \<lparr>sc_version = ver\<rparr> = Some \<lparr>sc_version = ver\<rparr> \<Longrightarrow> trim_space ver \<noteq> [] \<Longrightarrow>
   command_payload_version (json_print (JObj ((''v'', JStr ver) # ms))) = Inr ver"
  unfolding command_payload_version_def
  by (subst strict_decoded [where r = "\<lparr>sc_version = ver\<rparr>"])
    (simp_all add: decode_struct_def pass_command_fields_def find_field_def field_def decode_string_def del: json_print.simps)

lemma code_utf8: "card_code c = Inr s \<Longrightarrow> utf8_text s"
proof -
  assume c: "card_code c = Inr s"
  have "list_all (\<lambda>c. case card_code c of Inl e \<Rightarrow> True | Inr s \<Rightarrow> utf8_text s) canonical_deck" by code_simp
  moreover have "c \<in> set canonical_deck" using card_code_valid [OF c] by (simp add: valid_cards_list)
  ultimately show ?thesis using c by (auto simp: list_all_iff)
qed

lemma codes_utf8: "card_codes cs = Inr ss \<Longrightarrow> list_all utf8_text ss \<and> length ss = length cs"
  by (induction cs arbitrary: ss) (auto simp: rbind_eq_Inr code_utf8)

lemma parse_codes_card: "card_codes cs = Inr ss \<Longrightarrow> parse_codes ss = Inr cs"
  by (induction cs arbitrary: ss) (auto simp: rbind_eq_Inr card_code_parse [OF card_code_valid])

lemma play_json_ok: "list_all utf8_text codes \<Longrightarrow> json_ok max_nesting (play_json codes)"
  by (simp add: play_json_def max_nesting_def list_all_iff)

lemma decode_play_json:
  assumes codes: "card_codes cs = Inr ss" and len: "1 \<le> length cs" "length cs \<le> 20"
  shows "command_payload_version (json_print (play_json ss)) = Inr play_command_version"
    and "\<exists>c. decode_play_command (json_print (play_json ss)) = Inr (c, cs)"
proof -
  note u = codes_utf8 [OF codes]
  then have nonempty: "ss \<noteq> []" using len(1) by auto
  have ok: "json_ok max_nesting (play_json ss)" using u by (intro play_json_ok) simp
  have nv: "decode_members pass_command_fields False [(''cards'', JArr (map JStr ss))] \<lparr>sc_version = play_command_version\<rparr>
      = Some \<lparr>sc_version = play_command_version\<rparr>"
    by (simp add: pass_command_fields_def find_field_def field_def fold_name.simps upper_char_def)
  show "command_payload_version (json_print (play_json ss)) = Inr play_command_version"
    using versions_read [OF ok [unfolded play_json_def] nv] by (simp add: play_json_def)
  have "decode_slice decode_string '''' (JArr (map JStr ss)) None = Some (made_slice ss)"
    using string_codec.slice_codec [of "made_slice ss"] u by (simp add: made_slice_def json_slice_def elements_def)
  then have "decode_struct play_command_fields True (play_json ss) \<lparr>yc_version = '''', yc_cards = None\<rparr> =
      Some \<lparr>yc_version = play_command_version, yc_cards = made_slice ss\<rparr>"
    by (simp add: play_json_def play_command_fields_def struct_simps decode_string_def)
  with ok have "decode_strict_json (json_print (play_json ss)) play_command_fields True \<lparr>yc_version = '''', yc_cards = None\<rparr>
      = Inr \<lparr>yc_version = play_command_version, yc_cards = made_slice ss\<rparr>"
    unfolding play_json_def by (rule strict_decoded)
  then show "\<exists>c. decode_play_command (json_print (play_json ss)) = Inr (c, cs)"
    using u len(2) parse_codes_card [OF codes] nonempty by (simp add: decode_play_command_def del: json_print.simps)
qed

lemma decode_pass_json:
  "command_payload_version (json_print pass_json) = Inr pass_command_version"
  "decode_pass_command (json_print pass_json) = Inr \<lparr>sc_version = pass_command_version\<rparr>"
proof -
  have ok: "json_ok max_nesting pass_json" by (simp add: pass_json_def max_nesting_def)
  show "command_payload_version (json_print pass_json) = Inr pass_command_version"
    using versions_read [OF ok [unfolded pass_json_def]] by (simp add: pass_json_def)
  have "decode_struct pass_command_fields True pass_json \<lparr>sc_version = ''''\<rparr> = Some \<lparr>sc_version = pass_command_version\<rparr>"
    by (simp add: pass_json_def pass_command_fields_def struct_simps decode_string_def)
  with ok have "decode_strict_json (json_print pass_json) pass_command_fields True \<lparr>sc_version = ''''\<rparr>
      = Inr \<lparr>sc_version = pass_command_version\<rparr>"
    unfolding pass_json_def by (rule strict_decoded)
  then show "decode_pass_command (json_print pass_json) = Inr \<lparr>sc_version = pass_command_version\<rparr>"
    by (simp add: decode_pass_command_def del: json_print.simps)
qed

section \<open>Every winning play can be settled\<close>

definition transcript_ok :: "live_hand \<Rightarrow> bool" where
  "transcript_ok g \<longleftrightarrow> canonical_bytes (lh_transcript g) = Inr (transcript_bytes (lh_transcript g))"

lemma transcript_ok_deal: "same_deal g0 g \<Longrightarrow> transcript_ok g = transcript_ok g0"
  by (simp add: transcript_ok_def same_deal_def)

lemma winning_score:
  assumes "bd_reach first s" and "bd_complete s" and "\<not> bd_no_landlord s"
  shows "bd_highest_score s \<in> {score_one, score_two, score_three}"
proof -
  have inv: "bd_inv first s" "bids_ok first (bids s)" using bd_reach_inv [OF assms(1)] by blast+
  then have t: "top_score (bids s) \<noteq> 0" "bd_highest_score s = top_score (bids s)" using assms(2,3) by (auto simp: bd_inv_def)
  then have "score_valid (top_score (bids s))" using top_bid_mem inv(2) by (fastforce simp: bids_ok_def)
  with t(1) have "valid_seat (top_score (bids s))" by (simp add: valid_seat_def score_valid_def)
  with t(2) show ?thesis by (auto simp: valid_seat_cases)
qed

lemma hand_codes_total: "\<forall>h \<in> set hs. \<forall>c \<in> set h. card_valid c \<Longrightarrow> \<exists>ss. all_hand_codes hs = Inr ss"
  using card_codes_total by (induction hs) (fastforce simp: hand_codes_def)+

lemma settle_ok:
  assumes inv: "game_inv g" "in_play g turns" and deck: "mset (concat (su_hands (lh_setup g))) + mset (su_landlord (lh_setup g)) = mset canonical_deck"
    and rep: "replays (lh_setup g) (lh_landlord g) turns' hands" and won: "pl_complete turns'" and t: "transcript_ok g"
  shows "\<exists>result final. settle_hand g n (pl_snapshot_of (Some turns')) hands = Inr (result, final)"
proof -
  have "setup_typed (lh_setup g)" using inv(1) by (simp add: game_inv_def)
  note f = replays_facts [OF this rep, unfolded deck]
  have "distinct (concat hands @ played_cards (pl_history turns'))"
    using f(3) distinct_canonical_deck by (metis mset_append mset_eq_imp_distinct_iff)
  then have d: "distinct (played_cards (pl_history turns'))" by simp
  have ls: "lh_score g \<in> {score_one, score_two, score_three}" "valid_seat (lh_landlord g)"
    using winning_score [of "bd_first (lh_auction g)" "lh_auction g"] inv by (auto simp: game_inv_def in_play_def)
  obtain r where r: "calculate \<lparr>in_landlord = lh_landlord g, in_score = lh_score g,
      in_playing = pl_snapshot_of (Some turns')\<rparr> = Inr r"
    using finished_hand [OF f(1) won d ls(2,1)] by blast
  have v: "c \<in># mset canonical_deck \<Longrightarrow> card_valid c" for c by (simp add: valid_cards_list)
  have "\<forall>h \<in> set hands. \<forall>c \<in> set h. card_valid c" 
  proof (intro ballI)
    fix h c assume "h \<in> set hands" "c \<in> set h"
    then have "c \<in># mset (concat hands) + mset (played_cards (pl_history turns'))" by auto
    then show "card_valid c" unfolding f(3) by (rule v)
  qed
  then obtain hc where hc: "all_hand_codes hands = Inr hc" using hand_codes_total by blast
  have "\<forall>c \<in> set (su_landlord (lh_setup g)). card_valid c"
  proof
    fix c assume "c \<in> set (su_landlord (lh_setup g))"
    then have "c \<in># mset (concat (su_hands (lh_setup g))) + mset (su_landlord (lh_setup g))" by auto
    then show "card_valid c" unfolding deck by (rule v)
  qed
  then obtain lc where "card_codes (su_landlord (lh_setup g)) = Inr lc" using card_codes_total by blast
  with hc r t show ?thesis
    by (simp add: settle_hand_def build_completed_payload_def completed_payload_of_def transcript_ok_def hand_codes_def)
qed

section \<open>The game can go on\<close>

definition seat_to_act :: "live_hand \<Rightarrow> u8" where
  "seat_to_act g = (case lh_play g of None \<Rightarrow> bd_current (lh_auction g) | Some turns \<Rightarrow> pl_current turns)"

lemma bidder_seated: "bd_reach first s \<Longrightarrow> \<not> bd_complete s \<Longrightarrow> valid_seat (bd_current s)"
  using bd_reach_inv [of first s] bd_reach_first [of first s] valid_next_seat_pow
  by (auto simp: bd_inv_def next_position_eq)

lemma apply_accepts:
  assumes "game_inv g" and "cm_expected cmd = lh_version g" and "lh_phase g = phase_playing" and "playing_step g cmd = Inr (g1, outcome)"
  shows "\<exists>g'. live_game_apply g cmd = (g', Inr outcome)"
  using assms by (simp add: live_game_apply_def apply_playing_def game_inv_def)

lemma bid_accepts:
  assumes inv: "game_inv g" "lh_phase g = phase_bidding" and cmd: "cm_expected cmd = lh_version g"
    "cm_actor cmd = bd_current (lh_auction g)" "cm_payload cmd = json_print (bid_json 0)"
  shows "\<exists>g' outcome. live_game_apply g cmd = (g', Inr outcome)"
proof -
  obtain g1 r where s: "apply_bid g cmd = (g1, r)" by (cases "apply_bid g cmd")
  have o: "\<not> bd_complete (lh_auction g)" "bd_reach (bd_first (lh_auction g)) (lh_auction g)"
    using inv by (auto simp: game_inv_def phase_inv_def)
  then have "valid_seat (bd_current (lh_auction g))" using bidder_seated by blast
  with o have "\<exists>auction v. submit (Some (lh_auction g)) (cm_actor cmd) 0 = Inr (auction, v)"
    by (auto simp: submit_Inr cmd score_valid_def)
  then obtain auction v where sub: "submit (Some (lh_auction g)) (cm_actor cmd) 0 = Inr (auction, v)" by blast
  have d: "decode_bid_command (cm_payload cmd) = Inr \<lparr>bc_version = bid_command_version, bc_score = 0\<rparr>"
    unfolding cmd(3) by (rule decode_bid_json)
  have "lh_version g1 = lh_version g + 1"
    using s sub unfolding apply_bid_taken [OF d, unfolded bid_command.simps, OF sub]
    by (auto simp: Let_def split: if_splits sum.splits)
  then have "g1 \<noteq> g" by auto
  with bid_inv [OF inv s] obtain outcome where "r = Inr outcome" by blast
  with s inv cmd(1) show ?thesis by (simp add: live_game_apply_def game_inv_def)
qed

lemma move_accepts:
  assumes "lh_play g = Some turns" and "command_payload_version (cm_payload cmd) = Inr version" and "cm_actor cmd = pl_current turns"
    and "move_of g turns version cmd = Inr (turns', hands, pl_snapshot_of (Some turns'))"
    and "pl_complete turns' \<Longrightarrow>
      \<exists>result final. settle_hand g (lh_version g + 1) (pl_snapshot_of (Some turns')) hands = Inr (result, final)"
  shows "\<exists>g1 outcome. playing_step g cmd = Inr (g1, outcome) \<and> oc_terminal outcome = pl_complete turns'"
  using assms by (cases "pl_complete turns'") (auto simp: playing_step_def Let_def)

lemma move_of_play:
  assumes "decode_play_command (cm_payload cmd) = Inr (c, cards)"
    and "remove_held_cards (lh_current g ! position_index (cm_actor cmd)) cards = Inr r"
    and "play (Some turns) (cm_actor cmd) cards (r = []) = Inr (turns', v)"
  shows "move_of g turns play_command_version cmd = Inr (turns', (lh_current g)[position_index (cm_actor cmd) := r], pl_snapshot_of (Some turns'))"
  using assms by (auto simp: move_of_def Let_def play_Inr)

lemma move_of_pass:
  assumes "decode_pass_command (cm_payload cmd) = Inr c" and "pass (Some turns) (cm_actor cmd) = Inr (turns', v)"
  shows "move_of g turns pass_command_version cmd = Inr (turns', lh_current g, pl_snapshot_of (Some turns'))"
  using assms by (auto simp: move_of_def Let_def pass_Inr)

lemma play_command_accepted:
  assumes inv: "game_inv g" "in_play g turns" "lh_phase g = phase_playing" and t: "transcript_ok g"
    and deck: "mset (concat (su_hands (lh_setup g))) + mset (su_landlord (lh_setup g)) = mset canonical_deck"
    and codes: "card_codes cards = Inr ss" "1 \<le> length cards" "length cards \<le> 20"
    and cmd: "cm_actor cmd = pl_current turns" "cm_expected cmd = lh_version g" "cm_payload cmd = json_print (play_json ss)"
    and held: "remove_held_cards (lh_current g ! position_index (pl_current turns)) cards = Inr r"
    and legal: "play (Some turns) (pl_current turns) cards (r = []) = Inr (turns', v)"
  shows "\<exists>g' outcome. live_game_apply g cmd = (g', Inr outcome) \<and> oc_terminal outcome = pl_complete turns'"
proof -
  obtain c where d: "decode_play_command (cm_payload cmd) = Inr (c, cards)"
    unfolding cmd(3) using decode_play_json(2) [OF codes] by blast
  have "command_payload_version (cm_payload cmd) = Inr play_command_version"
    unfolding cmd(3) by (rule decode_play_json(1) [OF codes])
  moreover have m: "move_of g turns play_command_version cmd =
      Inr (turns', (lh_current g)[position_index (cm_actor cmd) := r], pl_snapshot_of (Some turns'))"
    by (rule move_of_play [OF d]) (use held legal cmd(1) in simp_all)
  moreover have "\<exists>result final. settle_hand g (lh_version g + 1) (pl_snapshot_of (Some turns'))
      ((lh_current g)[position_index (cm_actor cmd) := r]) = Inr (result, final)" if "pl_complete turns'"
    by (rule settle_ok [OF inv(1,2) deck move_replays [OF inv(2) m] that t])
  ultimately have "\<exists>g1 outcome. playing_step g cmd = Inr (g1, outcome) \<and> oc_terminal outcome = pl_complete turns'"
    using inv(2) cmd(1) by (intro move_accepts) (auto simp: in_play_def)
  then show ?thesis using apply_accepts [OF inv(1) cmd(2) inv(3)] by blast
qed

lemma pass_command_accepted:
  assumes inv: "game_inv g" "in_play g turns" "lh_phase g = phase_playing"
    and cmd: "cm_actor cmd = pl_current turns" "cm_expected cmd = lh_version g" "cm_payload cmd = json_print pass_json"
    and legal: "pass (Some turns) (pl_current turns) = Inr (turns', v)"
  shows "\<exists>g' outcome. live_game_apply g cmd = (g', Inr outcome)"
proof -
  have "command_payload_version (cm_payload cmd) = Inr pass_command_version"
    unfolding cmd(3) by (rule decode_pass_json(1))
  moreover have "move_of g turns pass_command_version cmd = Inr (turns', lh_current g, pl_snapshot_of (Some turns'))"
    by (rule move_of_pass) (use cmd legal decode_pass_json(2) in simp_all)
  moreover have "\<not> pl_complete turns'" using legal by (auto simp: pass_Inr)
  ultimately have "\<exists>g1 outcome. playing_step g cmd = Inr (g1, outcome) \<and> oc_terminal outcome = pl_complete turns'"
    using inv(2) cmd(1) by (intro move_accepts) (auto simp: in_play_def)
  then show ?thesis using apply_accepts [OF inv(1) cmd(2) inv(3)] by blast
qed

lemma playing_goes_on:
  assumes inv: "game_inv g" "in_play g turns" "lh_phase g = phase_playing" and t: "transcript_ok g"
    and deck: "mset (concat (su_hands (lh_setup g))) + mset (su_landlord (lh_setup g)) = mset canonical_deck"
  shows "\<exists>payload g' outcome. live_game_apply g \<lparr>cm_actor = pl_current turns, cm_expected = lh_version g, cm_payload = payload\<rparr> = (g', Inr outcome)"
proof -
  note f = in_play_facts [OF inv(1,2)]
  have "\<not> pl_complete turns" using inv by (auto simp: game_inv_def phase_inv_def in_play_def)
  then have seat: "valid_seat (pl_current turns)" "turn_ok turns" using pl_reach_inv [OF f(1)] by (auto simp: pl_inv_def)
  show ?thesis
  proof (cases "pl_leading_pattern turns")
    case (Some p)
    then have "pl_leading_seat turns \<noteq> 0" using seat(2) by (auto simp: turn_ok_def valid_seat_cases)
    then have "\<exists>turns' v. pass (Some turns) (pl_current turns) = Inr (turns', v)"
      using seat(1) \<open>\<not> pl_complete turns\<close> Some by (auto simp: pass_Inr)
    then show ?thesis
      using pass_command_accepted [OF inv, of "\<lparr>cm_actor = pl_current turns, cm_expected = lh_version g, cm_payload = json_print pass_json\<rparr>"]
      by (metis command.select_convs)
  next
    case None
    let ?i = "position_index (pl_current turns)"
    have i: "?i < 3" by (rule position_index_bound [OF seat(1)])
    then have "lh_current g ! ?i \<noteq> []" using empty_hands [OF inv(1)] inv(3) by auto
    then obtain c r where c: "lh_current g ! ?i = c # r" by (cases "lh_current g ! ?i") auto
    have "c \<in># cards_in_hand g"
      unfolding cards_in_hand_def using c i f(2) by (auto simp: table_open_def) (metis list.set_intros(1) nth_mem)
    then have "c \<in># mset canonical_deck" using f(3) unfolding deck by (metis union_iff)
    then have v: "card_valid c" by (simp add: valid_cards_list)
    then obtain s where s: "card_codes [c] = Inr [s]" using card_code_total by fastforce
    obtain p where "analyze [c] = Inr p" using analyze_single [OF v] ..
    then have "play (Some turns) (pl_current turns) [c] (r = []) =
        Inr (record_play turns (pl_current turns) [c] p (r = []), pl_snapshot_of (Some (record_play turns (pl_current turns) [c] p (r = []))))"
      using seat(1) \<open>\<not> pl_complete turns\<close> None by (auto simp: play_Inr)
    moreover have "remove_held_cards (lh_current g ! ?i) [c] = Inr r" by (simp add: c)
    ultimately show ?thesis
      using play_command_accepted [OF inv t deck s, of "\<lparr>cm_actor = pl_current turns, cm_expected = lh_version g, cm_payload = json_print (play_json [s])\<rparr>" r]
      by (simp del: json_print.simps remove_held_cards.simps) blast
  qed
qed

end
