(* ===== verification/Live_Game_Run.thy ===== *)
theory Live_Game_Run
  imports Live_Commands
begin

text \<open>
  A concrete game: seat 2 opens the auction with three and, as the landlord, holds five triples and five
  single cards, which it plays at once. Its transcript is sealed with the real commitments, so the final
  payload of the hand exists. The games of this theory are the inputs of the witnesses.
\<close>

definition won_deck :: deck where
  "won_deck = [3, 0, 37, 7, 1, 38, 11, 2, 39, 15, 4, 40, 19, 5, 41, 21, 6, 42, 22, 8, 43, 23, 9, 44, 25, 10, 45,
     26, 12, 46, 27, 13, 47, 29, 14, 48, 30, 16, 49, 31, 17, 50, 33, 18, 51, 34, 20, 52, 35, 24, 53, 28, 32, 36]"

definition won_cards :: "card list" where
  "won_cards = [0, 1, 2, 4, 5, 6, 8, 9, 10, 12, 13, 14, 16, 17, 18, 20, 24, 28, 32, 36]"

definition won_setup :: setup_data where
  "won_setup = \<lparr>su_seed = replicate 32 1, su_deck = won_deck, su_deck_digest = replicate 32 1,
     su_hands = deal_hands won_deck, su_landlord = drop 51 won_deck, su_deal_digest = replicate 32 1\<rparr>"

definition won_input :: transcript_input where
  "won_input =
     \<lparr>ti_hand = ''H'', ti_seed = replicate 32 1,
      ti_server_commitment = sha256 (write_domain server_commit_domain @ write_string ''H'' @ replicate 32 1),
      ti_contributions = map (\<lambda>seat. \<lparr>ce_seat = seat, ce_digest = replicate 32 seat,
        ce_commitment = sha256 (write_domain client_commit_domain @ write_string ''H'' @ [seat] @ replicate 32 seat)\<rparr>) [1, 2, 3],
      ti_beacon = \<lparr>be_provider = ''P'', be_round = ''1'', be_digest = replicate 32 1, be_proof_ref = ''Q''\<rparr>,
      ti_reveal_key = \<lparr>ra_key = ''K'', ra_hash = replicate 32 1\<rparr>\<rparr>"

definition won_transcript :: transcript where
  "won_transcript = sealed won_input \<lparr>sr_seed = replicate 32 1, sr_deck = won_deck, sr_deck_digest = replicate 32 1\<rparr>
     \<lparr>dr_hands = deal_hands won_deck, dr_landlord = drop 51 won_deck, dr_digest = zero_digest\<rparr>"

lemma won_deck_valid: "deck_validate won_deck = Inr ()" "length won_deck = 54"
  by code_simp+

lemma won_input_valid: "validate_transcript_input won_input = Inr ()"
proof -
  have t: "validate_text ''H'' False = Inr ()" "validate_text ''P'' False = Inr ()" "validate_text ''1'' False = Inr ()"
    "validate_text ''Q'' False = Inr ()" "validate_text ''K'' False = Inr ()" by code_simp+
  have z: "\<not> all_zero (replicate 32 1)" "\<not> all_zero (replicate 32 2)" "\<not> all_zero (replicate 32 3)" by (simp_all add: all_zero_iff)
  show ?thesis
    using t z by (simp add: validate_transcript_input_def won_input_def compute_server_commitment_def
        compute_client_commitment_def sha256_32 Let_def)
qed

lemma won_transcript_ok: "canonical_bytes won_transcript = Inr (transcript_bytes won_transcript)"
proof -
  have "reconstruct_deck \<lparr>dr_hands = deal_hands won_deck, dr_landlord = drop 51 won_deck, dr_digest = zero_digest\<rparr> = won_deck"
    by code_simp
  then have "deal_validate (tr_deal won_transcript) = Inr ()"
    using won_deck_valid(1) by (simp add: deal_validate_def deal_compute_digest_def won_transcript_def sealed_def)
  moreover have "input_of won_transcript = won_input"
    by (cases won_input) (simp add: won_transcript_def sealed_def input_of_def)
  ultimately show ?thesis
    using won_deck_valid(1) won_input_valid by (simp add: canonical_bytes_Inr) (simp add: won_transcript_def sealed_def)
qed

definition won_material :: fairness_material where
  "won_material =
     \<lparr>fm_descriptor = dd_descriptor, fm_instance = ''H'', fm_seed = replicate 32 1,
      fm_server_commitment = ti_server_commitment won_input,
      fm_participants = map (\<lambda>c. \<lparr>pf_position = ce_seat c, pf_contribution = ce_digest c, pf_commitment = ce_commitment c\<rparr>)
        (ti_contributions won_input),
      fm_beacon = \<lparr>mb_provider = ''P'', mb_round = ''1'', mb_digest = replicate 32 1, mb_proof_ref = ''Q''\<rparr>,
      fm_key = \<lparr>mk_key = ''K'', mk_hash = replicate 32 1\<rparr>\<rparr>"

definition won_snapshot :: hand_snapshot where
  "won_snapshot =
     \<lparr>hn_mode = '''', hn_id = ''H'', hn_room = ''R'', hn_phase = HandDealing,
      hn_seats = [\<lparr>hs_seat = 1, hs_account = ''A''\<rparr>, \<lparr>hs_seat = 2, hs_account = ''B''\<rparr>, \<lparr>hs_seat = 3, hs_account = ''C''\<rparr>],
      hn_server_commitment = ti_server_commitment won_input, hn_reveal_key = ''K'', hn_reveal_hash = replicate 32 1,
      hn_reveal_bound_at = \<lparr>tm_nanos = 9, tm_location = ''UTC''\<rparr>, hn_plan = \<lparr>bp_provider = ''P'', bp_round = ''1''\<rparr>,
      hn_beacon = Some \<lparr>bv_provider = ''P'', bv_round = ''1'', bv_digest = replicate 32 1, bv_proof_ref = ''Q''\<rparr>,
      hn_contributions = [], hn_reason = '''', hn_version = 7\<rparr>"

definition won_artifact :: setup_artifact where
  "won_artifact = \<lparr>sa_descriptor = dd_descriptor, sa_version = dd_artifact_version, sa_payload = setup_bytes won_setup,
     sa_digest = replicate 32 1\<rparr>"

definition won_start :: live_hand where
  "won_start = initial_hand won_snapshot won_material won_artifact won_setup won_transcript (new_bid_state 2)"

lemma won_start_dealt: "dealt won_start"
proof -
  have "length (deal_hands won_deck) = 3" by (rule deal_hands_shape)
  then obtain a b c where h: "deal_hands won_deck = [a, b, c]" using length3_exhaust by blast
  have cards: "mset (concat (su_hands won_setup)) + mset (su_landlord won_setup) = mset canonical_deck"
    using deal_hands_mset [OF won_deck_valid(2)] deck_validate_mset [OF won_deck_valid(2)] won_deck_valid(1)
    by (simp add: won_setup_def h deck_size_def landlord_card_count_def add.assoc)
  have typed: "setup_typed won_setup"
    using deal_hands_shape [of won_deck] won_deck_valid(2) by (simp add: setup_typed_def won_setup_def list_all_iff)
  show ?thesis unfolding dealt_def won_start_def by (intro exI conjI, rule refl) (simp_all add: valid_seat_def cards typed)
qed

text \<open>Seat 2 bids three.\<close>

definition won_bid :: command where
  "won_bid = \<lparr>cm_actor = 2, cm_expected = 1, cm_payload = json_print (bid_json 3)\<rparr>"

definition won_auction :: bid_state where "won_auction = record_bid (new_bid_state 2) 2 3"

definition won_turns :: pl_state where "won_turns = zero_state\<lparr>pl_current := 2\<rparr>"

definition won_playing :: live_hand where
  "won_playing = (start_play (bid_taken won_start won_auction) (bid_snapshot_of (Some won_auction)) won_turns)\<lparr>lh_history := [won_bid]\<rparr>"

lemma won_submit: "submit (Some (new_bid_state 2)) 2 3 = Inr (won_auction, bid_snapshot_of (Some won_auction))"
  by (simp add: submit_Inr won_auction_def new_bid_state_def valid_seat_def score_valid_def)

lemma won_auction_sel: "bd_complete won_auction" "\<not> bd_no_landlord won_auction" "bd_landlord won_auction = 2"
  "bd_highest_score won_auction = 3"
  by (simp_all add: won_auction_def record_bid_def new_bid_state_def Let_def)

lemma won_new_turns: "new_state 2 = Inr won_turns"
  by (simp add: new_state_def valid_seat_def won_turns_def)

lemma won_start_sel: "lh_phase won_start = phase_bidding" "lh_version won_start = 1" "lh_terminal won_start = False"
  "lh_auction won_start = new_bid_state 2" "lh_history won_start = []" "lh_setup won_start = won_setup" "lh_id won_start = ''H''"
  "lh_current won_start = deal_hands won_deck" "lh_transcript won_start = won_transcript" "lh_origin won_start = won_snapshot"
  by (simp_all add: won_start_def initial_hand_def won_material_def won_setup_def)

lemma won_bid_step: "\<exists>outcome. live_game_apply won_start won_bid = (won_playing, Inr outcome)"
proof -
  have d: "decode_bid_command (cm_payload won_bid) = Inr \<lparr>bc_version = bid_command_version, bc_score = 3\<rparr>"
    unfolding won_bid_def command.simps by (rule decode_bid_json)
  have sub: "submit (Some (lh_auction won_start)) (cm_actor won_bid) (bc_score \<lparr>bc_version = bid_command_version, bc_score = 3\<rparr>) =
      Inr (won_auction, bid_snapshot_of (Some won_auction))"
    using won_submit by (simp add: won_start_sel won_bid_def)
  have h: "lh_history (start_play (bid_taken won_start won_auction) (bid_snapshot_of (Some won_auction)) won_turns) = []"
    by (simp add: start_play_def bid_taken_def Let_def won_start_sel)
  show ?thesis
    using apply_bid_taken [OF d sub]
    by (simp add: live_game_apply_def won_start_sel won_auction_sel won_new_turns Let_def won_playing_def h)
      (simp add: won_bid_def)
qed

lemma won_playing_reach: "lh_reach won_start won_playing"
  using lh_command [OF lh_start] won_bid_step by blast

lemma won_playing_sel: "lh_phase won_playing = phase_playing" "lh_version won_playing = 2" "lh_play won_playing = Some won_turns"
  "lh_current won_playing = (deal_hands won_deck)[1 := won_cards]" "lh_terminal won_playing = False" "lh_landlord won_playing = 2"
proof -
  have "deal_hands won_deck ! 1 @ drop 51 won_deck = won_cards" by code_simp
  then show "lh_current won_playing = (deal_hands won_deck)[1 := won_cards]"
    by (simp add: won_playing_def start_play_def bid_taken_def Let_def won_start_sel won_auction_sel position_index_def won_setup_def)
qed (simp_all add: won_playing_def start_play_def bid_taken_def Let_def won_start_sel won_auction_sel)

lemma won_in_play: "game_inv won_playing" "in_play won_playing won_turns"
proof -
  show "game_inv won_playing" using reach_inv [OF won_playing_reach won_start_dealt] ..
  then have "\<exists>turns. in_play won_playing turns" by (simp add: game_inv_def phase_inv_def won_playing_sel(1)) blast
  then show "in_play won_playing won_turns" by (auto simp: in_play_def won_playing_sel(3))
qed

text \<open>Seat 2 plays its twenty cards.\<close>

definition won_codes :: "string list" where
  "won_codes = (case card_codes won_cards of Inl e \<Rightarrow> [] | Inr codes \<Rightarrow> codes)"

definition won_move :: command where
  "won_move = \<lparr>cm_actor = 2, cm_expected = 2, cm_payload = json_print (play_json won_codes)\<rparr>"

lemma won_move_step: "\<exists>g outcome. live_game_apply won_playing won_move = (g, Inr outcome) \<and> oc_terminal outcome"
proof -
  have v: "\<forall>c \<in> set won_cards. card_valid c" by code_simp
  then have codes: "card_codes won_cards = Inr won_codes" using card_codes_total [OF v] by (auto simp: won_codes_def)
  obtain p where p: "analyze won_cards = Inr p"
  proof -
    have "playable won_cards" by code_simp
    moreover have "fits KindAirplaneWithSingles 4 5 (rank_table won_cards)" by code_simp
    ultimately show thesis using that analyze_fits [of won_cards] by blast
  qed
  let ?t = "record_play won_turns 2 won_cards p True"
  have legal: "play (Some won_turns) (pl_current won_turns) won_cards ([] = ([] :: card list)) = Inr (?t, pl_snapshot_of (Some ?t))"
    using p by (auto simp: play_Inr won_turns_def zero_state_def valid_seat_def)
  have l: "length (deal_hands won_deck) = 3" by (rule deal_hands_shape)
  have "position_index (pl_current won_turns) = 1" by (simp add: won_turns_def position_index_def)
  then have hand: "lh_current won_playing ! position_index (pl_current won_turns) = won_cards" using l by (simp add: won_playing_sel)
  have "remove_held_cards won_cards won_cards = Inr []" by code_simp
  then have held: "remove_held_cards (lh_current won_playing ! position_index (pl_current won_turns)) won_cards = Inr []"
    by (simp only: hand)
  have t: "transcript_ok won_playing"
    using won_transcript_ok transcript_ok_deal [OF reach_deal [OF won_playing_reach]] by (simp add: transcript_ok_def won_start_sel)
  have deck: "mset (concat (su_hands (lh_setup won_playing))) + mset (su_landlord (lh_setup won_playing)) = mset canonical_deck"
    using dealt_cards [OF won_start_dealt] reach_inv [OF won_playing_reach won_start_dealt] by simp
  have len: "1 \<le> length won_cards" "length won_cards \<le> 20" by code_simp+
  have cmd: "cm_actor won_move = pl_current won_turns" "cm_expected won_move = lh_version won_playing"
    "cm_payload won_move = json_print (play_json won_codes)"
    by (simp_all only: won_move_def command.simps) (simp_all add: won_turns_def won_playing_sel)
  from play_command_accepted [OF won_in_play won_playing_sel(1) t deck codes len cmd held legal]
  show ?thesis by simp
qed

end
