(* ===== verification/Evidence_Replay.thy ===== *)
theory Evidence_Replay
  imports Live_Game_Run
begin

text \<open>
  What the running game writes, the offline verifier accepts: the payload of a completed hand decodes to
  itself, and its auction, moves, hands and settlement replay; so does the payload of an aborted one.
\<close>

section \<open>What the game writes can be read back\<close>

lemma ascii_utf8: "(\<forall>b \<in> set bs. b < 0x80) \<Longrightarrow> valid_utf8 bs"
  by (induction bs) simp_all

lemma b64_utf8 [simp]: "utf8_text (b64_encode url bs)"
  using b64_encode_plain by (simp add: b64_encode_def ascii_utf8)

definition plain_hex :: "u8 \<Rightarrow> bool" where
  "plain_hex n \<longleftrightarrow> hex_digit n < 0x80 \<and> map lower_char (bytes_str [hex_digit n]) = bytes_str [hex_digit n]"

lemma plain_hex: "unat n < 16 \<Longrightarrow> plain_hex n"
  by (rule u8_below [of plain_hex 16]) (code_simp)

lemma hex_utf8 [simp]: "utf8_text (hex_encode bs)"
  using plain_hex by (auto simp: hex_encode_def plain_hex_def unat_low_nibble unat_high_nibble intro!: ascii_utf8)

lemma lower_hex [simp]: "map lower_char (hex_encode bs) = hex_encode bs"
proof (induction bs)
  case (Cons b bs)
  have "plain_hex (drop_bit 4 b)" "plain_hex (b AND 0xF)" using unat_lt_256 [of b] by (auto intro!: plain_hex simp: unat_low_nibble unat_high_nibble)
  with Cons show ?case by (simp add: hex_encode_def plain_hex_def bytes_str_def)
qed (simp add: hex_encode_def bytes_str_def)

lemma decode_digest_hex: "length d = 32 \<Longrightarrow> decode_digest (hex_encode d) = Inr d"
  by (simp add: decode_digest_def)

lemma decode_base64_enc: "bs \<noteq> [] \<Longrightarrow> decode_base64_text (b64_encode True bs) = Inr bs"
  by (simp add: decode_base64_text_def)

lemma analyzed_pattern_ok:
  assumes "analyze cards = Inr p"
  shows "pattern_ok p"
proof -
  have "pat_kind p \<in> set known_kinds"
    using analyze_sound_facts(2) [OF assms] by (cases "pat_kind p") (simp_all add: known_kinds_def)
  moreover have "pat_version p = rules_version"
    using analyze_sound_facts(4) [OF assms] by (auto simp: validate_pattern_def split: if_splits)
  moreover have "utf8_text rules_version" by code_simp
  ultimately show ?thesis by (simp add: pattern_ok_def)
qed

lemma entry_wire_ok: "entry_ok a \<Longrightarrow> action_wire_ok (action_wire_of a)"
  by (cases "act_type a") (auto simp: entry_ok_def action_wire_ok_def action_wire_of_def analyzed_pattern_ok)

lemma playing_wire_written: "pl_inv st \<Longrightarrow> playing_wire_ok (playing_wire_of (pl_snapshot_of (Some st)))"
proof -
  assume inv: "pl_inv st"
  have "utf8_text playing_state_version" by code_simp
  moreover have "pattern_ok q" if "pl_leading_pattern st = Some q" for q
    using inv that analyzed_pattern_ok by (auto simp: pl_inv_def turn_ok_def)
  ultimately show ?thesis
    using inv entry_wire_ok by (auto simp: playing_wire_ok_def playing_wire_of_def pl_snapshot_of_def pl_inv_def list_all_iff)
qed

lemma bidding_wire_written: "bidding_wire_ok (bidding_wire_of (bid_snapshot_of (Some st)))"
proof -
  have "utf8_text bidding_rules_version" by code_simp
  then show ?thesis by (simp add: bidding_wire_ok_def bidding_wire_of_def bid_snapshot_of_def)
qed

lemma settlement_wire_written: "calculate i = Inr r \<Longrightarrow> settlement_wire_ok r"
proof -
  assume c: "calculate i = Inr r"
  have "utf8_text settlement_rules_version" by code_simp
  then show ?thesis using c by (auto simp: calculate_Inr Let_def settlement_wire_ok_def seat_points_def)
qed

lemma hand_codes_written:
  assumes "hand_codes cards = Inr s"
  shows "s = made_slice (elements s)" "list_all utf8_text (elements s)" "compare_codes (elements s) cards"
proof -
  have "compare_codes ss cs" if "card_codes cs = Inr ss" for ss cs
    using that by (induction cs arbitrary: ss) (auto simp: rbind_eq_Inr card_code_parse [OF card_code_valid])
  then show "s = made_slice (elements s)" "list_all utf8_text (elements s)" "compare_codes (elements s) cards"
    using assms codes_utf8 by (auto simp: hand_codes_def rbind_eq_Inr)
qed

lemma all_codes_written:
  "all_hand_codes hs = Inr ss \<Longrightarrow>
    list_all (\<lambda>s. s = made_slice (elements s) \<and> list_all utf8_text (elements s)) ss \<and> compare_hand_codes ss hs \<and> length ss = length hs"
  by (induction hs arbitrary: ss) (auto simp: rbind_eq_Inr compare_hand_codes_def hand_codes_written)

lemma fairness_mode_utf8: "fairness_mode_ok mode \<Longrightarrow> utf8_text mode"
proof -
  have "utf8_text fairness_mode_client_custodied" "utf8_text ''''" by code_simp+
  then show "fairness_mode_ok mode \<Longrightarrow> utf8_text mode" by (auto simp: fairness_mode_ok_def)
qed

lemma payload_texts_utf8 [simp]:
  "utf8_text completed_payload_v1" "utf8_text terminal_payload_v1" "utf8_text ''completed''" "utf8_text ''aborted''"
  by code_simp+

lemma completed_payload_written:
  assumes p: "completed_payload_of g n (pl_snapshot_of (Some turns)) result hands = Inr p"
    and table: "pl_inv turns" "calculate i = Inr result" "length hands = 3"
    and origin: "fairness_mode_ok (hn_mode (lh_origin g))" "utf8_text (lh_id g)"
  shows "completed_ok p" "compare_hand_codes (cp_final_hands p) hands"
    "compare_codes (elements (cp_landlord_cards p)) (su_landlord (lh_setup g))"
proof -
  obtain c hs ll where c: "canonical_bytes (lh_transcript g) = Inr c" "all_hand_codes hands = Inr hs"
      "hand_codes (su_landlord (lh_setup g)) = Inr ll"
    and p': "p = \<lparr>cp_fairness_mode = hn_mode (lh_origin g), cp_version = completed_payload_v1, cp_hand_id = lh_id g,
            cp_status = status_text FinalCompleted, cp_state_version = n,
            cp_setup_artifact = b64_encode True (sa_payload (lh_artifact g)),
            cp_setup_digest = hex_encode (sa_digest (lh_artifact g)),
            cp_transcript = b64_encode True c, cp_transcript_digest = hex_encode (tr_digest (lh_transcript g)),
            cp_bidding = bidding_wire_of (bid_snapshot_of (Some (lh_auction g))),
            cp_playing = playing_wire_of (pl_snapshot_of (Some turns)), cp_settlement = result, cp_final_hands = hs,
            cp_landlord_cards = ll, cp_landlord_seat = lh_landlord g, cp_winning_score = lh_score g,
            cp_winner_seat = ps_winner (pl_snapshot_of (Some turns))\<rparr>"
    using p by (auto simp: completed_payload_of_def rbind_eq_Inr)
  note h = all_codes_written [OF c(2)] and l = hand_codes_written [OF c(3)]
  show "completed_ok p"
    using h l(1,2) table(3) origin fairness_mode_utf8 [OF origin(1)] bidding_wire_written [of "lh_auction g"]
      playing_wire_written [OF table(1)] settlement_wire_written [OF table(2)]
    by (simp add: p' completed_ok_def)
  show "compare_hand_codes (cp_final_hands p) hands" using h by (simp add: p')
  show "compare_codes (elements (cp_landlord_cards p)) (su_landlord (lh_setup g))" using l(3) by (simp add: p')
qed

lemma decode_completed:
  assumes "completed_ok p"
  shows "decode_final_evidence_json (json_print (json_completed p)) completed_fields zero_completed = Inr p"
proof -
  have "json_ok max_nesting (json_completed p)"
    using json_ok_mono [OF completed_payload_codec(2) [OF assms]] by (simp add: max_nesting_def)
  then have "json_parse (json_print (json_completed p)) = Some (json_completed p)" by (rule json_roundtrip)
  moreover have "json_print (json_completed p) \<noteq> []" by (simp add: json_completed_def)
  ultimately show ?thesis
    using completed_payload_codec(1) [OF assms] by (simp add: decode_final_evidence_json_def)
qed

section \<open>What the game did replays\<close>

lemma trim_written [simp]:
  "trim_bidding (bidding_wire_of v) = bidding_wire_of v" "trim_playing (playing_wire_of s) = playing_wire_of s"
proof -
  have t: "trim_slice (slice_of xs) = slice_of xs" "trim_slice (made_slice xs) = made_slice xs" for xs :: "'x list"
    by (simp_all add: trim_slice_def slice_of_def made_slice_def)
  show "trim_bidding (bidding_wire_of v) = bidding_wire_of v"
    by (simp add: trim_bidding_def bidding_wire_of_def trim_slice_def made_slice_def)
  have a: "trim_action (action_wire_of a) = action_wire_of a" for a
    by (simp add: trim_action_def action_wire_of_def trim_slice_def slice_of_def)
  show "trim_playing (playing_wire_of s) = playing_wire_of s"
    by (simp add: trim_playing_def playing_wire_of_def a trim_slice_def slice_of_def made_slice_def)
qed

lemma replay_bids_reach:
  "bd_reach first s \<Longrightarrow> replay_bids (new_bid_state first) act (bids s @ rest) =
     replay_bids s (if bids s = [] then act else bid_snapshot_of (Some s)) rest"
proof (induction arbitrary: rest rule: bd_reach.induct)
  case bd_new
  then show ?case by (simp add: bids_def new_bid_state_def)
next
  case (bd_submit s position scr s' v)
  have inv: "bd_inv first s" using bd_reach_inv [OF bd_submit.hyps(1)] by blast
  have s': "s' = record_bid s position scr" "v = bid_snapshot_of (Some s')" "\<not> bd_complete s"
    using bd_submit.hyps(2) by (auto simp: submit_Inr)
  have "length (bids s) \<noteq> 3" "bd_count s \<le> 3" using inv s'(3) by (auto simp: bd_inv_def auction_over_def)
  then have "bd_count s < 3" using length_bids [OF inv] by simp
  then have b: "bids s' = bids s @ [\<lparr>bid_position = position, bid_score = scr\<rparr>]"
    unfolding s'(1) using inv by (intro bids_record) (auto simp: bd_inv_def)
  show ?case
    using bd_submit.IH [of "\<lparr>bid_position = position, bid_score = scr\<rparr> # rest"] bd_submit.hyps(2)
    by (simp add: b s'(2))
qed

lemma replay_whole_auction:
  assumes "bd_reach first s" and "bd_complete s"
  shows "bids s \<noteq> [] \<and> length (bids s) \<le> 3 \<and>
    replay_bids (new_bid_state first) zero_bid_snapshot (bids s) = Inr (bid_snapshot_of (Some s))"
proof -
  have inv: "bd_inv first s" using bd_reach_inv [OF assms(1)] by blast
  then have "bids s \<noteq> []" "length (bids s) \<le> 3" using assms(2) length_bids [OF inv] by (auto simp: bd_inv_def auction_over_def)
  then show ?thesis using replay_bids_reach [OF assms(1), of zero_bid_snapshot "[]"] by simp
qed

lemma replay_whole_play:
  assumes rep: "replays su landlord turns hands" and some: "pl_history turns \<noteq> []"
  shows "replay_playing su landlord (playing_wire_of (pl_snapshot_of (Some turns))) = Inr (pl_snapshot_of (Some turns), hands)"
proof -
  obtain s0 where n: "new_state landlord = Inr s0"
    and r: "replay_history s0 (hands_with_landlord su landlord) (map action_wire_of (pl_history turns)) = Inr (turns, hands)"
    using rep by (auto simp: replays_def)
  have "valid_seat landlord" using n by (auto simp: new_state_def split: if_splits)
  then have "landlord \<noteq> 0" "\<not> 3 < landlord" by (auto simp: valid_seat_cases)
  moreover have "elements (pw_history (playing_wire_of (pl_snapshot_of (Some turns)))) = map action_wire_of (pl_history turns)"
    "pw_version (playing_wire_of (pl_snapshot_of (Some turns))) = playing_state_version"
    by (simp_all add: playing_wire_of_def pl_snapshot_of_def)
  ultimately show ?thesis
    using n r some by (simp add: replay_playing_def Let_def)
qed

section \<open>A completed hand\<close>

text \<open>The last move of a hand: the state before it, the table after it, the result and the payload.\<close>

definition last_move :: "live_hand \<Rightarrow> pl_state \<Rightarrow> card list list \<Rightarrow> settlement_result \<Rightarrow> completed_payload \<Rightarrow> bool" where
  "last_move g turns hands result p \<longleftrightarrow> game_inv g \<and> lh_phase g = phase_playing \<and> pl_complete turns \<and>
     replays (lh_setup g) (lh_landlord g) turns hands \<and> game_settlement g turns = Inr result \<and>
     completed_payload_of g (lh_version g + 1) (pl_snapshot_of (Some turns)) result hands = Inr p"

lemma terminal_step:
  assumes inv: "game_inv g" and step: "live_game_apply g cmd = (g', Inr outcome)" and won: "oc_terminal outcome"
  obtains turns result p where "last_move g turns (lh_current g') result p" "oc_final outcome = json_print (json_completed p)"
    "oc_version outcome = lh_version g + 1" "lh_settlement g' = Some result" "lh_play g' = Some turns" "lh_auction g' = lh_auction g"
  using step
proof (cases rule: live_apply_cases)
  case (bid g1 o1)
  with bid_inv [OF inv bid(3,5)] won show ?thesis by auto
next
  case (move g1 o1)
  from move(1) have o1: "o1 = outcome" by simp
  from move(5) [unfolded o1] show ?thesis
  proof (cases rule: playing_step_Inr)
    case (1 turns version turns' hands)
    have "\<exists>ts. in_play g ts" using inv move(3) by (auto simp: game_inv_def phase_inv_def)
    then have ip: "in_play g turns" using 1(1) by (auto simp: in_play_def)
    have c: "pl_complete turns'" using 1(4) won by simp
    with 1(5) obtain result where s: "settle_hand g (lh_version g + 1) (pl_snapshot_of (Some turns')) hands = Inr (result, oc_final outcome)"
      and g1: "g1 = complete_game (after_move g turns' hands (pl_snapshot_of (Some turns'))) (pl_snapshot_of (Some turns')) result"
      by auto
    then obtain p where p: "completed_payload_of g (lh_version g + 1) (pl_snapshot_of (Some turns')) result hands = Inr p"
      "oc_final outcome = json_print (json_completed p)"
      by (auto simp: settle_hand_def build_completed_payload_def rbind_eq_Inr)
    have g': "lh_current g' = hands" "lh_settlement g' = Some result" "lh_play g' = Some turns'" "lh_auction g' = lh_auction g"
      by (simp_all add: move(6) g1 complete_game_def after_move_def)
    have "last_move g turns' (lh_current g') result p"
      using inv move(3) c move_replays [OF ip 1(2)] settle_hand_Inr [OF s] p(1) by (simp add: last_move_def g'(1))
    then show ?thesis by (rule that) (use p(2) 1(3) g' in simp_all)
  qed
qed auto

lemma last_move_facts:
  assumes "last_move g turns hands result p"
  shows "in_play g (the (lh_play g))" "pl_reach (lh_landlord g) turns" "length hands = 3" "pl_history turns \<noteq> []"
    "bd_complete (lh_auction g)" "bd_reach (bd_first (lh_auction g)) (lh_auction g)"
proof -
  obtain ts where ts: "in_play g ts" using assms by (auto simp: last_move_def game_inv_def phase_inv_def)
  then show "in_play g (the (lh_play g))" "bd_complete (lh_auction g)" by (auto simp: in_play_def)
  have "setup_typed (lh_setup g)" "replays (lh_setup g) (lh_landlord g) turns hands"
    using assms by (auto simp: last_move_def game_inv_def)
  note f = replays_facts [OF this]
  show "pl_reach (lh_landlord g) turns" "length hands = 3" using f by (auto simp: table_open_def)
  have "pl_complete turns" using assms by (simp add: last_move_def)
  then show "pl_history turns \<noteq> []" using pl_reach_tail [OF f(1)] pl_reach_inv [OF f(1)]
    by (auto simp: tail_ok_def pl_inv_def turn_ok_def split: option.splits)
  show "bd_reach (bd_first (lh_auction g)) (lh_auction g)" using assms by (simp add: last_move_def game_inv_def)
qed

lemma completed_payload_sel:
  assumes "completed_payload_of g n (pl_snapshot_of (Some turns)) result hands = Inr p"
  shows "cp_version p = completed_payload_v1" "cp_status p = status_text FinalCompleted" "cp_hand_id p = lh_id g"
    "cp_state_version p = n" "cp_fairness_mode p = hn_mode (lh_origin g)" "cp_landlord_seat p = lh_landlord g"
    "cp_winning_score p = lh_score g" "cp_winner_seat p = pl_winner turns" "cp_settlement p = result"
    "cp_playing p = playing_wire_of (pl_snapshot_of (Some turns))"
    "cp_bidding p = bidding_wire_of (bid_snapshot_of (Some (lh_auction g)))"
    "cp_setup_artifact p = b64_encode True (sa_payload (lh_artifact g))" "cp_setup_digest p = hex_encode (sa_digest (lh_artifact g))"
    "\<exists>c. canonical_bytes (lh_transcript g) = Inr c \<and> cp_transcript p = b64_encode True c"
    "cp_transcript_digest p = hex_encode (tr_digest (lh_transcript g))"
  using assms by (auto simp: completed_payload_of_def rbind_eq_Inr)

lemma completed_play_verifies:
  assumes m: "last_move g turns hands result p" and origin: "fairness_mode_ok (hn_mode (lh_origin g))" "utf8_text (lh_id g)"
  shows "verify_completed_play r p (lh_setup g) (bid_snapshot_of (Some (lh_auction g))) =
    Inr (completed_report r p (res_points result) hands)"
proof -
  have c: "completed_payload_of g (lh_version g + 1) (pl_snapshot_of (Some turns)) result hands = Inr p"
    and st: "calculate \<lparr>in_landlord = lh_landlord g, in_score = lh_score g, in_playing = pl_snapshot_of (Some turns)\<rparr> = Inr result"
    and rep: "replays (lh_setup g) (lh_landlord g) turns hands" and won: "pl_complete turns"
    using m by (simp_all add: last_move_def game_settlement_def)
  note f = last_move_facts [OF m]
  note w = completed_payload_written [OF c pl_reach_inv [OF f(2)] st f(3) origin]
  note sel = completed_payload_sel [OF c]
  have a: "\<not> bd_no_landlord (lh_auction g)" "bd_landlord (lh_auction g) = lh_landlord g" "lh_landlord g \<noteq> 0"
    "bd_highest_score (lh_auction g) = lh_score g"
    using f(1) by (auto simp: in_play_def valid_seat_def)
  have rr: "res_landlord result = lh_landlord g" "res_winner result = pl_winner turns"
    using st by (auto simp: calculate_Inr Let_def)
  show ?thesis
    using replay_whole_play [OF rep f(4)] a won w(2,3) st rr
    by (simp add: verify_completed_play_def sel(6-11) evidence_step_def)
qed

section \<open>An aborted hand\<close>

lemma sub_hands_step:
  assumes "i < length hs" and "remove_held_cards (hs ! i) cards = Inr r" and "j < length hs"
  shows "mset (hs[i := r] ! j) \<subseteq># mset (hs ! j)"
proof (cases "i = j")
  case True
  have "mset r \<subseteq># mset r + mset cards" by simp
  then show ?thesis using True assms(3) by (simp only: remove_held_mset [OF assms(2)]) simp
qed simp

lemma replay_sub_hands:
  assumes "length hands = 3" and "replay_history s hands as = Inr (s', hands')"
  shows "length hands' = 3 \<and> (\<forall>j < 3. mset (hands' ! j) \<subseteq># mset (hands ! j))"
  using assms(2)
proof (induction as arbitrary: s' hands' rule: rev_induct)
  case (snoc a as)
  obtain s1 h1 where r: "replay_history s hands as = Inr (s1, h1)"
    and a: "replay_action s1 h1 (aw_seat a) (aw_type a) (elements (aw_cards a)) = Inr (s', hands')"
    using snoc.prems(1) by (auto simp: replay_history_append rbind_eq_Inr)
  note IH = snoc.IH [OF r]
  show ?case
  proof (cases "aw_type a")
    case ActionPlay
    with a obtain r where r: "valid_seat (aw_seat a)" "hands' = h1[position_index (aw_seat a) := r]"
      "remove_held_cards (h1 ! position_index (aw_seat a)) (elements (aw_cards a)) = Inr r"
      by (auto simp: replay_play)
    have "mset (hands' ! j) \<subseteq># mset (hands ! j)" if "j < 3" for j
    proof (rule subset_mset.order_trans)
      show "mset (hands' ! j) \<subseteq># mset (h1 ! j)"
        unfolding r(2) using IH that position_index_bound [OF r(1)] by (intro sub_hands_step [OF _ r(3)]) simp_all
      show "mset (h1 ! j) \<subseteq># mset (hands ! j)" using IH that by blast
    qed
    with IH r(2) show ?thesis by simp
  next
    case ActionPass
    with a have "hands' = h1" by (auto simp: replay_pass)
    with IH show ?thesis by simp
  next
    case (ActionOther t)
    with a show ?thesis by (auto simp: replay_action_def split: if_splits)
  qed
qed (simp add: assms(1))

text \<open>Whose cards a seat may hold: its own, and the landlord cards once it is the landlord.\<close>

definition seat_cards :: "live_hand \<Rightarrow> nat \<Rightarrow> card list" where
  "seat_cards g j = su_hands (lh_setup g) ! j @
     (if lh_landlord g \<noteq> 0 \<and> j = position_index (lh_landlord g) then su_landlord (lh_setup g) else [])"

lemma held_cards:
  assumes "game_inv g" and "j < 3"
  shows "mset (lh_current g ! j) \<subseteq># mset (seat_cards g j)"
  using assms(1)
proof (cases rule: phase_table)
  case untouched
  then show ?thesis by (simp add: untouched_def seat_cards_def)
next
  case (in_play turns)
  have typed: "setup_typed (lh_setup g)" using assms(1) by (simp add: game_inv_def)
  have v: "valid_seat (lh_landlord g)" using in_play(1) by (auto simp: in_play_def)
  obtain s0 where "replay_history s0 (hands_with_landlord (lh_setup g) (lh_landlord g))
      (map action_wire_of (pl_history turns)) = Inr (turns, lh_current g)"
    using in_play(1) by (auto simp: in_play_def replays_def)
  from replay_sub_hands [OF dealt_hands(1) [OF typed v] this]
  have "mset (lh_current g ! j) \<subseteq># mset (hands_with_landlord (lh_setup g) (lh_landlord g) ! j)" using assms(2) by blast
  moreover have "lh_landlord g \<noteq> 0" using v by (auto simp: valid_seat_def)
  moreover have "position_index (lh_landlord g) < length (su_hands (lh_setup g))" "j < length (su_hands (lh_setup g))"
    using typed position_index_bound [OF v] assms(2) by (auto simp: setup_typed_def)
  ultimately show ?thesis by (auto simp: hands_with_landlord_def seat_cards_def nth_list_update)
qed

definition seen_cards :: "bool list \<Rightarrow> card set \<Rightarrow> bool" where
  "seen_cards seen S \<longleftrightarrow> length seen = deck_size \<and> (\<forall>c. card_valid c \<longrightarrow> seen ! unat c = (c \<in> S))"

lemma seen_insert: "seen_cards seen S \<Longrightarrow> card_valid c \<Longrightarrow> seen_cards (seen[unat c := True]) (insert c S)"
  by (auto simp: seen_cards_def marks_step)

lemma abort_seat_accepts:
  assumes "compare_codes codes cards" and "distinct cards" and "set cards \<inter> S = {}" and "seen_cards seen S"
    and "\<forall>c \<in> set cards. c \<notin> set (su_hands su ! seat) \<longrightarrow> c \<in> set (su_landlord su) \<and> (owner = None \<or> owner = Some seat)"
  shows "\<exists>seen' owner'. verify_aborted_seat su seat codes seen owner held = Inr (seen', owner', held @ cards) \<and>
    seen_cards seen' (S \<union> set cards) \<and>
    (owner' = owner \<or> owner' = Some seat \<and> (\<exists>c \<in> set cards. c \<notin> set (su_hands su ! seat)))"
  using assms
proof (induction codes cards arbitrary: seen S owner held rule: compare_codes.induct)
  case (2 s ss c cs)
  have p: "parse_card s = Inr c" "compare_codes ss cs" using 2(2) by simp_all
  have v: "card_valid c" by (rule parse_card_valid [OF p(1)])
  have fresh: "\<not> seen ! unat c" using 2(4,5) v by (auto simp: seen_cards_def)
  let ?o = "if c \<in> set (su_hands su ! seat) then owner else Some seat"
  have "\<exists>seen' owner'. verify_aborted_seat su seat ss (seen[unat c := True]) ?o (held @ [c]) = Inr (seen', owner', (held @ [c]) @ cs) \<and>
    seen_cards seen' (insert c S \<union> set cs) \<and>
    (owner' = ?o \<or> owner' = Some seat \<and> (\<exists>c \<in> set cs. c \<notin> set (su_hands su ! seat)))"
    using 2(3-6) p(2) by (intro 2(1) seen_insert v) auto
  moreover have "verify_aborted_seat su seat (s # ss) seen owner held =
      verify_aborted_seat su seat ss (seen[unat c := True]) ?o (held @ [c])"
    using p(1) fresh 2(6) by (auto simp: contains_physical_card_def)
  ultimately show ?case by (auto split: if_splits)
qed auto

lemma abort_seats_accept:
  assumes "list_all2 (\<lambda>s h. compare_codes (elements s) h \<and> length h \<le> 20) encoded hands" and "distinct (concat hands)"
    and "set (concat hands) \<inter> S = {}" and "seen_cards seen S"
    and "\<forall>j < length hands. set (hands ! j) \<subseteq> set (su_hands su ! (seat + j)) \<or>
      lord = Some (seat + j) \<and> set (hands ! j) \<subseteq> set (su_hands su ! (seat + j)) \<union> set (su_landlord su)"
    and "owner = None \<or> owner = lord \<and> (\<exists>l. lord = Some l \<and> l < seat)"
  shows "verify_aborted_seats su seat encoded seen owner = Inr hands"
  using assms
proof (induction encoded arbitrary: hands seat S seen owner)
  case (Cons e encoded)
  obtain h hs where h: "hands = h # hs" "compare_codes (elements e) h" "length h \<le> 20"
    "list_all2 (\<lambda>s h. compare_codes (elements s) h \<and> length h \<le> 20) encoded hs"
    using Cons.prems(1) by (auto simp: list_all2_Cons1)
  have "\<forall>s cs. compare_codes s cs \<longrightarrow> length s = length cs" 
  proof (intro allI impI)
    fix s cs show "compare_codes s cs \<Longrightarrow> length s = length cs" by (induction s cs rule: compare_codes.induct) simp_all
  qed
  then have len: "length (elements e) \<le> cards_per_seat + landlord_card_count"
    using h(2,3) by (simp add: cards_per_seat_def landlord_card_count_def)
  have z: "set h \<subseteq> set (su_hands su ! seat) \<or> lord = Some seat \<and> set h \<subseteq> set (su_hands su ! seat) \<union> set (su_landlord su)"
    using Cons.prems(5) [rule_format, of 0] by (simp add: h(1))
  have own: "\<forall>c \<in> set h. c \<notin> set (su_hands su ! seat) \<longrightarrow> c \<in> set (su_landlord su) \<and> (owner = None \<or> owner = Some seat)"
    using z Cons.prems(6) by auto
  obtain seen' owner' where s: "verify_aborted_seat su seat (elements e) seen owner [] = Inr (seen', owner', [] @ h)"
    "seen_cards seen' (S \<union> set h)" "owner' = owner \<or> owner' = Some seat \<and> (\<exists>c \<in> set h. c \<notin> set (su_hands su ! seat))"
    using abort_seat_accepts [OF h(2) _ _ Cons.prems(4) own, of "[]"] Cons.prems(2,3) by (auto simp: h(1))
  have owner': "owner' = None \<or> owner' = lord \<and> (\<exists>l. lord = Some l \<and> l < Suc seat)"
    using s(3) z Cons.prems(6) by fastforce
  have "verify_aborted_seats su (Suc seat) encoded seen' owner' = Inr hs"
  proof (rule Cons.IH [OF h(4) _ _ s(2) _ owner'])
    show "distinct (concat hs)" "set (concat hs) \<inter> (S \<union> set h) = {}" using Cons.prems(2,3) by (auto simp: h(1))
    show "\<forall>j < length hs. set (hs ! j) \<subseteq> set (su_hands su ! (Suc seat + j)) \<or>
      lord = Some (Suc seat + j) \<and> set (hs ! j) \<subseteq> set (su_hands su ! (Suc seat + j)) \<union> set (su_landlord su)"
    proof (intro allI impI)
      fix j assume "j < length hs"
      then show "set (hs ! j) \<subseteq> set (su_hands su ! (Suc seat + j)) \<or>
        lord = Some (Suc seat + j) \<and> set (hs ! j) \<subseteq> set (su_hands su ! (Suc seat + j)) \<union> set (su_landlord su)"
        using Cons.prems(5) [rule_format, of "Suc j"] by (simp add: h(1))
    qed
  qed
  with s(1) len show ?case by (simp add: h(1))
qed simp

end
