(* ===== verification/Evidence_Records.thy ===== *)
theory Evidence_Records
  imports Evidence_Replay
begin

text \<open>
  From a made game to a verified archive record: a game that \<open>New\<close> made is dealt, its artifact and its
  transcript are the evidence the verifier restores, and every record of its end is accepted.
\<close>

section \<open>Games that New makes\<close>

lemma new_bidding_Inr:
  assumes "new_bidding digest = Some (Inr s)"
  shows "\<exists>first. valid_seat first \<and> s = new_bid_state first"
proof -
  obtain first where f: "derive_first_bidder digest = Some (Inr first)" "s = new_bid_state first"
    using assms by (auto simp: new_bidding_def rbind_eq_Inr)
  have "(ucast (w mod 3 + 1 :: u64) :: u8) = 1 \<or> (ucast (w mod 3 + 1) :: u8) = 2 \<or> (ucast (w mod 3 + 1) :: u8) = 3" for w :: u64
  proof -
    define v where "v = w mod 3"
    have "v < 3" unfolding v_def by (rule word_mod_less_divisor) simp
    then have "unat v < 3" by (simp add: word_less_nat_alt)
    then have "unat v = 0 \<or> unat v = 1 \<or> unat v = 2" by linarith
    then have "v = 0 \<or> v = 1 \<or> v = 2" by (simp add: word_unat_eq_iff)
    then show ?thesis unfolding v_def [symmetric] by auto
  qed
  then have "valid_seat first" using f(1) by (auto simp: first_bidder_eq Let_def valid_seat_cases split: if_splits)
  with f(2) show ?thesis by blast
qed

lemma new_live_hand_Inr:
  assumes "new_live_hand s m a = Some (Inr g)"
  obtains su t auction where "check_live_identity s m = Inr ()" "verify_setup m a = Some (Inr ())" "decode_artifact a = Inr su"
    "build_material_transcript m = Some (Inr t)" "transcript_matches t su"
    "new_bidding (su_deal_digest su) = Some (Inr auction)" "g = initial_hand s m a su t auction"
  using assms
  by (auto simp: new_live_hand_def rbind_eq_Inr split: sum.splits option.splits if_splits)

lemma decoded_setup_dealt:
  assumes "decode_artifact a = Inr su"
  shows "setup_typed su" "mset (concat (su_hands su)) + mset (su_landlord su) = mset canonical_deck"
proof -
  have "decode_setup (sa_payload a) = Inr su" using assms by (auto simp: decode_artifact_def rbind_eq_Inr)
  then have t: "setup_typed su" and e: "encode_setup su = Inr (sa_payload a)" by (auto simp: decode_setup_iff)
  then have len: "length (su_deck su) = 54" and v: "deck_validate (su_deck su) = Inr ()"
    and d: "su_hands su = deal_hands (su_deck su)" "su_landlord su = drop (deck_size - landlord_card_count) (su_deck su)"
    by (auto simp: setup_typed_def encode_setup_Inr deal_Inr_iff)
  obtain x y z where h: "deal_hands (su_deck su) = [x, y, z]" using deal_hands_shape(1) length3_exhaust by blast
  show "mset (concat (su_hands su)) + mset (su_landlord su) = mset canonical_deck"
    using deal_hands_mset [OF len] deck_validate_mset [OF len] v unfolding d h by (simp add: add.assoc)
  show "setup_typed su" by (rule t)
qed

lemma made_dealt:
  assumes "new_live_hand s m a = Some (Inr g)"
  shows "dealt g"
  using assms
proof (rule new_live_hand_Inr)
  fix su t auction
  assume d: "decode_artifact a = Inr su" and b: "new_bidding (su_deal_digest su) = Some (Inr auction)"
    and g: "g = initial_hand s m a su t auction"
  obtain first where "valid_seat first" "auction = new_bid_state first" using new_bidding_Inr [OF b] by blast
  with g decoded_setup_dealt [OF d] show "dealt g" unfolding dealt_def by blast
qed

lemma checked_identity:
  assumes "check_live_identity s m = Inr ()"
  shows "fairness_mode_ok (hn_mode s)" "utf8_text (fm_instance m)" "material_validate m = Inr ()"
  using assms
  by (auto simp: check_live_identity_def rbind_eq_Inr restore_hand_def Let_def fairness_mode_ok_def material_validate_def
      validate_instance_id_def gc_validate_identifier_def split: if_splits)

lemma material_input_typed:
  assumes "material_typed m" and "length (fm_participants m) = 3"
  shows "input_typed (material_transcript_input m)"
  using assms by (auto simp: material_typed_def input_typed_def material_transcript_input_def list_all_iff evidence_ok_def)

section \<open>The evidence of a made game\<close>

lemma built_material:
  assumes "build_material_transcript m = Some (Inr t)"
  shows "build_transcript (material_transcript_input m) = Some (Inr t)"
  using assms by (auto simp: build_material_transcript_def rbind_eq_Inr split: option.splits sum.splits)

lemma made_evidence:
  assumes new: "new_live_hand s m a = Some (Inr g)" and typed: "material_typed m"
  shows "\<exists>c. canonical_bytes (lh_transcript g) = Inr c \<and>
    verify_common_evidence (lh_id g) (b64_encode True (sa_payload (lh_artifact g))) (hex_encode (sa_digest (lh_artifact g)))
      (b64_encode True c) (hex_encode (tr_digest (lh_transcript g))) = Some (Inr (lh_setup g))"
    and "new_bidding (su_deal_digest (lh_setup g)) = Some (Inr (new_bid_state (bd_first (lh_auction g))))"
    and "fairness_mode_ok (hn_mode (lh_origin g))" "utf8_text (lh_id g)" "transcript_ok g"
proof -
  obtain su t auction where ci: "check_live_identity s m = Inr ()" and v: "verify_setup m a = Some (Inr ())"
    and d: "decode_artifact a = Inr su" and bt: "build_material_transcript m = Some (Inr t)" and tm: "transcript_matches t su"
    and nb: "new_bidding (su_deal_digest su) = Some (Inr auction)" and g: "g = initial_hand s m a su t auction"
    using new by (rule new_live_hand_Inr)
  note id = checked_identity [OF ci]
  have sel: "lh_transcript g = t" "lh_id g = fm_instance m" "lh_artifact g = a" "lh_setup g = su" "lh_auction g = auction" "lh_origin g = s"
    by (simp_all add: g initial_hand_def)
  show "fairness_mode_ok (hn_mode (lh_origin g))" "utf8_text (lh_id g)" using id by (simp_all add: sel)
  obtain first where "auction = new_bid_state first" using new_bidding_Inr [OF nb] by blast
  then show "new_bidding (su_deal_digest (lh_setup g)) = Some (Inr (new_bid_state (bd_first (lh_auction g))))"
    using nb by (simp add: sel)
  have va: "artifact_validate a = Inr ()" and ge: "generate_setup m = Some (Inr a)" using v by (simp_all add: verify_setup_accepts)
  then have nz: "\<not> gc_all_zero (sa_digest a)" by (simp add: artifact_validate_Inr)
  note gd = generated_decodes [OF ge nz]
  have ra: "restore_setup_artifact dd_descriptor dd_artifact_version (sa_payload a) (sa_digest a) = Inr a"
    using va gd(2,3) by (simp add: artifact_validate_restore)
  have pl: "sa_payload a \<noteq> []" and "sa_digest a = sha256 (artifact_bytes a)"
    using va by (auto simp: artifact_validate_def artifact_checks_def gc_validate_payload_def rbind_eq_Inr artifact_compute_digest_def
      split: if_splits)
  then have dl: "length (sa_digest a) = 32" by simp
  have "fm_descriptor m = dd_descriptor" using ci by (auto simp: check_live_identity_def rbind_eq_Inr)
  then have "length (fm_participants m) = 3"
    using material_valid_facts(3) [OF id(3)] by (simp add: dd_descriptor_def dd_participant_count_def)
  then have it: "input_typed (material_transcript_input m)" by (rule material_input_typed [OF typed])
  note b = built_typed [OF it built_material [OF bt]]
  show "transcript_ok g" using b(4) by (simp add: transcript_ok_def sel)
  have parse: "parse_transcript (transcript_bytes t) = Some (Inr t)"
    using parse_transcript_spec [of "transcript_bytes t" t] b it built_material [OF bt] by simp
  have cn: "transcript_bytes t \<noteq> []" by (simp add: transcript_bytes_def write_domain_def)
  have hand: "tr_hand t = fm_instance m"
    using arg_cong [OF b(3), of ti_hand] by (simp add: input_of_def material_transcript_input_def)
  have td: "length (tr_digest t) = 32" using b(2) by (simp add: digest_transcript_def)
  have "verify_common_evidence (lh_id g) (b64_encode True (sa_payload (lh_artifact g))) (hex_encode (sa_digest (lh_artifact g)))
      (b64_encode True (transcript_bytes t)) (hex_encode (tr_digest (lh_transcript g))) = Some (Inr (lh_setup g))"
    using ra d parse hand tm
    by (simp add: verify_common_evidence_def restore_evidence_setup_def check_evidence_transcript_def sel evidence_step_def
        decode_base64_enc [OF pl] decode_base64_enc [OF cn] decode_digest_hex [OF dl] decode_digest_hex [OF td])
  with b(4) show "\<exists>c. canonical_bytes (lh_transcript g) = Inr c \<and>
    verify_common_evidence (lh_id g) (b64_encode True (sa_payload (lh_artifact g))) (hex_encode (sa_digest (lh_artifact g)))
      (b64_encode True c) (hex_encode (tr_digest (lh_transcript g))) = Some (Inr (lh_setup g))" by (auto simp: sel)
qed

section \<open>Records\<close>

lemma record_valid:
  assumes "new_final_record iid d status v payload = Inr r" and "\<not> gc_all_zero (fr_digest r)"
  shows "final_record_validate r = Inr ()" "fr_instance r = iid" "fr_descriptor r = d" "fr_status r = status"
    "fr_version r = v" "fr_payload r = payload"
proof -
  show f: "fr_instance r = iid" "fr_descriptor r = d" "fr_status r = status" "fr_version r = v" "fr_payload r = payload"
    using assms(1) by (auto simp: new_final_record_def rbind_eq_Inr Let_def)
  then show "final_record_validate r = Inr ()" using assms by (simp add: final_record_validate_def)
qed

lemma completed_record_verifies:
  assumes new: "new_live_hand s m a = Some (Inr g0)" and typed: "material_typed m" and reach: "lh_reach g0 g"
    and step: "live_game_apply g cmd = (g', Inr outcome)" "oc_terminal outcome"
    and rec: "new_final_record (lh_id g) dd_descriptor FinalCompleted (oc_version outcome) (oc_final outcome) = Inr r"
    and nz: "\<not> gc_all_zero (fr_digest r)"
  shows "\<exists>p result. oc_final outcome = json_print (json_completed p) \<and> lh_settlement g' = Some result \<and>
    verify_final_record r = Some (Inr (completed_report r p (res_points result) (lh_current g')))"
proof -
  have inv: "game_inv g" using reach_inv [OF reach made_dealt [OF new]] ..
  have same: "lh_id g = lh_id g0" "lh_artifact g = lh_artifact g0" "lh_setup g = lh_setup g0"
    "lh_transcript g = lh_transcript g0" "lh_origin g = lh_origin g0" "bd_first (lh_auction g) = bd_first (lh_auction g0)"
    using reach_deal [OF reach] by (simp_all add: same_deal_def)
  note e = made_evidence [OF new typed, folded same]
  obtain turns result p where m: "last_move g turns (lh_current g') result p" and f: "oc_final outcome = json_print (json_completed p)"
    and v: "oc_version outcome = lh_version g + 1" and st: "lh_settlement g' = Some result"
    using inv step by (rule terminal_step)
  have c: "completed_payload_of g (lh_version g + 1) (pl_snapshot_of (Some turns)) result (lh_current g') = Inr p"
    and cal: "calculate \<lparr>in_landlord = lh_landlord g, in_score = lh_score g, in_playing = pl_snapshot_of (Some turns)\<rparr> = Inr result"
    using m by (simp_all add: last_move_def game_settlement_def)
  note lf = last_move_facts [OF m] and sel = completed_payload_sel [OF c]
  note w = completed_payload_written [OF c pl_reach_inv [OF lf(2)] cal lf(3) e(3,4)]
  note rv = record_valid [OF rec nz]
  have dec: "decode_final_evidence_json (fr_payload r) completed_fields zero_completed = Inr p"
    using decode_completed [OF w(1)] rv(6) f by simp
  have ident: "check_completed_identity r p = Inr ()" using e(3) sel(1-5) rv v by (simp add: check_completed_identity_def)
  have common: "verify_common_evidence (cp_hand_id p) (cp_setup_artifact p) (cp_setup_digest p) (cp_transcript p)
      (cp_transcript_digest p) = Some (Inr (lh_setup g))"
    using e(1) sel by auto
  note auction = replay_whole_auction [OF lf(6,5)]
  have bw: "elements (bw_actions (cp_bidding p)) = bids (lh_auction g)" "bw_version (cp_bidding p) = bidding_rules_version"
    by (simp_all add: sel(11) bidding_wire_of_def bid_snapshot_of_def bids_def)
  have "replay_bidding (su_deal_digest (lh_setup g)) (cp_bidding p) = Some (Inr (bid_snapshot_of (Some (lh_auction g))))"
    using auction lf(5) bw by (simp add: replay_bidding_def Let_def e(2) sel(11) evidence_step_def Suc_le_eq)
  then have "verify_completed_record r = Some (Inr (completed_report r p (res_points result) (lh_current g')))"
    using dec ident common completed_play_verifies [OF m e(3,4)] by (simp add: verify_completed_record_def)
  then have "verify_final_record r = Some (Inr (completed_report r p (res_points result) (lh_current g')))"
    using rv by (simp add: verify_final_record_def)
  with f st show ?thesis by blast
qed

text \<open>The same for the payload of an aborted hand.\<close>

lemma aborted_hands_accepted:
  assumes inv: "game_inv g" and deck: "mset (concat (su_hands (lh_setup g))) + mset (su_landlord (lh_setup g)) = mset canonical_deck"
    and codes: "all_hand_codes (lh_current g) = Inr ss"
  shows "verify_aborted_hands ss (lh_setup g) = Inr (lh_current g)"
proof -
  have typed: "setup_typed (lh_setup g)" using inv by (simp add: game_inv_def)
  have len: "length (lh_current g) = 3" using empty_hands [OF inv] by simp
  have held: "mset (lh_current g ! j) \<subseteq># mset (seat_cards g j)" if "j < 3" for j by (rule held_cards [OF inv that])
  have "length (seat_cards g j) \<le> 20" if "j < 3" for j
    using typed that by (auto simp: seat_cards_def setup_typed_def list_all_length)
  then have short: "length (lh_current g ! j) \<le> 20" if "j < 3" for j
    using size_mset_mono [OF held [OF that]] that by (metis le_trans size_mset)
  have sub: "set (lh_current g ! j) \<subseteq> set (su_hands (lh_setup g) ! j) \<or> (lh_landlord g \<noteq> 0 \<and> j = position_index (lh_landlord g)) \<and>
      set (lh_current g ! j) \<subseteq> set (su_hands (lh_setup g) ! j) \<union> set (su_landlord (lh_setup g))" if "j < 3" for j
    using set_mset_mono [OF held [OF that]] by (auto simp: seat_cards_def split: if_splits)
  obtain ys where "mset ys = cards_played g + cards_face_down g" using ex_mset by blast
  then have "mset (concat (lh_current g) @ ys) = mset canonical_deck"
    using all_cards [OF inv] unfolding deck cards_in_hand_def by (simp add: add.assoc)
  then have dist: "distinct (concat (lh_current g))"
    using distinct_canonical_deck by (metis distinct_append mset_eq_imp_distinct_iff)
  have enc: "list_all2 (\<lambda>s h. compare_codes (elements s) h \<and> length h \<le> 20) ss (lh_current g)"
    using all_codes_written [OF codes] short len by (simp add: compare_hand_codes_def list_all2_conv_all_nth)
  have "verify_aborted_seats (lh_setup g) 0 ss (replicate deck_size False) None = Inr (lh_current g)"
  proof (rule abort_seats_accept [OF enc dist, where S = "{}" and lord = "if lh_landlord g = 0 then None else Some (position_index (lh_landlord g))"])
    show "seen_cards (replicate deck_size False) {}" by (simp add: seen_cards_def card_valid_def deck_size_def)
    show "\<forall>j < length (lh_current g). set (lh_current g ! j) \<subseteq> set (su_hands (lh_setup g) ! (0 + j)) \<or>
      (if lh_landlord g = 0 then None else Some (position_index (lh_landlord g))) = Some (0 + j) \<and>
      set (lh_current g ! j) \<subseteq> set (su_hands (lh_setup g) ! (0 + j)) \<union> set (su_landlord (lh_setup g))"
      using sub len by auto
  qed simp_all
  then show ?thesis by (simp add: verify_aborted_hands_def)
qed

lemma decode_terminal:
  assumes "terminal_ok p"
  shows "decode_final_evidence_json (json_print (json_terminal p)) terminal_fields zero_terminal = Inr p"
proof -
  have "json_ok max_nesting (json_terminal p)"
    using json_ok_mono [OF terminal_payload_codec(2) [OF assms]] by (simp add: max_nesting_def)
  then have "json_parse (json_print (json_terminal p)) = Some (json_terminal p)" by (rule json_roundtrip)
  moreover have "json_print (json_terminal p) \<noteq> []" by (simp add: json_terminal_def)
  ultimately show ?thesis
    using terminal_payload_codec(1) [OF assms] by (simp add: decode_final_evidence_json_def)
qed

lemma aborted_record_verifies:
  assumes new: "new_live_hand s m a = Some (Inr g0)" and typed: "material_typed m" and reach: "lh_reach g0 g"
    and reason: "gc_validate_identifier reason = Inr ()" and step: "live_game_abort g reason = (g', Inr outcome)"
    and rec: "new_final_record (lh_id g) dd_descriptor FinalAborted (ao_version outcome) (ao_final outcome) = Inr r"
    and nz: "\<not> gc_all_zero (fr_digest r)"
  shows "\<exists>p. ao_final outcome = json_print (json_terminal p) \<and> tp_reason p = reason \<and>
    verify_final_record r = Some (Inr (aborted_report r p (lh_current g)))"
proof -
  have inv: "game_inv g" using reach_inv [OF reach made_dealt [OF new]] ..
  have same: "lh_id g = lh_id g0" "lh_artifact g = lh_artifact g0" "lh_setup g = lh_setup g0"
    "lh_transcript g = lh_transcript g0" "lh_origin g = lh_origin g0" "bd_first (lh_auction g) = bd_first (lh_auction g0)"
    using reach_deal [OF reach] by (simp_all add: same_deal_def)
  note e = made_evidence [OF new typed, folded same]
  have deck: "mset (concat (su_hands (lh_setup g))) + mset (su_landlord (lh_setup g)) = mset canonical_deck"
    using dealt_cards [OF made_dealt [OF new]] by (simp only: same)
  have trim: "trim_space reason = reason" "reason \<noteq> []" "utf8_text reason" "length reason \<le> 128"
    using reason by (auto simp: gc_validate_identifier_def max_identifier_bytes_def split: if_splits)
  then obtain p where p: "terminal_payload_of g reason (lh_version g + 1) = Inr p" "ao_final outcome = json_print (json_terminal p)"
    "ao_version outcome = lh_version g + 1"
    using step by (auto simp: live_game_abort_def Let_def split: if_splits sum.splits)
  obtain c hs ll where c: "canonical_bytes (lh_transcript g) = Inr c" "all_hand_codes (lh_current g) = Inr hs"
      "hand_codes (su_landlord (lh_setup g)) = Inr ll"
    and p': "p = \<lparr>tp_fairness_mode = hn_mode (lh_origin g), tp_version = terminal_payload_v1, tp_hand_id = lh_id g,
            tp_status = status_text FinalAborted, tp_reason = reason, tp_state_version = lh_version g + 1,
            tp_setup_artifact = b64_encode True (sa_payload (lh_artifact g)),
            tp_setup_digest = hex_encode (sa_digest (lh_artifact g)),
            tp_transcript = b64_encode True c, tp_transcript_digest = hex_encode (tr_digest (lh_transcript g)),
            tp_current_hands = hs, tp_landlord_cards = ll\<rparr>"
    using p(1) by (auto simp: terminal_payload_of_def rbind_eq_Inr)
  have h: "list_all (\<lambda>s. s = made_slice (elements s) \<and> list_all utf8_text (elements s)) hs" "length hs = 3"
    using all_codes_written [OF c(2)] empty_hands [OF inv] by simp_all
  note l = hand_codes_written [OF c(3)]
  have ok: "terminal_ok p" using h l(1,2) e(4) fairness_mode_utf8 [OF e(3)] trim(3) by (simp add: p' terminal_ok_def)
  note rv = record_valid [OF rec nz]
  have dec: "decode_final_evidence_json (fr_payload r) terminal_fields zero_terminal = Inr p"
    using decode_terminal [OF ok] rv(6) p(2) by simp
  have ident: "check_aborted_identity r p = Inr ()" using e(3) rv p(3) trim by (simp add: check_aborted_identity_def p')
  have common: "verify_common_evidence (tp_hand_id p) (tp_setup_artifact p) (tp_setup_digest p) (tp_transcript p)
      (tp_transcript_digest p) = Some (Inr (lh_setup g))"
    using e(1) c(1) by (auto simp: p')
  have hands: "verify_aborted_hands (tp_current_hands p) (lh_setup g) = Inr (lh_current g)"
    using aborted_hands_accepted [OF inv deck c(2)] by (simp add: p')
  have "verify_aborted_record r = Some (Inr (aborted_report r p (lh_current g)))"
    using dec ident common hands l(3) by (simp add: verify_aborted_record_def p')
  then have "verify_final_record r = Some (Inr (aborted_report r p (lh_current g)))"
    using rv by (simp add: verify_final_record_def)
  with p(2) show ?thesis by (auto simp: p')
qed

section \<open>Properties\<close>

text \<open>C5: the payload that a winning move writes is readable and correct evidence: it decodes to a payload whose
  settlement is the game's, whose auction replays to the game's auction from the same first bidder, and
  whose plays the verifier replays from the deal to exactly the hands the game is left with, with the
  same landlord cards, winner and settlement, so that it reports the points of the settlement.\<close>

theorem completed_payload_verifies:
  assumes "dealt g0" and "fairness_mode_ok (hn_mode (lh_origin g0))" and "utf8_text (lh_id g0)" and "lh_reach g0 g"
    and "live_game_apply g cmd = (g', Inr outcome)" and "oc_terminal outcome"
  shows "\<exists>p result. decode_final_evidence_json (oc_final outcome) completed_fields zero_completed = Inr p \<and>
    lh_settlement g' = Some result \<and> cp_settlement p = result \<and>
    replay_bids (new_bid_state (bd_first (lh_auction g0))) zero_bid_snapshot (elements (bw_actions (cp_bidding p))) =
      Inr (bid_snapshot_of (Some (lh_auction g'))) \<and>
    (\<forall>r. verify_completed_play r p (lh_setup g0) (bid_snapshot_of (Some (lh_auction g'))) =
      Inr (completed_report r p (res_points result) (lh_current g')))"
proof -
  have inv: "game_inv g" using reach_inv [OF assms(4,1)] ..
  have same: "lh_origin g = lh_origin g0" "lh_id g = lh_id g0" "lh_setup g = lh_setup g0" "bd_first (lh_auction g) = bd_first (lh_auction g0)"
    using reach_deal [OF assms(4)] by (simp_all add: same_deal_def)
  obtain turns result p where m: "last_move g turns (lh_current g') result p" and f: "oc_final outcome = json_print (json_completed p)"
    and st: "lh_settlement g' = Some result" "lh_auction g' = lh_auction g"
    using inv assms(5,6) by (rule terminal_step)
  have c: "completed_payload_of g (lh_version g + 1) (pl_snapshot_of (Some turns)) result (lh_current g') = Inr p"
    and cal: "calculate \<lparr>in_landlord = lh_landlord g, in_score = lh_score g, in_playing = pl_snapshot_of (Some turns)\<rparr> = Inr result"
    using m by (simp_all add: last_move_def game_settlement_def)
  note lf = last_move_facts [OF m]
  have w: "completed_ok p"
    by (rule completed_payload_written [OF c pl_reach_inv [OF lf(2)] cal lf(3)]) (simp_all add: same assms(2,3))
  have "elements (bw_actions (cp_bidding p)) = bids (lh_auction g)"
    by (simp add: completed_payload_sel(11) [OF c] bidding_wire_of_def bid_snapshot_of_def bids_def)
  with replay_whole_auction [OF lf(6,5)] decode_completed [OF w] st f completed_payload_sel(9) [OF c]
    completed_play_verifies [OF m] show ?thesis by (simp add: same assms(2,3))
qed

theorem completed_payload_verifies_witness:
  "\<exists>g outcome p result. live_game_apply won_playing won_move = (g, Inr outcome) \<and>
    decode_final_evidence_json (oc_final outcome) completed_fields zero_completed = Inr p \<and> cp_settlement p = result"
proof -
  obtain g outcome where s: "live_game_apply won_playing won_move = (g, Inr outcome)" "oc_terminal outcome"
    using won_move_step by blast
  have "utf8_text ''H''" by code_simp
  then have "fairness_mode_ok (hn_mode (lh_origin won_start))" "utf8_text (lh_id won_start)"
    by (simp_all add: won_start_sel won_snapshot_def fairness_mode_ok_def)
  from completed_payload_verifies [OF won_start_dealt this won_playing_reach s] s show ?thesis by blast
qed

text \<open>The ends of the games that \<open>New\<close> makes, each with the record that the live directory builds of it.\<close>

inductive ended :: "live_hand \<Rightarrow> final_record \<Rightarrow> bool" where
  ended_completed: "new_live_hand s m a = Some (Inr g0) \<Longrightarrow> material_typed m \<Longrightarrow> lh_reach g0 g \<Longrightarrow>
    live_game_apply g cmd = (g', Inr outcome) \<Longrightarrow> oc_terminal outcome \<Longrightarrow>
    new_final_record (lh_id g) dd_descriptor FinalCompleted (oc_version outcome) (oc_final outcome) = Inr r \<Longrightarrow>
    \<not> gc_all_zero (fr_digest r) \<Longrightarrow> ended g' r"
| ended_aborted: "new_live_hand s m a = Some (Inr g0) \<Longrightarrow> material_typed m \<Longrightarrow> lh_reach g0 g \<Longrightarrow>
    gc_validate_identifier reason = Inr () \<Longrightarrow> live_game_abort g reason = (g', Inr outcome) \<Longrightarrow>
    new_final_record (lh_id g) dd_descriptor FinalAborted (ao_version outcome) (ao_final outcome) = Inr r \<Longrightarrow>
    \<not> gc_all_zero (fr_digest r) \<Longrightarrow> ended g' r"

definition settled_points :: "live_hand \<Rightarrow> i64 list" where
  "settled_points g = (case lh_settlement g of None \<Rightarrow> [0, 0, 0] | Some result \<Rightarrow> res_points result)"

lemma ended_verifies:
  assumes "ended g r"
  shows "\<exists>report. verify_final_record r = Some (Inr report) \<and> vp_remaining report = map length (lh_current g) \<and>
    vp_points report = settled_points g"
  using assms
proof cases
  case (ended_completed s m a g0 g1 cmd outcome)
  from completed_record_verifies [OF ended_completed(1-7)] show ?thesis
    by (auto simp: completed_report_def settled_points_def)
next
  case (ended_aborted s m a g0 g1 reason outcome)
  obtain p where "verify_final_record r = Some (Inr (aborted_report r p (lh_current g1)))"
    using aborted_record_verifies [OF ended_aborted(1-7)] by blast
  moreover have "game_inv g1" using reach_inv [OF ended_aborted(3) made_dealt [OF ended_aborted(1)]] ..
  then have "lh_settlement g1 = None" if "\<not> lh_terminal g1" using that by (auto simp: game_inv_def phase_inv_def)
  then have "lh_settlement g = None" "lh_current g = lh_current g1"
    using ended_aborted(5) by (auto simp: live_game_abort_def Let_def split: if_splits sum.splits)
  ultimately show ?thesis by (auto simp: aborted_report_def settled_points_def)
qed

text \<open>C1: everything the game archives, the offline verifier accepts: every final record of a game that
  \<open>New\<close> made, whatever commands were applied to it and however it ended (won or aborted at any moment),
  passes \<open>VerifyFinalRecord\<close>, and the report carries the number of cards each seat was left with and the
  points of the settlement. (A record whose SHA-256 digest is all zero is not valid, as in the code.)\<close>

theorem archived_records_verify:
  "{(g, r). ended g r} \<subseteq> {(g, r). \<exists>report. verify_final_record r = Some (Inr report) \<and>
     vp_remaining report = map length (lh_current g) \<and> vp_points report = settled_points g}"
  using ended_verifies by blast

end
