(* ===== verification/Live_Game_Properties.thy ===== *)
theory Live_Game_Properties
  imports Live_Game_Run
begin

text \<open>
  The properties of the running game: no card is lost or made, commands are accepted at the expected
  version only and a refused one leaves no trace, the hand can always go on, it ends exactly when a hand
  is empty, and a view of one seat depends on nothing that the seat may not see.
\<close>

section \<open>Cards\<close>

text \<open>C3: in every game that commands, aborts and forks make of a dealt one, the cards in the hands, the
  cards played and the landlord cards not yet taken are together the 54 cards of the deck, each exactly
  once, and a hand is empty only when its seat has won and the game is completed.\<close>

theorem live_game_cards:
  assumes "dealt g0" and "lh_reach g0 g"
  shows "cards_in_hand g + cards_played g + cards_face_down g = mset canonical_deck \<and> distinct canonical_deck \<and>
    (\<forall>i < 3. lh_current g ! i = [] \<longleftrightarrow> lh_phase g = phase_completed \<and> i = position_index (lh_winner g))"
proof -
  have "game_inv g" using reach_inv [OF assms(2,1)] ..
  with reachable_cards [OF assms(2,1)] distinct_canonical_deck empty_hands show ?thesis by blast
qed

lemma won_game:
  obtains g outcome where "lh_reach won_start g" "live_game_apply won_playing won_move = (g, Inr outcome)"
    "oc_terminal outcome" "lh_phase g = phase_completed"
proof -
  obtain g outcome where s: "live_game_apply won_playing won_move = (g, Inr outcome)" "oc_terminal outcome"
    using won_move_step by blast
  have r: "lh_reach won_start g" by (rule lh_command [OF won_playing_reach s(1)])
  have "game_inv g \<and> lh_terminal g" using apply_inv [OF won_in_play(1) s(1)] s(2) by auto
  moreover have "lh_phase g \<noteq> phase_aborted"
    using s won_playing_sel(1,5)
    by (auto simp: live_game_apply_def apply_playing_def split: if_splits sum.splits prod.splits elim!: playing_step_Inr)
      (auto simp: complete_game_def)
  ultimately have "lh_phase g = phase_completed" by (auto simp: game_inv_def)
  with r s show thesis by (rule that)
qed

theorem live_game_cards_witness:
  "\<exists>g. lh_phase g = phase_completed \<and> cards_in_hand g + cards_played g + cards_face_down g = mset canonical_deck"
proof -
  obtain g where "lh_reach won_start g" "lh_phase g = phase_completed" using won_game by blast
  with live_game_cards [OF won_start_dealt this(1)] show ?thesis by blast
qed

section \<open>Commands\<close>

text \<open>C12: a command is accepted only by a running game in the bidding or playing phase and only at the
  game's version; it then raises the version by one, is the last entry of the history, and the outcome
  carries the new version and says whether the game is over. A refused command leaves the game exactly
  as it was. The history always holds the versions 1, 2, 3, \<dots> in order.\<close>

theorem live_game_commands:
  assumes "dealt g0" and "lh_reach g0 g" and "live_game_apply g cmd = (g', r)"
  shows "(case r of
      Inl e \<Rightarrow> g' = g
    | Inr outcome \<Rightarrow> \<not> lh_terminal g \<and> lh_phase g \<in> {phase_bidding, phase_playing} \<and> cm_expected cmd = lh_version g \<and>
        lh_version g' = lh_version g + 1 \<and> lh_history g' = lh_history g @ [cmd] \<and>
        oc_version outcome = lh_version g' \<and> oc_terminal outcome = lh_terminal g') \<and>
    map cm_expected (lh_history g') = map word_of_nat [1..<Suc (length (lh_history g'))]"
proof -
  have "game_inv g" using reach_inv [OF assms(2,1)] ..
  from apply_inv [OF this assms(3)] show ?thesis
    by (cases r) (auto simp: game_inv_def log_inv_def)
qed

theorem live_game_commands_witness:
  "\<exists>g outcome. live_game_apply won_playing won_move = (g, Inr outcome) \<and> oc_version outcome = 3 \<and> lh_terminal g"
proof -
  obtain g outcome where s: "live_game_apply won_playing won_move = (g, Inr outcome)" "oc_terminal outcome"
    using won_game by blast
  from live_game_commands [OF won_start_dealt won_playing_reach s(1)] s won_playing_sel(2) show ?thesis by auto
qed

section \<open>Progress\<close>

text \<open>C13: the game never gets stuck: in every reachable game in the bidding or playing phase, whose
  transcript can be encoded, the seat whose turn it is has a JSON command that the game accepts (a pass
  in the auction or under a leading play, a single card otherwise), even when that card is the last one
  and the hand has to be settled; and every other seat's commands are refused.\<close>

theorem live_game_progress:
  assumes "dealt g0" and "transcript_ok g0" and "lh_reach g0 g" and "lh_phase g \<in> {phase_bidding, phase_playing}"
  shows "(\<exists>payload g' outcome. live_game_apply g
        \<lparr>cm_actor = seat_to_act g, cm_expected = lh_version g, cm_payload = payload\<rparr> = (g', Inr outcome)) \<and>
    (\<forall>cmd. cm_actor cmd \<noteq> seat_to_act g \<longrightarrow> (\<exists>e. live_game_apply g cmd = (g, Inl e)))"
proof -
  have inv: "game_inv g" "lh_setup g = lh_setup g0" using reach_inv [OF assms(3,1)] by simp_all
  have t: "transcript_ok g" using assms(2) transcript_ok_deal [OF reach_deal [OF assms(3)]] by simp
  have refused: "\<exists>e. live_game_apply g cmd = (g, Inl e)" if "cm_actor cmd \<noteq> seat_to_act g" for cmd
  proof -
    obtain g' r where s: "live_game_apply g cmd = (g', r)" by (cases "live_game_apply g cmd")
    have "\<not> (\<exists>outcome. r = Inr outcome)"
      using s
    proof (cases rule: live_apply_cases)
      case (bid g1 outcome)
      then have "lh_play g = None" using inv(1) by (auto simp: game_inv_def phase_inv_def untouched_def)
      with bid(5) that show ?thesis
        by (auto simp: apply_bid_def seat_to_act_def submit_Inr split: sum.splits)
    next
      case (move g1 outcome)
      with that show ?thesis
        by (auto simp: playing_step_def seat_to_act_def rbind_eq_Inr split: option.splits)
    qed auto
    with apply_inv [OF inv(1) s] s show ?thesis by auto
  qed
  have "\<exists>payload g' outcome. live_game_apply g
        \<lparr>cm_actor = seat_to_act g, cm_expected = lh_version g, cm_payload = payload\<rparr> = (g', Inr outcome)"
  proof (cases "lh_phase g = phase_bidding")
    case True
    then have "lh_play g = None" using inv(1) by (auto simp: game_inv_def phase_inv_def untouched_def)
    then show ?thesis
      using bid_accepts [OF inv(1) True, of "\<lparr>cm_actor = seat_to_act g, cm_expected = lh_version g, cm_payload = json_print (bid_json 0)\<rparr>"]
      unfolding seat_to_act_def by (metis (no_types, lifting) command.select_convs option.case(1))
  next
    case False
    with assms(4) have p: "lh_phase g = phase_playing" by simp
    then obtain turns where turns: "in_play g turns" using inv(1) by (auto simp: game_inv_def phase_inv_def)
    then have "seat_to_act g = pl_current turns" by (simp add: in_play_def seat_to_act_def)
    then show ?thesis using playing_goes_on [OF inv(1) turns p t] dealt_cards [OF assms(1)] inv(2) by simp
  qed
  with refused show ?thesis by blast
qed

theorem live_game_progress_witness:
  "\<exists>payload g outcome. live_game_apply won_playing \<lparr>cm_actor = 2, cm_expected = 2, cm_payload = payload\<rparr> = (g, Inr outcome)"
proof -
  have "transcript_ok won_start" using won_transcript_ok by (simp add: transcript_ok_def won_start_sel)
  moreover have "seat_to_act won_playing = 2" by (simp add: seat_to_act_def won_playing_sel won_turns_def)
  ultimately show ?thesis
    using live_game_progress [OF won_start_dealt _ won_playing_reach] won_playing_sel(1,2) by simp
qed

section \<open>Confidentiality\<close>

text \<open>Two games that differ at most in what seat \<open>p\<close> may not see: the cards of the other hands, the
  landlord cards while there is no landlord, the deck, the seeds and the material.\<close>

definition same_view :: "u8 \<Rightarrow> live_hand \<Rightarrow> live_hand \<Rightarrow> bool" where
  "same_view p g h \<longleftrightarrow> lh_id g = lh_id h \<and> lh_seats g = lh_seats h \<and> lh_phase g = lh_phase h \<and> lh_version g = lh_version h \<and>
     lh_terminal g = lh_terminal h \<and> sa_digest (lh_artifact g) = sa_digest (lh_artifact h) \<and>
     su_deck_digest (lh_setup g) = su_deck_digest (lh_setup h) \<and> su_deal_digest (lh_setup g) = su_deal_digest (lh_setup h) \<and>
     lh_auction g = lh_auction h \<and> lh_play g = lh_play h \<and> lh_landlord g = lh_landlord h \<and> lh_score g = lh_score h \<and>
     lh_playing_seat g = lh_playing_seat h \<and> lh_winner g = lh_winner h \<and> lh_settlement g = lh_settlement h \<and>
     (lh_landlord g = 0 \<or> su_landlord (lh_setup g) = su_landlord (lh_setup h)) \<and>
     map length (lh_current g) = map length (lh_current h) \<and>
     lh_current g ! position_index p = lh_current h ! position_index p"

lemma seat_views_lengths:
  "seat_views g = map (\<lambda>(seat, n). JObj (member ''position'' (json_word (hs_seat seat))
            @ member ''accountId'' (JStr (hs_account seat)) @ member ''remainingCards'' (JNum (show_nat n))))
     (zip (lh_seats g) (map length (lh_current g)))"
  by (simp add: seat_views_def zip_map2 comp_def case_prod_unfold)

text \<open>C11: a view of seat \<open>p\<close>, private or public, depends only on the public course of the game, the number of
  cards of each seat and the cards of seat \<open>p\<close> itself: two games that agree on these answer every view
  request of that seat with the same bytes or the same error, so nothing about the other hands, the face
  down landlord cards, the deck order or the seeds can be read from a view.\<close>

theorem live_game_view_confidential:
  assumes "same_view p g h"
  shows "live_game_view g \<lparr>vr_position = p, vr_public = b\<rparr> = live_game_view h \<lparr>vr_position = p, vr_public = b\<rparr>"
proof -
  have "seat_views g = seat_views h" using assms by (simp add: seat_views_lengths same_view_def)
  then have "public_view g = public_view h" using assms by (auto simp: public_view_def same_view_def)
  moreover have "private_view g p v = private_view h p v" for v using assms by (simp add: private_view_def same_view_def)
  moreover have "lh_version g = lh_version h" "lh_terminal g = lh_terminal h" using assms by (auto simp: same_view_def)
  ultimately show ?thesis by (cases b) (simp_all add: live_game_view_def)
qed

theorem live_game_view_confidential_witness:
  "\<exists>h. lh_current h \<noteq> lh_current won_start \<and> su_landlord (lh_setup h) \<noteq> su_landlord (lh_setup won_start) \<and>
    live_game_view h \<lparr>vr_position = 2, vr_public = False\<rparr> = live_game_view won_start \<lparr>vr_position = 2, vr_public = False\<rparr>"
proof -
  obtain x y z where d: "deal_hands won_deck = [x, y, z]" using deal_hands_shape(1) length3_exhaust by blast
  let ?h = "won_start\<lparr>lh_current := [z, y, x], lh_setup := won_setup\<lparr>su_landlord := [0, 1, 2]\<rparr>\<rparr>"
  have "deal_hands won_deck ! 0 \<noteq> deal_hands won_deck ! 2" by code_simp
  then have "x \<noteq> z" by (simp add: d)
  moreover have "drop 51 won_deck = [28, 32, 36]" by code_simp
  moreover have len: "length x = 17" "length z = 17" using deal_hands_shape(2) [of won_deck] by (auto simp: d)
  have "same_view 2 ?h won_start"
    by (simp add: same_view_def won_start_sel d len position_index_def) (simp add: won_start_def initial_hand_def)
  ultimately show ?thesis using live_game_view_confidential [of 2 ?h won_start False]
    by (intro exI [of _ ?h]) (simp add: won_start_sel d won_setup_def)
qed

section \<open>One command per version\<close>

text \<open>
  What the live directory relies on: a game accepts a command only at its version and then counts it up,
  a refused command and a clone leave the game as it was.
\<close>

locale live_game_laws =
  fixes ops :: "'g live_game" and ok :: "'g \<Rightarrow> bool" and version :: "'g \<Rightarrow> u64"
  assumes apply_laws: "ok g \<Longrightarrow> lg_apply ops g cmd = (g', r) \<Longrightarrow> ok g' \<and>
      (case r of Inl e \<Rightarrow> g' = g | Inr outcome \<Rightarrow> cm_expected cmd = version g \<and> version g' = version g + 1)"
    and clone_laws: "ok g \<Longrightarrow> lg_clone ops g = Some (Inr g') \<Longrightarrow> g' = g"
begin

text \<open>An entry that no longer takes the command: it has ended, is quarantined, or has moved on.\<close>

definition stale :: "command \<Rightarrow> 'g live_entry \<Rightarrow> bool" where
  "stale cmd e \<longleftrightarrow> ok (le_game e) \<and>
     (le_closed e \<or> le_quarantined e \<or> le_pending e \<noteq> None \<or> version (le_game e) \<noteq> cm_expected cmd)"

lemma stale_apply:
  assumes "stale cmd (ld_heap d ! a)"
  shows "\<exists>e. apply_at ops arch iid a cmd d = (d, failed e)"
proof -
  obtain g r where s: "lg_apply ops (le_game (ld_heap d ! a)) cmd = (g, r)" by (cases "lg_apply ops (le_game (ld_heap d ! a)) cmd")
  have laws: "case r of Inl e \<Rightarrow> g = le_game (ld_heap d ! a) | Inr outcome \<Rightarrow> cm_expected cmd = version (le_game (ld_heap d ! a))"
    using apply_laws [OF _ s] assms by (auto simp: stale_def split: sum.splits)
  have same: "set_entry d a ((ld_heap d ! a)\<lparr>le_game := le_game (ld_heap d ! a)\<rparr>) = d" by (simp add: set_entry_def)
  show ?thesis
    using assms s laws same by (cases r) (auto simp: stale_def apply_at_def Let_def)
qed

lemma stale_commit:
  assumes "stale cmd (ld_heap d ! a)"
  shows "\<exists>e. commit_at ops arch iid a cmd persist p d = (d, p, failed e)"
proof -
  let ?e = "ld_heap d ! a"
  have "\<exists>err. candidate_of ops iid ?e cmd = Inl err"
  proof (cases "lg_clone ops (le_game ?e)")
    case (Some c)
    show ?thesis
    proof (cases c)
      case (Inr g)
      obtain g' r where s: "lg_apply ops g cmd = (g', r)" by (cases "lg_apply ops g cmd")
      have "g = le_game ?e" using clone_laws assms Some Inr by (auto simp: stale_def)
      with apply_laws [OF _ s] assms have "r = Inr outcome \<Longrightarrow> cm_expected cmd = version (le_game ?e)" for outcome
        by (auto simp: stale_def)
      with assms Some Inr s show ?thesis by (cases r) (auto simp: candidate_of_def stale_def)
    qed (use Some in \<open>simp add: candidate_of_def\<close>)
  qed (simp add: candidate_of_def)
  then show ?thesis by (cases persist) (auto simp: commit_at_def Let_def)
qed

lemma pending_keeps_game:
  assumes "archive_pending arch iid a d = (d', err)" and "a < length (ld_heap d)"
  shows "le_game (ld_heap d' ! a) = le_game (ld_heap d ! a) \<and> length (ld_heap d') = length (ld_heap d)"
  using assms by (auto simp: archive_pending_def set_entry_def Let_def split: option.splits prod.splits if_splits)

lemma finalize_keeps_game:
  assumes "finalize_with arch iid a record x d = (d', r)" and "a < length (ld_heap d)"
  shows "le_game (ld_heap d' ! a) = le_game (ld_heap d ! a)"
  using assms pending_keeps_game [of arch iid a "set_entry d a ((ld_heap d ! a)\<lparr>le_pending := Some record\<rparr>)"]
  by (auto simp: finalize_with_def set_entry_def split: prod.splits)

lemma accepted_stale:
  assumes "ok g" and "lg_apply ops g cmd = (g', Inr outcome)" and "le_game e = g'" and "cm_expected cmd' = cm_expected cmd"
  shows "stale cmd' e"
  using apply_laws [OF assms(1,2)] assms(3,4) by (auto simp: stale_def)

lemma apply_makes_stale:
  assumes "ok (le_game (ld_heap d ! a))" and "a < length (ld_heap d)"
    and "apply_at ops arch iid a cmd d = (d', Some outcome, err)" and "cm_expected cmd' = cm_expected cmd"
  shows "stale cmd' (ld_heap d' ! a)"
proof -
  obtain g r where s: "lg_apply ops (le_game (ld_heap d ! a)) cmd = (g, r)" by (cases "lg_apply ops (le_game (ld_heap d ! a)) cmd")
  let ?d1 = "set_entry d a ((ld_heap d ! a)\<lparr>le_game := g\<rparr>)"
  have g: "le_game (ld_heap ?d1 ! a) = g" and l: "a < length (ld_heap ?d1)" using assms(2) by (simp_all add: set_entry_def)
  obtain oc where r: "r = Inr oc" using assms(3) s by (cases r) (auto simp: apply_at_def Let_def split: if_splits)
  have "le_game (ld_heap d' ! a) = g"
    using assms(3) s r g finalize_keeps_game [OF _ l]
    by (auto simp: apply_at_def Let_def split: if_splits sum.splits)
  then show ?thesis using accepted_stale [OF assms(1) s [unfolded r]] assms(4) by blast
qed

lemma commit_makes_stale:
  assumes "ok (le_game (ld_heap d ! a))" and "a < length (ld_heap d)"
    and "commit_at ops arch iid a cmd persist p d = (d', p', Some (outcome, g), err)" and "cm_expected cmd' = cm_expected cmd"
  shows "stale cmd' (ld_heap d' ! a)"
proof -
  let ?e = "ld_heap d ! a"
  obtain commit g1 oc final where c: "persist = Some commit" "candidate_of ops iid ?e cmd = Inr (g1, oc, final)"
    using assms(3) by (cases persist; cases "candidate_of ops iid ?e cmd") (auto simp: commit_at_def Let_def)
  have s: "lg_apply ops (le_game ?e) cmd = (g1, Inr oc)"
    using c(2) clone_laws [OF assms(1)]
    by (auto simp: candidate_of_def rbind_eq_Inr split: if_splits option.splits sum.splits prod.splits)
  let ?d1 = "set_entry d a (?e\<lparr>le_game := g1\<rparr>)"
  have g: "le_game (ld_heap ?d1 ! a) = g1" and l: "a < length (ld_heap ?d1)" using assms(2) by (simp_all add: set_entry_def)
  have "le_game (ld_heap d' ! a) = g1"
    using assms(3) c g finalize_keeps_game [OF _ l]
    by (auto simp: commit_at_def Let_def split: if_splits option.splits prod.splits)
  then show ?thesis using accepted_stale [OF assms(1) s] assms(4) by blast
qed

end

interpretation live_hand: live_game_laws live_hand_game game_inv lh_version
proof
  fix g cmd g' r assume "game_inv g" "lg_apply live_hand_game g cmd = (g', r)"
  then show "game_inv g' \<and> (case r of Inl e \<Rightarrow> g' = g | Inr outcome \<Rightarrow> cm_expected cmd = lh_version g \<and> lh_version g' = lh_version g + 1)"
    using apply_inv [of g cmd g' r] by (auto simp: live_hand_game_def split: sum.splits)
next
  fix g g' assume "lg_clone live_hand_game g = Some (Inr g')"
  then show "g' = g" by (simp add: live_hand_game_def fork_eq)
qed

lemma bid_final:
  assumes "live_game_apply g cmd = (g', Inr outcome)" and "lh_phase g = phase_bidding"
  shows "\<not> oc_terminal outcome \<and> oc_final outcome = []"
  using assms
proof (elim live_apply_cases)
  fix g1 o1 assume r: "(Inr outcome :: go_error + command_outcome) = Inr o1" and "apply_bid g cmd = (g1, Inr o1)"
  from this(2) show "\<not> oc_terminal outcome \<and> oc_final outcome = []"
    by (rule apply_bid_cases) (use r in \<open>auto simp: bid_outcome_def split: if_splits sum.splits\<close>)
qed simp_all

text \<open>C6: of the commands sent at one version of a running hand at most one takes effect, whichever way
  they come: once the live directory has accepted a command for an entry, by \<open>Apply\<close> or by
  \<open>ApplyCommitted\<close>, every further command with the same expected version is refused by both, without
  reaching the durable commit and without any change of the directory (a retried or doubled click can
  not play twice).\<close>

theorem one_command_per_version:
  assumes "dealt g0" and "lh_reach g0 (le_game (ld_heap d ! a))" and "a < length (ld_heap d)"
    and "cm_expected cmd' = cm_expected cmd"
    and "(\<exists>outcome err. apply_at live_hand_game arch iid a cmd d = (d', Some outcome, err)) \<or>
      (\<exists>persist (p :: 'p) p' r err. commit_at live_hand_game arch iid a cmd persist p d = (d', p', Some r, err))"
  shows "(\<exists>e. apply_at live_hand_game arch iid a cmd' d' = (d', failed e)) \<and>
    (\<forall>persist (p :: 'q). \<exists>e. commit_at live_hand_game arch iid a cmd' persist p d' = (d', p, failed e))"
proof -
  have ok: "game_inv (le_game (ld_heap d ! a))" using reach_inv [OF assms(2,1)] ..
  have "live_hand.stale cmd' (ld_heap d' ! a)"
    using assms(5)
  proof (elim disjE exE)
    fix outcome err assume "apply_at live_hand_game arch iid a cmd d = (d', Some outcome, err)"
    then show ?thesis by (rule live_hand.apply_makes_stale [OF ok assms(3) _ assms(4)])
  next
    fix persist and p :: 'p and p' r err
    assume "commit_at live_hand_game arch iid a cmd persist p d = (d', p', Some r, err)"
    moreover obtain outcome g where "r = (outcome, g)" by (cases r)
    ultimately show ?thesis by (simp only:) (rule live_hand.commit_makes_stale [OF ok assms(3) _ assms(4)])
  qed
  from live_hand.stale_apply [OF this] live_hand.stale_commit [OF this] show ?thesis by (intro conjI allI)
qed

definition won_directory :: "(live_hand, nat) live_directory" where
  "won_directory = \<lparr>ld_heap = [\<lparr>le_game = won_start, le_descriptor = dd_descriptor, le_pending = None, le_closed = False,
     le_quarantined = False\<rparr>], ld_map = [''H'' \<mapsto> 0], ld_archive = 0\<rparr>"

theorem one_command_per_version_witness:
  "\<exists>d outcome e. apply_at live_hand_game (\<lambda>r n. (True, Suc n)) ''H'' 0 won_bid won_directory = (d, Some outcome, None) \<and>
    apply_at live_hand_game (\<lambda>r n. (True, Suc n)) ''H'' 0 won_bid d = (d, failed e)"
proof -
  let ?arch = "\<lambda>r n. (True, Suc n)"
  obtain outcome where s: "live_game_apply won_start won_bid = (won_playing, Inr outcome)" using won_bid_step by blast
  note f = bid_final [OF s won_start_sel(1)]
  have actor: "\<not> (cm_actor won_bid < 1 \<or> cm_actor won_bid > ds_participants dd_descriptor)"
    by (simp add: won_bid_def dd_descriptor_def dd_participant_count_def)
  then obtain d where d: "apply_at live_hand_game ?arch ''H'' 0 won_bid won_directory = (d, Some outcome, None)"
    using s f by (simp add: apply_at_def Let_def won_directory_def live_hand_game_def)
  have "lh_reach won_start (le_game (ld_heap won_directory ! 0))" "0 < length (ld_heap won_directory)"
    by (simp_all add: won_directory_def lh_start)
  from one_command_per_version [OF won_start_dealt this refl] d
  have "\<exists>e. apply_at live_hand_game ?arch ''H'' 0 won_bid d = (d, failed e)" by blast
  with d show ?thesis by blast
qed

end
