(* ===== verification/App_Types.thy ===== *)
theory App_Types
  imports Hand_Safety Json_Struct
begin

text \<open>
  \<open>application/types.go\<close> and \<open>application/errors.go\<close>: commands and their stored results, the tree of
  a Go error that \<open>errors.Is\<close> and \<open>errors.As\<close> search, and the table that turns a domain error into the
  failure a client sees. A call of the application layer runs on an abstract state \<open>'s\<close> (the database
  and the services behind the interfaces) and gives an error or a value, together with the state after it.
\<close>

section \<open>Errors\<close>

datatype app_sentinel =
    AppNotFound
  | AppAlreadyExists
  | AppOptimisticConflict
  | AppSequenceConflict
  | AppInvalidCommand
  | AppRevealInvalid
  | AppProtectionFailed
  | AppRetryableTransaction
  | AppLiveProgressed
  | AppFinalEvidenceInvalid
  | AppFinalEvidenceForbidden

text \<open>
  \<open>Fault\<close> is an error of a driver or a library that wraps no sentinel of the program, with its text;
  \<open>Aggregate\<close> is \<open>aggregateMutationError\<close>, \<open>Wrapped\<close> is \<open>fmt.Errorf("operation: %w", err)\<close>, \<open>Joined\<close>
  is \<open>errors.Join\<close>.
\<close>

datatype app_error =
    App app_sentinel
  | Core go_error
  | Fault string
  | Aggregate app_error u64
  | Wrapped string app_error
  | Joined app_error app_error

text \<open>The errors below the wrappers, in the order in which \<open>errors.Is\<close> and \<open>errors.As\<close> reach them.\<close>

fun error_leaves :: "app_error \<Rightarrow> app_error list" where
  "error_leaves (Aggregate e v) = error_leaves e"
| "error_leaves (Wrapped operation e) = error_leaves e"
| "error_leaves (Joined a b) = error_leaves a @ error_leaves b"
| "error_leaves e = [e]"

definition error_is :: "app_error \<Rightarrow> app_error \<Rightarrow> bool" where
  "error_is e target \<longleftrightarrow> target \<in> set (error_leaves e)"

fun first_version_conflict :: "app_error list \<Rightarrow> u64 option" where
  "first_version_conflict [] = None"
| "first_version_conflict (Core (Domain (DmVersionConflict expected actual)) # es) = Some actual"
| "first_version_conflict (e # es) = first_version_conflict es"

record command_failure =
  cf_code :: string
  cf_message :: string
  cf_version :: "u64 option"

definition code_invalid_command :: string where "code_invalid_command = ''DDZ_INVALID_COMMAND''"
definition code_forbidden :: string where "code_forbidden = ''DDZ_FORBIDDEN''"
definition code_not_found :: string where "code_not_found = ''DDZ_NOT_FOUND''"
definition code_not_seated :: string where "code_not_seated = ''DDZ_NOT_SEATED''"
definition code_room_full :: string where "code_room_full = ''DDZ_ROOM_FULL''"
definition code_room_not_ready :: string where "code_room_not_ready = ''DDZ_ROOM_NOT_READY''"
definition code_hand_active :: string where "code_hand_active = ''DDZ_HAND_ACTIVE''"
definition code_wrong_phase :: string where "code_wrong_phase = ''DDZ_WRONG_PHASE''"
definition code_duplicate_contribution :: string where
  "code_duplicate_contribution = ''DDZ_DUPLICATE_CONTRIBUTION''"
definition code_commitment_mismatch :: string where
  "code_commitment_mismatch = ''DDZ_COMMITMENT_MISMATCH''"
definition code_beacon_mismatch :: string where "code_beacon_mismatch = ''DDZ_BEACON_MISMATCH''"
definition code_version_conflict :: string where "code_version_conflict = ''DDZ_VERSION_CONFLICT''"
definition code_sequence_conflict :: string where "code_sequence_conflict = ''DDZ_SEQUENCE_CONFLICT''"
definition code_hand_terminal :: string where "code_hand_terminal = ''DDZ_HAND_TERMINAL''"
definition code_reveal_invalid :: string where "code_reveal_invalid = ''DDZ_REVEAL_INVALID''"
definition code_conflict :: string where "code_conflict = ''DDZ_CONFLICT''"

definition rejection :: "string \<Rightarrow> string \<Rightarrow> command_failure" where
  "rejection code message = \<lparr>cf_code = code, cf_message = message, cf_version = None\<rparr>"

text \<open>\<open>mapBusinessError\<close>: \<open>None\<close> is an error that is not the client's, which undoes the transaction.\<close>

definition map_business_error :: "app_error \<Rightarrow> command_failure option" where
  "map_business_error err =
     (case first_version_conflict (error_leaves err) of
        Some actual \<Rightarrow>
          Some ((rejection code_version_conflict ''aggregate version conflict'')\<lparr>cf_version := Some actual\<rparr>)
      | None \<Rightarrow>
          (let is_app = (\<lambda>s. error_is err (App s)); is_domain = (\<lambda>d. error_is err (Core (Domain d))) in
           if is_app AppNotFound then Some (rejection code_not_found ''aggregate not found'')
           else if is_app AppAlreadyExists then Some (rejection code_conflict ''state conflict'')
           else if is_app AppSequenceConflict then Some (rejection code_sequence_conflict ''client sequence conflict'')
           else if is_app AppInvalidCommand \<or> is_domain DmInvalidArgument \<or> is_domain DmNoStateChange
           then Some (rejection code_invalid_command ''invalid command'')
           else if is_app AppRevealInvalid then Some (rejection code_reveal_invalid ''invalid fairness reveal'')
           else if is_domain DmForbidden \<or> is_domain DmOwnerMustRemain
           then Some (rejection code_forbidden ''operation forbidden'')
           else if is_domain DmNotSeated then Some (rejection code_not_seated ''account is not seated'')
           else if is_domain DmRoomFull then Some (rejection code_room_full ''room is full'')
           else if is_domain DmRoomNotReady then Some (rejection code_room_not_ready ''room is not ready'')
           else if is_domain DmHandActive then Some (rejection code_hand_active ''hand is active'')
           else if is_domain DmWrongPhase \<or> is_domain DmHandNotActive \<or> is_domain DmRoomClosed \<or> is_domain DmAlreadySeated
           then Some (rejection code_wrong_phase ''command is not allowed in the current state'')
           else if is_domain DmDuplicateContribution
           then Some (rejection code_duplicate_contribution ''contribution already submitted'')
           else if is_domain DmCommitmentMismatch
           then Some (rejection code_commitment_mismatch ''reveal does not match commitment'')
           else if is_domain DmBeaconMismatch
           then Some (rejection code_beacon_mismatch ''beacon does not match locked plan'')
           else if is_domain DmHandTerminal then Some (rejection code_hand_terminal ''hand is terminal'')
           else None))"

section \<open>Calls\<close>

type_synonym ('s, 'a) call = "'s \<Rightarrow> (app_error + 'a) \<times> 's"

definition give :: "'a \<Rightarrow> ('s, 'a) call" where "give x s = (Inr x, s)"

definition fail_with :: "app_error \<Rightarrow> ('s, 'a) call" where "fail_with e s = (Inl e, s)"

definition give_result :: "app_error + 'a \<Rightarrow> ('s, 'a) call" where "give_result r s = (r, s)"

definition guard :: "bool \<Rightarrow> app_error \<Rightarrow> ('s, unit) call" where
  "guard bad e s = (if bad then Inl e else Inr (), s)"

text \<open>\<open>and_then m f\<close> is a call, its \<open>if err != nil { return err }\<close>, and the rest of the function.\<close>

definition and_then :: "('s, 'a) call \<Rightarrow> ('a \<Rightarrow> ('s, 'b) call) \<Rightarrow> ('s, 'b) call" where
  "and_then m f s = (case m s of (Inl e, s') \<Rightarrow> (Inl e, s') | (Inr x, s') \<Rightarrow> f x s')"

text \<open>\<open>or_else m h\<close> runs the error branch \<open>h\<close>, which ends in an error of its own.\<close>

definition or_else :: "('s, 'a) call \<Rightarrow> (app_error \<Rightarrow> ('s, 'a) call) \<Rightarrow> ('s, 'a) call" where
  "or_else m h s = (case m s of (Inl e, s') \<Rightarrow> h e s' | (Inr x, s') \<Rightarrow> (Inr x, s'))"

definition wrap_infrastructure :: "string \<Rightarrow> ('s, 'a) call \<Rightarrow> ('s, 'a) call" where
  "wrap_infrastructure operation m = or_else m (\<lambda>e. fail_with (Wrapped operation e))"

text \<open>A result of the domain as a call: its error, and the error with the aggregate's version.\<close>

definition domain_call :: "go_error + 'a \<Rightarrow> ('s, 'a) call" where
  "domain_call r = give_result (case r of Inl e \<Rightarrow> Inl (Core e) | Inr x \<Rightarrow> Inr x)"

definition aggregate_call :: "u64 \<Rightarrow> ('s, 'a) call \<Rightarrow> ('s, 'a) call" where
  "aggregate_call version m = or_else m (\<lambda>e. fail_with (Aggregate e version))"

named_theorems call_simps

lemma give_run [call_simps]: "give x s = (Inr x, s)" by (simp add: give_def)
lemma fail_run [call_simps]: "fail_with e s = (Inl e, s)" by (simp add: fail_with_def)
lemma give_result_run [call_simps]: "give_result r s = (r, s)" by (simp add: give_result_def)

lemma guard_run [call_simps]:
  "guard bad e s = (r, s') \<longleftrightarrow> s' = s \<and> r = (if bad then Inl e else Inr ())"
  by (auto simp: guard_def)

lemma and_then_Inr [call_simps]:
  "and_then m f s = (Inr y, s'') \<longleftrightarrow> (\<exists>x s'. m s = (Inr x, s') \<and> f x s' = (Inr y, s''))"
  by (auto simp: and_then_def split: prod.splits sum.splits)

lemma and_then_Inl [call_simps]:
  "and_then m f s = (Inl e, s'') \<longleftrightarrow> m s = (Inl e, s'') \<or> (\<exists>x s'. m s = (Inr x, s') \<and> f x s' = (Inl e, s''))"
  by (auto simp: and_then_def split: prod.splits sum.splits)

lemma or_else_Inr [call_simps]:
  "or_else m h s = (Inr x, s'') \<longleftrightarrow> m s = (Inr x, s'') \<or> (\<exists>e s'. m s = (Inl e, s') \<and> h e s' = (Inr x, s''))"
  by (auto simp: or_else_def split: prod.splits sum.splits)

lemma or_else_Inl [call_simps]:
  "or_else m h s = (Inl e, s'') \<longleftrightarrow> (\<exists>e' s'. m s = (Inl e', s') \<and> h e' s' = (Inl e, s''))"
  by (auto simp: or_else_def split: prod.splits sum.splits)

lemma wrap_Inr [call_simps]: "wrap_infrastructure t m s = (Inr x, s') \<longleftrightarrow> m s = (Inr x, s')"
  by (simp add: wrap_infrastructure_def call_simps)

lemma wrap_Inl [call_simps]:
  "wrap_infrastructure t m s = (Inl e, s') \<longleftrightarrow> (\<exists>e'. e = Wrapped t e' \<and> m s = (Inl e', s'))"
  by (auto simp: wrap_infrastructure_def call_simps)

lemma aggregate_Inr [call_simps]: "aggregate_call v m s = (Inr x, s') \<longleftrightarrow> m s = (Inr x, s')"
  by (simp add: aggregate_call_def call_simps)

lemma aggregate_Inl [call_simps]:
  "aggregate_call v m s = (Inl e, s') \<longleftrightarrow> (\<exists>e'. e = Aggregate e' v \<and> m s = (Inl e', s'))"
  by (auto simp: aggregate_call_def call_simps)

lemma domain_Inr [call_simps]: "domain_call r s = (Inr x, s') \<longleftrightarrow> s' = s \<and> r = Inr x"
  by (auto simp: domain_call_def call_simps split: sum.splits)

lemma domain_Inl [call_simps]: "domain_call r s = (Inl e, s') \<longleftrightarrow> s' = s \<and> (\<exists>e'. r = Inl e' \<and> e = Core e')"
  by (auto simp: domain_call_def call_simps split: sum.splits)

section \<open>Commands and results\<close>

definition command_protocol_v1 :: string where "command_protocol_v1 = ''fair-doudizhu-command-v1''"
definition command_result_v1 :: string where "command_result_v1 = ''fair-doudizhu-command-result-v1''"
definition event_protocol_v1 :: string where "event_protocol_v1 = ''fair-doudizhu-event-v1''"
definition reveal_plaintext_v1 :: string where "reveal_plaintext_v1 = ''fair-doudizhu-reveal-v1''"
definition reveal_aad_v1 :: string where "reveal_aad_v1 = ''fair-doudizhu/reveal-aad/v1''"
definition contribution_v1 :: string where "contribution_v1 = ''fair-doudizhu/contribution/v1''"
definition record_aad_v1 :: string where "record_aad_v1 = ''fair-doudizhu/contribution-record-aad/v1''"
definition custodied_aad_v1 :: string where
  "custodied_aad_v1 = ''fair-doudizhu/custodied-contribution-aad/v1''"

definition name_room_create :: string where "name_room_create = ''doudizhu.room.create.v1''"
definition name_room_join :: string where "name_room_join = ''doudizhu.room.join.v1''"
definition name_room_leave :: string where "name_room_leave = ''doudizhu.room.leave.v1''"
definition name_room_ready_set :: string where "name_room_ready_set = ''doudizhu.room.ready.set.v1''"
definition name_room_hand_start :: string where "name_room_hand_start = ''doudizhu.room.hand.start.v1''"
definition name_hand_commit :: string where "name_hand_commit = ''doudizhu.hand.fairness.commit.submit.v1''"
definition name_hand_contribution :: string where
  "name_hand_contribution = ''doudizhu.hand.fairness.contribution.submit.v1''"
definition name_hand_reveal :: string where "name_hand_reveal = ''doudizhu.hand.fairness.reveal.submit.v1''"
definition name_hand_beacon_lock :: string where "name_hand_beacon_lock = ''doudizhu.hand.beacon.lock.v1''"
definition name_hand_dealt :: string where "name_hand_dealt = ''doudizhu.hand.dealt.v1''"
definition name_hand_play_start :: string where "name_hand_play_start = ''doudizhu.hand.play.start.v1''"
definition name_hand_settlement :: string where "name_hand_settlement = ''doudizhu.hand.settlement.start.v1''"
definition name_hand_complete :: string where "name_hand_complete = ''doudizhu.hand.complete.v1''"
definition name_hand_cancel :: string where "name_hand_cancel = ''doudizhu.hand.cancel.v1''"
definition name_hand_abort :: string where "name_hand_abort = ''doudizhu.hand.abort.v1''"
definition name_hand_expire :: string where "name_hand_expire = ''doudizhu.hand.expire.v1''"

fun aggregate_text :: "aggregate_type \<Rightarrow> string" where
  "aggregate_text AggregateRoom = ''room''"
| "aggregate_text AggregateHand = ''hand''"

text \<open>The aggregate type of a command is the caller's string.\<close>

record app_command =
  ac_protocol :: string
  ac_name :: string
  ac_id :: string
  ac_type :: string
  ac_aggregate :: string
  ac_seq :: u64
  ac_expected :: u64
  ac_issued :: go_time
  ac_expires :: go_time
  ac_digest :: bytes
  ac_server_times :: bool

record event_ref =
  er_type :: string
  er_id :: string
  er_name :: string
  er_version :: u64

record command_result =
  cr_protocol :: string
  cr_command :: string
  cr_accepted :: bool
  cr_duplicate :: bool
  cr_type :: string
  cr_aggregate :: string
  cr_version :: u64
  cr_events :: "event_ref list"
  cr_failure :: "command_failure option"

record stored_result =
  sd_command :: app_command
  sd_result :: command_result

record outbox_event =
  ob_id :: string
  ob_protocol :: string
  ob_name :: string
  ob_type :: string
  ob_aggregate :: string
  ob_version :: u64
  ob_occurred :: go_time
  ob_causation :: string
  ob_actor :: account_id
  ob_payload :: bytes

record contribution_record =
  pr_id :: string
  pr_hand :: hand_id
  pr_seat :: seat
  pr_actor :: account_id
  pr_command :: string
  pr_digest :: bytes
  pr_key :: string
  pr_nonce :: bytes
  pr_ciphertext :: bytes
  pr_aad_digest :: bytes
  pr_created :: go_time

record secure_envelope =
  se_version :: string
  se_key :: string
  se_suite :: string
  se_encapsulated :: string
  se_ciphertext :: string

record protected_payload =
  pp_key :: string
  pp_nonce :: bytes
  pp_ciphertext :: bytes
  pp_aad_digest :: bytes

record hand_setup =
  hu_id :: hand_id
  hu_commitment :: bytes
  hu_reveal_key :: string
  hu_reveal_hash :: bytes
  hu_bound_at :: go_time
  hu_plan :: beacon_plan

record reveal_key_context =
  kc_id :: string
  kc_hash :: bytes
  kc_bound_at :: go_time
  kc_use_at :: go_time

end
