(* ===== verification/App_Service.thy ===== *)
theory App_Service
  imports App_Types
begin

text \<open>
  \<open>application/ports.go\<close>, \<open>live_contracts.go\<close> and \<open>service.go\<close>: the interfaces of the application
  service, each a record of its operations on the abstract state, and \<open>execute\<close>, the one path that every
  durable command takes: bind the payload, check the identity, claim the command ID in a transaction,
  answer a completed command from its stored result, check freshness and the client sequence, run the
  handler, and store events, sequence and result with it. \<open>context.Context\<close> is not modelled.
\<close>

section \<open>Interfaces\<close>

text \<open>The two methods that only a durable transaction has.\<close>

record 's live_guard =
  lk_lock_version :: "hand_id \<Rightarrow> ('s, u64) call"
  lk_fence_writer :: "hand_id \<Rightarrow> ('s, unit) call"

record 's transaction =
  tx_claim :: "account_id \<Rightarrow> app_command \<Rightarrow> go_time \<Rightarrow> ('s, stored_result \<times> bool) call"
  tx_complete :: "account_id \<Rightarrow> string \<Rightarrow> command_result \<Rightarrow> go_time \<Rightarrow> ('s, unit) call"
  tx_lock_sequence :: "string \<Rightarrow> string \<Rightarrow> account_id \<Rightarrow> ('s, u64) call"
  tx_save_sequence :: "string \<Rightarrow> string \<Rightarrow> account_id \<Rightarrow> u64 \<Rightarrow> go_time \<Rightarrow> ('s, unit) call"
  tx_insert_room :: "room_snapshot \<Rightarrow> go_time \<Rightarrow> ('s, unit) call"
  tx_load_room :: "room_id \<Rightarrow> ('s, room_snapshot) call"
  tx_update_room :: "room_snapshot \<Rightarrow> u64 \<Rightarrow> go_time \<Rightarrow> ('s, unit) call"
  tx_insert_hand :: "hand_snapshot \<Rightarrow> go_time \<Rightarrow> ('s, unit) call"
  tx_load_hand :: "hand_id \<Rightarrow> ('s, hand_snapshot) call"
  tx_update_hand :: "hand_snapshot \<Rightarrow> u64 \<Rightarrow> go_time \<Rightarrow> ('s, unit) call"
  tx_insert_record :: "contribution_record \<Rightarrow> ('s, unit) call"
  tx_append_outbox :: "outbox_event list \<Rightarrow> ('s, unit) call"
  tx_live_guard :: "'s live_guard option"

text \<open>
  The function that \<open>WithinCommand\<close> runs returns an error or nil, and assigns the two variables it
  captures: the result of the command and the compensation of an in-memory change.
\<close>

record 's captured =
  ck_result :: command_result
  ck_rollback :: "('s, unit) call option"

type_synonym 's body = "'s \<Rightarrow> (app_error option \<times> 's captured) \<times> 's"

text \<open>The store; the optional operations are the ones the code looks for with a type assertion.\<close>

record 's store =
  sx_within :: "account_id \<Rightarrow> string \<Rightarrow> 's body \<Rightarrow> 's body"
  sx_transaction :: "'s transaction"
  sx_load_hand :: "hand_id \<Rightarrow> ('s, hand_snapshot) call"
  sx_load_room :: "(room_id \<Rightarrow> ('s, room_snapshot) call) option"
  sx_room_sequence :: "(room_id \<Rightarrow> account_id \<Rightarrow> ('s, u64) call) option"
  sx_hand_sequence :: "(hand_id \<Rightarrow> account_id \<Rightarrow> ('s, u64) call) option"
  sx_recoverable :: "(account_id \<Rightarrow> ('s, room_id list) call) option"
  sx_load_record :: "(string \<Rightarrow> hand_id \<Rightarrow> seat \<Rightarrow> account_id \<Rightarrow> ('s, contribution_record) call) option"

record 's setup_provider =
  sp_prepare :: "room_snapshot \<Rightarrow> hand_id \<Rightarrow> ('s, hand_setup) call"
  sp_release :: "hand_id \<Rightarrow> ('s, unit) call"

record 's protector =
  pt_seal :: "bytes \<Rightarrow> bytes \<Rightarrow> ('s, protected_payload) call"
  pt_open :: "(protected_payload \<Rightarrow> bytes \<Rightarrow> ('s, bytes) call) option"

record live_result =
  lv_historical :: bool
  lv_version :: u64
  lv_payload :: bytes
  lv_terminates :: bool

record 's receipt_reader =
  rr_bid :: "hand_id \<Rightarrow> account_id \<Rightarrow> string \<Rightarrow> u64 \<Rightarrow> u8 \<Rightarrow> u64 \<Rightarrow> ('s, live_result option) call"
  rr_play :: "hand_id \<Rightarrow> account_id \<Rightarrow> string \<Rightarrow> u64 \<Rightarrow> string list \<Rightarrow> u64 \<Rightarrow> ('s, live_result option) call"
  rr_pass :: "hand_id \<Rightarrow> account_id \<Rightarrow> string \<Rightarrow> u64 \<Rightarrow> u64 \<Rightarrow> ('s, live_result option) call"

record 's sequenced_runtime =
  sq_bid :: "hand_id \<Rightarrow> account_id \<Rightarrow> string \<Rightarrow> u64 \<Rightarrow> u8 \<Rightarrow> u64 \<Rightarrow> ('s, live_result) call"
  sq_play :: "hand_id \<Rightarrow> account_id \<Rightarrow> string \<Rightarrow> u64 \<Rightarrow> string list \<Rightarrow> u64 \<Rightarrow> ('s, live_result) call"
  sq_pass :: "hand_id \<Rightarrow> account_id \<Rightarrow> string \<Rightarrow> u64 \<Rightarrow> u64 \<Rightarrow> ('s, live_result) call"

text \<open>
  The live hands; \<open>lr_abort\<close> also returns the final record in Go, which no caller here reads.
  \<open>lr_bid_committed\<close> and its like, the receipts and the durability flag are optional methods.
\<close>

record 's live_runtime =
  lr_start :: "hand_snapshot \<Rightarrow> ('s, unit) call"
  lr_rollback_start :: "hand_id \<Rightarrow> ('s, unit) call"
  lr_release_prepared :: "hand_id \<Rightarrow> ('s, unit) call"
  lr_bid :: "hand_id \<Rightarrow> account_id \<Rightarrow> u64 \<Rightarrow> u8 \<Rightarrow> ('s, live_result) call"
  lr_play :: "hand_id \<Rightarrow> account_id \<Rightarrow> u64 \<Rightarrow> string list \<Rightarrow> ('s, live_result) call"
  lr_pass :: "hand_id \<Rightarrow> account_id \<Rightarrow> u64 \<Rightarrow> ('s, live_result) call"
  lr_public_view :: "hand_id \<Rightarrow> account_id \<Rightarrow> ('s, u64 \<times> bytes) call"
  lr_private_view :: "hand_id \<Rightarrow> account_id \<Rightarrow> ('s, u64 \<times> bytes) call"
  lr_abort :: "hand_id \<Rightarrow> string \<Rightarrow> ('s, unit) call"
  lr_contains :: "hand_id \<Rightarrow> 's \<Rightarrow> bool"
  lr_receipts :: "'s receipt_reader option"
  lr_sequenced :: "'s sequenced_runtime option"
  lr_bid_committed :: "(hand_id \<Rightarrow> account_id \<Rightarrow> string \<Rightarrow> u64 \<Rightarrow> u8 \<Rightarrow> ('s, live_result) call) option"
  lr_play_committed :: "(hand_id \<Rightarrow> account_id \<Rightarrow> string \<Rightarrow> u64 \<Rightarrow> string list \<Rightarrow> ('s, live_result) call) option"
  lr_pass_committed :: "(hand_id \<Rightarrow> account_id \<Rightarrow> string \<Rightarrow> u64 \<Rightarrow> ('s, live_result) call) option"
  lr_durability :: "bool option"

text \<open>Durations are nanoseconds.\<close>

record app_config =
  cg_max_ttl :: int
  cg_max_skew :: int
  cg_max_phrase :: int

definition default_config :: app_config where
  "default_config = \<lparr>cg_max_ttl = 2 * 60 * 10 ^ 9, cg_max_skew = 30 * 10 ^ 9, cg_max_phrase = 1024\<rparr>"

record 's service =
  sv_store :: "'s store"
  sv_clock :: "'s \<Rightarrow> go_time \<times> 's"
  sv_new_id :: "('s, string) call"
  sv_setups :: "'s setup_provider"
  sv_verify_beacon :: "beacon_plan \<Rightarrow> beacon_value \<Rightarrow> ('s, beacon_value) call"
  sv_live :: "'s live_runtime"
  sv_open :: "secure_envelope \<Rightarrow> bytes \<Rightarrow> reveal_key_context \<Rightarrow> ('s, bytes) call"
  sv_protector :: "'s protector"
  sv_normalize :: "string \<Rightarrow> app_error + string"
  sv_config :: app_config

text \<open>\<open>NewService\<close>: \<open>None\<close> is a nil dependency.\<close>

definition new_service ::
  "'s store option \<Rightarrow> ('s \<Rightarrow> go_time \<times> 's) option \<Rightarrow> ('s, string) call option \<Rightarrow> 's setup_provider option \<Rightarrow>
   (beacon_plan \<Rightarrow> beacon_value \<Rightarrow> ('s, beacon_value) call) option \<Rightarrow> 's live_runtime option \<Rightarrow>
   (secure_envelope \<Rightarrow> bytes \<Rightarrow> reveal_key_context \<Rightarrow> ('s, bytes) call) option \<Rightarrow> 's protector option \<Rightarrow>
   (string \<Rightarrow> app_error + string) option \<Rightarrow> app_config \<Rightarrow> app_error + 's service" where
  "new_service store clock ids setups beacons live opener protector normalizer config =
     (case (store, clock, ids, setups, beacons, live, opener, protector, normalizer) of
        (Some st, Some ck, Some gen, Some su, Some bv, Some lr, Some op, Some pt, Some nm) \<Rightarrow>
          if cg_max_ttl config \<le> 0 \<or> cg_max_skew config < 0 \<or> cg_max_phrase config \<le> 0
          then Inl (App AppInvalidCommand)
          else Inr \<lparr>sv_store = st, sv_clock = ck, sv_new_id = gen, sv_setups = su, sv_verify_beacon = bv,
                    sv_live = lr, sv_open = op, sv_protector = pt, sv_normalize = nm, sv_config = config\<rparr>
      | _ \<Rightarrow> Inl (App AppInvalidCommand))"

section \<open>Time\<close>

definition time_after :: "go_time \<Rightarrow> go_time \<Rightarrow> bool" where
  "time_after a b \<longleftrightarrow> tm_nanos a > tm_nanos b"

definition time_add :: "go_time \<Rightarrow> int \<Rightarrow> go_time" where
  "time_add t d = t\<lparr>tm_nanos := tm_nanos t + d\<rparr>"

definition time_equal :: "go_time \<Rightarrow> go_time \<Rightarrow> bool" where
  "time_equal a b \<longleftrightarrow> tm_nanos a = tm_nanos b"

text \<open>\<open>Time.Sub\<close> saturates at the ends of a 64-bit duration.\<close>

definition time_sub :: "go_time \<Rightarrow> go_time \<Rightarrow> int" where
  "time_sub a b = max (- (2 ^ 63)) (min (2 ^ 63 - 1) (tm_nanos a - tm_nanos b))"

definition valid_millisecond_precision :: "go_time \<Rightarrow> bool" where
  "valid_millisecond_precision t \<longleftrightarrow> (tm_nanos t mod 10 ^ 9) mod 10 ^ 6 = 0"

section \<open>Payloads\<close>

datatype any_payload = RoomPayload room_payload | HandPayload hand_payload

definition any_event :: "('p \<Rightarrow> any_payload) \<Rightarrow> 'p event \<Rightarrow> any_payload event" where
  "any_event f e = \<lparr>ev_type = ev_type e, ev_id = ev_id e, ev_name = ev_name e, ev_version = ev_version e,
                    ev_payload = f (ev_payload e)\<rparr>"

text \<open>A 32-byte array is an array of numbers in JSON.\<close>

definition json_array32 :: "bytes \<Rightarrow> json" where "json_array32 bs = JArr (map json_word bs)"

fun phase_text :: "hand_phase \<Rightarrow> string" where
  "phase_text HandFairnessCommitting = ''FAIRNESS_COMMITTING''"
| "phase_text HandFairnessRevealing = ''FAIRNESS_REVEALING''"
| "phase_text HandWaitingPublicBeacon = ''WAITING_PUBLIC_BEACON''"
| "phase_text HandDealing = ''DEALING''"
| "phase_text HandBidding = ''BIDDING''"
| "phase_text HandPlaying = ''PLAYING''"
| "phase_text HandSettling = ''SETTLING''"
| "phase_text HandCompleted = ''COMPLETED''"
| "phase_text HandCancelled = ''CANCELLED''"
| "phase_text HandAborted = ''ABORTED''"
| "phase_text HandExpired = ''EXPIRED''"
| "phase_text (HandPhaseOther s) = s"

fun json_room_payload :: "room_payload \<Rightarrow> json" where
  "json_room_payload (RoomCreatedPayload owner seat) =
     JObj (member ''OwnerID'' (JStr owner) @ member ''Seat'' (json_word seat))"
| "json_room_payload (RoomPlayerPayload account seat) =
     JObj (member ''AccountID'' (JStr account) @ member ''Seat'' (json_word seat))"
| "json_room_payload (RoomReadyChangedPayload account seat ready) =
     JObj (member ''AccountID'' (JStr account) @ member ''Seat'' (json_word seat) @ member ''Ready'' (JBool ready))"
| "json_room_payload (RoomHandPayload hid) = JObj (member ''HandID'' (JStr hid))"

text \<open>
  The date of a time in UTC as Go's \<open>MarshalJSON\<close> writes it (RFC 3339, trailing zeros of the fraction
  dropped); a year beyond four digits is an error. \<open>date_of_days\<close> counts from 1 January of year 1.
\<close>

definition leap_year :: "int \<Rightarrow> bool" where
  "leap_year y \<longleftrightarrow> y mod 4 = 0 \<and> (y mod 100 \<noteq> 0 \<or> y mod 400 = 0)"

definition month_lengths :: "int \<Rightarrow> int list" where
  "month_lengths y = [31, if leap_year y then 29 else 28, 31, 30, 31, 30, 31, 31, 30, 31, 30, 31]"

fun month_of :: "int \<Rightarrow> int \<Rightarrow> int list \<Rightarrow> int \<times> int" where
  "month_of m day [] = (m, day + 1)"
| "month_of m day (n # ns) = (if day < n then (m, day + 1) else month_of (m + 1) (day - n) ns)"

definition date_of_days :: "int \<Rightarrow> int \<times> int \<times> int" where
  "date_of_days days =
     (let n400 = days div 146097; d400 = days mod 146097;
          n100 = min 3 (d400 div 36524); d100 = d400 - 36524 * n100;
          n4 = d100 div 1461; d4 = d100 mod 1461;
          n1 = min 3 (d4 div 365); day = d4 - 365 * n1;
          y = 1 + 400 * n400 + 100 * n100 + 4 * n4 + n1
      in (y, month_of 1 day (month_lengths y)))"

fun padded :: "nat \<Rightarrow> nat \<Rightarrow> string" where
  "padded 0 n = []"
| "padded (Suc w) n = padded w (n div 10) @ [char_of (48 + n mod 10)]"

definition fraction_text :: "nat \<Rightarrow> string" where
  "fraction_text nanos =
     (if nanos = 0 then [] else CHR ''.'' # rev (dropWhile (\<lambda>c. c = CHR ''0'') (rev (padded 9 nanos))))"

definition time_text :: "go_time \<Rightarrow> app_error + string" where
  "time_text t =
     (let seconds = tm_nanos t div 10 ^ 9; (y, m, d) = date_of_days (seconds div 86400); s = seconds mod 86400 in
      if y < 0 \<or> y > 9999 then Inl (Fault ''Time.MarshalJSON: year outside of range [0,9999]'')
      else Inr (padded 4 (nat y) @ ''-'' @ padded 2 (nat m) @ ''-'' @ padded 2 (nat d) @ ''T''
             @ padded 2 (nat (s div 3600)) @ '':'' @ padded 2 (nat (s mod 3600 div 60)) @ '':'' @ padded 2 (nat (s mod 60))
             @ fraction_text (nat (tm_nanos t mod 10 ^ 9)) @ ''Z''))"

definition json_plan :: "beacon_plan \<Rightarrow> json" where
  "json_plan p = JObj (member ''Provider'' (JStr (bp_provider p)) @ member ''Round'' (JStr (bp_round p)))"

definition json_hand_seat :: "hand_seat \<Rightarrow> json" where
  "json_hand_seat s = JObj (member ''Seat'' (json_word (hs_seat s)) @ member ''AccountID'' (JStr (hs_account s)))"

fun json_hand_payload :: "hand_payload \<Rightarrow> app_error + json" where
  "json_hand_payload (HandCreatedPayload mode rid seats key hash bound plan) =
     rbind (time_text bound) (\<lambda>t.
       Inr (JObj (member_unless (mode = []) ''fairnessMode'' (JStr mode) @ member ''RoomID'' (JStr rid)
         @ member ''Seats'' (JArr (map json_hand_seat seats)) @ member ''RevealKeyID'' (JStr key)
         @ member ''RevealPublicKeySHA256'' (json_array32 hash) @ member ''RevealKeyBoundAt'' (JStr t)
         @ member ''BeaconPlan'' (json_plan plan))))"
| "json_hand_payload (FairnessSeatPayload seat) = Inr (JObj (member ''Seat'' (json_word seat)))"
| "json_hand_payload (PublicBeaconPayload provider round ref) =
     Inr (JObj (member ''Provider'' (JStr provider) @ member ''Round'' (JStr round) @ member ''ProofRef'' (JStr ref)))"
| "json_hand_payload (HandPhasePayload from to) =
     Inr (JObj (member ''From'' (JStr (phase_text from)) @ member ''To'' (JStr (phase_text to))))"
| "json_hand_payload (HandTerminationPayload phase reason) =
     Inr (JObj (member ''Phase'' (JStr (phase_text phase)) @ member ''Reason'' (JStr reason)))"

fun marshal_payload :: "any_payload \<Rightarrow> app_error + bytes" where
  "marshal_payload (RoomPayload p) = Inr (json_print (json_room_payload p))"
| "marshal_payload (HandPayload p) = rbind (json_hand_payload p) (\<lambda>j. Inr (json_print j))"

section \<open>Commands and results\<close>

definition command_payload_domain :: string where
  "command_payload_domain = ''fair-doudizhu/command-payload/v1''"

text \<open>The payload of every command is a struct whose JSON text always exists.\<close>

definition bind_command_payload :: "app_command \<Rightarrow> json \<Rightarrow> app_command" where
  "bind_command_payload cmd payload =
     cmd\<lparr>ac_digest := sha256 (str_bytes command_payload_domain @ [0] @ str_bytes (ac_name cmd) @ [0] @ json_print payload)\<rparr>"

definition rejected_result :: "app_command \<Rightarrow> command_failure \<Rightarrow> u64 \<Rightarrow> command_result" where
  "rejected_result cmd failure version =
     \<lparr>cr_protocol = command_result_v1, cr_command = ac_id cmd, cr_accepted = False, cr_duplicate = False,
      cr_type = ac_type cmd, cr_aggregate = ac_aggregate cmd, cr_version = version, cr_events = [],
      cr_failure = Some failure\<rparr>"

text \<open>\<open>cloneResult\<close> copies what a value of the model cannot share.\<close>

definition clone_result :: "command_result \<Rightarrow> command_result" where "clone_result result = result"

definition same_command :: "app_command \<Rightarrow> app_command \<Rightarrow> bool" where
  "same_command left right \<longleftrightarrow>
     ac_protocol left = ac_protocol right \<and> ac_name left = ac_name right \<and> ac_id left = ac_id right \<and>
     ac_type left = ac_type right \<and> ac_aggregate left = ac_aggregate right \<and> ac_seq left = ac_seq right \<and>
     ac_expected left = ac_expected right \<and> ac_digest left = ac_digest right \<and>
     (ac_server_times right \<or>
      time_equal (ac_issued left) (ac_issued right) \<and> time_equal (ac_expires left) (ac_expires right))"

definition validate_command_identity ::
  "account_id \<Rightarrow> app_command \<Rightarrow> string \<Rightarrow> aggregate_type \<Rightarrow> bool \<Rightarrow> command_failure option" where
  "validate_command_identity actor cmd expected_name expected_type allow_zero =
     (let invalid = (\<lambda>text. Some (rejection code_invalid_command text)) in
      if trim_space actor = [] \<or> length actor > 128 then invalid ''authenticated actor is invalid''
      else if ac_protocol cmd \<noteq> command_protocol_v1 \<or> ac_name cmd \<noteq> expected_name \<or>
              ac_type cmd \<noteq> aggregate_text expected_type
      then invalid ''command protocol, name, or aggregate type is invalid''
      else if trim_space (ac_id cmd) = [] \<or> length (ac_id cmd) > 128 \<or>
              trim_space (ac_aggregate cmd) = [] \<or> length (ac_aggregate cmd) > 128
      then invalid ''command or aggregate ID is invalid''
      else if ac_seq cmd = 0 then invalid ''client sequence must be positive''
      else if \<not> allow_zero \<and> ac_expected cmd = 0 then invalid ''expected version must be positive''
      else if allow_zero \<and> ac_expected cmd \<noteq> 0 then invalid ''creation expected version must be zero''
      else None)"

definition validate_freshness :: "'s service \<Rightarrow> app_command \<Rightarrow> go_time \<Rightarrow> command_failure option" where
  "validate_freshness sv cmd now =
     (let invalid = (\<lambda>text. Some (rejection code_invalid_command text)) in
      if time_is_zero (ac_issued cmd) \<or> time_is_zero (ac_expires cmd) then invalid ''issued and expiry times are required''
      else if \<not> valid_millisecond_precision (ac_issued cmd) \<or> \<not> valid_millisecond_precision (ac_expires cmd)
      then invalid ''command times must use millisecond precision''
      else let issued = time_utc (ac_issued cmd); expires = time_utc (ac_expires cmd) in
        if \<not> time_after expires issued \<or> time_sub expires issued > cg_max_ttl (sv_config sv)
        then invalid ''command expiry policy is invalid''
        else if time_after issued (time_add now (cg_max_skew (sv_config sv))) \<or> time_after now expires
        then invalid ''command is expired or issued in the future''
        else None)"

section \<open>One command\<close>

record 's mutation_outcome =
  mu_version :: u64
  mu_events :: "any_payload event list"
  mu_rollback :: "('s, unit) call option"

type_synonym 's handler = "go_time \<Rightarrow> ('s, 's mutation_outcome) call"

fun build_outbox :: "'s service \<Rightarrow> account_id \<Rightarrow> app_command \<Rightarrow> any_payload event list \<Rightarrow> go_time \<Rightarrow>
    ('s, outbox_event list \<times> event_ref list) call" where
  "build_outbox sv actor cmd [] now = give ([], [])"
| "build_outbox sv actor cmd (e # es) now =
     and_then (wrap_infrastructure ''generate event ID'' (sv_new_id sv)) (\<lambda>eid.
     and_then (wrap_infrastructure ''marshal domain event'' (give_result (marshal_payload (ev_payload e)))) (\<lambda>payload.
     and_then (build_outbox sv actor cmd es now) (\<lambda>(outbox, refs).
       give (\<lparr>ob_id = eid, ob_protocol = event_protocol_v1, ob_name = ev_name e, ob_type = aggregate_text (ev_type e),
              ob_aggregate = ev_id e, ob_version = ev_version e, ob_occurred = now, ob_causation = ac_id cmd,
              ob_actor = actor, ob_payload = payload\<rparr> # outbox,
             \<lparr>er_type = aggregate_text (ev_type e), er_id = ev_id e, er_name = ev_name e, er_version = ev_version e\<rparr> # refs))))"

definition zero_result :: command_result where
  "zero_result = \<lparr>cr_protocol = [], cr_command = [], cr_accepted = False, cr_duplicate = False, cr_type = [],
     cr_aggregate = [], cr_version = 0, cr_events = [], cr_failure = None\<rparr>"

text \<open>The end of the body: nil or an error, the captured result, the captured rollback.\<close>

definition body_result :: "('s, unit) call \<Rightarrow> command_result \<Rightarrow> ('s, unit) call option \<Rightarrow> 's body" where
  "body_result m result rollback s =
     (case m s of
        (Inl e, s') \<Rightarrow> ((Some e, \<lparr>ck_result = result, ck_rollback = rollback\<rparr>), s')
      | (Inr _, s') \<Rightarrow> ((None, \<lparr>ck_result = result, ck_rollback = rollback\<rparr>), s'))"

definition accepted_result :: "app_command \<Rightarrow> u64 \<Rightarrow> event_ref list \<Rightarrow> command_result" where
  "accepted_result cmd version refs =
     \<lparr>cr_protocol = command_result_v1, cr_command = ac_id cmd, cr_accepted = True, cr_duplicate = False,
      cr_type = ac_type cmd, cr_aggregate = ac_aggregate cmd, cr_version = version, cr_events = refs,
      cr_failure = None\<rparr>"

text \<open>The handler succeeded: store its events, the sequence and the result.\<close>

definition store_outcome :: "'s service \<Rightarrow> account_id \<Rightarrow> app_command \<Rightarrow> go_time \<Rightarrow> 's mutation_outcome \<Rightarrow> 's body" where
  "store_outcome sv actor cmd now outcome s =
     (let tx = sx_transaction (sv_store sv) in
      case build_outbox sv actor cmd (mu_events outcome) now s of
        (Inl e, s') \<Rightarrow> body_result (fail_with e) zero_result (mu_rollback outcome) s'
      | (Inr (outbox, refs), s') \<Rightarrow>
          (let result = accepted_result cmd (mu_version outcome) refs in
           body_result
             (and_then (wrap_infrastructure ''append outbox events'' (tx_append_outbox tx outbox)) (\<lambda>_.
              and_then (wrap_infrastructure ''save client sequence''
                (tx_save_sequence tx (ac_type cmd) (ac_aggregate cmd) actor (ac_seq cmd) now)) (\<lambda>_.
                wrap_infrastructure ''complete command'' (tx_complete tx actor (ac_id cmd) result now))))
             result (mu_rollback outcome) s'))"

text \<open>The version of a rejection: the aggregate's, unless the failure names one.\<close>

definition rejection_version :: "app_error \<Rightarrow> command_failure \<Rightarrow> u64" where
  "rejection_version err failure =
     (case cf_version failure of
        Some v \<Rightarrow> v
      | None \<Rightarrow> (case err of Aggregate cause v \<Rightarrow> v | _ \<Rightarrow> 0))"

definition run_handler :: "'s service \<Rightarrow> account_id \<Rightarrow> app_command \<Rightarrow> go_time \<Rightarrow> 's handler \<Rightarrow> 's body" where
  "run_handler sv actor cmd now handler s =
     (let tx = sx_transaction (sv_store sv) in
      case handler now s of
        (Inr outcome, s') \<Rightarrow> store_outcome sv actor cmd now outcome s'
      | (Inl err, s') \<Rightarrow>
          (case map_business_error err of
             None \<Rightarrow> body_result (fail_with err) zero_result None s'
           | Some failure \<Rightarrow>
               let result = rejected_result cmd failure (rejection_version err failure) in
               body_result
                 (and_then (wrap_infrastructure ''save rejected command sequence''
                    (tx_save_sequence tx (ac_type cmd) (ac_aggregate cmd) actor (ac_seq cmd) now)) (\<lambda>_.
                  wrap_infrastructure ''complete rejected command'' (tx_complete tx actor (ac_id cmd) result now)))
                 result None s'))"

text \<open>The command is claimed and new: freshness, then the client sequence, then the handler.\<close>

definition run_claimed :: "'s service \<Rightarrow> account_id \<Rightarrow> app_command \<Rightarrow> go_time \<Rightarrow> 's handler \<Rightarrow> 's body" where
  "run_claimed sv actor cmd now handler s =
     (let tx = sx_transaction (sv_store sv) in
      case validate_freshness sv cmd now of
        Some failure \<Rightarrow>
          (let result = rejected_result cmd failure 0 in
           body_result (wrap_infrastructure ''complete rejected command'' (tx_complete tx actor (ac_id cmd) result now))
             result None s)
      | None \<Rightarrow>
          (case wrap_infrastructure ''lock client sequence''
                  (tx_lock_sequence tx (ac_type cmd) (ac_aggregate cmd) actor) s of
             (Inl e, s') \<Rightarrow> body_result (fail_with e) zero_result None s'
           | (Inr latest, s') \<Rightarrow>
               if ac_seq cmd \<le> latest then
                 (let result = rejected_result cmd (rejection code_sequence_conflict ''client sequence must increase'') 0 in
                  body_result (wrap_infrastructure ''complete sequence rejection''
                      (tx_complete tx actor (ac_id cmd) result now)) result None s')
               else run_handler sv actor cmd now handler s'))"

definition command_body :: "'s service \<Rightarrow> account_id \<Rightarrow> app_command \<Rightarrow> 's handler \<Rightarrow> 's body" where
  "command_body sv actor cmd handler s =
     (let tx = sx_transaction (sv_store sv); (clock, s0) = sv_clock sv s; now = time_utc clock in
      case wrap_infrastructure ''claim command'' (tx_claim tx actor cmd now) s0 of
        (Inl e, s1) \<Rightarrow> body_result (fail_with e) zero_result None s1
      | (Inr (stored, completed), s1) \<Rightarrow>
          if \<not> same_command (sd_command stored) cmd then
            body_result (give ())
              (rejected_result cmd (rejection code_conflict ''command ID is already bound to another request'')
                 (if completed then cr_version (sd_result stored) else 0)) None s1
          else if completed then
            body_result (give ()) ((clone_result (sd_result stored))\<lparr>cr_duplicate := True\<rparr>) None s1
          else run_claimed sv actor cmd now handler s1)"

text \<open>A failed transaction after a successful handler undoes the handler's in-memory change.\<close>

definition execute ::
  "'s service \<Rightarrow> account_id \<Rightarrow> app_command \<Rightarrow> string \<Rightarrow> aggregate_type \<Rightarrow> bool \<Rightarrow> json \<Rightarrow>
   's handler \<Rightarrow> ('s, command_result) call" where
  "execute sv actor unbound expected_name expected_type allow_zero payload handler s =
     (let cmd = bind_command_payload unbound payload in
      case validate_command_identity actor cmd expected_name expected_type allow_zero of
        Some failure \<Rightarrow> (Inr (rejected_result cmd failure 0), s)
      | None \<Rightarrow>
          (case sx_within (sv_store sv) actor (ac_id cmd) (command_body sv actor cmd handler) s of
             ((None, captured), s') \<Rightarrow> (Inr (ck_result captured), s')
           | ((Some err, captured), s') \<Rightarrow>
               (case ck_rollback captured of
                  None \<Rightarrow> (Inl err, s')
                | Some rollback \<Rightarrow>
                    (case rollback s' of
                       (Inr _, s'') \<Rightarrow> (Inl err, s'')
                     | (Inl e, s'') \<Rightarrow> (Inl (Joined err (Wrapped ''compensate in-memory mutation'' e)), s'')))))"

end
