(* ===== verification/App_Codec.thy ===== *)
theory App_Codec
  imports App_Service
begin

text \<open>
  \<open>application/drand_deadline.go\<close> and \<open>reveal_codec.go\<close>: the publication time of a committed public
  beacon round and the deadline it sets, the associated data that binds an encrypted reveal to its
  command, and the reveal's plaintext. The phrase normaliser is the service's.
\<close>

section \<open>The beacon's deadline\<close>

definition quicknet_genesis_time :: int where "quicknet_genesis_time = 1692803367"
definition quicknet_round_seconds :: int where "quicknet_round_seconds = 3"
definition drand_quicknet :: string where "drand_quicknet = ''drand-quicknet''"

text \<open>\<open>time.Unix(seconds, 0)\<close>.\<close>

definition time_unix :: "int \<Rightarrow> go_time" where
  "time_unix seconds = time_unix_epoch\<lparr>tm_nanos := tm_nanos time_unix_epoch + seconds * 10 ^ 9\<rparr>"

definition quicknet_round_publication :: "beacon_plan \<Rightarrow> app_error + go_time" where
  "quicknet_round_publication plan =
     (if bp_provider plan \<noteq> drand_quicknet then Inl (Core (Domain DmBeaconMismatch))
      else case parse_uint 64 (str_bytes (bp_round plan)) of
        None \<Rightarrow> Inl (Core (Domain DmBeaconMismatch))
      | Some n \<Rightarrow>
          if n = 0 \<or> n > 2 ^ 52 \<or> bytes_str (show_nat n) \<noteq> bp_round plan then Inl (Core (Domain DmBeaconMismatch))
          else Inr (time_unix (quicknet_genesis_time + int (n - 1) * quicknet_round_seconds)))"

definition check_contribution_deadline :: "beacon_plan \<Rightarrow> go_time \<Rightarrow> app_error + unit" where
  "check_contribution_deadline plan now =
     (if bp_provider plan \<noteq> drand_quicknet then Inr ()
      else rbind (quicknet_round_publication plan) (\<lambda>published.
        if \<not> time_after published (time_utc now) then Inl (Core (Domain DmBeaconMismatch)) else Inr ()))"

section \<open>Associated data\<close>

definition write_canonical_bytes :: "bytes \<Rightarrow> bytes" where
  "write_canonical_bytes value = put_u32 (word_of_nat (length value)) @ value"

definition write_canonical_string :: "string \<Rightarrow> bytes" where
  "write_canonical_string value = write_canonical_bytes (str_bytes value)"

definition write_canonical_u64 :: "u64 \<Rightarrow> bytes" where "write_canonical_u64 value = put_u64 value"

definition write_canonical_i64 :: "int \<Rightarrow> bytes" where
  "write_canonical_i64 value = write_canonical_u64 (word_of_int value)"

text \<open>\<open>Time.UnixMilli\<close>.\<close>

definition unix_milli :: "go_time \<Rightarrow> int" where
  "unix_milli t = (tm_nanos t - tm_nanos time_unix_epoch) div 10 ^ 6"

definition build_reveal_aad :: "app_command \<Rightarrow> account_id \<Rightarrow> seat \<Rightarrow> bytes \<Rightarrow> string \<Rightarrow> app_error + bytes" where
  "build_reveal_aad cmd actor seat commitment reveal_key =
     (if ac_name cmd \<noteq> name_hand_reveal \<or> ac_type cmd \<noteq> aggregate_text AggregateHand \<or> \<not> seat_valid seat
      then Inl (App AppRevealInvalid)
      else if trim_space reveal_key = [] \<or> length reveal_key > 128 then Inl (App AppRevealInvalid)
      else Inr (write_canonical_string reveal_aad_v1 @ write_canonical_string (ac_protocol cmd)
        @ write_canonical_string (ac_name cmd) @ write_canonical_string reveal_key
        @ write_canonical_string (ac_id cmd) @ write_canonical_string (ac_type cmd)
        @ write_canonical_string (ac_aggregate cmd) @ write_canonical_string actor @ [seat]
        @ write_canonical_u64 (ac_seq cmd) @ write_canonical_u64 (ac_expected cmd) @ commitment
        @ write_canonical_i64 (unix_milli (time_utc (ac_issued cmd)))
        @ write_canonical_i64 (unix_milli (time_utc (ac_expires cmd)))))"

definition build_custodied_aad :: "app_command \<Rightarrow> account_id \<Rightarrow> seat \<Rightarrow> string \<Rightarrow> app_error + bytes" where
  "build_custodied_aad cmd actor seat reveal_key =
     (if ac_name cmd \<noteq> name_hand_contribution \<or> ac_type cmd \<noteq> aggregate_text AggregateHand \<or> \<not> seat_valid seat
      then Inl (App AppRevealInvalid)
      else if trim_space reveal_key = [] \<or> length reveal_key > 128 then Inl (App AppRevealInvalid)
      else Inr (write_canonical_string custodied_aad_v1 @ write_canonical_string (ac_protocol cmd)
        @ write_canonical_string (ac_name cmd) @ write_canonical_string reveal_key
        @ write_canonical_string (ac_id cmd) @ write_canonical_string (ac_type cmd)
        @ write_canonical_string (ac_aggregate cmd) @ write_canonical_string actor @ [seat]
        @ write_canonical_u64 (ac_seq cmd) @ write_canonical_u64 (ac_expected cmd)
        @ write_canonical_i64 (unix_milli (time_utc (ac_issued cmd)))
        @ write_canonical_i64 (unix_milli (time_utc (ac_expires cmd)))))"

definition build_record_aad ::
  "string \<Rightarrow> hand_id \<Rightarrow> seat \<Rightarrow> account_id \<Rightarrow> string \<Rightarrow> bytes \<Rightarrow> app_error + bytes" where
  "build_record_aad record_id hid seat actor command_id digest =
     (if trim_space record_id = [] \<or> trim_space hid = [] \<or> trim_space actor = [] \<or> trim_space command_id = [] \<or>
         \<not> seat_valid seat
      then Inl (App AppProtectionFailed)
      else Inr (write_canonical_string record_aad_v1 @ write_canonical_string record_id @ write_canonical_string hid
        @ [seat] @ write_canonical_string actor @ write_canonical_string command_id @ digest))"

section \<open>The reveal's plaintext\<close>

definition reveal_normalization :: string where "reveal_normalization = ''NFKC-v1''"

record reveal_plaintext =
  vt_version :: string
  vt_hand :: string
  vt_seat :: u8
  vt_random :: string
  vt_phrase :: string
  vt_normalization :: string

definition reveal_fields :: "reveal_plaintext field list" where
  "reveal_fields =
     [field ''v'' decode_string vt_version (\<lambda>x. vt_version_update (\<lambda>_. x)),
      field ''handId'' decode_string vt_hand (\<lambda>x. vt_hand_update (\<lambda>_. x)),
      field ''seat'' decode_word vt_seat (\<lambda>x. vt_seat_update (\<lambda>_. x)),
      field ''secureRandom'' decode_string vt_random (\<lambda>x. vt_random_update (\<lambda>_. x)),
      field ''phrase'' decode_string vt_phrase (\<lambda>x. vt_phrase_update (\<lambda>_. x)),
      field ''normalization'' decode_string vt_normalization (\<lambda>x. vt_normalization_update (\<lambda>_. x))]"

definition zero_reveal :: reveal_plaintext where
  "zero_reveal = \<lparr>vt_version = [], vt_hand = [], vt_seat = 0, vt_random = [], vt_phrase = [], vt_normalization = []\<rparr>"

record decoded_reveal =
  vd_random :: bytes
  vd_phrase_hash :: bytes
  vd_digest :: bytes

text \<open>Strict decoding also wants the unused bits of the last character to be zero.\<close>

definition b64_decode_strict :: "bool \<Rightarrow> string \<Rightarrow> bytes option" where
  "b64_decode_strict url s =
     (case b64_decode url s of
        None \<Rightarrow> None
      | Some bs \<Rightarrow>
          if filter (\<lambda>c. c \<noteq> 0x0D \<and> c \<noteq> 0x0A) (str_bytes s) = b64_encode_bytes url bs then Some bs else None)"

definition write_hash_prefixed :: "bytes \<Rightarrow> bytes" where
  "write_hash_prefixed value = put_u32 (word_of_nat (length value)) @ value"

definition compute_contribution_digest :: "hand_id \<Rightarrow> seat \<Rightarrow> bytes \<Rightarrow> bytes \<Rightarrow> bytes" where
  "compute_contribution_digest hid seat random phrase_hash =
     sha256 (str_bytes contribution_v1 @ [0] @ write_hash_prefixed (str_bytes hid) @ [seat] @ random @ phrase_hash)"

definition decode_reveal_plaintext ::
  "bytes \<Rightarrow> hand_id \<Rightarrow> seat \<Rightarrow> (string \<Rightarrow> app_error + string) \<Rightarrow> int \<Rightarrow> app_error + decoded_reveal" where
  "decode_reveal_plaintext raw hid seat norm max_phrase =
     (let invalid = Inl (App AppRevealInvalid) in
      case Option.bind (json_parse raw) (\<lambda>j. decode_struct reveal_fields True j zero_reveal) of
        None \<Rightarrow> invalid
      | Some p \<Rightarrow>
          if vt_version p \<noteq> reveal_plaintext_v1 \<or> vt_hand p \<noteq> hid \<or> vt_seat p \<noteq> seat \<or>
             vt_normalization p \<noteq> reveal_normalization then invalid
          else if vt_phrase p = [] \<or> int (length (vt_phrase p)) > max_phrase then invalid
          else case b64_decode_strict True (vt_random p) of
            None \<Rightarrow> invalid
          | Some random \<Rightarrow>
              if length random \<noteq> 32 then invalid
              else case norm (vt_phrase p) of
                Inl e \<Rightarrow> invalid
              | Inr normalized \<Rightarrow>
                  if normalized = [] \<or> int (length normalized) > max_phrase * 4 then invalid
                  else let phrase_hash = sha256 (str_bytes normalized) in
                    Inr \<lparr>vd_random = random, vd_phrase_hash = phrase_hash,
                         vd_digest = compute_contribution_digest hid seat random phrase_hash\<rparr>)"

end
