(* ===== verification/App_Commands.thy ===== *)
theory App_Commands
  imports App_Codec
begin

text \<open>
  \<open>application/room_commands.go\<close>, \<open>hand_commands.go\<close> and \<open>hand_contribution.go\<close>: the durable commands
  of the service. Each is \<open>execute\<close> with a handler that loads and restores its aggregate, applies the
  domain's operation, and updates the row it loaded, at the version it loaded.
\<close>

section \<open>Rooms\<close>

text \<open>The JSON text of \<open>struct{}{}\<close>.\<close>

definition no_payload :: json where "no_payload = JObj []"

definition create_room_handler :: "'s service \<Rightarrow> account_id \<Rightarrow> app_command \<Rightarrow> 's handler" where
  "create_room_handler sv actor cmd now =
     and_then (domain_call (new_room (ac_aggregate cmd) actor)) (\<lambda>(room, events).
     let snapshot = room_snapshot_of room in
     and_then (tx_insert_room (sx_transaction (sv_store sv)) snapshot now) (\<lambda>_.
       give \<lparr>mu_version = rn_version snapshot, mu_events = map (any_event RoomPayload) events, mu_rollback = None\<rparr>))"

definition create_room :: "'s service \<Rightarrow> account_id \<Rightarrow> app_command \<Rightarrow> ('s, command_result) call" where
  "create_room sv actor cmd =
     execute sv actor cmd name_room_create AggregateRoom True no_payload (create_room_handler sv actor cmd)"

definition mutate_room_handler :: "'s service \<Rightarrow> app_command \<Rightarrow> (room \<Rightarrow> room_result) \<Rightarrow> 's handler" where
  "mutate_room_handler sv cmd mutation now =
     (let tx = sx_transaction (sv_store sv) in
      and_then (tx_load_room tx (ac_aggregate cmd)) (\<lambda>snapshot.
      and_then (wrap_infrastructure ''restore room snapshot'' (domain_call (restore_room snapshot))) (\<lambda>room.
      and_then (aggregate_call (rn_version snapshot) (domain_call (mutation room))) (\<lambda>(room', events).
      let updated = room_snapshot_of room' in
      and_then (tx_update_room tx updated (rn_version snapshot) now) (\<lambda>_.
        give \<lparr>mu_version = rn_version updated, mu_events = map (any_event RoomPayload) events, mu_rollback = None\<rparr>)))))"

definition mutate_room ::
  "'s service \<Rightarrow> account_id \<Rightarrow> app_command \<Rightarrow> string \<Rightarrow> json \<Rightarrow> (room \<Rightarrow> room_result) \<Rightarrow> ('s, command_result) call" where
  "mutate_room sv actor cmd name payload mutation =
     execute sv actor cmd name AggregateRoom False payload (mutate_room_handler sv cmd mutation)"

definition join_room :: "'s service \<Rightarrow> account_id \<Rightarrow> app_command \<Rightarrow> ('s, command_result) call" where
  "join_room sv actor cmd =
     mutate_room sv actor cmd name_room_join no_payload (\<lambda>room. join room actor (ac_expected cmd))"

definition leave_room :: "'s service \<Rightarrow> account_id \<Rightarrow> app_command \<Rightarrow> ('s, command_result) call" where
  "leave_room sv actor cmd =
     mutate_room sv actor cmd name_room_leave no_payload (\<lambda>room. leave room actor (ac_expected cmd))"

definition set_room_ready :: "'s service \<Rightarrow> account_id \<Rightarrow> app_command \<Rightarrow> bool \<Rightarrow> ('s, command_result) call" where
  "set_room_ready sv actor cmd ready =
     mutate_room sv actor cmd name_room_ready_set (JObj (member ''Ready'' (JBool ready)))
       (\<lambda>room. set_ready room actor ready (ac_expected cmd))"

section \<open>Starting a hand\<close>

record start_hand_input =
  hi_hand :: hand_id
  hi_mode :: string

definition json_start_hand :: "start_hand_input \<Rightarrow> json" where
  "json_start_hand input =
     JObj (member ''HandID'' (JStr (hi_hand input))
       @ member_unless (hi_mode input = []) ''fairnessMode'' (JStr (hi_mode input)))"

definition fail_after_preparation :: "'s service \<Rightarrow> hand_id \<Rightarrow> app_error \<Rightarrow> ('s, 'a) call" where
  "fail_after_preparation sv hid cause s =
     (case sp_release (sv_setups sv) hid s of
        (Inl e, s') \<Rightarrow> (Inl (Joined cause (Wrapped ''release prepared hand setup'' e)), s')
      | (Inr _, s') \<Rightarrow> (Inl cause, s'))"

definition construct_hand :: "start_hand_input \<Rightarrow> room_id \<Rightarrow> hand_seat list \<Rightarrow> hand_setup \<Rightarrow> hand_result" where
  "construct_hand input rid seats su =
     (let binding = \<lparr>rk_hash = hu_reveal_hash su, rk_bound_at = hu_bound_at su\<rparr> in
      if hi_mode input = fairness_mode_client_custodied
      then new_client_custodied_hand (hu_id su) rid seats (hu_commitment su) (hu_reveal_key su) (hu_plan su) binding
      else new_hand (hu_id su) rid seats (hu_commitment su) (hu_reveal_key su) (hu_plan su) [binding])"

text \<open>What follows the prepared setup; any error of it releases the setup.\<close>

definition install_hand ::
  "'s service \<Rightarrow> start_hand_input \<Rightarrow> room_snapshot \<Rightarrow> room \<Rightarrow> room_payload event list \<Rightarrow> hand_seat list \<Rightarrow>
   hand_setup \<Rightarrow> 's handler" where
  "install_hand sv input snapshot room room_events seats su now =
     (let tx = sx_transaction (sv_store sv) in
      and_then (guard (hu_id su \<noteq> hi_hand input \<or> hu_id su = []) (Wrapped ''prepare hand setup'' (App AppInvalidCommand))) (\<lambda>_.
      and_then (guard (hi_mode input = fairness_mode_client_custodied \<and> bp_provider (hu_plan su) \<noteq> drand_quicknet)
                  (App AppInvalidCommand)) (\<lambda>_.
      and_then (wrap_infrastructure ''construct prepared hand''
                  (domain_call (construct_hand input (rn_id snapshot) seats su))) (\<lambda>(hand, hand_events).
      and_then (tx_insert_hand tx (hand_snapshot_of hand) now) (\<lambda>_.
      and_then (tx_update_room tx (room_snapshot_of room) (rn_version snapshot) now) (\<lambda>_.
        give \<lparr>mu_version = rn_version (room_snapshot_of room),
              mu_events = map (any_event RoomPayload) room_events @ map (any_event HandPayload) hand_events,
              mu_rollback = Some (sp_release (sv_setups sv) (hi_hand input))\<rparr>))))))"

definition start_room_hand_handler :: "'s service \<Rightarrow> account_id \<Rightarrow> app_command \<Rightarrow> start_hand_input \<Rightarrow> 's handler" where
  "start_room_hand_handler sv actor cmd input now =
     (let tx = sx_transaction (sv_store sv) in
      and_then (tx_load_room tx (ac_aggregate cmd)) (\<lambda>snapshot.
      and_then (wrap_infrastructure ''restore room snapshot'' (domain_call (restore_room snapshot))) (\<lambda>room.
      and_then (aggregate_call (rn_version snapshot)
                  (domain_call (start_hand room actor (hi_hand input) (ac_expected cmd)))) (\<lambda>(room', room_events).
      and_then (wrap_infrastructure ''snapshot hand seats'' (domain_call (hand_seats room'))) (\<lambda>seats.
      and_then (wrap_infrastructure ''prepare hand setup'' (sp_prepare (sv_setups sv) snapshot (hi_hand input))) (\<lambda>su.
        or_else (install_hand sv input snapshot room' room_events seats su now)
          (fail_after_preparation sv (hi_hand input))))))))"

definition start_room_hand ::
  "'s service \<Rightarrow> account_id \<Rightarrow> app_command \<Rightarrow> start_hand_input \<Rightarrow> ('s, command_result) call" where
  "start_room_hand sv actor cmd input =
     (if hi_mode input \<noteq> [] \<and> hi_mode input \<noteq> fairness_mode_client_custodied then fail_with (App AppInvalidCommand)
      else execute sv actor cmd name_room_hand_start AggregateRoom False (json_start_hand input)
             (start_room_hand_handler sv actor cmd input))"

section \<open>Hands\<close>

text \<open>The mutation of a hand may read the clock.\<close>

definition mutate_hand_handler ::
  "'s service \<Rightarrow> app_command \<Rightarrow> (hand \<Rightarrow> ('s, hand \<times> hand_payload event list) call) \<Rightarrow> 's handler" where
  "mutate_hand_handler sv cmd mutation now =
     (let tx = sx_transaction (sv_store sv) in
      and_then (tx_load_hand tx (ac_aggregate cmd)) (\<lambda>snapshot.
      and_then (wrap_infrastructure ''restore hand snapshot'' (domain_call (restore_hand snapshot))) (\<lambda>hand.
      and_then (aggregate_call (hn_version snapshot) (mutation hand)) (\<lambda>(hand', events).
      let updated = hand_snapshot_of hand' in
      and_then (tx_update_hand tx updated (hn_version snapshot) now) (\<lambda>_.
        give \<lparr>mu_version = hn_version updated, mu_events = map (any_event HandPayload) events, mu_rollback = None\<rparr>)))))"

definition mutate_hand ::
  "'s service \<Rightarrow> account_id \<Rightarrow> app_command \<Rightarrow> string \<Rightarrow> json \<Rightarrow>
   (hand \<Rightarrow> ('s, hand \<times> hand_payload event list) call) \<Rightarrow> ('s, command_result) call" where
  "mutate_hand sv actor cmd name payload mutation =
     execute sv actor cmd name AggregateHand False payload (mutate_hand_handler sv cmd mutation)"

definition clock_now :: "'s service \<Rightarrow> ('s, go_time) call" where
  "clock_now sv s = (let (t, s') = sv_clock sv s in (Inr t, s'))"

definition submit_hand_commit ::
  "'s service \<Rightarrow> account_id \<Rightarrow> app_command \<Rightarrow> bytes \<Rightarrow> ('s, command_result) call" where
  "submit_hand_commit sv actor cmd commitment =
     mutate_hand sv actor cmd name_hand_commit (JObj (member ''Commitment'' (json_array32 commitment))) (\<lambda>hand.
       and_then (clock_now sv) (\<lambda>now.
       and_then (give_result (check_contribution_deadline (hn_plan (hand_snapshot_of hand)) now)) (\<lambda>_.
         domain_call (submit_commit hand actor commitment (ac_expected cmd)))))"

fun resolve_contribution :: "hand_seat list \<Rightarrow> contribution_snapshot list \<Rightarrow> account_id \<Rightarrow>
    app_error + seat \<times> contribution_snapshot" where
  "resolve_contribution [] contributions actor = Inl (Core (Domain DmNotSeated))"
| "resolve_contribution (s # ss) contributions actor =
     (if hs_account s = actor then
        (case find (\<lambda>c. cs_seat c = hs_seat s) contributions of
           Some c \<Rightarrow> Inr (hs_seat s, c)
         | None \<Rightarrow> Inl (App AppRevealInvalid))
      else resolve_contribution ss contributions actor)"

definition resolve_hand_contribution :: "hand_snapshot \<Rightarrow> account_id \<Rightarrow> app_error + seat \<times> contribution_snapshot" where
  "resolve_hand_contribution snapshot actor = resolve_contribution (hn_seats snapshot) (hn_contributions snapshot) actor"

text \<open>Opening the envelope; every error of the opener is \<open>ErrRevealInvalid\<close>.\<close>

definition open_reveal :: "'s service \<Rightarrow> hand_snapshot \<Rightarrow> secure_envelope \<Rightarrow> bytes \<Rightarrow> go_time \<Rightarrow> ('s, bytes) call" where
  "open_reveal sv snapshot envelope aad now =
     or_else (sv_open sv envelope aad
         \<lparr>kc_id = hn_reveal_key snapshot, kc_hash = hn_reveal_hash snapshot, kc_bound_at = hn_reveal_bound_at snapshot,
          kc_use_at = now\<rparr>)
       (\<lambda>_. fail_with (App AppRevealInvalid))"

text \<open>Sealing the plaintext under its record's associated data, and the record to insert.\<close>

definition seal_record ::
  "'s service \<Rightarrow> account_id \<Rightarrow> app_command \<Rightarrow> hand_snapshot \<Rightarrow> seat \<Rightarrow> bytes \<Rightarrow> decoded_reveal \<Rightarrow> string \<Rightarrow> go_time \<Rightarrow>
   ('s, contribution_record) call" where
  "seal_record sv actor cmd snapshot seat plaintext decoded record_id now =
     and_then (give_result (build_record_aad record_id (hn_id snapshot) seat actor (ac_id cmd) (vd_digest decoded))) (\<lambda>aad.
     and_then (or_else (pt_seal (sv_protector sv) plaintext aad) (\<lambda>_. fail_with (App AppProtectionFailed))) (\<lambda>p.
     and_then (guard (pp_key p = [] \<or> pp_nonce p = [] \<or> pp_ciphertext p = [] \<or> pp_aad_digest p \<noteq> sha256 aad)
                 (App AppProtectionFailed)) (\<lambda>_.
       give \<lparr>pr_id = record_id, pr_hand = hn_id snapshot, pr_seat = seat, pr_actor = actor, pr_command = ac_id cmd,
             pr_digest = vd_digest decoded, pr_key = pp_key p, pr_nonce = pp_nonce p,
             pr_ciphertext = pp_ciphertext p, pr_aad_digest = pp_aad_digest p, pr_created = now\<rparr>)))"

definition json_envelope :: "secure_envelope \<Rightarrow> json" where
  "json_envelope e =
     JObj (member ''Version'' (JStr (se_version e)) @ member ''KeyID'' (JStr (se_key e)) @ member ''Suite'' (JStr (se_suite e))
       @ member ''EncapsulatedKey'' (JStr (se_encapsulated e)) @ member ''Ciphertext'' (JStr (se_ciphertext e)))"

text \<open>
  The steps that a reveal and a one-shot contribution share once the associated data is known: open,
  decode, apply \<open>submit\<close> to the hand, seal, insert the record, update the hand.
\<close>

definition store_reveal ::
  "'s service \<Rightarrow> account_id \<Rightarrow> app_command \<Rightarrow> hand_snapshot \<Rightarrow> seat \<Rightarrow> secure_envelope \<Rightarrow> bytes \<Rightarrow>
   (bytes \<Rightarrow> string \<Rightarrow> hand_result) \<Rightarrow> string \<Rightarrow> 's handler" where
  "store_reveal sv actor cmd snapshot seat envelope aad submit operation now =
     (let tx = sx_transaction (sv_store sv) in
      and_then (aggregate_call (hn_version snapshot) (open_reveal sv snapshot envelope aad now)) (\<lambda>plaintext.
      and_then (aggregate_call (hn_version snapshot) (give_result
          (decode_reveal_plaintext plaintext (hn_id snapshot) seat (sv_normalize sv) (cg_max_phrase (sv_config sv))))) (\<lambda>decoded.
      and_then (wrap_infrastructure operation (sv_new_id sv)) (\<lambda>record_id.
      and_then (aggregate_call (hn_version snapshot) (domain_call (submit (vd_digest decoded) record_id))) (\<lambda>(hand', events).
      and_then (seal_record sv actor cmd snapshot seat plaintext decoded record_id now) (\<lambda>record.
      and_then (tx_insert_record tx record) (\<lambda>_.
      let updated = hand_snapshot_of hand' in
      and_then (tx_update_hand tx updated (hn_version snapshot) now) (\<lambda>_.
        give \<lparr>mu_version = hn_version updated, mu_events = map (any_event HandPayload) events, mu_rollback = None\<rparr>))))))))"

definition submit_reveal_handler :: "'s service \<Rightarrow> account_id \<Rightarrow> app_command \<Rightarrow> secure_envelope \<Rightarrow> 's handler" where
  "submit_reveal_handler sv actor cmd envelope now =
     (let tx = sx_transaction (sv_store sv) in
      and_then (tx_load_hand tx (ac_aggregate cmd)) (\<lambda>snapshot.
      and_then (wrap_infrastructure ''restore hand snapshot'' (domain_call (restore_hand snapshot))) (\<lambda>hand.
      and_then (aggregate_call (hn_version snapshot)
          (give_result (rbind (check_contribution_deadline (hn_plan snapshot) now) (\<lambda>_.
            rbind (resolve_hand_contribution snapshot actor) (\<lambda>(seat, c).
              if se_key envelope \<noteq> hn_reveal_key snapshot then Inl (App AppRevealInvalid)
              else rbind (build_reveal_aad cmd actor seat (cs_commitment c) (hn_reveal_key snapshot)) (\<lambda>aad.
                Inr (seat, aad))))))) (\<lambda>(seat, aad).
        store_reveal sv actor cmd snapshot seat envelope aad
          (\<lambda>digest record_id. submit_reveal hand actor digest record_id (ac_expected cmd))
          ''generate contribution record ID'' now))))"

definition submit_hand_reveal ::
  "'s service \<Rightarrow> account_id \<Rightarrow> app_command \<Rightarrow> secure_envelope \<Rightarrow> ('s, command_result) call" where
  "submit_hand_reveal sv actor cmd envelope =
     execute sv actor cmd name_hand_reveal AggregateHand False (JObj (member ''Envelope'' (json_envelope envelope)))
       (submit_reveal_handler sv actor cmd envelope)"

text \<open>\<open>SubmitHandContribution\<close> checks the mode before it restores the hand.\<close>

definition contribution_handler :: "'s service \<Rightarrow> account_id \<Rightarrow> app_command \<Rightarrow> secure_envelope \<Rightarrow> 's handler" where
  "contribution_handler sv actor cmd envelope now =
     (let tx = sx_transaction (sv_store sv) in
      and_then (tx_load_hand tx (ac_aggregate cmd)) (\<lambda>snapshot.
      and_then (guard (hn_mode snapshot \<noteq> fairness_mode_client_custodied)
                  (Aggregate (Core (Domain DmWrongPhase)) (hn_version snapshot))) (\<lambda>_.
      and_then (wrap_infrastructure ''restore custodied hand'' (domain_call (restore_hand snapshot))) (\<lambda>hand.
      and_then (aggregate_call (hn_version snapshot)
          (give_result (rbind (check_contribution_deadline (hn_plan snapshot) now) (\<lambda>_.
            rbind (resolve_hand_contribution snapshot actor) (\<lambda>(seat, own).
              if hn_phase snapshot \<noteq> HandFairnessCommitting \<or> cs_committed own \<or> cs_revealed own
              then Inl (Core (Domain DmWrongPhase))
              else if se_key envelope \<noteq> hn_reveal_key snapshot then Inl (App AppRevealInvalid)
              else rbind (build_custodied_aad cmd actor seat (hn_reveal_key snapshot)) (\<lambda>aad.
                Inr (seat, aad))))))) (\<lambda>(seat, aad).
        store_reveal sv actor cmd snapshot seat envelope aad
          (\<lambda>digest record_id. submit_custodied (Some hand) actor digest record_id (ac_expected cmd))
          ''new protected record ID'' now)))))"

definition submit_hand_contribution ::
  "'s service \<Rightarrow> account_id \<Rightarrow> app_command \<Rightarrow> secure_envelope \<Rightarrow> ('s, command_result) call" where
  "submit_hand_contribution sv actor cmd envelope =
     execute sv actor cmd name_hand_contribution AggregateHand False (JObj (member ''Envelope'' (json_envelope envelope)))
       (contribution_handler sv actor cmd envelope)"

definition json_beacon_value :: "beacon_value \<Rightarrow> json" where
  "json_beacon_value v =
     JObj (member ''Provider'' (JStr (bv_provider v)) @ member ''Round'' (JStr (bv_round v))
       @ member ''Digest'' (json_array32 (bv_digest v)) @ member ''ProofRef'' (JStr (bv_proof_ref v)))"

definition beacon_handler :: "'s service \<Rightarrow> app_command \<Rightarrow> beacon_value \<Rightarrow> 's handler" where
  "beacon_handler sv cmd v now =
     (let tx = sx_transaction (sv_store sv) in
      and_then (tx_load_hand tx (ac_aggregate cmd)) (\<lambda>snapshot.
      and_then (wrap_infrastructure ''restore hand snapshot'' (domain_call (restore_hand snapshot))) (\<lambda>hand.
      and_then (aggregate_call (hn_version snapshot) (sv_verify_beacon sv (hn_plan snapshot) v)) (\<lambda>verified.
      and_then (aggregate_call (hn_version snapshot)
                  (domain_call (lock_public_beacon hand verified (ac_expected cmd)))) (\<lambda>(hand', events).
      let updated = hand_snapshot_of hand' in
      and_then (tx_update_hand tx updated (hn_version snapshot) now) (\<lambda>_.
        give \<lparr>mu_version = hn_version updated, mu_events = map (any_event HandPayload) events, mu_rollback = None\<rparr>))))))"

definition lock_hand_beacon ::
  "'s service \<Rightarrow> account_id \<Rightarrow> app_command \<Rightarrow> beacon_value \<Rightarrow> ('s, command_result) call" where
  "lock_hand_beacon sv actor cmd v =
     execute sv actor cmd name_hand_beacon_lock AggregateHand False (JObj (member ''Value'' (json_beacon_value v)))
       (beacon_handler sv cmd v)"

text \<open>A failed update stops the live hand that was started.\<close>

definition undo_start :: "'s service \<Rightarrow> hand_id \<Rightarrow> app_error \<Rightarrow> ('s, 'a) call" where
  "undo_start sv hid err s =
     (case lr_rollback_start (sv_live sv) hid s of
        (Inl e, s') \<Rightarrow> (Inl (Joined err (Wrapped ''rollback deterministic live hand'' e)), s')
      | (Inr _, s') \<Rightarrow> (Inl err, s'))"

definition dealt_handler :: "'s service \<Rightarrow> app_command \<Rightarrow> 's handler" where
  "dealt_handler sv cmd now =
     (let tx = sx_transaction (sv_store sv) in
      and_then (tx_load_hand tx (ac_aggregate cmd)) (\<lambda>snapshot.
      and_then (wrap_infrastructure ''restore hand snapshot'' (domain_call (restore_hand snapshot))) (\<lambda>hand.
      and_then (aggregate_call (hn_version snapshot) (domain_call (mark_dealt hand (ac_expected cmd)))) (\<lambda>(hand', events).
      and_then (wrap_infrastructure ''start deterministic live hand'' (lr_start (sv_live sv) snapshot)) (\<lambda>_.
      let updated = hand_snapshot_of hand' in
      and_then (or_else (tx_update_hand tx updated (hn_version snapshot) now) (undo_start sv (hn_id snapshot))) (\<lambda>_.
        give \<lparr>mu_version = hn_version updated, mu_events = map (any_event HandPayload) events,
              mu_rollback = Some (lr_rollback_start (sv_live sv) (hn_id snapshot))\<rparr>))))))"

definition mark_hand_dealt :: "'s service \<Rightarrow> account_id \<Rightarrow> app_command \<Rightarrow> ('s, command_result) call" where
  "mark_hand_dealt sv actor cmd =
     execute sv actor cmd name_hand_dealt AggregateHand False no_payload (dealt_handler sv cmd)"

definition start_hand_playing :: "'s service \<Rightarrow> account_id \<Rightarrow> app_command \<Rightarrow> ('s, command_result) call" where
  "start_hand_playing sv actor cmd =
     mutate_hand sv actor cmd name_hand_play_start no_payload (\<lambda>hand. domain_call (start_playing hand (ac_expected cmd)))"

definition start_hand_settlement :: "'s service \<Rightarrow> account_id \<Rightarrow> app_command \<Rightarrow> ('s, command_result) call" where
  "start_hand_settlement sv actor cmd =
     mutate_hand sv actor cmd name_hand_settlement no_payload (\<lambda>hand. domain_call (start_settling hand (ac_expected cmd)))"

section \<open>Ending a hand\<close>

record terminate_input =
  ni_reason :: string
  ni_live_version :: u64

definition json_terminate :: "terminate_input \<Rightarrow> json" where
  "json_terminate input =
     JObj (member ''ReasonCode'' (JStr (ni_reason input))
       @ member_unless (ni_live_version input = 0) ''expectedLiveVersion'' (json_word (ni_live_version input)))"

text \<open>
  An expiry with a watermark, on a durable runtime: the writer row is locked, a live action committed
  after the watermark refuses the expiry, and otherwise the writer's epoch is advanced.
\<close>

definition fence_expiry :: "'s service \<Rightarrow> string \<Rightarrow> terminate_input option \<Rightarrow> hand_id \<Rightarrow> ('s, unit) call" where
  "fence_expiry sv name input hid =
     (case input of
        Some i \<Rightarrow>
          if name = name_hand_expire \<and> ni_live_version i \<noteq> 0 \<and> lr_durability (sv_live sv) = Some True then
            (case tx_live_guard (sx_transaction (sv_store sv)) of
               None \<Rightarrow> fail_with (Fault ''live writer lock unavailable for expiry'')
             | Some g \<Rightarrow>
                 and_then (wrap_infrastructure ''lock live writer for expiry'' (lk_lock_version g hid)) (\<lambda>committed.
                 and_then (guard (committed > ni_live_version i) (App AppLiveProgressed)) (\<lambda>_.
                   wrap_infrastructure ''fence live writer on expiry'' (lk_fence_writer g hid))))
          else give ()
      | None \<Rightarrow> give ())"

definition archive_available :: "hand_phase \<Rightarrow> hand_phase \<Rightarrow> bool" where
  "archive_available before after \<longleftrightarrow> after = HandCompleted \<or> before = HandBidding \<or> before = HandPlaying \<or> before = HandSettling"

definition terminate_handler ::
  "'s service \<Rightarrow> app_command \<Rightarrow> string \<Rightarrow> terminate_input option \<Rightarrow> (hand \<Rightarrow> hand_result) \<Rightarrow> 's handler" where
  "terminate_handler sv cmd name input mutation now =
     (let tx = sx_transaction (sv_store sv) in
      and_then (tx_load_hand tx (ac_aggregate cmd)) (\<lambda>snapshot.
      and_then (wrap_infrastructure ''restore hand snapshot'' (domain_call (restore_hand snapshot))) (\<lambda>hand.
      and_then (aggregate_call (hn_version snapshot) (domain_call (mutation hand))) (\<lambda>(hand', hand_events).
      let updated = hand_snapshot_of hand' in
      and_then (guard (\<not> phase_terminal (hn_phase updated)) (Wrapped ''terminate hand'' (Fault ''non-terminal result''))) (\<lambda>_.
      and_then (tx_load_room tx (hn_room snapshot)) (\<lambda>room_snapshot.
      and_then (wrap_infrastructure ''restore room snapshot'' (domain_call (restore_room room_snapshot))) (\<lambda>room.
      and_then (wrap_infrastructure ''release terminal hand room'' (domain_call
          (finish_hand room (hn_id snapshot) (rn_version room_snapshot)
             [archive_available (hn_phase snapshot) (hn_phase updated)]))) (\<lambda>(room', room_events).
      and_then (fence_expiry sv name input (hn_id snapshot)) (\<lambda>_.
      and_then (tx_update_hand tx updated (hn_version snapshot) now) (\<lambda>_.
      and_then (tx_update_room tx (room_snapshot_of room') (rn_version room_snapshot) now) (\<lambda>_.
        give \<lparr>mu_version = hn_version updated,
              mu_events = map (any_event HandPayload) hand_events @ map (any_event RoomPayload) room_events,
              mu_rollback = None\<rparr>)))))))))))"

definition terminate_hand ::
  "'s service \<Rightarrow> account_id \<Rightarrow> app_command \<Rightarrow> string \<Rightarrow> json \<Rightarrow> terminate_input option \<Rightarrow> (hand \<Rightarrow> hand_result) \<Rightarrow>
   ('s, command_result) call" where
  "terminate_hand sv actor cmd name payload input mutation =
     execute sv actor cmd name AggregateHand False payload (terminate_handler sv cmd name input mutation)"

definition complete_hand_command :: "'s service \<Rightarrow> account_id \<Rightarrow> app_command \<Rightarrow> ('s, command_result) call" where
  "complete_hand_command sv actor cmd =
     terminate_hand sv actor cmd name_hand_complete no_payload None (\<lambda>hand. complete_hand hand (ac_expected cmd))"

text \<open>The last step of an ended hand returns its result together with an error, if it has one.\<close>

type_synonym 's finalized = "'s \<Rightarrow> (app_error option \<times> command_result) \<times> 's"

definition finalize_terminated_runtime ::
  "'s service \<Rightarrow> hand_id \<Rightarrow> string \<Rightarrow> ('s, command_result) call \<Rightarrow> 's finalized" where
  "finalize_terminated_runtime sv hid reason m s =
     (case m s of
        (Inl e, s') \<Rightarrow> ((Some e, zero_result), s')
      | (Inr result, s') \<Rightarrow>
          if \<not> cr_accepted result then ((None, result), s')
          else
            (case (if lr_contains (sv_live sv) hid s'
                   then wrap_infrastructure ''archive terminal live hand'' (lr_abort (sv_live sv) hid reason) s'
                   else wrap_infrastructure ''release terminal prepared hand'' (lr_release_prepared (sv_live sv) hid) s') of
               (Inl e, s'') \<Rightarrow> ((Some e, result), s'')
             | (Inr _, s'') \<Rightarrow> ((None, result), s'')))"

definition cancel_hand_command :: "'s service \<Rightarrow> account_id \<Rightarrow> app_command \<Rightarrow> terminate_input \<Rightarrow> 's finalized" where
  "cancel_hand_command sv actor cmd input =
     finalize_terminated_runtime sv (ac_aggregate cmd) (ni_reason input)
       (terminate_hand sv actor cmd name_hand_cancel (json_terminate input) (Some input)
         (\<lambda>hand. cancel_hand hand (ni_reason input) (ac_expected cmd)))"

definition abort_hand_command :: "'s service \<Rightarrow> account_id \<Rightarrow> app_command \<Rightarrow> terminate_input \<Rightarrow> 's finalized" where
  "abort_hand_command sv actor cmd input =
     finalize_terminated_runtime sv (ac_aggregate cmd) (ni_reason input)
       (terminate_hand sv actor cmd name_hand_abort (json_terminate input) (Some input)
         (\<lambda>hand. abort_hand hand (ni_reason input) (ac_expected cmd)))"

definition expire_hand_command :: "'s service \<Rightarrow> account_id \<Rightarrow> app_command \<Rightarrow> terminate_input \<Rightarrow> 's finalized" where
  "expire_hand_command sv actor cmd input =
     finalize_terminated_runtime sv (ac_aggregate cmd) (ni_reason input)
       (terminate_hand sv actor cmd name_hand_expire (json_terminate input) (Some input)
         (\<lambda>hand. expire_hand hand (ni_reason input) (ac_expected cmd)))"

end
