(* ===== verification/App_Live.thy ===== *)
theory App_Live
  imports App_Commands Bidding
begin

text \<open>
  \<open>application/hand_queries.go\<close>, \<open>hand_bidding.go\<close> and \<open>hand_playing.go\<close>: the views of a live hand and
  the submission of a bid, a play or a pass. A command with an identifier is first looked up among the
  committed receipts, before any guard on the current phase.
\<close>

section \<open>Who may look\<close>

definition authorize_hand_viewer :: "'s service \<Rightarrow> account_id \<Rightarrow> hand_id \<Rightarrow> ('s, hand_snapshot) call" where
  "authorize_hand_viewer sv actor hid =
     and_then (guard (trim_space actor = [] \<or> length actor > 128 \<or> trim_space hid = [] \<or> length hid > 128)
                 (App AppInvalidCommand)) (\<lambda>_.
     and_then (sx_load_hand (sv_store sv) hid) (\<lambda>snapshot.
       if list_ex (\<lambda>s. hs_account s = actor) (hn_seats snapshot) then give snapshot
       else fail_with (Core (Domain DmNotSeated))))"

definition get_hand_public_view :: "'s service \<Rightarrow> account_id \<Rightarrow> hand_id \<Rightarrow> ('s, u64 \<times> bytes) call" where
  "get_hand_public_view sv actor hid =
     and_then (authorize_hand_viewer sv actor hid) (\<lambda>snapshot. lr_public_view (sv_live sv) (hn_id snapshot) actor)"

definition get_hand_private_view :: "'s service \<Rightarrow> account_id \<Rightarrow> hand_id \<Rightarrow> ('s, u64 \<times> bytes) call" where
  "get_hand_private_view sv actor hid =
     and_then (authorize_hand_viewer sv actor hid) (\<lambda>snapshot. lr_private_view (sv_live sv) (hn_id snapshot) actor)"

section \<open>Dispatch\<close>

text \<open>A receipt, when the command has an identifier and the runtime keeps receipts.\<close>

definition find_receipt ::
  "'s service \<Rightarrow> string \<Rightarrow> ('s receipt_reader \<Rightarrow> ('s, live_result option) call) \<Rightarrow> ('s, live_result option) call" where
  "find_receipt sv command_id lookup =
     (if command_id = [] then give None
      else case lr_receipts (sv_live sv) of None \<Rightarrow> give None | Some r \<Rightarrow> lookup r)"

text \<open>The choice between the sequenced, the committed and the plain operation of the runtime.\<close>

definition dispatch_live ::
  "'s service \<Rightarrow> string \<Rightarrow> u64 \<Rightarrow> ('s sequenced_runtime \<Rightarrow> ('s, live_result) call) \<Rightarrow>
   ('s, live_result) call option \<Rightarrow> ('s, live_result) call \<Rightarrow> ('s, live_result) call" where
  "dispatch_live sv command_id seq sequenced committed plain =
     (if seq \<noteq> 0 then
        (case lr_sequenced (sv_live sv) of Some q \<Rightarrow> sequenced q | None \<Rightarrow> fail_with (App AppInvalidCommand))
      else case committed of
        None \<Rightarrow> plain
      | Some durable \<Rightarrow>
          if command_id = [] then
            (if lr_durability (sv_live sv) = Some True then fail_with (App AppInvalidCommand) else plain)
          else durable)"

text \<open>Receipt first, then the phase, then the runtime.\<close>

definition receipt_or_run ::
  "('s, live_result option) call \<Rightarrow> bool \<Rightarrow> ('s, live_result) call \<Rightarrow> ('s, live_result) call" where
  "receipt_or_run receipt phase_allowed run =
     and_then receipt (\<lambda>found.
       case found of
         Some result \<Rightarrow> give (result\<lparr>lv_historical := True\<rparr>)
       | None \<Rightarrow> if \<not> phase_allowed then fail_with (Core (Domain DmWrongPhase)) else run)"

section \<open>Bids\<close>

definition submit_live_bid ::
  "'s service \<Rightarrow> account_id \<Rightarrow> hand_id \<Rightarrow> string \<Rightarrow> u64 \<Rightarrow> score \<Rightarrow> u64 \<Rightarrow> ('s, live_result) call" where
  "submit_live_bid sv actor hid command_id expected score seq =
     and_then (authorize_hand_viewer sv actor hid) (\<lambda>snapshot.
     and_then (guard (expected = 0 \<or> \<not> score_valid score) (App AppInvalidCommand)) (\<lambda>_.
       receipt_or_run
         (find_receipt sv command_id (\<lambda>r. rr_bid r (hn_id snapshot) actor command_id expected score seq))
         (hn_phase snapshot = HandBidding)
         (dispatch_live sv command_id seq
            (\<lambda>q. sq_bid q (hn_id snapshot) actor command_id expected score seq)
            (map_option (\<lambda>f. f (hn_id snapshot) actor command_id expected score) (lr_bid_committed (sv_live sv)))
            (lr_bid (sv_live sv) (hn_id snapshot) actor expected score))))"

definition submit_live_hand_bid_with_id ::
  "'s service \<Rightarrow> account_id \<Rightarrow> hand_id \<Rightarrow> string \<Rightarrow> u64 \<Rightarrow> score \<Rightarrow> ('s, live_result) call" where
  "submit_live_hand_bid_with_id sv actor hid command_id expected score =
     submit_live_bid sv actor hid command_id expected score 0"

definition submit_live_hand_bid ::
  "'s service \<Rightarrow> account_id \<Rightarrow> hand_id \<Rightarrow> u64 \<Rightarrow> score \<Rightarrow> ('s, live_result) call" where
  "submit_live_hand_bid sv actor hid expected score = submit_live_bid sv actor hid [] expected score 0"

definition submit_live_hand_bid_with_sequence ::
  "'s service \<Rightarrow> account_id \<Rightarrow> hand_id \<Rightarrow> string \<Rightarrow> u64 \<Rightarrow> score \<Rightarrow> u64 \<Rightarrow> ('s, live_result) call" where
  "submit_live_hand_bid_with_sequence sv actor hid command_id expected score seq =
     (if seq = 0 \<or> command_id = [] then fail_with (App AppInvalidCommand)
      else submit_live_bid sv actor hid command_id expected score seq)"

section \<open>Plays and passes\<close>

definition live_cards_ok :: "string list \<Rightarrow> bool" where
  "live_cards_ok cards \<longleftrightarrow> list_all (\<lambda>code. trim_space code \<noteq> [] \<and> length code \<le> 3) cards"

definition bidding_or_playing :: "hand_phase \<Rightarrow> bool" where
  "bidding_or_playing p \<longleftrightarrow> p = HandBidding \<or> p = HandPlaying"

definition submit_live_play ::
  "'s service \<Rightarrow> account_id \<Rightarrow> hand_id \<Rightarrow> string \<Rightarrow> u64 \<Rightarrow> string list \<Rightarrow> u64 \<Rightarrow> ('s, live_result) call" where
  "submit_live_play sv actor hid command_id expected cards seq =
     and_then (authorize_hand_viewer sv actor hid) (\<lambda>snapshot.
     and_then (guard (expected = 0 \<or> cards = [] \<or> length cards > 20) (App AppInvalidCommand)) (\<lambda>_.
     and_then (guard (\<not> live_cards_ok cards) (App AppInvalidCommand)) (\<lambda>_.
       receipt_or_run
         (find_receipt sv command_id (\<lambda>r. rr_play r (hn_id snapshot) actor command_id expected cards seq))
         (bidding_or_playing (hn_phase snapshot))
         (dispatch_live sv command_id seq
            (\<lambda>q. sq_play q (hn_id snapshot) actor command_id expected cards seq)
            (map_option (\<lambda>f. f (hn_id snapshot) actor command_id expected cards) (lr_play_committed (sv_live sv)))
            (lr_play (sv_live sv) (hn_id snapshot) actor expected cards)))))"

definition submit_live_pass ::
  "'s service \<Rightarrow> account_id \<Rightarrow> hand_id \<Rightarrow> string \<Rightarrow> u64 \<Rightarrow> u64 \<Rightarrow> ('s, live_result) call" where
  "submit_live_pass sv actor hid command_id expected seq =
     and_then (authorize_hand_viewer sv actor hid) (\<lambda>snapshot.
     and_then (guard (expected = 0) (App AppInvalidCommand)) (\<lambda>_.
       receipt_or_run
         (find_receipt sv command_id (\<lambda>r. rr_pass r (hn_id snapshot) actor command_id expected seq))
         (bidding_or_playing (hn_phase snapshot))
         (dispatch_live sv command_id seq
            (\<lambda>q. sq_pass q (hn_id snapshot) actor command_id expected seq)
            (map_option (\<lambda>f. f (hn_id snapshot) actor command_id expected) (lr_pass_committed (sv_live sv)))
            (lr_pass (sv_live sv) (hn_id snapshot) actor expected))))"

definition submit_live_hand_play_with_id ::
  "'s service \<Rightarrow> account_id \<Rightarrow> hand_id \<Rightarrow> string \<Rightarrow> u64 \<Rightarrow> string list \<Rightarrow> ('s, live_result) call" where
  "submit_live_hand_play_with_id sv actor hid command_id expected cards =
     submit_live_play sv actor hid command_id expected cards 0"

definition submit_live_hand_pass_with_id ::
  "'s service \<Rightarrow> account_id \<Rightarrow> hand_id \<Rightarrow> string \<Rightarrow> u64 \<Rightarrow> ('s, live_result) call" where
  "submit_live_hand_pass_with_id sv actor hid command_id expected = submit_live_pass sv actor hid command_id expected 0"

definition submit_live_hand_play ::
  "'s service \<Rightarrow> account_id \<Rightarrow> hand_id \<Rightarrow> u64 \<Rightarrow> string list \<Rightarrow> ('s, live_result) call" where
  "submit_live_hand_play sv actor hid expected cards = submit_live_play sv actor hid [] expected cards 0"

definition submit_live_hand_pass :: "'s service \<Rightarrow> account_id \<Rightarrow> hand_id \<Rightarrow> u64 \<Rightarrow> ('s, live_result) call" where
  "submit_live_hand_pass sv actor hid expected = submit_live_pass sv actor hid [] expected 0"

definition submit_live_hand_play_with_sequence ::
  "'s service \<Rightarrow> account_id \<Rightarrow> hand_id \<Rightarrow> string \<Rightarrow> u64 \<Rightarrow> string list \<Rightarrow> u64 \<Rightarrow> ('s, live_result) call" where
  "submit_live_hand_play_with_sequence sv actor hid command_id expected cards seq =
     (if seq = 0 \<or> command_id = [] then fail_with (App AppInvalidCommand)
      else submit_live_play sv actor hid command_id expected cards seq)"

definition submit_live_hand_pass_with_sequence ::
  "'s service \<Rightarrow> account_id \<Rightarrow> hand_id \<Rightarrow> string \<Rightarrow> u64 \<Rightarrow> u64 \<Rightarrow> ('s, live_result) call" where
  "submit_live_hand_pass_with_sequence sv actor hid command_id expected seq =
     (if seq = 0 \<or> command_id = [] then fail_with (App AppInvalidCommand)
      else submit_live_pass sv actor hid command_id expected seq)"

end
