(* ===== verification/App_Queries.thy ===== *)
theory App_Queries
  imports App_Commands Final_Evidence
begin

text \<open>
  The read side of the application: \<open>application/room_queries.go\<close>, \<open>fairness_view.go\<close>,
  \<open>reveal_binding.go\<close>, \<open>contribution_verification.go\<close> and \<open>final_evidence.go\<close>. Every query decides first
  what its actor may see.
\<close>

section \<open>Rooms\<close>

record room_seat_view =
  zs_position :: u8
  zs_account :: account_id
  zs_ready :: bool

record room_view =
  zr_id :: room_id
  zr_version :: u64
  zr_status :: room_status
  zr_occupied :: nat
  zr_member :: bool
  zr_sequence :: u64
  zr_seats :: "room_seat_view list"
  zr_active :: hand_id
  zr_last :: hand_id

definition seat_view_of :: "seat_snapshot \<Rightarrow> room_seat_view" where
  "seat_view_of s = \<lparr>zs_position = sn_seat s, zs_account = sn_account s, zs_ready = sn_ready s\<rparr>"

text \<open>The previous hand is shown to those who sat in it, once it has ended.\<close>

definition visible_last_hand :: "'s service \<Rightarrow> account_id \<Rightarrow> room_id \<Rightarrow> hand_id \<Rightarrow> ('s, hand_id) call" where
  "visible_last_hand sv actor rid lid s =
     (if lid = [] then (Inr [], s)
      else case sx_load_hand (sv_store sv) lid s of
        (Inl e, s') \<Rightarrow>
          if error_is e (App AppNotFound) then (Inr [], s') else (Inl (Wrapped ''load last room hand'' e), s')
      | (Inr h, s') \<Rightarrow>
          if hn_id h \<noteq> lid \<or> hn_room h \<noteq> rid then (Inl (App AppInvalidCommand), s')
          else (case restore_hand h of
                  Inl e \<Rightarrow> (Inl (Wrapped ''restore last room hand'' (Core e)), s')
                | Inr _ \<Rightarrow>
                    (Inr (if phase_terminal (hn_phase h) \<and> list_ex (\<lambda>x. hs_account x = actor) (hn_seats h) then lid else []), s')))"

definition get_room_view :: "'s service \<Rightarrow> account_id \<Rightarrow> room_id \<Rightarrow> ('s, room_view) call" where
  "get_room_view sv actor rid =
     and_then (guard (trim_space actor = [] \<or> length actor > 128 \<or> trim_space rid = [] \<or> rid \<noteq> trim_space rid \<or>
                      length rid > 128) (App AppInvalidCommand)) (\<lambda>_.
     case sx_load_room (sv_store sv) of
       None \<Rightarrow> fail_with (App AppInvalidCommand)
     | Some load \<Rightarrow>
         and_then (load rid) (\<lambda>snapshot.
         and_then (guard (rn_id snapshot \<noteq> rid) (App AppInvalidCommand)) (\<lambda>_.
         and_then (wrap_infrastructure ''restore queried room'' (domain_call (restore_room snapshot))) (\<lambda>_.
         case sx_room_sequence (sv_store sv) of
           None \<Rightarrow> fail_with (App AppInvalidCommand)
         | Some sequence \<Rightarrow>
             and_then (sequence rid actor) (\<lambda>latest.
             let occupied = filter (\<lambda>s. sn_account s \<noteq> []) (rn_seats snapshot);
                 view = \<lparr>zr_id = rid, zr_version = rn_version snapshot, zr_status = rn_status snapshot,
                         zr_occupied = length occupied, zr_member = list_ex (\<lambda>s. sn_account s = actor) occupied,
                         zr_sequence = latest, zr_seats = [], zr_active = [], zr_last = []\<rparr>
             in if \<not> zr_member view then give view
                else and_then (visible_last_hand sv actor rid (rn_last_hand snapshot)) (\<lambda>lid.
                  give (view\<lparr>zr_seats := map seat_view_of (rn_seats snapshot), zr_active := rn_active_hand snapshot,
                             zr_last := lid\<rparr>)))))))"

fun collect_rooms :: "'s service \<Rightarrow> account_id \<Rightarrow> room_id list \<Rightarrow> room_id list \<Rightarrow> ('s, room_view list) call" where
  "collect_rooms sv actor [] seen s = (Inr [], s)"
| "collect_rooms sv actor (rid # ids) seen s =
     (if rid = [] \<or> rid \<in> set seen then (Inl (App AppInvalidCommand), s)
      else case get_room_view sv actor rid s of
        (Inl e, s') \<Rightarrow>
          if error_is e (App AppNotFound) then collect_rooms sv actor ids (rid # seen) s' else (Inl e, s')
      | (Inr view, s') \<Rightarrow>
          if \<not> zr_member view \<or> zr_status view = RoomClosed then collect_rooms sv actor ids (rid # seen) s'
          else and_then (collect_rooms sv actor ids (rid # seen)) (\<lambda>views. give (view # views)) s')"

definition get_recoverable_rooms :: "'s service \<Rightarrow> account_id \<Rightarrow> ('s, room_view list) call" where
  "get_recoverable_rooms sv actor =
     and_then (guard (trim_space actor = [] \<or> actor \<noteq> trim_space actor \<or> length actor > 128) (App AppInvalidCommand)) (\<lambda>_.
     case sx_recoverable (sv_store sv) of
       None \<Rightarrow> fail_with (App AppInvalidCommand)
     | Some find_ids \<Rightarrow>
         and_then (find_ids actor) (\<lambda>ids.
         and_then (guard (length ids > 32) (App AppInvalidCommand)) (\<lambda>_. collect_rooms sv actor ids [])))"

section \<open>Fairness\<close>

record fairness_view =
  fv_mode :: string
  fv_hand :: string
  fv_phase :: hand_phase
  fv_version :: u64
  fv_seat :: u8
  fv_committed :: bool
  fv_revealed :: bool
  fv_commitment :: string
  fv_server_commitment :: string
  fv_reveal_key :: string
  fv_reveal_hash :: string
  fv_bound_at :: go_time
  fv_sequence :: u64
  fv_provider :: string
  fv_round :: string
  fv_release :: "go_time option"

definition get_fairness_view :: "'s service \<Rightarrow> account_id \<Rightarrow> hand_id \<Rightarrow> ('s, fairness_view) call" where
  "get_fairness_view sv actor hid =
     and_then (guard (trim_space actor = [] \<or> actor \<noteq> trim_space actor \<or> hid = [] \<or> hid \<noteq> trim_space hid \<or>
                      length actor > 128 \<or> length hid > 128) (App AppInvalidCommand)) (\<lambda>_.
     and_then (sx_load_hand (sv_store sv) hid) (\<lambda>snapshot.
     and_then (give_result (resolve_hand_contribution snapshot actor)) (\<lambda>(seat, own).
     case sx_hand_sequence (sv_store sv) of
       None \<Rightarrow> fail_with (App AppInvalidCommand)
     | Some sequence \<Rightarrow>
         and_then (sequence hid actor) (\<lambda>latest.
         and_then (give_result (if bp_provider (hn_plan snapshot) = drand_quicknet
                                then map_sum id Some (quicknet_round_publication (hn_plan snapshot)) else Inr None)) (\<lambda>release.
           give \<lparr>fv_mode = hn_mode snapshot, fv_hand = hid, fv_phase = hn_phase snapshot, fv_version = hn_version snapshot,
                 fv_seat = seat, fv_committed = cs_committed own, fv_revealed = cs_revealed own,
                 fv_commitment = (if cs_committed own then hex_encode (cs_commitment own) else []),
                 fv_server_commitment = hex_encode (hn_server_commitment snapshot),
                 fv_reveal_key = hn_reveal_key snapshot, fv_reveal_hash = hex_encode (hn_reveal_hash snapshot),
                 fv_bound_at = hn_reveal_bound_at snapshot, fv_sequence = latest,
                 fv_provider = bp_provider (hn_plan snapshot), fv_round = bp_round (hn_plan snapshot),
                 fv_release = release\<rparr>)))))"

record reveal_binding =
  vb_mode :: string
  vb_hand :: hand_id
  vb_seat :: seat
  vb_version :: u64
  vb_commitment :: bytes
  vb_key :: string
  vb_hash :: bytes
  vb_bound_at :: go_time

definition reveal_eligible :: "hand_snapshot \<Rightarrow> contribution_snapshot \<Rightarrow> bool" where
  "reveal_eligible snapshot c \<longleftrightarrow>
     (let custodied = (hn_mode snapshot = fairness_mode_client_custodied) in
      custodied \<and> hn_phase snapshot = HandFairnessCommitting \<and> \<not> cs_committed c \<and> \<not> cs_revealed c \<or>
      \<not> custodied \<and> hn_phase snapshot = HandFairnessRevealing \<and> cs_committed c \<and> \<not> cs_revealed c \<and>
        cs_commitment c \<noteq> zero32)"

definition get_reveal_binding :: "'s service \<Rightarrow> account_id \<Rightarrow> hand_id \<Rightarrow> ('s, reveal_binding) call" where
  "get_reveal_binding sv actor hid =
     and_then (guard (trim_space actor = [] \<or> trim_space hid = [] \<or> length actor > 128 \<or> length hid > 128)
                 (App AppInvalidCommand)) (\<lambda>_.
     and_then (sx_load_hand (sv_store sv) hid) (\<lambda>snapshot.
     and_then (give_result (resolve_hand_contribution snapshot actor)) (\<lambda>(seat, c).
     and_then (guard (\<not> reveal_eligible snapshot c \<or> hn_reveal_key snapshot = [] \<or> hn_reveal_hash snapshot = zero32 \<or>
                      time_is_zero (hn_reveal_bound_at snapshot)) (Core (Domain DmWrongPhase))) (\<lambda>_.
       give \<lparr>vb_mode = hn_mode snapshot, vb_hand = hid, vb_seat = seat, vb_version = hn_version snapshot,
             vb_commitment = cs_commitment c, vb_key = hn_reveal_key snapshot, vb_hash = hn_reveal_hash snapshot,
             vb_bound_at = hn_reveal_bound_at snapshot\<rparr>))))"

section \<open>One's own contribution\<close>

definition own_contribution_verification_v1 :: string where
  "own_contribution_verification_v1 = ''doudizhu-own-contribution-v1''"

record own_contribution =
  oz_version :: string
  oz_mode :: string
  oz_hand :: hand_id
  oz_seat :: seat
  oz_random :: string
  oz_commitment :: string
  oz_digest :: string

definition same_record :: "contribution_record \<Rightarrow> contribution_snapshot \<Rightarrow> seat \<Rightarrow> hand_id \<Rightarrow> account_id \<Rightarrow> bool" where
  "same_record record own seat hid actor \<longleftrightarrow>
     pr_id record = cs_record_ref own \<and> pr_seat record = seat \<and> pr_hand record = hid \<and> pr_actor record = actor \<and>
     pr_digest record = cs_digest own"

definition get_own_contribution :: "'s service \<Rightarrow> account_id \<Rightarrow> hand_id \<Rightarrow> ('s, own_contribution) call" where
  "get_own_contribution sv actor hid =
     and_then (sx_load_hand (sv_store sv) hid) (\<lambda>hand.
     and_then (guard (hn_id hand \<noteq> hid \<or> hn_mode hand \<noteq> fairness_mode_client_custodied \<or> hn_phase hand \<noteq> HandCompleted)
                 (Core (Domain DmWrongPhase))) (\<lambda>_.
     and_then (give_result (resolve_hand_contribution hand actor)) (\<lambda>(seat, own).
     and_then (guard (\<not> cs_committed own \<or> \<not> cs_revealed own \<or> cs_record_ref own = []) (App AppRevealInvalid)) (\<lambda>_.
     case (sx_load_record (sv_store sv), pt_open (sv_protector sv)) of
       (Some load, Some open_payload) \<Rightarrow>
         and_then (load (cs_record_ref own) hid seat actor) (\<lambda>record.
         and_then (guard (\<not> same_record record own seat hid actor) (App AppProtectionFailed)) (\<lambda>_.
         and_then (give_result (build_record_aad (pr_id record) hid seat actor (pr_command record) (cs_digest own))) (\<lambda>aad.
         and_then (or_else (open_payload \<lparr>pp_key = pr_key record, pp_nonce = pr_nonce record,
                       pp_ciphertext = pr_ciphertext record, pp_aad_digest = pr_aad_digest record\<rparr> aad)
                     (\<lambda>_. fail_with (App AppProtectionFailed))) (\<lambda>plaintext.
         and_then (give_result (decode_reveal_plaintext plaintext hid seat (sv_normalize sv)
                     (cg_max_phrase (sv_config sv)))) (\<lambda>decoded.
         and_then (guard (vd_digest decoded \<noteq> cs_digest own \<or>
                          hand_client_commitment hid seat (vd_digest decoded) \<noteq> cs_commitment own)
                     (App AppProtectionFailed)) (\<lambda>_.
           give \<lparr>oz_version = own_contribution_verification_v1, oz_mode = hn_mode hand, oz_hand = hid, oz_seat = seat,
                 oz_random = b64_encode True (vd_random decoded), oz_commitment = hex_encode (cs_commitment own),
                 oz_digest = hex_encode (cs_digest own)\<rparr>))))))
     | _ \<Rightarrow> fail_with (App AppProtectionFailed)))))"

section \<open>Final evidence\<close>

definition final_evidence_result_v1 :: string where
  "final_evidence_result_v1 = ''doudizhu-final-evidence-result-v1''"

text \<open>
  The verifier is an interface; a verifier that samples without end gives \<open>None\<close>, as the model of
  \<open>VerifyFinalRecord\<close> does.
\<close>

record 's evidence_service =
  fe_load_hand :: "hand_id \<Rightarrow> ('s, hand_snapshot) call"
  fe_load_record :: "string \<Rightarrow> ('s, final_record \<times> go_time) call"
  fe_verify :: "final_record \<Rightarrow> (go_error + verification_report) option"

definition doudizhu_final_record_verifier :: "final_record \<Rightarrow> (go_error + verification_report) option" where
  "doudizhu_final_record_verifier record = verify_final_record record"

definition new_final_evidence_service ::
  "(hand_id \<Rightarrow> ('s, hand_snapshot) call) option \<Rightarrow> (string \<Rightarrow> ('s, final_record \<times> go_time) call) option \<Rightarrow>
   (final_record \<Rightarrow> (go_error + verification_report) option) option \<Rightarrow> app_error + 's evidence_service" where
  "new_final_evidence_service hands records verifier =
     (case (hands, records, verifier) of
        (Some h, Some r, Some v) \<Rightarrow> Inr \<lparr>fe_load_hand = h, fe_load_record = r, fe_verify = v\<rparr>
      | _ \<Rightarrow> Inl (App AppFinalEvidenceInvalid))"

record final_evidence =
  fz_mode :: string
  fz_version :: string
  fz_hand :: hand_id
  fz_status :: final_status
  fz_final_version :: u64
  fz_archived :: go_time
  fz_payload :: bytes
  fz_report :: verification_report

definition is_seated_participant :: "hand_snapshot \<Rightarrow> account_id \<Rightarrow> bool" where
  "is_seated_participant hand actor = list_ex (\<lambda>s. hs_account s = actor) (hn_seats hand)"

text \<open>The hand and the record, both checked, before the verifier runs.\<close>

definition evidence_record ::
  "'s evidence_service \<Rightarrow> account_id \<Rightarrow> hand_id \<Rightarrow> ('s, hand_snapshot \<times> final_record \<times> go_time) call" where
  "evidence_record fe actor hid =
     and_then (guard (trim_space actor = [] \<or> actor \<noteq> trim_space actor \<or> length actor > 128 \<or>
                      trim_space hid = [] \<or> hid \<noteq> trim_space hid \<or> length hid > 128) (App AppFinalEvidenceInvalid)) (\<lambda>_.
     and_then (wrap_infrastructure ''load hand for final evidence'' (fe_load_hand fe hid)) (\<lambda>hand.
     and_then (guard (hn_id hand \<noteq> hid \<or> \<not> is_seated_participant hand actor) (App AppFinalEvidenceForbidden)) (\<lambda>_.
     and_then (wrap_infrastructure ''load final evidence'' (fe_load_record fe hid)) (\<lambda>(record, archived).
     and_then (guard (fr_instance record \<noteq> hid \<or> time_is_zero archived) (App AppFinalEvidenceInvalid)) (\<lambda>_.
       give (hand, record, archived))))))"

definition evidence_report ::
  "hand_snapshot \<Rightarrow> final_record \<Rightarrow> go_time \<Rightarrow> hand_id \<Rightarrow> go_error + verification_report \<Rightarrow> app_error + final_evidence" where
  "evidence_report hand record archived hid verified =
     (case verified of
        Inl e \<Rightarrow> Inl (Wrapped ''verify final evidence'' (Core e))
      | Inr report \<Rightarrow>
          if vp_fairness_mode report \<noteq> hn_mode hand then Inl (App AppFinalEvidenceInvalid)
          else Inr \<lparr>fz_mode = hn_mode hand, fz_version = final_evidence_result_v1, fz_hand = hid,
                    fz_status = fr_status record, fz_final_version = fr_version record,
                    fz_archived = time_utc archived, fz_payload = fr_payload record, fz_report = report\<rparr>)"

definition get_final_evidence ::
  "'s evidence_service \<Rightarrow> account_id \<Rightarrow> hand_id \<Rightarrow> 's \<Rightarrow> ((app_error + final_evidence) \<times> 's) option" where
  "get_final_evidence fe actor hid s =
     (case evidence_record fe actor hid s of
        (Inl e, s') \<Rightarrow> Some (Inl e, s')
      | (Inr (hand, record, archived), s') \<Rightarrow>
          map_option (\<lambda>v. (evidence_report hand record archived hid v, s')) (fe_verify fe record))"

end
