(* ===== verification/Mysql_Store.thy ===== *)
theory Mysql_Store
  imports App_Commands "HOL-Library.AList" "HOL-Library.List_Lexorder" "HOL-Library.Char_ord"
begin

text \<open>
  \<open>infrastructure/mysqlstore/transaction.go\<close>, \<open>store.go\<close>, \<open>query.go\<close> and \<open>contribution_read.go\<close>: the MySQL store. The tables are
  finite maps with their primary keys, and the unique keys that the statements can hit; a JSON column is
  the value that was marshalled into it. Identifiers are compared exactly, as a binary collation does.
  The driver is a parameter: before each statement it may fail with a text of its own, and a failed
  COMMIT may or may not have been applied.
\<close>

section \<open>Tables\<close>

record command_row =
  cw_command :: app_command
  cw_result :: "command_result option"
  cw_accepted :: "bool option"
  cw_created :: go_time
  cw_completed :: "go_time option"

record room_row =
  rw_owner :: account_id
  rw_status :: room_status
  rw_active :: "hand_id option"
  rw_version :: u64
  rw_snapshot :: room_snapshot
  rw_created :: go_time
  rw_updated :: go_time

record hand_row =
  hw_room :: room_id
  hw_phase :: hand_phase
  hw_reveal_key :: string
  hw_reveal_hash :: bytes
  hw_version :: u64
  hw_snapshot :: hand_snapshot
  hw_created :: go_time
  hw_updated :: go_time

record writer_row =
  ww_epoch :: u64
  ww_committed :: u64
  ww_genesis :: hand_snapshot

text \<open>One accepted command of a live hand, with the tag over it; a checkpoint; a sealed server seed.\<close>

record live_action =
  la_hand :: hand_id
  la_version :: u64
  la_epoch :: u64
  la_command :: string
  la_actor :: account_id
  la_position :: u8
  la_expected :: u64
  la_seq :: u64
  la_payload :: bytes
  la_digest :: bytes
  la_integrity :: u8

record action_row =
  ar_action :: live_action
  ar_tag :: bytes

record checkpoint_row =
  kp_version :: u64
  kp_nonce :: bytes
  kp_cipher :: bytes
  kp_digest :: bytes

record seed_row =
  ss_nonce :: bytes
  ss_cipher :: bytes

record database =
  db_commands :: "account_id \<times> string \<rightharpoonup> command_row"
  db_sequences :: "string \<times> string \<times> account_id \<rightharpoonup> u64"
  db_rooms :: "(room_id \<times> room_row) list"
  db_hands :: "hand_id \<rightharpoonup> hand_row"
  db_records :: "contribution_record list"
  db_outbox :: "outbox_event list"
  db_writers :: "(hand_id \<times> writer_row) list"
  db_actions :: "action_row list"
  db_checkpoints :: "hand_id \<rightharpoonup> checkpoint_row"
  db_seeds :: "hand_id \<rightharpoonup> seed_row"

definition writer_table :: "database \<Rightarrow> hand_id \<rightharpoonup> writer_row" where "writer_table db = map_of (db_writers db)"

definition room_table :: "database \<Rightarrow> room_id \<rightharpoonup> room_row" where "room_table db = map_of (db_rooms db)"

text \<open>\<open>'w\<close> is everything outside the database.\<close>

record 'w driver =
  dv_statement :: "string \<Rightarrow> 'w \<Rightarrow> string option \<times> 'w"
  dv_commit :: "'w \<Rightarrow> (string option \<times> bool) \<times> 'w"

type_synonym 'w state = "database \<times> 'w"

text \<open>A statement that the driver accepts runs; the others fail with the driver's text.\<close>

definition statement :: "'w driver \<Rightarrow> string \<Rightarrow> (database \<Rightarrow> (app_error + 'a) \<times> database) \<Rightarrow> ('w state, 'a) call" where
  "statement drv name run s =
     (case dv_statement drv name (snd s) of
        (Some failure, w) \<Rightarrow> (Inl (Fault failure), (fst s, w))
      | (None, w) \<Rightarrow> (let (r, db) = run (fst s) in (r, (db, w))))"

definition no_rows :: string where "no_rows = ''sql: no rows in result set''"

definition duplicate_entry :: string where "duplicate_entry = ''Error 1062 (23000): Duplicate entry''"

section \<open>Errors of the driver\<close>

fun prefix_of :: "string \<Rightarrow> string \<Rightarrow> bool" where
  "prefix_of [] s = True"
| "prefix_of (c # cs) [] = False"
| "prefix_of (c # cs) (d # ds) = (c = d \<and> prefix_of cs ds)"

fun contains_text :: "string \<Rightarrow> string \<Rightarrow> bool" where
  "contains_text [] t = prefix_of t []"
| "contains_text (c # s) t = (prefix_of t (c # s) \<or> contains_text s t)"

definition lower_char :: "char \<Rightarrow> char" where
  "lower_char c = (let n = (of_char c :: nat) in if 65 \<le> n \<and> n \<le> 90 then char_of (n + 32) else c)"

definition lower_text :: "string \<Rightarrow> string" where "lower_text = map lower_char"

text \<open>The text of the errors that reach the translations: a driver's own, or one in front of it.\<close>

fun error_text :: "app_error \<Rightarrow> string" where
  "error_text (Fault t) = t"
| "error_text (Wrapped operation e) = operation @ '': '' @ error_text e"
| "error_text (Aggregate e v) = error_text e"
| "error_text (Joined a b) = error_text a @ [CHR 0x0A] @ error_text b"
| "error_text e = []"

definition translate_not_found :: "app_error \<Rightarrow> app_error" where
  "translate_not_found e = (if error_is e (Fault no_rows) then App AppNotFound else e)"

definition translate_insert_error :: "app_error \<Rightarrow> app_error" where
  "translate_insert_error e =
     (if contains_text (error_text e) ''Error 1062'' \<or> contains_text (lower_text (error_text e)) ''duplicate entry''
      then App AppAlreadyExists else e)"

definition translate_transaction_error :: "app_error \<Rightarrow> app_error" where
  "translate_transaction_error e =
     (if error_is e (App AppRetryableTransaction) then e
      else let message = lower_text (error_text e) in
        if contains_text message ''error 1205'' \<or> contains_text message ''error 1213'' \<or>
           contains_text message ''deadlock found'' \<or> contains_text message ''lock wait timeout''
        then App AppRetryableTransaction else e)"

text \<open>An UPDATE reports how many rows it changed.\<close>

definition optimistic_result :: "('w state, nat) call \<Rightarrow> ('w state, unit) call" where
  "optimistic_result m = and_then m (\<lambda>rows. guard (rows \<noteq> 1) (App AppOptimisticConflict))"

definition nullable_string :: "string \<Rightarrow> string option" where
  "nullable_string s = (if s = [] then None else Some s)"

section \<open>Commands and sequences\<close>

text \<open>\<open>ServerGeneratedTimes\<close> is not part of the JSON text.\<close>

definition stored_command :: "app_command \<Rightarrow> app_command" where
  "stored_command cmd = cmd\<lparr>ac_server_times := False\<rparr>"

definition insert_command :: "account_id \<Rightarrow> app_command \<Rightarrow> go_time \<Rightarrow> database \<Rightarrow> (app_error + unit) \<times> database" where
  "insert_command actor cmd created db =
     (Inr (), case db_commands db (actor, ac_id cmd) of
        Some row \<Rightarrow> db
      | None \<Rightarrow> db\<lparr>db_commands := (db_commands db)((actor, ac_id cmd) \<mapsto>
          \<lparr>cw_command = stored_command cmd, cw_result = None, cw_accepted = None, cw_created = time_utc created,
           cw_completed = None\<rparr>)\<rparr>)"

definition select_row :: "(database \<Rightarrow> 'k \<rightharpoonup> 'r) \<Rightarrow> 'k \<Rightarrow> database \<Rightarrow> (app_error + 'r) \<times> database" where
  "select_row table k db = (case table db k of None \<Rightarrow> Inl (Fault no_rows) | Some row \<Rightarrow> Inr row, db)"

definition row_result :: "command_row \<Rightarrow> app_error + stored_result \<times> bool" where
  "row_result row =
     (case cw_result row of
        None \<Rightarrow>
          if cw_completed row \<noteq> None then Inl (Fault ''doudizhu command result is incomplete'')
          else Inr (\<lparr>sd_command = cw_command row, sd_result = zero_result\<rparr>, False)
      | Some result \<Rightarrow>
          if cw_completed row = None then Inl (Fault ''doudizhu command completion time is missing'')
          else Inr (\<lparr>sd_command = cw_command row, sd_result = result\<rparr>, True))"

definition claim_command :: "'w driver \<Rightarrow> account_id \<Rightarrow> app_command \<Rightarrow> go_time \<Rightarrow> ('w state, stored_result \<times> bool) call" where
  "claim_command drv actor cmd created =
     and_then (give_result (rbind (time_text (ac_issued cmd)) (\<lambda>_. time_text (ac_expires cmd)))) (\<lambda>_.
     and_then (statement drv ''insert command'' (insert_command actor cmd created)) (\<lambda>_.
     and_then (statement drv ''select command'' (select_row db_commands (actor, ac_id cmd))) (\<lambda>row.
       give_result (row_result row))))"

definition update_result ::
  "account_id \<Rightarrow> string \<Rightarrow> command_result \<Rightarrow> go_time \<Rightarrow> database \<Rightarrow> (app_error + nat) \<times> database" where
  "update_result actor cid result completed db =
     (case db_commands db (actor, cid) of
        Some row \<Rightarrow>
          if cw_result row = None then
            (Inr 1, db\<lparr>db_commands := (db_commands db)((actor, cid) \<mapsto>
               row\<lparr>cw_result := Some result, cw_accepted := Some (cr_accepted result), cw_completed := Some (time_utc completed)\<rparr>)\<rparr>)
          else (Inr 0, db)
      | None \<Rightarrow> (Inr 0, db))"

definition complete_command ::
  "'w driver \<Rightarrow> account_id \<Rightarrow> string \<Rightarrow> command_result \<Rightarrow> go_time \<Rightarrow> ('w state, unit) call" where
  "complete_command drv actor cid result completed =
     and_then (statement drv ''update command'' (update_result actor cid result completed)) (\<lambda>rows.
       guard (rows \<noteq> 1) (Wrapped ''complete doudizhu command'' (App AppOptimisticConflict)))"

definition insert_sequence :: "string \<times> string \<times> account_id \<Rightarrow> database \<Rightarrow> (app_error + unit) \<times> database" where
  "insert_sequence k db =
     (Inr (), case db_sequences db k of Some n \<Rightarrow> db | None \<Rightarrow> db\<lparr>db_sequences := (db_sequences db)(k \<mapsto> 0)\<rparr>)"

definition lock_client_sequence :: "'w driver \<Rightarrow> string \<Rightarrow> string \<Rightarrow> account_id \<Rightarrow> ('w state, u64) call" where
  "lock_client_sequence drv typ aid actor =
     and_then (statement drv ''insert sequence'' (insert_sequence (typ, aid, actor))) (\<lambda>_.
       statement drv ''select sequence'' (select_row db_sequences (typ, aid, actor)))"

definition update_sequence :: "string \<times> string \<times> account_id \<Rightarrow> u64 \<Rightarrow> database \<Rightarrow> (app_error + nat) \<times> database" where
  "update_sequence k seq db =
     (case db_sequences db k of
        Some latest \<Rightarrow>
          if latest < seq then (Inr 1, db\<lparr>db_sequences := (db_sequences db)(k \<mapsto> seq)\<rparr>) else (Inr 0, db)
      | None \<Rightarrow> (Inr 0, db))"

definition save_client_sequence ::
  "'w driver \<Rightarrow> string \<Rightarrow> string \<Rightarrow> account_id \<Rightarrow> u64 \<Rightarrow> go_time \<Rightarrow> ('w state, unit) call" where
  "save_client_sequence drv typ aid actor seq updated =
     and_then (statement drv ''update sequence'' (update_sequence (typ, aid, actor) seq)) (\<lambda>rows.
       guard (rows \<noteq> 1) (App AppSequenceConflict))"

section \<open>Rooms and hands\<close>

definition active_elsewhere :: "database \<Rightarrow> room_id \<Rightarrow> hand_id option \<Rightarrow> bool" where
  "active_elsewhere db rid active \<longleftrightarrow>
     active \<noteq> None \<and> list_ex (\<lambda>(other, row). other \<noteq> rid \<and> rw_active row = active) (db_rooms db)"

definition room_row_of :: "room_snapshot \<Rightarrow> go_time \<Rightarrow> go_time \<Rightarrow> room_row" where
  "room_row_of snapshot created updated =
     \<lparr>rw_owner = rn_owner snapshot, rw_status = rn_status snapshot, rw_active = nullable_string (rn_active_hand snapshot),
      rw_version = rn_version snapshot, rw_snapshot = snapshot, rw_created = created, rw_updated = updated\<rparr>"

definition insert_room_row :: "room_snapshot \<Rightarrow> go_time \<Rightarrow> database \<Rightarrow> (app_error + unit) \<times> database" where
  "insert_room_row snapshot at db =
     (if room_table db (rn_id snapshot) \<noteq> None \<or>
         active_elsewhere db (rn_id snapshot) (nullable_string (rn_active_hand snapshot))
      then (Inl (Fault duplicate_entry), db)
      else (Inr (), db\<lparr>db_rooms := AList.update (rn_id snapshot) (room_row_of snapshot (time_utc at) (time_utc at)) (db_rooms db)\<rparr>))"

definition insert_room :: "'w driver \<Rightarrow> room_snapshot \<Rightarrow> go_time \<Rightarrow> ('w state, unit) call" where
  "insert_room drv snapshot at =
     or_else (statement drv ''insert room'' (insert_room_row snapshot at)) (\<lambda>e. fail_with (translate_insert_error e))"

definition load_room_for_update :: "'w driver \<Rightarrow> room_id \<Rightarrow> ('w state, room_snapshot) call" where
  "load_room_for_update drv rid =
     and_then (or_else (statement drv ''select room'' (select_row room_table rid)) (\<lambda>e. fail_with (translate_not_found e)))
       (\<lambda>row. give (rw_snapshot row))"

definition update_room_row :: "room_snapshot \<Rightarrow> u64 \<Rightarrow> go_time \<Rightarrow> database \<Rightarrow> (app_error + nat) \<times> database" where
  "update_room_row snapshot previous at db =
     (case room_table db (rn_id snapshot) of
        Some row \<Rightarrow>
          if rw_version row = previous then
            (if active_elsewhere db (rn_id snapshot) (nullable_string (rn_active_hand snapshot))
             then (Inl (Fault duplicate_entry), db)
             else (Inr 1, db\<lparr>db_rooms := AList.update (rn_id snapshot)
                     (room_row_of snapshot (rw_created row) (time_utc at)) (db_rooms db)\<rparr>))
          else (Inr 0, db)
      | None \<Rightarrow> (Inr 0, db))"

definition update_room :: "'w driver \<Rightarrow> room_snapshot \<Rightarrow> u64 \<Rightarrow> go_time \<Rightarrow> ('w state, unit) call" where
  "update_room drv snapshot previous at =
     optimistic_result (statement drv ''update room'' (update_room_row snapshot previous at))"

definition hand_row_of :: "hand_snapshot \<Rightarrow> room_id \<Rightarrow> go_time \<Rightarrow> go_time \<Rightarrow> hand_row" where
  "hand_row_of snapshot rid created updated =
     \<lparr>hw_room = rid, hw_phase = hn_phase snapshot, hw_reveal_key = hn_reveal_key snapshot,
      hw_reveal_hash = hn_reveal_hash snapshot, hw_version = hn_version snapshot, hw_snapshot = snapshot,
      hw_created = created, hw_updated = updated\<rparr>"

definition insert_hand_row :: "hand_snapshot \<Rightarrow> go_time \<Rightarrow> database \<Rightarrow> (app_error + unit) \<times> database" where
  "insert_hand_row snapshot at db =
     (if db_hands db (hn_id snapshot) \<noteq> None then (Inl (Fault duplicate_entry), db)
      else (Inr (), db\<lparr>db_hands := (db_hands db)(hn_id snapshot \<mapsto>
              hand_row_of snapshot (hn_room snapshot) (time_utc at) (time_utc at))\<rparr>))"

definition insert_hand :: "'w driver \<Rightarrow> hand_snapshot \<Rightarrow> go_time \<Rightarrow> ('w state, unit) call" where
  "insert_hand drv snapshot at =
     or_else (statement drv ''insert hand'' (insert_hand_row snapshot at)) (\<lambda>e. fail_with (translate_insert_error e))"

definition load_hand_for_update :: "'w driver \<Rightarrow> hand_id \<Rightarrow> ('w state, hand_snapshot) call" where
  "load_hand_for_update drv hid =
     and_then (or_else (statement drv ''select hand'' (select_row db_hands hid)) (\<lambda>e. fail_with (translate_not_found e)))
       (\<lambda>row. give (hw_snapshot row))"

definition update_hand_row :: "hand_snapshot \<Rightarrow> u64 \<Rightarrow> go_time \<Rightarrow> database \<Rightarrow> (app_error + nat) \<times> database" where
  "update_hand_row snapshot previous at db =
     (case db_hands db (hn_id snapshot) of
        Some row \<Rightarrow>
          if hw_version row = previous then
            (Inr 1, db\<lparr>db_hands := (db_hands db)(hn_id snapshot \<mapsto>
               hand_row_of snapshot (hw_room row) (hw_created row) (time_utc at))\<rparr>)
          else (Inr 0, db)
      | None \<Rightarrow> (Inr 0, db))"

definition update_hand :: "'w driver \<Rightarrow> hand_snapshot \<Rightarrow> u64 \<Rightarrow> go_time \<Rightarrow> ('w state, unit) call" where
  "update_hand drv snapshot previous at =
     optimistic_result (statement drv ''update hand'' (update_hand_row snapshot previous at))"

section \<open>Records, events, writers\<close>

definition insert_record_row :: "contribution_record \<Rightarrow> database \<Rightarrow> (app_error + unit) \<times> database" where
  "insert_record_row record db =
     (if list_ex (\<lambda>r. pr_id r = pr_id record \<or> pr_hand r = pr_hand record \<and> pr_seat r = pr_seat record \<or>
                      pr_actor r = pr_actor record \<and> pr_command r = pr_command record) (db_records db)
      then (Inl (Fault duplicate_entry), db)
      else (Inr (), db\<lparr>db_records := db_records db @ [record\<lparr>pr_created := time_utc (pr_created record)\<rparr>]\<rparr>))"

definition insert_contribution_record :: "'w driver \<Rightarrow> contribution_record \<Rightarrow> ('w state, unit) call" where
  "insert_contribution_record drv record =
     or_else (statement drv ''insert record'' (insert_record_row record)) (\<lambda>e. fail_with (translate_insert_error e))"

definition insert_outbox_row :: "outbox_event \<Rightarrow> database \<Rightarrow> (app_error + unit) \<times> database" where
  "insert_outbox_row e db =
     (if list_ex (\<lambda>o'. ob_id o' = ob_id e \<or>
           ob_type o' = ob_type e \<and> ob_aggregate o' = ob_aggregate e \<and> ob_version o' = ob_version e) (db_outbox db)
      then (Inl (Fault duplicate_entry), db)
      else (Inr (), db\<lparr>db_outbox := db_outbox db @ [e\<lparr>ob_occurred := time_utc (ob_occurred e)\<rparr>]\<rparr>))"

fun append_outbox :: "'w driver \<Rightarrow> outbox_event list \<Rightarrow> ('w state, unit) call" where
  "append_outbox drv [] = give ()"
| "append_outbox drv (e # es) =
     and_then (or_else (statement drv ''insert event'' (insert_outbox_row e)) (\<lambda>err. fail_with (translate_insert_error err)))
       (\<lambda>_. append_outbox drv es)"

text \<open>The column is an unsigned 64-bit integer: at its maximum, adding 1 is an error of the statement.\<close>

definition out_of_range :: string where "out_of_range = ''Error 1690 (22003): BIGINT UNSIGNED value is out of range''"

definition advance_epoch :: "hand_id \<Rightarrow> database \<Rightarrow> (app_error + nat) \<times> database" where
  "advance_epoch hid db =
     (case writer_table db hid of
        Some row \<Rightarrow>
          if ww_epoch row = - 1 then (Inl (Fault out_of_range), db)
          else (Inr 1, db\<lparr>db_writers := AList.update hid (row\<lparr>ww_epoch := ww_epoch row + 1\<rparr>) (db_writers db)\<rparr>)
      | None \<Rightarrow> (Inr 0, db))"

definition fence_live_writer :: "'w driver \<Rightarrow> hand_id \<Rightarrow> ('w state, unit) call" where
  "fence_live_writer drv hid =
     and_then (statement drv ''update writer'' (advance_epoch hid)) (\<lambda>rows.
       guard (rows \<noteq> 1) (Fault ''live writer not found for expiry''))"

definition lock_live_committed_version :: "'w driver \<Rightarrow> hand_id \<Rightarrow> ('w state, u64) call" where
  "lock_live_committed_version drv hid =
     and_then (statement drv ''select writer'' (select_row writer_table hid)) (\<lambda>row. give (ww_committed row))"

definition mysql_transaction :: "'w driver \<Rightarrow> 'w state transaction" where
  "mysql_transaction drv =
     \<lparr>tx_claim = claim_command drv, tx_complete = complete_command drv, tx_lock_sequence = lock_client_sequence drv,
      tx_save_sequence = save_client_sequence drv, tx_insert_room = insert_room drv,
      tx_load_room = load_room_for_update drv, tx_update_room = update_room drv, tx_insert_hand = insert_hand drv,
      tx_load_hand = load_hand_for_update drv, tx_update_hand = update_hand drv,
      tx_insert_record = insert_contribution_record drv, tx_append_outbox = append_outbox drv,
      tx_live_guard = Some \<lparr>lk_lock_version = lock_live_committed_version drv, lk_fence_writer = fence_live_writer drv\<rparr>\<rparr>"

section \<open>The transaction around a command\<close>

definition nothing_captured :: "'s captured" where
  "nothing_captured = \<lparr>ck_result = zero_result, ck_rollback = None\<rparr>"

text \<open>
  What a ROLLBACK leaves: the tables of the commands are as they were before the transaction. Its only
  statement on the live tables is the fence of a writer, which is undone; what the live runtime wrote there
  in the meantime, on connections of its own, stays.
\<close>

definition unfenced :: "(hand_id \<times> writer_row) list \<Rightarrow> hand_id \<times> writer_row \<Rightarrow> hand_id \<times> writer_row" where
  "unfenced before entry =
     (fst entry, case map_of before (fst entry) of
        Some old \<Rightarrow> (snd entry)\<lparr>ww_epoch := ww_epoch old\<rparr>
      | None \<Rightarrow> snd entry)"

definition with_live_tables :: "database \<Rightarrow> database \<Rightarrow> database" where
  "with_live_tables db live =
     db\<lparr>db_writers := db_writers live, db_actions := db_actions live, db_checkpoints := db_checkpoints live,
        db_seeds := db_seeds live\<rparr>"

definition rolled_back :: "database \<Rightarrow> database \<Rightarrow> database" where
  "rolled_back before after =
     (with_live_tables before after)\<lparr>db_writers := map (unfenced (db_writers before)) (db_writers after)\<rparr>"

text \<open>
  BEGIN, the body, then COMMIT, or ROLLBACK when the body failed. What the body did outside the database
  stays done.
\<close>

definition within_command :: "'w driver \<Rightarrow> account_id \<Rightarrow> string \<Rightarrow> 'w state body \<Rightarrow> 'w state body" where
  "within_command drv actor cid body s =
     (if actor = [] \<or> cid = []
      then ((Some (Fault ''mysql doudizhu command transaction is invalid''), nothing_captured), s)
      else case dv_statement drv ''begin'' (snd s) of
        (Some failure, w) \<Rightarrow>
          ((Some (translate_transaction_error (Wrapped ''begin doudizhu transaction'' (Fault failure))), nothing_captured),
           (fst s, w))
      | (None, w) \<Rightarrow>
          (case body (fst s, w) of
             ((Some err, captured), (db, w')) \<Rightarrow>
               (case dv_statement drv ''rollback'' w' of
                  (Some failure, w'') \<Rightarrow>
                    ((Some (translate_transaction_error
                        (Joined err (Wrapped ''rollback doudizhu transaction'' (Fault failure)))), captured),
                     (rolled_back (fst s) db, w''))
                | (None, w'') \<Rightarrow> ((Some (translate_transaction_error err), captured), (rolled_back (fst s) db, w'')))
           | ((None, captured), (db, w')) \<Rightarrow>
               (case dv_commit drv w' of
                  ((None, applied), w'') \<Rightarrow> ((None, captured), (db, w''))
                | ((Some failure, applied), w'') \<Rightarrow>
                    ((Some (translate_transaction_error (Wrapped ''commit doudizhu transaction'' (Fault failure))), captured),
                     (if applied then db else rolled_back (fst s) db, w'')))))"

section \<open>Queries\<close>

definition store_load_hand :: "'w driver \<Rightarrow> hand_id \<Rightarrow> ('w state, hand_snapshot) call" where
  "store_load_hand drv hid =
     and_then (or_else (statement drv ''query hand'' (select_row db_hands hid)) (\<lambda>e. fail_with (translate_not_found e))) (\<lambda>row.
     and_then (wrap_infrastructure ''validate doudizhu hand snapshot'' (domain_call (restore_hand (hw_snapshot row)))) (\<lambda>_.
       give (hw_snapshot row)))"

definition store_load_room :: "'w driver \<Rightarrow> room_id \<Rightarrow> ('w state, room_snapshot) call" where
  "store_load_room drv rid =
     and_then (or_else (statement drv ''query room'' (select_row room_table rid)) (\<lambda>e. fail_with (translate_not_found e))) (\<lambda>row.
     and_then (guard (rn_id (rw_snapshot row) \<noteq> rid) (Fault ''doudizhu room identity mismatch'')) (\<lambda>_.
     and_then (wrap_infrastructure ''validate doudizhu room snapshot'' (domain_call (restore_room (rw_snapshot row)))) (\<lambda>_.
       give (rw_snapshot row))))"

definition query_sequence :: "'w driver \<Rightarrow> string \<Rightarrow> string \<Rightarrow> string \<Rightarrow> account_id \<Rightarrow> ('w state, u64) call" where
  "query_sequence drv operation typ aid actor =
     or_else (statement drv ''query sequence'' (select_row db_sequences (typ, aid, actor)))
       (\<lambda>e. if error_is e (Fault no_rows) then give 0 else fail_with (Wrapped operation e))"

definition room_client_sequence :: "'w driver \<Rightarrow> room_id \<Rightarrow> account_id \<Rightarrow> ('w state, u64) call" where
  "room_client_sequence drv rid actor =
     query_sequence drv ''query room client sequence'' (aggregate_text AggregateRoom) rid actor"

definition hand_client_sequence :: "'w driver \<Rightarrow> hand_id \<Rightarrow> account_id \<Rightarrow> ('w state, u64) call" where
  "hand_client_sequence drv hid actor =
     query_sequence drv ''query hand client sequence'' (aggregate_text AggregateHand) hid actor"

definition record_matches :: "string \<Rightarrow> hand_id \<Rightarrow> seat \<Rightarrow> account_id \<Rightarrow> contribution_record \<Rightarrow> bool" where
  "record_matches rid hid seat actor r \<longleftrightarrow> pr_id r = rid \<and> pr_hand r = hid \<and> pr_seat r = seat \<and> pr_actor r = actor"

definition select_record ::
  "string \<Rightarrow> hand_id \<Rightarrow> seat \<Rightarrow> account_id \<Rightarrow> database \<Rightarrow> (app_error + contribution_record) \<times> database" where
  "select_record rid hid seat actor db =
     (case find (record_matches rid hid seat actor) (db_records db) of
        None \<Rightarrow> Inl (Fault no_rows) | Some r \<Rightarrow> Inr r, db)"

definition truncate_micro :: "go_time \<Rightarrow> go_time" where
  "truncate_micro t = t\<lparr>tm_nanos := tm_nanos t - tm_nanos t mod 1000\<rparr>"

definition load_protected_contribution ::
  "'w driver \<Rightarrow> string \<Rightarrow> hand_id \<Rightarrow> seat \<Rightarrow> account_id \<Rightarrow> ('w state, contribution_record) call" where
  "load_protected_contribution drv rid hid seat actor =
     and_then (guard (rid = [] \<or> hid = [] \<or> \<not> seat_valid seat \<or> actor = []) (Fault ''invalid protected contribution identity'')) (\<lambda>_.
     and_then (statement drv ''query record'' (select_record rid hid seat actor)) (\<lambda>r.
     and_then (guard (length (pr_digest r) \<noteq> 32 \<or> length (pr_aad_digest r) \<noteq> 32 \<or> \<not> record_matches rid hid seat actor r \<or>
                      pr_command r = [] \<or> pr_key r = [] \<or> pr_nonce r = [] \<or> pr_ciphertext r = [])
                 (Fault ''invalid bound protected contribution row'')) (\<lambda>_.
       give (r\<lparr>pr_created := truncate_micro (time_utc (pr_created r))\<rparr>))))"

text \<open>
  The rooms whose seats hold the account, not closed: those with a hand first, then the ready ones, the
  latest update first; at most 33 rows are read, and a 33rd is an error.
\<close>

fun status_rank :: "room_status \<Rightarrow> nat" where
  "status_rank RoomHandActive = 0"
| "status_rank RoomReady = 1"
| "status_rank _ = 2"

definition recovered_before :: "room_id \<times> room_row \<Rightarrow> room_id \<times> room_row \<Rightarrow> bool" where
  "recovered_before a b \<longleftrightarrow>
     (let x = status_rank (rw_status (snd a)); y = status_rank (rw_status (snd b));
          u = tm_nanos (rw_updated (snd a)); v = tm_nanos (rw_updated (snd b))
      in x < y \<or> x = y \<and> (u > v \<or> u = v \<and> fst a \<le> fst b))"

fun insert_ordered :: "('a \<Rightarrow> 'a \<Rightarrow> bool) \<Rightarrow> 'a \<Rightarrow> 'a list \<Rightarrow> 'a list" where
  "insert_ordered before x [] = [x]"
| "insert_ordered before x (y # ys) = (if before x y then x # y # ys else y # insert_ordered before x ys)"

definition holds_account :: "account_id \<Rightarrow> room_row \<Rightarrow> bool" where
  "holds_account actor row \<longleftrightarrow>
     (rw_status row = RoomHandActive \<or> rw_status row = RoomReady \<or> rw_status row = RoomWaitingPlayers) \<and>
     list_ex (\<lambda>s. sn_account s = actor) (rn_seats (rw_snapshot row))"

definition recoverable_rows :: "account_id \<Rightarrow> database \<Rightarrow> (app_error + room_id list) \<times> database" where
  "recoverable_rows actor db =
     (Inr (take 33 (map fst (foldr (insert_ordered recovered_before)
        (filter (\<lambda>(rid, row). holds_account actor row) (db_rooms db)) []))), db)"

definition find_recoverable_room_ids :: "'w driver \<Rightarrow> account_id \<Rightarrow> ('w state, room_id list) call" where
  "find_recoverable_room_ids drv actor =
     and_then (guard (actor = [] \<or> length actor > 128) (Fault ''invalid recoverable room query'')) (\<lambda>_.
     and_then (wrap_infrastructure ''find recoverable doudizhu rooms''
                 (statement drv ''query rooms'' (recoverable_rows actor))) (\<lambda>ids.
     and_then (guard (list_ex (\<lambda>rid. rid = [] \<or> length rid > 128) ids) (Fault ''invalid recoverable room identity'')) (\<lambda>_.
     and_then (guard (length ids > 32) (Fault ''too many recoverable rooms; narrow discovery'')) (\<lambda>_. give ids))))"

definition mysql_store :: "'w driver \<Rightarrow> 'w state store" where
  "mysql_store drv =
     \<lparr>sx_within = within_command drv, sx_transaction = mysql_transaction drv, sx_load_hand = store_load_hand drv,
      sx_load_room = Some (store_load_room drv), sx_room_sequence = Some (room_client_sequence drv),
      sx_hand_sequence = Some (hand_client_sequence drv), sx_recoverable = Some (find_recoverable_room_ids drv),
      sx_load_record = Some (load_protected_contribution drv)\<rparr>"

end
