(* ===== verification/App_Atomic.thy ===== *)
theory App_Atomic
  imports App_Commands
begin

text \<open>
  What the service relies on of a transaction, as a locale over any view \<open>data\<close> of the state: claims,
  sequences and loads leave the data alone, a failed insert leaves it alone, and a failed update is never
  the client's error. From this follows that a command that is rejected, and therefore committed with
  its rejection, has changed no data: \<open>atomic\<close> is that property of a call, and every handler has it.
\<close>

section \<open>Errors of the client\<close>

definition business_sentinels :: "app_error list" where
  "business_sentinels =
     map App [AppNotFound, AppAlreadyExists, AppSequenceConflict, AppInvalidCommand, AppRevealInvalid] @
     map (\<lambda>d. Core (Domain d))
       [DmInvalidArgument, DmNoStateChange, DmForbidden, DmOwnerMustRemain, DmNotSeated, DmRoomFull, DmRoomNotReady,
        DmHandActive, DmWrongPhase, DmHandNotActive, DmRoomClosed, DmAlreadySeated, DmDuplicateContribution,
        DmCommitmentMismatch, DmBeaconMismatch, DmHandTerminal]"

lemma map_business_error_None:
  "map_business_error e = None \<longleftrightarrow> first_version_conflict (error_leaves e) = None \<and>
     (\<forall>t \<in> set business_sentinels. \<not> error_is e t)"
  by (simp add: map_business_error_def business_sentinels_def Let_def split: option.splits)

lemma first_version_conflict_append:
  "first_version_conflict (xs @ ys) = None \<longleftrightarrow> first_version_conflict xs = None \<and> first_version_conflict ys = None"
  by (induction xs rule: first_version_conflict.induct) simp_all

lemma error_is_Joined: "error_is (Joined a b) t \<longleftrightarrow> error_is a t \<or> error_is b t"
  by (simp add: error_is_def)

lemma error_is_wrapped: "error_is (Wrapped t e) = error_is e" "error_is (Aggregate e v) = error_is e"
  by (intro ext; simp add: error_is_def)+

lemma business_wrapped [simp]:
  "map_business_error (Wrapped t e) = map_business_error e" "map_business_error (Aggregate e v) = map_business_error e"
  by (simp_all only: map_business_error_def error_is_wrapped error_leaves.simps)

lemma business_joined: "map_business_error (Joined a b) = None \<longleftrightarrow> map_business_error a = None \<and> map_business_error b = None"
  by (auto simp: map_business_error_None first_version_conflict_append error_is_Joined)

lemma business_fault [simp]: "map_business_error (Fault t) = None"
  by (simp add: map_business_error_None error_is_def business_sentinels_def)

lemma business_internal [simp]:
  "map_business_error (App AppOptimisticConflict) = None" "map_business_error (App AppLiveProgressed) = None"
  "map_business_error (App AppProtectionFailed) = None" "map_business_error (App AppRetryableTransaction) = None"
  by (simp_all add: map_business_error_None error_is_def business_sentinels_def)

section \<open>Calls that keep data\<close>

definition keeps :: "('s \<Rightarrow> 'd) \<Rightarrow> ('s, 'a) call \<Rightarrow> bool" where
  "keeps data m \<longleftrightarrow> (\<forall>s r s'. m s = (r, s') \<longrightarrow> data s' = data s)"

definition internal :: "('s, 'a) call \<Rightarrow> bool" where
  "internal m \<longleftrightarrow> (\<forall>s e s'. m s = (Inl e, s') \<longrightarrow> map_business_error e = None)"

definition atomic :: "('s \<Rightarrow> 'd) \<Rightarrow> ('s, 'a) call \<Rightarrow> bool" where
  "atomic data m \<longleftrightarrow> (\<forall>s e s'. m s = (Inl e, s') \<longrightarrow> map_business_error e = None \<or> data s' = data s)"

named_theorems keeps_intros
named_theorems atomic_intros

lemma keepsD: "keeps data m \<Longrightarrow> m s = (r, s') \<Longrightarrow> data s' = data s"
  by (simp add: keeps_def)

lemma atomicD: "atomic data m \<Longrightarrow> m s = (Inl e, s') \<Longrightarrow> map_business_error e = Some f \<Longrightarrow> data s' = data s"
  by (fastforce simp: atomic_def)

lemma keepsI: "(\<And>s r s'. m s = (r, s') \<Longrightarrow> data s' = data s) \<Longrightarrow> keeps data m"
  by (simp add: keeps_def)

lemma internalD: "internal m \<Longrightarrow> m s = (Inl e, s') \<Longrightarrow> map_business_error e = None"
  by (auto simp: internal_def)

lemma internalI: "(\<And>s e s'. m s = (Inl e, s') \<Longrightarrow> map_business_error e = None) \<Longrightarrow> internal m"
  by (auto simp: internal_def)

lemma atomicI:
  "(\<And>s e s'. m s = (Inl e, s') \<Longrightarrow> map_business_error e = None \<or> data s' = data s) \<Longrightarrow> atomic data m"
  by (auto simp: atomic_def)

lemma keeps_simple [keeps_intros]:
  "keeps data (give x)" "keeps data (fail_with e)" "keeps data (give_result r)" "keeps data (guard b e)"
  "keeps data (domain_call d)"
  by (simp_all add: keeps_def call_simps domain_call_def)

lemma keeps_and_then [keeps_intros]: "keeps data m \<Longrightarrow> (\<And>x. keeps data (f x)) \<Longrightarrow> keeps data (and_then m f)"
  by (rule keepsI) (fastforce simp: and_then_def dest: keepsD split: prod.splits sum.splits)

lemma keeps_or_else [keeps_intros]: "keeps data m \<Longrightarrow> (\<And>e. keeps data (h e)) \<Longrightarrow> keeps data (or_else m h)"
  by (rule keepsI) (fastforce simp: or_else_def dest: keepsD split: prod.splits sum.splits)

lemma keeps_wrapped [keeps_intros]:
  "keeps data m \<Longrightarrow> keeps data (wrap_infrastructure t m)" "keeps data m \<Longrightarrow> keeps data (aggregate_call v m)"
  by (simp_all add: wrap_infrastructure_def aggregate_call_def keeps_or_else keeps_simple)

lemma keeps_split [keeps_intros]: "(\<And>a b. keeps data (f a b)) \<Longrightarrow> keeps data (case p of (a, b) \<Rightarrow> f a b)"
  by (cases p) simp

lemma internal_simple [atomic_intros]:
  "internal (give x)" "map_business_error e = None \<Longrightarrow> internal (guard b e)"
  "map_business_error e = None \<Longrightarrow> internal (fail_with e)"
  by (simp_all add: internal_def call_simps)

lemma internal_and_then [atomic_intros]: "internal m \<Longrightarrow> (\<And>x. internal (f x)) \<Longrightarrow> internal (and_then m f)"
  by (rule internalI) (auto simp: and_then_Inl dest: internalD)

lemma internal_wrapped [atomic_intros]: "internal m \<Longrightarrow> internal (wrap_infrastructure t m)"
  by (rule internalI) (auto simp: wrap_Inl dest: internalD)

lemma atomic_keeps: "keeps data m \<Longrightarrow> atomic data m"
  by (auto simp: atomic_def keeps_def)

lemma atomic_internal: "internal m \<Longrightarrow> atomic data m"
  by (auto simp: atomic_def internal_def)

lemma atomic_first: "keeps data m \<Longrightarrow> (\<And>x. atomic data (f x)) \<Longrightarrow> atomic data (and_then m f)"
proof (rule atomicI)
  fix s e s'
  assume m: "keeps data m" and f: "\<And>x. atomic data (f x)" and "and_then m f s = (Inl e, s')"
  then consider "m s = (Inl e, s')" | x s1 where "m s = (Inr x, s1)" "f x s1 = (Inl e, s')"
    unfolding and_then_Inl by blast
  then show "map_business_error e = None \<or> data s' = data s"
    by cases (use m f in \<open>metis keepsD atomic_def\<close>)+
qed

lemma atomic_last: "atomic data m \<Longrightarrow> (\<And>x. internal (f x)) \<Longrightarrow> atomic data (and_then m f)"
proof (rule atomicI)
  fix s e s'
  assume m: "atomic data m" and f: "\<And>x. internal (f x)" and "and_then m f s = (Inl e, s')"
  then consider "m s = (Inl e, s')" | x s1 where "m s = (Inr x, s1)" "f x s1 = (Inl e, s')"
    unfolding and_then_Inl by blast
  then show "map_business_error e = None \<or> data s' = data s"
    by cases (use m f in \<open>metis internalD atomic_def\<close>)+
qed

lemma atomic_split: "(\<And>a b. atomic data (f a b)) \<Longrightarrow> atomic data (case p of (a, b) \<Rightarrow> f a b)"
  by (cases p) simp

text \<open>A property of every value that a call gives.\<close>

definition yields :: "('a \<Rightarrow> bool) \<Rightarrow> ('s, 'a) call \<Rightarrow> bool" where
  "yields P m \<longleftrightarrow> (\<forall>s x s'. m s = (Inr x, s') \<longrightarrow> P x)"

definition undo_keeps :: "('s \<Rightarrow> 'd) \<Rightarrow> 's mutation_outcome \<Rightarrow> bool" where
  "undo_keeps data outcome \<longleftrightarrow> (\<forall>m. mu_rollback outcome = Some m \<longrightarrow> keeps data m)"

lemma yields_and_then: "(\<And>x. yields P (f x)) \<Longrightarrow> yields P (and_then m f)"
  unfolding yields_def and_then_Inr by blast

lemma yields_or_else: "yields P m \<Longrightarrow> (\<And>e s x s'. h e s \<noteq> (Inr x, s')) \<Longrightarrow> yields P (or_else m h)"
  unfolding yields_def or_else_Inr by blast

lemma yields_give: "P x \<Longrightarrow> yields P (give x)"
  by (simp add: yields_def call_simps)

lemma yields_split: "(\<And>a b. yields P (f a b)) \<Longrightarrow> yields P (case p of (a, b) \<Rightarrow> f a b)"
  by (cases p) simp

lemmas yields_intros = yields_and_then yields_or_else yields_give yields_split

section \<open>The laws of a transaction\<close>

locale transaction_laws =
  fixes tx :: "'s transaction" and data :: "'s \<Rightarrow> 'd"
  assumes claim_keeps: "keeps data (tx_claim tx actor cmd now)"
    and complete_keeps: "keeps data (tx_complete tx actor cid result now)"
    and lock_sequence_keeps: "keeps data (tx_lock_sequence tx typ aid actor)"
    and save_sequence_keeps: "keeps data (tx_save_sequence tx typ aid actor seq now)"
    and load_room_keeps: "keeps data (tx_load_room tx rid)"
    and load_hand_keeps: "keeps data (tx_load_hand tx hid)"
    and insert_room_atomic: "atomic data (tx_insert_room tx room now)"
    and insert_hand_atomic: "atomic data (tx_insert_hand tx hand now)"
    and insert_record_atomic: "atomic data (tx_insert_record tx record)"
    and update_room_internal: "internal (tx_update_room tx room previous now)"
    and update_hand_internal: "internal (tx_update_hand tx hand previous now)"
    and guard_keeps: "tx_live_guard tx = Some g \<Longrightarrow> keeps data (lk_lock_version g hid) \<and> keeps data (lk_fence_writer g hid)"
begin

lemmas tx_keeps = claim_keeps complete_keeps lock_sequence_keeps save_sequence_keeps load_room_keeps load_hand_keeps

end

text \<open>
  What the service calls outside the transaction leaves the data alone: the clock, the generators, the
  hand setups, the reveal codec and the live runtime.
\<close>

locale memory_laws =
  fixes sv :: "'s service" and data :: "'s \<Rightarrow> 'd"
  assumes clock_keeps: "sv_clock sv s = (t, s') \<Longrightarrow> data s' = data s"
    and new_id_keeps: "keeps data (sv_new_id sv)"
    and prepare_keeps: "keeps data (sp_prepare (sv_setups sv) snapshot hid)"
    and release_keeps: "keeps data (sp_release (sv_setups sv) hid)"
    and beacon_keeps: "keeps data (sv_verify_beacon sv plan v)"
    and open_keeps: "keeps data (sv_open sv envelope aad ctx)"
    and seal_keeps: "keeps data (pt_seal (sv_protector sv) plaintext aad)"
    and start_keeps: "keeps data (lr_start (sv_live sv) hand)"
    and rollback_start_keeps: "keeps data (lr_rollback_start (sv_live sv) hid)"
    and release_prepared_keeps: "keeps data (lr_release_prepared (sv_live sv) hid)"
    and abort_keeps: "keeps data (lr_abort (sv_live sv) hid reason)"
begin

lemmas outside_keeps = new_id_keeps prepare_keeps release_keeps beacon_keeps open_keeps seal_keeps start_keeps
  rollback_start_keeps

lemma clock_now_keeps: "keeps data (clock_now sv)"
  using clock_keeps by (auto simp: keeps_def clock_now_def split: prod.splits)

text \<open>What a handler leaves to be undone in memory keeps the data too.\<close>

lemma start_room_hand_rollback: "yields (undo_keeps data) (start_room_hand_handler sv actor cmd input now)"
  unfolding start_room_hand_handler_def install_hand_def Let_def
  by (intro yields_intros) (auto simp: undo_keeps_def fail_after_preparation_def release_keeps split: prod.splits sum.splits)

lemma dealt_rollback: "yields (undo_keeps data) (dealt_handler sv cmd now)"
  unfolding dealt_handler_def Let_def
  by (intro yields_intros) (auto simp: undo_keeps_def rollback_start_keeps)

lemma body_rollback:
  assumes "command_body sv actor cmd handler s = ((r, c), s')" and "\<And>now. yields (undo_keeps data) (handler now)"
    and "ck_rollback c = Some m"
  shows "keeps data m"
proof -
  have "\<exists>now s1 outcome s2. handler now s1 = (Inr outcome, s2) \<and> mu_rollback outcome = Some m"
    using assms(1,3)
    by (auto simp: command_body_def run_claimed_def run_handler_def store_outcome_def body_result_def Let_def
        split: prod.splits sum.splits if_splits option.splits) (blast+)
  then show ?thesis using assms(2) by (auto simp: yields_def undo_keeps_def)
qed

lemma finalize_keeps:
  assumes "finalize_terminated_runtime sv hid reason m s = ((err, result), s')"
  shows "\<exists>r s1. m s = (r, s1) \<and> data s' = data s1 \<and>
    (case r of Inl e \<Rightarrow> err = Some e \<and> result = zero_result | Inr x \<Rightarrow> result = x)"
proof -
  obtain r s1 where m: "m s = (r, s1)" by (cases "m s")
  have w: "keeps data (wrap_infrastructure ''archive terminal live hand'' (lr_abort (sv_live sv) hid reason))"
    "keeps data (wrap_infrastructure ''release terminal prepared hand'' (lr_release_prepared (sv_live sv) hid))"
    by (intro keeps_intros abort_keeps release_prepared_keeps)+
  show ?thesis
    using assms m by (auto simp: finalize_terminated_runtime_def dest: keepsD [OF w(1)] keepsD [OF w(2)]
        split: sum.splits if_splits prod.splits)
qed

end

text \<open>
  The service on such a transaction: a body that ends without an error is what is committed; \<open>definite\<close> says
  that a transaction that failed, its COMMIT included, was not applied.
\<close>

locale service_laws = transaction_laws "sx_transaction (sv_store sv)" data + memory_laws sv data
  for sv :: "'s service" and data :: "'s \<Rightarrow> 'd" +
  fixes definite :: bool
  assumes within_commits: "sx_within (sv_store sv) actor cid body s = ((None, c), s') \<Longrightarrow>
      \<exists>s1 s2. data s1 = data s \<and> body s1 = ((None, c), s2) \<and> data s' = data s2"
    and within_undone: "sx_within (sv_store sv) actor cid body s = ((Some e, c), s') \<Longrightarrow>
      (definite \<longrightarrow> data s' = data s) \<and> (ck_rollback c = None \<or> (\<exists>s1 r s2. body s1 = ((r, c), s2)))"
begin

section \<open>The handlers\<close>

lemma create_room_atomic: "atomic data (create_room_handler sv actor cmd now)"
  unfolding create_room_handler_def Let_def
  by (intro atomic_first atomic_split atomic_last insert_room_atomic keeps_intros atomic_intros)

lemma mutate_room_atomic: "atomic data (mutate_room_handler sv cmd mutation now)"
  unfolding mutate_room_handler_def Let_def
  by (intro atomic_first atomic_split atomic_internal update_room_internal tx_keeps keeps_intros atomic_intros)

lemma install_hand_atomic: "atomic data (install_hand sv input snapshot room events seats su now)"
  unfolding install_hand_def Let_def
  by (intro atomic_first atomic_split atomic_last insert_hand_atomic update_room_internal keeps_intros atomic_intros)

lemma after_preparation_atomic:
  fixes m :: "('s, 'x) call"
  assumes "atomic data m" and release: "internal (sp_release (sv_setups sv) hid)"
  shows "atomic data (or_else m (fail_after_preparation sv hid))"
  unfolding atomic_def
proof (intro allI impI)
  fix s e s'
  assume "or_else m (fail_after_preparation sv hid) s = (Inl e, s')"
  then obtain cause s1 where m: "m s = (Inl cause, s1)" and f: "(fail_after_preparation sv hid cause :: ('s, 'x) call) s1 = (Inl e, s')"
    unfolding or_else_Inl by blast
  obtain r where r: "sp_release (sv_setups sv) hid s1 = (r, s')" and
    e: "e = (case r of Inl e' \<Rightarrow> Joined cause (Wrapped ''release prepared hand setup'' e') | Inr _ \<Rightarrow> cause)"
    using f by (auto simp: fail_after_preparation_def split: prod.splits sum.splits)
  have "data s' = data s1" using release_keeps r by (auto simp: keeps_def)
  moreover have "map_business_error e = None" if "map_business_error cause = None"
    using that e r release by (auto simp: internal_def business_joined split: sum.splits)
  ultimately show "map_business_error e = None \<or> data s' = data s"
    using assms m by (fastforce simp: atomic_def)
qed

lemma start_room_hand_atomic:
  "internal (sp_release (sv_setups sv) (hi_hand input)) \<Longrightarrow> atomic data (start_room_hand_handler sv actor cmd input now)"
  unfolding start_room_hand_handler_def Let_def
  by (intro atomic_first atomic_split after_preparation_atomic install_hand_atomic tx_keeps outside_keeps keeps_intros)

lemma mutate_hand_atomic:
  "(\<And>hand. keeps data (mutation hand)) \<Longrightarrow> atomic data (mutate_hand_handler sv cmd mutation now)"
  unfolding mutate_hand_handler_def Let_def
  by (intro atomic_first atomic_split atomic_internal update_hand_internal tx_keeps keeps_intros atomic_intros)

lemma seal_record_keeps: "keeps data (seal_record sv actor cmd snapshot seat plaintext decoded rid now)"
  unfolding seal_record_def by (intro keeps_intros seal_keeps)

lemma store_reveal_atomic: "atomic data (store_reveal sv actor cmd snapshot seat envelope aad submit operation now)"
  unfolding store_reveal_def Let_def open_reveal_def
  by (intro atomic_first atomic_split atomic_last insert_record_atomic update_hand_internal seal_record_keeps outside_keeps
      keeps_intros atomic_intros)

lemma submit_reveal_atomic: "atomic data (submit_reveal_handler sv actor cmd envelope now)"
  unfolding submit_reveal_handler_def Let_def
  by (intro atomic_first atomic_split store_reveal_atomic tx_keeps keeps_intros)

lemma contribution_atomic: "atomic data (contribution_handler sv actor cmd envelope now)"
  unfolding contribution_handler_def Let_def
  by (intro atomic_first atomic_split store_reveal_atomic tx_keeps keeps_intros)

lemma beacon_atomic: "atomic data (beacon_handler sv cmd v now)"
  unfolding beacon_handler_def Let_def
  by (intro atomic_first atomic_split atomic_internal update_hand_internal tx_keeps outside_keeps keeps_intros atomic_intros)

lemma undo_start_Inl:
  assumes "undo_start sv hid cause s = (Inl e, s')" and "map_business_error cause = None"
    and rollback: "internal (lr_rollback_start (sv_live sv) hid)"
  shows "map_business_error e = None"
proof -
  obtain r s1 where r: "lr_rollback_start (sv_live sv) hid s = (r, s1)" by (cases "lr_rollback_start (sv_live sv) hid s")
  show ?thesis
    using assms r internalD [OF rollback, of s] by (cases r) (auto simp: undo_start_def business_joined)
qed

lemma undo_start_internal:
  "internal m \<Longrightarrow> internal (lr_rollback_start (sv_live sv) hid) \<Longrightarrow> internal (or_else m (undo_start sv hid))"
  by (rule internalI) (auto simp: or_else_Inl dest: internalD undo_start_Inl)

lemma dealt_atomic:
  "(\<And>hid. internal (lr_rollback_start (sv_live sv) hid)) \<Longrightarrow> atomic data (dealt_handler sv cmd now)"
  unfolding dealt_handler_def Let_def
  by (intro atomic_first atomic_split atomic_internal undo_start_internal update_hand_internal tx_keeps outside_keeps
      keeps_intros atomic_intros)

lemma fence_keeps: "keeps data (fence_expiry sv name input hid)"
proof -
  have "keeps data (and_then (wrap_infrastructure a (lk_lock_version g hid)) (\<lambda>committed.
      and_then (guard (committed > v) e) (\<lambda>_. wrap_infrastructure b (lk_fence_writer g hid))))"
    if "tx_live_guard (sx_transaction (sv_store sv)) = Some g" for a b g v e
    using guard_keeps [OF that] by (intro keeps_intros) auto
  then show ?thesis by (auto simp: fence_expiry_def keeps_simple split: option.splits)
qed

lemma terminate_atomic: "atomic data (terminate_handler sv cmd name input mutation now)"
  unfolding terminate_handler_def Let_def
  by (intro atomic_first atomic_split atomic_internal update_hand_internal update_room_internal fence_keeps tx_keeps
      keeps_intros atomic_intros)

section \<open>A rejected command changed nothing\<close>

lemma body_result_None:
  "body_result m result rollback s = ((None, c), s') \<longleftrightarrow>
     (\<exists>u. m s = (Inr u, s')) \<and> c = \<lparr>ck_result = result, ck_rollback = rollback\<rparr>"
  by (auto simp: body_result_def split: prod.splits sum.splits)

lemma store_outcome_accepted: "store_outcome sv actor cmd now outcome s = ((None, c), s') \<Longrightarrow> cr_accepted (ck_result c)"
  by (auto simp: store_outcome_def Let_def body_result_None call_simps accepted_result_def split: prod.splits sum.splits)

lemma run_handler_rejected:
  assumes "run_handler sv actor cmd now handler s = ((None, c), s')" and "\<not> cr_accepted (ck_result c)"
    and "atomic data (handler now)"
  shows "data s' = data s"
proof -
  obtain r s1 where h: "handler now s = (r, s1)" by (cases "handler now s")
  show ?thesis
  proof (cases r)
    case (Inl e)
    with assms(1) h obtain f where f: "map_business_error e = Some f"
      by (cases "map_business_error e") (auto simp: run_handler_def body_result_None call_simps)
    with assms(3) h Inl have "data s1 = data s" by (blast dest: atomicD)
    moreover have "data s' = data s1"
      using assms(1) h Inl f
      by (auto simp: run_handler_def Let_def body_result_None call_simps dest!: keepsD [OF complete_keeps]
          keepsD [OF save_sequence_keeps])
    ultimately show ?thesis by simp
  next
    case (Inr outcome)
    with assms(1,2) h store_outcome_accepted show ?thesis by (auto simp: run_handler_def)
  qed
qed

lemma body_rejected:
  assumes "command_body sv actor cmd handler s = ((None, c), s')" and "\<not> cr_accepted (ck_result c)"
    and "\<And>now. atomic data (handler now)"
  shows "data s' = data s"
proof -
  let ?tx = "sx_transaction (sv_store sv)"
  obtain clock s0 where c: "sv_clock sv s = (clock, s0)" by (cases "sv_clock sv s")
  let ?now = "time_utc clock"
  obtain stored completed s1 where claim: "tx_claim ?tx actor cmd ?now s0 = (Inr (stored, completed), s1)"
    and rest: "(if \<not> same_command (sd_command stored) cmd \<or> completed then s' = s1
      else run_claimed sv actor cmd ?now handler s1 = ((None, c), s'))"
    using assms(1) c
    by (auto simp: command_body_def Let_def body_result_None call_simps split: prod.splits sum.splits if_splits)
  have "data s1 = data s" using clock_keeps [OF c] keepsD [OF claim_keeps claim] by simp
  moreover have "data s' = data s1"
  proof (cases "\<not> same_command (sd_command stored) cmd \<or> completed")
    case False
    with rest have r: "run_claimed sv actor cmd ?now handler s1 = ((None, c), s')" by simp
    show ?thesis
    proof (cases "validate_freshness sv cmd ?now")
      case None
      with r obtain latest s2 where l: "tx_lock_sequence ?tx (ac_type cmd) (ac_aggregate cmd) actor s1 = (Inr latest, s2)"
        and rest: "(if ac_seq cmd \<le> latest then \<exists>result. tx_complete ?tx actor (ac_id cmd) result ?now s2 = (Inr (), s')
          else run_handler sv actor cmd ?now handler s2 = ((None, c), s'))"
        by (auto simp: run_claimed_def Let_def body_result_None call_simps split: prod.splits sum.splits if_splits)
      have "data s2 = data s1" using keepsD [OF lock_sequence_keeps l] .
      moreover have "data s' = data s2"
        using rest assms(2,3) run_handler_rejected
        by (auto split: if_splits dest: keepsD [OF complete_keeps])
      ultimately show ?thesis by simp
    qed (use r in \<open>auto simp: run_claimed_def Let_def body_result_None call_simps dest: keepsD [OF complete_keeps]\<close>)
  qed (use rest in auto)
  ultimately show ?thesis by simp
qed

lemma execute_rejected:
  assumes "execute sv actor cmd name typ zero payload handler s = (Inr result, s')"
    and "\<not> cr_accepted result" and "\<And>now. atomic data (handler now)"
  shows "data s' = data s"
proof (cases "validate_command_identity actor (bind_command_payload cmd payload) name typ zero")
  case None
  then obtain c where w: "sx_within (sv_store sv) actor (ac_id (bind_command_payload cmd payload))
      (command_body sv actor (bind_command_payload cmd payload) handler) s = ((None, c), s')" and r: "result = ck_result c"
    using assms(1) by (auto simp: execute_def Let_def split: prod.splits option.splits sum.splits)
  obtain s1 s2 where "data s1 = data s"
      "command_body sv actor (bind_command_payload cmd payload) handler s1 = ((None, c), s2)" "data s' = data s2"
    using within_commits [OF w] by blast
  then show ?thesis using body_rejected assms(2,3) r by auto
qed (use assms(1) in \<open>auto simp: execute_def Let_def\<close>)

lemma execute_failed:
  assumes "execute sv actor cmd name typ zero payload handler s = (Inl err, s')" and definite
    and "\<And>now. yields (undo_keeps data) (handler now)"
  shows "data s' = data s"
proof -
  let ?cmd = "bind_command_payload cmd payload"
  obtain e c s1 where w: "sx_within (sv_store sv) actor (ac_id ?cmd) (command_body sv actor ?cmd handler) s = ((Some e, c), s1)"
    and u: "case ck_rollback c of None \<Rightarrow> s' = s1 | Some m \<Rightarrow> \<exists>r. m s1 = (r, s')"
    using assms(1) by (auto simp: execute_def Let_def split: prod.splits option.splits sum.splits)
  have "data s1 = data s" using within_undone [OF w] assms(2) by simp
  moreover have "data s' = data s1"
  proof (cases "ck_rollback c")
    case (Some m)
    then obtain s2 r s3 where "command_body sv actor ?cmd handler s2 = ((r, c), s3)" using within_undone [OF w] by auto
    then have "keeps data m" using body_rollback assms(3) Some by blast
    then show ?thesis using u Some by (auto dest: keepsD)
  qed (use u in simp)
  ultimately show ?thesis by simp
qed

end

end
