(* ===== verification/App_Requests.thy ===== *)
theory App_Requests
  imports App_Atomic
begin

text \<open>
  The durable commands as one type of requests, each run by the service's method of that name, and what
  they share: every one is \<open>execute\<close> with a handler that is atomic and never writes commands or sequences.
\<close>

datatype app_request =
    CreateRoom
  | JoinRoom
  | LeaveRoom
  | SetRoomReady bool
  | StartRoomHand start_hand_input
  | SubmitHandCommit bytes
  | SubmitHandReveal secure_envelope
  | SubmitHandContribution secure_envelope
  | LockHandBeacon beacon_value
  | MarkHandDealt
  | StartHandPlaying
  | StartHandSettlement
  | CompleteHand
  | CancelHand terminate_input
  | AbortHand terminate_input
  | ExpireHand terminate_input

definition plain :: "('s, command_result) call \<Rightarrow> 's finalized" where
  "plain m s = (case m s of (Inl e, s') \<Rightarrow> ((Some e, zero_result), s') | (Inr result, s') \<Rightarrow> ((None, result), s'))"

fun run_request :: "'s service \<Rightarrow> account_id \<Rightarrow> app_command \<Rightarrow> app_request \<Rightarrow> 's finalized" where
  "run_request sv actor cmd CreateRoom = plain (create_room sv actor cmd)"
| "run_request sv actor cmd JoinRoom = plain (join_room sv actor cmd)"
| "run_request sv actor cmd LeaveRoom = plain (leave_room sv actor cmd)"
| "run_request sv actor cmd (SetRoomReady ready) = plain (set_room_ready sv actor cmd ready)"
| "run_request sv actor cmd (StartRoomHand input) = plain (start_room_hand sv actor cmd input)"
| "run_request sv actor cmd (SubmitHandCommit commitment) = plain (submit_hand_commit sv actor cmd commitment)"
| "run_request sv actor cmd (SubmitHandReveal envelope) = plain (submit_hand_reveal sv actor cmd envelope)"
| "run_request sv actor cmd (SubmitHandContribution envelope) = plain (submit_hand_contribution sv actor cmd envelope)"
| "run_request sv actor cmd (LockHandBeacon v) = plain (lock_hand_beacon sv actor cmd v)"
| "run_request sv actor cmd MarkHandDealt = plain (mark_hand_dealt sv actor cmd)"
| "run_request sv actor cmd StartHandPlaying = plain (start_hand_playing sv actor cmd)"
| "run_request sv actor cmd StartHandSettlement = plain (start_hand_settlement sv actor cmd)"
| "run_request sv actor cmd CompleteHand = plain (complete_hand_command sv actor cmd)"
| "run_request sv actor cmd (CancelHand input) = cancel_hand_command sv actor cmd input"
| "run_request sv actor cmd (AbortHand input) = abort_hand_command sv actor cmd input"
| "run_request sv actor cmd (ExpireHand input) = expire_hand_command sv actor cmd input"

section \<open>Every request is \<open>execute\<close> with a handler\<close>

fun request_name :: "app_request \<Rightarrow> string" where
  "request_name CreateRoom = name_room_create"
| "request_name JoinRoom = name_room_join"
| "request_name LeaveRoom = name_room_leave"
| "request_name (SetRoomReady ready) = name_room_ready_set"
| "request_name (StartRoomHand input) = name_room_hand_start"
| "request_name (SubmitHandCommit commitment) = name_hand_commit"
| "request_name (SubmitHandReveal envelope) = name_hand_reveal"
| "request_name (SubmitHandContribution envelope) = name_hand_contribution"
| "request_name (LockHandBeacon v) = name_hand_beacon_lock"
| "request_name MarkHandDealt = name_hand_dealt"
| "request_name StartHandPlaying = name_hand_play_start"
| "request_name StartHandSettlement = name_hand_settlement"
| "request_name CompleteHand = name_hand_complete"
| "request_name (CancelHand input) = name_hand_cancel"
| "request_name (AbortHand input) = name_hand_abort"
| "request_name (ExpireHand input) = name_hand_expire"

fun request_type :: "app_request \<Rightarrow> aggregate_type" where
  "request_type CreateRoom = AggregateRoom"
| "request_type JoinRoom = AggregateRoom"
| "request_type LeaveRoom = AggregateRoom"
| "request_type (SetRoomReady ready) = AggregateRoom"
| "request_type (StartRoomHand input) = AggregateRoom"
| "request_type _ = AggregateHand"

definition request_creates :: "app_request \<Rightarrow> bool" where "request_creates req \<longleftrightarrow> req = CreateRoom"

fun request_payload :: "app_request \<Rightarrow> json" where
  "request_payload (SetRoomReady ready) = JObj (member ''Ready'' (JBool ready))"
| "request_payload (StartRoomHand input) = json_start_hand input"
| "request_payload (SubmitHandCommit commitment) = JObj (member ''Commitment'' (json_array32 commitment))"
| "request_payload (SubmitHandReveal envelope) = JObj (member ''Envelope'' (json_envelope envelope))"
| "request_payload (SubmitHandContribution envelope) = JObj (member ''Envelope'' (json_envelope envelope))"
| "request_payload (LockHandBeacon v) = JObj (member ''Value'' (json_beacon_value v))"
| "request_payload (CancelHand input) = json_terminate input"
| "request_payload (AbortHand input) = json_terminate input"
| "request_payload (ExpireHand input) = json_terminate input"
| "request_payload _ = no_payload"

fun request_handler :: "'s service \<Rightarrow> account_id \<Rightarrow> app_command \<Rightarrow> app_request \<Rightarrow> 's handler" where
  "request_handler sv actor cmd CreateRoom = create_room_handler sv actor cmd"
| "request_handler sv actor cmd JoinRoom = mutate_room_handler sv cmd (\<lambda>room. join room actor (ac_expected cmd))"
| "request_handler sv actor cmd LeaveRoom = mutate_room_handler sv cmd (\<lambda>room. leave room actor (ac_expected cmd))"
| "request_handler sv actor cmd (SetRoomReady ready) =
     mutate_room_handler sv cmd (\<lambda>room. set_ready room actor ready (ac_expected cmd))"
| "request_handler sv actor cmd (StartRoomHand input) = start_room_hand_handler sv actor cmd input"
| "request_handler sv actor cmd (SubmitHandCommit commitment) =
     mutate_hand_handler sv cmd (\<lambda>hand. and_then (clock_now sv) (\<lambda>now.
       and_then (give_result (check_contribution_deadline (hn_plan (hand_snapshot_of hand)) now)) (\<lambda>_.
         domain_call (submit_commit hand actor commitment (ac_expected cmd)))))"
| "request_handler sv actor cmd (SubmitHandReveal envelope) = submit_reveal_handler sv actor cmd envelope"
| "request_handler sv actor cmd (SubmitHandContribution envelope) = contribution_handler sv actor cmd envelope"
| "request_handler sv actor cmd (LockHandBeacon v) = beacon_handler sv cmd v"
| "request_handler sv actor cmd MarkHandDealt = dealt_handler sv cmd"
| "request_handler sv actor cmd StartHandPlaying =
     mutate_hand_handler sv cmd (\<lambda>hand. domain_call (start_playing hand (ac_expected cmd)))"
| "request_handler sv actor cmd StartHandSettlement =
     mutate_hand_handler sv cmd (\<lambda>hand. domain_call (start_settling hand (ac_expected cmd)))"
| "request_handler sv actor cmd CompleteHand =
     terminate_handler sv cmd name_hand_complete None (\<lambda>hand. complete_hand hand (ac_expected cmd))"
| "request_handler sv actor cmd (CancelHand input) =
     terminate_handler sv cmd name_hand_cancel (Some input) (\<lambda>hand. cancel_hand hand (ni_reason input) (ac_expected cmd))"
| "request_handler sv actor cmd (AbortHand input) =
     terminate_handler sv cmd name_hand_abort (Some input) (\<lambda>hand. abort_hand hand (ni_reason input) (ac_expected cmd))"
| "request_handler sv actor cmd (ExpireHand input) =
     terminate_handler sv cmd name_hand_expire (Some input) (\<lambda>hand. expire_hand hand (ni_reason input) (ac_expected cmd))"

fun ending_reason :: "app_request \<Rightarrow> string option" where
  "ending_reason (CancelHand input) = Some (ni_reason input)"
| "ending_reason (AbortHand input) = Some (ni_reason input)"
| "ending_reason (ExpireHand input) = Some (ni_reason input)"
| "ending_reason _ = None"

definition request_end :: "'s service \<Rightarrow> app_command \<Rightarrow> app_request \<Rightarrow> ('s, command_result) call \<Rightarrow> 's finalized" where
  "request_end sv cmd req =
     (case ending_reason req of
        None \<Rightarrow> plain
      | Some reason \<Rightarrow> finalize_terminated_runtime sv (ac_aggregate cmd) reason)"

fun mode_known :: "app_request \<Rightarrow> bool" where
  "mode_known (StartRoomHand input) \<longleftrightarrow> hi_mode input = [] \<or> hi_mode input = fairness_mode_client_custodied"
| "mode_known _ \<longleftrightarrow> True"

definition request_call :: "'s service \<Rightarrow> account_id \<Rightarrow> app_command \<Rightarrow> app_request \<Rightarrow> ('s, command_result) call" where
  "request_call sv actor cmd req =
     execute sv actor cmd (request_name req) (request_type req) (request_creates req) (request_payload req)
       (request_handler sv actor cmd req)"

lemmas command_defs = create_room_def join_room_def leave_room_def set_room_ready_def mutate_room_def start_room_hand_def
  submit_hand_commit_def mutate_hand_def submit_hand_reveal_def submit_hand_contribution_def lock_hand_beacon_def
  mark_hand_dealt_def start_hand_playing_def start_hand_settlement_def complete_hand_command_def terminate_hand_def
  cancel_hand_command_def abort_hand_command_def expire_hand_command_def

lemma run_request_call:
  "run_request sv actor cmd req =
     (if mode_known req then request_end sv cmd req (request_call sv actor cmd req)
      else plain (fail_with (App AppInvalidCommand)))"
  by (cases req) (auto simp: command_defs request_end_def request_call_def request_creates_def)

lemma plain_end:
  "plain m s = ((err, result), s') \<longleftrightarrow>
     (case err of None \<Rightarrow> m s = (Inr result, s') | Some e \<Rightarrow> result = zero_result \<and> m s = (Inl e, s'))"
  by (auto simp: plain_def split: prod.splits sum.splits option.splits)

section \<open>Requests are atomic\<close>

definition undo_internal :: "'s service \<Rightarrow> bool" where
  "undo_internal sv \<longleftrightarrow> (\<forall>hid. internal (sp_release (sv_setups sv) hid) \<and> internal (lr_rollback_start (sv_live sv) hid))"

context memory_laws
begin

lemma simple_rollback:
  "yields (undo_keeps data) (create_room_handler sv actor cmd now)"
  "yields (undo_keeps data) (mutate_room_handler sv cmd room_mutation now)"
  "yields (undo_keeps data) (mutate_hand_handler sv cmd mutation now)"
  "yields (undo_keeps data) (submit_reveal_handler sv actor cmd envelope now)"
  "yields (undo_keeps data) (contribution_handler sv actor cmd envelope now)"
  "yields (undo_keeps data) (beacon_handler sv cmd v now)"
  "yields (undo_keeps data) (terminate_handler sv cmd name input hand_mutation now)"
  by (unfold create_room_handler_def mutate_room_handler_def mutate_hand_handler_def submit_reveal_handler_def
      contribution_handler_def store_reveal_def beacon_handler_def terminate_handler_def Let_def)
    (intro yields_intros; simp add: undo_keeps_def)+

lemma request_rollback: "yields (undo_keeps data) (request_handler sv actor cmd req now)"
  by (cases req) (simp_all add: simple_rollback start_room_hand_rollback dealt_rollback)

lemma request_ends:
  assumes "run_request sv actor cmd req s = ((err, result), s')"
  shows "\<exists>r s1. (if mode_known req then request_call sv actor cmd req else fail_with (App AppInvalidCommand)) s = (r, s1) \<and>
    data s' = data s1 \<and> (case r of Inl e \<Rightarrow> err = Some e \<and> result = zero_result | Inr x \<Rightarrow> result = x)"
proof (cases "mode_known req \<and> ending_reason req \<noteq> None")
  case True
  then show ?thesis
    using assms finalize_keeps by (fastforce simp: run_request_call request_end_def)
next
  case False
  then show ?thesis
    using assms by (auto simp: run_request_call request_end_def plain_end split: option.splits if_splits)
qed

end

context service_laws
begin

lemma request_atomic: "undo_internal sv \<Longrightarrow> atomic data (request_handler sv actor cmd req now)"
proof (cases req)
  case (SubmitHandCommit commitment)
  show ?thesis unfolding SubmitHandCommit request_handler.simps
    by (intro mutate_hand_atomic keeps_intros clock_now_keeps)
qed (auto simp: undo_internal_def keeps_simple intro!: create_room_atomic mutate_room_atomic start_room_hand_atomic
    submit_reveal_atomic contribution_atomic beacon_atomic dealt_atomic mutate_hand_atomic terminate_atomic)

lemma request_call_rejected:
  assumes "request_call sv actor cmd req s = (r, s')" and "undo_internal sv"
    and "case r of Inl e \<Rightarrow> definite | Inr result \<Rightarrow> \<not> cr_accepted result"
  shows "data s' = data s"
  using assms execute_rejected execute_failed request_atomic request_rollback
  by (auto simp: request_call_def split: sum.splits)

lemma request_rejected:
  assumes "run_request sv actor cmd req s = ((err, result), s')" and "undo_internal sv"
    and "\<not> cr_accepted result" and "err = None \<or> definite"
  shows "data s' = data s"
proof -
  obtain r s1 where
    r: "(if mode_known req then request_call sv actor cmd req else fail_with (App AppInvalidCommand)) s = (r, s1)"
    "data s' = data s1" "case r of Inl e \<Rightarrow> err = Some e \<and> result = zero_result | Inr x \<Rightarrow> result = x"
    using request_ends [OF assms(1)] by blast
  have "data s1 = data s"
  proof (cases "mode_known req")
    case True
    then have "request_call sv actor cmd req s = (r, s1)" using r(1) by simp
    moreover have "case r of Inl e \<Rightarrow> definite | Inr result \<Rightarrow> \<not> cr_accepted result"
      using r(3) assms(3,4) by (auto split: sum.splits)
    ultimately show ?thesis using request_call_rejected assms(2) by blast
  qed (use r(1) in \<open>simp add: fail_with_def\<close>)
  with r(2) show ?thesis by simp
qed

end

end
