(* ===== verification/Mysql_Laws.thy ===== *)
theory Mysql_Laws
  imports Mysql_Store App_Requests
begin

text \<open>
  The service on the MySQL store: everything behind its other interfaces may read the database and write the
  live tables (the live runtime has transactions of its own on them), and runs on the world outside. The laws of a transaction hold for two views of the database, the data of the aggregates and the
  ledger of commands and sequences.
\<close>

section \<open>Views\<close>

definition tables :: "'w state \<Rightarrow> (room_id \<times> room_row) list \<times> (hand_id \<rightharpoonup> hand_row) \<times> contribution_record list \<times> outbox_event list" where
  "tables s = (db_rooms (fst s), db_hands (fst s), db_records (fst s), db_outbox (fst s))"

definition ledger :: "'w state \<Rightarrow> (account_id \<times> string \<rightharpoonup> command_row) \<times> (string \<times> string \<times> account_id \<rightharpoonup> u64)" where
  "ledger s = (db_commands (fst s), db_sequences (fst s))"

section \<open>Outside the database\<close>

text \<open>A call that may read every table, and of whose writes to the database only the live tables count.\<close>

definition outside :: "('w state, 'a) call \<Rightarrow> ('w state, 'a) call" where
  "outside m s = (case m s of (r, (db, w)) \<Rightarrow> (r, (with_live_tables (fst s) db, w)))"

definition outside_protector :: "'w state protector \<Rightarrow> 'w state protector" where
  "outside_protector p =
     \<lparr>pt_seal = (\<lambda>a b. outside (pt_seal p a b)), pt_open = map_option (\<lambda>f a b. outside (f a b)) (pt_open p)\<rparr>"

definition outside_receipts :: "'w state receipt_reader \<Rightarrow> 'w state receipt_reader" where
  "outside_receipts r =
     \<lparr>rr_bid = (\<lambda>a b c d e f. outside (rr_bid r a b c d e f)), rr_play = (\<lambda>a b c d e f. outside (rr_play r a b c d e f)),
      rr_pass = (\<lambda>a b c d e. outside (rr_pass r a b c d e))\<rparr>"

definition outside_sequenced :: "'w state sequenced_runtime \<Rightarrow> 'w state sequenced_runtime" where
  "outside_sequenced q =
     \<lparr>sq_bid = (\<lambda>a b c d e f. outside (sq_bid q a b c d e f)), sq_play = (\<lambda>a b c d e f. outside (sq_play q a b c d e f)),
      sq_pass = (\<lambda>a b c d e. outside (sq_pass q a b c d e))\<rparr>"

definition outside_live :: "'w state live_runtime \<Rightarrow> 'w state live_runtime" where
  "outside_live lr =
     \<lparr>lr_start = (\<lambda>a. outside (lr_start lr a)), lr_rollback_start = (\<lambda>a. outside (lr_rollback_start lr a)),
      lr_release_prepared = (\<lambda>a. outside (lr_release_prepared lr a)),
      lr_bid = (\<lambda>a b c d. outside (lr_bid lr a b c d)), lr_play = (\<lambda>a b c d. outside (lr_play lr a b c d)),
      lr_pass = (\<lambda>a b c. outside (lr_pass lr a b c)), lr_public_view = (\<lambda>a b. outside (lr_public_view lr a b)),
      lr_private_view = (\<lambda>a b. outside (lr_private_view lr a b)), lr_abort = (\<lambda>a b. outside (lr_abort lr a b)),
      lr_contains = lr_contains lr,
      lr_receipts = map_option outside_receipts (lr_receipts lr),
      lr_sequenced = map_option outside_sequenced (lr_sequenced lr),
      lr_bid_committed = map_option (\<lambda>f a b c d e. outside (f a b c d e)) (lr_bid_committed lr),
      lr_play_committed = map_option (\<lambda>f a b c d e. outside (f a b c d e)) (lr_play_committed lr),
      lr_pass_committed = map_option (\<lambda>f a b c d. outside (f a b c d)) (lr_pass_committed lr),
      lr_durability = lr_durability lr\<rparr>"

text \<open>The store of \<open>sv\<close> is replaced by the MySQL store.\<close>

definition mysql_service :: "'w driver \<Rightarrow> 'w state service \<Rightarrow> 'w state service" where
  "mysql_service drv sv =
     \<lparr>sv_store = mysql_store drv,
      sv_clock = (\<lambda>s. case sv_clock sv s of (t, (db, w)) \<Rightarrow> (t, (with_live_tables (fst s) db, w))),
      sv_new_id = outside (sv_new_id sv),
      sv_setups = \<lparr>sp_prepare = (\<lambda>a b. outside (sp_prepare (sv_setups sv) a b)),
                   sp_release = (\<lambda>a. outside (sp_release (sv_setups sv) a))\<rparr>,
      sv_verify_beacon = (\<lambda>a b. outside (sv_verify_beacon sv a b)), sv_live = outside_live (sv_live sv),
      sv_open = (\<lambda>a b c. outside (sv_open sv a b c)), sv_protector = outside_protector (sv_protector sv),
      sv_normalize = sv_normalize sv, sv_config = sv_config sv\<rparr>"

text \<open>A transaction whose COMMIT fails was not applied.\<close>

definition definite_commits :: "'w driver \<Rightarrow> bool" where
  "definite_commits drv \<longleftrightarrow> (\<forall>w failure applied w'. dv_commit drv w = ((Some failure, applied), w') \<longrightarrow> \<not> applied)"

section \<open>Frames of statements\<close>

lemma statement_cases:
  assumes "statement drv name run s = (r, s')"
  obtains failure where "r = Inl (Fault failure)" "fst s' = fst s"
  | "run (fst s) = (r, fst s')"
  using assms by (auto simp: statement_def split: prod.splits option.splits)

lemma statement_keeps: "(\<And>r db db'. run db = (r, db') \<Longrightarrow> view db' = view db) \<Longrightarrow> keeps (\<lambda>s. view (fst s)) (statement drv name run)"
  by (rule keepsI) (erule statement_cases; simp)

lemma select_row_same: "select_row table k db = (r, db') \<Longrightarrow> db' = db"
  by (simp add: select_row_def split: option.splits)

lemmas row_defs = insert_command_def update_result_def insert_sequence_def update_sequence_def insert_room_row_def
  update_room_row_def insert_hand_row_def update_hand_row_def insert_record_row_def insert_outbox_row_def advance_epoch_def

lemma tables_fst: "tables = (\<lambda>s. (\<lambda>db. (db_rooms db, db_hands db, db_records db, db_outbox db)) (fst s))"
  by (simp add: tables_def fun_eq_iff)

lemma ledger_fst: "ledger = (\<lambda>s. (\<lambda>db. (db_commands db, db_sequences db)) (fst s))"
  by (simp add: ledger_def fun_eq_iff)

lemma tables_statement:
  "(\<And>r db db'. run db = (r, db') \<Longrightarrow>
     (db_rooms db', db_hands db', db_records db', db_outbox db') = (db_rooms db, db_hands db, db_records db, db_outbox db)) \<Longrightarrow>
   keeps tables (statement drv name run)"
  unfolding tables_fst by (rule statement_keeps)

lemma ledger_statement:
  "(\<And>r db db'. run db = (r, db') \<Longrightarrow> (db_commands db', db_sequences db') = (db_commands db, db_sequences db)) \<Longrightarrow>
   keeps ledger (statement drv name run)"
  unfolding ledger_fst by (rule statement_keeps)

lemma select_keeps:
  "keeps tables (statement drv name (select_row table k))" "keeps ledger (statement drv name (select_row table k))"
  by (rule tables_statement ledger_statement, drule select_row_same, simp)+

lemma ledger_statements_keep:
  "keeps tables (statement drv name (insert_command actor cmd now))"
  "keeps tables (statement drv name (update_result actor cid result now))"
  "keeps tables (statement drv name (insert_sequence k))"
  "keeps tables (statement drv name (update_sequence k seq))"
  "keeps tables (statement drv name (advance_epoch hid))"
  by (rule tables_statement; auto simp: row_defs split: option.splits if_splits)+

lemma data_statements_keep:
  "keeps ledger (statement drv name (insert_room_row room now))"
  "keeps ledger (statement drv name (update_room_row room v now))"
  "keeps ledger (statement drv name (insert_hand_row hand now))"
  "keeps ledger (statement drv name (update_hand_row hand v now))"
  "keeps ledger (statement drv name (insert_record_row record))"
  "keeps ledger (statement drv name (insert_outbox_row e))"
  "keeps ledger (statement drv name (advance_epoch hid))"
  by (rule ledger_statement; auto simp: row_defs split: option.splits if_splits)+

lemma insert_atomic:
  assumes "\<And>db e db'. run db = (Inl e, db') \<Longrightarrow> db' = db"
  shows "atomic tables (or_else (statement drv name run) (\<lambda>e. fail_with (f e)))"
  by (rule atomicI) (auto simp: or_else_Inl call_simps tables_def elim!: statement_cases dest: assms)

lemma optimistic_internal:
  assumes "\<And>db e db'. run db = (Inl e, db') \<Longrightarrow> map_business_error e = None"
  shows "internal (optimistic_result (statement drv name run))"
  by (rule internalI) (auto simp: optimistic_result_def call_simps elim!: statement_cases dest: assms split: if_splits)

section \<open>Interpretations\<close>

lemma live_tables_frame [simp]:
  "tables (with_live_tables db live, w) = tables (db, w)" "ledger (with_live_tables db live, w) = ledger (db, w)"
  "tables (rolled_back db live, w) = tables (db, w)" "ledger (rolled_back db live, w) = ledger (db, w)"
  by (simp_all add: with_live_tables_def rolled_back_def tables_def ledger_def)

lemma with_live_tables_same [simp]: "with_live_tables db db = db"
  by (simp add: with_live_tables_def)

lemma tables_world: "tables (db, w) = tables (db, w')" "ledger (db, w) = ledger (db, w')"
  by (simp_all add: tables_def ledger_def)

lemma outside_frame: "keeps tables (outside m)" "keeps ledger (outside m)"
  by (rule keepsI, auto simp: outside_def with_live_tables_def tables_def ledger_def split: prod.splits)+

lemma command_committed:
  assumes "within_command drv actor cid body s = ((None, c), s')"
  shows "\<exists>s1 s2. fst s1 = fst s \<and> body s1 = ((None, c), s2) \<and> fst s' = fst s2"
  using assms by (auto simp: within_command_def split: if_splits prod.splits option.splits) (blast+)

lemma command_undone:
  assumes "within_command drv actor cid body s = ((Some e, c), s')"
  shows "(definite_commits drv \<longrightarrow> tables s' = tables s) \<and> (ck_rollback c = None \<or> (\<exists>s1 r s2. fst s1 = fst s \<and> body s1 = ((r, c), s2)))"
  using assms
  by (auto simp: within_command_def nothing_captured_def definite_commits_def rolled_back_def with_live_tables_def tables_def
      split: if_splits prod.splits option.splits)

lemmas mysql_simps = mysql_service_def mysql_store_def mysql_transaction_def outside_live_def outside_protector_def

lemma mysql_ops [simp]:
  "sx_transaction (sv_store (mysql_service drv sv)) = mysql_transaction drv"
  "sx_within (sv_store (mysql_service drv sv)) = within_command drv"
  "tx_claim (mysql_transaction drv) = claim_command drv" "tx_complete (mysql_transaction drv) = complete_command drv"
  "tx_lock_sequence (mysql_transaction drv) = lock_client_sequence drv"
  "tx_save_sequence (mysql_transaction drv) = save_client_sequence drv"
  "tx_insert_room (mysql_transaction drv) = insert_room drv" "tx_load_room (mysql_transaction drv) = load_room_for_update drv"
  "tx_update_room (mysql_transaction drv) = update_room drv" "tx_insert_hand (mysql_transaction drv) = insert_hand drv"
  "tx_load_hand (mysql_transaction drv) = load_hand_for_update drv" "tx_update_hand (mysql_transaction drv) = update_hand drv"
  "tx_insert_record (mysql_transaction drv) = insert_contribution_record drv"
  "tx_append_outbox (mysql_transaction drv) = append_outbox drv"
  by (simp_all add: mysql_simps)

lemma guard_laws:
  "keeps tables (lock_live_committed_version drv hid)" "keeps tables (fence_live_writer drv hid)"
  "keeps ledger (lock_live_committed_version drv hid)" "keeps ledger (fence_live_writer drv hid)"
  by (auto simp: lock_live_committed_version_def fence_live_writer_def
      intro!: keeps_intros select_keeps ledger_statements_keep data_statements_keep)

lemma tables_laws:
  "keeps tables (claim_command drv actor cmd now)" "keeps tables (complete_command drv actor cid result now)"
  "keeps tables (lock_client_sequence drv typ aid actor)" "keeps tables (save_client_sequence drv typ aid actor seq now)"
  "keeps tables (load_room_for_update drv rid)" "keeps tables (load_hand_for_update drv hid)"
  "atomic tables (insert_room drv room now)" "atomic tables (insert_hand drv hand now)"
  "atomic tables (insert_contribution_record drv record)" "internal (update_room drv room v now)"
  "internal (update_hand drv hand v now)"
  by (unfold claim_command_def complete_command_def lock_client_sequence_def save_client_sequence_def
      load_room_for_update_def load_hand_for_update_def insert_room_def insert_hand_def insert_contribution_record_def
      update_room_def update_hand_def)
    (auto intro!: keeps_intros select_keeps ledger_statements_keep insert_atomic optimistic_internal
      simp: row_defs split: option.splits if_splits)

interpretation mysql_data: service_laws "mysql_service drv sv" tables "definite_commits drv"
  for drv :: "'w driver" and sv :: "'w state service"
proof
  fix s :: "'w state" and t s'
  assume "sv_clock (mysql_service drv sv) s = (t, s')"
  then show "tables s' = tables s" by (auto simp: mysql_service_def tables_def with_live_tables_def split: prod.splits)
next
  fix actor cid body and s :: "'w state" and c s'
  assume "sx_within (sv_store (mysql_service drv sv)) actor cid body s = ((None, c), s')"
  then show "\<exists>s1 s2. tables s1 = tables s \<and> body s1 = ((None, c), s2) \<and> tables s' = tables s2"
    using command_committed [of drv actor cid body s c s'] by (auto simp: mysql_service_def mysql_store_def tables_def)
next
  fix actor cid body and s :: "'w state" and e c s'
  assume "sx_within (sv_store (mysql_service drv sv)) actor cid body s = ((Some e, c), s')"
  then show "(definite_commits drv \<longrightarrow> tables s' = tables s) \<and> (ck_rollback c = None \<or> (\<exists>s1 r s2. body s1 = ((r, c), s2)))"
    using command_undone [of drv actor cid body s e c s'] by (auto simp: mysql_service_def mysql_store_def tables_def)
qed (auto simp: mysql_simps tables_laws outside_frame guard_laws)

interpretation mysql_ledger: memory_laws "mysql_service drv sv" ledger
  for drv :: "'w driver" and sv :: "'w state service"
  by unfold_locales (auto simp: mysql_simps outside_frame ledger_def with_live_tables_def split: prod.splits)

end
