(* ===== verification/Mysql_Ledger.thy ===== *)
theory Mysql_Ledger
  imports Mysql_Laws
begin

text \<open>
  The ledger of commands and client sequences under any sequence of requests: a stored result is never
  changed, a sequence never goes back, and a request that is answered with a fresh acceptance has stored
  both.
\<close>

section \<open>Handlers leave the ledger alone\<close>

lemma data_operations_keep:
  "keeps ledger (insert_room drv room now)" "keeps ledger (update_room drv room v now)"
  "keeps ledger (insert_hand drv hand now)" "keeps ledger (update_hand drv hand v now)"
  "keeps ledger (insert_contribution_record drv record)" "keeps ledger (load_room_for_update drv rid)"
  "keeps ledger (load_hand_for_update drv hid)"
  by (auto simp: insert_room_def update_room_def insert_hand_def update_hand_def insert_contribution_record_def
      load_room_for_update_def load_hand_for_update_def optimistic_result_def
      intro!: keeps_intros data_statements_keep select_keeps)

lemma append_outbox_keeps: "keeps ledger (append_outbox drv es)"
  by (induction es) (auto intro!: keeps_intros data_statements_keep)

lemma clock_keeps_ledger: "keeps ledger (clock_now (mysql_service drv sv))"
  by (rule keepsI) (auto simp: clock_now_def mysql_service_def ledger_def with_live_tables_def split: prod.splits)

lemma release_keeps_ledger:
  "keeps ledger (fail_after_preparation (mysql_service drv sv) hid cause)"
  "keeps ledger (undo_start (mysql_service drv sv) hid cause)"
  by (rule keepsI; auto simp: fail_after_preparation_def undo_start_def mysql_simps split: prod.splits sum.splits
      dest: keepsD [OF outside_frame(2)])+

lemma fence_keeps_ledger: "keeps ledger (fence_expiry (mysql_service drv sv) name input hid)"
  by (auto simp: fence_expiry_def mysql_simps intro!: keeps_intros guard_laws split: option.splits)

lemmas ledger_keeps = data_operations_keep append_outbox_keeps clock_keeps_ledger release_keeps_ledger fence_keeps_ledger
  outside_frame

lemma room_handlers_keep:
  "keeps ledger (create_room_handler (mysql_service drv sv) actor cmd now)"
  "keeps ledger (mutate_room_handler (mysql_service drv sv) cmd mutation now)"
  "keeps ledger (install_hand (mysql_service drv sv) input snapshot room es seats su now)"
  "keeps ledger (start_room_hand_handler (mysql_service drv sv) actor cmd input now)"
  by (auto simp: create_room_handler_def mutate_room_handler_def install_hand_def start_room_hand_handler_def Let_def
      mysql_simps intro!: keeps_intros ledger_keeps [unfolded mysql_simps])

lemma store_reveal_keeps_ledger:
  "keeps ledger (store_reveal (mysql_service drv sv) actor cmd snapshot seat envelope aad submit operation now)"
  by (auto simp: store_reveal_def open_reveal_def seal_record_def Let_def mysql_simps
      intro!: keeps_intros ledger_keeps [unfolded mysql_simps])

lemma hand_handlers_keep:
  "(\<And>h. keeps ledger (hand_mutation h)) \<Longrightarrow> keeps ledger (mutate_hand_handler (mysql_service drv sv) cmd hand_mutation now)"
  "keeps ledger (submit_reveal_handler (mysql_service drv sv) actor cmd envelope now)"
  "keeps ledger (contribution_handler (mysql_service drv sv) actor cmd envelope now)"
  "keeps ledger (beacon_handler (mysql_service drv sv) cmd v now)"
  "keeps ledger (dealt_handler (mysql_service drv sv) cmd now)"
  "keeps ledger (terminate_handler (mysql_service drv sv) cmd name input mutation now)"
  by (unfold mutate_hand_handler_def submit_reveal_handler_def contribution_handler_def beacon_handler_def
      dealt_handler_def terminate_handler_def Let_def)
    (intro keeps_intros store_reveal_keeps_ledger fence_keeps_ledger release_keeps_ledger; simp add: mysql_simps ledger_keeps)+

lemma request_keeps_ledger: "keeps ledger (request_handler (mysql_service drv sv) actor cmd req now)"
proof (cases req)
  case (SubmitHandCommit commitment)
  show ?thesis unfolding SubmitHandCommit request_handler.simps
    by (intro hand_handlers_keep keeps_intros clock_keeps_ledger)
qed (auto simp: keeps_simple intro!: room_handlers_keep hand_handlers_keep)

section \<open>The ledger only grows\<close>

definition ledger_grows :: "'w state \<Rightarrow> 'w state \<Rightarrow> bool" where
  "ledger_grows s s' \<longleftrightarrow>
     (\<forall>k row. db_commands (fst s) k = Some row \<and> cw_result row \<noteq> None \<longrightarrow> db_commands (fst s') k = Some row) \<and>
     (\<forall>k n. db_sequences (fst s) k = Some n \<longrightarrow> (\<exists>m. db_sequences (fst s') k = Some m \<and> n \<le> m))"

definition growing :: "('w state \<Rightarrow> 'r \<times> 'w state) \<Rightarrow> bool" where
  "growing m \<longleftrightarrow> (\<forall>s r s'. m s = (r, s') \<longrightarrow> ledger_grows s s')"

lemma ledger_grows_same: "ledger s' = ledger s \<Longrightarrow> ledger_grows s s'"
  by (auto simp: ledger_grows_def ledger_def)

lemma ledger_grows_trans: "ledger_grows a b \<Longrightarrow> ledger_grows b c \<Longrightarrow> ledger_grows a c"
  unfolding ledger_grows_def by (meson order_trans)

lemma growingD: "growing m \<Longrightarrow> m s = (r, s') \<Longrightarrow> ledger_grows s s'"
  unfolding growing_def by blast

lemma growing_keeps: "keeps ledger m \<Longrightarrow> growing m"
  unfolding growing_def keeps_def using ledger_grows_same by blast

lemma growingI: "(\<And>s r s'. m s = (r, s') \<Longrightarrow> ledger_grows s s') \<Longrightarrow> growing m"
  by (simp add: growing_def)

lemma growing_and_then:
  assumes "growing m" and "\<And>x. growing (f x)"
  shows "growing (and_then m f)"
proof (rule growingI)
  fix s r s'
  assume a: "and_then m f s = (r, s')"
  obtain q s1 where m: "m s = (q, s1)" by (cases "m s")
  have "ledger_grows s s1" using growingD [OF assms(1) m] .
  then show "ledger_grows s s'"
    using a m assms(2) by (cases q) (auto simp: and_then_def intro: ledger_grows_trans dest: growingD)
qed

lemma growing_wrap: "growing m \<Longrightarrow> growing (wrap_infrastructure t m)"
  by (rule growingI) (auto simp: wrap_infrastructure_def or_else_def fail_with_def dest: growingD split: prod.splits sum.splits)

lemma growing_body_result: "growing m \<Longrightarrow> growing (body_result m result rollback)"
  by (rule growingI) (auto simp: body_result_def dest: growingD split: prod.splits sum.splits)

lemma statement_grows:
  fixes drv :: "'w driver"
  assumes "\<And>db r db' (w :: 'w) w'. run db = (r, db') \<Longrightarrow> ledger_grows (db, w) (db', w')"
  shows "growing (statement drv name run)"
proof (rule growingI)
  fix s r s'
  assume "statement drv name run s = (r, s')"
  then show "ledger_grows s s'"
  proof (cases rule: statement_cases)
    case 2
    then show ?thesis using assms [of "fst s" r "fst s'" "snd s" "snd s'"] by simp
  qed (simp add: ledger_grows_same ledger_def)
qed

lemma ledger_statements_grow:
  "growing (statement drv name (insert_command actor cmd now))"
  "growing (statement drv name (update_result actor cid result now))"
  "growing (statement drv name (insert_sequence k))"
  "growing (statement drv name (update_sequence k seq))"
  by (rule statement_grows; auto simp: row_defs ledger_grows_def split: option.splits if_splits)+

lemma ledger_operations_grow:
  "growing (claim_command drv actor cmd now)" "growing (complete_command drv actor cid result now)"
  "growing (lock_client_sequence drv typ aid actor)" "growing (save_client_sequence drv typ aid actor seq now)"
  by (unfold claim_command_def complete_command_def lock_client_sequence_def save_client_sequence_def)
    (intro growing_and_then ledger_statements_grow; intro growing_keeps keeps_intros select_keeps)+

lemma build_outbox_keeps: "keeps ledger (build_outbox (mysql_service drv sv) actor cmd es now)"
  by (induction es) (auto simp: mysql_simps intro!: keeps_intros outside_frame)

lemma store_tail_grows:
  "growing (body_result (and_then (wrap_infrastructure a (append_outbox drv outbox)) (\<lambda>_.
     and_then (wrap_infrastructure b (save_client_sequence drv typ aid actor seq now)) (\<lambda>_.
       wrap_infrastructure c (complete_command drv actor cid result now)))) result rollback)"
  by (intro growing_body_result growing_and_then growing_wrap ledger_operations_grow growing_keeps [OF append_outbox_keeps])

lemma rejected_tail_grows:
  "growing (body_result (and_then (wrap_infrastructure b (save_client_sequence drv typ aid actor seq now)) (\<lambda>_.
       wrap_infrastructure c (complete_command drv actor cid result now))) result rollback)"
  "growing (body_result (wrap_infrastructure c (complete_command drv actor cid result now)) result rollback)"
  "growing (body_result (fail_with e) result rollback)" "growing (body_result (give ()) result rollback)"
  by (intro growing_body_result growing_and_then growing_wrap ledger_operations_grow growing_keeps [OF keeps_simple(1)]
      growing_keeps [OF keeps_simple(2)])+

lemma store_outcome_grows: "growing (store_outcome (mysql_service drv sv) actor cmd now outcome)"
proof (rule growingI)
  fix s r s'
  assume a: "store_outcome (mysql_service drv sv) actor cmd now outcome s = (r, s')"
  obtain b s1 where b: "build_outbox (mysql_service drv sv) actor cmd (mu_events outcome) now s = (b, s1)"
    by (cases "build_outbox (mysql_service drv sv) actor cmd (mu_events outcome) now s")
  have "ledger_grows s s1" using ledger_grows_same keepsD [OF build_outbox_keeps b] by blast
  moreover have "ledger_grows s1 s'"
  proof (cases b)
    case (Inl e)
    then have "body_result (fail_with e) zero_result (mu_rollback outcome) s1 = (r, s')"
      using a b by (simp add: store_outcome_def Let_def)
    then show ?thesis by (rule growingD [OF rejected_tail_grows(3)])
  next
    case (Inr or)
    obtain outbox refs where "or = (outbox, refs)" by (cases or)
    with a b Inr show ?thesis
      by (simp add: store_outcome_def Let_def) (erule growingD [OF store_tail_grows])
  qed
  ultimately show "ledger_grows s s'" by (rule ledger_grows_trans)
qed

lemma run_handler_grows:
  assumes "keeps ledger (handler now)"
  shows "growing (run_handler (mysql_service drv sv) actor cmd now handler)"
proof (rule growingI)
  fix s r s'
  assume a: "run_handler (mysql_service drv sv) actor cmd now handler s = (r, s')"
  obtain b s1 where b: "handler now s = (b, s1)" by (cases "handler now s")
  have "ledger_grows s s1" using ledger_grows_same keepsD [OF assms b] by blast
  moreover have "ledger_grows s1 s'"
    using a b
    by (cases b) (auto simp: run_handler_def Let_def split: option.splits dest: growingD [OF rejected_tail_grows(3)]
        growingD [OF rejected_tail_grows(1)] growingD [OF store_outcome_grows])
  ultimately show "ledger_grows s s'" by (rule ledger_grows_trans)
qed

lemma run_claimed_grows:
  assumes "keeps ledger (handler now)"
  shows "growing (run_claimed (mysql_service drv sv) actor cmd now handler)"
proof (rule growingI)
  fix s r s'
  let ?lock = "wrap_infrastructure ''lock client sequence'' (lock_client_sequence drv (ac_type cmd) (ac_aggregate cmd) actor)"
  assume a: "run_claimed (mysql_service drv sv) actor cmd now handler s = (r, s')"
  obtain b s1 where b: "?lock s = (b, s1)" by (cases "?lock s")
  have g: "ledger_grows s s1" using growingD [OF growing_wrap [OF ledger_operations_grow(3)] b] .
  show "ledger_grows s s'"
  proof (cases "validate_freshness (mysql_service drv sv) cmd now")
    case None
    have "ledger_grows s1 s'"
      using a b None
      by (cases b) (auto simp: run_claimed_def Let_def split: if_splits dest: growingD [OF rejected_tail_grows(2)]
          growingD [OF rejected_tail_grows(3)] growingD [OF run_handler_grows [where handler = handler, OF assms]])
    with g show ?thesis by (rule ledger_grows_trans)
  next
    case (Some failure)
    then show ?thesis
      using a by (auto simp: run_claimed_def Let_def dest: growingD [OF rejected_tail_grows(2)])
  qed
qed

lemma body_result_state: "body_result m result rollback s = (x, s') \<Longrightarrow> \<exists>r. m s = (r, s')"
  by (auto simp: body_result_def split: prod.splits sum.splits)

lemma command_body_grows:
  assumes "\<And>now. keeps ledger (handler now)"
  shows "growing (command_body (mysql_service drv sv) actor cmd handler)"
proof (rule growingI)
  fix s r s'
  assume a: "command_body (mysql_service drv sv) actor cmd handler s = (r, s')"
  obtain clock s0 where c: "sv_clock (mysql_service drv sv) s = (clock, s0)"
    by (cases "sv_clock (mysql_service drv sv) s")
  let ?claim = "wrap_infrastructure ''claim command'' (claim_command drv actor cmd (time_utc clock))"
  obtain b s1 where b: "?claim s0 = (b, s1)" by (cases "?claim s0")
  have "ledger_grows s s0" using ledger_grows_same mysql_ledger.clock_keeps [OF c] by blast
  moreover have "ledger_grows s0 s1" using growingD [OF growing_wrap [OF ledger_operations_grow(1)] b] .
  moreover have "ledger_grows s1 s'"
    using a b c
    by (cases b) (auto simp: command_body_def Let_def split: if_splits dest: growingD [OF rejected_tail_grows(3)]
        growingD [OF rejected_tail_grows(4)] growingD [OF run_claimed_grows [where handler = handler, OF assms]])
  ultimately show "ledger_grows s s'" by (blast intro: ledger_grows_trans)
qed

section \<open>Requests\<close>

lemma command_ends:
  assumes "within_command drv actor cid body s = ((e, c), s')"
  shows "e \<noteq> None \<and> tables s' = tables s \<and> ledger s' = ledger s \<or> (\<exists>s1 s2. fst s1 = fst s \<and> body s1 = ((None, c), s2) \<and> fst s' = fst s2)"
  using assms
  by (auto simp: within_command_def rolled_back_def with_live_tables_def tables_def ledger_def
      split: if_splits prod.splits option.splits) (blast+)

lemma ledger_grows_fst: "fst a = fst s \<Longrightarrow> fst b = fst s' \<Longrightarrow> ledger_grows a b = ledger_grows s s'"
  by (simp add: ledger_grows_def)

lemma execute_grows:
  assumes h: "\<And>now. keeps ledger (handler now)" and y: "\<And>now. yields (undo_keeps ledger) (handler now)"
  shows "growing (execute (mysql_service drv sv) actor cmd name typ zero payload handler)"
proof (rule growingI)
  fix s r s'
  let ?cmd = "bind_command_payload cmd payload"
  let ?body = "command_body (mysql_service drv sv) actor ?cmd handler"
  assume a: "execute (mysql_service drv sv) actor cmd name typ zero payload handler s = (r, s')"
  show "ledger_grows s s'"
  proof (cases "validate_command_identity actor ?cmd name typ zero")
    case None
    obtain e c s1 where w: "within_command drv actor (ac_id ?cmd) ?body s = ((e, c), s1)"
      by (metis prod.collapse)
    have g: "ledger_grows s s1"
      using command_ends [OF w] growingD [OF command_body_grows [where handler = handler, OF h]]
      by (metis ledger_grows_fst ledger_grows_same ledger_def)
    show ?thesis
    proof (cases "e = None \<or> ck_rollback c = None")
      case True
      then show ?thesis using a None w g by (auto simp: execute_def Let_def split: option.splits)
    next
      case False
      then obtain m x where e: "e = Some x" and m: "ck_rollback c = Some m" by auto
      obtain s2 q s3 where "?body s2 = ((q, c), s3)" using command_undone [OF w [unfolded e]] m by auto
      then have k: "keeps ledger m" by (rule mysql_ledger.body_rollback) (use y m in auto)
      obtain z s4 where z: "m s1 = (z, s4)" by (cases "m s1")
      have "s4 = s'" using a None w e m z by (cases z) (simp_all add: execute_def Let_def)
      then have "ledger_grows s1 s'" using ledger_grows_same keepsD [OF k z] by blast
      with g show ?thesis by (rule ledger_grows_trans)
    qed
  qed (use a in \<open>auto simp: execute_def Let_def ledger_grows_same\<close>)
qed

lemma request_grows: "growing (run_request (mysql_service drv sv) actor cmd req)"
proof (rule growingI)
  fix s r s'
  assume a: "run_request (mysql_service drv sv) actor cmd req s = (r, s')"
  obtain err result where "r = (err, result)" by (cases r)
  with a obtain q s1 where
    q: "(if mode_known req then request_call (mysql_service drv sv) actor cmd req else fail_with (App AppInvalidCommand)) s = (q, s1)"
    and l: "ledger s' = ledger s1"
    using mysql_ledger.request_ends by blast
  have "growing (request_call (mysql_service drv sv) actor cmd req)"
    unfolding request_call_def by (intro execute_grows request_keeps_ledger mysql_ledger.request_rollback)
  then have "ledger_grows s s1"
    using q by (auto simp: fail_with_def ledger_grows_same split: if_splits dest: growingD)
  with l show "ledger_grows s s'" by (blast intro: ledger_grows_trans ledger_grows_same)
qed

end
