(* ===== verification/Mysql_Once.thy ===== *)
theory Mysql_Once
  imports Mysql_Ledger
begin

text \<open>
  What one command does to the ledger: an accepted result that is not a replay was stored together with the
  client sequence, and a command whose result is stored is answered from the store, without its handler.
\<close>

section \<open>Successful statements\<close>

lemma statement_Inr: "statement drv name run s = (Inr x, s') \<Longrightarrow> run (fst s) = (Inr x, fst s')"
  by (auto elim: statement_cases)

lemma statement_effect:
  "statement drv name run s = (Inr x, s') \<Longrightarrow> fst (run (fst s)) = Inr x \<and> fst s' = snd (run (fst s))"
  by (drule statement_Inr) simp

lemma ledger_db: "ledger s' = ledger s \<longleftrightarrow> db_commands (fst s') = db_commands (fst s) \<and> db_sequences (fst s') = db_sequences (fst s)"
  by (auto simp: ledger_def)

definition claimed_row :: "account_id \<Rightarrow> app_command \<Rightarrow> go_time \<Rightarrow> database \<Rightarrow> command_row" where
  "claimed_row actor cmd now db =
     (case db_commands db (actor, ac_id cmd) of
        Some row \<Rightarrow> row
      | None \<Rightarrow> \<lparr>cw_command = stored_command cmd, cw_result = None, cw_accepted = None, cw_created = time_utc now,
          cw_completed = None\<rparr>)"

lemma claim_success:
  assumes "wrap_infrastructure t (claim_command drv actor cmd now) s = (Inr (stored, completed), s')"
  shows "row_result (claimed_row actor cmd now (fst s)) = Inr (stored, completed)"
    and "db_commands (fst s') = (db_commands (fst s))((actor, ac_id cmd) \<mapsto> claimed_row actor cmd now (fst s))"
    and "db_sequences (fst s') = db_sequences (fst s)"
proof -
  obtain db1 where i: "insert_command actor cmd now (fst s) = (Inr (), db1)"
    and q: "select_row db_commands (actor, ac_id cmd) (db1) = (Inr (claimed_row actor cmd now (fst s)), fst s')"
    and r: "row_result (claimed_row actor cmd now (fst s)) = Inr (stored, completed)"
  proof -
    obtain db1 row where i: "insert_command actor cmd now (fst s) = (Inr (), db1)"
      and q: "select_row db_commands (actor, ac_id cmd) (db1) = (Inr row, fst s')"
      and r: "row_result row = Inr (stored, completed)"
      using assms by (auto simp: claim_command_def call_simps dest!: statement_Inr)
    moreover have "row = claimed_row actor cmd now (fst s)"
    proof -
      have "db1 = snd (insert_command actor cmd now (fst s))" using i by simp
      moreover have "db_commands (db1) (actor, ac_id cmd) = Some row" using q by (auto simp: select_row_def split: option.splits)
      ultimately show ?thesis by (auto simp: insert_command_def claimed_row_def split: option.splits)
    qed
    ultimately show thesis using that by blast
  qed
  show "row_result (claimed_row actor cmd now (fst s)) = Inr (stored, completed)" by (rule r)
  have "fst s' = snd (insert_command actor cmd now (fst s))" using i q by (auto simp: select_row_def)
  then show "db_commands (fst s') = (db_commands (fst s))((actor, ac_id cmd) \<mapsto> claimed_row actor cmd now (fst s))"
    and "db_sequences (fst s') = db_sequences (fst s)"
    by (auto simp: insert_command_def claimed_row_def fun_eq_iff split: option.splits)
qed

definition sequence_of :: "database \<Rightarrow> string \<times> string \<times> account_id \<Rightarrow> u64" where
  "sequence_of db k = (case db_sequences db k of Some n \<Rightarrow> n | None \<Rightarrow> 0)"

lemma lock_success:
  assumes "wrap_infrastructure t (lock_client_sequence drv typ aid actor) s = (Inr latest, s')"
  shows "latest = sequence_of (fst s) (typ, aid, actor)" and "db_commands (fst s') = db_commands (fst s)"
    and "db_sequences (fst s') (typ, aid, actor) = Some latest"
proof -
  obtain s1 where i: "insert_sequence (typ, aid, actor) (fst s) = (Inr (), fst s1)"
    and q: "select_row db_sequences (typ, aid, actor) (fst s1) = (Inr latest, fst s')"
    using assms by (auto simp: lock_client_sequence_def call_simps dest!: statement_Inr)
  have "fst s1 = snd (insert_sequence (typ, aid, actor) (fst s))" using i by simp
  moreover have "db_sequences (fst s1) (typ, aid, actor) = Some latest" "fst s' = fst s1"
    using q by (auto simp: select_row_def split: option.splits)
  ultimately show "latest = sequence_of (fst s) (typ, aid, actor)" and "db_commands (fst s') = db_commands (fst s)"
    and "db_sequences (fst s') (typ, aid, actor) = Some latest"
    by (auto simp: insert_sequence_def sequence_of_def split: option.splits)
qed

lemma save_success:
  assumes "wrap_infrastructure t (save_client_sequence drv typ aid actor seq now) s = (Inr u, s')"
  shows "db_commands (fst s') = db_commands (fst s)" and "db_sequences (fst s') (typ, aid, actor) = Some seq"
  using assms
  by (auto simp: save_client_sequence_def update_sequence_def call_simps dest!: statement_Inr split: option.splits if_splits)

lemma complete_success:
  assumes "wrap_infrastructure t (complete_command drv actor cid result now) s = (Inr u, s')"
  shows "\<exists>row. db_commands (fst s) (actor, cid) = Some row \<and> db_commands (fst s') (actor, cid) =
      Some (row\<lparr>cw_result := Some result, cw_accepted := Some (cr_accepted result), cw_completed := Some (time_utc now)\<rparr>)"
    and "db_sequences (fst s') = db_sequences (fst s)"
  using assms
  by (auto simp: complete_command_def update_result_def call_simps dest!: statement_Inr split: option.splits if_splits)

section \<open>A fresh acceptance\<close>

definition result_stored :: "account_id \<Rightarrow> app_command \<Rightarrow> command_result \<Rightarrow> database \<Rightarrow> bool" where
  "result_stored actor cmd result db \<longleftrightarrow>
     (\<exists>row. db_commands db (actor, ac_id cmd) = Some row \<and> cw_result row = Some result \<and> cw_completed row \<noteq> None \<and>
            same_command (cw_command row) cmd)"

definition sequence_key :: "account_id \<Rightarrow> app_command \<Rightarrow> string \<times> string \<times> account_id" where
  "sequence_key actor cmd = (ac_type cmd, ac_aggregate cmd, actor)"

lemma store_outcome_success:
  assumes "store_outcome (mysql_service drv sv) actor cmd now outcome s = ((None, c), s')"
    and "db_commands (fst s) (actor, ac_id cmd) = Some row" and "same_command (cw_command row) cmd"
  shows "result_stored actor cmd (ck_result c) (fst s')" and "db_sequences (fst s') (sequence_key actor cmd) = Some (ac_seq cmd)"
    and "cr_accepted (ck_result c) \<and> \<not> cr_duplicate (ck_result c)"
proof -
  let ?a = "\<lambda>outbox. wrap_infrastructure ''append outbox events'' (append_outbox drv outbox)"
  let ?q = "wrap_infrastructure ''save client sequence'' (save_client_sequence drv (ac_type cmd) (ac_aggregate cmd) actor (ac_seq cmd) now)"
  let ?e = "wrap_infrastructure ''complete command'' (complete_command drv actor (ac_id cmd) (ck_result c) now)"
  obtain outbox refs s1 s2 s3 u v w where b: "build_outbox (mysql_service drv sv) actor cmd (mu_events outcome) now s = (Inr (outbox, refs), s1)"
    and a: "?a outbox s1 = (Inr u, s2)" and q: "?q s2 = (Inr v, s3)" and e: "?e s3 = (Inr w, s')"
    and c: "ck_result c = accepted_result cmd (mu_version outcome) refs"
    using assms(1)
    by (auto simp: store_outcome_def Let_def mysql_data.body_result_None call_simps split: prod.splits sum.splits)
  have l: "ledger s2 = ledger s"
    using keepsD [OF build_outbox_keeps b] keepsD [OF keeps_wrapped(1) [OF append_outbox_keeps] a] by simp
  show "result_stored actor cmd (ck_result c) (fst s')"
    using l complete_success(1) [OF e] save_success(1) [OF q] assms(2,3) by (auto simp: result_stored_def ledger_db)
  show "db_sequences (fst s') (sequence_key actor cmd) = Some (ac_seq cmd)"
    using complete_success(2) [OF e] save_success(2) [OF q] by (simp add: sequence_key_def)
  show "cr_accepted (ck_result c) \<and> \<not> cr_duplicate (ck_result c)" by (simp add: c accepted_result_def)
qed

lemma body_result_accepted:
  assumes "body_result m result rollback s = ((None, c), s')" and "cr_accepted (ck_result c)"
  shows "cr_accepted result"
  using assms by (auto simp: mysql_data.body_result_None)

lemma rejection_results [simp]:
  "\<not> cr_accepted (rejected_result cmd failure v)" "\<not> cr_accepted zero_result" "\<not> cr_duplicate (rejected_result cmd failure v)"
  by (simp_all add: rejected_result_def zero_result_def)

text \<open>An accepted body ran its handler, or replayed a stored result.\<close>

lemma body_accepted:
  assumes "command_body (mysql_service drv sv) actor cmd handler s = ((None, c), s')" and "cr_accepted (ck_result c)"
  obtains now stored s1 where "row_result (claimed_row actor cmd now (fst s)) = Inr (stored, True)"
      "same_command (sd_command stored) cmd" "ck_result c = (sd_result stored)\<lparr>cr_duplicate := True\<rparr>" "tables s' = tables s"
  | now stored s1 outcome s2 where "row_result (claimed_row actor cmd now (fst s)) = Inr (stored, False)"
      "same_command (sd_command stored) cmd" "sequence_of (fst s) (sequence_key actor cmd) < ac_seq cmd"
      "db_commands (fst s1) (actor, ac_id cmd) = Some (claimed_row actor cmd now (fst s))" "tables s1 = tables s"
      "handler now s1 = (Inr outcome, s2)"
      "store_outcome (mysql_service drv sv) actor cmd now outcome s2 = ((None, c), s')"
proof -
  obtain clock s0 where k: "sv_clock (mysql_service drv sv) s = (clock, s0)" by (cases "sv_clock (mysql_service drv sv) s")
  let ?now = "time_utc clock"
  let ?claim = "wrap_infrastructure ''claim command'' (claim_command drv actor cmd ?now)"
  have k0: "tables s0 = tables s" "ledger s0 = ledger s" using mysql_data.clock_keeps [OF k] mysql_ledger.clock_keeps [OF k] by auto
  have row: "claimed_row actor cmd ?now (fst s0) = claimed_row actor cmd ?now (fst s)"
    using k0(2) by (simp add: claimed_row_def ledger_db)
  have seq: "sequence_of (fst s0) = sequence_of (fst s)" using k0(2) by (simp add: sequence_of_def fun_eq_iff ledger_db)
  obtain stored completed s1 where claim: "?claim s0 = (Inr (stored, completed), s1)"
    and same: "same_command (sd_command stored) cmd"
    and rest: "if completed then ck_result c = (sd_result stored)\<lparr>cr_duplicate := True\<rparr> \<and> s' = s1
      else run_claimed (mysql_service drv sv) actor cmd ?now handler s1 = ((None, c), s')"
    using assms k
    by (auto simp: command_body_def Let_def mysql_data.body_result_None call_simps clone_result_def
        split: prod.splits sum.splits if_splits)
  note cl = claim_success [OF claim, unfolded row]
  have t1: "tables s1 = tables s" using keepsD [OF keeps_wrapped(1) [OF tables_laws(1)] claim] k0(1) by simp
  show thesis
  proof (cases completed)
    case True
    with rest t1 cl(1) same that(1) show thesis by auto
  next
    case False
    let ?lock = "wrap_infrastructure ''lock client sequence'' (lock_client_sequence drv (ac_type cmd) (ac_aggregate cmd) actor)"
    have r: "run_claimed (mysql_service drv sv) actor cmd ?now handler s1 = ((None, c), s')" using rest False by simp
    then obtain latest s2 where l: "?lock s1 = (Inr latest, s2)" and less: "latest < ac_seq cmd"
      and h: "run_handler (mysql_service drv sv) actor cmd ?now handler s2 = ((None, c), s')"
      using assms(2)
      by (cases "validate_freshness (mysql_service drv sv) cmd ?now")
        (auto simp: run_claimed_def Let_def mysql_data.body_result_None split: prod.splits sum.splits if_splits)
    obtain outcome s3 where o: "handler ?now s2 = (Inr outcome, s3)"
      "store_outcome (mysql_service drv sv) actor cmd ?now outcome s3 = ((None, c), s')"
      using h assms(2)
      by (auto simp: run_handler_def Let_def mysql_data.body_result_None split: prod.splits sum.splits option.splits)
    have t2: "tables s2 = tables s" using keepsD [OF keeps_wrapped(1) [OF tables_laws(3)] l] t1 by simp
    have "sequence_of (fst s1) = sequence_of (fst s0)" using cl(3) by (simp add: sequence_of_def fun_eq_iff)
    then have q: "sequence_of (fst s) (sequence_key actor cmd) < ac_seq cmd"
      using lock_success(1) [OF l] seq less by (simp add: sequence_key_def)
    have d: "db_commands (fst s2) (actor, ac_id cmd) = Some (claimed_row actor cmd ?now (fst s))"
      using lock_success(2) [OF l] cl(2) by simp
    have "row_result (claimed_row actor cmd ?now (fst s)) = Inr (stored, False)" using cl(1) False by simp
    from that(2) [OF this same q d t2 o] show thesis .
  qed
qed

section \<open>A stored result is replayed\<close>

lemma body_replays:
  assumes "command_body (mysql_service drv sv) actor cmd handler s = ((e, c), s')"
    and row: "db_commands (fst s) (actor, ac_id cmd) = Some row" "cw_result row = Some result" "cw_completed row \<noteq> None"
  shows "tables s' = tables s \<and> ck_rollback c = None \<and>
    (e = None \<longrightarrow> ck_result c = (if same_command (cw_command row) cmd then result\<lparr>cr_duplicate := True\<rparr>
       else rejected_result cmd (rejection code_conflict ''command ID is already bound to another request'') (cr_version result)))"
proof -
  obtain clock s0 where k: "sv_clock (mysql_service drv sv) s = (clock, s0)" by (cases "sv_clock (mysql_service drv sv) s")
  let ?claim = "wrap_infrastructure ''claim command'' (claim_command drv actor cmd (time_utc clock))"
  obtain b s1 where b: "?claim s0 = (b, s1)" by (cases "?claim s0")
  have "db_commands (fst s0) = db_commands (fst s)" using mysql_ledger.clock_keeps [OF k] by (simp add: ledger_db)
  then have r: "claimed_row actor cmd (time_utc clock) (fst s0) = row" using row(1) by (simp add: claimed_row_def)
  have t: "tables s1 = tables s"
    using mysql_data.clock_keeps [OF k] keepsD [OF keeps_wrapped(1) [OF tables_laws(1)] b] by simp
  show ?thesis
  proof (cases b)
    case (Inl err)
    with assms(1) k b t show ?thesis by (auto simp: command_body_def Let_def body_result_def fail_with_def)
  next
    case (Inr p)
    obtain stored completed where p: "p = (stored, completed)" by (cases p)
    have "stored = \<lparr>sd_command = cw_command row, sd_result = result\<rparr> \<and> completed"
      using claim_success(1) [OF b [unfolded Inr p], unfolded r] row(2,3) by (auto simp: row_result_def split: if_splits)
    with assms(1) k b t Inr p show ?thesis
      by (auto simp: command_body_def Let_def body_result_def give_def clone_result_def split: if_splits)
  qed
qed

lemma execute_replays:
  fixes sv :: "'w state service" and cmd :: app_command and payload :: json
  defines "bound \<equiv> bind_command_payload cmd payload"
  assumes x: "execute (mysql_service drv sv) actor cmd name typ zero payload handler s = (r, s')"
    and row: "db_commands (fst s) (actor, ac_id cmd) = Some row" "cw_result row = Some result" "cw_completed row \<noteq> None"
  shows "tables s' = tables s" and "r = Inr result' \<Longrightarrow> cr_accepted result' \<Longrightarrow> result' = result\<lparr>cr_duplicate := True\<rparr>"
    and "r = Inr result' \<Longrightarrow> validate_command_identity actor bound name typ zero = None \<Longrightarrow> same_command (cw_command row) bound \<Longrightarrow>
      result' = result\<lparr>cr_duplicate := True\<rparr>"
proof -
  have id: "ac_id bound = ac_id cmd" by (simp add: bound_def bind_command_payload_def)
  obtain e c s1 where w: "within_command drv actor (ac_id bound)
      (command_body (mysql_service drv sv) actor bound handler) s = ((e, c), s1)" by (metis prod.collapse)
  let ?same = "same_command (cw_command row) bound"
  let ?other = "rejected_result bound (rejection code_conflict ''command ID is already bound to another request'') (cr_version result)"
  have body: "tables s4 = tables s3 \<and> ck_rollback c = None \<and>
      (q = None \<longrightarrow> ck_result c = (if ?same then result\<lparr>cr_duplicate := True\<rparr> else ?other))"
    if "fst s3 = fst s" "command_body (mysql_service drv sv) actor bound handler s3 = ((q, c), s4)" for s3 q s4
    by (rule body_replays [OF that(2)]) (use that(1) row id in auto)
  consider "e \<noteq> None" "tables s1 = tables s"
    | s2 s3 where "fst s2 = fst s" "command_body (mysql_service drv sv) actor bound handler s2 = ((None, c), s3)" "fst s1 = fst s3"
    using command_ends [OF w] by blast
  then have tn: "tables s1 = tables s \<and> (e = None \<longrightarrow> ck_result c = (if ?same then result\<lparr>cr_duplicate := True\<rparr> else ?other))"
  proof cases
    case 1
    then show ?thesis by (auto simp: tables_def)
  next
    case 2
    show ?thesis using body [OF 2(1,2)] 2(1,3) by (simp add: tables_def)
  qed
  then have t: "tables s1 = tables s" and n: "e = None \<Longrightarrow> ck_result c = (if ?same then result\<lparr>cr_duplicate := True\<rparr> else ?other)"
    by blast+
  have u: "ck_rollback c = None" if "e \<noteq> None"
    using command_undone [of drv actor "ac_id bound" _ s _ c s1] w that body by blast
  show "tables s' = tables s"
    using x w t u by (cases "validate_command_identity actor bound name typ zero"; cases e)
      (auto simp: execute_def Let_def bound_def)
  show "r = Inr result' \<Longrightarrow> validate_command_identity actor bound name typ zero = None \<Longrightarrow> ?same \<Longrightarrow>
      result' = result\<lparr>cr_duplicate := True\<rparr>"
    using x w n u by (cases e) (auto simp: execute_def Let_def bound_def)
  show "r = Inr result' \<Longrightarrow> cr_accepted result' \<Longrightarrow> result' = result\<lparr>cr_duplicate := True\<rparr>"
    using x w n u rejection_results(1) by (cases "validate_command_identity actor bound name typ zero"; cases e)
      (auto simp: execute_def Let_def bound_def split: if_splits dest: sym)
qed

section \<open>Fresh acceptances of a request\<close>

definition fresh :: "command_result \<Rightarrow> bool" where
  "fresh result \<longleftrightarrow> cr_accepted result \<and> \<not> cr_duplicate result"

lemma body_fresh:
  assumes "command_body (mysql_service drv sv) actor cmd handler s = ((None, c), s')" and "fresh (ck_result c)"
    and "\<And>now. keeps ledger (handler now)"
  shows "result_stored actor cmd (ck_result c) (fst s')" and "db_sequences (fst s') (sequence_key actor cmd) = Some (ac_seq cmd)"
    and "sequence_of (fst s) (sequence_key actor cmd) < ac_seq cmd"
proof -
  have acc: "cr_accepted (ck_result c)" using assms(2) by (simp add: fresh_def)
  obtain now stored s1 outcome s2 where row: "row_result (claimed_row actor cmd now (fst s)) = Inr (stored, False)"
      "same_command (sd_command stored) cmd" and q: "sequence_of (fst s) (sequence_key actor cmd) < ac_seq cmd"
    and d: "db_commands (fst s1) (actor, ac_id cmd) = Some (claimed_row actor cmd now (fst s))"
    and h: "handler now s1 = (Inr outcome, s2)"
    and o: "store_outcome (mysql_service drv sv) actor cmd now outcome s2 = ((None, c), s')"
  proof (rule body_accepted [OF assms(1) acc])
    fix stored :: stored_result
    assume "ck_result c = (sd_result stored)\<lparr>cr_duplicate := True\<rparr>"
    with assms(2) show thesis by (simp add: fresh_def)
  qed (rule that)
  have "ledger s2 = ledger s1" using keepsD [OF assms(3) h] .
  then have "db_commands (fst s2) (actor, ac_id cmd) = Some (claimed_row actor cmd now (fst s))" using d by (simp add: ledger_db)
  moreover have "same_command (cw_command (claimed_row actor cmd now (fst s))) cmd"
    using row by (auto simp: row_result_def split: option.splits if_splits)
  ultimately show "result_stored actor cmd (ck_result c) (fst s')"
    and "db_sequences (fst s') (sequence_key actor cmd) = Some (ac_seq cmd)"
    using store_outcome_success [OF o] by blast+
  show "sequence_of (fst s) (sequence_key actor cmd) < ac_seq cmd" by (rule q)
qed

definition bound_command :: "app_command \<Rightarrow> app_request \<Rightarrow> app_command" where
  "bound_command cmd req = bind_command_payload cmd (request_payload req)"

lemma bound_command_simps [simp]:
  "ac_id (bound_command cmd req) = ac_id cmd" "ac_seq (bound_command cmd req) = ac_seq cmd"
  "sequence_key actor (bound_command cmd req) = sequence_key actor cmd"
  by (simp_all add: bound_command_def bind_command_payload_def sequence_key_def)

lemma request_call_fresh:
  assumes "request_call (mysql_service drv sv) actor cmd req s = (Inr result, s')" and "fresh result"
  shows "result_stored actor (bound_command cmd req) result (fst s')"
    and "db_sequences (fst s') (sequence_key actor cmd) = Some (ac_seq cmd)"
    and "sequence_of (fst s) (sequence_key actor cmd) < ac_seq cmd"
    and "validate_command_identity actor (bound_command cmd req) (request_name req) (request_type req) (request_creates req) = None"
proof -
  let ?cmd = "bound_command cmd req"
  let ?body = "command_body (mysql_service drv sv) actor ?cmd (request_handler (mysql_service drv sv) actor cmd req)"
  show v: "validate_command_identity actor ?cmd (request_name req) (request_type req) (request_creates req) = None"
    using assms by (cases "validate_command_identity actor ?cmd (request_name req) (request_type req) (request_creates req)")
      (auto simp: request_call_def execute_def Let_def bound_command_def [symmetric] fresh_def)
  obtain e c s1 where w: "within_command drv actor (ac_id ?cmd) ?body s = ((e, c), s1)" by (metis prod.collapse)
  have e: "e = None" "s1 = s'" "ck_result c = result"
    using assms(1) v w
    by (auto simp: request_call_def execute_def Let_def bound_command_def [symmetric] split: option.splits sum.splits prod.splits)
  obtain s2 s3 where b: "fst s2 = fst s" "?body s2 = ((None, c), s3)" "fst s' = fst s3" using command_ends [OF w] e by blast
  note f = body_fresh [OF b(2) _ request_keeps_ledger, unfolded e(3), OF assms(2)]
  show "result_stored actor ?cmd result (fst s')" "db_sequences (fst s') (sequence_key actor cmd) = Some (ac_seq cmd)"
    "sequence_of (fst s) (sequence_key actor cmd) < ac_seq cmd"
    using f b(1,3) by simp_all
qed

lemma request_fresh:
  assumes "run_request (mysql_service drv sv) actor cmd req s = ((err, result), s')" and "fresh result"
  shows "mode_known req" and "result_stored actor (bound_command cmd req) result (fst s')"
    and "db_sequences (fst s') (sequence_key actor cmd) = Some (ac_seq cmd)"
    and "sequence_of (fst s) (sequence_key actor cmd) < ac_seq cmd"
    and "validate_command_identity actor (bound_command cmd req) (request_name req) (request_type req) (request_creates req) = None"
proof -
  obtain r s1 where
    r: "(if mode_known req then request_call (mysql_service drv sv) actor cmd req else fail_with (App AppInvalidCommand)) s = (r, s1)"
    and l: "ledger s' = ledger s1" and c: "case r of Inl e \<Rightarrow> err = Some e \<and> result = zero_result | Inr x \<Rightarrow> result = x"
    using mysql_ledger.request_ends [OF assms(1)] by blast
  have ri: "r = Inr result" using c assms(2) by (auto simp: fresh_def split: sum.splits)
  show m: "mode_known req" using r ri by (auto simp: fail_with_def split: if_splits)
  note f = request_call_fresh [of drv sv actor cmd req s result s1]
  have q: "request_call (mysql_service drv sv) actor cmd req s = (Inr result, s1)" using r ri m by simp
  show "result_stored actor (bound_command cmd req) result (fst s')"
    "db_sequences (fst s') (sequence_key actor cmd) = Some (ac_seq cmd)"
    "sequence_of (fst s) (sequence_key actor cmd) < ac_seq cmd"
    "validate_command_identity actor (bound_command cmd req) (request_name req) (request_type req) (request_creates req) = None"
    using f [OF q assms(2)] l by (auto simp: result_stored_def ledger_db)
qed

section \<open>Errors\<close>

text \<open>
  A body without an error changed no data, or its result is a fresh acceptance and stored. The second case
  is left to the driver when a COMMIT fails: it may have been applied.
\<close>

lemma body_ends:
  assumes "command_body (mysql_service drv sv) actor cmd handler s = ((None, c), s')"
    and "\<And>now. atomic tables (handler now)" and "\<And>now. keeps ledger (handler now)"
  shows "tables s' = tables s \<or> fresh (ck_result c) \<and> result_stored actor cmd (ck_result c) (fst s')"
proof (cases "cr_accepted (ck_result c)")
  case False
  then show ?thesis using mysql_data.body_rejected [OF assms(1) _ assms(2)] by blast
next
  case True
  show ?thesis
  proof (rule body_accepted [OF assms(1) True])
    fix now stored s1 outcome s2
    assume o: "store_outcome (mysql_service drv sv) actor cmd now outcome s2 = ((None, c), s')"
    have "\<not> cr_duplicate (ck_result c)"
      using o by (auto simp: store_outcome_def Let_def mysql_data.body_result_None accepted_result_def zero_result_def call_simps
          split: prod.splits sum.splits)
    then have "fresh (ck_result c)" using True by (simp add: fresh_def)
    then show ?thesis using body_fresh(1) [OF assms(1) _ assms(3)] by blast
  qed blast
qed

lemma execute_error:
  fixes cmd :: app_command and payload :: json
  defines "bound \<equiv> bind_command_payload cmd payload"
  assumes "execute (mysql_service drv sv) actor cmd name typ zero payload handler s = (Inl err, s')"
    and "\<And>now. atomic tables (handler now)" and "\<And>now. keeps ledger (handler now)"
    and "\<And>now. yields (undo_keeps tables) (handler now)" and "\<And>now. yields (undo_keeps ledger) (handler now)"
  shows "tables s' = tables s \<or>
    validate_command_identity actor bound name typ zero = None \<and> (\<exists>result. fresh result \<and> result_stored actor bound result (fst s'))"
proof -
  let ?body = "command_body (mysql_service drv sv) actor bound handler"
  have v: "validate_command_identity actor bound name typ zero = None"
    using assms(2) by (auto simp: execute_def Let_def bound_def split: option.splits)
  obtain e c s1 where w: "within_command drv actor (ac_id bound) ?body s = ((Some e, c), s1)"
    and u: "case ck_rollback c of None \<Rightarrow> s' = s1 | Some m \<Rightarrow> \<exists>r. m s1 = (r, s')"
    using assms(2) by (auto simp: execute_def Let_def bound_def split: prod.splits option.splits sum.splits)
  have "tables s' = tables s1 \<and> ledger s' = ledger s1"
  proof (cases "ck_rollback c")
    case (Some m)
    then obtain s2 r s3 where b: "?body s2 = ((r, c), s3)" using command_undone [OF w] by auto
    have "keeps tables m" "keeps ledger m"
      using mysql_data.body_rollback [OF b assms(5) Some] mysql_ledger.body_rollback [OF b assms(6) Some] by blast+
    then show ?thesis using u Some by (auto dest: keepsD)
  qed (use u in simp)
  moreover have "tables s1 = tables s \<or> (\<exists>result. fresh result \<and> result_stored actor bound result (fst s1))"
    using command_ends [OF w]
  proof
    assume "\<exists>s2 s3. fst s2 = fst s \<and> ?body s2 = ((None, c), s3) \<and> fst s1 = fst s3"
    then obtain s2 s3 where b: "fst s2 = fst s" "?body s2 = ((None, c), s3)" "fst s1 = fst s3" by blast
    show ?thesis using body_ends [OF b(2) assms(3,4)] b(1,3) by (auto simp: tables_def)
  qed blast
  moreover have "result_stored actor bound result (fst s')" if "ledger s' = ledger s1" "result_stored actor bound result (fst s1)" for result
    using that by (simp add: result_stored_def ledger_db)
  ultimately show ?thesis using v by metis
qed

end
