(* ===== verification/Game_State.thy ===== *)
theory Game_State
  imports Hand_Safety
begin

text \<open>
  What the durable commands mean for rooms and hands together, apart from any store: the rooms, the hands,
  and the log of the events, each with its aggregate and version. One step is the outcome of one accepted
  command. The invariants tie the two aggregates and the log together.
\<close>

section \<open>The state and its steps\<close>

record log_entry =
  le_type :: aggregate_type
  le_id :: string
  le_version :: u64
  le_name :: string

record game_state =
  gs_rooms :: "room_id \<rightharpoonup> room_snapshot"
  gs_hands :: "hand_id \<rightharpoonup> hand_snapshot"
  gs_log :: "log_entry list"

definition entry_of :: "'p event \<Rightarrow> log_entry" where
  "entry_of e = \<lparr>le_type = ev_type e, le_id = ev_id e, le_version = ev_version e, le_name = ev_name e\<rparr>"

definition put_room :: "room \<Rightarrow> game_state \<Rightarrow> game_state" where
  "put_room room g = g\<lparr>gs_rooms := (gs_rooms g)(rm_id room \<mapsto> room_snapshot_of room)\<rparr>"

definition put_hand :: "hand \<Rightarrow> game_state \<Rightarrow> game_state" where
  "put_hand hand g = g\<lparr>gs_hands := (gs_hands g)(ha_id hand \<mapsto> hand_snapshot_of hand)\<rparr>"

definition log_events :: "log_entry list \<Rightarrow> game_state \<Rightarrow> game_state" where
  "log_events es g = g\<lparr>gs_log := gs_log g @ es\<rparr>"

definition stored_room :: "game_state \<Rightarrow> room_id \<Rightarrow> room \<Rightarrow> bool" where
  "stored_room g rid room \<longleftrightarrow> (\<exists>snapshot. gs_rooms g rid = Some snapshot \<and> restore_room snapshot = Inr room)"

definition stored_hand :: "game_state \<Rightarrow> hand_id \<Rightarrow> hand \<Rightarrow> bool" where
  "stored_hand g hid hand \<longleftrightarrow> (\<exists>snapshot. gs_hands g hid = Some snapshot \<and> restore_hand snapshot = Inr hand)"

text \<open>The commands of a seated player, and those that end a hand.\<close>

fun seat_command :: "room_command \<Rightarrow> bool" where
  "seat_command (CmdStartHand actor hid) = False"
| "seat_command (CmdFinishHand hid arch) = False"
| "seat_command _ = True"

fun ending_command :: "hand_command \<Rightarrow> bool" where
  "ending_command HComplete = True"
| "ending_command (HCancel reason) = True"
| "ending_command (HAbort reason) = True"
| "ending_command (HExpire reason) = True"
| "ending_command _ = False"

inductive game_step :: "game_state \<Rightarrow> game_state \<Rightarrow> bool" where
  step_create: "new_room rid owner = Inr (room, es) \<Longrightarrow> gs_rooms g rid = None \<Longrightarrow>
    game_step g (log_events (map entry_of es) (put_room room g))"
| step_seat: "stored_room g rid room \<Longrightarrow> seat_command cmd \<Longrightarrow> room_apply room v cmd = Inr (room', es) \<Longrightarrow>
    game_step g (log_events (map entry_of es) (put_room room' g))"
| step_start: "stored_room g rid room \<Longrightarrow> room_apply room v (CmdStartHand actor hid) = Inr (room', es) \<Longrightarrow>
    hand_seats room' = Inr seats \<Longrightarrow>
    new_hand hid (rm_id room) seats sc key plan [binding] = Inr (hand, es') \<or>
    new_client_custodied_hand hid (rm_id room) seats sc key plan binding = Inr (hand, es') \<Longrightarrow>
    gs_hands g hid = None \<Longrightarrow>
    game_step g (log_events (map entry_of es @ map entry_of es') (put_room room' (put_hand hand g)))"
| step_hand: "stored_hand g hid hand \<Longrightarrow> \<not> ending_command cmd \<Longrightarrow> hand_apply hand v cmd = Inr (hand', es) \<Longrightarrow>
    game_step g (log_events (map entry_of es) (put_hand hand' g))"
| step_end: "stored_hand g hid hand \<Longrightarrow> ending_command cmd \<Longrightarrow> hand_apply hand v cmd = Inr (hand', es) \<Longrightarrow>
    stored_room g (ha_room hand) room \<Longrightarrow> room_apply room w (CmdFinishHand (ha_id hand) arch) = Inr (room', es') \<Longrightarrow>
    game_step g (log_events (map entry_of es @ map entry_of es') (put_room room' (put_hand hand' g)))"

section \<open>Invariants\<close>

text \<open>The rows carry their keys.\<close>

definition keys_ok :: "game_state \<Rightarrow> bool" where
  "keys_ok g \<longleftrightarrow> (\<forall>rid room. gs_rooms g rid = Some room \<longrightarrow> rn_id room = rid) \<and>
     (\<forall>hid hand. gs_hands g hid = Some hand \<longrightarrow> hn_id hand = hid \<and> hid \<noteq> [])"

text \<open>A hand is not ended exactly while its room has it as the active hand.\<close>

definition running :: "game_state \<Rightarrow> hand_id \<Rightarrow> room_id \<Rightarrow> bool" where
  "running g hid rid \<longleftrightarrow> (\<exists>hand. gs_hands g hid = Some hand \<and> \<not> phase_terminal (hn_phase hand) \<and> hn_room hand = rid)"

definition active_in :: "game_state \<Rightarrow> hand_id \<Rightarrow> room_id \<Rightarrow> bool" where
  "active_in g hid rid \<longleftrightarrow> hid \<noteq> [] \<and> (\<exists>room. gs_rooms g rid = Some room \<and> rn_active_hand room = hid)"

definition hands_agree :: "game_state \<Rightarrow> bool" where
  "hands_agree g \<longleftrightarrow> (\<forall>hid rid. running g hid rid \<longleftrightarrow> active_in g hid rid)"

text \<open>The events of one aggregate are numbered without a gap up to its version.\<close>

definition log_of :: "game_state \<Rightarrow> aggregate_type \<Rightarrow> string \<Rightarrow> u64 list" where
  "log_of g t i = map le_version (filter (\<lambda>e. le_type e = t \<and> le_id e = i) (gs_log g))"

definition counted :: "nat \<Rightarrow> u64 list" where
  "counted n = map (\<lambda>i. word_of_nat (Suc i)) [0..<n]"

definition numbered :: "u64 list \<Rightarrow> u64 option \<Rightarrow> bool" where
  "numbered vs v \<longleftrightarrow> vs = counted (length vs) \<and>
     (case v of None \<Rightarrow> vs = [] | Some n \<Rightarrow> n = word_of_nat (length vs))"

definition log_complete :: "game_state \<Rightarrow> bool" where
  "log_complete g \<longleftrightarrow>
     (\<forall>rid. numbered (log_of g AggregateRoom rid) (map_option rn_version (gs_rooms g rid))) \<and>
     (\<forall>hid. numbered (log_of g AggregateHand hid) (map_option hn_version (gs_hands g hid)))"

section \<open>Effects of the domain's commands\<close>

lemma restore_room_sel:
  assumes "restore_room snapshot = Inr room"
  shows "rm_id room = rn_id snapshot" "rm_active_hand room = rn_active_hand snapshot" "rm_version room = rn_version snapshot"
  using assms by (auto simp: restore_room_def rbind_eq_Inr Let_def split: if_splits)

lemma restore_hand_sel:
  assumes "restore_hand snapshot = Inr hand"
  shows "ha_id hand = hn_id snapshot" "ha_room hand = hn_room snapshot" "ha_version hand = hn_version snapshot"
    "ha_phase hand = hn_phase snapshot"
  using assms by (auto simp: restore_hand_def rbind_eq_Inr Let_def)

lemma room_snapshot_sel [simp]:
  "rn_id (room_snapshot_of r) = rm_id r" "rn_active_hand (room_snapshot_of r) = rm_active_hand r"
  "rn_version (room_snapshot_of r) = rm_version r"
  by (simp_all add: room_snapshot_of_def)

lemma hand_snapshot_sel [simp]:
  "hn_id (hand_snapshot_of h) = ha_id h" "hn_room (hand_snapshot_of h) = ha_room h"
  "hn_version (hand_snapshot_of h) = ha_version h" "hn_phase (hand_snapshot_of h) = ha_phase h"
  by (simp_all add: hand_snapshot_of_def)

lemma seat_command_active:
  "seat_command cmd \<Longrightarrow> room_apply r v cmd = Inr (r', es) \<Longrightarrow> rm_active_hand r' = rm_active_hand r"
  by (cases cmd) (auto simp: join_def leave_def set_ready_def rbind_eq_Inr room_done_Inr Let_def split: if_splits option.splits)

lemma start_finish_active:
  "room_apply r v (CmdStartHand actor hid) = Inr (r', es) \<Longrightarrow> rm_active_hand r = [] \<and> hid \<noteq> [] \<and> rm_active_hand r' = hid"
  "room_apply r v (CmdFinishHand hid arch) = Inr (r', es) \<Longrightarrow> rm_active_hand r = hid \<and> hid \<noteq> [] \<and> rm_active_hand r' = []"
  by (auto simp: start_hand_Inr finish_hand_Inr room_done_Inr validate_identifier_nonempty)

lemma ending_phase:
  assumes "hand_apply h v cmd = Inr (h', es)"
  shows "phase_terminal (ha_phase h') \<longleftrightarrow> ending_command cmd"
proof (cases cmd)
  case (HCommit actor c)
  with submit_commit_Inr [of h actor c v h' es] assms show ?thesis by (auto split: if_splits)
next
  case (HReveal actor d r)
  with submit_reveal_Inr [of h actor d r v h' es] assms show ?thesis by (auto split: if_splits)
next
  case (HCustodied actor d r)
  with submit_custodied_Inr [of h actor d r v h' es] assms show ?thesis by (auto split: if_splits)
next
  case (HBeacon b)
  with lock_public_beacon_Inr [of h b v h' es] assms show ?thesis by auto
qed (use assms in \<open>auto simp: mark_dealt_def start_playing_def start_settling_def complete_hand_def cancel_hand_def
    abort_hand_def expire_hand_def dest!: transition_Inr terminate_Inr split: if_splits\<close>)

lemma started_hand:
  assumes "new_hand hid rid seats sc key plan [binding] = Inr (hand, es) \<or>
    new_client_custodied_hand hid rid seats sc key plan binding = Inr (hand, es)"
  shows "ha_id hand = hid \<and> ha_room hand = rid \<and> ha_phase hand = HandFairnessCommitting \<and> ha_version hand = 1 \<and>
    map entry_of es = [\<lparr>le_type = AggregateHand, le_id = hid, le_version = 1, le_name = event_hand_created\<rparr>]"
  using assms
  by (auto simp: new_client_custodied_hand_def with_custodied_mode_def new_hand_def rbind_eq_Inr reject_eq_Inr hand_record_def
      Let_def entry_of_def split: if_splits hand_payload.splits)

lemma created_room:
  assumes "new_room rid owner = Inr (room, es)"
  shows "rm_id room = rid \<and> rm_active_hand room = [] \<and> rm_version room = 1 \<and>
    map entry_of es = [\<lparr>le_type = AggregateRoom, le_id = rid, le_version = 1, le_name = event_room_created\<rparr>]"
  using assms by (auto simp: new_room_def rbind_eq_Inr room_done_def room_record_def Let_def entry_of_def)

section \<open>The invariants hold\<close>

lemma put_sel [simp]:
  "gs_rooms (put_room room g) = (gs_rooms g)(rm_id room \<mapsto> room_snapshot_of room)" "gs_hands (put_room room g) = gs_hands g"
  "gs_log (put_room room g) = gs_log g"
  "gs_hands (put_hand hand g) = (gs_hands g)(ha_id hand \<mapsto> hand_snapshot_of hand)" "gs_rooms (put_hand hand g) = gs_rooms g"
  "gs_log (put_hand hand g) = gs_log g"
  "gs_rooms (log_events es g) = gs_rooms g" "gs_hands (log_events es g) = gs_hands g" "gs_log (log_events es g) = gs_log g @ es"
  by (simp_all add: put_room_def put_hand_def log_events_def)

lemma stored_room_keys:
  "stored_room g rid room \<Longrightarrow> keys_ok g \<Longrightarrow> \<exists>snapshot. gs_rooms g rid = Some snapshot \<and> rm_id room = rid \<and>
    rm_active_hand room = rn_active_hand snapshot \<and> rm_version room = rn_version snapshot"
  using restore_room_sel by (fastforce simp: stored_room_def keys_ok_def)

lemma stored_hand_keys:
  "stored_hand g hid hand \<Longrightarrow> keys_ok g \<Longrightarrow> \<exists>snapshot. gs_hands g hid = Some snapshot \<and> ha_id hand = hid \<and> hid \<noteq> [] \<and>
    ha_room hand = hn_room snapshot \<and> ha_version hand = hn_version snapshot \<and> ha_phase hand = hn_phase snapshot"
  using restore_hand_sel by (fastforce simp: stored_hand_def keys_ok_def)

lemma keys_step: "game_step g g' \<Longrightarrow> keys_ok g \<Longrightarrow> keys_ok g'"
proof (induction rule: game_step.induct)
  case (step_hand g hid hand cmd v hand' es)
  then show ?case using stored_hand_keys [OF step_hand(1,4)] same_setup_step [OF step_hand(3)]
    by (auto simp: keys_ok_def same_setup_def)
next
  case (step_end g hid hand cmd v hand' es room w arch room' es')
  then show ?case using stored_hand_keys [OF step_end(1,6)] same_setup_step [OF step_end(3)]
    by (auto simp: keys_ok_def same_setup_def)
next
  case (step_start g rid room v actor hid room' es seats sc key plan binding hand es')
  then show ?case using started_hand [OF step_start(4)] start_finish_active(1) [OF step_start(2)]
    by (auto simp: keys_ok_def)
qed (auto simp: keys_ok_def)

lemma agree_step: "game_step g g' \<Longrightarrow> keys_ok g \<Longrightarrow> hands_agree g \<Longrightarrow> hands_agree g'"
proof (induction rule: game_step.induct)
  case (step_create rid owner room es g)
  then show ?case using created_room [OF step_create(1)] by (auto simp: hands_agree_def running_def active_in_def)
next
  case (step_seat g rid room cmd v room' es)
  obtain snapshot where s: "gs_rooms g rid = Some snapshot" "rm_id room = rid" "rm_active_hand room = rn_active_hand snapshot"
    using stored_room_keys [OF step_seat(1,4)] by blast
  have "rm_id room' = rid" "rm_active_hand room' = rn_active_hand snapshot"
    using room_apply_step [OF step_seat(3)] seat_command_active [OF step_seat(2,3)] s by simp_all
  with s step_seat(5) show ?case by (auto simp: hands_agree_def running_def active_in_def)
next
  case (step_start g rid room v actor hid room' es seats sc key plan binding hand es')
  obtain snapshot where s: "gs_rooms g rid = Some snapshot" "rm_id room = rid" "rm_active_hand room = rn_active_hand snapshot"
    using stored_room_keys [OF step_start(1,6)] by blast
  have r: "rm_id room' = rid" "rn_active_hand snapshot = []" "rm_active_hand room' = hid" "hid \<noteq> []"
    using room_apply_step [OF step_start(2)] start_finish_active(1) [OF step_start(2)] s by simp_all
  have h: "ha_id hand = hid" "ha_room hand = rid" "ha_phase hand = HandFairnessCommitting"
    using started_hand [OF step_start(4)] s by simp_all
  have none: "\<not> active_in g hid x" for x
    using step_start(5,7) by (metis hands_agree_def running_def option.distinct(1))
  have "running (put_room room' (put_hand hand g)) x y \<longleftrightarrow> (if x = hid then y = rid else running g x y)" for x y
    using h by (auto simp: running_def)
  moreover have "active_in (put_room room' (put_hand hand g)) x y \<longleftrightarrow> (if x = hid then y = rid else active_in g x y)" for x y
    using r s none [of y] by (auto simp: active_in_def)
  ultimately show ?case using step_start(7) by (simp add: hands_agree_def running_def active_in_def)
next
  case (step_hand g hid hand cmd v hand' es)
  obtain snapshot where s: "gs_hands g hid = Some snapshot" "ha_id hand = hid" "ha_room hand = hn_room snapshot"
      "ha_phase hand = hn_phase snapshot"
    using stored_hand_keys [OF step_hand(1,4)] by blast
  have "ha_id hand' = hid" "ha_room hand' = hn_room snapshot" "\<not> phase_terminal (ha_phase hand')" "\<not> phase_terminal (hn_phase snapshot)"
    using same_setup_step [OF step_hand(3)] ending_phase [OF step_hand(3)] phase_step [OF step_hand(3)] step_hand(2) s
    by (auto simp: same_setup_def)
  then have "running (log_events (map entry_of es) (put_hand hand' g)) x y \<longleftrightarrow> running g x y" for x y
    using s by (auto simp: running_def)
  moreover have "active_in (log_events (map entry_of es) (put_hand hand' g)) x y \<longleftrightarrow> active_in g x y" for x y
    by (simp add: active_in_def)
  ultimately show ?case using step_hand(5) by (simp add: hands_agree_def)
next
  case (step_end g hid hand cmd v hand' es room w arch room' es')
  obtain hs where s: "gs_hands g hid = Some hs" "ha_id hand = hid" "hid \<noteq> []" "ha_room hand = hn_room hs"
      "ha_phase hand = hn_phase hs"
    using stored_hand_keys [OF step_end(1,6)] by blast
  obtain rs where r: "gs_rooms g (hn_room hs) = Some rs" "rm_id room = hn_room hs" "rm_active_hand room = rn_active_hand rs"
    using stored_room_keys [OF step_end(4,6)] s by auto
  have r': "rm_id room' = hn_room hs" "rn_active_hand rs = hid" "rm_active_hand room' = []"
    using room_apply_step [OF step_end(5)] start_finish_active(2) [OF step_end(5)] r s by simp_all
  have h': "ha_id hand' = hid" "phase_terminal (ha_phase hand')"
    using same_setup_step [OF step_end(3)] ending_phase [OF step_end(3)] step_end(2) s by (auto simp: same_setup_def)
  have "active_in g hid y \<Longrightarrow> y = hn_room hs" for y
    using step_end(7) s unfolding hands_agree_def running_def by (metis option.inject)
  then have "active_in (put_room room' (put_hand hand' g)) x y \<longleftrightarrow> x \<noteq> hid \<and> active_in g x y" for x y
    using r r' by (auto simp: active_in_def)
  moreover have "running (put_room room' (put_hand hand' g)) x y \<longleftrightarrow> x \<noteq> hid \<and> running g x y" for x y
    using h' by (auto simp: running_def)
  ultimately show ?case using step_end(7) by (simp add: hands_agree_def running_def active_in_def)
qed

text \<open>The log.\<close>

lemma length_counted [simp]: "length (counted n) = n"
  by (simp add: counted_def)

lemma counted_append: "counted (m + n) = counted m @ map (\<lambda>i. word_of_nat m + word_of_nat (Suc i)) [0..<n]"
  by (induction n) (simp_all add: counted_def algebra_simps)

lemma numbered_append:
  assumes "numbered vs (Some v)" and "ws = map (\<lambda>i. v + word_of_nat (Suc i)) [0..<length ws]"
  shows "numbered (vs @ ws) (Some (v + word_of_nat (length ws)))"
proof -
  have v: "v = word_of_nat (length vs)" and c: "vs = counted (length vs)" using assms(1) by (simp_all add: numbered_def)
  have "vs @ ws = counted (length vs + length ws)"
    unfolding counted_append using c assms(2) v by metis
  then show ?thesis by (simp add: numbered_def v)
qed

lemma numbered_first: "numbered vs None \<Longrightarrow> numbered (vs @ [1]) (Some 1)"
  by (simp add: numbered_def counted_def)

lemma log_of_put [simp]:
  "log_of (put_room room g) = log_of g" "log_of (put_hand hand g) = log_of g"
  "log_of (log_events es g) t i = log_of g t i @ map le_version (filter (\<lambda>e. le_type e = t \<and> le_id e = i) es)"
  by (simp_all add: log_of_def fun_eq_iff)

lemma hand_entries:
  assumes "recorded h es h'"
  shows "map le_version (filter (\<lambda>e. le_type e = t \<and> le_id e = i) (map entry_of es)) =
    (if t = AggregateHand \<and> i = ha_id h then map (\<lambda>i. ha_version h + word_of_nat (Suc i)) [0..<length es] else [])"
proof -
  have "filter (\<lambda>e. le_type e = t \<and> le_id e = i) (map entry_of es) =
      (if t = AggregateHand \<and> i = ha_id h then map entry_of es else [])"
    using assms by (auto simp: recorded_def entry_of_def filter_map comp_def filter_id_conv filter_empty_conv)
  moreover have "map le_version (map entry_of es) = map ev_version es" by (simp add: entry_of_def)
  ultimately show ?thesis using assms by (simp add: recorded_def del: map_map)
qed

lemma room_entries:
  assumes "room_apply r v cmd = Inr (r', es)"
  shows "map le_version (filter (\<lambda>e. le_type e = t \<and> le_id e = i) (map entry_of es)) =
    (if t = AggregateRoom \<and> i = rm_id r then [rm_version r + 1] else [])"
  using room_apply_step [OF assms] by (auto simp: entry_of_def)

lemma numbered_room: "numbered vs (Some v) \<Longrightarrow> numbered (vs @ [v + 1]) (Some (v + 1))"
  using numbered_append [of vs v "[v + 1]"] by simp

lemma numbered_hand:
  "numbered vs (Some v) \<Longrightarrow> numbered (vs @ map (\<lambda>i. v + word_of_nat (Suc i)) [0..<n]) (Some (v + word_of_nat n))"
  using numbered_append [of vs v "map (\<lambda>i. v + word_of_nat (Suc i)) [0..<n]"] by simp

lemma log_rows:
  assumes "log_complete g"
  shows "gs_rooms g rid = Some room \<Longrightarrow> numbered (log_of g AggregateRoom rid) (Some (rn_version room))"
    and "gs_rooms g rid = None \<Longrightarrow> numbered (log_of g AggregateRoom rid) None"
    and "gs_hands g hid = Some hand \<Longrightarrow> numbered (log_of g AggregateHand hid) (Some (hn_version hand))"
    and "gs_hands g hid = None \<Longrightarrow> numbered (log_of g AggregateHand hid) None"
  using assms by (metis log_complete_def option.simps(8,9))+

lemma log_step: "game_step g g' \<Longrightarrow> keys_ok g \<Longrightarrow> log_complete g \<Longrightarrow> log_complete g'"
proof (induction rule: game_step.induct)
  case (step_create rid owner room es g)
  have "numbered (log_of g AggregateRoom rid) None" using step_create(2,4) by (simp add: log_rows)
  then show ?case using created_room [OF step_create(1)] step_create(4) numbered_first by (simp add: log_complete_def)
next
  case (step_seat g rid room cmd v room' es)
  obtain snapshot where s: "gs_rooms g rid = Some snapshot" "rm_id room = rid" "rm_version room = rn_version snapshot"
    using stored_room_keys [OF step_seat(1,4)] by blast
  have "numbered (log_of g AggregateRoom rid) (Some (rm_version room))" using log_rows(1) [OF step_seat(5)] s by simp
  then show ?case
    using s room_apply_step [OF step_seat(3)] step_seat(5) numbered_room by (simp add: log_complete_def room_entries [OF step_seat(3)])
next
  case (step_start g rid room v actor hid room' es seats sc key plan binding hand es')
  obtain snapshot where s: "gs_rooms g rid = Some snapshot" "rm_id room = rid" "rm_version room = rn_version snapshot"
    using stored_room_keys [OF step_start(1,6)] by blast
  have "numbered (log_of g AggregateRoom rid) (Some (rm_version room))" using log_rows(1) [OF step_start(7)] s by simp
  moreover have "numbered (log_of g AggregateHand hid) None" using step_start(5,7) by (simp add: log_rows)
  ultimately show ?case
    using s room_apply_step [OF step_start(2)] started_hand [OF step_start(4)] step_start(7) numbered_room numbered_first
    by (simp add: log_complete_def room_entries [OF step_start(2)])
next
  case (step_hand g hid hand cmd v hand' es)
  obtain snapshot where s: "gs_hands g hid = Some snapshot" "ha_id hand = hid" "ha_version hand = hn_version snapshot"
    using stored_hand_keys [OF step_hand(1,4)] by blast
  note rec = recorded_step [OF step_hand(3)]
  have "numbered (log_of g AggregateHand hid) (Some (ha_version hand))" using log_rows(3) [OF step_hand(5)] s by simp
  then show ?case
    using s rec step_hand(5) numbered_hand by (simp add: log_complete_def hand_entries [OF rec] recorded_def)
next
  case (step_end g hid hand cmd v hand' es room w arch room' es')
  obtain hs where s: "gs_hands g hid = Some hs" "ha_id hand = hid" "ha_version hand = hn_version hs"
    using stored_hand_keys [OF step_end(1,6)] by blast
  obtain rs where r: "gs_rooms g (ha_room hand) = Some rs" "rm_id room = ha_room hand" "rm_version room = rn_version rs"
    using stored_room_keys [OF step_end(4,6)] by blast
  note rec = recorded_step [OF step_end(3)]
  have "numbered (log_of g AggregateHand hid) (Some (ha_version hand))"
    "numbered (log_of g AggregateRoom (ha_room hand)) (Some (rm_version room))"
    using log_rows(1,3) [OF step_end(7)] s r by simp_all
  then show ?case
    using s r rec room_apply_step [OF step_end(5)] step_end(7) numbered_hand numbered_room
    by (simp add: log_complete_def hand_entries [OF rec] room_entries [OF step_end(5)] recorded_def)
qed

definition empty_game :: game_state where
  "empty_game = \<lparr>gs_rooms = Map.empty, gs_hands = Map.empty, gs_log = []\<rparr>"

definition game_ok :: "game_state \<Rightarrow> bool" where
  "game_ok g \<longleftrightarrow> keys_ok g \<and> hands_agree g \<and> log_complete g"

lemma empty_game_ok: "game_ok empty_game"
  by (simp add: game_ok_def empty_game_def keys_ok_def hands_agree_def running_def active_in_def log_complete_def log_of_def
      numbered_def counted_def)

lemma game_step_ok: "game_step g g' \<Longrightarrow> game_ok g \<Longrightarrow> game_ok g'"
  using keys_step agree_step log_step by (auto simp: game_ok_def)

end
