(* ===== verification/Mysql_Refinement.thy ===== *)
theory Mysql_Refinement
  imports Mysql_Once Game_State
begin

text \<open>
  The tables seen as a game state, and every request as a step of it: a transaction that ended changed the
  rooms, the hands and the outbox by exactly one step, or not at all.
\<close>

section \<open>The tables as a game state\<close>

definition entry_of_row :: "outbox_event \<Rightarrow> log_entry" where
  "entry_of_row e =
     \<lparr>le_type = (if ob_type e = aggregate_text AggregateRoom then AggregateRoom else AggregateHand),
      le_id = ob_aggregate e, le_version = ob_version e, le_name = ob_name e\<rparr>"

definition game_of :: "database \<Rightarrow> game_state" where
  "game_of db =
     \<lparr>gs_rooms = (\<lambda>rid. map_option rw_snapshot (room_table db rid)),
      gs_hands = (\<lambda>hid. map_option hw_snapshot (db_hands db hid)),
      gs_log = map entry_of_row (db_outbox db)\<rparr>"

definition game_view :: "'w state \<Rightarrow> game_state" where "game_view s = game_of (fst s)"

lemma game_view_tables: "tables s' = tables s \<Longrightarrow> game_view s' = game_view s"
  by (simp add: game_view_def game_of_def tables_def room_table_def)

lemma game_view_sel [simp]:
  "gs_rooms (game_view s) rid = map_option rw_snapshot (room_table (fst s) rid)"
  "gs_hands (game_view s) hid = map_option hw_snapshot (db_hands (fst s) hid)"
  "gs_log (game_view s) = map entry_of_row (db_outbox (fst s))"
  by (simp_all add: game_view_def game_of_def)

section \<open>The operations of the store\<close>

definition set_room :: "room_snapshot \<Rightarrow> game_state \<Rightarrow> game_state" where
  "set_room snapshot g = g\<lparr>gs_rooms := (gs_rooms g)(rn_id snapshot \<mapsto> snapshot)\<rparr>"

definition set_hand :: "hand_snapshot \<Rightarrow> game_state \<Rightarrow> game_state" where
  "set_hand snapshot g = g\<lparr>gs_hands := (gs_hands g)(hn_id snapshot \<mapsto> snapshot)\<rparr>"

lemma set_put: "set_room (room_snapshot_of room) = put_room room" "set_hand (hand_snapshot_of hand) = put_hand hand"
  by (simp_all add: set_room_def set_hand_def put_room_def put_hand_def fun_eq_iff)

lemma load_success:
  "load_room_for_update drv rid s = (Inr room, s') \<Longrightarrow> game_view s' = game_view s \<and> gs_rooms (game_view s) rid = Some room"
  "load_hand_for_update drv hid s = (Inr hand, s') \<Longrightarrow> game_view s' = game_view s \<and> gs_hands (game_view s) hid = Some hand"
  by (auto simp: load_room_for_update_def load_hand_for_update_def call_simps select_row_def game_view_def game_of_def
      dest!: statement_effect split: option.splits)

lemma load_stored:
  "load_room_for_update drv rid s = (Inr snapshot, s') \<Longrightarrow> restore_room snapshot = Inr room \<Longrightarrow>
     game_view s' = game_view s \<and> stored_room (game_view s) rid room"
  "load_hand_for_update drv hid s = (Inr hsnapshot, s') \<Longrightarrow> restore_hand hsnapshot = Inr hand \<Longrightarrow>
     game_view s' = game_view s \<and> stored_hand (game_view s) hid hand"
  using load_success unfolding stored_room_def stored_hand_def by blast+

lemma game_of_room:
  "game_of (db\<lparr>db_rooms := AList.update (rn_id snapshot) (room_row_of snapshot a b) (db_rooms db)\<rparr>) = set_room snapshot (game_of db)"
  by (simp add: game_of_def set_room_def room_table_def update_conv' room_row_of_def fun_eq_iff)

lemma game_of_hand:
  "game_of (db\<lparr>db_hands := (db_hands db)(hn_id snapshot \<mapsto> hand_row_of snapshot rid a b)\<rparr>) = set_hand snapshot (game_of db)"
  by (simp add: game_of_def set_hand_def room_table_def hand_row_of_def fun_eq_iff)

lemma insert_success:
  "insert_room drv room now s = (Inr u, s') \<Longrightarrow>
     gs_rooms (game_view s) (rn_id room) = None \<and> game_view s' = set_room room (game_view s)"
  "insert_hand drv hand now s = (Inr u, s') \<Longrightarrow>
     gs_hands (game_view s) (hn_id hand) = None \<and> game_view s' = set_hand hand (game_view s)"
  by (auto simp: insert_room_def insert_hand_def call_simps insert_room_row_def insert_hand_row_def game_view_def
      game_of_room game_of_hand dest!: statement_effect split: if_splits) (simp_all add: game_of_def)

lemma update_success:
  "update_room drv room v now s = (Inr u, s') \<Longrightarrow> game_view s' = set_room room (game_view s)"
  "update_hand drv hand v now s = (Inr u, s') \<Longrightarrow> game_view s' = set_hand hand (game_view s)"
  by (auto simp: update_room_def update_hand_def optimistic_result_def call_simps update_room_row_def update_hand_row_def
      game_view_def game_of_room game_of_hand dest!: statement_effect split: if_splits option.splits)

lemma record_success: "insert_contribution_record drv entry s = (Inr u, s') \<Longrightarrow> game_view s' = game_view s"
  by (auto simp: insert_contribution_record_def call_simps insert_record_row_def game_view_def game_of_def room_table_def
      dest!: statement_effect split: if_splits)

lemma append_success:
  "append_outbox drv rows s = (Inr u, s') \<Longrightarrow> game_view s' = log_events (map entry_of_row rows) (game_view s)"
proof (induction rows arbitrary: s)
  case Nil
  then show ?case by (simp add: call_simps log_events_def)
next
  case (Cons e es)
  then obtain s1 where i: "fst (insert_outbox_row e (fst s)) = Inr ()" "fst s1 = snd (insert_outbox_row e (fst s))"
    and a: "append_outbox drv es s1 = (Inr u, s')"
    by (auto simp: call_simps dest!: statement_effect)
  have "entry_of_row (e\<lparr>ob_occurred := t\<rparr>) = entry_of_row e" for t by (simp add: entry_of_row_def)
  then have "game_view s1 = log_events [entry_of_row e] (game_view s)"
    using i by (auto simp: insert_outbox_row_def game_view_def game_of_def room_table_def log_events_def split: if_splits)
  with Cons.IH [OF a] show ?case by (simp add: log_events_def)
qed

lemma build_outbox_rows:
  "build_outbox (mysql_service drv sv) actor cmd es now s = (Inr (rows, refs), s') \<Longrightarrow>
     game_view s' = game_view s \<and> map entry_of_row rows = map entry_of es"
proof (induction es arbitrary: s rows refs)
  case Nil
  then show ?case by (simp add: call_simps)
next
  case (Cons e es)
  then obtain eid s1 payload rs rf where n: "sv_new_id (mysql_service drv sv) s = (Inr eid, s1)"
    and b: "build_outbox (mysql_service drv sv) actor cmd es now s1 = (Inr (rs, rf), s')"
    and r: "rows = \<lparr>ob_id = eid, ob_protocol = event_protocol_v1, ob_name = ev_name e, ob_type = aggregate_text (ev_type e),
              ob_aggregate = ev_id e, ob_version = ev_version e, ob_occurred = now, ob_causation = ac_id cmd,
              ob_actor = actor, ob_payload = payload\<rparr> # rs"
    by (auto simp: call_simps)
  have "game_view s1 = game_view s" using keepsD [OF mysql_data.new_id_keeps n] by (rule game_view_tables)
  moreover have "entry_of_row (hd rows) = entry_of e"
    by (cases "ev_type e") (simp_all add: r entry_of_row_def entry_of_def)
  ultimately show ?case using Cons.IH [OF b] r by simp
qed

lemma entry_any [simp]: "entry_of (any_event f e) = entry_of e"
  by (simp add: entry_of_def any_event_def)

section \<open>Handlers are steps\<close>

definition stepping :: "'w state handler \<Rightarrow> bool" where
  "stepping handler \<longleftrightarrow> (\<forall>now s outcome s'. handler now s = (Inr outcome, s') \<longrightarrow>
     game_step (game_view s) (log_events (map entry_of (mu_events outcome)) (game_view s')))"

lemma steppingI:
  "(\<And>now s outcome s'. handler now s = (Inr outcome, s') \<Longrightarrow>
      game_step (game_view s) (log_events (map entry_of (mu_events outcome)) (game_view s'))) \<Longrightarrow> stepping handler"
  by (auto simp: stepping_def)

lemma view_kept: "keeps tables m \<Longrightarrow> m s = (r, s') \<Longrightarrow> game_view s' = game_view s"
  by (rule game_view_tables) (rule keepsD)

lemma view_fst: "fst s' = fst s \<Longrightarrow> game_view s' = game_view s"
  by (simp add: game_view_def)

lemma entries_any: "map entry_of (map (any_event f) es) = map entry_of es"
  by simp

lemma create_room_steps: "stepping (create_room_handler (mysql_service drv sv) actor cmd)"
proof (rule steppingI)
  fix now s outcome s'
  assume "create_room_handler (mysql_service drv sv) actor cmd now s = (Inr outcome, s')"
  then obtain room es where n: "new_room (ac_aggregate cmd) actor = Inr (room, es)"
    and i: "insert_room drv (room_snapshot_of room) now s = (Inr (), s')"
    and o: "map entry_of (mu_events outcome) = map entry_of es"
    by (auto simp: create_room_handler_def Let_def call_simps)
  have "gs_rooms (game_view s) (ac_aggregate cmd) = None" "game_view s' = put_room room (game_view s)"
    using insert_success(1) [OF i] created_room [OF n] by (simp_all add: set_put)
  then show "game_step (game_view s) (log_events (map entry_of (mu_events outcome)) (game_view s'))"
    using step_create [OF n] o by simp
qed

lemma mutate_room_steps:
  assumes "\<And>room. room_mutation room = room_apply room v rcmd" and "seat_command rcmd"
  shows "stepping (mutate_room_handler (mysql_service drv sv) cmd room_mutation)"
proof (rule steppingI)
  fix now s outcome s'
  assume "mutate_room_handler (mysql_service drv sv) cmd room_mutation now s = (Inr outcome, s')"
  then obtain snapshot room room' es s1 where l: "load_room_for_update drv (ac_aggregate cmd) s = (Inr snapshot, s1)"
    and r: "restore_room snapshot = Inr room" and m: "room_apply room v rcmd = Inr (room', es)"
    and u: "update_room drv (room_snapshot_of room') (rn_version snapshot) now s1 = (Inr (), s')"
    and o: "map entry_of (mu_events outcome) = map entry_of es"
    by (auto simp: mutate_room_handler_def Let_def call_simps assms(1))
  have "game_view s' = put_room room' (game_view s)"
    using update_success(1) [OF u] load_stored(1) [OF l r] by (simp add: set_put)
  moreover have "stored_room (game_view s) (ac_aggregate cmd) room" using load_stored(1) [OF l r] by blast
  ultimately show "game_step (game_view s) (log_events (map entry_of (mu_events outcome)) (game_view s'))"
    using step_seat [OF _ assms(2) m] o by simp
qed

lemma construct_hand_cases:
  assumes "construct_hand input rid seats su = Inr (hand, es)"
  shows "\<exists>sc key plan binding. new_hand (hu_id su) rid seats sc key plan [binding] = Inr (hand, es) \<or>
    new_client_custodied_hand (hu_id su) rid seats sc key plan binding = Inr (hand, es)"
  using assms by (auto simp: construct_hand_def Let_def split: if_splits)

lemma preparation_fails [simp]: "fail_after_preparation sv hid cause s \<noteq> (Inr x, s')"
  by (auto simp: fail_after_preparation_def split: prod.splits sum.splits)

lemma install_hand_steps:
  assumes i: "install_hand (mysql_service drv sv) input snapshot room' es seats su now s = (Inr outcome, s')"
    and r: "stored_room (game_view s) rid room" "room_apply room v (CmdStartHand actor (hi_hand input)) = Inr (room', es)"
    and q: "hand_seats room' = Inr seats" and n: "rn_id snapshot = rm_id room"
  shows "game_step (game_view s) (log_events (map entry_of (mu_events outcome)) (game_view s'))"
proof -
  obtain hand es' s1 where c: "construct_hand input (rm_id room) seats su = Inr (hand, es')" and k: "hu_id su = hi_hand input"
    and ih: "insert_hand drv (hand_snapshot_of hand) now s = (Inr (), s1)"
    and ur: "update_room drv (room_snapshot_of room') (rn_version snapshot) now s1 = (Inr (), s')"
    and o: "map entry_of (mu_events outcome) = map entry_of es @ map entry_of es'"
    using i n by (auto simp: install_hand_def Let_def call_simps split: if_splits)
  obtain sc key plan binding where h: "new_hand (hi_hand input) (rm_id room) seats sc key plan [binding] = Inr (hand, es') \<or>
      new_client_custodied_hand (hi_hand input) (rm_id room) seats sc key plan binding = Inr (hand, es')"
    using construct_hand_cases [OF c] k by auto
  have "ha_id hand = hi_hand input" using started_hand [OF h] by simp
  then have "gs_hands (game_view s) (hi_hand input) = None" "game_view s' = put_room room' (put_hand hand (game_view s))"
    using insert_success(2) [OF ih] update_success(1) [OF ur] by (simp_all add: set_put)
  then show ?thesis using step_start [OF r q h] o by simp
qed

lemma start_room_hand_steps: "stepping (start_room_hand_handler (mysql_service drv sv) actor cmd input)"
proof (rule steppingI)
  fix now s outcome s'
  assume "start_room_hand_handler (mysql_service drv sv) actor cmd input now s = (Inr outcome, s')"
  then obtain snapshot room room' es seats su s1 s2 where l: "load_room_for_update drv (ac_aggregate cmd) s = (Inr snapshot, s1)"
    and r: "restore_room snapshot = Inr room" and m: "start_hand room actor (hi_hand input) (ac_expected cmd) = Inr (room', es)"
    and q: "hand_seats room' = Inr seats"
    and p: "sp_prepare (sv_setups (mysql_service drv sv)) snapshot (hi_hand input) s1 = (Inr su, s2)"
    and i: "install_hand (mysql_service drv sv) input snapshot room' es seats su now s2 = (Inr outcome, s')"
    by (auto simp: start_room_hand_handler_def Let_def call_simps)
  have g: "game_view s2 = game_view s"
    using load_stored(1) [OF l r] view_kept [OF mysql_data.prepare_keeps p] by simp
  have "stored_room (game_view s2) (ac_aggregate cmd) room"
    using load_stored(1) [OF l r] by (simp only: g)
  moreover have "room_apply room (ac_expected cmd) (CmdStartHand actor (hi_hand input)) = Inr (room', es)" using m by simp
  ultimately show "game_step (game_view s) (log_events (map entry_of (mu_events outcome)) (game_view s'))"
    using install_hand_steps [OF i _ _ q] restore_room_sel(1) [OF r] g by metis
qed

lemma mutate_hand_steps:
  assumes "\<And>hand s x s'. mutation hand s = (Inr x, s') \<Longrightarrow> hand_apply hand v hcmd = Inr x \<and> game_view s' = game_view s"
    and "\<not> ending_command hcmd"
  shows "stepping (mutate_hand_handler (mysql_service drv sv) cmd mutation)"
proof (rule steppingI)
  fix now s outcome s'
  assume "mutate_hand_handler (mysql_service drv sv) cmd mutation now s = (Inr outcome, s')"
  then obtain snapshot hand hand' es s1 s2 where l: "load_hand_for_update drv (ac_aggregate cmd) s = (Inr snapshot, s1)"
    and r: "restore_hand snapshot = Inr hand" and m: "mutation hand s1 = (Inr (hand', es), s2)"
    and u: "update_hand drv (hand_snapshot_of hand') (hn_version snapshot) now s2 = (Inr (), s')"
    and o: "map entry_of (mu_events outcome) = map entry_of es"
    by (auto simp: mutate_hand_handler_def Let_def call_simps)
  have g: "game_view s2 = game_view s" "hand_apply hand v hcmd = Inr (hand', es)"
    using load_stored(2) [OF l r] assms(1) [OF m] by simp_all
  then have "game_view s' = put_hand hand' (game_view s)" using update_success(2) [OF u] by (simp add: set_put)
  moreover have "stored_hand (game_view s) (ac_aggregate cmd) hand"
    using load_stored(2) [OF l r] by blast
  ultimately show "game_step (game_view s) (log_events (map entry_of (mu_events outcome)) (game_view s'))"
    using step_hand [OF _ assms(2) g(2)] o by simp
qed

lemma hand_stepI:
  assumes "stored_hand (game_view s) hid hand" and "hand_apply hand v hcmd = Inr (hand', es)" and "\<not> ending_command hcmd"
    and "update_hand drv (hand_snapshot_of hand') w now s2 = (Inr (), s')" and "game_view s2 = game_view s"
    and "map entry_of (mu_events outcome) = map entry_of es"
  shows "game_step (game_view s) (log_events (map entry_of (mu_events outcome)) (game_view s'))"
proof -
  have "game_view s' = put_hand hand' (game_view s)" using update_success(2) [OF assms(4)] assms(5) by (simp add: set_put)
  then show ?thesis using step_hand [OF assms(1,3,2)] assms(6) by simp
qed

lemma open_reveal_keeps: "keeps tables (open_reveal (mysql_service drv sv) snapshot envelope aad now)"
  unfolding open_reveal_def by (intro keeps_intros mysql_data.open_keeps)

lemma store_reveal_step:
  assumes "store_reveal (mysql_service drv sv) actor cmd snapshot seat envelope aad submit operation now s1 = (Inr outcome, s')"
    and "stored_hand (game_view s) hid hand" and "game_view s1 = game_view s"
    and "\<And>d rid. submit d rid = hand_apply hand v (hcmd d rid)" and "\<And>d rid. \<not> ending_command (hcmd d rid)"
  shows "game_step (game_view s) (log_events (map entry_of (mu_events outcome)) (game_view s'))"
proof -
  obtain plaintext s2 decoded rid s3 hand' es entry s4 s5 where
    a: "open_reveal (mysql_service drv sv) snapshot envelope aad now s1 = (Inr plaintext, s2)"
    and b: "sv_new_id (mysql_service drv sv) s2 = (Inr rid, s3)"
    and c: "hand_apply hand v (hcmd (vd_digest decoded) rid) = Inr (hand', es)"
    and d: "seal_record (mysql_service drv sv) actor cmd snapshot seat plaintext decoded rid now s3 = (Inr entry, s4)"
    and e: "insert_contribution_record drv entry s4 = (Inr (), s5)"
    and u: "update_hand drv (hand_snapshot_of hand') (hn_version snapshot) now s5 = (Inr (), s')"
    and o: "map entry_of (mu_events outcome) = map entry_of es"
    using assms(1) by (auto simp: store_reveal_def Let_def call_simps assms(4))
  have "game_view s5 = game_view s"
    using view_kept [OF open_reveal_keeps a] view_kept [OF mysql_data.new_id_keeps b]
      view_kept [OF mysql_data.seal_record_keeps d] record_success [OF e] assms(3) by simp
  then show ?thesis by (rule hand_stepI [OF assms(2) c assms(5) u _ o])
qed

lemma submit_reveal_steps: "stepping (submit_reveal_handler (mysql_service drv sv) actor cmd envelope)"
proof (rule steppingI)
  fix now s outcome s'
  assume "submit_reveal_handler (mysql_service drv sv) actor cmd envelope now s = (Inr outcome, s')"
  then obtain snapshot s1 hand seat aad where l: "load_hand_for_update drv (ac_aggregate cmd) s = (Inr snapshot, s1)"
    and r: "restore_hand snapshot = Inr hand"
    and b: "store_reveal (mysql_service drv sv) actor cmd snapshot seat envelope aad
        (\<lambda>digest record_id. submit_reveal hand actor digest record_id (ac_expected cmd))
        ''generate contribution record ID'' now s1 = (Inr outcome, s')"
    by (auto simp: submit_reveal_handler_def Let_def call_simps)
  show "game_step (game_view s) (log_events (map entry_of (mu_events outcome)) (game_view s'))"
    by (rule store_reveal_step [OF b, where hcmd = "HReveal actor" and v = "ac_expected cmd" and hid = "ac_aggregate cmd" and hand = hand])
      (use load_stored(2) [OF l r] in simp_all)
qed

lemma contribution_steps: "stepping (contribution_handler (mysql_service drv sv) actor cmd envelope)"
proof (rule steppingI)
  fix now s outcome s'
  assume "contribution_handler (mysql_service drv sv) actor cmd envelope now s = (Inr outcome, s')"
  then obtain snapshot s1 hand seat aad where l: "load_hand_for_update drv (ac_aggregate cmd) s = (Inr snapshot, s1)"
    and r: "restore_hand snapshot = Inr hand"
    and b: "store_reveal (mysql_service drv sv) actor cmd snapshot seat envelope aad
        (\<lambda>digest record_id. submit_custodied (Some hand) actor digest record_id (ac_expected cmd))
        ''new protected record ID'' now s1 = (Inr outcome, s')"
    by (auto simp: contribution_handler_def Let_def call_simps)
  show "game_step (game_view s) (log_events (map entry_of (mu_events outcome)) (game_view s'))"
    by (rule store_reveal_step [OF b, where hcmd = "HCustodied actor" and v = "ac_expected cmd" and hid = "ac_aggregate cmd" and hand = hand])
      (use load_stored(2) [OF l r] in simp_all)
qed

lemma beacon_steps: "stepping (beacon_handler (mysql_service drv sv) cmd v)"
proof (rule steppingI)
  fix now s outcome s'
  assume "beacon_handler (mysql_service drv sv) cmd v now s = (Inr outcome, s')"
  then obtain snapshot s1 hand verified s2 hand' es where l: "load_hand_for_update drv (ac_aggregate cmd) s = (Inr snapshot, s1)"
    and r: "restore_hand snapshot = Inr hand"
    and b: "sv_verify_beacon (mysql_service drv sv) (hn_plan snapshot) v s1 = (Inr verified, s2)"
    and c: "hand_apply hand (ac_expected cmd) (HBeacon verified) = Inr (hand', es)"
    and u: "update_hand drv (hand_snapshot_of hand') (hn_version snapshot) now s2 = (Inr (), s')"
    and o: "map entry_of (mu_events outcome) = map entry_of es"
    by (auto simp: beacon_handler_def Let_def call_simps)
  have "game_view s2 = game_view s" "stored_hand (game_view s) (ac_aggregate cmd) hand"
    using load_stored(2) [OF l r] view_kept [OF mysql_data.beacon_keeps b] by simp_all
  then show "game_step (game_view s) (log_events (map entry_of (mu_events outcome)) (game_view s'))"
    by (intro hand_stepI [OF _ c _ u _ o]) simp_all
qed

lemma undo_fails [simp]: "undo_start sv hid cause s \<noteq> (Inr x, s')"
  by (auto simp: undo_start_def split: prod.splits sum.splits)

lemma dealt_steps: "stepping (dealt_handler (mysql_service drv sv) cmd)"
proof (rule steppingI)
  fix now s outcome s'
  assume "dealt_handler (mysql_service drv sv) cmd now s = (Inr outcome, s')"
  then obtain snapshot s1 hand s2 hand' es where l: "load_hand_for_update drv (ac_aggregate cmd) s = (Inr snapshot, s1)"
    and r: "restore_hand snapshot = Inr hand" and c: "hand_apply hand (ac_expected cmd) HDealt = Inr (hand', es)"
    and b: "lr_start (sv_live (mysql_service drv sv)) snapshot s1 = (Inr (), s2)"
    and u: "update_hand drv (hand_snapshot_of hand') (hn_version snapshot) now s2 = (Inr (), s')"
    and o: "map entry_of (mu_events outcome) = map entry_of es"
    by (auto simp: dealt_handler_def Let_def call_simps)
  have "game_view s2 = game_view s" "stored_hand (game_view s) (ac_aggregate cmd) hand"
    using load_stored(2) [OF l r] view_kept [OF mysql_data.start_keeps b] by simp_all
  then show "game_step (game_view s) (log_events (map entry_of (mu_events outcome)) (game_view s'))"
    by (intro hand_stepI [OF _ c _ u _ o]) simp_all
qed

lemma terminate_steps:
  assumes "\<And>hand. hand_mutation hand = hand_apply hand v hcmd" and "ending_command hcmd"
  shows "stepping (terminate_handler (mysql_service drv sv) cmd name input hand_mutation)"
proof (rule steppingI)
  fix now s outcome s'
  assume "terminate_handler (mysql_service drv sv) cmd name input hand_mutation now s = (Inr outcome, s')"
  then obtain snapshot s1 hand hand' es room_snapshot s2 room room' es' arch s3 s4 where
    l: "load_hand_for_update drv (ac_aggregate cmd) s = (Inr snapshot, s1)" and r: "restore_hand snapshot = Inr hand"
    and c: "hand_apply hand v hcmd = Inr (hand', es)"
    and lr: "load_room_for_update drv (hn_room snapshot) s1 = (Inr room_snapshot, s2)"
    and rr: "restore_room room_snapshot = Inr room"
    and f: "finish_hand room (hn_id snapshot) (rn_version room_snapshot) arch = Inr (room', es')"
    and k: "fence_expiry (mysql_service drv sv) name input (hn_id snapshot) s2 = (Inr (), s3)"
    and uh: "update_hand drv (hand_snapshot_of hand') (hn_version snapshot) now s3 = (Inr (), s4)"
    and ur: "update_room drv (room_snapshot_of room') (rn_version room_snapshot) now s4 = (Inr (), s')"
    and o: "map entry_of (mu_events outcome) = map entry_of es @ map entry_of es'"
    by (auto simp: terminate_handler_def Let_def call_simps assms(1) split: if_splits)
  have sel: "ha_id hand = hn_id snapshot" "ha_room hand = hn_room snapshot" using restore_hand_sel [OF r] by simp_all
  have g: "game_view s1 = game_view s" "stored_hand (game_view s) (ac_aggregate cmd) hand" using load_stored(2) [OF l r] by simp_all
  have q: "stored_room (game_view s) (ha_room hand) room" "game_view s2 = game_view s"
    using load_stored(1) [OF lr rr] g sel by simp_all
  have "game_view s3 = game_view s" using view_kept [OF mysql_data.fence_keeps k] q by simp
  then have "game_view s' = put_room room' (put_hand hand' (game_view s))"
    using update_success(2) [OF uh] update_success(1) [OF ur] by (simp add: set_put)
  moreover have "room_apply room (rn_version room_snapshot) (CmdFinishHand (ha_id hand) arch) = Inr (room', es')"
    using f sel by simp
  ultimately show "game_step (game_view s) (log_events (map entry_of (mu_events outcome)) (game_view s'))"
    using step_end [OF g(2) assms(2) c q(1)] o by simp
qed

section \<open>Requests are steps\<close>

lemma clock_view: "clock_now (mysql_service drv sv) s = (r, s') \<Longrightarrow> game_view s' = game_view s"
  by (rule view_kept [OF mysql_data.clock_now_keeps])

lemma request_steps: "stepping (request_handler (mysql_service drv sv) actor cmd req)"
proof (cases req)
  case CreateRoom
  then show ?thesis by (simp add: create_room_steps)
next
  case JoinRoom
  then show ?thesis by (auto intro: mutate_room_steps [where rcmd = "CmdJoin actor"])
next
  case LeaveRoom
  then show ?thesis by (auto intro: mutate_room_steps [where rcmd = "CmdLeave actor"])
next
  case (SetRoomReady ready)
  then show ?thesis by (auto intro: mutate_room_steps [where rcmd = "CmdSetReady actor ready"])
next
  case (StartRoomHand input)
  then show ?thesis by (simp add: start_room_hand_steps)
next
  case (SubmitHandCommit commitment)
  show ?thesis
    unfolding SubmitHandCommit request_handler.simps
    by (rule mutate_hand_steps [where hcmd = "HCommit actor commitment" and v = "ac_expected cmd"])
      (auto simp: call_simps dest: clock_view)
next
  case (SubmitHandReveal envelope)
  then show ?thesis by (simp add: submit_reveal_steps)
next
  case (SubmitHandContribution envelope)
  then show ?thesis by (simp add: contribution_steps)
next
  case (LockHandBeacon v)
  then show ?thesis by (simp add: beacon_steps)
next
  case MarkHandDealt
  then show ?thesis by (simp add: dealt_steps)
next
  case StartHandPlaying
  then show ?thesis by (auto intro: mutate_hand_steps [where hcmd = HPlaying] simp: call_simps)
next
  case StartHandSettlement
  then show ?thesis by (auto intro: mutate_hand_steps [where hcmd = HSettling] simp: call_simps)
next
  case CompleteHand
  then show ?thesis by (auto intro: terminate_steps [where hcmd = HComplete])
next
  case (CancelHand input)
  then show ?thesis by (auto intro: terminate_steps [where hcmd = "HCancel (ni_reason input)"])
next
  case (AbortHand input)
  then show ?thesis by (auto intro: terminate_steps [where hcmd = "HAbort (ni_reason input)"])
next
  case (ExpireHand input)
  then show ?thesis by (auto intro: terminate_steps [where hcmd = "HExpire (ni_reason input)"])
qed

lemma ledger_operations_view:
  "wrap_infrastructure t (save_client_sequence drv typ aid actor seq now) s = (r, s') \<Longrightarrow> game_view s' = game_view s"
  "wrap_infrastructure t (complete_command drv actor cid result now) s = (r', s') \<Longrightarrow> game_view s' = game_view s"
  by (rule view_kept [OF keeps_wrapped(1)], rule tables_laws, assumption)+

lemma store_outcome_view:
  assumes "store_outcome (mysql_service drv sv) actor cmd now outcome s = ((None, c), s')"
  shows "game_view s' = log_events (map entry_of (mu_events outcome)) (game_view s)"
proof -
  let ?a = "\<lambda>outbox. wrap_infrastructure ''append outbox events'' (append_outbox drv outbox)"
  let ?q = "wrap_infrastructure ''save client sequence'' (save_client_sequence drv (ac_type cmd) (ac_aggregate cmd) actor (ac_seq cmd) now)"
  let ?e = "wrap_infrastructure ''complete command'' (complete_command drv actor (ac_id cmd) (ck_result c) now)"
  obtain outbox refs s1 s2 s3 u v w where b: "build_outbox (mysql_service drv sv) actor cmd (mu_events outcome) now s = (Inr (outbox, refs), s1)"
    and a: "?a outbox s1 = (Inr u, s2)" and q: "?q s2 = (Inr v, s3)" and e: "?e s3 = (Inr w, s')"
    using assms by (auto simp: store_outcome_def Let_def mysql_data.body_result_None call_simps split: prod.splits sum.splits)
  show ?thesis
    using build_outbox_rows [OF b] append_success [of drv outbox s1 u s2] a ledger_operations_view(1) [OF q]
      ledger_operations_view(2) [OF e] by (simp add: wrap_Inr)
qed

lemma body_step:
  assumes "command_body (mysql_service drv sv) actor cmd handler s = ((None, c), s')"
    and "stepping handler" and "\<And>now. atomic tables (handler now)"
  shows "game_view s' = game_view s \<or> game_step (game_view s) (game_view s')"
proof (cases "cr_accepted (ck_result c)")
  case True
  show ?thesis
  proof (rule body_accepted [OF assms(1) True])
    assume "tables s' = tables s"
    then show ?thesis using game_view_tables by blast
  next
    fix now s1 outcome s2
    assume t: "tables s1 = tables s" and h: "handler now s1 = (Inr outcome, s2)"
      and o: "store_outcome (mysql_service drv sv) actor cmd now outcome s2 = ((None, c), s')"
    have "game_step (game_view s1) (log_events (map entry_of (mu_events outcome)) (game_view s2))"
      using assms(2) h unfolding stepping_def by blast
    then show ?thesis using store_outcome_view [OF o] game_view_tables [OF t] by simp
  qed
next
  case False
  then have "tables s' = tables s" using mysql_data.body_rejected [OF assms(1) _ assms(3)] by simp
  then show ?thesis using game_view_tables by blast
qed

lemma execute_step:
  assumes "execute (mysql_service drv sv) actor cmd name typ zero payload handler s = (r, s')"
    and h: "stepping handler" "\<And>now. atomic tables (handler now)" and y: "\<And>now. yields (undo_keeps tables) (handler now)"
  shows "game_view s' = game_view s \<or> game_step (game_view s) (game_view s')"
proof (cases "validate_command_identity actor (bind_command_payload cmd payload) name typ zero")
  case None
  let ?cmd = "bind_command_payload cmd payload"
  let ?body = "command_body (mysql_service drv sv) actor ?cmd handler"
  obtain e c s1 where w: "within_command drv actor (ac_id ?cmd) ?body s = ((e, c), s1)" by (metis prod.collapse)
  consider "tables s1 = tables s" | s2 s3 where "fst s2 = fst s" "?body s2 = ((None, c), s3)" "fst s1 = fst s3"
    using command_ends [OF w] by blast
  then have g: "game_view s1 = game_view s \<or> game_step (game_view s) (game_view s1)"
  proof cases
    case 2
    show ?thesis using body_step [OF 2(2) h] view_fst [OF 2(1)] view_fst [OF 2(3)] by simp
  qed (use game_view_tables in blast)
  have "game_view s' = game_view s1"
  proof (cases "e = None \<or> ck_rollback c = None")
    case True
    then show ?thesis using assms(1) None w by (auto simp: execute_def Let_def split: option.splits)
  next
    case False
    then obtain m x where e: "e = Some x" and m: "ck_rollback c = Some m" by auto
    obtain s2 q s3 where "?body s2 = ((q, c), s3)" using command_undone [OF w [unfolded e]] m by auto
    then have k: "keeps tables m" by (rule mysql_data.body_rollback) (use y m in auto)
    obtain z s4 where z: "m s1 = (z, s4)" by (cases "m s1")
    have "s4 = s'" using assms(1) None w e m z by (cases z) (simp_all add: execute_def Let_def)
    then show ?thesis using view_kept [OF k z] by simp
  qed
  with g show ?thesis by simp
qed (use assms(1) in \<open>auto simp: execute_def Let_def\<close>)

lemma request_step:
  assumes "run_request (mysql_service drv sv) actor cmd req s = (r, s')" and "undo_internal (mysql_service drv sv)"
  shows "game_view s' = game_view s \<or> game_step (game_view s) (game_view s')"
proof -
  obtain err result where "r = (err, result)" by (cases r)
  with assms(1) obtain q s1 where
    q: "(if mode_known req then request_call (mysql_service drv sv) actor cmd req else fail_with (App AppInvalidCommand)) s = (q, s1)"
    and t: "tables s' = tables s1"
    using mysql_data.request_ends by blast
  have "game_view s1 = game_view s \<or> game_step (game_view s) (game_view s1)"
  proof (cases "mode_known req")
    case True
    then have "request_call (mysql_service drv sv) actor cmd req s = (q, s1)" using q by simp
    then show ?thesis
      unfolding request_call_def
      by (rule execute_step) (intro request_steps mysql_data.request_atomic mysql_data.request_rollback assms(2))+
  qed (use q in \<open>simp add: fail_with_def\<close>)
  with game_view_tables [OF t] show ?thesis by simp
qed

end
