(* ===== verification/Mysql_Sample.thy ===== *)
theory Mysql_Sample
  imports Mysql_Refinement
begin

text \<open>
  An instance of the service on the MySQL store, evaluated: a driver that never fails, an account that creates
  a room and then leaves it.
\<close>

section \<open>The instance\<close>

definition empty_database :: database where
  "empty_database =
     \<lparr>db_commands = Map.empty, db_sequences = Map.empty, db_rooms = [], db_hands = Map.empty, db_records = [],
      db_outbox = [], db_writers = [], db_actions = [], db_checkpoints = Map.empty, db_seeds = Map.empty\<rparr>"

text \<open>A driver that never fails, and a service whose parts outside the store do nothing.\<close>

definition steady_driver :: "unit driver" where
  "steady_driver = \<lparr>dv_statement = (\<lambda>name w. (None, w)), dv_commit = (\<lambda>w. ((None, True), w))\<rparr>"

definition refused :: "('s, 'a) call" where "refused = fail_with (Fault ''unused'')"

definition idle_transaction :: "'s transaction" where
  "idle_transaction =
     \<lparr>tx_claim = (\<lambda>_ _ _. refused), tx_complete = (\<lambda>_ _ _ _. refused), tx_lock_sequence = (\<lambda>_ _ _. refused),
      tx_save_sequence = (\<lambda>_ _ _ _ _. refused), tx_insert_room = (\<lambda>_ _. refused), tx_load_room = (\<lambda>_. refused),
      tx_update_room = (\<lambda>_ _ _. refused), tx_insert_hand = (\<lambda>_ _. refused), tx_load_hand = (\<lambda>_. refused),
      tx_update_hand = (\<lambda>_ _ _. refused), tx_insert_record = (\<lambda>_. refused), tx_append_outbox = (\<lambda>_. refused),
      tx_live_guard = None\<rparr>"

definition idle_store :: "'s store" where
  "idle_store =
     \<lparr>sx_within = (\<lambda>_ _ body. body), sx_transaction = idle_transaction, sx_load_hand = (\<lambda>_. refused), sx_load_room = None,
      sx_room_sequence = None, sx_hand_sequence = None, sx_recoverable = None, sx_load_record = None\<rparr>"

definition idle_live :: "'s live_runtime" where
  "idle_live =
     \<lparr>lr_start = (\<lambda>_. give ()), lr_rollback_start = (\<lambda>_. give ()), lr_release_prepared = (\<lambda>_. give ()),
      lr_bid = (\<lambda>_ _ _ _. refused), lr_play = (\<lambda>_ _ _ _. refused), lr_pass = (\<lambda>_ _ _. refused),
      lr_public_view = (\<lambda>_ _. refused), lr_private_view = (\<lambda>_ _. refused), lr_abort = (\<lambda>_ _. give ()),
      lr_contains = (\<lambda>_ _. False), lr_receipts = None, lr_sequenced = None, lr_bid_committed = None,
      lr_play_committed = None, lr_pass_committed = None, lr_durability = None\<rparr>"

definition at_second :: "int \<Rightarrow> go_time" where
  "at_second n = \<lparr>tm_nanos = (63800000000 + n) * 10 ^ 9, tm_location = ''UTC''\<rparr>"

definition sample_service :: "unit state service" where
  "sample_service =
     \<lparr>sv_store = idle_store, sv_clock = (\<lambda>s. (at_second 1, s)), sv_new_id = give ''E1'',
      sv_setups = \<lparr>sp_prepare = (\<lambda>_ _. refused), sp_release = (\<lambda>_. give ())\<rparr>, sv_verify_beacon = (\<lambda>_ v. give v),
      sv_live = idle_live, sv_open = (\<lambda>_ _ _. refused), sv_protector = \<lparr>pt_seal = (\<lambda>_ _. refused), pt_open = None\<rparr>,
      sv_normalize = Inr, sv_config = default_config\<rparr>"

definition create_command :: app_command where
  "create_command =
     \<lparr>ac_protocol = command_protocol_v1, ac_name = name_room_create, ac_id = ''C1'', ac_type = ''room'', ac_aggregate = ''R'',
      ac_seq = 1, ac_expected = 0, ac_issued = at_second 0, ac_expires = at_second 60, ac_digest = [],
      ac_server_times = False\<rparr>"

definition created_event :: event_ref where
  "created_event = \<lparr>er_type = ''room'', er_id = ''R'', er_name = event_room_created, er_version = 1\<rparr>"

abbreviation bound_create :: app_command where
  "bound_create \<equiv> bound_command create_command CreateRoom"

definition create_result :: command_result where
  "create_result = accepted_result create_command 1 [created_event]"

lemmas run_simps = and_then_def or_else_def give_def fail_with_def give_result_def guard_def wrap_infrastructure_def
  aggregate_call_def domain_call_def statement_def steady_driver_def select_row_def Let_def

lemma sample_times:
  "time_text (at_second 0) = Inr ''2022-09-28T22:13:20Z''" "time_text (at_second 60) = Inr ''2022-09-28T22:14:20Z''"
  by code_simp+

lemma steady_statement: "statement steady_driver name run (db, ()) = (let (r, db') = run db in (r, (db', ())))"
  by (simp add: statement_def steady_driver_def)

definition created_claim :: "bytes \<Rightarrow> command_row" where
  "created_claim d = \<lparr>cw_command = create_command\<lparr>ac_digest := d\<rparr>, cw_result = None, cw_accepted = None,
     cw_created = at_second 1, cw_completed = None\<rparr>"

lemma sample_claim:
  "claim_command steady_driver ''A'' (create_command\<lparr>ac_digest := d\<rparr>) (at_second 1) (empty_database, ()) =
     (Inr (\<lparr>sd_command = create_command\<lparr>ac_digest := d\<rparr>, sd_result = zero_result\<rparr>, False),
      (empty_database\<lparr>db_commands := [(''A'', ''C1'') \<mapsto> created_claim d]\<rparr>, ()))"
  by (simp add: claim_command_def run_simps insert_command_def empty_database_def create_command_def sample_times
      stored_command_def row_result_def created_claim_def rbind_def time_utc_def) (simp add: at_second_def)

lemma sample_created:
  "new_room ''R'' ''A'' = Inr (sample_room, [\<lparr>ev_type = AggregateRoom, ev_id = ''R'', ev_name = event_room_created,
     ev_version = 1, ev_payload = RoomCreatedPayload ''A'' 1\<rparr>])"
  by (simp add: new_room_def identifier_R identifier_A room_done_def room_record_def Let_def sample_room_def)

lemma sample_identity:
  "validate_command_identity ''A'' (create_command\<lparr>ac_digest := d\<rparr>) name_room_create AggregateRoom True = None"
  by (simp add: validate_command_identity_def Let_def create_command_def) code_simp

lemma sample_fresh: "validate_freshness (mysql_service steady_driver sample_service) (create_command\<lparr>ac_digest := d\<rparr>) (at_second 1) = None"
  by (simp add: validate_freshness_def Let_def create_command_def mysql_service_def sample_service_def default_config_def
      at_second_def time_is_zero_def valid_millisecond_precision_def time_after_def time_utc_def time_sub_def time_add_def)

definition created_outbox :: outbox_event where
  "created_outbox =
     \<lparr>ob_id = ''E1'', ob_protocol = event_protocol_v1, ob_name = event_room_created, ob_type = ''room'', ob_aggregate = ''R'',
      ob_version = 1, ob_occurred = at_second 1, ob_causation = ''C1'', ob_actor = ''A'',
      ob_payload = json_print (json_room_payload (RoomCreatedPayload ''A'' 1))\<rparr>"

definition created_database :: "bytes \<Rightarrow> database" where
  "created_database d = empty_database\<lparr>
     db_commands := [(''A'', ''C1'') \<mapsto> (created_claim d)\<lparr>cw_result := Some create_result, cw_accepted := Some True,
       cw_completed := Some (at_second 1)\<rparr>],
     db_sequences := [(''room'', ''R'', ''A'') \<mapsto> 1],
     db_rooms := [(''R'', room_row_of (room_snapshot_of sample_room) (at_second 1) (at_second 1))],
     db_outbox := [created_outbox]\<rparr>"

lemma sample_operations:
  "lock_client_sequence steady_driver ''room'' ''R'' ''A'' (db, ()) =
     (case db_sequences db (''room'', ''R'', ''A'') of
        None \<Rightarrow> (Inr 0, (db\<lparr>db_sequences := (db_sequences db)((''room'', ''R'', ''A'') \<mapsto> 0)\<rparr>, ()))
      | Some n \<Rightarrow> (Inr n, (db, ())))"
  "append_outbox steady_driver [created_outbox] (db, ()) =
     (if list_ex (\<lambda>o'. ob_id o' = ''E1'' \<or> ob_type o' = ''room'' \<and> ob_aggregate o' = ''R'' \<and> ob_version o' = 1) (db_outbox db)
      then (Inl (App AppAlreadyExists), (db, ())) else (Inr (), (db\<lparr>db_outbox := db_outbox db @ [created_outbox]\<rparr>, ())))"
  by (auto simp: lock_client_sequence_def insert_sequence_def run_simps insert_outbox_row_def created_outbox_def time_utc_def
      at_second_def translate_insert_error_def split: option.splits) code_simp+

definition created_outcome :: "'s mutation_outcome" where
  "created_outcome = \<lparr>mu_version = 1, mu_events = [any_event RoomPayload \<lparr>ev_type = AggregateRoom, ev_id = ''R'',
     ev_name = event_room_created, ev_version = 1, ev_payload = RoomCreatedPayload ''A'' 1\<rparr>], mu_rollback = None\<rparr>"

lemma sample_handler:
  assumes "db_rooms db = []"
  shows "create_room_handler (mysql_service steady_driver sample_service) ''A'' create_command (at_second 1) (db, ()) =
    (Inr created_outcome, (db\<lparr>db_rooms := [(''R'', room_row_of (room_snapshot_of sample_room) (at_second 1) (at_second 1))]\<rparr>, ()))"
proof -
  have [simp]: "ac_aggregate create_command = ''R''" "rn_id (room_snapshot_of sample_room) = ''R''"
    "rm_version sample_room = 1" "rm_id sample_room = ''R''" "rn_active_hand (room_snapshot_of sample_room) = []"
    "time_utc (at_second 1) = at_second 1"
    by (simp_all add: create_command_def sample_room_def time_utc_def at_second_def)
  show ?thesis
    using assms by (simp add: create_room_handler_def sample_created insert_room_def insert_room_row_def run_simps
        room_table_def active_elsewhere_def nullable_string_def created_outcome_def)
qed

lemma sample_store:
  assumes "db_outbox db = []" and "db_sequences db = [(''room'', ''R'', ''A'') \<mapsto> 0]"
    and "db_commands db = [(''A'', ''C1'') \<mapsto> created_claim d]"
  shows "store_outcome (mysql_service steady_driver sample_service) ''A'' (create_command\<lparr>ac_digest := d\<rparr>) (at_second 1)
      created_outcome (db, ()) =
    ((None, \<lparr>ck_result = create_result, ck_rollback = None\<rparr>),
     (db\<lparr>db_outbox := [created_outbox], db_sequences := [(''room'', ''R'', ''A'') \<mapsto> 1],
         db_commands := [(''A'', ''C1'') \<mapsto> (created_claim d)\<lparr>cw_result := Some create_result, cw_accepted := Some True,
            cw_completed := Some (at_second 1)\<rparr>]\<rparr>, ()))"
proof -
  have b: "build_outbox (mysql_service steady_driver sample_service) ''A'' (create_command\<lparr>ac_digest := d\<rparr>)
      (mu_events created_outcome) (at_second 1) (db, ()) = (Inr ([created_outbox], [created_event]), (db, ()))"
    by (simp add: created_outcome_def any_event_def run_simps mysql_service_def outside_def sample_service_def
        created_outbox_def created_event_def create_command_def)
  have r: "accepted_result (create_command\<lparr>ac_digest := d\<rparr>) 1 [created_event] = create_result"
    by (simp add: create_result_def accepted_result_def create_command_def)
  have c: "ac_type create_command = ''room''" "ac_aggregate create_command = ''R''" "ac_seq create_command = 1"
    "ac_id create_command = ''C1''" "cr_accepted create_result" "cw_result (created_claim d) = None"
    "time_utc (at_second 1) = at_second 1" "mu_version created_outcome = 1" "mu_rollback created_outcome = None"
    by (simp_all add: create_command_def create_result_def accepted_result_def created_claim_def time_utc_def at_second_def
        created_outcome_def)
  show ?thesis
    using assms
    by (simp add: store_outcome_def b c r body_result_def and_then_def wrap_infrastructure_def or_else_def sample_operations(2)
        save_client_sequence_def complete_command_def steady_statement update_sequence_def update_result_def guard_def Let_def
          del: append_outbox.simps)
qed

lemma sample_body:
  "command_body (mysql_service steady_driver sample_service) ''A'' (create_command\<lparr>ac_digest := d\<rparr>)
      (create_room_handler (mysql_service steady_driver sample_service) ''A'' create_command) (empty_database, ()) =
    ((None, \<lparr>ck_result = create_result, ck_rollback = None\<rparr>), (created_database d, ()))"
proof -
  have k: "sv_clock (mysql_service steady_driver sample_service) (empty_database, ()) = (at_second 1, (empty_database, ()))"
    by (simp add: mysql_service_def sample_service_def)
  have t: "time_utc (at_second 1) = at_second 1" "ac_type create_command = ''room''" "ac_aggregate create_command = ''R''"
    "ac_seq create_command = 1" "ac_id create_command = ''C1''"
    by (simp_all add: time_utc_def at_second_def create_command_def)
  have same: "same_command (create_command\<lparr>ac_digest := d\<rparr>) (create_command\<lparr>ac_digest := d\<rparr>)"
    by (simp add: same_command_def time_equal_def)
  have claimed: "run_claimed (mysql_service steady_driver sample_service) ''A'' (create_command\<lparr>ac_digest := d\<rparr>) (at_second 1)
      (create_room_handler (mysql_service steady_driver sample_service) ''A'' create_command)
      (empty_database\<lparr>db_commands := [(''A'', ''C1'') \<mapsto> created_claim d]\<rparr>, ()) =
    ((None, \<lparr>ck_result = create_result, ck_rollback = None\<rparr>), (created_database d, ()))"
    by (simp add: run_claimed_def Let_def sample_fresh t wrap_infrastructure_def or_else_def sample_operations(1) empty_database_def
        run_handler_def sample_handler sample_store created_database_def)
  show ?thesis
    by (simp add: command_body_def Let_def k t wrap_infrastructure_def or_else_def sample_claim same claimed)
qed

definition create_digest :: bytes where
  "create_digest = ac_digest bound_create"

lemma bound_create: "bound_create = create_command\<lparr>ac_digest := create_digest\<rparr>"
  by (simp add: create_digest_def bound_command_def bind_command_payload_def)

lemma sample_run:
  "run_request (mysql_service steady_driver sample_service) ''A'' create_command CreateRoom (empty_database, ()) =
    ((None, create_result), (created_database create_digest, ()))"
proof -
  have b: "bind_command_payload create_command no_payload = create_command\<lparr>ac_digest := create_digest\<rparr>"
    using bound_create by (simp add: bound_command_def)
  have d: "dv_statement steady_driver = (\<lambda>name w. (None, w))" "dv_commit steady_driver = (\<lambda>w. ((None, True), w))"
    "ac_id create_command = ''C1''"
    by (simp_all add: steady_driver_def create_command_def)
  show ?thesis
    by (simp add: plain_def create_room_def execute_def Let_def b sample_identity within_command_def sample_body d)
qed

text \<open>A second command on the room: its owner leaves, and the room is closed.\<close>

definition leave_command :: app_command where
  "leave_command = create_command\<lparr>ac_name := name_room_leave, ac_id := ''C2'', ac_seq := 2, ac_expected := 1\<rparr>"

definition later_service :: "unit state service" where
  "later_service = sample_service\<lparr>sv_new_id := give ''E2''\<rparr>"

definition closed_room :: room where
  "closed_room = sample_room\<lparr>rm_seats := [empty_seat, empty_seat, empty_seat], rm_status := RoomClosed, rm_version := 2\<rparr>"

definition leave_result :: command_result where
  "leave_result = accepted_result leave_command 2
     [\<lparr>er_type = ''room'', er_id = ''R'', er_name = event_room_closed, er_version = 2\<rparr>]"

lemma sample_left:
  "leave sample_room ''A'' 1 = Inr (closed_room, [\<lparr>ev_type = AggregateRoom, ev_id = ''R'', ev_name = event_room_closed,
     ev_version = 2, ev_payload = RoomPlayerPayload ''A'' 1\<rparr>])"
  by (simp add: leave_def check_expected_version_def seat_of_def sample_room_def occupied_count_def empty_seat_def fixed_seats_def
      room_done_def room_record_def Let_def closed_room_def)

lemma sample_restored: "restore_room (room_snapshot_of sample_room) = Inr sample_room"
  by (rule restore_room_snapshot [OF room_reach_inv [OF sample_room_reach]]) (simp add: sample_room_def)

lemma leave_identity:
  "validate_command_identity ''A'' (leave_command\<lparr>ac_digest := d\<rparr>) name_room_leave AggregateRoom False = None"
  by (simp add: validate_command_identity_def Let_def create_command_def leave_command_def) code_simp

lemma leave_fresh: "validate_freshness (mysql_service steady_driver later_service) (leave_command\<lparr>ac_digest := d\<rparr>) (at_second 1) = None"
  by (simp add: validate_freshness_def Let_def create_command_def leave_command_def mysql_service_def sample_service_def
      later_service_def default_config_def at_second_def time_is_zero_def valid_millisecond_precision_def time_after_def
      time_utc_def time_sub_def time_add_def)

lemma leave_claim:
  assumes "db_commands db (''A'', ''C2'') = None"
  shows "claim_command steady_driver ''A'' (leave_command\<lparr>ac_digest := d\<rparr>) (at_second 1) (db, ()) =
    (Inr (\<lparr>sd_command = leave_command\<lparr>ac_digest := d\<rparr>, sd_result = zero_result\<rparr>, False),
     (db\<lparr>db_commands := (db_commands db)((''A'', ''C2'') \<mapsto> \<lparr>cw_command = leave_command\<lparr>ac_digest := d\<rparr>, cw_result = None,
        cw_accepted = None, cw_created = at_second 1, cw_completed = None\<rparr>)\<rparr>, ()))"
proof -
  have c: "ac_id leave_command = ''C2''" "ac_issued leave_command = at_second 0" "ac_expires leave_command = at_second 60"
    "stored_command (leave_command\<lparr>ac_digest := d\<rparr>) = leave_command\<lparr>ac_digest := d\<rparr>" "time_utc (at_second 1) = at_second 1"
    by (simp_all add: leave_command_def create_command_def stored_command_def time_utc_def at_second_def)
  show ?thesis
    using assms by (simp add: claim_command_def run_simps insert_command_def c sample_times row_result_def rbind_def)
qed

definition left_outcome :: "'s mutation_outcome" where
  "left_outcome = \<lparr>mu_version = 2, mu_events = [any_event RoomPayload \<lparr>ev_type = AggregateRoom, ev_id = ''R'',
     ev_name = event_room_closed, ev_version = 2, ev_payload = RoomPlayerPayload ''A'' 1\<rparr>], mu_rollback = None\<rparr>"

lemma leave_handler:
  assumes "db_rooms db = [(''R'', room_row_of (room_snapshot_of sample_room) (at_second 1) (at_second 1))]"
  shows "\<exists>rooms. mutate_room_handler (mysql_service steady_driver later_service) leave_command
      (\<lambda>room. leave room ''A'' (ac_expected leave_command)) (at_second 1) (db, ()) = (Inr left_outcome, (db\<lparr>db_rooms := rooms\<rparr>, ()))"
proof -
  have c: "ac_aggregate leave_command = ''R''" "ac_expected leave_command = 1" "rn_id (room_snapshot_of closed_room) = ''R''"
    "rn_version (room_snapshot_of closed_room) = 2" "rn_version (room_snapshot_of sample_room) = 1"
    "rn_active_hand (room_snapshot_of closed_room) = []" "rm_version sample_room = 1" "rm_version closed_room = 2"
    "rm_id closed_room = ''R''" "rm_active_hand closed_room = []"
    by (simp_all add: leave_command_def create_command_def closed_room_def sample_room_def)
  have r: "rw_snapshot (room_row_of snap a b) = snap" "rw_version (room_row_of snap a b) = rn_version snap" for snap a b
    by (simp_all add: room_row_of_def)
  show ?thesis
    using assms
    by (simp add: mutate_room_handler_def load_room_for_update_def update_room_def update_room_row_def optimistic_result_def
        run_simps room_table_def c r sample_restored sample_left active_elsewhere_def nullable_string_def left_outcome_def)
      blast
qed

lemma leave_store:
  assumes "db_outbox db = [created_outbox]" and "db_sequences db (''room'', ''R'', ''A'') = Some 1"
    and "db_commands db (''A'', ''C2'') = Some row" and "cw_result row = None"
  shows "\<exists>db'. store_outcome (mysql_service steady_driver later_service) ''A'' (leave_command\<lparr>ac_digest := d\<rparr>) (at_second 1)
      left_outcome (db, ()) = ((None, \<lparr>ck_result = leave_result, ck_rollback = None\<rparr>), (db', ()))"
proof -
  have c: "ac_type leave_command = ''room''" "ac_aggregate leave_command = ''R''" "ac_seq leave_command = 2"
    "ac_id leave_command = ''C2''" "mu_version left_outcome = 2" "mu_rollback left_outcome = None"
    by (simp_all add: leave_command_def create_command_def left_outcome_def)
  have r: "accepted_result (leave_command\<lparr>ac_digest := d\<rparr>) 2
      [\<lparr>er_type = ''room'', er_id = ''R'', er_name = event_room_closed, er_version = 2\<rparr>] = leave_result"
    by (simp add: leave_result_def accepted_result_def leave_command_def create_command_def)
  have o: "ob_id created_outbox = ''E1''" "ob_version created_outbox = 1" by (simp_all add: created_outbox_def)
  show ?thesis
    using assms
    by (simp add: store_outcome_def left_outcome_def any_event_def mysql_service_def outside_def later_service_def sample_service_def
        c r o run_simps body_result_def mysql_store_def mysql_transaction_def insert_outbox_row_def save_client_sequence_def
        update_sequence_def complete_command_def update_result_def)
qed

lemma leave_body:
  "\<exists>db'. command_body (mysql_service steady_driver later_service) ''A'' (leave_command\<lparr>ac_digest := d\<rparr>)
      (mutate_room_handler (mysql_service steady_driver later_service) leave_command
        (\<lambda>room. leave room ''A'' (ac_expected leave_command))) (created_database e, ()) =
    ((None, \<lparr>ck_result = leave_result, ck_rollback = None\<rparr>), (db', ()))"
proof -
  let ?sv = "mysql_service steady_driver later_service"
  let ?cmd = "leave_command\<lparr>ac_digest := d\<rparr>"
  let ?handler = "mutate_room_handler ?sv leave_command (\<lambda>room. leave room ''A'' (ac_expected leave_command))"
  let ?row = "\<lparr>cw_command = ?cmd, cw_result = None, cw_accepted = None, cw_created = at_second 1, cw_completed = None\<rparr>"
  let ?db1 = "(created_database e)\<lparr>db_commands := (db_commands (created_database e))((''A'', ''C2'') \<mapsto> ?row)\<rparr>"
  have k: "sv_clock ?sv (created_database e, ()) = (at_second 1, (created_database e, ()))"
    by (simp add: mysql_service_def later_service_def sample_service_def)
  have t: "time_utc (at_second 1) = at_second 1" "ac_type leave_command = ''room''" "ac_aggregate leave_command = ''R''"
    "ac_seq leave_command = 2" "ac_id leave_command = ''C2''" "same_command ?cmd ?cmd"
    by (simp_all add: time_utc_def at_second_def leave_command_def create_command_def same_command_def time_equal_def)
  have n: "db_commands (created_database e) (''A'', ''C2'') = None" "db_sequences ?db1 (''room'', ''R'', ''A'') = Some 1"
    "db_outbox ?db1 = [created_outbox]" "db_rooms ?db1 = [(''R'', room_row_of (room_snapshot_of sample_room) (at_second 1) (at_second 1))]"
    by (simp_all add: created_database_def empty_database_def)
  have l: "lock_client_sequence steady_driver ''room'' ''R'' ''A'' (?db1, ()) = (Inr 1, (?db1, ()))"
    using n(2) by (simp add: sample_operations(1))
  have two: "\<not> (2 :: u64) \<le> 1" by code_simp
  obtain rooms where h: "?handler (at_second 1) (?db1, ()) = (Inr left_outcome, (?db1\<lparr>db_rooms := rooms\<rparr>, ()))"
    using leave_handler [OF n(4)] by blast
  obtain db' where o: "store_outcome ?sv ''A'' ?cmd (at_second 1) left_outcome (?db1\<lparr>db_rooms := rooms\<rparr>, ()) =
      ((None, \<lparr>ck_result = leave_result, ck_rollback = None\<rparr>), (db', ()))"
    using leave_store [of "?db1\<lparr>db_rooms := rooms\<rparr>" ?row d] n by auto
  have "run_claimed ?sv ''A'' ?cmd (at_second 1) ?handler (?db1, ()) =
      ((None, \<lparr>ck_result = leave_result, ck_rollback = None\<rparr>), (db', ()))"
    by (simp add: run_claimed_def Let_def leave_fresh t wrap_infrastructure_def or_else_def l two run_handler_def h o)
  then have "command_body ?sv ''A'' ?cmd ?handler (created_database e, ()) =
      ((None, \<lparr>ck_result = leave_result, ck_rollback = None\<rparr>), (db', ()))"
    by (simp add: command_body_def Let_def k t wrap_infrastructure_def or_else_def leave_claim [OF n(1)])
  then show ?thesis by blast
qed

lemma leave_run:
  "\<exists>db'. run_request (mysql_service steady_driver later_service) ''A'' leave_command LeaveRoom (created_database e, ()) =
    ((None, leave_result), (db', ()))"
proof -
  obtain d where b: "bind_command_payload leave_command no_payload = leave_command\<lparr>ac_digest := d\<rparr>"
    by (simp add: bind_command_payload_def)
  obtain db' where o: "command_body (mysql_service steady_driver later_service) ''A'' (leave_command\<lparr>ac_digest := d\<rparr>)
      (mutate_room_handler (mysql_service steady_driver later_service) leave_command
        (\<lambda>room. leave room ''A'' (ac_expected leave_command))) (created_database e, ()) =
    ((None, \<lparr>ck_result = leave_result, ck_rollback = None\<rparr>), (db', ()))"
    using leave_body by blast
  have c: "dv_statement steady_driver = (\<lambda>name w. (None, w))" "dv_commit steady_driver = (\<lambda>w. ((None, True), w))"
    "ac_id leave_command = ''C2''"
    by (simp_all add: steady_driver_def leave_command_def)
  show ?thesis
    by (simp add: plain_def leave_room_def mutate_room_def execute_def Let_def b leave_identity within_command_def o c)
qed

lemma sample_undo: "undo_internal (mysql_service steady_driver sample_service)"
  by (simp add: undo_internal_def internal_def mysql_service_def outside_def outside_live_def sample_service_def idle_live_def
      give_def split: prod.splits)

lemma sample_results: "fresh create_result" "fresh leave_result"
  by (simp_all add: fresh_def create_result_def leave_result_def accepted_result_def)

end
