(* ===== verification/Mysql_Properties.thy ===== *)
theory Mysql_Properties
  imports Mysql_Sample
begin

text \<open>
  What the durable commands guarantee on the MySQL store, over any sequence of requests of any actors: each
  request may run with its own clock, generators and runtimes, the driver may fail any statement or COMMIT,
  and between two requests the world outside the command tables may change.
\<close>

section \<open>Sequences of requests\<close>

lemma live_tables_views:
  "ledger (with_live_tables db live, w') = ledger (db, w)"
  "game_view (with_live_tables db live, w') = game_view (db, w)"
  by (simp_all add: with_live_tables_def ledger_def game_view_def game_of_def room_table_def)

inductive later :: "'w state \<Rightarrow> 'w state \<Rightarrow> bool" where
  later_refl: "later a a"
| later_request: "later a b \<Longrightarrow> run_request (mysql_service drv sv) actor cmd req b = (r, c) \<Longrightarrow> later a c"
| later_world: "later a (db, w) \<Longrightarrow> later a (with_live_tables db live, w')"

lemma later_grows: "later a b \<Longrightarrow> ledger_grows a b"
proof (induction rule: later.induct)
  case (later_refl a)
  then show ?case by (simp add: ledger_grows_same)
next
  case (later_request a b drv sv actor cmd req r c)
  then show ?case using growingD [OF request_grows] ledger_grows_trans by blast
next
  case (later_world a db w live w')
  moreover have "ledger_grows (db, w) (with_live_tables db live, w')" by (rule ledger_grows_same) (rule live_tables_views)
  ultimately show ?case using ledger_grows_trans by blast
qed

inductive reached :: "'w state \<Rightarrow> bool" where
  reached_start: "reached (empty_database, w)"
| reached_request: "reached s \<Longrightarrow> undo_internal (mysql_service drv sv) \<Longrightarrow>
    run_request (mysql_service drv sv) actor cmd req s = (r, s') \<Longrightarrow> reached s'"
| reached_world: "reached (db, w) \<Longrightarrow> reached (with_live_tables db live, w')"

lemma reached_ok: "reached s \<Longrightarrow> game_ok (game_view s)"
proof (induction rule: reached.induct)
  case (reached_start w)
  have "game_view (empty_database, w) = empty_game"
    by (simp add: game_view_def game_of_def empty_database_def empty_game_def room_table_def fun_eq_iff)
  then show ?case by (simp add: empty_game_ok)
next
  case (reached_request s drv sv actor cmd req r s')
  then show ?case using request_step game_step_ok by metis
next
  case (reached_world db w live w')
  then show ?case by (metis live_tables_views(2))
qed

lemma request_replays:
  assumes "run_request (mysql_service drv sv) actor cmd req s = ((err, result'), s')"
    and row: "db_commands (fst s) (actor, ac_id cmd) = Some row" "cw_result row = Some result" "cw_completed row \<noteq> None"
  shows "tables s' = tables s" and "cr_accepted result' \<Longrightarrow> result' = result\<lparr>cr_duplicate := True\<rparr>"
    and "err = None \<Longrightarrow> mode_known req \<Longrightarrow> same_command (cw_command row) (bound_command cmd req) \<Longrightarrow>
      validate_command_identity actor (bound_command cmd req) (request_name req) (request_type req) (request_creates req) = None \<Longrightarrow>
      result' = result\<lparr>cr_duplicate := True\<rparr>"
proof -
  obtain r s1 where
    r: "(if mode_known req then request_call (mysql_service drv sv) actor cmd req else fail_with (App AppInvalidCommand)) s = (r, s1)"
    and t: "tables s' = tables s1" and c: "case r of Inl e \<Rightarrow> err = Some e \<and> result' = zero_result | Inr x \<Rightarrow> result' = x"
    using mysql_data.request_ends [OF assms(1)] by blast
  show "tables s' = tables s"
    using r t execute_replays(1) [OF _ row] by (auto simp: request_call_def fail_with_def split: if_splits)
  show "cr_accepted result' \<Longrightarrow> result' = result\<lparr>cr_duplicate := True\<rparr>"
    using r c execute_replays(2) [OF _ row] by (auto simp: request_call_def fail_with_def split: if_splits sum.splits)
  show "err = None \<Longrightarrow> mode_known req \<Longrightarrow> same_command (cw_command row) (bound_command cmd req) \<Longrightarrow>
      validate_command_identity actor (bound_command cmd req) (request_name req) (request_type req) (request_creates req) = None \<Longrightarrow>
      result' = result\<lparr>cr_duplicate := True\<rparr>"
    using r c execute_replays(3) [OF _ row] by (auto simp: request_call_def bound_command_def split: sum.splits)
qed

lemma kept_result:
  assumes "result_stored actor cmd result (fst s)" and "later s s'"
  shows "\<exists>row. db_commands (fst s') (actor, ac_id cmd) = Some row \<and> cw_result row = Some result \<and> cw_completed row \<noteq> None \<and>
    same_command (cw_command row) cmd"
  using assms later_grows unfolding result_stored_def ledger_grows_def by (metis option.distinct(1))

lemma entry_of_row_sel [simp]:
  "le_version (entry_of_row e) = ob_version e" "le_id (entry_of_row e) = ob_aggregate e"
  "le_type (entry_of_row e) = AggregateRoom \<longleftrightarrow> ob_type e = aggregate_text AggregateRoom"
  "le_type (entry_of_row e) = AggregateHand \<longleftrightarrow> ob_type e \<noteq> aggregate_text AggregateRoom"
  by (simp_all add: entry_of_row_def)

lemma log_rows_outbox:
  "log_of (game_view s) AggregateRoom rid =
     map ob_version (filter (\<lambda>e. ob_type e = aggregate_text AggregateRoom \<and> ob_aggregate e = rid) (db_outbox (fst s)))"
  "log_of (game_view s) AggregateHand hid =
     map ob_version (filter (\<lambda>e. ob_type e \<noteq> aggregate_text AggregateRoom \<and> ob_aggregate e = hid) (db_outbox (fst s)))"
  by (simp_all add: log_of_def filter_map comp_def del: aggregate_text.simps)

lemma numbered_versions:
  assumes "numbered vs v"
  shows "\<exists>n. vs = map (\<lambda>i. word_of_nat (Suc i)) [0..<n] \<and> (case v of None \<Rightarrow> n = 0 | Some k \<Rightarrow> k = word_of_nat n)"
proof (intro exI conjI)
  show "vs = map (\<lambda>i. word_of_nat (Suc i)) [0..<length vs]" using assms unfolding numbered_def counted_def by blast
  have "case v of None \<Rightarrow> vs = [] | Some k \<Rightarrow> k = word_of_nat (length vs)" using assms unfolding numbered_def by blast
  then show "case v of None \<Rightarrow> length vs = 0 | Some k \<Rightarrow> k = word_of_nat (length vs)" by (cases v) simp_all
qed

section \<open>Properties\<close>

lemma request_error:
  assumes "request_call (mysql_service drv sv) actor cmd req s = (Inl err, s')" and "undo_internal (mysql_service drv sv)"
  shows "tables s' = tables s \<or>
    validate_command_identity actor (bound_command cmd req) (request_name req) (request_type req) (request_creates req) = None \<and>
    (\<exists>result. fresh result \<and> result_stored actor (bound_command cmd req) result (fst s'))"
  using execute_error [OF assms(1) [unfolded request_call_def] mysql_data.request_atomic [OF assms(2)] request_keeps_ledger
      mysql_data.request_rollback mysql_ledger.request_rollback]
  by (simp add: bound_command_def)

text \<open>A stored acceptance is what a request that is sent again gets.\<close>

definition retried_gets :: "account_id \<Rightarrow> app_command \<Rightarrow> app_request \<Rightarrow> command_result \<Rightarrow> 'w state \<Rightarrow> bool" where
  "retried_gets actor cmd req kept s \<longleftrightarrow>
     (\<forall>drv sv retried s'. run_request (mysql_service drv sv) actor cmd req s = ((None, retried), s') \<longrightarrow>
        retried = kept\<lparr>cr_duplicate := True\<rparr> \<and> tables s' = tables s)"

lemma stored_retried:
  assumes "result_stored actor (bound_command cmd req) kept (fst s)" and "mode_known req"
    and "validate_command_identity actor (bound_command cmd req) (request_name req) (request_type req) (request_creates req) = None"
  shows "retried_gets actor cmd req kept s"
proof -
  obtain row where row: "db_commands (fst s) (actor, ac_id cmd) = Some row" "cw_result row = Some kept"
      "cw_completed row \<noteq> None" "same_command (cw_command row) (bound_command cmd req)"
    using assms(1) by (auto simp: result_stored_def)
  show ?thesis
    unfolding retried_gets_def using request_replays(1,3) [OF _ row(1-3)] row(4) assms(2,3) by blast
qed

text \<open>C8: a request that is not accepted has no effect. Whatever request of whatever actor is answered with
  anything but an acceptance, be it a rejection or an error, the rooms, the hands, the contribution records and
  the outbox are exactly what they were; or the answer is an error, the command was applied all the same (its
  COMMIT failed and yet took effect), and then the command table holds its acceptance, which the same request
  sent again gets as a duplicate, whenever its transaction ends. Undoing prepared state is supposed never to
  fail with an error of the client's.\<close>

theorem rejected_changes_nothing:
  assumes "run_request (mysql_service drv sv) actor cmd req s = ((err, result), s')" and "\<not> cr_accepted result"
    and "undo_internal (mysql_service drv sv)"
  shows "tables s' = tables s \<or>
    err \<noteq> None \<and> (\<exists>kept. fresh kept \<and> result_stored actor (bound_command cmd req) kept (fst s') \<and>
      retried_gets actor cmd req kept s')"
proof -
  let ?call = "if mode_known req then request_call (mysql_service drv sv) actor cmd req else fail_with (App AppInvalidCommand)"
  obtain r s1 where r: "?call s = (r, s1)" "tables s' = tables s1"
    and c: "case r of Inl e \<Rightarrow> err = Some e \<and> result = zero_result | Inr x \<Rightarrow> result = x"
    using mysql_data.request_ends [OF assms(1)] by blast
  have l: "ledger s' = ledger s1" using mysql_ledger.request_ends [OF assms(1)] r(1) by auto
  consider "\<not> mode_known req" | x where "mode_known req" "r = Inr x" | e where "mode_known req" "r = Inl e"
    by (cases r) auto
  then show ?thesis
  proof cases
    case 1
    then show ?thesis using r by (simp add: fail_with_def)
  next
    case 2
    then show ?thesis using mysql_data.request_call_rejected [of drv sv actor cmd req s r s1] r c assms(2,3) by simp
  next
    case 3
    have "tables s1 = tables s \<or> (\<exists>kept. fresh kept \<and> result_stored actor (bound_command cmd req) kept (fst s') \<and>
        retried_gets actor cmd req kept s')"
      using request_error [of drv sv actor cmd req s e s1] 3 r(1) assms(3) l stored_retried [of actor cmd req _ s']
      by (auto simp: result_stored_def ledger_db)
    then show ?thesis using 3 r(2) c by auto
  qed
qed

text \<open>C2: exactly once. When a command was freshly accepted, then after any further requests a command with
  the same ID of the same actor changes no room, hand, record or event, whatever it asks for; the only
  acceptance it can get is the stored result, marked as a duplicate; and the same command sent again gets it
  whenever the transaction ends.\<close>

theorem command_applied_once:
  assumes "run_request (mysql_service drv sv) actor cmd req s = ((err, result), s1)" and "fresh result"
    and "later s1 s2"
    and "run_request (mysql_service drv' sv') actor cmd' req' s2 = ((err', result'), s3)" and "ac_id cmd' = ac_id cmd"
  shows "tables s3 = tables s2 \<and> (cr_accepted result' \<longrightarrow> result' = result\<lparr>cr_duplicate := True\<rparr>) \<and>
    (cmd' = cmd \<and> req' = req \<and> err' = None \<longrightarrow> result' = result\<lparr>cr_duplicate := True\<rparr>)"
proof -
  note f = request_fresh [OF assms(1,2)]
  obtain row where row: "db_commands (fst s2) (actor, ac_id cmd') = Some row" "cw_result row = Some result"
      "cw_completed row \<noteq> None" "same_command (cw_command row) (bound_command cmd req)"
    using kept_result [OF f(2) assms(3)] assms(5) by auto
  note p = request_replays [OF assms(4) row(1,2,3)]
  show ?thesis
  proof (intro conjI impI)
    assume "cmd' = cmd \<and> req' = req \<and> err' = None"
    then show "result' = result\<lparr>cr_duplicate := True\<rparr>" using p(3) f(1,5) row(4) by auto
  qed (use p(1,2) in auto)
qed

text \<open>C20: client sequences. Of two fresh acceptances of one actor on one aggregate the later one has the
  larger client sequence, whatever happens in between.\<close>

theorem sequences_increase:
  assumes "run_request (mysql_service drv sv) actor cmd req s = ((err, result), s1)" and "fresh result"
    and "later s1 s2"
    and "run_request (mysql_service drv' sv') actor cmd' req' s2 = ((err', result'), s3)" and "fresh result'"
    and "ac_type cmd' = ac_type cmd" and "ac_aggregate cmd' = ac_aggregate cmd"
  shows "ac_seq cmd < ac_seq cmd'"
proof -
  have k: "sequence_key actor cmd' = sequence_key actor cmd" using assms(6,7) by (simp add: sequence_key_def)
  obtain m where "db_sequences (fst s2) (sequence_key actor cmd) = Some m" "ac_seq cmd \<le> m"
    using request_fresh(3) [OF assms(1,2)] later_grows [OF assms(3)] unfolding ledger_grows_def by blast
  then show ?thesis using request_fresh(4) [OF assms(4,5)] by (simp add: k sequence_of_def)
qed

text \<open>C4: refinement. Seen as rooms, hands and a log of events, every request of the service on the MySQL
  store either changes nothing or is one step of the abstract game: a new room, one command of a player on a
  stored room, a hand started together with the room that starts it, one command on a stored hand, or a hand
  ended together with the room that has it, each with exactly the events of the aggregates appended.\<close>

theorem requests_refine_game:
  assumes "run_request (mysql_service drv sv) actor cmd req s = (r, s')" and "undo_internal (mysql_service drv sv)"
  shows "game_view s' = game_view s \<or> game_step (game_view s) (game_view s')"
  by (rule request_step [OF assms])

text \<open>C7: rooms and hands agree. After any requests, a hand is in the table, not ended and bound to a room
  exactly when that room's row has it as its active hand.\<close>

theorem rooms_and_hands_agree:
  assumes "reached s"
  shows "(\<exists>row. db_hands (fst s) hid = Some row \<and> \<not> phase_terminal (hn_phase (hw_snapshot row)) \<and>
       hn_room (hw_snapshot row) = rid) \<longleftrightarrow>
    hid \<noteq> [] \<and> (\<exists>row. room_table (fst s) rid = Some row \<and> rn_active_hand (rw_snapshot row) = hid)"
proof -
  have "running (game_view s) hid rid \<longleftrightarrow> active_in (game_view s) hid rid"
    using reached_ok [OF assms] by (simp add: game_ok_def hands_agree_def)
  then show ?thesis by (auto simp: running_def active_in_def)
qed

text \<open>C9: the outbox is complete. After any requests, the events of a room in the outbox carry the versions
  1, 2, and so on, in this order and without a gap, up to the version of the room's row, and there are none
  for a room that is not in the table; the same holds for the events of every hand.\<close>

theorem outbox_complete:
  assumes "reached s"
  shows "(\<exists>n. map ob_version (filter (\<lambda>e. ob_type e = aggregate_text AggregateRoom \<and> ob_aggregate e = rid) (db_outbox (fst s))) =
        map (\<lambda>i. word_of_nat (Suc i)) [0..<n] \<and>
      (case room_table (fst s) rid of None \<Rightarrow> n = 0 | Some row \<Rightarrow> rn_version (rw_snapshot row) = word_of_nat n)) \<and>
    (\<exists>n. map ob_version (filter (\<lambda>e. ob_type e \<noteq> aggregate_text AggregateRoom \<and> ob_aggregate e = hid) (db_outbox (fst s))) =
        map (\<lambda>i. word_of_nat (Suc i)) [0..<n] \<and>
      (case db_hands (fst s) hid of None \<Rightarrow> n = 0 | Some row \<Rightarrow> hn_version (hw_snapshot row) = word_of_nat n))"
proof -
  have ok: "log_complete (game_view s)" using reached_ok [OF assms] by (simp add: game_ok_def)
  have r: "numbered (log_of (game_view s) AggregateRoom rid) (map_option rn_version (gs_rooms (game_view s) rid))"
    and h: "numbered (log_of (game_view s) AggregateHand hid) (map_option hn_version (gs_hands (game_view s) hid))"
    using ok by (simp_all add: log_complete_def)
  show ?thesis
    using numbered_versions [OF r] numbered_versions [OF h] unfolding log_rows_outbox
    by (cases "room_table (fst s) rid"; cases "db_hands (fst s) hid") simp_all
qed

section \<open>Witnesses\<close>

lemma sample_reached: "reached (created_database create_digest, ())"
  using reached_request [OF reached_start sample_undo sample_run] .

text \<open>A command without a client sequence.\<close>

lemma unnumbered_run:
  "run_request (mysql_service steady_driver sample_service) ''A'' (create_command\<lparr>ac_seq := 0\<rparr>) CreateRoom s =
     ((None, rejected_result (bound_command (create_command\<lparr>ac_seq := 0\<rparr>) CreateRoom)
        (rejection code_invalid_command ''client sequence must be positive'') 0), s)"
proof -
  let ?cmd = "bind_command_payload (create_command\<lparr>ac_seq := 0\<rparr>) no_payload"
  have "validate_command_identity ''A'' ?cmd name_room_create AggregateRoom True =
      Some (rejection code_invalid_command ''client sequence must be positive'')"
    by (simp add: validate_command_identity_def Let_def create_command_def bind_command_payload_def) code_simp
  then show ?thesis by (simp add: plain_def create_room_def execute_def Let_def bound_command_def)
qed

theorem rejected_changes_nothing_witness:
  "tables (snd (run_request (mysql_service steady_driver sample_service) ''A'' (create_command\<lparr>ac_seq := 0\<rparr>) CreateRoom
     (created_database [], ()))) = tables (created_database [], ())"
  using rejected_changes_nothing [OF unnumbered_run [of "(created_database [], ())"] _ sample_undo] unnumbered_run by simp

theorem command_applied_once_witness:
  "tables (snd (run_request (mysql_service steady_driver sample_service) ''A'' create_command CreateRoom
     (created_database create_digest, ()))) = tables (created_database create_digest, ())"
proof -
  obtain err result s where r: "run_request (mysql_service steady_driver sample_service) ''A'' create_command CreateRoom
      (created_database create_digest, ()) = ((err, result), s)"
    by (metis prod.collapse)
  then show ?thesis
    using command_applied_once [OF sample_run sample_results(1) later_refl r] by simp
qed

theorem sequences_increase_witness: "ac_seq create_command < ac_seq leave_command"
proof -
  obtain db where r: "run_request (mysql_service steady_driver later_service) ''A'' leave_command LeaveRoom
      (created_database create_digest, ()) = ((None, leave_result), (db, ()))"
    using leave_run by blast
  show ?thesis
    by (rule sequences_increase [OF sample_run sample_results(1) later_refl r sample_results(2)])
      (simp_all add: leave_command_def)
qed

theorem requests_refine_game_witness: "game_step (game_view (empty_database, ())) (game_view (created_database create_digest, ()))"
proof -
  have "game_view (created_database create_digest, ()) \<noteq> game_view (empty_database, ())"
    by (auto dest!: arg_cong [of _ _ gs_log] simp: created_database_def empty_database_def)
  then show ?thesis using requests_refine_game [OF sample_run sample_undo] by metis
qed

theorem rooms_and_hands_agree_witness:
  "\<not> (\<exists>row. db_hands (created_database create_digest) ''H'' = Some row \<and> \<not> phase_terminal (hn_phase (hw_snapshot row)) \<and>
      hn_room (hw_snapshot row) = ''R'')"
proof -
  have "room_table (created_database create_digest) ''R'' =
      Some (room_row_of (room_snapshot_of sample_room) (at_second 1) (at_second 1))"
    by (simp add: room_table_def created_database_def empty_database_def)
  then show ?thesis
    using rooms_and_hands_agree [OF sample_reached, of "''H''" "''R''"]
    by (simp add: room_row_of_def room_snapshot_of_def sample_room_def)
qed

theorem outbox_complete_witness:
  "\<exists>n. map ob_version (db_outbox (created_database create_digest)) = map (\<lambda>i. word_of_nat (Suc i)) [0..<n] \<and>
     rn_version (room_snapshot_of sample_room) = word_of_nat n"
proof -
  have "room_table (created_database create_digest) ''R'' =
      Some (room_row_of (room_snapshot_of sample_room) (at_second 1) (at_second 1))"
    "db_outbox (created_database create_digest) = [created_outbox]"
    by (simp_all add: room_table_def created_database_def empty_database_def)
  then show ?thesis
    using conjunct1 [OF outbox_complete [OF sample_reached, of "''R''" "[]"]]
    by (simp add: room_row_of_def created_outbox_def)
qed

end
