(* ===== verification/Live_Journal.thy ===== *)
theory Live_Journal
  imports Mysql_Store Live_Directory
begin

text \<open>
  \<open>infrastructure/mysqlstore/live_journal.go\<close> and \<open>live_terminal_history.go\<close>: the journal of the live hands.
  Each hand has one writer row with the epoch of its owner and the version of the last committed action, and
  one action row per accepted command, with a tag over it. The payload of an action is a JSON column: what is
  read back is the text that MySQL prints for the value that was written, a parameter here.
\<close>

section \<open>The machine\<close>

text \<open>
  The driver, the random source, AES-GCM under a key (nonce, text, associated data), and the text that a JSON
  column gives for the text that was written into it.
\<close>

record 'w machine =
  mc_driver :: "'w driver"
  mc_random :: "nat \<Rightarrow> 'w \<Rightarrow> bytes option \<times> 'w"
  mc_seal :: "bytes \<Rightarrow> bytes \<Rightarrow> bytes \<Rightarrow> bytes \<Rightarrow> bytes"
  mc_open :: "bytes \<Rightarrow> bytes \<Rightarrow> bytes \<Rightarrow> bytes \<Rightarrow> bytes option"
  mc_column :: "bytes \<Rightarrow> bytes"

text \<open>A journal's keys: \<open>jl_key\<close> is empty, and \<open>jl_checkpoint\<close> is \<open>None\<close>, until they are configured.\<close>

record journal =
  jl_checkpoint :: "bytes option"
  jl_checkpoint_readers :: "bytes list"
  jl_key :: bytes
  jl_key_readers :: "bytes list"

definition new_live_journal :: journal where
  "new_live_journal = \<lparr>jl_checkpoint = None, jl_checkpoint_readers = [], jl_key = [], jl_key_readers = []\<rparr>"

abbreviation bad_replay :: app_error where "bad_replay \<equiv> Core (Journal ReplayIntegrity)"

text \<open>
  A transaction of its own: the deferred ROLLBACK follows every error of the body, and its own error is
  dropped; a failed COMMIT may have been applied.
\<close>

definition journal_transaction ::
  "'w driver \<Rightarrow> (string \<Rightarrow> app_error) \<Rightarrow> ('w state, 'a) call \<Rightarrow> ('w state, 'a) call" where
  "journal_transaction drv commit_error body s =
     (case dv_statement drv ''begin'' (snd s) of
        (Some failure, w) \<Rightarrow> (Inl (Fault failure), (fst s, w))
      | (None, w) \<Rightarrow>
          (case body (fst s, w) of
             (Inl e, (db, w')) \<Rightarrow> (Inl e, (fst s, snd (dv_statement drv ''rollback'' w')))
           | (Inr x, (db, w')) \<Rightarrow>
               (case dv_commit drv w' of
                  ((None, applied), w'') \<Rightarrow> (Inr x, (db, w''))
                | ((Some failure, applied), w'') \<Rightarrow> (Inl (commit_error failure), (if applied then db else fst s, w'')))))"

section \<open>Canonical payloads\<close>

text \<open>
  A value decoded into \<open>any\<close> with \<open>UseNumber\<close> and marshalled again: members in the order of their names, the
  last one of a name, numbers as they were written.
\<close>

fun put_member :: "string \<Rightarrow> json \<Rightarrow> (string \<times> json) list \<Rightarrow> (string \<times> json) list" where
  "put_member k v [] = [(k, v)]"
| "put_member k v ((k', v') # ms) =
     (if k = k' then (k, v) # ms else if k < k' then (k, v) # (k', v') # ms else (k', v') # put_member k v ms)"

definition sorted_members :: "(string \<times> json) list \<Rightarrow> (string \<times> json) list" where
  "sorted_members ms = foldl (\<lambda>acc (k, v). put_member k v acc) [] ms"

fun canonical_json :: "json \<Rightarrow> json" where
  "canonical_json (JArr vs) = JArr (map canonical_json vs)"
| "canonical_json (JObj ms) = JObj (sorted_members (map (\<lambda>(k, v). (k, canonical_json v)) ms))"
| "canonical_json v = v"

definition canonical_payload :: "bytes \<Rightarrow> bytes option" where
  "canonical_payload payload = map_option (\<lambda>j. json_print (canonical_json j)) (json_parse payload)"

section \<open>The tag of an action\<close>

definition integrity_domain :: string where "integrity_domain = ''doudizhu/live-action-integrity/v2:''"

definition derive_integrity_key :: "bytes \<Rightarrow> bytes" where
  "derive_integrity_key root = sha256 (str_bytes integrity_domain @ root)"

definition json_binding :: "live_action \<Rightarrow> json \<Rightarrow> json" where
  "json_binding a payload = JObj
     (member ''Domain'' (JStr integrity_domain) @ member ''HandID'' (JStr (la_hand a))
      @ member ''Version'' (json_word (la_version a)) @ member ''Epoch'' (json_word (la_epoch a))
      @ member ''CommandID'' (JStr (la_command a)) @ member ''Actor'' (JStr (la_actor a))
      @ member ''ActorPosition'' (json_word (la_position a)) @ member ''ExpectedVersion'' (json_word (la_expected a))
      @ member ''ClientSeq'' (json_word (la_seq a)) @ member ''Payload'' payload
      @ member ''ResultDigest'' (json_array32 (la_digest a)))"

text \<open>
  Go's decoder would stop after the first value of the payload; both callers have checked before that the
  whole payload is one value.
\<close>

definition integrity_tag :: "live_action \<Rightarrow> bytes \<Rightarrow> app_error + bytes" where
  "integrity_tag a key =
     (case json_parse (la_payload a) of
        None \<Rightarrow> Inl bad_replay
      | Some j \<Rightarrow>
          (let binding = json_print (json_binding a (canonical_json j))
           in Inr (if length key = 0 then sha256 binding else hmac_sha256 key binding)))"

fun tag_matches :: "live_action \<Rightarrow> bytes \<Rightarrow> bytes list \<Rightarrow> app_error + unit" where
  "tag_matches a stored [] = Inl bad_replay"
| "tag_matches a stored (key # keys) =
     (case integrity_tag a key of
        Inl e \<Rightarrow> Inl bad_replay
      | Inr candidate \<Rightarrow> if candidate = stored then Inr () else tag_matches a stored keys)"

definition verify_integrity :: "journal \<Rightarrow> live_action \<Rightarrow> bytes \<Rightarrow> app_error + unit" where
  "verify_integrity jl a stored =
     (if length stored \<noteq> 32 then Inl bad_replay
      else if la_integrity a = 1 then
        (if length (jl_key jl) \<noteq> 0 \<or> length (jl_key_readers jl) \<noteq> 0 \<or> la_seq a \<noteq> 0 then Inl bad_replay
         else tag_matches a stored [[]])
      else if la_integrity a = 2 then
        (if length (jl_key jl) = 0 then Inl bad_replay else tag_matches a stored (jl_key jl # jl_key_readers jl))
      else Inl bad_replay)"

section \<open>Outcomes\<close>

definition json_outcome :: "command_outcome \<Rightarrow> json" where
  "json_outcome oc = JObj
     (member ''Version'' (json_word (oc_version oc)) @ member ''Payload'' (json_bytes (slice_of (oc_payload oc)))
      @ member ''Terminal'' (JBool (oc_terminal oc)) @ member ''FinalPayload'' (json_bytes (slice_of (oc_final oc))))"

definition outcome_digest :: "command_outcome \<Rightarrow> bytes" where
  "outcome_digest oc = sha256 (json_print (json_outcome oc))"

section \<open>Writers\<close>

definition insert_writer :: "hand_snapshot \<Rightarrow> database \<Rightarrow> (app_error + unit) \<times> database" where
  "insert_writer genesis db =
     (case writer_table db (hn_id genesis) of
        Some row \<Rightarrow> (Inl (Fault duplicate_entry), db)
      | None \<Rightarrow> (Inr (), db\<lparr>db_writers :=
          AList.update (hn_id genesis) \<lparr>ww_epoch = 1, ww_committed = 1, ww_genesis = genesis\<rparr> (db_writers db)\<rparr>))"

definition create_journal :: "'w machine \<Rightarrow> hand_snapshot \<Rightarrow> ('w state, unit) call" where
  "create_journal mc genesis =
     and_then (guard (hn_id genesis = [] \<or> hn_phase genesis \<noteq> HandDealing) (Fault ''invalid live genesis'')) (\<lambda>_.
     and_then (domain_call (restore_hand genesis)) (\<lambda>_.
       wrap_infrastructure ''create live journal'' (statement (mc_driver mc) ''insert writer'' (insert_writer genesis))))"

definition hand_actions :: "database \<Rightarrow> hand_id \<Rightarrow> action_row list" where
  "hand_actions db hid = filter (\<lambda>row. la_hand (ar_action row) = hid) (db_actions db)"

definition delete_writer :: "hand_id \<Rightarrow> database \<Rightarrow> (app_error + nat) \<times> database" where
  "delete_writer hid db =
     (case writer_table db hid of
        Some row \<Rightarrow>
          if ww_committed row = 1 \<and> hand_actions db hid = []
          then (Inr 1, db\<lparr>db_writers := AList.delete hid (db_writers db)\<rparr>) else (Inr 0, db)
      | None \<Rightarrow> (Inr 0, db))"

definition delete_unused :: "'w machine \<Rightarrow> hand_id \<Rightarrow> ('w state, unit) call" where
  "delete_unused mc hid =
     and_then (statement (mc_driver mc) ''delete writer'' (delete_writer hid)) (\<lambda>rows.
       guard (rows \<noteq> 1) (Core (Journal WatermarkConflict)))"

definition check_genesis :: "hand_id \<Rightarrow> hand_snapshot \<Rightarrow> ('w state, unit) call" where
  "check_genesis hid genesis =
     and_then (guard (hn_id genesis \<noteq> hid \<or> hn_phase genesis \<noteq> HandDealing) bad_replay) (\<lambda>_.
       or_else (and_then (domain_call (restore_hand genesis)) (\<lambda>_. give ())) (\<lambda>e. fail_with bad_replay))"

definition set_epoch :: "hand_id \<Rightarrow> u64 \<Rightarrow> database \<Rightarrow> (app_error + nat) \<times> database" where
  "set_epoch hid epoch db =
     (case writer_table db hid of
        Some row \<Rightarrow> (Inr 1, db\<lparr>db_writers := AList.update hid (row\<lparr>ww_epoch := epoch\<rparr>) (db_writers db)\<rparr>)
      | None \<Rightarrow> (Inr 0, db))"

text \<open>The takeover: the new epoch, the watermark and the genesis.\<close>

definition acquire_writer :: "'w machine \<Rightarrow> hand_id \<Rightarrow> ('w state, u64 \<times> u64 \<times> hand_snapshot) call" where
  "acquire_writer mc hid =
     journal_transaction (mc_driver mc) (\<lambda>failure. Wrapped ''ambiguous owner takeover'' (Fault failure))
       (and_then (statement (mc_driver mc) ''select writer'' (select_row writer_table hid)) (\<lambda>row.
        and_then (guard (ww_epoch row = - 1) (Core (Journal WriterFenced))) (\<lambda>_.
        and_then (check_genesis hid (ww_genesis row)) (\<lambda>_.
        and_then (statement (mc_driver mc) ''update writer'' (set_epoch hid (ww_epoch row + 1))) (\<lambda>_.
          give (ww_epoch row + 1, ww_committed row, ww_genesis row))))))"

section \<open>Appending an action\<close>

definition max_live_actions :: nat where "max_live_actions = 512"
definition max_action_payload :: nat where "max_action_payload = 16384"

definition append_invalid :: "hand_id \<Rightarrow> u64 \<Rightarrow> string \<Rightarrow> account_id \<Rightarrow> command \<Rightarrow> command_outcome \<Rightarrow> bool" where
  "append_invalid hid epoch command_id actor cmd oc \<longleftrightarrow>
     hid = [] \<or> epoch = 0 \<or> command_id = [] \<or> length command_id > 128 \<or> actor = [] \<or> length actor > 128 \<or>
     cm_actor cmd < 1 \<or> cm_actor cmd > 3 \<or> oc_version oc = 0 \<or> oc_version oc \<noteq> cm_expected cmd + 1 \<or>
     length (cm_payload cmd) = 0 \<or> length (cm_payload cmd) > max_action_payload \<or>
     oc_version oc > word_of_nat (max_live_actions + 1) \<or> json_parse (cm_payload cmd) = None"

definition action_of ::
  "journal \<Rightarrow> hand_id \<Rightarrow> u64 \<Rightarrow> string \<Rightarrow> account_id \<Rightarrow> command \<Rightarrow> command_outcome \<Rightarrow> u64 \<Rightarrow> live_action" where
  "action_of jl hid epoch command_id actor cmd oc seq =
     \<lparr>la_hand = hid, la_version = oc_version oc, la_epoch = epoch, la_command = command_id, la_actor = actor,
      la_position = cm_actor cmd, la_expected = cm_expected cmd, la_seq = seq, la_payload = cm_payload cmd,
      la_digest = outcome_digest oc, la_integrity = (if length (jl_key jl) \<noteq> 0 then 2 else 1)\<rparr>"

definition insert_action :: "'w machine \<Rightarrow> action_row \<Rightarrow> database \<Rightarrow> (app_error + unit) \<times> database" where
  "insert_action mc row db =
     (if list_ex (\<lambda>other. la_version (ar_action other) = la_version (ar_action row) \<or>
                          la_command (ar_action other) = la_command (ar_action row))
          (hand_actions db (la_hand (ar_action row)))
      then (Inl (Fault duplicate_entry), db)
      else (Inr (), db\<lparr>db_actions := db_actions db @
              [row\<lparr>ar_action := (ar_action row)\<lparr>la_payload := mc_column mc (la_payload (ar_action row))\<rparr>\<rparr>]\<rparr>))"

definition set_watermark :: "hand_id \<Rightarrow> u64 \<Rightarrow> u64 \<Rightarrow> u64 \<Rightarrow> database \<Rightarrow> (app_error + nat) \<times> database" where
  "set_watermark hid version epoch committed db =
     (case writer_table db hid of
        Some row \<Rightarrow>
          if ww_epoch row = epoch \<and> ww_committed row = committed
          then (Inr 1, db\<lparr>db_writers := AList.update hid (row\<lparr>ww_committed := version\<rparr>) (db_writers db)\<rparr>)
          else (Inr 0, db)
      | None \<Rightarrow> (Inr 0, db))"

definition append_action ::
  "'w machine \<Rightarrow> journal \<Rightarrow> hand_id \<Rightarrow> u64 \<Rightarrow> string \<Rightarrow> account_id \<Rightarrow> command \<Rightarrow> command_outcome \<Rightarrow> u64 \<Rightarrow> ('w state, unit) call" where
  "append_action mc jl hid epoch command_id actor cmd oc seq =
     (let drv = mc_driver mc; action = action_of jl hid epoch command_id actor cmd oc seq in
      and_then (guard (append_invalid hid epoch command_id actor cmd oc) (Fault ''invalid durable live action'')) (\<lambda>_.
      and_then (guard (oc_terminal oc \<and> length (oc_final oc) = 0) (Fault ''invalid final live action'')) (\<lambda>_.
      and_then (guard (length (jl_key jl) = 0 \<and> seq \<noteq> 0) bad_replay) (\<lambda>_.
      and_then (give_result (integrity_tag action (jl_key jl))) (\<lambda>tag.
        journal_transaction drv (\<lambda>failure. Wrapped ''ambiguous live action commit'' (Fault failure))
          (and_then (statement drv ''select writer'' (select_row writer_table hid)) (\<lambda>row.
           and_then (guard (ww_epoch row \<noteq> epoch) (Core (Journal WriterFenced))) (\<lambda>_.
           and_then (guard (ww_committed row \<noteq> cm_expected cmd) (Core (Journal WatermarkConflict))) (\<lambda>_.
           and_then (statement drv ''insert action'' (insert_action mc \<lparr>ar_action = action, ar_tag = tag\<rparr>)) (\<lambda>_.
           and_then (statement drv ''update writer'' (set_watermark hid (oc_version oc) epoch (ww_committed row))) (\<lambda>rows.
             guard (rows \<noteq> 1) (Core (Journal WatermarkConflict)))))))))))))"

section \<open>Reading the journal\<close>

definition replay_action_ok :: "live_action \<Rightarrow> u64 \<Rightarrow> u64 \<Rightarrow> bool" where
  "replay_action_ok a expected previous \<longleftrightarrow>
     la_version a = expected \<and> la_expected a = expected - 1 \<and> la_epoch a \<noteq> 0 \<and> la_epoch a \<ge> previous \<and>
     la_command a \<noteq> [] \<and> length (la_command a) \<le> 128 \<and> la_actor a \<noteq> [] \<and> length (la_actor a) \<le> 128 \<and>
     1 \<le> la_position a \<and> la_position a \<le> 3 \<and> length (la_payload a) \<noteq> 0 \<and> length (la_payload a) \<le> max_action_payload \<and>
     json_parse (la_payload a) \<noteq> None \<and> length (la_digest a) = 32"

text \<open>The loop over the rows, with the number of actions read, the next version and the last epoch.\<close>

fun check_rows :: "journal \<Rightarrow> nat \<Rightarrow> u64 \<Rightarrow> u64 \<Rightarrow> action_row list \<Rightarrow> app_error + live_action list" where
  "check_rows jl n expected previous [] = Inr []"
| "check_rows jl n expected previous (row # rows) =
     (let a = ar_action row in
      if n \<ge> max_live_actions then Inl bad_replay
      else if la_position a < 1 \<or> la_position a > 3 then Inl bad_replay
      else if \<not> replay_action_ok a expected previous then Inl bad_replay
      else case verify_integrity jl a (ar_tag row) of
        Inl e \<Rightarrow> Inl e
      | Inr _ \<Rightarrow>
          (case check_rows jl (Suc n) (expected + 1) (la_epoch a) rows of
             Inl e \<Rightarrow> Inl e
           | Inr as \<Rightarrow> Inr (a # as)))"

definition select_actions :: "hand_id \<Rightarrow> database \<Rightarrow> (app_error + action_row list) \<times> database" where
  "select_actions hid db =
     (Inr (take (max_live_actions + 1) (sort_key (\<lambda>row. la_version (ar_action row)) (hand_actions db hid))), db)"

definition read_journal :: "'w machine \<Rightarrow> journal \<Rightarrow> hand_id \<Rightarrow> ('w state, live_action list) call" where
  "read_journal mc jl hid =
     and_then (statement (mc_driver mc) ''select actions'' (select_actions hid)) (\<lambda>rows.
       give_result (check_rows jl 0 2 0 rows))"

definition list_writers :: "'w machine \<Rightarrow> ('w state, hand_id list) call" where
  "list_writers mc = statement (mc_driver mc) ''select writers'' (\<lambda>db. (Inr (sort (map fst (db_writers db))), db))"

section \<open>Ended hands\<close>

text \<open>A query for one row that may be missing.\<close>

definition query_exists :: "'w machine \<Rightarrow> string \<Rightarrow> (database \<Rightarrow> bool) \<Rightarrow> ('w state, bool) call" where
  "query_exists mc name present = statement (mc_driver mc) name (\<lambda>db. (Inr (present db), db))"

definition has_live_writer :: "'w machine \<Rightarrow> hand_id \<Rightarrow> ('w state, bool) call" where
  "has_live_writer mc hid = query_exists mc ''select writer'' (\<lambda>db. writer_table db hid \<noteq> None)"

definition has_live_command :: "'w machine \<Rightarrow> hand_id \<Rightarrow> string \<Rightarrow> ('w state, bool) call" where
  "has_live_command mc hid command_id =
     (if hid = [] \<or> command_id = [] \<or> length command_id > 128 then give False
      else query_exists mc ''select action''
             (\<lambda>db. list_ex (\<lambda>row. la_command (ar_action row) = command_id) (hand_actions db hid)))"

definition read_terminal_history ::
  "'w machine \<Rightarrow> journal \<Rightarrow> hand_id \<Rightarrow> ('w state, hand_snapshot \<times> hand_snapshot \<times> live_action list) call" where
  "read_terminal_history mc jl hid =
     and_then (statement (mc_driver mc) ''select hand'' (select_row db_hands hid)) (\<lambda>hand.
     let snapshot = hw_snapshot hand in
     and_then (guard (hn_id snapshot \<noteq> hid \<or> \<not> phase_terminal (hn_phase snapshot)) bad_replay) (\<lambda>_.
     and_then (or_else (domain_call (restore_hand snapshot)) (\<lambda>e. fail_with bad_replay)) (\<lambda>_.
     and_then (statement (mc_driver mc) ''select writer'' (select_row writer_table hid)) (\<lambda>row.
     and_then (check_genesis hid (ww_genesis row)) (\<lambda>_.
     and_then (read_journal mc jl hid) (\<lambda>actions.
     and_then (guard (ww_committed row \<noteq> word_of_nat (length actions) + 1) bad_replay) (\<lambda>_.
       give (snapshot, ww_genesis row, actions))))))))"

end
