(* ===== verification/Sealed_Tables.thy ===== *)
theory Sealed_Tables
  imports Live_Journal Final_Evidence
begin

text \<open>
  What the server keeps encrypted: the server seeds (\<open>mysqlstore/protected_seed.go\<close>), the recovery
  checkpoints (\<open>mysqlstore/live_checkpoint.go\<close>), the rotation of their keys (\<open>key_rotation.go\<close>), and the
  removal of archived hands (\<open>live_retention.go\<close>). AES-GCM has nonces of 12 bytes and tags of 16.
\<close>

definition nonce_size :: nat where "nonce_size = 12"
definition seal_overhead :: nat where "seal_overhead = 16"

definition read_random :: "'w machine \<Rightarrow> nat \<Rightarrow> app_error \<Rightarrow> ('w state, bytes) call" where
  "read_random mc n err s =
     (case mc_random mc n (snd s) of
        (None, w) \<Rightarrow> (Inl err, (fst s, w))
      | (Some bs, w) \<Rightarrow> (Inr bs, (fst s, w)))"

text \<open>The first key that opens a sealed text.\<close>

fun open_with :: "'w machine \<Rightarrow> bytes list \<Rightarrow> bytes \<Rightarrow> bytes \<Rightarrow> bytes \<Rightarrow> bytes option" where
  "open_with mc [] nonce cipher aad = None"
| "open_with mc (key # keys) nonce cipher aad =
     (case mc_open mc key nonce cipher aad of
        Some plain \<Rightarrow> Some plain
      | None \<Rightarrow> open_with mc keys nonce cipher aad)"

section \<open>Server seeds\<close>

record seed_store =
  sk_key :: bytes
  sk_readers :: "bytes list"

definition server_seed_domain :: string where "server_seed_domain = ''doudizhu/server-seed/aes256gcm/v1:''"

definition seed_aad :: "hand_id \<Rightarrow> bytes" where "seed_aad hid = str_bytes (server_seed_domain @ hid)"

definition new_protected_seed_store :: "bytes \<Rightarrow> app_error + seed_store" where
  "new_protected_seed_store root =
     (if length root \<noteq> 32 then Inl (Fault ''protected seed store requires database and 256-bit root key'')
      else Inr \<lparr>sk_key = sha256 (str_bytes server_seed_domain @ root), sk_readers = []\<rparr>)"

definition insert_seed :: "hand_id \<Rightarrow> seed_row \<Rightarrow> database \<Rightarrow> (app_error + unit) \<times> database" where
  "insert_seed hid row db =
     (case db_seeds db hid of
        Some old \<Rightarrow> (Inl (Fault duplicate_entry), db)
      | None \<Rightarrow> (Inr (), db\<lparr>db_seeds := (db_seeds db)(hid \<mapsto> row)\<rparr>))"

definition bad_hand :: "hand_id \<Rightarrow> bool" where "bad_hand hid \<longleftrightarrow> hid = [] \<or> length hid > 128"

definition save_seed :: "'w machine \<Rightarrow> seed_store \<Rightarrow> hand_id \<Rightarrow> bytes \<Rightarrow> ('w state, unit) call" where
  "save_seed mc st hid seed =
     and_then (guard (bad_hand hid) (Fault ''invalid seed store or hand identity'')) (\<lambda>_.
     and_then (read_random mc nonce_size (Fault ''seed nonce entropy'')) (\<lambda>nonce.
       wrap_infrastructure ''persist encrypted seed''
         (statement (mc_driver mc) ''insert seed''
            (insert_seed hid \<lparr>ss_nonce = nonce, ss_cipher = mc_seal mc (sk_key st) nonce seed (seed_aad hid)\<rparr>))))"

definition load_seed :: "'w machine \<Rightarrow> seed_store \<Rightarrow> hand_id \<Rightarrow> ('w state, bytes) call" where
  "load_seed mc st hid =
     and_then (guard (bad_hand hid) (Fault ''invalid seed query'')) (\<lambda>_.
     and_then (wrap_infrastructure ''load encrypted server seed''
                 (statement (mc_driver mc) ''select seed'' (select_row db_seeds hid))) (\<lambda>row.
     and_then (guard (length (ss_nonce row) \<noteq> nonce_size) (Fault ''invalid protected seed nonce'')) (\<lambda>_.
       case open_with mc (sk_key st # sk_readers st) (ss_nonce row) (ss_cipher row) (seed_aad hid) of
         None \<Rightarrow> fail_with (Fault ''protected server seed authentication failed'')
       | Some plain \<Rightarrow>
           if length plain \<noteq> 32 then fail_with (Fault ''invalid protected server seed length'') else give plain)))"

definition delete_seed_row :: "hand_id \<Rightarrow> database \<Rightarrow> (app_error + unit) \<times> database" where
  "delete_seed_row hid db = (Inr (), db\<lparr>db_seeds := (db_seeds db)(hid := None)\<rparr>)"

definition delete_seed :: "'w machine \<Rightarrow> hand_id \<Rightarrow> ('w state, unit) call" where
  "delete_seed mc hid =
     and_then (guard (bad_hand hid) (Fault ''invalid protected seed delete'')) (\<lambda>_.
       wrap_infrastructure ''delete protected server seed''
         (statement (mc_driver mc) ''delete seed'' (delete_seed_row hid)))"

section \<open>Checkpoints\<close>

definition checkpoint_domain :: string where "checkpoint_domain = ''doudizhu/live-checkpoint/aes256gcm/v1:''"
definition max_checkpoint_size :: nat where "max_checkpoint_size = 524288"

definition checkpoint_key :: "bytes \<Rightarrow> bytes" where "checkpoint_key root = sha256 (str_bytes checkpoint_domain @ root)"

definition configure_checkpoints :: "journal \<Rightarrow> bytes \<Rightarrow> app_error + journal" where
  "configure_checkpoints jl root =
     (if length root \<noteq> 32 then Inl (Fault ''durable checkpoint requires mysql and 256-bit key'')
      else Inr (jl\<lparr>jl_checkpoint := Some (checkpoint_key root), jl_checkpoint_readers := [],
                   jl_key := derive_integrity_key root, jl_key_readers := []\<rparr>))"

definition checkpoint_aad :: "hand_id \<Rightarrow> u64 \<Rightarrow> bytes" where
  "checkpoint_aad hid version = str_bytes checkpoint_domain @ str_bytes hid @ put_u64 version"

definition upsert_checkpoint :: "hand_id \<Rightarrow> checkpoint_row \<Rightarrow> database \<Rightarrow> (app_error + unit) \<times> database" where
  "upsert_checkpoint hid row db = (Inr (), db\<lparr>db_checkpoints := (db_checkpoints db)(hid \<mapsto> row)\<rparr>)"

text \<open>A row that may be missing.\<close>

definition select_optional :: "(database \<Rightarrow> 'k \<rightharpoonup> 'r) \<Rightarrow> 'k \<Rightarrow> database \<Rightarrow> (app_error + 'r option) \<times> database" where
  "select_optional table k db = (Inr (table db k), db)"

definition save_checkpoint ::
  "'w machine \<Rightarrow> journal \<Rightarrow> hand_id \<Rightarrow> u64 \<Rightarrow> u64 \<Rightarrow> bytes \<Rightarrow> ('w state, unit) call" where
  "save_checkpoint mc jl hid epoch version payload =
     (let drv = mc_driver mc in
      case jl_checkpoint jl of
        None \<Rightarrow> fail_with (Fault ''invalid protected live checkpoint'')
      | Some key \<Rightarrow>
          and_then (guard (bad_hand hid \<or> epoch = 0 \<or> version \<le> 1 \<or> version > word_of_nat (max_live_actions + 1) \<or>
                           length payload = 0 \<or> length payload > max_checkpoint_size)
                      (Fault ''invalid protected live checkpoint'')) (\<lambda>_.
          and_then (read_random mc nonce_size (Fault ''generate checkpoint nonce'')) (\<lambda>nonce.
            journal_transaction drv Fault
              (and_then (statement drv ''select writer'' (select_row writer_table hid)) (\<lambda>row.
               and_then (guard (ww_epoch row \<noteq> epoch) (Core (Journal WriterFenced))) (\<lambda>_.
               and_then (guard (version > ww_committed row) (Core (Journal WatermarkConflict))) (\<lambda>_.
               and_then (statement drv ''select checkpoint'' (select_optional db_checkpoints hid)) (\<lambda>old.
                 if (case old of Some cp \<Rightarrow> kp_version cp \<ge> version | None \<Rightarrow> False) then give ()
                 else statement drv ''insert checkpoint'' (upsert_checkpoint hid
                        \<lparr>kp_version = version, kp_nonce = nonce,
                         kp_cipher = mc_seal mc key nonce payload (checkpoint_aad hid version),
                         kp_digest = sha256 payload\<rparr>)))))))))"

definition checkpoint_row_ok :: "checkpoint_row \<Rightarrow> bool" where
  "checkpoint_row_ok row \<longleftrightarrow>
     kp_version row > 1 \<and> kp_version row \<le> word_of_nat (max_live_actions + 1) \<and> length (kp_nonce row) = nonce_size \<and>
     length (kp_cipher row) > seal_overhead \<and> length (kp_cipher row) \<le> max_checkpoint_size + seal_overhead \<and>
     length (kp_digest row) = 32"

text \<open>The version and the payload of the checkpoint; a missing one is version 0.\<close>

definition load_checkpoint :: "'w machine \<Rightarrow> journal \<Rightarrow> hand_id \<Rightarrow> ('w state, u64 \<times> bytes) call" where
  "load_checkpoint mc jl hid =
     (case jl_checkpoint jl of
        None \<Rightarrow> fail_with (Fault ''protected live checkpoint unavailable'')
      | Some key \<Rightarrow>
          and_then (guard (bad_hand hid) (Fault ''protected live checkpoint unavailable'')) (\<lambda>_.
          and_then (statement (mc_driver mc) ''select checkpoint'' (select_optional db_checkpoints hid)) (\<lambda>found.
            case found of
              None \<Rightarrow> give (0, [])
            | Some row \<Rightarrow>
                and_then (guard (\<not> checkpoint_row_ok row) bad_replay) (\<lambda>_.
                  case open_with mc (key # jl_checkpoint_readers jl) (kp_nonce row) (kp_cipher row)
                         (checkpoint_aad hid (kp_version row)) of
                    None \<Rightarrow> fail_with bad_replay
                  | Some plain \<Rightarrow>
                      if sha256 plain \<noteq> kp_digest row \<or> length plain = 0 \<or> length plain > max_checkpoint_size
                      then fail_with bad_replay else give (kp_version row, plain)))))"

section \<open>Rotation of keys\<close>

definition max_protection_roots :: nat where "max_protection_roots = 8"

text \<open>The root keys are a map; here its entries, in any order. The result is the identifiers in order.\<close>

definition checked_root_ids :: "string \<Rightarrow> (string \<times> bytes) list \<Rightarrow> app_error + string list" where
  "checked_root_ids active roots =
     (if active = [] \<or> length active > 128 \<or> length roots = 0 \<or> length roots > max_protection_roots
      then Inl (Fault ''invalid protection keyring'')
      else if list_ex (\<lambda>(rid, key). rid = [] \<or> length rid > 128 \<or> length key \<noteq> 32) roots
      then Inl (Fault ''invalid protection key'')
      else if map_of roots active = None then Inl (Fault ''missing active protection key'')
      else Inr (sort (map fst roots)))"

definition retained_keys :: "(bytes \<Rightarrow> bytes) \<Rightarrow> string \<Rightarrow> (string \<times> bytes) list \<Rightarrow> string list \<Rightarrow> bytes list" where
  "retained_keys derive active roots ids =
     map (\<lambda>rid. derive (the (map_of roots rid))) (filter (\<lambda>rid. rid \<noteq> active) ids)"

definition configure_checkpoint_keyring :: "journal \<Rightarrow> string \<Rightarrow> (string \<times> bytes) list \<Rightarrow> app_error + journal" where
  "configure_checkpoint_keyring jl active roots =
     (case checked_root_ids active roots of
        Inl e \<Rightarrow> Inl e
      | Inr ids \<Rightarrow>
          (case configure_checkpoints jl (the (map_of roots active)) of
             Inl e \<Rightarrow> Inl e
           | Inr jl' \<Rightarrow> Inr (jl'\<lparr>jl_checkpoint_readers := retained_keys checkpoint_key active roots ids,
                               jl_key_readers := retained_keys derive_integrity_key active roots ids\<rparr>)))"

definition new_protected_seed_keyring :: "string \<Rightarrow> (string \<times> bytes) list \<Rightarrow> app_error + seed_store" where
  "new_protected_seed_keyring active roots =
     (case checked_root_ids active roots of
        Inl e \<Rightarrow> Inl e
      | Inr ids \<Rightarrow>
          (case new_protected_seed_store (the (map_of roots active)) of
             Inl e \<Rightarrow> Inl e
           | Inr st \<Rightarrow> Inr (st\<lparr>sk_readers :=
               retained_keys (\<lambda>root. sha256 (str_bytes server_seed_domain @ root)) active roots ids\<rparr>)))"

definition rewrite_checkpoint :: "hand_id \<Rightarrow> u64 \<Rightarrow> bytes \<Rightarrow> bytes \<Rightarrow> database \<Rightarrow> (app_error + unit) \<times> database" where
  "rewrite_checkpoint hid version nonce cipher db =
     (Inr (), case db_checkpoints db hid of
        Some row \<Rightarrow>
          if kp_version row = version
          then db\<lparr>db_checkpoints := (db_checkpoints db)(hid \<mapsto> row\<lparr>kp_nonce := nonce, kp_cipher := cipher\<rparr>)\<rparr> else db
      | None \<Rightarrow> db)"

definition reencrypt_checkpoint :: "'w machine \<Rightarrow> journal \<Rightarrow> hand_id \<Rightarrow> u64 \<Rightarrow> ('w state, unit) call" where
  "reencrypt_checkpoint mc jl hid epoch =
     (let drv = mc_driver mc in
      case jl_checkpoint jl of
        None \<Rightarrow> fail_with (Fault ''invalid checkpoint rotation request'')
      | Some key \<Rightarrow>
          and_then (guard (bad_hand hid \<or> epoch = 0) (Fault ''invalid checkpoint rotation request'')) (\<lambda>_.
            journal_transaction drv Fault
              (and_then (statement drv ''select writer'' (select_row writer_table hid)) (\<lambda>writer.
               and_then (guard (ww_epoch writer \<noteq> epoch) (Core (Journal WriterFenced))) (\<lambda>_.
               and_then (statement drv ''select checkpoint'' (select_optional db_checkpoints hid)) (\<lambda>found.
                 case found of
                   None \<Rightarrow> give ()
                 | Some row \<Rightarrow>
                     and_then (guard (kp_version row > ww_committed writer \<or> \<not> checkpoint_row_ok row) bad_replay) (\<lambda>_.
                       case open_with mc (key # jl_checkpoint_readers jl) (kp_nonce row) (kp_cipher row)
                              (checkpoint_aad hid (kp_version row)) of
                         None \<Rightarrow> fail_with bad_replay
                       | Some plain \<Rightarrow>
                           and_then (guard (length plain = 0 \<or> length plain > max_checkpoint_size \<or> sha256 plain \<noteq> kp_digest row)
                                       bad_replay) (\<lambda>_.
                           and_then (read_random mc nonce_size (Fault ''checkpoint nonce'')) (\<lambda>fresh.
                             statement drv ''update checkpoint'' (rewrite_checkpoint hid (kp_version row) fresh
                               (mc_seal mc key fresh plain (checkpoint_aad hid (kp_version row)))))))))))))"

definition rewrite_seed :: "hand_id \<Rightarrow> seed_row \<Rightarrow> database \<Rightarrow> (app_error + unit) \<times> database" where
  "rewrite_seed hid row db =
     (Inr (), case db_seeds db hid of Some old \<Rightarrow> db\<lparr>db_seeds := (db_seeds db)(hid \<mapsto> row)\<rparr> | None \<Rightarrow> db)"

definition reencrypt_seed :: "'w machine \<Rightarrow> seed_store \<Rightarrow> hand_id \<Rightarrow> ('w state, unit) call" where
  "reencrypt_seed mc st hid =
     (let drv = mc_driver mc in
      and_then (guard (bad_hand hid) (Fault ''invalid seed rotation request'')) (\<lambda>_.
        journal_transaction drv Fault
          (and_then (statement drv ''select seed'' (select_row db_seeds hid)) (\<lambda>row.
           and_then (guard (length (ss_nonce row) \<noteq> nonce_size \<or> length (ss_cipher row) \<noteq> 32 + seal_overhead)
                       (Fault ''invalid protected seed encoding'')) (\<lambda>_.
             case open_with mc (sk_key st # sk_readers st) (ss_nonce row) (ss_cipher row) (seed_aad hid) of
               None \<Rightarrow> fail_with (Fault ''protected seed authentication failed'')
             | Some plain \<Rightarrow>
                 and_then (guard (length plain \<noteq> 32) (Fault ''invalid protected seed plaintext'')) (\<lambda>_.
                 and_then (read_random mc nonce_size (Fault ''seed nonce'')) (\<lambda>fresh.
                   statement drv ''update seed'' (rewrite_seed hid
                     \<lparr>ss_nonce = fresh, ss_cipher = mc_seal mc (sk_key st) fresh plain (seed_aad hid)\<rparr>))))))))"

section \<open>Removing archived hands\<close>

definition minimum_retention :: int where "minimum_retention = 30 * 24 * 3600 * 10 ^ 9"

definition not_eligible :: app_error where "not_eligible = Core (Journal PruneNotEligible)"

definition select_eligible :: "(database \<Rightarrow> 'k \<rightharpoonup> 'r) \<Rightarrow> 'k \<Rightarrow> database \<Rightarrow> (app_error + 'r) \<times> database" where
  "select_eligible table k db = (case table db k of None \<Rightarrow> Inl not_eligible | Some row \<Rightarrow> Inr row, db)"

text \<open>The four DELETE statements, in their order.\<close>

definition delete_rows :: "'w machine \<Rightarrow> hand_id \<Rightarrow> string \<Rightarrow> (database \<Rightarrow> database) \<Rightarrow> ('w state, unit) call" where
  "delete_rows mc hid table f = wrap_infrastructure (''prune '' @ table) (statement (mc_driver mc) table (\<lambda>db. (Inr (), f db)))"

definition prune_tables :: "'w machine \<Rightarrow> hand_id \<Rightarrow> ('w state, unit) call" where
  "prune_tables mc hid =
     and_then (delete_rows mc hid ''doudizhu_live_checkpoints'' (\<lambda>db. db\<lparr>db_checkpoints := (db_checkpoints db)(hid := None)\<rparr>)) (\<lambda>_.
     and_then (delete_rows mc hid ''doudizhu_live_actions''
        (\<lambda>db. db\<lparr>db_actions := filter (\<lambda>row. la_hand (ar_action row) \<noteq> hid) (db_actions db)\<rparr>)) (\<lambda>_.
     and_then (delete_rows mc hid ''doudizhu_protected_server_seeds'' (\<lambda>db. db\<lparr>db_seeds := (db_seeds db)(hid := None)\<rparr>)) (\<lambda>_.
       delete_rows mc hid ''doudizhu_live_writers'' (\<lambda>db. db\<lparr>db_writers := AList.delete hid (db_writers db)\<rparr>))))"

text \<open>
  The archive is another component's: \<open>load_final\<close> gives the final record of an instance and the time it was
  archived. The verifier of the record may sample for ever, as \<open>verify_final_record\<close> says.
\<close>

definition prune_archived_hand ::
  "'w machine \<Rightarrow> (string \<Rightarrow> ('w state, final_record \<times> go_time) call) \<Rightarrow> go_time \<Rightarrow> hand_id \<Rightarrow> int \<Rightarrow> ('w state, unit) call" where
  "prune_archived_hand mc load_final now hid older_than =
     (let drv = mc_driver mc in
      and_then (guard (bad_hand hid \<or> older_than < minimum_retention) not_eligible) (\<lambda>_.
      and_then (or_else (load_final hid) (\<lambda>e. fail_with not_eligible)) (\<lambda>(final, archived).
      and_then (guard (fr_instance final \<noteq> hid \<or> fr_status final \<noteq> FinalCompleted \<or> fr_version final < 2 \<or>
                       time_after archived (time_add (time_utc now) (- older_than))) not_eligible) (\<lambda>_.
      and_then (guard (case verify_final_record final of Some (Inr report) \<Rightarrow> False | _ \<Rightarrow> True) bad_replay) (\<lambda>_.
        journal_transaction drv Fault
          (and_then (statement drv ''select writer'' (select_eligible writer_table hid)) (\<lambda>writer.
           and_then (statement drv ''select hand'' (select_eligible db_hands hid)) (\<lambda>hand.
           and_then (guard (hw_phase hand \<noteq> HandCompleted \<or> ww_committed writer \<noteq> fr_version final) not_eligible) (\<lambda>_.
           and_then (statement drv ''count actions'' (\<lambda>db. (Inr (length (hand_actions db hid)), db))) (\<lambda>actions.
           and_then (guard (word_of_nat actions \<noteq> ww_committed writer - 1) bad_replay) (\<lambda>_.
             prune_tables mc hid)))))))))))"

end
