(* ===== verification/Hand_Setup.thy ===== *)
theory Hand_Setup
  imports Sealed_Tables App_Codec
begin

text \<open>
  What a hand starts from: \<open>runtime/seed_vault.go\<close>, \<open>hand_setup_provider.go\<close>, and the beacon verifiers
  (\<open>beacon_verifier.go\<close>, \<open>hmac_beacon_proof.go\<close>, \<open>drand_quicknet.go\<close>). The vault's seeds are a map beside
  the state of its persistence; a clock, a random source, the source of reveal keys, a signature scheme and
  the relay of the public beacon are parameters.
\<close>

section \<open>The seed vault\<close>

record 's seed_persistence =
  ps_save :: "hand_id \<Rightarrow> bytes \<Rightarrow> ('s, unit) call"
  ps_load :: "hand_id \<Rightarrow> ('s, bytes) call"
  ps_delete :: "hand_id \<Rightarrow> ('s, unit) call"

definition protected_seeds :: "'w machine \<Rightarrow> seed_store \<Rightarrow> 'w state seed_persistence" where
  "protected_seeds mc st = \<lparr>ps_save = save_seed mc st, ps_load = load_seed mc st, ps_delete = delete_seed mc\<rparr>"

type_synonym 's vaulted = "(hand_id \<rightharpoonup> bytes) \<times> 's"

text \<open>A call on the state beside the vault, and a reader of random bytes (\<open>None\<close> is an error) as a call.\<close>

definition beside :: "('s, 'a) call \<Rightarrow> ('s vaulted, 'a) call" where
  "beside m s = (case m (snd s) of (r, outer) \<Rightarrow> (r, (fst s, outer)))"

definition read_entropy :: "(nat \<Rightarrow> 's \<Rightarrow> bytes option \<times> 's) \<Rightarrow> nat \<Rightarrow> ('s, bytes) call" where
  "read_entropy entropy n s =
     (case entropy n s of
        (None, s') \<Rightarrow> (Inl (Fault ''read server-seed entropy''), s')
      | (Some bs, s') \<Rightarrow> (Inr bs, s'))"

definition set_seed :: "hand_id \<Rightarrow> bytes option \<Rightarrow> ('s vaulted, unit) call" where
  "set_seed hid seed s = (Inr (), ((fst s)(hid := seed), snd s))"

text \<open>\<open>Prepare\<close>; the result is the commitment, the hand is the argument.\<close>

definition vault_prepare ::
  "(nat \<Rightarrow> 's \<Rightarrow> bytes option \<times> 's) \<Rightarrow> 's seed_persistence option \<Rightarrow> hand_id \<Rightarrow> ('s vaulted, bytes) call" where
  "vault_prepare entropy ps hid =
     and_then (guard (trim_space hid = [] \<or> length hid > 128) (Core (Domain DmInvalidArgument))) (\<lambda>_.
     and_then (\<lambda>s. guard (fst s hid \<noteq> None) (Core (Vault SeedExists)) s) (\<lambda>_.
     and_then (beside (read_entropy entropy 32)) (\<lambda>seed.
     and_then (domain_call (compute_server_commitment hid seed)) (\<lambda>commitment.
     and_then (case ps of
                 None \<Rightarrow> give ()
               | Some p \<Rightarrow> wrap_infrastructure ''persist protected server seed'' (beside (ps_save p hid seed))) (\<lambda>_.
     and_then (set_seed hid (Some seed)) (\<lambda>_.
       give commitment))))))"

definition vault_read :: "'s seed_persistence option \<Rightarrow> hand_id \<Rightarrow> ('s vaulted, bytes) call" where
  "vault_read ps hid s =
     (case fst s hid of
        Some seed \<Rightarrow> give seed s
      | None \<Rightarrow>
          (case ps of
             None \<Rightarrow> fail_with (Core (Vault SeedNotFound)) s
           | Some p \<Rightarrow> beside (ps_load p hid) s))"

definition vault_release :: "'s seed_persistence option \<Rightarrow> hand_id \<Rightarrow> ('s vaulted, unit) call" where
  "vault_release ps hid =
     and_then (\<lambda>s. guard (fst s hid = None \<and> ps = None) (Core (Vault SeedNotFound)) s) (\<lambda>_.
     and_then (case ps of
                 None \<Rightarrow> give ()
               | Some p \<Rightarrow> wrap_infrastructure ''remove protected server seed'' (beside (ps_delete p hid))) (\<lambda>_.
       set_seed hid None))"

definition vault_contains :: "'s seed_persistence option \<Rightarrow> hand_id \<Rightarrow> 's vaulted \<Rightarrow> bool \<times> 's vaulted" where
  "vault_contains ps hid s =
     (if fst s hid \<noteq> None then (True, s)
      else if ps = None then (False, s)
      else (case vault_read ps hid s of (Inl e, s') \<Rightarrow> (False, s') | (Inr seed, s') \<Rightarrow> (True, s')))"

definition vault_count :: "'s vaulted \<Rightarrow> nat" where "vault_count s = card (dom (fst s))"

definition vault_evict :: "'s seed_persistence option \<Rightarrow> hand_id \<Rightarrow> ('s vaulted, unit) call" where
  "vault_evict ps hid = (if ps = None then give () else set_seed hid None)"

section \<open>The setup of a hand\<close>

definition unix_seconds :: "go_time \<Rightarrow> int" where
  "unix_seconds t = (tm_nanos t - tm_nanos time_unix_epoch) div 10 ^ 9"

text \<open>The pinned round: its text, at least a minute in the future.\<close>

definition drand_future_round :: "go_time \<Rightarrow> app_error + string" where
  "drand_future_round now =
     (let upcoming = unix_seconds (time_add (time_utc now) (60 * 10 ^ 9)) in
      if upcoming < quicknet_genesis_time then Inl (Core (Beacon UnverifiedBeacon))
      else Inr (bytes_str (show_nat (nat ((upcoming - quicknet_genesis_time) div quicknet_round_seconds) + 2))))"

text \<open>The current reveal key of the key service: its identifier and the text of its digest.\<close>

record 's setup_source =
  so_keys :: "('s, string \<times> string) call"
  so_clock :: "'s \<Rightarrow> go_time \<times> 's"
  so_plan :: beacon_plan

definition new_setup_source :: "('s, string \<times> string) call \<Rightarrow> ('s \<Rightarrow> go_time \<times> 's) \<Rightarrow> beacon_plan \<Rightarrow> app_error + 's setup_source" where
  "new_setup_source keys clock plan =
     (if trim_space (bp_provider plan) = [] \<or> length (bp_provider plan) > 128 \<or>
         trim_space (bp_round plan) = [] \<or> length (bp_round plan) > 128
      then Inl (Core (Domain DmInvalidArgument))
      else Inr \<lparr>so_keys = keys, so_clock = clock, so_plan = plan\<rparr>)"

definition read_clock :: "('s \<Rightarrow> go_time \<times> 's) \<Rightarrow> ('s, go_time) call" where
  "read_clock clock s = (case clock s of (t, s') \<Rightarrow> (Inr t, s'))"

text \<open>The beacon plan of a new hand.\<close>

definition choose_plan :: "'s setup_source \<Rightarrow> ('s, beacon_plan) call" where
  "choose_plan so =
     (if bp_provider (so_plan so) \<noteq> drand_quicknet then give (so_plan so)
      else if bp_round (so_plan so) \<noteq> ''auto'' then fail_with (Core (Domain DmInvalidArgument))
      else and_then (read_clock (so_clock so)) (\<lambda>now.
           and_then (give_result (drand_future_round now)) (\<lambda>round. give ((so_plan so)\<lparr>bp_round := round\<rparr>))))"

definition prepare_hand ::
  "(nat \<Rightarrow> 's \<Rightarrow> bytes option \<times> 's) \<Rightarrow> 's seed_persistence option \<Rightarrow> 's setup_source \<Rightarrow> room_snapshot \<Rightarrow> hand_id \<Rightarrow>
   ('s vaulted, hand_setup) call" where
  "prepare_hand entropy ps so room hid =
     and_then (guard (rn_id room = [] \<or> hid = []) (Core (Domain DmInvalidArgument))) (\<lambda>_.
     and_then (wrap_infrastructure ''load current reveal key'' (beside (so_keys so))) (\<lambda>(key, digest_text).
     and_then (guard (case b64_decode True digest_text of None \<Rightarrow> True | Some digest \<Rightarrow> length digest \<noteq> 32)
                 (Core (Domain DmInvalidArgument))) (\<lambda>_.
     and_then (beside (choose_plan so)) (\<lambda>plan.
     and_then (vault_prepare entropy ps hid) (\<lambda>commitment.
     and_then (beside (read_clock (so_clock so))) (\<lambda>now.
       give \<lparr>hu_id = hid, hu_commitment = commitment, hu_reveal_key = key,
             hu_reveal_hash = the (b64_decode True digest_text), hu_bound_at = time_utc now, hu_plan = plan\<rparr>))))))"

section \<open>Beacon evidence\<close>

text \<open>\<open>BeaconVerifier\<close> over a verifier of proofs.\<close>

definition verify_beacon ::
  "(beacon_plan \<Rightarrow> beacon_value \<Rightarrow> app_error + unit) \<Rightarrow> beacon_plan \<Rightarrow> beacon_value \<Rightarrow> app_error + beacon_value" where
  "verify_beacon proofs plan candidate =
     (if bv_provider candidate \<noteq> bp_provider plan \<or> bv_round candidate \<noteq> bp_round plan
      then Inl (Core (Domain DmBeaconMismatch))
      else
        let value' = candidate\<lparr>bv_proof_ref := trim_space (bv_proof_ref candidate)\<rparr> in
        if bv_proof_ref value' = [] \<or> length (bv_proof_ref value') > 512 \<or> bv_digest value' = zero_digest
        then Inl (Core (Domain DmInvalidArgument))
        else case proofs plan value' of
          Inl e \<Rightarrow> Inl (Wrapped ''verify public beacon proof'' e)
        | Inr _ \<Rightarrow> Inr value')"

definition hmac_proof_prefix :: string where "hmac_proof_prefix = ''hmac-sha256:''"

definition new_hmac_verifier :: "bytes \<Rightarrow> app_error + bytes" where
  "new_hmac_verifier secret = (if length secret < 32 then Inl (Core (Domain DmInvalidArgument)) else Inr secret)"

definition proof_field :: "bytes \<Rightarrow> bytes" where "proof_field bs = put_u32 (word_of_nat (length bs)) @ bs"

definition proof_message :: "beacon_plan \<Rightarrow> bytes \<Rightarrow> bytes" where
  "proof_message plan digest =
     proof_field (str_bytes ''fair-doudizhu/beacon-proof/v1'') @ proof_field (str_bytes (bp_provider plan))
     @ proof_field (str_bytes (bp_round plan)) @ proof_field digest"

definition sign_beacon :: "bytes \<Rightarrow> beacon_plan \<Rightarrow> bytes \<Rightarrow> bytes" where
  "sign_beacon secret plan digest = hmac_sha256 secret (proof_message plan digest)"

definition hmac_proof_ref :: "bytes \<Rightarrow> beacon_plan \<Rightarrow> bytes \<Rightarrow> string" where
  "hmac_proof_ref secret plan digest = hmac_proof_prefix @ b64_encode True (sign_beacon secret plan digest)"

definition verify_hmac_proof :: "bytes \<Rightarrow> beacon_plan \<Rightarrow> beacon_value \<Rightarrow> app_error + unit" where
  "verify_hmac_proof secret plan candidate =
     (let ref = trim_space (bv_proof_ref candidate) in
      if length secret < 32 \<or> bv_provider candidate \<noteq> bp_provider plan \<or> bv_round candidate \<noteq> bp_round plan \<or>
         \<not> prefix_of hmac_proof_prefix ref
      then Inl (Core (Domain DmBeaconMismatch))
      else case b64_decode_strict True (drop (length hmac_proof_prefix) ref) of
        None \<Rightarrow> Inl (Core (Domain DmBeaconMismatch))
      | Some proof \<Rightarrow>
          if length proof \<noteq> 32 \<or> proof \<noteq> sign_beacon secret plan (bv_digest candidate)
          then Inl (Core (Domain DmBeaconMismatch)) else Inr ())"

definition quicknet_proof_prefix :: string where "quicknet_proof_prefix = ''drand-quicknet:''"

abbreviation unverified :: app_error where "unverified \<equiv> Core (Beacon UnverifiedBeacon)"

definition quicknet_round :: "string \<Rightarrow> app_error + u64" where
  "quicknet_round text =
     (if length text = 0 \<or> length text > 20 \<or> \<not> list_all is_digit (str_bytes text) \<or> hd text = CHR ''0''
      then Inl unverified
      else case parse_uint 64 (str_bytes text) of
        None \<Rightarrow> Inl unverified
      | Some n \<Rightarrow> if n = 0 then Inl unverified else Inr (word_of_nat n))"

text \<open>\<open>bls message signature\<close> is the signature scheme under the pinned public key.\<close>

definition verify_quicknet :: "(bytes \<Rightarrow> bytes \<Rightarrow> bool) \<Rightarrow> beacon_plan \<Rightarrow> beacon_value \<Rightarrow> app_error + unit" where
  "verify_quicknet bls plan candidate =
     (if bp_provider plan \<noteq> drand_quicknet \<or> bv_provider candidate \<noteq> bp_provider plan \<or> bv_round candidate \<noteq> bp_round plan
      then Inl unverified
      else case quicknet_round (bp_round plan) of
        Inl e \<Rightarrow> Inl e
      | Inr round \<Rightarrow>
          if \<not> prefix_of quicknet_proof_prefix (bv_proof_ref candidate) then Inl unverified
          else case hex_decode (drop (length quicknet_proof_prefix) (bv_proof_ref candidate)) of
            None \<Rightarrow> Inl unverified
          | Some signature \<Rightarrow>
              if length signature \<noteq> 48 \<or> sha256 signature \<noteq> bv_digest candidate \<or>
                 \<not> bls (sha256 (put_u64 round)) signature
              then Inl unverified else Inr ())"

record relay_beacon =
  rb_round :: u64
  rb_signature :: string

definition relay_beacon_fields :: "relay_beacon field list" where
  "relay_beacon_fields =
     [field ''round'' decode_word rb_round (\<lambda>x. rb_round_update (\<lambda>_. x)),
      field ''signature'' decode_string rb_signature (\<lambda>x. rb_signature_update (\<lambda>_. x))]"

text \<open>
  \<open>Fetch\<close>: \<open>relay\<close> is the answer to the GET request for a round, an error text or a status and the bytes of
  the body, of which at most 2049 are read (\<open>None\<close> when reading them fails).
\<close>

definition fetch_quicknet ::
  "(bytes \<Rightarrow> bytes \<Rightarrow> bool) \<Rightarrow> (string \<Rightarrow> string + nat \<times> bytes option) \<Rightarrow> beacon_plan \<Rightarrow> app_error + beacon_value" where
  "fetch_quicknet bls relay plan =
     (if bp_provider plan \<noteq> drand_quicknet then Inl unverified
      else case quicknet_round (bp_round plan) of
        Inl e \<Rightarrow> Inl e
      | Inr round \<Rightarrow>
          (case relay (bytes_str (show_nat (unat round))) of
             Inl failure \<Rightarrow> Inl (Wrapped ''retrieve public drand round'' (Fault failure))
           | Inr (status, body) \<Rightarrow>
               if status = 404 \<or> status = 425 \<or> status = 429 \<or> status = 503 then Inl (Core (Beacon BeaconNotPublished))
               else if status \<noteq> 200 \<or> (case body of None \<Rightarrow> True | Some raw \<Rightarrow> length (take 2049 raw) > 2048) then Inl unverified
               else case Option.bind (json_parse (the body))
                           (\<lambda>j. decode_struct relay_beacon_fields False j \<lparr>rb_round = 0, rb_signature = []\<rparr>) of
                 None \<Rightarrow> Inl unverified
               | Some beacon \<Rightarrow>
                   if rb_round beacon \<noteq> round then Inl unverified
                   else case hex_decode (rb_signature beacon) of
                     None \<Rightarrow> Inl unverified
                   | Some signature \<Rightarrow>
                       if length signature \<noteq> 48 then Inl unverified
                       else
                         let value' = \<lparr>bv_provider = drand_quicknet, bv_round = bp_round plan, bv_digest = sha256 signature,
                               bv_proof_ref = quicknet_proof_prefix @ hex_encode signature\<rparr> in
                         (case verify_quicknet bls plan value' of Inl e \<Rightarrow> Inl e | Inr _ \<Rightarrow> Inr value')))"

section \<open>Identifiers\<close>

text \<open>A UUID of version 7 from the milliseconds of the clock and ten random bytes.\<close>

definition format_uuid :: "bytes \<Rightarrow> string" where
  "format_uuid v =
     hex_encode (take 4 v) @ ''-'' @ hex_encode (take 2 (drop 4 v)) @ ''-'' @ hex_encode (take 2 (drop 6 v)) @ ''-''
     @ hex_encode (take 2 (drop 8 v)) @ ''-'' @ hex_encode (drop 10 v)"

definition uuid_bytes :: "u64 \<Rightarrow> bytes \<Rightarrow> bytes" where
  "uuid_bytes millis random =
     (let v = drop 2 (put_u64 millis) @ random
      in v[6 := (v ! 6 AND 0x0F) OR 0x70, 8 := (v ! 8 AND 0x3F) OR 0x80])"

definition new_id :: "(nat \<Rightarrow> 's \<Rightarrow> bytes option \<times> 's) \<Rightarrow> ('s \<Rightarrow> go_time \<times> 's) \<Rightarrow> ('s, string) call" where
  "new_id entropy clock =
     and_then (read_clock clock) (\<lambda>now.
     and_then (or_else (read_entropy entropy 10) (\<lambda>e. fail_with (Wrapped ''generate UUIDv7 randomness'' e))) (\<lambda>random.
       give (format_uuid (uuid_bytes (word_of_int (unix_milli (time_utc now))) random))))"

end
