(* ===== verification/Live_Node.thy ===== *)
theory Live_Node
  imports Hand_Setup App_Live Live_Game
begin

text \<open>
  The live runtime of one process (\<open>runtime/live_hand_coordinator.go\<close>): its memory (the vault's seeds, the
  live directory, the games, the final records of ended hands, the epochs it owns, the receipts of accepted
  commands) beside the shared database. Locks and stripes make each operation one step. The rejection samplers
  of a setup may draw for ever; a caller would not return, and the model of the caller gives \<open>never_returns\<close>.
\<close>

definition never_returns :: app_error where "never_returns = Fault ''rejection sampling does not end''"

section \<open>Memory\<close>

record live_receipt =
  lc_seq :: u64
  lc_actor :: account_id
  lc_command :: command
  lc_outcome :: command_outcome

text \<open>A checkpoint that waits for its goroutine: hand, epoch, version, payload.\<close>

type_synonym pending_save = "hand_id \<times> u64 \<times> u64 \<times> bytes"

record 'a memory =
  nm_seeds :: "hand_id \<rightharpoonup> bytes"
  nm_directory :: "(live_hand, 'a) live_directory"
  nm_games :: "hand_id \<rightharpoonup> live_hand"
  nm_finalized :: "hand_id \<rightharpoonup> final_record"
  nm_epochs :: "hand_id \<rightharpoonup> u64"
  nm_receipts :: "hand_id \<Rightarrow> (string \<times> live_receipt) list"
  nm_retired :: "hand_id list"
  nm_saves :: "pending_save list"

text \<open>
  What a process is configured with; \<open>rn_journal\<close> is \<open>None\<close> for a coordinator without a journal.
\<close>

record ('a, 'v) runtime =
  rn_machine :: "'v machine"
  rn_entropy :: "nat \<Rightarrow> 'v state \<Rightarrow> bytes option \<times> 'v state"
  rn_persistence :: "'v state seed_persistence option"
  rn_journal :: "journal option"
  rn_archive :: "'a archiver"

type_synonym ('a, 'v) node = "('a memory \<times> 'v) state"

definition memory_of :: "('a, 'v) node \<Rightarrow> 'a memory" where "memory_of s = fst (snd s)"

definition new_memory :: "(live_hand, 'a) live_directory \<Rightarrow> 'a memory" where
  "new_memory d =
     \<lparr>nm_seeds = Map.empty, nm_directory = d, nm_games = Map.empty, nm_finalized = Map.empty, nm_epochs = Map.empty,
      nm_receipts = (\<lambda>_. []), nm_retired = [], nm_saves = []\<rparr>"

text \<open>A call on the shared database, on the vault, on the memory alone.\<close>

definition on_store :: "('v state, 'r) call \<Rightarrow> (('a, 'v) node, 'r) call" where
  "on_store m s =
     (case m (fst s, snd (snd s)) of (r, (db, v)) \<Rightarrow> (r, (db, (memory_of s, v))))"

definition on_vault :: "('v state vaulted, 'r) call \<Rightarrow> (('a, 'v) node, 'r) call" where
  "on_vault m s =
     (case m (nm_seeds (memory_of s), (fst s, snd (snd s))) of
        (r, (seeds, (db, v))) \<Rightarrow> (r, (db, ((memory_of s)\<lparr>nm_seeds := seeds\<rparr>, v))))"

definition on_memory :: "('a memory \<Rightarrow> (app_error + 'r) \<times> 'a memory) \<Rightarrow> (('a, 'v) node, 'r) call" where
  "on_memory f s = (case f (memory_of s) of (r, mem) \<Rightarrow> (r, (fst s, (mem, snd (snd s)))))"

definition set_memory :: "('a memory \<Rightarrow> 'a memory) \<Rightarrow> (('a, 'v) node, unit) call" where
  "set_memory f = on_memory (\<lambda>mem. (Inr (), f mem))"

definition ask_memory :: "('a memory \<Rightarrow> 'r) \<Rightarrow> (('a, 'v) node, 'r) call" where
  "ask_memory f = on_memory (\<lambda>mem. (Inr (f mem), mem))"

text \<open>
  An operation of the live directory on one entry, which returns a value, an error, or both. The directory
  and \<open>games\<close> share the object of an active game, so what the operation does to it is seen in both.
\<close>

definition core_error :: "go_error option \<Rightarrow> app_error option" where "core_error = map_option Core"

definition on_entry ::
  "hand_id \<Rightarrow> (nat \<Rightarrow> (live_hand, 'a) live_directory \<Rightarrow> (live_hand, 'a) live_directory \<times> 'r returned) \<Rightarrow>
   (('a, 'v) node, 'r option \<times> app_error option) call" where
  "on_entry hid f =
     on_memory (\<lambda>mem.
       case find_entry (nm_directory mem) hid of
         Inl e \<Rightarrow> (Inr (None, Some (Core e)), mem)
       | Inr a \<Rightarrow>
           (case f a (nm_directory mem) of (d, (x, e)) \<Rightarrow>
              (Inr (x, core_error e),
               mem\<lparr>nm_directory := d,
                   nm_games := (if nm_games mem hid = None \<or> le_pending (ld_heap (nm_directory mem) ! a) \<noteq> None
                                then nm_games mem else (nm_games mem)(hid \<mapsto> le_game (ld_heap d ! a)))\<rparr>)))"

text \<open>The value of an operation, its error if it has one.\<close>

definition value_or_error :: "'r option \<times> app_error option \<Rightarrow> (('a, 'v) node, 'r) call" where
  "value_or_error out =
     (case out of
        (x, Some e) \<Rightarrow> fail_with e
      | (Some x, None) \<Rightarrow> give x
      | (None, None) \<Rightarrow> fail_with (Fault ''no value''))"

section \<open>Fairness material\<close>

fun material_participants :: "nat \<Rightarrow> contribution_snapshot list \<Rightarrow> app_error + participant_fairness list" where
  "material_participants index [] = Inr []"
| "material_participants index (c # cs) =
     (if cs_seat c \<noteq> word_of_nat (index + 1) \<or> \<not> cs_committed c \<or> \<not> cs_revealed c \<or> cs_record_ref c = []
      then Inl (Core (Domain DmWrongPhase))
      else case material_participants (Suc index) cs of
        Inl e \<Rightarrow> Inl e
      | Inr ps \<Rightarrow> Inr (\<lparr>pf_position = cs_seat c, pf_contribution = cs_digest c, pf_commitment = cs_commitment c\<rparr> # ps))"

definition material_with :: "hand_snapshot \<Rightarrow> beacon_value \<Rightarrow> bytes \<Rightarrow> app_error + fairness_material" where
  "material_with snapshot beacon seed =
     rbind (material_participants 0 (hn_contributions snapshot)) (\<lambda>ps.
     let m = \<lparr>fm_descriptor = dd_descriptor, fm_instance = hn_id snapshot, fm_seed = seed,
              fm_server_commitment = hn_server_commitment snapshot, fm_participants = ps,
              fm_beacon = \<lparr>mb_provider = bv_provider beacon, mb_round = bv_round beacon, mb_digest = bv_digest beacon,
                mb_proof_ref = bv_proof_ref beacon\<rparr>,
              fm_key = \<lparr>mk_key = hn_reveal_key snapshot, mk_hash = hn_reveal_hash snapshot\<rparr>\<rparr>
     in case material_validate m of Inl e \<Rightarrow> Inl (Core e) | Inr _ \<Rightarrow> Inr m)"

definition node_material :: "('a, 'v) runtime \<Rightarrow> hand_snapshot \<Rightarrow> (('a, 'v) node, fairness_material) call" where
  "node_material rn snapshot =
     and_then (guard (hn_phase snapshot \<noteq> HandDealing) (Core (Domain DmWrongPhase))) (\<lambda>_.
       case hn_beacon snapshot of
         None \<Rightarrow> fail_with (Core (Domain DmBeaconMismatch))
       | Some beacon \<Rightarrow>
           and_then (on_vault (vault_read (rn_persistence rn) (hn_id snapshot))) (\<lambda>seed.
             give_result (material_with snapshot beacon seed)))"

text \<open>
  Generate the setup, verify it, make the game; the callers put different texts in front of the three errors,
  or none.
\<close>

definition sampled :: "(app_error \<Rightarrow> app_error) \<Rightarrow> (go_error + 'r) option \<Rightarrow> app_error + 'r" where
  "sampled wrap result =
     (case result of
        None \<Rightarrow> Inl never_returns
      | Some (Inl e) \<Rightarrow> Inl (wrap (Core e))
      | Some (Inr x) \<Rightarrow> Inr x)"

definition under :: "string list \<Rightarrow> nat \<Rightarrow> app_error \<Rightarrow> app_error" where
  "under operations i e = (if i < length operations then Wrapped (operations ! i) e else e)"

definition make_game :: "string list \<Rightarrow> hand_snapshot \<Rightarrow> fairness_material \<Rightarrow> app_error + live_hand" where
  "make_game operations snapshot m =
     rbind (sampled (under operations 0) (generate_setup m)) (\<lambda>artifact.
     rbind (sampled (under operations 1) (verify_setup m artifact)) (\<lambda>_.
       sampled (under operations 2) (new_live_hand snapshot m artifact)))"

definition start_operations :: "string list" where
  "start_operations = [''generate Doudizhu setup'', ''verify Doudizhu setup'', ''construct Doudizhu live hand'']"

section \<open>Starting and undoing\<close>

text \<open>\<open>_ = c.journal.DeleteUnused(...)\<close>: its error is dropped.\<close>

definition ignoring :: "('s, 'r) call \<Rightarrow> ('s, unit) call" where
  "ignoring m s = (case m s of (r, s') \<Rightarrow> (Inr (), s'))"

definition perhaps :: "bool \<Rightarrow> ('s, unit) call \<Rightarrow> ('s, unit) call" where
  "perhaps b m = (if b then m else give ())"

definition drop_unused :: "('a, 'v) runtime \<Rightarrow> hand_id \<Rightarrow> (('a, 'v) node, unit) call" where
  "drop_unused rn hid = perhaps (rn_journal rn \<noteq> None) (ignoring (on_store (delete_unused (rn_machine rn) hid)))"

definition add_to_directory :: "live_hand \<Rightarrow> (('a, 'v) node, unit) call" where
  "add_to_directory game =
     on_memory (\<lambda>mem. case add_game live_hand_game (nm_directory mem) dd_descriptor (Some game) of
         Inl e \<Rightarrow> (Inl (Core e), mem)
       | Inr d \<Rightarrow> (Inr (), mem\<lparr>nm_directory := d\<rparr>))"

text \<open>\<open>RemoveForCompensation\<close>: the lookup and the locked part.\<close>

definition compensate_entry :: "hand_id \<Rightarrow> 'a memory \<Rightarrow> 'a memory \<times> app_error option" where
  "compensate_entry hid mem =
     (case find_entry (nm_directory mem) hid of
        Inl e \<Rightarrow> (mem, Some (Core e))
      | Inr a \<Rightarrow> (case compensate_at hid a (nm_directory mem) of (d, e) \<Rightarrow> (mem\<lparr>nm_directory := d\<rparr>, core_error e)))"

definition start_live :: "('a, 'v) runtime \<Rightarrow> hand_snapshot \<Rightarrow> (('a, 'v) node, unit) call" where
  "start_live rn snapshot =
     (let hid = hn_id snapshot in
      and_then (node_material rn snapshot) (\<lambda>m.
      and_then (give_result (make_game start_operations snapshot m)) (\<lambda>game.
      and_then (perhaps (rn_journal rn \<noteq> None)
                  (wrap_infrastructure ''create live genesis journal'' (on_store (create_journal (rn_machine rn) snapshot)))) (\<lambda>_.
      and_then (or_else (add_to_directory game) (\<lambda>e. and_then (drop_unused rn hid) (\<lambda>_. fail_with e))) (\<lambda>_.
      and_then (ask_memory nm_games) (\<lambda>games.
        if games hid \<noteq> None then
          and_then (set_memory (\<lambda>mem. fst (compensate_entry hid mem))) (\<lambda>_.
          and_then (drop_unused rn hid) (\<lambda>_. fail_with (Core (Gamecore GcInstanceExists))))
        else
          set_memory (\<lambda>mem. mem\<lparr>nm_games := (nm_games mem)(hid \<mapsto> game),
            nm_epochs := (if rn_journal rn \<noteq> None then (nm_epochs mem)(hid \<mapsto> 1) else nm_epochs mem)\<rparr>)))))))"

text \<open>\<open>errors.Join\<close> drops what is nil.\<close>

fun join_errors :: "app_error option \<Rightarrow> app_error option \<Rightarrow> app_error option" where
  "join_errors (Some a) (Some b) = Some (Joined a b)"
| "join_errors (Some a) None = Some a"
| "join_errors None b = b"

definition error_of :: "('s, 'r) call \<Rightarrow> ('s, app_error option) call" where
  "error_of m s = (case m s of (Inl e, s') \<Rightarrow> (Inr (Some e), s') | (Inr x, s') \<Rightarrow> (Inr None, s'))"

definition forget_hand :: "hand_id \<Rightarrow> 'a memory \<Rightarrow> 'a memory" where
  "forget_hand hid mem =
     mem\<lparr>nm_games := (nm_games mem)(hid := None), nm_epochs := (nm_epochs mem)(hid := None),
         nm_receipts := (nm_receipts mem)(hid := [])\<rparr>"

definition rollback_start_live :: "('a, 'v) runtime \<Rightarrow> hand_id \<Rightarrow> (('a, 'v) node, unit) call" where
  "rollback_start_live rn hid =
     and_then (on_memory (\<lambda>mem. case compensate_entry hid mem of (mem', e) \<Rightarrow> (Inr e, mem'))) (\<lambda>e1.
     and_then (if rn_journal rn \<noteq> None then error_of (on_store (delete_unused (rn_machine rn) hid)) else give None) (\<lambda>e2.
     and_then (set_memory (forget_hand hid)) (\<lambda>_.
       case join_errors e1 e2 of None \<Rightarrow> give () | Some e \<Rightarrow> fail_with e)))"

definition node_contains :: "hand_id \<Rightarrow> ('a, 'v) node \<Rightarrow> bool" where
  "node_contains hid s \<longleftrightarrow> nm_games (memory_of s) hid \<noteq> None"

text \<open>The release of a seed that may be gone already.\<close>

definition release_seed :: "('a, 'v) runtime \<Rightarrow> hand_id \<Rightarrow> (('a, 'v) node, unit) call" where
  "release_seed rn hid =
     or_else (on_vault (vault_release (rn_persistence rn) hid))
       (\<lambda>e. if error_is e (Core (Vault SeedNotFound)) then give () else fail_with e)"

definition evict_seed :: "('a, 'v) runtime \<Rightarrow> hand_id \<Rightarrow> (('a, 'v) node, unit) call" where
  "evict_seed rn hid = on_vault (vault_evict (rn_persistence rn) hid)"

definition release_prepared_live :: "('a, 'v) runtime \<Rightarrow> hand_id \<Rightarrow> (('a, 'v) node, unit) call" where
  "release_prepared_live rn hid =
     and_then (ask_memory (\<lambda>mem. nm_games mem hid \<noteq> None)) (\<lambda>active.
     and_then (guard active (Core (Domain DmHandActive))) (\<lambda>_.
       if rn_journal rn \<noteq> None then
         and_then (wrap_infrastructure ''check durable terminal seed retention''
                     (on_store (has_live_writer (rn_machine rn) hid))) (\<lambda>found.
           if found then evict_seed rn hid else release_seed rn hid)
       else release_seed rn hid))"

section \<open>Views\<close>

definition find_game :: "hand_id \<Rightarrow> (('a, 'v) node, live_hand) call" where
  "find_game hid =
     and_then (ask_memory (\<lambda>mem. nm_games mem hid)) (\<lambda>found.
       case found of None \<Rightarrow> fail_with (Core (Gamecore GcInstanceNotFound)) | Some game \<Rightarrow> give game)"

definition directory_view :: "hand_id \<Rightarrow> view_request \<Rightarrow> (('a, 'v) node, u64 \<times> bytes) call" where
  "directory_view hid request =
     and_then (ask_memory nm_directory) (\<lambda>d.
     and_then (domain_call (rbind (find_entry d hid) (\<lambda>a. view_at live_hand_game a request d))) (\<lambda>view.
       give (gv_version view, gv_payload view)))"

definition public_view_live :: "hand_id \<Rightarrow> account_id \<Rightarrow> (('a, 'v) node, u64 \<times> bytes) call" where
  "public_view_live hid actor =
     and_then (find_game hid) (\<lambda>game.
     and_then (domain_call (position_for_account game actor)) (\<lambda>position.
       directory_view hid \<lparr>vr_position = 0, vr_public = True\<rparr>))"

definition private_view_live :: "hand_id \<Rightarrow> account_id \<Rightarrow> (('a, 'v) node, u64 \<times> bytes) call" where
  "private_view_live hid actor =
     and_then (find_game hid) (\<lambda>game.
     and_then (domain_call (position_for_account game actor)) (\<lambda>position.
       directory_view hid \<lparr>vr_position = position, vr_public = False\<rparr>))"

section \<open>Ending\<close>

definition max_retired :: nat where "max_retired = 64"

definition forget_retired :: "hand_id \<Rightarrow> 'a memory \<Rightarrow> 'a memory" where
  "forget_retired hid mem =
     mem\<lparr>nm_finalized := (nm_finalized mem)(hid := None), nm_receipts := (nm_receipts mem)(hid := []),
         nm_epochs := (nm_epochs mem)(hid := None)\<rparr>"

text \<open>The loop that forgets the oldest retired hands beyond the bound.\<close>

definition trim_retired :: "'a memory \<Rightarrow> 'a memory" where
  "trim_retired mem =
     (let excess = length (nm_retired mem) - max_retired in
      foldl (\<lambda>m hid. forget_retired hid m) (mem\<lparr>nm_retired := drop excess (nm_retired mem)\<rparr>) (take excess (nm_retired mem)))"

definition retire_hand :: "hand_id \<Rightarrow> final_record \<Rightarrow> 'a memory \<Rightarrow> 'a memory" where
  "retire_hand hid record mem =
     trim_retired (mem\<lparr>nm_games := (nm_games mem)(hid := None), nm_epochs := (nm_epochs mem)(hid := None),
       nm_retired := (if nm_finalized mem hid = None then nm_retired mem @ [hid] else nm_retired mem),
       nm_finalized := (nm_finalized mem)(hid \<mapsto> record)\<rparr>)"

definition finish_live :: "('a, 'v) runtime \<Rightarrow> hand_id \<Rightarrow> final_record \<Rightarrow> (('a, 'v) node, unit) call" where
  "finish_live rn hid record =
     and_then (set_memory (retire_hand hid record)) (\<lambda>_.
       if rn_journal rn \<noteq> None then evict_seed rn hid
       else ignoring (on_vault (vault_release (rn_persistence rn) hid)))"

text \<open>\<open>PendingFinalRecord\<close>: an instance that is not found has none.\<close>

definition pending_record :: "hand_id \<Rightarrow> (('a, 'v) node, final_record option) call" where
  "pending_record hid =
     and_then (ask_memory nm_directory) (\<lambda>d.
       case rbind (find_entry d hid) (\<lambda>a. pending_at a d) of
         Inl e \<Rightarrow> if e = Gamecore GcInstanceNotFound then give None else fail_with (Core e)
       | Inr r \<Rightarrow> give r)"

definition retry_in_directory :: "('a, 'v) runtime \<Rightarrow> hand_id \<Rightarrow> (('a, 'v) node, final_record) call" where
  "retry_in_directory rn hid =
     and_then (on_entry hid (\<lambda>a. retry_at (rn_archive rn) hid a)) (\<lambda>out.
     and_then (value_or_error out) (\<lambda>record.
     and_then (finish_live rn hid record) (\<lambda>_. give record)))"

definition abort_live :: "('a, 'v) runtime \<Rightarrow> hand_id \<Rightarrow> string \<Rightarrow> (('a, 'v) node, final_record) call" where
  "abort_live rn hid reason =
     and_then (ask_memory (\<lambda>mem. nm_finalized mem hid)) (\<lambda>final.
       case final of
         Some record \<Rightarrow> give record
       | None \<Rightarrow>
           and_then (pending_record hid) (\<lambda>pending.
             if pending \<noteq> None then retry_in_directory rn hid
             else
               and_then (on_entry hid (\<lambda>a. abort_at live_hand_game (rn_archive rn) hid a reason)) (\<lambda>out.
               and_then (value_or_error out) (\<lambda>record.
               and_then (finish_live rn hid record) (\<lambda>_. give record)))))"

definition retry_archive_live :: "('a, 'v) runtime \<Rightarrow> hand_id \<Rightarrow> (('a, 'v) node, final_record) call" where
  "retry_archive_live rn hid =
     and_then (ask_memory (\<lambda>mem. nm_finalized mem hid)) (\<lambda>final.
       case final of Some record \<Rightarrow> give record | None \<Rightarrow> retry_in_directory rn hid)"

end
