(* ===== verification/Live_Receipts.thy ===== *)
theory Live_Receipts
  imports Live_Node
begin

text \<open>
  The receipts of accepted commands (\<open>runtime/live_receipts.go\<close>, \<open>live_terminal_receipt.go\<close>) and the replay of
  a journal on a game made from the genesis. A receipt of an ended hand that memory has dropped is computed
  again from the journal.
\<close>

abbreviation unverifiable :: app_error where "unverifiable \<equiv> Core (Gamecore GcVerificationFailed)"

section \<open>Same requests\<close>

definition same_payload :: "bytes \<Rightarrow> bytes \<Rightarrow> bool" where
  "same_payload left right \<longleftrightarrow>
     left = right \<or>
     (case canonical_payload left of None \<Rightarrow> False | Some canonical \<Rightarrow> canonical_payload right = Some canonical)"

definition duplicate_receipt :: "command \<Rightarrow> command \<Rightarrow> account_id \<Rightarrow> account_id \<Rightarrow> bool" where
  "duplicate_receipt old current previous actor \<longleftrightarrow>
     previous = actor \<and> (cm_actor current = 0 \<or> cm_actor old = cm_actor current) \<and>
     cm_expected old = cm_expected current \<and> same_payload (cm_payload old) (cm_payload current)"

definition store_receipt ::
  "hand_id \<Rightarrow> account_id \<Rightarrow> string \<Rightarrow> command \<Rightarrow> command_outcome \<Rightarrow> u64 \<Rightarrow> 'a memory \<Rightarrow> 'a memory" where
  "store_receipt hid actor command_id cmd oc seq mem =
     (if command_id = [] then mem
      else mem\<lparr>nm_receipts := (nm_receipts mem)(hid :=
        AList.update command_id \<lparr>lc_seq = seq, lc_actor = actor, lc_command = cmd, lc_outcome = oc\<rparr>
          (nm_receipts mem hid))\<rparr>)"

section \<open>Replay\<close>

definition action_command :: "live_action \<Rightarrow> command" where
  "action_command a = \<lparr>cm_actor = la_position a, cm_expected = la_expected a, cm_payload = la_payload a\<rparr>"

definition replay_live_action :: "live_hand \<Rightarrow> live_action \<Rightarrow> app_error + live_hand \<times> command_outcome" where
  "replay_live_action g a =
     (case position_for_account g (la_actor a) of
        Inl e \<Rightarrow> Inl unverifiable
      | Inr position \<Rightarrow>
          if position \<noteq> la_position a then Inl unverifiable
          else
            (case live_game_apply g (action_command a) of
               (g', Inl e) \<Rightarrow> Inl (Wrapped ''replay live action'' (Core e))
             | (g', Inr oc) \<Rightarrow>
                 if oc_version oc \<noteq> la_version a \<or> outcome_digest oc \<noteq> la_digest a then Inl unverifiable
                 else Inr (g', oc)))"

text \<open>The loop over the actions; \<open>note_action\<close> is what the caller keeps of each.\<close>

fun replay_loop ::
  "('k \<Rightarrow> live_action \<Rightarrow> command_outcome \<Rightarrow> app_error + 'k) \<Rightarrow> live_hand \<Rightarrow> 'k \<Rightarrow> live_action list \<Rightarrow>
   app_error + live_hand \<times> 'k" where
  "replay_loop note_action g kept [] = Inr (g, kept)"
| "replay_loop note_action g kept (a # as) =
     (case replay_live_action g a of
        Inl e \<Rightarrow> Inl e
      | Inr (g', oc) \<Rightarrow>
          (case note_action kept a oc of
             Inl e \<Rightarrow> Inl e
           | Inr kept' \<Rightarrow> replay_loop note_action g' kept' as))"

definition receipt_of :: "live_action \<Rightarrow> command_outcome \<Rightarrow> live_receipt" where
  "receipt_of a oc = \<lparr>lc_seq = la_seq a, lc_actor = la_actor a, lc_command = action_command a, lc_outcome = oc\<rparr>"

section \<open>Checks around a replay\<close>

definition same_immutable_hand :: "hand_snapshot \<Rightarrow> hand_snapshot \<Rightarrow> bool" where
  "same_immutable_hand authoritative genesis \<longleftrightarrow>
     hn_id authoritative = hn_id genesis \<and> hn_mode authoritative = hn_mode genesis \<and>
     hn_room authoritative = hn_room genesis \<and> hn_seats authoritative = hn_seats genesis \<and>
     hn_server_commitment authoritative = hn_server_commitment genesis \<and>
     hn_reveal_key authoritative = hn_reveal_key genesis \<and> hn_reveal_hash authoritative = hn_reveal_hash genesis \<and>
     time_equal (hn_reveal_bound_at authoritative) (hn_reveal_bound_at genesis) \<and>
     hn_plan authoritative = hn_plan genesis \<and> hn_beacon authoritative = hn_beacon genesis \<and>
     hn_contributions authoritative = hn_contributions genesis"

definition recovery_phase_needs_replay :: "hand_phase \<Rightarrow> bool" where
  "recovery_phase_needs_replay phase \<longleftrightarrow> phase = HandBidding \<or> phase = HandPlaying \<or> phase = HandSettling"

definition validate_replayed_phase :: "hand_phase \<Rightarrow> string \<Rightarrow> bool \<Rightarrow> app_error + unit" where
  "validate_replayed_phase persisted replayed terminal =
     (let unfinished = replayed = phase_bidding \<or> replayed = phase_playing \<or> replayed = phase_no_landlord in
      if phase_terminal persisted \<and> persisted \<noteq> HandCompleted then
        (if \<not> terminal \<and> unfinished then Inr () else Inl unverifiable)
      else if terminal then
        (if replayed \<noteq> phase_completed \<or> (\<not> recovery_phase_needs_replay persisted \<and> persisted \<noteq> HandCompleted)
         then Inl unverifiable else Inr ())
      else case persisted of
        HandBidding \<Rightarrow> if unfinished then Inr () else Inl unverifiable
      | HandPlaying \<Rightarrow> if replayed = phase_playing then Inr () else Inl unverifiable
      | _ \<Rightarrow> Inl unverifiable)"

section \<open>Receipts of ended hands\<close>

definition note_target ::
  "string \<Rightarrow> bool \<times> live_receipt option \<Rightarrow> live_action \<Rightarrow> command_outcome \<Rightarrow> app_error + bool \<times> live_receipt option" where
  "note_target command_id kept a oc =
     Inr (fst kept \<or> oc_terminal oc, if la_command a = command_id then Some (receipt_of a oc) else snd kept)"

definition load_terminal_receipt ::
  "('a, 'v) runtime \<Rightarrow> journal \<Rightarrow> hand_id \<Rightarrow> string \<Rightarrow> (('a, 'v) node, live_receipt option) call" where
  "load_terminal_receipt rn jl hid command_id =
     and_then (on_store (has_live_command (rn_machine rn) hid command_id)) (\<lambda>found.
       if \<not> found then give None
       else
         and_then (on_store (read_terminal_history (rn_machine rn) jl hid)) (\<lambda>(state, genesis, actions).
         and_then (guard (\<not> same_immutable_hand state genesis) unverifiable) (\<lambda>_.
         and_then (node_material rn genesis) (\<lambda>m.
         and_then (give_result (make_game [] genesis m)) (\<lambda>game.
         and_then (give_result (replay_loop (note_target command_id) game (False, None) actions)) (\<lambda>(g, terminal, target).
         and_then (wrap_infrastructure ''historical phase mismatch''
                     (give_result (validate_replayed_phase (hn_phase state) (lh_phase g) terminal))) (\<lambda>_.
           give target)))))))"

definition load_receipt ::
  "('a, 'v) runtime \<Rightarrow> hand_id \<Rightarrow> account_id \<Rightarrow> string \<Rightarrow> command \<Rightarrow> u64 \<Rightarrow> (('a, 'v) node, command_outcome option) call" where
  "load_receipt rn hid actor command_id cmd seq =
     (if command_id = [] then give None
      else
        and_then (ask_memory (\<lambda>mem. map_of (nm_receipts mem hid) command_id)) (\<lambda>hot.
        and_then (ask_memory (\<lambda>mem. nm_games mem hid \<noteq> None)) (\<lambda>active.
        and_then (case rn_journal rn of
                    Some jl \<Rightarrow> if hot = None \<and> \<not> active then load_terminal_receipt rn jl hid command_id else give hot
                  | None \<Rightarrow> give hot) (\<lambda>receipt.
          case receipt of
            None \<Rightarrow> give None
          | Some r \<Rightarrow>
              if lc_seq r \<noteq> seq \<or> \<not> duplicate_receipt (lc_command r) cmd (lc_actor r) actor then fail_with unverifiable
              else give (Some (lc_outcome r))))))"

end
