(* ===== verification/Live_Checkpoint.thy ===== *)
theory Live_Checkpoint
  imports Live_Receipts
begin

text \<open>
  The recovery checkpoints (\<open>runtime/live_checkpoint.go\<close>): every 32 versions the receipts of a hand and digests
  of its views are put into one encrypted row, from which recovery restores the game after checking every
  receipt against the journal.
\<close>

definition checkpoint_version_text :: string where "checkpoint_version_text = ''doudizhu-live-recovery-checkpoint-v1''"
definition checkpoint_interval :: u64 where "checkpoint_interval = 32"
definition max_checkpoint_actions :: nat where "max_checkpoint_actions = 512"
definition checkpoint_slots :: nat where "checkpoint_slots = 8"

section \<open>Wire\<close>

text \<open>A nil slice and an empty one are different JSON, so the wire records keep slices.\<close>

record command_wire =
  kc_actor :: u8
  kc_expected :: u64
  kc_payload :: "u8 slice"

record outcome_wire =
  ow_version :: u64
  ow_payload :: "u8 slice"
  ow_terminal :: bool
  ow_final :: "u8 slice"

record receipt_wire =
  rp_seq :: u64
  rp_id :: string
  rp_actor :: account_id
  rp_command :: command_wire
  rp_outcome :: outcome_wire

record checkpoint_wire =
  kw_version :: string
  kw_hand :: hand_id
  kw_state :: u64
  kw_public :: bytes
  kw_private :: "bytes list"
  kw_receipts :: "receipt_wire slice"

definition command_wire_of :: "command \<Rightarrow> command_wire" where
  "command_wire_of c = \<lparr>kc_actor = cm_actor c, kc_expected = cm_expected c, kc_payload = slice_of (cm_payload c)\<rparr>"

definition wire_command :: "command_wire \<Rightarrow> command" where
  "wire_command c = \<lparr>cm_actor = kc_actor c, cm_expected = kc_expected c, cm_payload = elements (kc_payload c)\<rparr>"

definition outcome_wire_of :: "command_outcome \<Rightarrow> outcome_wire" where
  "outcome_wire_of oc =
     \<lparr>ow_version = oc_version oc, ow_payload = slice_of (oc_payload oc), ow_terminal = oc_terminal oc,
      ow_final = slice_of (oc_final oc)\<rparr>"

definition json_command_wire :: "command_wire \<Rightarrow> json" where
  "json_command_wire c = JObj
     (member ''ActorPosition'' (json_word (kc_actor c)) @ member ''ExpectedVersion'' (json_word (kc_expected c))
      @ member ''Payload'' (json_bytes (kc_payload c)))"

definition json_outcome_wire :: "outcome_wire \<Rightarrow> json" where
  "json_outcome_wire oc = JObj
     (member ''Version'' (json_word (ow_version oc)) @ member ''Payload'' (json_bytes (ow_payload oc))
      @ member ''Terminal'' (JBool (ow_terminal oc)) @ member ''FinalPayload'' (json_bytes (ow_final oc)))"

definition json_receipt_wire :: "receipt_wire \<Rightarrow> json" where
  "json_receipt_wire r = JObj
     (member ''clientSeq'' (json_word (rp_seq r)) @ member ''commandId'' (JStr (rp_id r))
      @ member ''actor'' (JStr (rp_actor r)) @ member ''command'' (json_command_wire (rp_command r))
      @ member ''outcome'' (json_outcome_wire (rp_outcome r)))"

definition json_checkpoint :: "checkpoint_wire \<Rightarrow> json" where
  "json_checkpoint k = JObj
     (member ''v'' (JStr (kw_version k)) @ member ''handId'' (JStr (kw_hand k))
      @ member ''stateVersion'' (json_word (kw_state k)) @ member ''publicDigest'' (json_array32 (kw_public k))
      @ member ''privateDigests'' (JArr (map json_array32 (kw_private k)))
      @ member ''receipts'' (json_slice json_receipt_wire (kw_receipts k)))"

definition command_wire_fields :: "command_wire field list" where
  "command_wire_fields =
     [field ''ActorPosition'' decode_word kc_actor (\<lambda>x. kc_actor_update (\<lambda>_. x)),
      field ''ExpectedVersion'' decode_word kc_expected (\<lambda>x. kc_expected_update (\<lambda>_. x)),
      field ''Payload'' decode_bytes kc_payload (\<lambda>x. kc_payload_update (\<lambda>_. x))]"

definition outcome_wire_fields :: "outcome_wire field list" where
  "outcome_wire_fields =
     [field ''Version'' decode_word ow_version (\<lambda>x. ow_version_update (\<lambda>_. x)),
      field ''Payload'' decode_bytes ow_payload (\<lambda>x. ow_payload_update (\<lambda>_. x)),
      field ''Terminal'' decode_bool ow_terminal (\<lambda>x. ow_terminal_update (\<lambda>_. x)),
      field ''FinalPayload'' decode_bytes ow_final (\<lambda>x. ow_final_update (\<lambda>_. x))]"

definition receipt_wire_fields :: "receipt_wire field list" where
  "receipt_wire_fields =
     [field ''clientSeq'' decode_word rp_seq (\<lambda>x. rp_seq_update (\<lambda>_. x)),
      field ''commandId'' decode_string rp_id (\<lambda>x. rp_id_update (\<lambda>_. x)),
      field ''actor'' decode_string rp_actor (\<lambda>x. rp_actor_update (\<lambda>_. x)),
      field ''command'' (decode_struct command_wire_fields True) rp_command (\<lambda>x. rp_command_update (\<lambda>_. x)),
      field ''outcome'' (decode_struct outcome_wire_fields True) rp_outcome (\<lambda>x. rp_outcome_update (\<lambda>_. x))]"

definition zero_receipt :: receipt_wire where
  "zero_receipt =
     \<lparr>rp_seq = 0, rp_id = [], rp_actor = [], rp_command = \<lparr>kc_actor = 0, kc_expected = 0, kc_payload = None\<rparr>,
      rp_outcome = \<lparr>ow_version = 0, ow_payload = None, ow_terminal = False, ow_final = None\<rparr>\<rparr>"

definition checkpoint_fields :: "checkpoint_wire field list" where
  "checkpoint_fields =
     [field ''v'' decode_string kw_version (\<lambda>x. kw_version_update (\<lambda>_. x)),
      field ''handId'' decode_string kw_hand (\<lambda>x. kw_hand_update (\<lambda>_. x)),
      field ''stateVersion'' decode_word kw_state (\<lambda>x. kw_state_update (\<lambda>_. x)),
      field ''publicDigest'' (decode_array decode_word 0) kw_public (\<lambda>x. kw_public_update (\<lambda>_. x)),
      field ''privateDigests'' (decode_array (decode_array decode_word 0) zero_digest) kw_private (\<lambda>x. kw_private_update (\<lambda>_. x)),
      field ''receipts'' (decode_slice (decode_struct receipt_wire_fields True) zero_receipt) kw_receipts
        (\<lambda>x. kw_receipts_update (\<lambda>_. x))]"

definition zero_checkpoint :: checkpoint_wire where
  "zero_checkpoint =
     \<lparr>kw_version = [], kw_hand = [], kw_state = 0, kw_public = zero_digest, kw_private = replicate 3 zero_digest,
      kw_receipts = None\<rparr>"

section \<open>Making a checkpoint\<close>

definition view_digest :: "live_hand \<Rightarrow> view_request \<Rightarrow> go_error + bytes" where
  "view_digest g request = rbind (live_game_view g request) (\<lambda>view. Inr (sha256 (gv_payload view)))"

fun seat_digests :: "live_hand \<Rightarrow> u8 list \<Rightarrow> go_error + bytes list" where
  "seat_digests g [] = Inr []"
| "seat_digests g (seat # seats) =
     rbind (view_digest g \<lparr>vr_position = seat, vr_public = False\<rparr>) (\<lambda>digest.
     rbind (seat_digests g seats) (\<lambda>digests. Inr (digest # digests)))"

definition view_digests :: "live_hand \<Rightarrow> go_error + bytes \<times> bytes list" where
  "view_digests g =
     rbind (view_digest g \<lparr>vr_position = 0, vr_public = True\<rparr>) (\<lambda>pub.
     rbind (seat_digests g [1, 2, 3]) (\<lambda>priv. Inr (pub, priv)))"

definition receipt_wire_of :: "string \<times> live_receipt \<Rightarrow> receipt_wire" where
  "receipt_wire_of named =
     (case named of (command_id, r) \<Rightarrow>
        \<lparr>rp_seq = lc_seq r, rp_id = command_id, rp_actor = lc_actor r, rp_command = command_wire_of (lc_command r),
         rp_outcome = outcome_wire_of (lc_outcome r)\<rparr>)"

text \<open>The one receipt of a version; none, or two, and there is no checkpoint.\<close>

definition receipt_at :: "(string \<times> live_receipt) list \<Rightarrow> nat \<Rightarrow> (string \<times> live_receipt) option" where
  "receipt_at saved version =
     (case filter (\<lambda>(command_id, r). unat (oc_version (lc_outcome r)) = version) saved of
        [named] \<Rightarrow> if fst named = [] then None else Some named
      | _ \<Rightarrow> None)"

definition receipts_by_version :: "(string \<times> live_receipt) list \<Rightarrow> u64 \<Rightarrow> (string \<times> live_receipt) list option" where
  "receipts_by_version saved version =
     (if list_all (\<lambda>v. receipt_at saved v \<noteq> None) [2..<Suc (unat version)]
      then Some (map (\<lambda>v. the (receipt_at saved v)) [2..<Suc (unat version)]) else None)"

definition checkpoint_payload :: "hand_id \<Rightarrow> (string \<times> live_receipt) list \<Rightarrow> u64 \<Rightarrow> live_hand \<Rightarrow> bytes option" where
  "checkpoint_payload hid saved version game =
     (case receipts_by_version saved version of
        None \<Rightarrow> None
      | Some receipts \<Rightarrow>
          (case view_digests game of
             Inl e \<Rightarrow> None
           | Inr (pub, priv) \<Rightarrow>
               Some (json_print (json_checkpoint
                 \<lparr>kw_version = checkpoint_version_text, kw_hand = hid, kw_state = version, kw_public = pub,
                  kw_private = priv, kw_receipts = made_slice (map receipt_wire_of receipts)\<rparr>))))"

text \<open>The checkpoint waits for its goroutine, if one of the slots is free.\<close>

definition checkpoint_after_commit :: "hand_id \<Rightarrow> u64 \<Rightarrow> command_outcome \<Rightarrow> live_hand \<Rightarrow> 'a memory \<Rightarrow> 'a memory" where
  "checkpoint_after_commit hid epoch oc game mem =
     (if oc_terminal oc \<or> oc_version oc \<le> 1 \<or> (oc_version oc - 1) mod checkpoint_interval \<noteq> 0 then mem
      else case checkpoint_payload hid (nm_receipts mem hid) (oc_version oc) game of
        None \<Rightarrow> mem
      | Some payload \<Rightarrow>
          if length (nm_saves mem) < checkpoint_slots
          then mem\<lparr>nm_saves := nm_saves mem @ [(hid, epoch, oc_version oc, payload)]\<rparr> else mem)"

text \<open>One of the goroutines runs; the slot is free again whatever the store said.\<close>

definition run_pending_save :: "('a, 'v) runtime \<Rightarrow> journal \<Rightarrow> nat \<Rightarrow> (('a, 'v) node, unit) call" where
  "run_pending_save rn jl i =
     and_then (ask_memory nm_saves) (\<lambda>saves.
       if i < length saves then
         (case saves ! i of (hid, epoch, version, payload) \<Rightarrow>
            and_then (ignoring (on_store (save_checkpoint (rn_machine rn) jl hid epoch version payload))) (\<lambda>_.
              set_memory (\<lambda>mem. mem\<lparr>nm_saves := take i (nm_saves mem) @ drop (Suc i) (nm_saves mem)\<rparr>)))
       else give ())"

section \<open>Restoring a checkpoint\<close>

definition receipt_matches :: "receipt_wire \<Rightarrow> live_action \<Rightarrow> bool" where
  "receipt_matches r log \<longleftrightarrow>
     rp_id r \<noteq> [] \<and> rp_id r = la_command log \<and> rp_actor r = la_actor log \<and> rp_seq r = la_seq log \<and>
     kc_actor (rp_command r) = la_position log \<and> kc_expected (rp_command r) = la_expected log \<and>
     same_payload (elements (kc_payload (rp_command r))) (la_payload log) \<and> ow_version (rp_outcome r) = la_version log"

fun restore_receipts ::
  "live_hand \<Rightarrow> (string \<times> live_receipt) list \<Rightarrow> (receipt_wire \<times> live_action) list \<Rightarrow>
   app_error + live_hand \<times> (string \<times> live_receipt) list" where
  "restore_receipts g receipts [] = Inr (g, receipts)"
| "restore_receipts g receipts ((r, log) # rest) =
     (if \<not> receipt_matches r log then Inl unverifiable
      else if position_for_account g (rp_actor r) \<noteq> Inr (kc_actor (rp_command r)) then Inl unverifiable
      else if map_of receipts (rp_id r) \<noteq> None then Inl unverifiable
      else
        (case live_game_apply g (wire_command (rp_command r)) of
           (g', Inl e) \<Rightarrow> Inl unverifiable
         | (g', Inr oc) \<Rightarrow>
             if oc_version oc \<noteq> la_version log \<or> outcome_digest oc \<noteq> la_digest log \<or>
                json_print (json_outcome_wire (rp_outcome r)) \<noteq> json_print (json_outcome oc)
             then Inl unverifiable
             else restore_receipts g'
               (AList.update (rp_id r)
                  \<lparr>lc_seq = rp_seq r, lc_actor = rp_actor r, lc_command = wire_command (rp_command r), lc_outcome = oc\<rparr> receipts)
               rest))"

definition restore_checkpoint ::
  "live_hand \<Rightarrow> u64 \<times> bytes \<Rightarrow> live_action list \<Rightarrow> app_error + live_hand \<times> (string \<times> live_receipt) list" where
  "restore_checkpoint game saved committed =
     (case saved of (version, payload) \<Rightarrow>
        if version < 2 \<or> unat (version - 1) > length committed then Inl unverifiable
        else if length payload = 0 \<or> length payload > max_checkpoint_size then Inl unverifiable
        else case Option.bind (json_parse payload) (\<lambda>j. decode_struct checkpoint_fields True j zero_checkpoint) of
          None \<Rightarrow> Inl unverifiable
        | Some k \<Rightarrow>
            let records = elements (kw_receipts k) in
            if kw_version k \<noteq> checkpoint_version_text \<or> kw_hand k \<noteq> lh_id game \<or> kw_state k \<noteq> version \<or>
               length records \<noteq> unat (version - 1) \<or> length records > max_checkpoint_actions
            then Inl unverifiable
            else
              rbind (restore_receipts game [] (zip records committed)) (\<lambda>(g, receipts).
                case view_digests g of
                  Inl e \<Rightarrow> Inl unverifiable
                | Inr (pub, priv) \<Rightarrow>
                    if pub \<noteq> kw_public k \<or> priv \<noteq> kw_private k then Inl unverifiable else Inr (g, receipts)))"

end
