(* ===== verification/Live_Moves.thy ===== *)
theory Live_Moves
  imports Live_Checkpoint
begin

text \<open>
  Bids, plays and passes on the runtime (\<open>runtime/durable_live_apply.go\<close>, \<open>live_hand_bidding.go\<close>,
  \<open>live_hand_playing.go\<close>, \<open>live_receipt_queries.go\<close>). With a journal, a command is applied to a copy of the
  game, appended to the journal under the epoch this process owns, and only then published.
\<close>

section \<open>Applying\<close>

text \<open>\<open>ApplyCommitted\<close> with \<open>Append\<close> as the durable commit.\<close>

definition append_outcome ::
  "'v machine \<Rightarrow> journal \<Rightarrow> hand_id \<Rightarrow> u64 \<Rightarrow> string \<Rightarrow> account_id \<Rightarrow> command \<Rightarrow> u64 \<Rightarrow> command_outcome \<Rightarrow> 'v state \<Rightarrow>
   bool \<times> 'v state" where
  "append_outcome mc jl hid epoch command_id actor cmd seq oc p =
     (case append_action mc jl hid epoch command_id actor cmd oc seq p of
        (Inl e, p') \<Rightarrow> (False, p')
      | (Inr x, p') \<Rightarrow> (True, p'))"

definition commit_live ::
  "('a, 'v) runtime \<Rightarrow> journal \<Rightarrow> hand_id \<Rightarrow> u64 \<Rightarrow> string \<Rightarrow> account_id \<Rightarrow> command \<Rightarrow> u64 \<Rightarrow>
   (('a, 'v) node, (command_outcome \<times> live_hand) option \<times> app_error option) call" where
  "commit_live rn jl hid epoch command_id actor cmd seq s =
     (case find_entry (nm_directory (memory_of s)) hid of
        Inl e \<Rightarrow> (Inr (None, Some (Core e)), s)
      | Inr a \<Rightarrow>
          (case commit_at live_hand_game (rn_archive rn) hid a cmd
                  (Some (append_outcome (rn_machine rn) jl hid epoch command_id actor cmd seq))
                  (fst s, snd (snd s)) (nm_directory (memory_of s)) of
             (d, ((db, v), (x, e))) \<Rightarrow> (Inr (x, core_error e), (db, ((memory_of s)\<lparr>nm_directory := d\<rparr>, v)))))"

text \<open>A final action that is committed and not yet archived keeps its receipt.\<close>

definition retain_receipt ::
  "hand_id \<Rightarrow> account_id \<Rightarrow> string \<Rightarrow> command \<Rightarrow> (command_outcome \<times> live_hand) option \<Rightarrow> app_error \<Rightarrow> u64 \<Rightarrow>
   'a memory \<Rightarrow> 'a memory" where
  "retain_receipt hid actor command_id cmd value err seq mem =
     (case value of
        None \<Rightarrow> mem
      | Some (oc, game) \<Rightarrow>
          if \<not> error_is err (Core (Gamecore GcArchiveFailed)) \<or> \<not> oc_terminal oc \<or> oc_version oc = 0 \<or>
             length (oc_final oc) = 0 \<or> command_id = []
          then mem else store_receipt hid actor command_id cmd oc seq mem)"

definition publish_game ::
  "('a, 'v) runtime \<Rightarrow> hand_id \<Rightarrow> command_outcome \<Rightarrow> live_hand \<Rightarrow> (('a, 'v) node, unit) call" where
  "publish_game rn hid oc game =
     (if oc_terminal oc then
        and_then (domain_call (new_final_record hid dd_descriptor FinalCompleted (oc_version oc) (oc_final oc))) (\<lambda>record.
          finish_live rn hid record)
      else set_memory (\<lambda>mem. mem\<lparr>nm_games := (nm_games mem)(hid \<mapsto> game)\<rparr>))"

definition apply_durably ::
  "('a, 'v) runtime \<Rightarrow> journal \<Rightarrow> hand_id \<Rightarrow> account_id \<Rightarrow> string \<Rightarrow> command \<Rightarrow> u64 \<Rightarrow> (('a, 'v) node, command_outcome) call" where
  "apply_durably rn jl hid actor command_id cmd seq =
     and_then (guard (command_id = []) (Fault ''durable live command ID required'')) (\<lambda>_.
     and_then (ask_memory (\<lambda>mem. case nm_epochs mem hid of None \<Rightarrow> 0 | Some epoch \<Rightarrow> epoch)) (\<lambda>epoch.
     and_then (guard (epoch = 0) (Fault ''live hand has no durable owner epoch'')) (\<lambda>_.
     and_then (commit_live rn jl hid epoch command_id actor cmd seq) (\<lambda>(value, err).
       case (value, err) of
         (_, Some e) \<Rightarrow>
           and_then (set_memory (retain_receipt hid actor command_id cmd value e seq)) (\<lambda>_. fail_with e)
       | (None, None) \<Rightarrow> fail_with (Fault ''no value'')
       | (Some (oc, game), None) \<Rightarrow>
           and_then (publish_game rn hid oc game) (\<lambda>_.
           and_then (set_memory (store_receipt hid actor command_id cmd oc seq)) (\<lambda>_.
           and_then (set_memory (checkpoint_after_commit hid epoch oc game)) (\<lambda>_.
             give oc)))))))"

definition apply_live ::
  "('a, 'v) runtime \<Rightarrow> hand_id \<Rightarrow> account_id \<Rightarrow> string \<Rightarrow> command \<Rightarrow> u64 \<Rightarrow> (('a, 'v) node, command_outcome) call" where
  "apply_live rn hid actor command_id cmd seq =
     (case rn_journal rn of
        None \<Rightarrow>
          and_then (on_entry hid (\<lambda>a. apply_at live_hand_game (rn_archive rn) hid a cmd)) (\<lambda>out.
            value_or_error out)
      | Some jl \<Rightarrow> apply_durably rn jl hid actor command_id cmd seq)"

text \<open>The receipt of the command if it has one, else its position and the application.\<close>

definition known_or_apply ::
  "('a, 'v) runtime \<Rightarrow> (hand_id \<Rightarrow> command_outcome \<Rightarrow> app_error + live_result) \<Rightarrow> hand_id \<Rightarrow> account_id \<Rightarrow> string \<Rightarrow> u64 \<Rightarrow>
   bytes \<Rightarrow> u64 \<Rightarrow> (('a, 'v) node, live_result) call" where
  "known_or_apply rn check hid actor command_id expected payload seq =
     (let known = \<lparr>cm_actor = 0, cm_expected = expected, cm_payload = payload\<rparr> in
      and_then (load_receipt rn hid actor command_id known seq) (\<lambda>receipt.
        case receipt of
          Some oc \<Rightarrow> and_then (give_result (check hid oc)) (\<lambda>result. give (result\<lparr>lv_historical := True\<rparr>))
        | None \<Rightarrow>
            and_then (find_game hid) (\<lambda>game.
            and_then (domain_call (position_for_account game actor)) (\<lambda>position.
            and_then (apply_live rn hid actor command_id (known\<lparr>cm_actor := position\<rparr>) seq) (\<lambda>oc.
              give_result (check hid oc))))))"

section \<open>Results\<close>

record bid_result =
  br_version :: string
  br_hand :: string
  br_state :: u64
  br_phase :: string
  br_bidding :: bidding_wire
  br_landlord :: u8
  br_score :: score
  br_playing :: u8
  br_terminates :: bool

definition bid_result_fields :: "bid_result field list" where
  "bid_result_fields =
     [field ''v'' decode_string br_version (\<lambda>x. br_version_update (\<lambda>_. x)),
      field ''handId'' decode_string br_hand (\<lambda>x. br_hand_update (\<lambda>_. x)),
      field ''stateVersion'' decode_word br_state (\<lambda>x. br_state_update (\<lambda>_. x)),
      field ''phase'' decode_string br_phase (\<lambda>x. br_phase_update (\<lambda>_. x)),
      field ''bidding'' (decode_struct bidding_fields False) br_bidding (\<lambda>x. br_bidding_update (\<lambda>_. x)),
      field ''landlordSeat'' decode_word br_landlord (\<lambda>x. br_landlord_update (\<lambda>_. x)),
      field ''winningScore'' decode_word br_score (\<lambda>x. br_score_update (\<lambda>_. x)),
      field ''playingSeat'' decode_word br_playing (\<lambda>x. br_playing_update (\<lambda>_. x)),
      field ''requiresTermination'' decode_bool br_terminates (\<lambda>x. br_terminates_update (\<lambda>_. x))]"

definition zero_bid_result :: bid_result where
  "zero_bid_result =
     \<lparr>br_version = [], br_hand = [], br_state = 0, br_phase = [], br_bidding = zero_bidding, br_landlord = 0,
      br_score = 0, br_playing = 0, br_terminates = False\<rparr>"

definition checked_bid_result :: "hand_id \<Rightarrow> command_outcome \<Rightarrow> app_error + live_result" where
  "checked_bid_result hid oc =
     (case Option.bind (json_parse (oc_payload oc)) (\<lambda>j. decode_struct bid_result_fields False j zero_bid_result) of
        None \<Rightarrow> Inl (Fault ''decode Doudizhu bid result'')
      | Some r \<Rightarrow>
          if br_version r \<noteq> bid_result_version \<or> br_hand r \<noteq> hid \<or> br_state r \<noteq> oc_version oc \<or> br_phase r = []
          then Inl unverifiable
          else Inr \<lparr>lv_historical = False, lv_version = oc_version oc, lv_payload = oc_payload oc,
                    lv_terminates = br_terminates r\<rparr>)"

record play_result =
  qr_version :: string
  qr_hand :: string
  qr_state :: u64
  qr_phase :: string
  qr_playing :: playing_wire
  qr_winner :: u8
  qr_settlement :: "settlement_result option"

definition play_result_fields :: "play_result field list" where
  "play_result_fields =
     [field ''v'' decode_string qr_version (\<lambda>x. qr_version_update (\<lambda>_. x)),
      field ''handId'' decode_string qr_hand (\<lambda>x. qr_hand_update (\<lambda>_. x)),
      field ''stateVersion'' decode_word qr_state (\<lambda>x. qr_state_update (\<lambda>_. x)),
      field ''phase'' decode_string qr_phase (\<lambda>x. qr_phase_update (\<lambda>_. x)),
      field ''playing'' (decode_struct playing_fields False) qr_playing (\<lambda>x. qr_playing_update (\<lambda>_. x)),
      field ''winnerSeat'' decode_word qr_winner (\<lambda>x. qr_winner_update (\<lambda>_. x)),
      field ''settlement'' (decode_pointer (decode_struct settlement_fields False) zero_settlement) qr_settlement
        (\<lambda>x. qr_settlement_update (\<lambda>_. x))]"

definition zero_play_result :: play_result where
  "zero_play_result =
     \<lparr>qr_version = [], qr_hand = [], qr_state = 0, qr_phase = [], qr_playing = zero_playing, qr_winner = 0,
      qr_settlement = None\<rparr>"

definition validate_play_result :: "hand_id \<Rightarrow> command_outcome \<Rightarrow> play_result \<Rightarrow> bool" where
  "validate_play_result hid oc r \<longleftrightarrow>
     qr_version r = play_result_version \<and> qr_hand r = hid \<and> qr_state r = oc_version oc \<and>
     pw_version (qr_playing r) = playing_state_version \<and>
     (if qr_phase r = phase_playing then
        \<not> oc_terminal oc \<and> length (oc_final oc) = 0 \<and> \<not> pw_complete (qr_playing r) \<and> qr_winner r = 0 \<and>
        qr_settlement r = None
      else if qr_phase r = phase_completed then
        oc_terminal oc \<and> length (oc_final oc) \<noteq> 0 \<and> pw_complete (qr_playing r) \<and> qr_winner r \<noteq> 0 \<and>
        pw_winner (qr_playing r) = qr_winner r \<and>
        (case qr_settlement r of
           None \<Rightarrow> False
         | Some s \<Rightarrow> res_version s = settlement_rules_version \<and> res_winner s = qr_winner r)
      else False)"

definition checked_play_result :: "hand_id \<Rightarrow> command_outcome \<Rightarrow> app_error + live_result" where
  "checked_play_result hid oc =
     (case Option.bind (json_parse (oc_payload oc)) (\<lambda>j. decode_struct play_result_fields False j zero_play_result) of
        None \<Rightarrow> Inl (Fault ''decode Doudizhu play result'')
      | Some r \<Rightarrow>
          if \<not> validate_play_result hid oc r then Inl unverifiable
          else Inr \<lparr>lv_historical = False, lv_version = oc_version oc, lv_payload = oc_payload oc, lv_terminates = False\<rparr>)"

section \<open>The commands\<close>

definition bid_payload :: "score \<Rightarrow> bytes" where
  "bid_payload score = json_print (JObj (member ''v'' (JStr bid_command_version) @ member ''score'' (json_word score)))"

definition play_payload :: "string list \<Rightarrow> bytes" where
  "play_payload cards =
     json_print (JObj (member ''v'' (JStr play_command_version) @ member ''cards'' (json_slice JStr (slice_of cards))))"

definition pass_payload :: bytes where
  "pass_payload = json_print (JObj (member ''v'' (JStr pass_command_version)))"

definition bid_internal ::
  "('a, 'v) runtime \<Rightarrow> hand_id \<Rightarrow> account_id \<Rightarrow> string \<Rightarrow> u64 \<Rightarrow> score \<Rightarrow> u64 \<Rightarrow> (('a, 'v) node, live_result) call" where
  "bid_internal rn hid actor command_id expected score seq =
     known_or_apply rn checked_bid_result hid actor command_id expected (bid_payload score) seq"

definition play_internal ::
  "('a, 'v) runtime \<Rightarrow> hand_id \<Rightarrow> account_id \<Rightarrow> string \<Rightarrow> u64 \<Rightarrow> string list \<Rightarrow> u64 \<Rightarrow> (('a, 'v) node, live_result) call" where
  "play_internal rn hid actor command_id expected cards seq =
     known_or_apply rn checked_play_result hid actor command_id expected (play_payload cards) seq"

definition pass_internal ::
  "('a, 'v) runtime \<Rightarrow> hand_id \<Rightarrow> account_id \<Rightarrow> string \<Rightarrow> u64 \<Rightarrow> u64 \<Rightarrow> (('a, 'v) node, live_result) call" where
  "pass_internal rn hid actor command_id expected seq =
     known_or_apply rn checked_play_result hid actor command_id expected pass_payload seq"

text \<open>The sequenced forms ask for an identity.\<close>

definition sequenced :: "string \<Rightarrow> string \<Rightarrow> u64 \<Rightarrow> ('s, 'r) call \<Rightarrow> ('s, 'r) call" where
  "sequenced message command_id seq m =
     (if seq = 0 \<or> command_id = [] then fail_with (Fault message) else m)"

section \<open>Receipts\<close>

definition find_verified_receipt ::
  "('a, 'v) runtime \<Rightarrow> (hand_id \<Rightarrow> command_outcome \<Rightarrow> app_error + live_result) \<Rightarrow> hand_id \<Rightarrow> account_id \<Rightarrow> string \<Rightarrow> u64 \<Rightarrow>
   bytes \<Rightarrow> u64 \<Rightarrow> (('a, 'v) node, live_result option) call" where
  "find_verified_receipt rn check hid actor command_id expected payload seq =
     (if command_id = [] then give None
      else
        and_then (load_receipt rn hid actor command_id \<lparr>cm_actor = 0, cm_expected = expected, cm_payload = payload\<rparr> seq)
          (\<lambda>receipt.
             case receipt of
               None \<Rightarrow> give None
             | Some oc \<Rightarrow> and_then (give_result (check hid oc)) (\<lambda>result. give (Some (result\<lparr>lv_historical := True\<rparr>)))))"

definition node_receipts :: "('a, 'v) runtime \<Rightarrow> ('a, 'v) node receipt_reader" where
  "node_receipts rn =
     \<lparr>rr_bid = (\<lambda>hid actor command_id expected score seq.
        find_verified_receipt rn checked_bid_result hid actor command_id expected (bid_payload score) seq),
      rr_play = (\<lambda>hid actor command_id expected cards seq.
        find_verified_receipt rn checked_play_result hid actor command_id expected (play_payload cards) seq),
      rr_pass = (\<lambda>hid actor command_id expected seq.
        find_verified_receipt rn checked_play_result hid actor command_id expected pass_payload seq)\<rparr>"

section \<open>The runtime the application uses\<close>

text \<open>The provider of hand setups, on the vault of the same process.\<close>

definition node_setups :: "('a, 'v) runtime \<Rightarrow> 'v state setup_source \<Rightarrow> ('a, 'v) node setup_provider" where
  "node_setups rn so =
     \<lparr>sp_prepare = (\<lambda>room hid. on_vault (prepare_hand (rn_entropy rn) (rn_persistence rn) so room hid)),
      sp_release = (\<lambda>hid. on_vault (vault_release (rn_persistence rn) hid))\<rparr>"

definition node_sequenced :: "('a, 'v) runtime \<Rightarrow> ('a, 'v) node sequenced_runtime" where
  "node_sequenced rn =
     \<lparr>sq_bid = (\<lambda>hid actor command_id expected score seq.
        sequenced ''sequenced bid identity required'' command_id seq
          (bid_internal rn hid actor command_id expected score seq)),
      sq_play = (\<lambda>hid actor command_id expected cards seq.
        sequenced ''sequenced play identity required'' command_id seq
          (play_internal rn hid actor command_id expected cards seq)),
      sq_pass = (\<lambda>hid actor command_id expected seq.
        sequenced ''sequenced pass identity required'' command_id seq
          (pass_internal rn hid actor command_id expected seq))\<rparr>"

definition node_runtime :: "('a, 'v) runtime \<Rightarrow> ('a, 'v) node live_runtime" where
  "node_runtime rn =
     \<lparr>lr_start = start_live rn, lr_rollback_start = rollback_start_live rn, lr_release_prepared = release_prepared_live rn,
      lr_bid = (\<lambda>hid actor expected score. bid_internal rn hid actor [] expected score 0),
      lr_play = (\<lambda>hid actor expected cards. play_internal rn hid actor [] expected cards 0),
      lr_pass = (\<lambda>hid actor expected. pass_internal rn hid actor [] expected 0),
      lr_public_view = public_view_live, lr_private_view = private_view_live,
      lr_abort = (\<lambda>hid reason. and_then (abort_live rn hid reason) (\<lambda>record. give ())),
      lr_contains = node_contains, lr_receipts = Some (node_receipts rn), lr_sequenced = Some (node_sequenced rn),
      lr_bid_committed = Some (\<lambda>hid actor command_id expected score. bid_internal rn hid actor command_id expected score 0),
      lr_play_committed = Some (\<lambda>hid actor command_id expected cards. play_internal rn hid actor command_id expected cards 0),
      lr_pass_committed = Some (\<lambda>hid actor command_id expected. pass_internal rn hid actor command_id expected 0),
      lr_durability = Some (rn_journal rn \<noteq> None)\<rparr>"

end
