(* ===== verification/Live_Recovery.thy ===== *)
theory Live_Recovery
  imports Live_Moves
begin

text \<open>
  Taking over the live hands after a restart (\<open>runtime/durable_live_recover.go\<close>): for every writer row, the
  owner epoch is advanced, the game is made again from the genesis, the journal is replayed on it (through
  the checkpoint if there is one), and only a hand that passes every check is published.
\<close>

definition recovery_operations :: "string list" where
  "recovery_operations = [''regenerate committed deal'', ''verify recovered setup'', ''restore live genesis'']"

definition note_receipt ::
  "(string \<times> live_receipt) list \<times> command_outcome option \<Rightarrow> live_action \<Rightarrow> command_outcome \<Rightarrow>
   app_error + (string \<times> live_receipt) list \<times> command_outcome option" where
  "note_receipt kept a oc =
     (if map_of (fst kept) (la_command a) \<noteq> None then Inl unverifiable
      else Inr (AList.update (la_command a) (receipt_of a oc) (fst kept), if oc_terminal oc then Some oc else snd kept))"

text \<open>The checkpoint, then the actions after it: the game, the receipts and the final outcome.\<close>

definition replay_hand ::
  "live_hand \<Rightarrow> u64 \<times> bytes \<Rightarrow> live_action list \<Rightarrow>
   app_error + live_hand \<times> (string \<times> live_receipt) list \<times> command_outcome option" where
  "replay_hand game saved actions =
     rbind (if fst saved = 0 then Inr (game, [])
            else case restore_checkpoint game saved actions of
              Inl e \<Rightarrow> Inl (Wrapped ''restore protected checkpoint'' e)
            | Inr restored \<Rightarrow> Inr restored) (\<lambda>(g, receipts).
       replay_loop note_receipt g (receipts, None) (drop (unat (fst saved) - 1) actions))"

text \<open>What is read and checked before anything is published.\<close>

definition rebuild_hand ::
  "('a, 'v) runtime \<Rightarrow> journal \<Rightarrow> hand_id \<Rightarrow> hand_snapshot \<Rightarrow>
   (('a, 'v) node, u64 \<times> live_hand \<times> (string \<times> live_receipt) list \<times> command_outcome option) call" where
  "rebuild_hand rn jl hid snapshot =
     (let mc = rn_machine rn in
      and_then (wrap_infrastructure ''take fenced live ownership'' (on_store (acquire_writer mc hid))) (\<lambda>(epoch, watermark, genesis).
      and_then (guard (\<not> same_immutable_hand snapshot genesis) unverifiable) (\<lambda>_.
      and_then (wrap_infrastructure ''recover protected fairness material'' (node_material rn genesis)) (\<lambda>m.
      and_then (give_result (make_game recovery_operations genesis m)) (\<lambda>game.
      and_then (wrap_infrastructure ''load protected live log'' (on_store (read_journal mc jl hid))) (\<lambda>actions.
      and_then (guard (watermark \<noteq> word_of_nat (length actions) + 1) unverifiable) (\<lambda>_.
      and_then (wrap_infrastructure ''load protected live checkpoint'' (on_store (load_checkpoint mc jl hid))) (\<lambda>saved.
      and_then (guard (fst saved > watermark) unverifiable) (\<lambda>_.
      and_then (give_result (replay_hand game saved actions)) (\<lambda>(g, receipts, final).
      and_then (wrap_infrastructure ''replay phase mismatch''
                  (give_result (validate_replayed_phase (hn_phase snapshot) (lh_phase g) (final \<noteq> None)))) (\<lambda>_.
        give (epoch, g, receipts, final))))))))))))"

definition set_receipts :: "hand_id \<Rightarrow> (string \<times> live_receipt) list \<Rightarrow> 'a memory \<Rightarrow> 'a memory" where
  "set_receipts hid receipts mem = mem\<lparr>nm_receipts := (nm_receipts mem)(hid := receipts)\<rparr>"

text \<open>The three ways to publish: a terminated hand is archived, a finished one too, another becomes active.\<close>

definition publish_terminated ::
  "('a, 'v) runtime \<Rightarrow> hand_id \<Rightarrow> hand_snapshot \<Rightarrow> live_hand \<Rightarrow> (string \<times> live_receipt) list \<Rightarrow> (('a, 'v) node, unit) call" where
  "publish_terminated rn hid snapshot g receipts =
     (and_then (wrap_infrastructure ''register terminal recovery'' (add_to_directory g)) (\<lambda>_.
      and_then (wrap_infrastructure ''reconcile terminated archive''
                  (and_then (on_entry hid (\<lambda>a. abort_at live_hand_game (rn_archive rn) hid a (hn_reason snapshot))) value_or_error))
        (\<lambda>record.
      and_then (finish_live rn hid record) (\<lambda>_. set_memory (set_receipts hid receipts)))))"

definition archive_final ::
  "('a, 'v) runtime \<Rightarrow> live_hand \<Rightarrow> command_outcome \<Rightarrow> (('a, 'v) node, final_record) call" where
  "archive_final rn g oc =
     and_then (on_memory (\<lambda>mem.
         case archive_recovered live_hand_game (rn_archive rn) (Some g) oc (nm_directory mem) of
           (d, (x, e)) \<Rightarrow> (Inr (x, core_error e), mem\<lparr>nm_directory := d\<rparr>))) value_or_error"

definition publish_recovered ::
  "('a, 'v) runtime \<Rightarrow> hand_id \<Rightarrow> hand_snapshot \<Rightarrow> u64 \<times> live_hand \<times> (string \<times> live_receipt) list \<times> command_outcome option \<Rightarrow>
   (('a, 'v) node, unit) call" where
  "publish_recovered rn hid snapshot rebuilt =
     (case rebuilt of (epoch, g, receipts, final) \<Rightarrow>
        if phase_terminal (hn_phase snapshot) \<and> hn_phase snapshot \<noteq> HandCompleted
        then publish_terminated rn hid snapshot g receipts
        else case final of
          Some oc \<Rightarrow>
            and_then (wrap_infrastructure ''archive recovered game completion'' (archive_final rn g oc)) (\<lambda>record.
            and_then (finish_live rn hid record) (\<lambda>_. set_memory (set_receipts hid receipts)))
        | None \<Rightarrow>
            and_then (add_to_directory g) (\<lambda>_.
              set_memory (\<lambda>mem. set_receipts hid receipts
                (mem\<lparr>nm_games := (nm_games mem)(hid \<mapsto> g), nm_epochs := (nm_epochs mem)(hid \<mapsto> epoch)\<rparr>))))"

text \<open>
  One round of the loop. A writer row whose hand is not in the store was left by a transaction that was rolled
  back; a hand in an early phase is left to its commands.
\<close>

definition recover_hand ::
  "('a, 'v) runtime \<Rightarrow> journal \<Rightarrow> (hand_id \<Rightarrow> (('a, 'v) node, hand_snapshot) call) \<Rightarrow> hand_id \<Rightarrow> (('a, 'v) node, unit) call" where
  "recover_hand rn jl load_hand hid s =
     (case load_hand hid s of
        (Inl e, s') \<Rightarrow>
          if error_is e (App AppNotFound) then (Inr (), s')
          else (Inl (Wrapped ''load authoritative hand'' e), s')
      | (Inr snapshot, s') \<Rightarrow>
          if \<not> recovery_phase_needs_replay (hn_phase snapshot) \<and> \<not> phase_terminal (hn_phase snapshot) then (Inr (), s')
          else and_then (rebuild_hand rn jl hid snapshot) (publish_recovered rn hid snapshot) s')"

fun recover_hands ::
  "('a, 'v) runtime \<Rightarrow> journal \<Rightarrow> (hand_id \<Rightarrow> (('a, 'v) node, hand_snapshot) call) \<Rightarrow> hand_id list \<Rightarrow> (('a, 'v) node, unit) call" where
  "recover_hands rn jl load_hand [] = give ()"
| "recover_hands rn jl load_hand (hid # hids) =
     and_then (recover_hand rn jl load_hand hid) (\<lambda>_. recover_hands rn jl load_hand hids)"

definition recover_active ::
  "('a, 'v) runtime \<Rightarrow> (hand_id \<Rightarrow> (('a, 'v) node, hand_snapshot) call) \<Rightarrow> (('a, 'v) node, unit) call" where
  "recover_active rn load_hand =
     (case rn_journal rn of
        None \<Rightarrow> fail_with (Fault ''durable recovery dependencies unavailable'')
      | Some jl \<Rightarrow>
          and_then (wrap_infrastructure ''list live recovery'' (on_store (list_writers (rn_machine rn)))) (\<lambda>hids.
            recover_hands rn jl load_hand hids))"

text \<open>The phases the lifecycle supervisor starts from.\<close>

definition recovered_phases :: "'a memory \<Rightarrow> hand_id \<rightharpoonup> string" where
  "recovered_phases mem hid =
     (case nm_finalized mem hid of
        Some record \<Rightarrow>
          if fr_status record = FinalCompleted then Some phase_completed else map_option lh_phase (nm_games mem hid)
      | None \<Rightarrow> map_option lh_phase (nm_games mem hid))"

end
