(* ===== verification/Journal_Laws.thy ===== *)
theory Journal_Laws
  imports Sealed_Tables Mysql_Laws
begin

text \<open>
  The journal of the live hands as a whole: what each operation does to the tables, a step relation for any
  number of processes that share them (a COMMIT whose outcome is not known included), and the invariant that
  every step keeps: the log of a hand is the contiguous, bounded list of its accepted commands, written under
  epochs that never go back, and as long as the watermark says.
\<close>

section \<open>The log of a hand\<close>

definition hand_log :: "database \<Rightarrow> hand_id \<Rightarrow> live_action list" where
  "hand_log db hid = map ar_action (hand_actions db hid)"

text \<open>Versions from \<open>v\<close> on, epochs from \<open>e\<close> on.\<close>

fun chain :: "u64 \<Rightarrow> u64 \<Rightarrow> live_action list \<Rightarrow> bool" where
  "chain v e [] = True"
| "chain v e (a # as) \<longleftrightarrow>
     la_version a = v \<and> la_expected a = v - 1 \<and> e \<le> la_epoch a \<and> la_epoch a \<noteq> 0 \<and> chain (v + 1) (la_epoch a) as"

definition last_epoch :: "u64 \<Rightarrow> live_action list \<Rightarrow> u64" where
  "last_epoch e as = (if as = [] then e else la_epoch (last as))"

lemma chain_append:
  "chain v e (as @ [a]) \<longleftrightarrow>
     chain v e as \<and> la_version a = v + of_nat (length as) \<and> la_expected a = v + of_nat (length as) - 1 \<and>
     last_epoch e as \<le> la_epoch a \<and> la_epoch a \<noteq> 0"
  by (induction as arbitrary: v e) (auto simp: last_epoch_def algebra_simps)

section \<open>Transactions\<close>

lemma and_then_cases:
  assumes "and_then m f s = (r, s')"
  obtains e where "m s = (Inl e, s')" "r = Inl e" | x s1 where "m s = (Inr x, s1)" "f x s1 = (r, s')"
  using assms by (auto simp: and_then_def split: prod.splits sum.splits)

lemma journal_transaction_cases:
  assumes "journal_transaction drv commit_error body s = (r, s')"
  obtains (undone) e where "r = Inl e" "fst s' = fst s"
  | (applied) x w s1 where "body (fst s, w) = (Inr x, s1)" "fst s' = fst s1"
      "r = Inr x \<or> (\<exists>failure. r = Inl (commit_error failure))"
  using assms by (force simp: journal_transaction_def split: prod.splits option.splits sum.splits if_splits)

lemma journal_transaction_Inr:
  assumes "journal_transaction drv commit_error body s = (Inr x, s')"
  obtains w s1 where "body (fst s, w) = (Inr x, s1)" "fst s' = fst s1"
  using assms by (auto simp: journal_transaction_def split: prod.splits option.splits sum.splits if_splits)

lemma select_row_Inr: "select_row table k db = (Inr row, db') \<longleftrightarrow> db' = db \<and> table db k = Some row"
  by (auto simp: select_row_def split: option.splits)

lemma statement_Inr_cases:
  assumes "statement drv name run s = (Inr x, s')"
  obtains "run (fst s) = (Inr x, fst s')"
  using assms by (auto elim: statement_cases)

section \<open>Effects\<close>

lemma writer_table_update [simp]:
  "writer_table (db\<lparr>db_writers := AList.update hid row (db_writers db)\<rparr>) = (writer_table db)(hid \<mapsto> row)"
  "writer_table (db\<lparr>db_writers := AList.delete hid (db_writers db)\<rparr>) = (writer_table db)(hid := None)"
  by (simp_all add: writer_table_def update_conv' delete_conv')

lemma writer_table_frame [simp]:
  "writer_table (db\<lparr>db_actions := x\<rparr>) = writer_table db" "writer_table (db\<lparr>db_checkpoints := y\<rparr>) = writer_table db"
  "writer_table (db\<lparr>db_seeds := z\<rparr>) = writer_table db"
  by (simp_all add: writer_table_def)

lemma hand_log_frame [simp]:
  "hand_log (db\<lparr>db_writers := x\<rparr>) = hand_log db" "hand_log (db\<lparr>db_checkpoints := y\<rparr>) = hand_log db"
  "hand_log (db\<lparr>db_seeds := z\<rparr>) = hand_log db"
  by (simp_all add: hand_log_def hand_actions_def fun_eq_iff)

text \<open>What \<open>append_action\<close> does when it does anything.\<close>

definition stored_row :: "'w machine \<Rightarrow> live_action \<Rightarrow> bytes \<Rightarrow> action_row" where
  "stored_row mc a tag = \<lparr>ar_action = a\<lparr>la_payload := mc_column mc (la_payload a)\<rparr>, ar_tag = tag\<rparr>"

definition appended ::
  "'w machine \<Rightarrow> journal \<Rightarrow> hand_id \<Rightarrow> u64 \<Rightarrow> string \<Rightarrow> account_id \<Rightarrow> command \<Rightarrow> command_outcome \<Rightarrow> u64 \<Rightarrow>
   database \<Rightarrow> database \<Rightarrow> bool" where
  "appended mc jl hid epoch command_id actor cmd oc seq db db' \<longleftrightarrow>
     (let a = action_of jl hid epoch command_id actor cmd oc seq in
      \<not> append_invalid hid epoch command_id actor cmd oc \<and> (jl_key jl = [] \<longrightarrow> seq = 0) \<and>
      (\<exists>row tag. integrity_tag a (jl_key jl) = Inr tag \<and> writer_table db hid = Some row \<and> ww_epoch row = epoch \<and>
         ww_committed row = cm_expected cmd \<and> command_id \<notin> la_command ` set (hand_log db hid) \<and>
         db' = db\<lparr>db_actions := db_actions db @ [stored_row mc a tag],
                  db_writers := AList.update hid (row\<lparr>ww_committed := oc_version oc\<rparr>) (db_writers db)\<rparr>))"

lemma insert_action_Inr:
  "insert_action mc row db = (Inr (), db') \<longleftrightarrow>
     list_all (\<lambda>a. la_version a \<noteq> la_version (ar_action row) \<and> la_command a \<noteq> la_command (ar_action row))
       (hand_log db (la_hand (ar_action row))) \<and>
     db' = db\<lparr>db_actions := db_actions db @ [stored_row mc (ar_action row) (ar_tag row)]\<rparr>"
  by (auto simp: insert_action_def stored_row_def hand_log_def list_ex_iff list_all_iff)

definition append_body ::
  "'w machine \<Rightarrow> hand_id \<Rightarrow> u64 \<Rightarrow> u64 \<Rightarrow> u64 \<Rightarrow> action_row \<Rightarrow> ('w state, unit) call" where
  "append_body mc hid epoch expected version row =
     and_then (statement (mc_driver mc) ''select writer'' (select_row writer_table hid)) (\<lambda>writer.
     and_then (guard (ww_epoch writer \<noteq> epoch) (Core (Journal WriterFenced))) (\<lambda>_.
     and_then (guard (ww_committed writer \<noteq> expected) (Core (Journal WatermarkConflict))) (\<lambda>_.
     and_then (statement (mc_driver mc) ''insert action'' (insert_action mc row)) (\<lambda>_.
     and_then (statement (mc_driver mc) ''update writer'' (set_watermark hid version epoch (ww_committed writer))) (\<lambda>rows.
       guard (rows \<noteq> 1) (Core (Journal WatermarkConflict)))))))"

lemma append_body_effect:
  assumes "append_body mc hid epoch expected version row s = (Inr x, s')"
  shows "\<exists>writer. writer_table (fst s) hid = Some writer \<and> ww_epoch writer = epoch \<and> ww_committed writer = expected \<and>
    list_all (\<lambda>a. la_version a \<noteq> la_version (ar_action row) \<and> la_command a \<noteq> la_command (ar_action row))
       (hand_log (fst s) (la_hand (ar_action row))) \<and>
    fst s' = (fst s)\<lparr>db_actions := db_actions (fst s) @ [stored_row mc (ar_action row) (ar_tag row)],
       db_writers := AList.update hid (writer\<lparr>ww_committed := version\<rparr>) (db_writers (fst s))\<rparr>"
  using assms
  by (auto simp: append_body_def call_simps select_row_Inr insert_action_Inr set_watermark_def
      split: if_splits elim!: statement_Inr_cases)

lemma append_action_body:
  "append_action mc jl hid epoch command_id actor cmd oc seq =
     (let a = action_of jl hid epoch command_id actor cmd oc seq in
      and_then (guard (append_invalid hid epoch command_id actor cmd oc) (Fault ''invalid durable live action'')) (\<lambda>_.
      and_then (guard (oc_terminal oc \<and> length (oc_final oc) = 0) (Fault ''invalid final live action'')) (\<lambda>_.
      and_then (guard (length (jl_key jl) = 0 \<and> seq \<noteq> 0) bad_replay) (\<lambda>_.
      and_then (give_result (integrity_tag a (jl_key jl))) (\<lambda>tag.
        journal_transaction (mc_driver mc) (\<lambda>failure. Wrapped ''ambiguous live action commit'' (Fault failure))
          (append_body mc hid epoch (cm_expected cmd) (oc_version oc) \<lparr>ar_action = a, ar_tag = tag\<rparr>))))))"
  by (simp add: append_action_def append_body_def Let_def)

lemma appendedI:
  assumes "\<not> append_invalid hid epoch command_id actor cmd oc" "jl_key jl = [] \<longrightarrow> seq = 0"
    and "integrity_tag (action_of jl hid epoch command_id actor cmd oc seq) (jl_key jl) = Inr tag"
    and "append_body mc hid epoch (cm_expected cmd) (oc_version oc)
           \<lparr>ar_action = action_of jl hid epoch command_id actor cmd oc seq, ar_tag = tag\<rparr> (db, w) = (Inr x, (db', w'))"
  shows "appended mc jl hid epoch command_id actor cmd oc seq db db'"
  using assms(1-3) append_body_effect [OF assms(4)] unfolding appended_def Let_def
  by (fastforce simp: list_all_iff action_of_def)

lemma append_effect:
  assumes "append_action mc jl hid epoch command_id actor cmd oc seq s = (r, s')"
  shows "(\<exists>e. r = Inl e) \<and> fst s' = fst s \<or>
    appended mc jl hid epoch command_id actor cmd oc seq (fst s) (fst s') \<and>
    (r = Inr () \<or> (\<exists>failure. r = Inl (Wrapped ''ambiguous live action commit'' (Fault failure))))"
proof (cases r)
  case (Inr u)
  with assms show ?thesis
    by (auto simp: append_action_body Let_def call_simps split: if_splits elim!: journal_transaction_Inr intro!: appendedI)
next
  case (Inl e)
  with assms show ?thesis
    by (fastforce simp: append_action_body Let_def call_simps split: if_splits elim!: journal_transaction_cases intro: appendedI)
qed


section \<open>Effects of the other operations\<close>

lemma create_effect:
  assumes "create_journal mc genesis s = (r, s')"
  shows "fst s' = fst s \<or>
    r = Inr () \<and> writer_table (fst s) (hn_id genesis) = None \<and>
    fst s' = (fst s)\<lparr>db_writers :=
      AList.update (hn_id genesis) \<lparr>ww_epoch = 1, ww_committed = 1, ww_genesis = genesis\<rparr> (db_writers (fst s))\<rparr>"
  using assms
  by (cases r) (auto simp: create_journal_def call_simps insert_writer_def split: option.splits if_splits elim!: statement_cases)

lemma delete_unused_effect:
  assumes "delete_unused mc hid s = (r, s')"
  shows "fst s' = fst s \<or>
    hand_log (fst s) hid = [] \<and> fst s' = (fst s)\<lparr>db_writers := AList.delete hid (db_writers (fst s))\<rparr>"
  using assms
  by (cases r) (auto simp: delete_unused_def call_simps delete_writer_def hand_log_def split: option.splits if_splits elim!: statement_cases)

lemma acquire_Inr:
  assumes "acquire_writer mc hid s = (Inr (epoch, version, genesis), s')"
  shows "\<exists>row. writer_table (fst s) hid = Some row \<and> ww_epoch row \<noteq> - 1 \<and> epoch = ww_epoch row + 1 \<and>
    version = ww_committed row \<and> genesis = ww_genesis row \<and>
    fst s' = (fst s)\<lparr>db_writers := AList.update hid (row\<lparr>ww_epoch := epoch\<rparr>) (db_writers (fst s))\<rparr>"
  using assms
  by (auto simp: acquire_writer_def call_simps select_row_Inr set_epoch_def check_genesis_def
      split: if_splits option.splits elim!: journal_transaction_Inr statement_Inr_cases)

lemma acquire_body:
  assumes "(and_then (statement drv ''select writer'' (select_row writer_table hid)) (\<lambda>row.
        and_then (guard (ww_epoch row = - 1) (Core (Journal WriterFenced))) (\<lambda>_.
        and_then (check_genesis hid (ww_genesis row)) (\<lambda>_.
        and_then (statement drv ''update writer'' (set_epoch hid (ww_epoch row + 1))) (\<lambda>_.
          give (ww_epoch row + 1, ww_committed row, ww_genesis row)))))) (db, w) = (Inr x, (db', w'))"
  shows "\<exists>row. writer_table db hid = Some row \<and> ww_epoch row \<noteq> - 1 \<and>
    db' = db\<lparr>db_writers := AList.update hid (row\<lparr>ww_epoch := ww_epoch row + 1\<rparr>) (db_writers db)\<rparr>"
  using assms
  by (auto simp: call_simps select_row_Inr set_epoch_def check_genesis_def split: if_splits option.splits elim!: statement_Inr_cases)

lemma acquire_effect:
  assumes "acquire_writer mc hid s = (r, s')"
  shows "fst s' = fst s \<or>
    (\<exists>row. writer_table (fst s) hid = Some row \<and> ww_epoch row \<noteq> - 1 \<and>
       fst s' = (fst s)\<lparr>db_writers := AList.update hid (row\<lparr>ww_epoch := ww_epoch row + 1\<rparr>) (db_writers (fst s))\<rparr>)"
proof -
  from assms show ?thesis
    unfolding acquire_writer_def
  proof (cases rule: journal_transaction_cases)
    case (applied x w s1)
    obtain db1 w1 where "s1 = (db1, w1)" by (cases s1)
    with applied(1) have "\<exists>row. writer_table (fst s) hid = Some row \<and> ww_epoch row \<noteq> - 1 \<and>
        db1 = (fst s)\<lparr>db_writers := AList.update hid (row\<lparr>ww_epoch := ww_epoch row + 1\<rparr>) (db_writers (fst s))\<rparr>"
      by (intro acquire_body) simp
    with applied(2) \<open>s1 = (db1, w1)\<close> show ?thesis by simp
  qed simp
qed

lemma fence_effect:
  assumes "fence_live_writer drv hid s = (r, s')"
  shows "fst s' = fst s \<or>
    (\<exists>row. writer_table (fst s) hid = Some row \<and> ww_epoch row \<noteq> - 1 \<and>
       fst s' = (fst s)\<lparr>db_writers := AList.update hid (row\<lparr>ww_epoch := ww_epoch row + 1\<rparr>) (db_writers (fst s))\<rparr>)"
  using assms
  by (cases r) (auto simp: fence_live_writer_def call_simps advance_epoch_def split: option.splits if_splits elim!: statement_cases)

text \<open>Statements that leave the writers and the actions alone.\<close>

definition log_view :: "'w state \<Rightarrow> (hand_id \<times> writer_row) list \<times> action_row list" where
  "log_view s = (db_writers (fst s), db_actions (fst s))"

lemma log_view_same: "log_view (db, w) = log_view (db', w') \<longleftrightarrow> db_writers db = db_writers db' \<and> db_actions db = db_actions db'"
  by (simp add: log_view_def)

lemma keeps_transaction:
  assumes "\<And>db w w'. view (db, w) = view (db, w')" "keeps view body"
  shows "keeps view (journal_transaction drv commit_error body)"
proof (rule keepsI)
  fix s r s' assume "journal_transaction drv commit_error body s = (r, s')"
  then show "view s' = view s"
  proof (cases rule: journal_transaction_cases)
    case undone then show ?thesis using assms(1) by (metis prod.collapse)
  next
    case (applied x w s1)
    have "view s1 = view (fst s, w)" using assms(2) applied(1) by (rule keepsD)
    then show ?thesis using applied(2) assms(1) by (metis prod.collapse)
  qed
qed

lemma keeps_random: "(\<And>db w w'. view (db, w) = view (db, w')) \<Longrightarrow> keeps view (read_random mc n e)"
  by (rule keepsI) (auto simp: read_random_def split: prod.splits option.splits)

lemma log_view_statement:
  "(\<And>r db db'. run db = (r, db') \<Longrightarrow> db_writers db' = db_writers db \<and> db_actions db' = db_actions db) \<Longrightarrow>
   keeps log_view (statement drv name run)"
  unfolding log_view_def using statement_keeps [of run "\<lambda>db. (db_writers db, db_actions db)"] by simp

lemma log_view_keeps [keeps_intros]:
  "keeps log_view (statement drv name (select_row table k))"
  "keeps log_view (statement drv name (select_optional table2 k2))"
  "keeps log_view (statement drv name (insert_seed hid seed))" "keeps log_view (statement drv name (delete_seed_row hid))"
  "keeps log_view (statement drv name (rewrite_seed hid seed))" "keeps log_view (statement drv name (upsert_checkpoint hid cp))"
  "keeps log_view (statement drv name (rewrite_checkpoint hid v n c))" "keeps log_view (read_random mc k3 e)"
  "keeps log_view body \<Longrightarrow> keeps log_view (journal_transaction drv commit_error body)"
  by (rule log_view_statement, auto simp: select_row_def select_optional_def insert_seed_def delete_seed_row_def
      rewrite_seed_def upsert_checkpoint_def rewrite_checkpoint_def split: option.splits if_splits)+
    (auto intro!: keeps_random keeps_transaction simp: log_view_def)

lemma sealed_tables_keep:
  "keeps log_view (save_checkpoint mc jl hid epoch version payload)" "keeps log_view (reencrypt_checkpoint mc jl hid epoch)"
  "keeps log_view (save_seed mc st hid seed)" "keeps log_view (delete_seed mc hid)" "keeps log_view (reencrypt_seed mc st hid)"
  by (auto simp: save_checkpoint_def reencrypt_checkpoint_def save_seed_def delete_seed_def reencrypt_seed_def Let_def
      intro!: keeps_intros split: option.splits)

lemma hand_log_cong: "db_actions db' = db_actions db \<Longrightarrow> hand_log db' = hand_log db"
  by (simp add: hand_log_def hand_actions_def fun_eq_iff)

lemma writer_table_cong: "db_writers db' = db_writers db \<Longrightarrow> writer_table db' = writer_table db"
  by (simp add: writer_table_def)

lemma prune_tables_Inr:
  assumes "prune_tables mc hid s = (Inr u, s')"
  shows "db_writers (fst s') = AList.delete hid (db_writers (fst s)) \<and>
    db_actions (fst s') = filter (\<lambda>row. la_hand (ar_action row) \<noteq> hid) (db_actions (fst s))"
proof -
  from assms have "fst s' = (fst s)\<lparr>db_checkpoints := (db_checkpoints (fst s))(hid := None),
      db_actions := filter (\<lambda>row. la_hand (ar_action row) \<noteq> hid) (db_actions (fst s)),
      db_seeds := (db_seeds (fst s))(hid := None), db_writers := AList.delete hid (db_writers (fst s))\<rparr>"
    by (auto simp: prune_tables_def delete_rows_def call_simps elim!: statement_Inr_cases)
  then show ?thesis by simp
qed

text \<open>The removal of an archived hand, given that the archive's reader leaves the writers and the actions alone.\<close>

definition prune_body :: "'w machine \<Rightarrow> hand_id \<Rightarrow> final_record \<Rightarrow> ('w state, unit) call" where
  "prune_body mc hid final =
     and_then (statement (mc_driver mc) ''select writer'' (select_eligible writer_table hid)) (\<lambda>writer.
     and_then (statement (mc_driver mc) ''select hand'' (select_eligible db_hands hid)) (\<lambda>hand.
     and_then (guard (hw_phase hand \<noteq> HandCompleted \<or> ww_committed writer \<noteq> fr_version final) not_eligible) (\<lambda>_.
     and_then (statement (mc_driver mc) ''count actions'' (\<lambda>db. (Inr (length (hand_actions db hid)), db))) (\<lambda>actions.
     and_then (guard (word_of_nat actions \<noteq> ww_committed writer - 1) bad_replay) (\<lambda>_.
       prune_tables mc hid)))))"

definition pruned_log :: "hand_id \<Rightarrow> 'w state \<Rightarrow> (hand_id \<times> writer_row) list \<times> action_row list" where
  "pruned_log hid s =
     (AList.delete hid (db_writers (fst s)), filter (\<lambda>row. la_hand (ar_action row) \<noteq> hid) (db_actions (fst s)))"

lemma prune_body_Inr: "prune_body mc hid final s = (Inr u, s') \<Longrightarrow> log_view s' = pruned_log hid s"
  by (auto simp: prune_body_def call_simps log_view_def pruned_log_def select_eligible_def split: option.splits if_splits
      elim!: statement_Inr_cases dest!: prune_tables_Inr)

lemma prune_transaction:
  assumes "journal_transaction drv Fault (prune_body mc hid final) s = (r, s')"
  shows "log_view s' = log_view s \<or> log_view s' = pruned_log hid s"
  using assms
proof (cases rule: journal_transaction_cases)
  case (applied x w s1)
  then show ?thesis using prune_body_Inr [OF applied(1)] by (simp add: log_view_def pruned_log_def)
qed (simp add: log_view_def)

lemma and_then_guard: "and_then (guard b e) f s = (if b then (Inl e, s) else f () s)"
  by (simp add: and_then_def guard_def give_def fail_with_def)

lemma prune_effect:
  assumes "prune_archived_hand mc load_final now hid older s = (r, s')" "keeps log_view (load_final hid)"
  shows "log_view s' = log_view s \<or> log_view s' = pruned_log hid s"
proof -
  let ?load = "or_else (load_final hid) (\<lambda>e. fail_with not_eligible)"
  have k: "keeps log_view ?load" using assms(2) by (intro keeps_intros)
  have p: "pruned_log hid s1 = pruned_log hid s" if "log_view s1 = log_view s" for s1 :: "'a state"
    using that by (simp add: log_view_def pruned_log_def)
  from assms(1) show ?thesis
    unfolding prune_archived_hand_def Let_def prune_body_def [symmetric]
  proof (cases rule: and_then_cases)
    case 1
    then show ?thesis by (simp add: guard_run split: if_splits)
  next
    case (2 x s1)
    then have s1: "s1 = s" by (simp add: guard_run split: if_splits)
    from 2(2) show ?thesis unfolding s1
    proof (cases rule: and_then_cases)
      case 1
      then show ?thesis using keepsD [OF k] by blast
    next
      case (2 final s2)
      then have s2: "log_view s2 = log_view s" using keepsD [OF k] by blast
      obtain f archived where f: "final = (f, archived)" by (cases final)
      from 2(2) have "s' = s2 \<or> journal_transaction (mc_driver mc) Fault (prune_body mc hid f) s2 = (r, s')"
        unfolding f case_prod_conv and_then_guard by (simp split: if_splits)
      then show ?thesis using s2 prune_transaction p [OF s2] by metis
    qed
  qed
qed

section \<open>Processes that share the journal\<close>

text \<open>
  \<open>live_step fleet payloads\<close> is one operation of one process: a machine and a journal with its keys. An append
  whose COMMIT failed is a step too, whether it was applied or not. The runtime appends payloads of its own
  making, \<open>payloads\<close>. \<open>Elsewhere\<close> is whatever leaves the two tables alone: the application's commands, the
  checkpoints and seeds (\<open>sealed_tables_keep\<close>), and every operation that failed before it wrote.
\<close>

datatype live_event = Created hand_id | Dropped hand_id | Taken hand_id | Appended hand_id | Fenced hand_id | Pruned hand_id | Elsewhere

inductive live_step :: "('w machine \<times> journal) set \<Rightarrow> bytes set \<Rightarrow> live_event \<Rightarrow> database \<Rightarrow> database \<Rightarrow> bool"
  for fleet payloads where
  step_create: "(mc, jl) \<in> fleet \<Longrightarrow> create_journal mc genesis (db, w) = (r, (db', w')) \<Longrightarrow>
     live_step fleet payloads (Created (hn_id genesis)) db db'"
| step_drop: "(mc, jl) \<in> fleet \<Longrightarrow> delete_unused mc hid (db, w) = (r, (db', w')) \<Longrightarrow>
     live_step fleet payloads (Dropped hid) db db'"
| step_take: "(mc, jl) \<in> fleet \<Longrightarrow> acquire_writer mc hid (db, w) = (r, (db', w')) \<Longrightarrow>
     live_step fleet payloads (Taken hid) db db'"
| step_append: "(mc, jl) \<in> fleet \<Longrightarrow> cm_payload cmd \<in> payloads \<Longrightarrow>
     append_action mc jl hid epoch command_id actor cmd oc seq (db, w) = (r, (db', w')) \<Longrightarrow>
     live_step fleet payloads (Appended hid) db db'"
| step_fence: "(mc, jl) \<in> fleet \<Longrightarrow> fence_live_writer (mc_driver mc) hid (db, w) = (r, (db', w')) \<Longrightarrow>
     live_step fleet payloads (Fenced hid) db db'"
| step_prune: "(mc, jl) \<in> fleet \<Longrightarrow> keeps log_view (load_final hid) \<Longrightarrow>
     prune_archived_hand mc load_final now hid older (db, w) = (r, (db', w')) \<Longrightarrow> live_step fleet payloads (Pruned hid) db db'"
| step_elsewhere: "db_writers db' = db_writers db \<Longrightarrow> db_actions db' = db_actions db \<Longrightarrow>
     live_step fleet payloads Elsewhere db db'"

inductive live_run :: "('w machine \<times> journal) set \<Rightarrow> bytes set \<Rightarrow> live_event list \<Rightarrow> database \<Rightarrow> database \<Rightarrow> bool"
  for fleet payloads where
  run_none: "live_run fleet payloads [] db db"
| run_more: "live_run fleet payloads evs db db' \<Longrightarrow> live_step fleet payloads ev db' db'' \<Longrightarrow>
     live_run fleet payloads (evs @ [ev]) db db''"

section \<open>One hand\<close>

text \<open>What the two tables hold of a hand, and the few things that can happen to it.\<close>

type_synonym hand_view = "writer_row option \<times> action_row list"

definition view_of :: "database \<Rightarrow> hand_id \<Rightarrow> hand_view" where
  "view_of db hid = (writer_table db hid, hand_actions db hid)"

inductive hand_step :: "('w machine \<times> journal) set \<Rightarrow> bytes set \<Rightarrow> hand_id \<Rightarrow> bool \<Rightarrow> hand_view \<Rightarrow> hand_view \<Rightarrow> bool"
  for fleet payloads hid where
  hs_same: "hand_step fleet payloads hid erased v v"
| hs_create: "hand_step fleet payloads hid False (None, as) (Some \<lparr>ww_epoch = 1, ww_committed = 1, ww_genesis = genesis\<rparr>, as)"
| hs_drop: "hand_step fleet payloads hid False (Some row, []) (None, [])"
| hs_take: "ww_epoch row \<noteq> - 1 \<Longrightarrow>
     hand_step fleet payloads hid False (Some row, as) (Some (row\<lparr>ww_epoch := ww_epoch row + 1\<rparr>), as)"
| hs_append: "(mc, jl) \<in> fleet \<Longrightarrow> cm_payload cmd \<in> payloads \<Longrightarrow>
     \<not> append_invalid hid (ww_epoch row) command_id actor cmd oc \<Longrightarrow> (jl_key jl = [] \<longrightarrow> seq = 0) \<Longrightarrow>
     integrity_tag (action_of jl hid (ww_epoch row) command_id actor cmd oc seq) (jl_key jl) = Inr tag \<Longrightarrow>
     ww_committed row = cm_expected cmd \<Longrightarrow> command_id \<notin> la_command ` ar_action ` set as \<Longrightarrow>
     hand_step fleet payloads hid False (Some row, as)
       (Some (row\<lparr>ww_committed := oc_version oc\<rparr>),
        as @ [stored_row mc (action_of jl hid (ww_epoch row) command_id actor cmd oc seq) tag])"
| hs_erase: "hand_step fleet payloads hid True v (None, [])"

lemma hand_actions_append [simp]:
  "hand_actions (db\<lparr>db_actions := db_actions db @ [row]\<rparr>) hid =
    hand_actions db hid @ (if la_hand (ar_action row) = hid then [row] else [])"
  by (simp add: hand_actions_def)

lemma hand_actions_frame [simp]: "hand_actions (db\<lparr>db_writers := x\<rparr>) = hand_actions db"
  by (simp add: hand_actions_def fun_eq_iff)

lemma hand_log_empty: "hand_log db hid = [] \<longleftrightarrow> hand_actions db hid = []"
  by (simp add: hand_log_def)

lemma view_same: "db_writers db' = db_writers db \<Longrightarrow> db_actions db' = db_actions db \<Longrightarrow> view_of db' hid = view_of db hid"
  by (simp add: view_of_def writer_table_def hand_actions_def)

lemma view_pruned:
  "db_writers db' = AList.delete hid (db_writers db) \<Longrightarrow>
   db_actions db' = filter (\<lambda>row. la_hand (ar_action row) \<noteq> hid) (db_actions db) \<Longrightarrow>
   view_of db' hid' = (if hid' = hid then (None, []) else view_of db hid')"
  by (auto simp: view_of_def writer_table_def hand_actions_def delete_conv' filter_empty_conv intro!: filter_cong)

lemma la_hand_stored [simp]:
  "la_hand (ar_action (stored_row mc (action_of jl hid epoch command_id actor cmd oc seq) tag)) = hid"
  by (simp add: stored_row_def action_of_def)

lemma appended_view:
  assumes "appended mc jl hid epoch command_id actor cmd oc seq db db'" and "(mc, jl) \<in> fleet" and "cm_payload cmd \<in> payloads"
  shows "hand_step fleet payloads hid' False (view_of db hid') (view_of db' hid')"
proof -
  let ?a = "action_of jl hid epoch command_id actor cmd oc seq"
  from assms(1) obtain row tag where
    a: "\<not> append_invalid hid epoch command_id actor cmd oc" "jl_key jl = [] \<longrightarrow> seq = 0" "integrity_tag ?a (jl_key jl) = Inr tag"
      "writer_table db hid = Some row" "ww_epoch row = epoch" "ww_committed row = cm_expected cmd"
      "command_id \<notin> la_command ` set (hand_log db hid)"
    and db': "db' = db\<lparr>db_actions := db_actions db @ [stored_row mc ?a tag],
                  db_writers := AList.update hid (row\<lparr>ww_committed := oc_version oc\<rparr>) (db_writers db)\<rparr>"
    unfolding appended_def Let_def by blast
  have w: "writer_table db' = (writer_table db)(hid \<mapsto> row\<lparr>ww_committed := oc_version oc\<rparr>)"
    by (simp add: db' writer_table_def update_conv')
  show ?thesis
  proof (cases "hid' = hid")
    case True
    have "command_id \<notin> la_command ` ar_action ` set (hand_actions db hid)" using a(7) by (simp add: hand_log_def)
    from hs_append [OF assms(2,3) a(1) [folded a(5)] a(2) a(3) [folded a(5)] a(6) this]
    show ?thesis using a(4) by (simp add: True view_of_def w) (simp add: db' a(5))
  next
    case False
    then have "view_of db' hid' = view_of db hid'" by (simp add: view_of_def w) (simp add: db')
    then show ?thesis by (simp add: hs_same)
  qed
qed

lemma view_update:
  "view_of (db\<lparr>db_writers := AList.update hid row (db_writers db)\<rparr>) hid' =
    (if hid' = hid then (Some row, hand_actions db hid) else view_of db hid')"
  "view_of (db\<lparr>db_writers := AList.delete hid (db_writers db)\<rparr>) hid' =
    (if hid' = hid then (None, hand_actions db hid) else view_of db hid')"
  by (simp_all add: view_of_def)

lemma step_view:
  assumes "live_step fleet payloads ev db db'"
  shows "hand_step fleet payloads hid (ev = Pruned hid) (view_of db hid) (view_of db' hid)"
  using assms
proof cases
  case (step_create mc jl genesis w r w')
  then show ?thesis using create_effect [OF step_create(3)]
    by (auto simp: view_update hs_same) (simp add: view_of_def hs_create)
next
  case (step_drop mc jl hid' w r w')
  then show ?thesis using delete_unused_effect [OF step_drop(3)]
    by (cases "writer_table db hid'") (auto simp: view_update hs_same hand_log_empty, auto simp: view_of_def hs_drop hs_same)
next
  case (step_take mc jl hid' w r w')
  then show ?thesis using acquire_effect [OF step_take(3)]
    by (auto simp: view_update hs_same) (simp add: view_of_def hs_take)
next
  case (step_append mc jl cmd hid' epoch command_id actor oc seq w r w')
  then show ?thesis using append_effect [OF step_append(4)]
    by (auto simp: hs_same intro: appended_view)
next
  case (step_fence mc jl hid' w r w')
  then show ?thesis using fence_effect [OF step_fence(3)]
    by (auto simp: view_update hs_same) (simp add: view_of_def hs_take)
next
  case (step_prune mc jl load_final hid' now older w r w')
  from prune_effect [OF step_prune(4,3)] consider
    "db_writers db' = db_writers db" "db_actions db' = db_actions db"
  | "db_writers db' = AList.delete hid' (db_writers db)"
    "db_actions db' = filter (\<lambda>row. la_hand (ar_action row) \<noteq> hid') (db_actions db)"
    by (auto simp: log_view_def pruned_log_def)
  then show ?thesis
  proof cases
    case 1
    show ?thesis unfolding view_same [OF 1] by (rule hs_same)
  next
    case 2
    show ?thesis unfolding view_pruned [OF 2] step_prune(1) by (simp add: hs_same hs_erase)
  qed
next
  case step_elsewhere
  show ?thesis unfolding view_same [OF step_elsewhere(2,3)] by (rule hs_same)
qed

end
