(* ===== verification/Journal_Properties.thy ===== *)
theory Journal_Properties
  imports Journal_Laws
begin

text \<open>
  What a hand's journal promises, over every interleaving of the processes that share it: the invariant of the
  two tables, and that a command that was answered with success is in the log, stays there, and is read back.
\<close>

section \<open>The invariant\<close>

definition writer_ok :: "writer_row \<Rightarrow> live_action list \<Rightarrow> bool" where
  "writer_ok row as \<longleftrightarrow>
     length as \<le> max_live_actions \<and> ww_committed row = of_nat (length as) + 1 \<and> ww_epoch row \<noteq> 0 \<and>
     chain 2 0 as \<and> list_all (\<lambda>a. la_epoch a \<le> ww_epoch row) as \<and> distinct (map la_command as)"

text \<open>A row that some process of the fleet wrote, as far as the reader checks it.\<close>

definition tagged_by :: "journal \<Rightarrow> action_row \<Rightarrow> bool" where
  "tagged_by jl row \<longleftrightarrow>
     integrity_tag (ar_action row) (jl_key jl) = Inr (ar_tag row) \<and>
     la_integrity (ar_action row) = (if jl_key jl = [] then 1 else 2) \<and> (jl_key jl = [] \<longrightarrow> la_seq (ar_action row) = 0)"

definition fields_ok :: "live_action \<Rightarrow> bool" where
  "fields_ok a \<longleftrightarrow>
     la_command a \<noteq> [] \<and> length (la_command a) \<le> 128 \<and> la_actor a \<noteq> [] \<and> length (la_actor a) \<le> 128 \<and>
     1 \<le> la_position a \<and> la_position a \<le> 3 \<and> length (la_payload a) \<le> max_action_payload \<and>
     json_parse (la_payload a) \<noteq> None \<and> length (la_digest a) = 32"

definition row_ok :: "('w machine \<times> journal) set \<Rightarrow> action_row \<Rightarrow> bool" where
  "row_ok fleet row \<longleftrightarrow> fields_ok (ar_action row) \<and> (\<exists>(mc, jl) \<in> fleet. tagged_by jl row)"

definition hand_ok :: "('w machine \<times> journal) set \<Rightarrow> hand_view \<Rightarrow> bool" where
  "hand_ok fleet v \<longleftrightarrow>
     (case fst v of
        None \<Rightarrow> snd v = []
      | Some row \<Rightarrow> writer_ok row (map ar_action (snd v)) \<and> list_all (row_ok fleet) (snd v))"

text \<open>
  What is relied on of the JSON column, for the payloads that the runtime writes: the text that is read back is
  the same value, and within the bound that the reader checks.
\<close>

definition columns_ok :: "('w machine \<times> journal) set \<Rightarrow> bytes set \<Rightarrow> bool" where
  "columns_ok fleet payloads \<longleftrightarrow>
     (\<forall>(mc, jl) \<in> fleet. \<forall>p \<in> payloads.
        canonical_payload (mc_column mc p) = canonical_payload p \<and> length (mc_column mc p) \<le> max_action_payload)"

lemma length_integrity_tag: "integrity_tag a key = Inr tag \<Longrightarrow> length tag = 32"
  by (auto simp: integrity_tag_def Let_def split: option.splits if_splits)

lemma canonical_parse:
  "canonical_payload p = canonical_payload q \<Longrightarrow> (json_parse p = None) = (json_parse q = None)"
  by (auto simp: canonical_payload_def)

lemma print_binding:
  assumes "json_print x = json_print y"
  shows "json_print (json_binding a x) = json_print (json_binding a y)"
  using assms by (simp add: json_binding_def member_def)

text \<open>The tag covers the value of the payload, not its text.\<close>

lemma integrity_tag_column:
  assumes "canonical_payload p = canonical_payload (la_payload a)"
  shows "integrity_tag (a\<lparr>la_payload := p\<rparr>) key = integrity_tag a key"
proof -
  have b: "json_binding (a\<lparr>la_payload := p\<rparr>) x = json_binding a x" for x by (simp add: json_binding_def)
  show ?thesis
  proof (cases "json_parse (la_payload a)")
    case None
    moreover have "json_parse p = None" using None canonical_parse [OF assms] by simp
    ultimately show ?thesis by (simp add: integrity_tag_def)
  next
    case (Some j)
    then obtain i where i: "json_parse p = Some i" using canonical_parse [OF assms] by auto
    have "json_print (canonical_json i) = json_print (canonical_json j)"
      using assms Some i by (simp add: canonical_payload_def)
    from print_binding [OF this, of a] show ?thesis by (simp add: integrity_tag_def Some i b)
  qed
qed

lemma stored_row_ok:
  assumes "(mc, jl) \<in> fleet" "columns_ok fleet payloads" "cm_payload cmd \<in> payloads"
    and "\<not> append_invalid hid epoch command_id actor cmd oc" "jl_key jl = [] \<longrightarrow> seq = 0"
    and "integrity_tag (action_of jl hid epoch command_id actor cmd oc seq) (jl_key jl) = Inr tag"
  shows "row_ok fleet (stored_row mc (action_of jl hid epoch command_id actor cmd oc seq) tag)"
proof -
  let ?a = "action_of jl hid epoch command_id actor cmd oc seq"
  have p: "la_payload ?a = cm_payload cmd" by (simp add: action_of_def)
  have c: "canonical_payload (mc_column mc (cm_payload cmd)) = canonical_payload (la_payload ?a)"
      "length (mc_column mc (cm_payload cmd)) \<le> max_action_payload"
    using assms(1-3) by (auto simp: columns_ok_def p)
  have "tagged_by jl (stored_row mc ?a tag)"
    using assms(5,6) integrity_tag_column [OF c(1)]
    by (simp add: tagged_by_def stored_row_def p) (simp add: action_of_def)
  moreover have "fields_ok (ar_action (stored_row mc ?a tag))"
    using assms(4) c(2) canonical_parse [OF c(1)]
    by (auto simp: fields_ok_def stored_row_def append_invalid_def action_of_def outcome_digest_def not_less)
  ultimately show ?thesis using assms(1) by (auto simp: row_ok_def)
qed

lemma chain_epoch: "chain v e as \<Longrightarrow> last_epoch e as \<le> E \<longleftrightarrow> (if as = [] then e \<le> E else la_epoch (last as) \<le> E)"
  by (simp add: last_epoch_def)

lemma append_version:
  assumes "\<not> append_invalid hid epoch command_id actor cmd oc" "cm_expected cmd = of_nat n + 1" "n \<le> max_live_actions"
  shows "Suc n \<le> max_live_actions" "oc_version oc = of_nat n + 2"
proof -
  have v: "oc_version oc = of_nat n + 2" "oc_version oc \<le> 513"
    using assms(1,2) by (simp_all add: append_invalid_def max_live_actions_def not_less)
  show "oc_version oc = of_nat n + 2" by (rule v(1))
  define m where "m = n + 2"
  have "m < 2 ^ 64" using assms(3) by (simp add: m_def max_live_actions_def)
  then have "unat (word_of_nat m :: u64) = m" by (simp add: unat_of_nat take_bit_nat_eq_self)
  moreover have "(word_of_nat m :: u64) \<le> 513" using v by (simp add: m_def add.commute)
  ultimately show "Suc n \<le> max_live_actions" by (simp add: m_def max_live_actions_def word_le_nat_alt)
qed

lemma writer_ok_append:
  assumes "writer_ok row as" "\<not> append_invalid hid (ww_epoch row) command_id actor cmd oc" "ww_committed row = cm_expected cmd"
    and "command_id \<notin> la_command ` set as" "la_version a = oc_version oc" "la_expected a = cm_expected cmd"
    and "la_epoch a = ww_epoch row" "la_command a = command_id"
  shows "writer_ok (row\<lparr>ww_committed := oc_version oc\<rparr>) (as @ [a])"
proof -
  have n: "cm_expected cmd = of_nat (length as) + 1" "length as \<le> max_live_actions"
    using assms(1,3) by (simp_all add: writer_ok_def)
  note v = append_version [OF assms(2) n]
  have "last_epoch 0 as \<le> ww_epoch row"
    using assms(1) by (cases as rule: rev_cases) (auto simp: writer_ok_def last_epoch_def)
  then show ?thesis
    using assms v n by (auto simp: writer_ok_def chain_append)
qed

lemma writer_ok_take:
  assumes "writer_ok row as" "ww_epoch row \<noteq> - 1"
  shows "writer_ok (row\<lparr>ww_epoch := ww_epoch row + 1\<rparr>) as"
proof -
  have z: "1 + ww_epoch row \<noteq> 0" using assms(2) by (metis add.commute eq_neg_iff_add_eq_0)
  then have "unat (1 + ww_epoch row) = Suc (unat (ww_epoch row))" by (rule unatSuc)
  then have "ww_epoch row \<le> ww_epoch row + 1" by (simp add: word_le_nat_alt add.commute)
  moreover have "ww_epoch row + 1 \<noteq> 0" using z by (simp add: add.commute)
  ultimately show ?thesis using assms(1) by (auto simp: writer_ok_def list_all_iff intro: order_trans)
qed

lemma la_stored [simp]:
  "la_version (ar_action (stored_row mc a tag)) = la_version a" "la_expected (ar_action (stored_row mc a tag)) = la_expected a"
  "la_epoch (ar_action (stored_row mc a tag)) = la_epoch a" "la_command (ar_action (stored_row mc a tag)) = la_command a"
  by (simp_all add: stored_row_def)

lemma la_action_of [simp]:
  "la_version (action_of jl hid epoch command_id actor cmd oc seq) = oc_version oc"
  "la_expected (action_of jl hid epoch command_id actor cmd oc seq) = cm_expected cmd"
  "la_epoch (action_of jl hid epoch command_id actor cmd oc seq) = epoch"
  "la_command (action_of jl hid epoch command_id actor cmd oc seq) = command_id"
  by (simp_all add: action_of_def)

lemma hand_step_ok:
  assumes "columns_ok fleet payloads" "hand_step fleet payloads hid b v v'" "hand_ok fleet v"
  shows "hand_ok fleet v'"
  using assms(2)
proof cases
  case hs_same
  then show ?thesis using assms(3) by simp
next
  case (hs_create as genesis)
  then show ?thesis using assms(3) by (simp add: hand_ok_def writer_ok_def)
next
  case hs_drop
  then show ?thesis by (simp add: hand_ok_def)
next
  case (hs_take row as)
  then show ?thesis using assms(3) writer_ok_take [OF _ hs_take(4)] by (simp add: hand_ok_def)
next
  case (hs_append mc jl cmd row command_id actor oc seq tag as)
  let ?a = "action_of jl hid (ww_epoch row) command_id actor cmd oc seq"
  have "row_ok fleet (stored_row mc ?a tag)" by (rule stored_row_ok [OF hs_append(4) assms(1) hs_append(5-8)])
  moreover have "writer_ok (row\<lparr>ww_committed := oc_version oc\<rparr>) (map ar_action as @ [ar_action (stored_row mc ?a tag)])"
  proof (rule writer_ok_append [OF _ hs_append(6,9)])
    show "writer_ok row (map ar_action as)" using assms(3) hs_append(2) by (simp add: hand_ok_def)
    show "command_id \<notin> la_command ` set (map ar_action as)" using hs_append(10) by simp
  qed simp_all
  ultimately show ?thesis using assms(3) hs_append(2,3) by (simp add: hand_ok_def)
next
  case hs_erase
  then show ?thesis by (simp add: hand_ok_def)
qed

text \<open>What a step leaves of a log: without an erasure it can only grow, under epochs that do not go back.\<close>

lemma hand_step_grows:
  assumes "hand_step fleet payloads hid False (Some row, as) v'" "as \<noteq> []" "ww_epoch row \<noteq> 0"
  obtains row' rest where "v' = (Some row', as @ rest)" "ww_epoch row \<le> ww_epoch row'"
  using assms(1)
proof cases
  case hs_same
  then show ?thesis using that [of row "[]"] by simp
next
  case hs_take
  have z: "1 + ww_epoch row \<noteq> 0" using hs_take(2) by (metis add.commute eq_neg_iff_add_eq_0)
  then have "unat (1 + ww_epoch row) = Suc (unat (ww_epoch row))" by (rule unatSuc)
  then have "ww_epoch row \<le> ww_epoch row + 1" by (simp add: word_le_nat_alt add.commute)
  then show ?thesis using that [of "row\<lparr>ww_epoch := ww_epoch row + 1\<rparr>" "[]"] hs_take by simp
next
  case hs_append
  then show ?thesis using that by simp
qed (use assms(2) in simp_all)

section \<open>Runs\<close>

definition journal_inv :: "('w machine \<times> journal) set \<Rightarrow> database \<Rightarrow> bool" where
  "journal_inv fleet db \<longleftrightarrow> (\<forall>hid. hand_ok fleet (view_of db hid))"

lemma run_inv:
  assumes "live_run fleet payloads evs db db'" "columns_ok fleet payloads" "journal_inv fleet db"
  shows "journal_inv fleet db'"
  using assms(1,3)
proof induction
  case (run_more evs db db' ev db'')
  then show ?case using hand_step_ok [OF assms(2) step_view [OF run_more(2)]] by (simp add: journal_inv_def)
qed

lemma empty_inv: "db_writers db = [] \<Longrightarrow> db_actions db = [] \<Longrightarrow> journal_inv fleet db"
  by (simp add: journal_inv_def view_of_def writer_table_def hand_actions_def hand_ok_def)

lemma run_grows:
  assumes "live_run fleet payloads evs db db'" "columns_ok fleet payloads" "journal_inv fleet db" "Pruned hid \<notin> set evs"
    and "view_of db hid = (Some row, as)" "as \<noteq> []"
  shows "\<exists>row' rest. view_of db' hid = (Some row', as @ rest) \<and> ww_epoch row \<le> ww_epoch row'"
  using assms(1,3-6)
proof induction
  case (run_more evs db db' ev db'')
  then obtain row' rest where v: "view_of db' hid = (Some row', as @ rest)" "ww_epoch row \<le> ww_epoch row'" by auto
  have "hand_ok fleet (view_of db' hid)" using run_inv [OF run_more(1) assms(2)] run_more(4) by (simp add: journal_inv_def)
  then have "ww_epoch row' \<noteq> 0" by (simp add: v hand_ok_def writer_ok_def)
  moreover have "hand_step fleet payloads hid False (Some row', as @ rest) (view_of db'' hid)"
    using step_view [OF run_more(2), of hid] run_more(5) by (auto simp: v)
  ultimately obtain row'' rest' where "view_of db'' hid = (Some row'', (as @ rest) @ rest')" "ww_epoch row' \<le> ww_epoch row''"
    using hand_step_grows run_more(7) by (metis append_is_Nil_conv)
  then show ?case using v(2) by (metis append.assoc order_trans)
qed auto

section \<open>Reading back\<close>

text \<open>A reader whose keys are those of the writers, or were.\<close>

definition covers :: "('w machine \<times> journal) set \<Rightarrow> journal \<Rightarrow> bool" where
  "covers fleet jl' \<longleftrightarrow>
     (\<forall>(mc, jl) \<in> fleet.
        if jl_key jl = [] then jl_key jl' = [] \<and> jl_key_readers jl' = []
        else jl_key jl' \<noteq> [] \<and> jl_key jl \<in> set (jl_key jl' # jl_key_readers jl'))"

lemma tag_matches_key:
  assumes "json_parse (la_payload a) \<noteq> None" "key \<in> set keys" "integrity_tag a key = Inr tag"
  shows "tag_matches a tag keys = Inr ()"
  using assms(2)
proof (induction keys)
  case (Cons k ks)
  obtain t where "integrity_tag a k = Inr t" using assms(1) by (auto simp: integrity_tag_def Let_def)
  with Cons assms(3) show ?case by auto
qed simp

lemma verify_covered:
  assumes "covers fleet jl'" "row_ok fleet row"
  shows "verify_integrity jl' (ar_action row) (ar_tag row) = Inr ()"
proof -
  obtain mc jl where jl: "(mc, jl) \<in> fleet" "tagged_by jl row" using assms(2) by (auto simp: row_ok_def)
  have p: "json_parse (la_payload (ar_action row)) \<noteq> None" using assms(2) by (simp add: row_ok_def fields_ok_def)
  have t: "integrity_tag (ar_action row) (jl_key jl) = Inr (ar_tag row)" using jl(2) by (simp add: tagged_by_def)
  have len: "length (ar_tag row) = 32" by (rule length_integrity_tag [OF t])
  show ?thesis
  proof (cases "jl_key jl = []")
    case True
    then have "jl_key jl' = []" "jl_key_readers jl' = []" using assms(1) jl(1) by (auto simp: covers_def)
    moreover have "tag_matches (ar_action row) (ar_tag row) [[]] = Inr ()" by (rule tag_matches_key [OF p _ t]) (simp add: True)
    ultimately show ?thesis using jl(2) len True by (simp add: verify_integrity_def tagged_by_def del: tag_matches.simps)
  next
    case False
    then have k: "jl_key jl' \<noteq> []" "jl_key jl \<in> set (jl_key jl' # jl_key_readers jl')" using assms(1) jl(1) by (auto simp: covers_def)
    have "tag_matches (ar_action row) (ar_tag row) (jl_key jl' # jl_key_readers jl') = Inr ()" by (rule tag_matches_key [OF p k(2) t])
    then show ?thesis using jl(2) len False k(1) by (simp add: verify_integrity_def tagged_by_def del: tag_matches.simps)
  qed
qed

lemma parse_nothing: "json_parse [] = None"
  by code_simp

lemma check_rows_log:
  assumes "covers fleet jl'"
  shows "n + length rows \<le> max_live_actions \<Longrightarrow> chain v e (map ar_action rows) \<Longrightarrow> list_all (row_ok fleet) rows \<Longrightarrow>
    check_rows jl' n v e rows = Inr (map ar_action rows)"
proof (induction rows arbitrary: n v e)
  case (Cons row rows)
  have "replay_action_ok (ar_action row) v e"
    using Cons.prems parse_nothing by (auto simp: replay_action_ok_def row_ok_def fields_ok_def)
  moreover have "la_payload (ar_action row) \<noteq> []" "1 \<le> la_position (ar_action row)" "la_position (ar_action row) \<le> 3"
    using calculation by (auto simp: replay_action_ok_def)
  ultimately show ?case
    using Cons.prems verify_covered [OF assms, of row] Cons.IH [of "Suc n" "v + 1" "la_epoch (ar_action row)"]
    by (simp add: Let_def not_less)
qed simp

lemma chain_versions:
  "chain v e as \<Longrightarrow> i < length as \<Longrightarrow> la_version (as ! i) = v + of_nat i"
proof (induction as arbitrary: v e i)
  case (Cons a as)
  then show ?case by (cases i) (auto simp: algebra_simps)
qed simp

lemma chain_sorted:
  assumes "chain 2 e (map ar_action rows)" "length rows \<le> max_live_actions"
  shows "sorted (map (\<lambda>row. la_version (ar_action row)) rows)"
  unfolding sorted_iff_nth_mono_less length_map
proof (intro allI impI)
  fix i j assume ij: "i < j" "j < length rows"
  have u: "unat (2 + word_of_nat k :: u64) = k + 2" if "k < 512" for k
  proof -
    define m where "m = k + 2"
    have "m < 2 ^ 64" using that by (simp add: m_def)
    then have "unat (word_of_nat m :: u64) = m" by (simp add: unat_of_nat take_bit_nat_eq_self)
    then show ?thesis by (simp add: m_def add.commute)
  qed
  have "la_version (ar_action (rows ! k)) = 2 + of_nat k" if "k < length rows" for k
    using chain_versions [OF assms(1), of k] that by simp
  then show "map (\<lambda>row. la_version (ar_action row)) rows ! i \<le> map (\<lambda>row. la_version (ar_action row)) rows ! j"
    using ij assms(2) by (simp add: word_le_nat_alt u max_live_actions_def)
qed

lemma read_journal_log:
  assumes "covers fleet jl'" "hand_ok fleet (view_of db hid)"
  shows "fst (read_journal mc jl' hid (db, w)) =
    (case fst (dv_statement (mc_driver mc) ''select actions'' w) of
       None \<Rightarrow> Inr (hand_log db hid) | Some failure \<Rightarrow> Inl (Fault failure))"
proof -
  let ?rows = "hand_actions db hid"
  have ok: "length ?rows \<le> max_live_actions" "chain 2 0 (map ar_action ?rows)" "list_all (row_ok fleet) ?rows"
    using assms(2) by (auto simp: hand_ok_def view_of_def writer_ok_def split: option.splits)
  have "sort_key (\<lambda>row. la_version (ar_action row)) ?rows = ?rows"
    by (rule sort_key_id_if_sorted [OF chain_sorted [OF ok(2,1)]])
  moreover have "check_rows jl' 0 2 0 ?rows = Inr (map ar_action ?rows)"
    by (rule check_rows_log [OF assms(1) _ ok(2,3)]) (simp add: ok(1))
  ultimately show ?thesis
    using ok(1)
    by (auto simp: read_journal_def and_then_def statement_def select_actions_def hand_log_def give_result_def
        split: prod.splits option.splits)
qed

section \<open>The contract\<close>

lemma append_refused:
  assumes "writer_table db hid = Some row" "epoch \<noteq> ww_epoch row"
  shows "fst (append_action mc jl hid epoch command_id actor cmd oc seq (db, w)) \<noteq> Inr () \<and>
    fst (snd (append_action mc jl hid epoch command_id actor cmd oc seq (db, w))) = db"
proof -
  obtain r db' w' where a: "append_action mc jl hid epoch command_id actor cmd oc seq (db, w) = (r, (db', w'))" by (metis prod_cases3)
  from append_effect [OF this] assms show ?thesis by (auto simp: a appended_def Let_def)
qed

text \<open>C40: the journal of the live hands. However many processes create, take over, fence, append to and prune
  journals, with any failures of the database and with COMMITs whose outcome nobody learns, an action whose
  append was answered with success is in the log of its hand until that hand is pruned: the log is what it was,
  then this action, then later ones. The log is contiguous, bounded, as long as the watermark says, under epochs
  that never go back, with every command once. An append under any epoch but the current one is refused and
  changes nothing. And every process whose keys are those of the writers reads back exactly this log, unless the
  database fails.\<close>

theorem journal_durable:
  fixes fleet :: "('w machine \<times> journal) set"
  assumes "db_writers db0 = []" and "db_actions db0 = []" and "live_run fleet payloads before db0 db"
    and "columns_ok fleet payloads" and "(mc, jl) \<in> fleet" and "cm_payload cmd \<in> payloads"
    and "append_action mc jl hid epoch command_id actor cmd oc seq (db, w) = (Inr (), (db1, w1))"
    and "live_run fleet payloads after db1 db2" and "Pruned hid \<notin> set after"
  shows "\<exists>row rest. writer_table db2 hid = Some row \<and> epoch \<le> ww_epoch row \<and>
    hand_log db2 hid = hand_log db hid @
      (action_of jl hid epoch command_id actor cmd oc seq)\<lparr>la_payload := mc_column mc (cm_payload cmd)\<rparr> # rest \<and>
    writer_ok row (hand_log db2 hid) \<and>
    (\<forall>(mc' :: 'w machine) jl' epoch' command_id' actor' cmd' oc' seq' w'. epoch' \<noteq> ww_epoch row \<longrightarrow>
       fst (append_action mc' jl' hid epoch' command_id' actor' cmd' oc' seq' (db2, w')) \<noteq> Inr () \<and>
       fst (snd (append_action mc' jl' hid epoch' command_id' actor' cmd' oc' seq' (db2, w'))) = db2) \<and>
    (\<forall>(mc' :: 'w machine) jl' w'. covers fleet jl' \<longrightarrow>
       fst (read_journal mc' jl' hid (db2, w')) =
         (case fst (dv_statement (mc_driver mc') ''select actions'' w') of
            None \<Rightarrow> Inr (hand_log db2 hid) | Some failure \<Rightarrow> Inl (Fault failure)))"
proof -
  let ?a = "action_of jl hid epoch command_id actor cmd oc seq"
  let ?b = "?a\<lparr>la_payload := mc_column mc (cm_payload cmd)\<rparr>"
  have inv: "journal_inv fleet db" by (rule run_inv [OF assms(3,4) empty_inv [OF assms(1,2)]])
  have step: "live_step fleet payloads (Appended hid) db db1" by (rule step_append [OF assms(5-7)])
  have inv1: "journal_inv fleet db1"
    using hand_step_ok [OF assms(4) step_view [OF step]] inv by (simp add: journal_inv_def)
  have "appended mc jl hid epoch command_id actor cmd oc seq db db1" using append_effect [OF assms(7)] by simp
  then obtain row1 tag where v1: "view_of db1 hid = (Some row1, hand_actions db hid @ [stored_row mc ?a tag])" "ww_epoch row1 = epoch"
    by (auto simp: appended_def Let_def view_of_def writer_table_def update_conv')
  obtain row rest where v: "view_of db2 hid = (Some row, (hand_actions db hid @ [stored_row mc ?a tag]) @ rest)"
      "ww_epoch row1 \<le> ww_epoch row"
    using run_grows [OF assms(8,4) inv1 assms(9) v1(1)] by auto
  have "ar_action (stored_row mc ?a tag) = ?b" by (simp add: stored_row_def action_of_def)
  then have log: "hand_log db2 hid = hand_log db hid @ ?b # map ar_action rest"
    using v(1) by (simp add: hand_log_def view_of_def)
  have ok: "hand_ok fleet (view_of db2 hid)" using run_inv [OF assms(8,4) inv1] by (simp add: journal_inv_def)
  have row: "writer_table db2 hid = Some row" using v(1) by (simp add: view_of_def)
  have "writer_ok row (hand_log db2 hid)" using ok row by (simp add: hand_ok_def view_of_def hand_log_def)
  moreover have "epoch \<le> ww_epoch row" using v(2) v1(2) by simp
  ultimately show ?thesis
    by (intro exI [of _ row] exI [of _ "map ar_action rest"] conjI allI impI)
      (rule row log append_refused [OF row, THEN conjunct1] append_refused [OF row, THEN conjunct2]
         read_journal_log [OF _ ok] | assumption)+
qed

section \<open>Witness\<close>

text \<open>One process, whose database never fails and whose JSON column keeps the text, and a hand that is being dealt.\<close>

definition steady_machine :: "unit machine" where
  "steady_machine =
     \<lparr>mc_driver = \<lparr>dv_statement = (\<lambda>name w. (None, w)), dv_commit = (\<lambda>w. ((None, True), w))\<rparr>,
      mc_random = (\<lambda>n w. (None, w)), mc_seal = (\<lambda>_ _ plain _. plain), mc_open = (\<lambda>_ _ cipher _. Some cipher), mc_column = id\<rparr>"

definition dealing_snapshot :: hand_snapshot where
  "dealing_snapshot =
     (hand_snapshot_of sample_hand)\<lparr>hn_phase := HandDealing,
        hn_beacon := Some \<lparr>bv_provider = ''P'', bv_round = ''1'', bv_digest = replicate 32 1, bv_proof_ref = ''Q''\<rparr>,
        hn_contributions := map (\<lambda>seat. \<lparr>cs_seat = seat, cs_committed = True, cs_commitment = replicate 32 1,
          cs_revealed = True, cs_digest = replicate 32 2, cs_record_ref = ''X''\<rparr>) [1, 2, 3]\<rparr>"

definition no_rows_yet :: database where
  "no_rows_yet =
     \<lparr>db_commands = Map.empty, db_sequences = Map.empty, db_rooms = [], db_hands = Map.empty, db_records = [],
      db_outbox = [], db_writers = [], db_actions = [], db_checkpoints = Map.empty, db_seeds = Map.empty\<rparr>"

definition first_move :: command where "first_move = \<lparr>cm_actor = 1, cm_expected = 1, cm_payload = [0x7B, 0x7D]\<rparr>"

definition first_outcome :: command_outcome where
  "first_outcome = \<lparr>oc_version = 2, oc_payload = [], oc_terminal = False, oc_final = []\<rparr>"

lemma dealing_ok: "case restore_hand dealing_snapshot of Inl e \<Rightarrow> False | Inr h \<Rightarrow> True"
  by code_simp

definition first_row :: writer_row where
  "first_row = \<lparr>ww_epoch = 1, ww_committed = 1, ww_genesis = dealing_snapshot\<rparr>"

lemma steady_create:
  "create_journal steady_machine dealing_snapshot (no_rows_yet, ()) = (Inr (), (no_rows_yet\<lparr>db_writers := [(''H'', first_row)]\<rparr>, ()))"
proof -
  obtain h where "restore_hand dealing_snapshot = Inr h" using dealing_ok by (cases "restore_hand dealing_snapshot") auto
  moreover have "hn_id dealing_snapshot = ''H''" "hn_phase dealing_snapshot = HandDealing"
    by (simp_all add: dealing_snapshot_def hand_snapshot_of_def sample_hand_def)
  ultimately show ?thesis
    by (simp add: create_journal_def and_then_def guard_def domain_call_def give_result_def wrap_infrastructure_def or_else_def statement_def
        steady_machine_def insert_writer_def writer_table_def no_rows_yet_def first_row_def)
qed

lemma empty_object: "json_parse [0x7B, 0x7D] = Some (JObj [])"
  by code_simp

lemma first_append:
  "\<exists>db. append_action steady_machine new_live_journal ''H'' 1 ''c'' ''A'' first_move first_outcome 0
      (no_rows_yet\<lparr>db_writers := [(''H'', first_row)]\<rparr>, ()) = (Inr (), (db, ()))"
proof -
  have "\<not> append_invalid ''H'' 1 ''c'' ''A'' first_move first_outcome"
    by (simp add: append_invalid_def first_move_def first_outcome_def max_action_payload_def max_live_actions_def empty_object)
  moreover have "integrity_tag (action_of new_live_journal ''H'' 1 ''c'' ''A'' first_move first_outcome 0) [] =
      Inr (sha256 (json_print (json_binding (action_of new_live_journal ''H'' 1 ''c'' ''A'' first_move first_outcome 0) (JObj []))))"
    by (simp add: integrity_tag_def action_of_def first_move_def empty_object sorted_members_def)
  ultimately show ?thesis
    by (simp add: append_action_body append_body_def Let_def and_then_def guard_def give_result_def journal_transaction_def
        statement_def steady_machine_def new_live_journal_def select_row_def writer_table_def insert_action_def hand_actions_def
        set_watermark_def first_row_def no_rows_yet_def action_of_def) (simp add: first_move_def first_outcome_def)
qed

theorem journal_durable_witness:
  "\<exists>db. append_action steady_machine new_live_journal ''H'' 1 ''c'' ''A'' first_move first_outcome 0
      (no_rows_yet\<lparr>db_writers := [(''H'', first_row)]\<rparr>, ()) = (Inr (), (db, ())) \<and>
    la_command (hd (hand_log db ''H'')) = ''c'' \<and>
    fst (read_journal steady_machine new_live_journal ''H'' (db, ())) = Inr (hand_log db ''H'')"
proof -
  let ?fleet = "{(steady_machine, new_live_journal)}" and ?payloads = "{[0x7B, 0x7D :: u8]}"
  obtain db1 where a: "append_action steady_machine new_live_journal ''H'' 1 ''c'' ''A'' first_move first_outcome 0
      (no_rows_yet\<lparr>db_writers := [(''H'', first_row)]\<rparr>, ()) = (Inr (), (db1, ()))" using first_append by blast
  have empty: "db_writers no_rows_yet = []" "db_actions no_rows_yet = []" by (simp_all add: no_rows_yet_def)
  have run: "live_run ?fleet ?payloads ([] @ [Created (hn_id dealing_snapshot)]) no_rows_yet (no_rows_yet\<lparr>db_writers := [(''H'', first_row)]\<rparr>)"
    by (rule run_more [OF run_none step_create [OF _ steady_create]]) simp
  have col: "columns_ok ?fleet ?payloads" by (simp add: columns_ok_def steady_machine_def max_action_payload_def)
  have p: "cm_payload first_move \<in> ?payloads" by (simp add: first_move_def)
  have log: "hand_log (no_rows_yet\<lparr>db_writers := [(''H'', first_row)]\<rparr>) ''H'' = []"
    by (simp add: hand_log_def hand_actions_def no_rows_yet_def)
  have cov: "covers ?fleet new_live_journal" by (simp add: covers_def new_live_journal_def)
  note d = journal_durable [OF empty run col singletonI p a run_none, unfolded log]
  have "la_command (hd (hand_log db1 ''H'')) = ''c''" using d by auto
  moreover have "fst (read_journal steady_machine new_live_journal ''H'' (db1, ())) = Inr (hand_log db1 ''H'')"
  proof -
    have "fst (dv_statement (mc_driver steady_machine) ''select actions'' ()) = None" by (simp add: steady_machine_def)
    then show ?thesis using d cov by fastforce
  qed
  ultimately show ?thesis using a by blast
qed

end
