(* ===== verification/Spec2Isabelle.thy ===== *)
theory Spec2Isabelle
  imports
    Sha256
    Randomized_Setup
    Settlement
    Hand_Safety
    Evidence_Records
    Live_Game_Properties
    App_Live
    App_Queries
    Mysql_Properties
    Live_Recovery
    Journal_Properties
begin

text \<open>
  A verification development for the Go server under \<open>src/server\<close>: provably fair Doudizhu hands, the rooms
  they are played in, and the durable commands that change both.

  \<^bold>\<open>The program.\<close> \<open>business/doudizhu/domain\<close> holds the rules as pure code: cards, shuffle and deal, patterns,
  the turn state, the auction, the settlement, and two aggregates, Room and Hand. \<open>business/gamecore\<close> is
  independent of the game: fairness material, setup artifacts, a registry of setup modules, and a directory of
  live games that archives each game once. \<open>domain/livehand\<close> is the Doudizhu game that runs in that directory
  and the offline verifier of its archived record. \<open>business/doudizhu/application\<close> is the service: each durable
  command claims its ID in a transaction, runs a handler on the aggregates and completes with a stored result.
  \<open>infrastructure/mysqlstore\<close> is that transaction in SQL. The hand aggregate ends where the live game begins:
  the hand collects the commitments, the contributions and the public beacon; the live game is made from the
  dealing hand, plays it, and its final record ends the hand and frees the room. \<open>infrastructure/runtime\<close> runs the
  live games of one process: it keeps the server seeds, appends each accepted move to a journal in SQL under a
  fenced owner epoch before it publishes it, and after a restart replays the journal from the dealing hand.

  \<^bold>\<open>How Go is modelled.\<close> Integers keep their width (\<open>u64\<close>, \<open>u8\<close>, \<open>i64\<close> are words, \<open>int\<close> where the code only
  counts), so arithmetic wraps; a string is the list of its bytes; an error is \<open>Inl\<close> of a datatype of the
  package's sentinels (\<open>Go_Errors\<close>, \<open>App_Types\<close>), wrapped where the code wraps it. A method with a pointer
  receiver is a function that also returns the new state. A method that fails after it has written returns
  that state too. What the code only calls is an argument of the definitions that use it: the beacon verifier, NFKC normalisation, AES-GCM protection, clocks, generators and runtimes are fields of
  \<open>service\<close> or parameters, and what is relied on of them is a named hypothesis with a witness. SHA-256, HMAC,
  hexadecimal, base64 and JSON belong to Go's standard library and are definitions (\<open>Sha256\<close>, \<open>Text_Codecs\<close>,
  \<open>Json_Text\<close>, \<open>Json\<close>, \<open>Json_Struct\<close>). Contexts, spans and log lines carry no data and are left out.

  \<^bold>\<open>Theories.\<close>
  \<^item> Shared: \<open>Go_Prelude\<close> (word types, results, the simp collections), \<open>Go_Strings\<close> (TrimSpace, UTF-8,
    big-endian integers), \<open>Go_Errors\<close>, \<open>Sha256\<close>, \<open>Text_Codecs\<close>, \<open>Json_Text\<close>, \<open>Json\<close>, \<open>Json_Struct\<close>,
    \<open>Byte_Reader\<close>.
  \<^item> \<open>domain/carddeck\<close>: \<open>Encoding\<close>, \<open>Cards\<close>, \<open>Random_Stream\<close> (seed, keystream, rejection sampling),
    \<open>Shuffle_Deal\<close>, \<open>Transcript\<close> (the fairness transcript and its decoder). Proved: reads of any sizes take
    consecutive bytes of the keystream, the sampling returns every value for equally many sequences of draws, the
    shuffle is a bijection between draws and orders of the deck, the dealt hands partition the deck, a text is
    accepted by the transcript parser exactly when it is the encoding of a valid transcript.
  \<^item> \<open>domain/playing\<close>: \<open>Pattern\<close>, \<open>Playing\<close>. Proved: \<open>Analyze\<close> returns exactly the preferred row of a
    declarative table of the fourteen patterns, \<open>CanBeat\<close> is a strict order, the turn state keeps its invariant and
    never deadlocks. \<open>domain/bidding\<close>, \<open>domain/settlement\<close>: \<open>Bidding\<close>, \<open>Settlement\<close>: the auction's outcome, the
    points add up to nothing and the winner is paid what the multiplier says.
  \<^item> \<open>domain/*.go\<close>: \<open>Domain_Types\<close>, \<open>Room\<close>, \<open>Hand\<close> (commands, events, snapshots, restore), \<open>Hand_Safety\<close>
    (reachable hands: nobody reveals before everybody committed, nothing is dealt before the beacon, a terminal
    hand is frozen).
  \<^item> \<open>business/gamecore\<close>: \<open>Gamecore_Random\<close>, \<open>Gamecore_Identity\<close>, \<open>Gamecore_Module\<close>, \<open>Live_Directory\<close> (state
    machine of the directory: a candidate is published only after its commit, a game is archived at most once,
    a quarantined game takes no command). \<open>domain/randomizedsetup\<close>: \<open>Randomized_Setup\<close>.
  \<^item> \<open>domain/livehand\<close>: \<open>Live_Wire\<close> (the JSON forms), \<open>Live_Game\<close> (\<open>game.go\<close>), \<open>Final_Evidence\<close> (\<open>evidence.go\<close>),
    \<open>Live_Replay\<close> and \<open>Evidence_Replay\<close> (replaying what the game recorded gives the game's state),
    \<open>Evidence_Records\<close> (every archived record passes the verifier), \<open>Live_Game_Safety\<close>, \<open>Live_Commands\<close>,
    \<open>Live_Game_Run\<close> (a concrete game for the witnesses), \<open>Live_Game_Properties\<close>.
  \<^item> \<open>application\<close>: \<open>App_Types\<close>, \<open>App_Service\<close> (\<open>ports.go\<close>, \<open>live_contracts.go\<close>, \<open>service.go\<close>: the path of a
    command), \<open>App_Codec\<close> (\<open>reveal_codec.go\<close>, \<open>drand_deadline.go\<close>), \<open>App_Commands\<close> (room and hand commands),
    \<open>App_Live\<close> (bids, plays, passes, views), \<open>App_Queries\<close> (rooms, fairness, contributions, evidence).
    \<open>App_Atomic\<close> states what the service relies on as locales (\<open>transaction_laws\<close>, extended by \<open>memory_laws\<close> and
    \<open>service_laws\<close>) and proves in them that a command that is not accepted leaves the data
    alone unless its COMMIT took effect and only the answer was lost; \<open>App_Requests\<close> makes the
    durable commands one type of requests.
  \<^item> \<open>infrastructure/mysqlstore\<close>: \<open>Mysql_Store\<close> (each SQL statement as a function on the tables; the driver may
    fail any statement, and a failed COMMIT may or may not have been applied), \<open>Mysql_Laws\<close> (the locales
    interpreted on the store), \<open>Mysql_Ledger\<close> and \<open>Mysql_Once\<close> (what is stored of a command), \<open>Game_State\<close> (the
    abstract game of rooms, hands and a log), \<open>Mysql_Refinement\<close> (every request is a step of it, or none),
    \<open>Mysql_Sample\<close> (an evaluated instance), \<open>Mysql_Properties\<close>.
  \<^item> The durable tables of the live hands: \<open>Live_Journal\<close> (\<open>live_journal.go\<close>, \<open>live_terminal_history.go\<close>: writer
    epochs, the watermark, the actions and their tags), \<open>Sealed_Tables\<close> (checkpoints, server seeds, rotation of
    their keys, removal of archived hands), \<open>Journal_Laws\<close> (what each operation does to the two journal tables, and
    the runs of many processes) and \<open>Journal_Properties\<close> (an acknowledged action is durable, the log contiguous, a
    fenced writer powerless, and the log is what every process with the keys reads back).
  \<^item> \<open>infrastructure/runtime\<close>: \<open>Hand_Setup\<close> (seed vault, hand setups, beacon evidence, identifiers), \<open>Live_Node\<close> (the
    coordinator: starting, undoing, views, aborting, retiring), \<open>Live_Receipts\<close> (receipts and the replay of a
    journal), \<open>Live_Checkpoint\<close>, \<open>Live_Moves\<close> (bids, plays and passes; the runtime and the setup provider as the
    application's interfaces), \<open>Live_Recovery\<close> (\<open>durable_live_recover.go\<close>). These are definitions over the verified
    directory, game and journal; their own properties are those of the journal.
  \<^bold>\<open>Bounds and fuel.\<close> Rejection sampling may go on for ever, so it is a partial function into \<open>option\<close>, and the
  theorems about drawn numbers say when it returns. The evaluated SHA-256 is structural on the padded blocks. The
  JSON parser recurses on the text. Loops over seats and cards are recursions on lists; no other fuel is used. Where
  the runtime samples a setup that never ends, its caller gives the error \<open>never_returns\<close>, which no code returns.

  \<^bold>\<open>Modelling decisions.\<close> Transactions of the store run one after the other: row locks are not modelled, and what
  other connections do is a step between two requests. The keys of the tables are compared exactly; the schema
  declares the collation \<open>utf8mb4_unicode_ci\<close>, which also identifies texts that differ in case only. JSON columns hold the values and not their text. Times are nanoseconds with a location.
  The tables of the live runtime (writers, actions, checkpoints, seeds) are written over other connections while a
  command's transaction is open, so what happens to them survives its rollback (\<open>rolled_back\<close>). What a JSON column gives back for a text is a
  function of the machine (\<open>mc_column\<close>), of which \<open>columns_ok\<close> says that it keeps the value that the text denotes
  and the bound that the readers check. An operation of the runtime is one step, as its locks make it; the
  goroutine that writes a checkpoint is a step of its own.

  \<^bold>\<open>Not modelled\<close>, with the reasons listed by component in the manifest: the lifecycle supervisor's polling loops (they issue the
  durable commands), AES-GCM, HPKE, BLS, HTTP and Unicode libraries (parameters), the archive's SQL, identity, authentication, authorization, administration and realtime connections under
  \<open>platform\<close>, the drivers and middleware under \<open>foundation\<close>, and the HTTP layer and wiring under \<open>apps\<close>.
\<close>

end
